(* ===== verification/Sentinel_Prelude.thy ===== *)
theory Sentinel_Prelude
  imports Main "HOL-Library.AList" "HOL-Library.Multiset"
begin

text \<open>
  Shared vocabulary of the development: the names of the model's basic types, the errors the Go
  packages return, the outcome of the temporary-file/rename sequence with which every file-backed
  store replaces its file, and the facts on association lists the stores share.

  Conventions. A Go string is a byte string, an Isabelle \<open>string\<close> (a list of 8-bit characters).
  An instant (\<open>time.Time\<close>, always normalised to UTC by the code) is an integer: nanoseconds since
  Go's zero time, so that \<open>IsZero\<close> is equality with 0. A Go map is an association list with
  distinct keys whose order is the (unspecified) iteration order of \<open>range\<close>; \<open>m[k] = v\<close> is
  \<open>AList.update\<close>, a lookup is \<open>map_of\<close>, \<open>delete\<close> is \<open>AList.delete\<close>. A function that can
  fail returns a sum with the error on the left. Every store operation runs under the store's
  mutex, so it is one atomic function on the state.
\<close>

section \<open>Types\<close>

type_synonym time = int
type_synonym duration = int

text \<open>
  The sentinel errors of the packages, and the anonymous ones (\<open>errors.New\<close>, \<open>fmt.Errorf\<close>) by
  their text. A wrapped sentinel (\<open>fmt.Errorf("%w: ...")\<close>) is the sentinel, which is all that
  \<open>errors.Is\<close> observes.
\<close>

datatype err =
    Err_NotFound              \<comment> \<open>store.ErrNotFound\<close>
  | Err_CapExpired            \<comment> \<open>capability.ErrExpired\<close>
  | Err_CapRevoked            \<comment> \<open>capability.ErrRevoked\<close>
  | Err_GlobalRevoked         \<comment> \<open>capability.ErrGlobalRevoked\<close>
  | Err_BackendUnavailable    \<comment> \<open>capability.ErrBackendUnavailable\<close>
  | Err_MalformedToken        \<comment> \<open>capability.ErrMalformedToken\<close>
  | Err_Disabled              \<comment> \<open>emergency.ErrDisabled\<close>
  | Err_StaleEpoch            \<comment> \<open>emergency.ErrStaleEpoch\<close>
  | Err_EpochExhausted        \<comment> \<open>emergency.ErrEpochExhausted\<close>
  | Err_NoJob                 \<comment> \<open>executionjob.ErrNoJob\<close>
  | Err_RequestConflict       \<comment> \<open>executionjob.ErrRequestConflict\<close>
  | Err_InvalidClaim          \<comment> \<open>executionjob.ErrInvalidClaim\<close>
  | Err_NotPending            \<comment> \<open>executionjob.ErrNotPending\<close>
  | Err_JobExpired            \<comment> \<open>executionjob.ErrExpired\<close>
  | Err_Integrity             \<comment> \<open>executionjob.ErrIntegrity\<close>
  | Err_AuthorizationDenied   \<comment> \<open>controlops.ErrAuthorizationDenied\<close>
  | Err_ApprovalInvalid       \<comment> \<open>controlops.ErrApprovalInvalid\<close>
  | Err_GrantInactive         \<comment> \<open>controlops.ErrGrantInactive\<close>
  | Err_Replay                \<comment> \<open>remotewrapper.ErrReplay\<close>
  | Err_IO                    \<comment> \<open>an error of the operating system or of the JSON encoder\<close>
  | Err_Rand                  \<comment> \<open>an error of crypto/rand\<close>
  | Err_Msg string            \<comment> \<open>errors.New with this text\<close>

section \<open>Atomic replacement of a file\<close>

text \<open>
  Every store persists by the same sequence: encode its state as JSON (which fails on instants outside
  the years 0 to 9999), create the directory and a temporary file in it, \<open>chmod\<close>, write, \<open>sync\<close>,
  \<open>close\<close>, \<open>rename\<close> over the store's path. Each call may fail; which one fails is an input of the
  operation (\<open>None\<close>: none of them), so a theorem that holds for every fault holds whatever the
  encoder and the file system do. The file changes only when the
  rename is reached, and nothing after the rename can make the sequence fail.
\<close>

datatype fs_step = Encode_json | Mkdir_all | Create_temp | Chmod_temp | Write_temp | Sync_temp | Close_temp | Rename_temp

type_synonym fs_fault = "fs_step option"

definition fs_sequence :: "fs_step list" where
  "fs_sequence = [Encode_json, Mkdir_all, Create_temp, Chmod_temp, Write_temp, Sync_temp, Close_temp, Rename_temp]"

fun run_fs :: "fs_step list \<Rightarrow> fs_fault \<Rightarrow> 'd \<Rightarrow> 'd \<Rightarrow> 'd \<times> err option" where
  "run_fs [] fault old new = (old, None)"
| "run_fs (st # sts) fault old new =
     (if fault = Some st then (old, Some Err_IO)
      else if st = Rename_temp then run_fs sts fault new new
      else run_fs sts fault old new)"

definition atomic_replace :: "fs_fault \<Rightarrow> 'd \<Rightarrow> 'd \<Rightarrow> 'd \<times> err option" where
  "atomic_replace fault old new = run_fs fs_sequence fault old new"

lemma atomic_replace_eq [simp]:
  "atomic_replace fault old new = (case fault of None \<Rightarrow> (new, None) | Some _ \<Rightarrow> (old, Some Err_IO))"
proof (cases fault)
  case (Some st)
  then show ?thesis by (cases st) (simp_all add: atomic_replace_def fs_sequence_def)
qed (simp add: atomic_replace_def fs_sequence_def)

section \<open>Sums and options\<close>

definition is_ok :: "'e + 'a \<Rightarrow> bool" where
  "is_ok r \<longleftrightarrow> (case r of Inl _ \<Rightarrow> False | Inr _ \<Rightarrow> True)"

lemma is_ok_simps [simp]: "is_ok (Inr x)" "\<not> is_ok (Inl e)"
  by (simp_all add: is_ok_def)

lemma is_ok_iff: "is_ok r \<longleftrightarrow> (\<exists>x. r = Inr x)"
  by (cases r) simp_all

section \<open>Association lists as Go maps\<close>

text \<open>
  A quantifier over the entries of a store is over the \<^emph>\<open>values\<close> found by lookup; under distinct
  keys that is the same as over the entries of the list.
\<close>

definition unique_keys :: "('k \<times> 'v) list \<Rightarrow> bool" where
  "unique_keys al \<longleftrightarrow> distinct (map fst al)"

lemma unique_keys_Nil [simp]: "unique_keys []"
  by (simp add: unique_keys_def)

definition all_recs :: "('v \<Rightarrow> bool) \<Rightarrow> ('k \<times> 'v) list \<Rightarrow> bool" where
  "all_recs P al \<longleftrightarrow> (\<forall>k v. map_of al k = Some v \<longrightarrow> P v)"

lemma all_recsD: "all_recs P al \<Longrightarrow> map_of al k = Some v \<Longrightarrow> P v"
  by (auto simp: all_recs_def)

lemma all_recs_Nil [simp]: "all_recs P []"
  by (simp add: all_recs_def)

lemma map_of_update [simp]: "map_of (AList.update k v al) = (map_of al)(k \<mapsto> v)"
  by (rule update_conv')

lemma map_of_delete [simp]: "map_of (AList.delete k al) = (map_of al)(k := None)"
  by (rule delete_conv')

lemma all_recs_update: "all_recs P al \<Longrightarrow> P v \<Longrightarrow> all_recs P (AList.update k v al)"
  by (auto simp: all_recs_def)

lemma all_recs_delete: "all_recs P al \<Longrightarrow> all_recs P (AList.delete k al)"
  by (auto simp: all_recs_def split: if_splits)

lemma all_recs_mono: "all_recs P al \<Longrightarrow> (\<And>v. P v \<Longrightarrow> Q v) \<Longrightarrow> all_recs Q al"
  by (auto simp: all_recs_def)

lemma all_recs_set:
  "unique_keys al \<Longrightarrow> all_recs P al \<longleftrightarrow> (\<forall>kv \<in> set al. P (snd kv))"
  by (auto simp: all_recs_def unique_keys_def)

lemma unique_keys_update [simp]: "unique_keys al \<Longrightarrow> unique_keys (AList.update k v al)"
  by (simp add: unique_keys_def distinct_update)

lemma unique_keys_delete [simp]: "unique_keys al \<Longrightarrow> unique_keys (AList.delete k al)"
  by (simp add: unique_keys_def distinct_delete)

lemma find_append: "find P (xs @ ys) = (case find P xs of None \<Rightarrow> find P ys | Some x \<Rightarrow> Some x)"
  by (induction xs) auto

lemma find_split:
  assumes "find P xs = Some x"
  obtains before after where "xs = before @ x # after" and "P x" and "\<forall>y \<in> set before. \<not> P y"
  using assms
proof (induction xs arbitrary: thesis)
  case (Cons y ys)
  show ?case
  proof (cases "P y")
    case True
    with Cons.prems(2) show ?thesis using Cons.prems(1) [of "[]" ys] by simp
  next
    case False
    with Cons.prems(2) have "find P ys = Some x" by simp
    then obtain before after where "ys = before @ x # after" "P x" "\<forall>y \<in> set before. \<not> P y" using Cons.IH by metis
    with False show ?thesis using Cons.prems(1) [of "y # before" after] by simp
  qed
qed simp

lemma update_same: "map_of al k = Some v \<Longrightarrow> AList.update k v al = al"
  by (induction al) (auto split: if_splits)

lemma update_twice [simp]: "AList.update k v (AList.update k w al) = AList.update k v al"
  by (induction al) auto

lemma update_absent: "map_of al k = None \<Longrightarrow> AList.update k v al = al @ [(k, v)]"
  by (induction al) (auto split: if_splits)

lemma delete_absent: "map_of al k = None \<Longrightarrow> AList.delete k al = al"
  by (induction al) (auto split: if_splits)

lemma delete_update_absent: "map_of al k = None \<Longrightarrow> AList.delete k (AList.update k v al) = al"
  by (induction al) (auto simp: delete_absent split: if_splits)

text \<open>The values of a map, and the map a loader builds from a list of records.\<close>

lemma mset_map_update:
  "map_of al k = None \<Longrightarrow> mset (map snd (AList.update k v al)) = add_mset v (mset (map snd al))"
  by (simp add: update_absent)

lemma map_of_fold_update:
  "map_of (fold (\<lambda>r. AList.update (key r) (f r)) rs al) = (\<lambda>k.
     case find (\<lambda>r. key r = k) (rev rs) of None \<Rightarrow> map_of al k | Some r \<Rightarrow> Some (f r))"
proof (induction rs arbitrary: al)
  case (Cons r rs)
  show ?case by (rule ext) (auto simp: Cons find_append split: option.split)
qed simp

lemma unique_keys_fold_update: "unique_keys al \<Longrightarrow> unique_keys (fold (\<lambda>r. AList.update (key r) (f r)) rs al)"
  by (induction rs arbitrary: al) simp_all

lemma values_iff: "unique_keys al \<Longrightarrow> v \<in> snd ` set al \<longleftrightarrow> (\<exists>k. map_of al k = Some v)"
  by (force simp: unique_keys_def)

lemma reload_values:
  assumes "unique_keys al" and "\<And>k v. map_of al k = Some v \<Longrightarrow> key v = k \<and> f v = v"
    and "mset rs = mset (map snd al)"
  shows "map_of (fold (\<lambda>r. AList.update (key r) (f r)) rs []) = map_of al"
proof
  fix k
  have rs: "r \<in> set rs \<longleftrightarrow> map_of al (key r) = Some r" for r
  proof -
    have "r \<in> set rs \<longleftrightarrow> r \<in> snd ` set al" using assms(3) by (metis list.set_map set_mset_mset)
    also have "\<dots> \<longleftrightarrow> (\<exists>k. map_of al k = Some r)" by (rule values_iff [OF assms(1)])
    finally show ?thesis using assms(2) by blast
  qed
  show "map_of (fold (\<lambda>r. AList.update (key r) (f r)) rs []) k = map_of al k"
  proof (cases "find (\<lambda>r. key r = k) (rev rs)")
    case None
    then have none: "\<not> (\<exists>r. r \<in> set rs \<and> key r = k)" by (simp add: find_None_iff)
    have "map_of al k = None"
    proof (cases "map_of al k")
      case (Some v)
      with assms(2) [OF Some] have "v \<in> set rs \<and> key v = k" by (simp add: rs)
      with none show ?thesis by blast
    qed
    with None show ?thesis by (simp add: map_of_fold_update)
  next
    case (Some r)
    then have "r \<in> set (rev rs) \<and> key r = k" unfolding find_Some_iff by (metis nth_mem)
    then have "r \<in> set rs" "key r = k" by simp_all
    with Some rs assms(2) show ?thesis by (simp add: map_of_fold_update)
  qed
qed

lemma map_of_perm:
  assumes "unique_keys al" and "mset al = mset bl"
  shows "map_of al = map_of bl" and "unique_keys bl"
proof -
  from assms(2) have s: "set al = set bl" by (rule mset_eq_setD)
  from assms(2) have "mset (map fst al) = mset (map fst bl)" by simp
  with assms(1) have d: "distinct (map fst bl)"
    unfolding unique_keys_def by (metis distinct_count_atmost_1 mset_eq_setD)
  then show "unique_keys bl" by (simp add: unique_keys_def)
  from assms(1) have "distinct (map fst al)" by (simp add: unique_keys_def)
  with s d show "map_of al = map_of bl" using map_of_inject_set by blast
qed

end
