(* ===== verification/Go_Strings.thy ===== *)
theory Go_Strings
  imports Sentinel_Prelude "HOL-Library.Sublist"
begin

text \<open>
  The parts of Go's \<open>strings\<close>, \<open>encoding/hex\<close> and \<open>path/filepath\<close> (Unix) that the program
  calls, on byte strings: \<open>TrimSpace\<close>, \<open>HasPrefix\<close>, \<open>TrimPrefix\<close>, the identifier check that
  several packages repeat, hexadecimal coding, and lexical path operations.
\<close>

section \<open>TrimSpace\<close>

text \<open>
  The UTF-8 encodings of the runes for which \<open>unicode.IsSpace\<close> holds: tab, newline, vertical tab,
  form feed, carriage return, space, U+0085, U+00A0, U+1680, U+2000 to U+200A, U+2028, U+2029,
  U+202F, U+205F, U+3000. Since UTF-8 is a prefix code read in either direction, the first
  (last) rune is a space exactly when one of these is a prefix (suffix).
\<close>

definition ws_runes :: "string list" where
  "ws_runes =
    [[CHR 0x20], [CHR 0x09], [CHR 0x0A], [CHR 0x0B], [CHR 0x0C], [CHR 0x0D],
     [CHR 0xC2, CHR 0x85], [CHR 0xC2, CHR 0xA0], [CHR 0xE1, CHR 0x9A, CHR 0x80],
     [CHR 0xE2, CHR 0x80, CHR 0x80], [CHR 0xE2, CHR 0x80, CHR 0x81], [CHR 0xE2, CHR 0x80, CHR 0x82],
     [CHR 0xE2, CHR 0x80, CHR 0x83], [CHR 0xE2, CHR 0x80, CHR 0x84], [CHR 0xE2, CHR 0x80, CHR 0x85],
     [CHR 0xE2, CHR 0x80, CHR 0x86], [CHR 0xE2, CHR 0x80, CHR 0x87], [CHR 0xE2, CHR 0x80, CHR 0x88],
     [CHR 0xE2, CHR 0x80, CHR 0x89], [CHR 0xE2, CHR 0x80, CHR 0x8A], [CHR 0xE2, CHR 0x80, CHR 0xA8],
     [CHR 0xE2, CHR 0x80, CHR 0xA9], [CHR 0xE2, CHR 0x80, CHR 0xAF], [CHR 0xE2, CHR 0x81, CHR 0x9F],
     [CHR 0xE3, CHR 0x80, CHR 0x80]]"

function strip_front :: "string list \<Rightarrow> string \<Rightarrow> string" where
  "strip_front ws s =
     (case find (\<lambda>w. w \<noteq> [] \<and> prefix w s) ws of
        None \<Rightarrow> s
      | Some w \<Rightarrow> strip_front ws (drop (length w) s))"
  by pat_completeness auto
termination
proof (relation "measure (\<lambda>(ws, s). length s)")
  fix ws :: "string list" and s w :: string
  assume "find (\<lambda>w. w \<noteq> [] \<and> prefix w s) ws = Some w"
  then have "w \<noteq> [] \<and> prefix w s" by (auto simp: find_Some_iff)
  then show "((ws, drop (length w) s), ws, s) \<in> measure (\<lambda>(ws, s). length s)"
    by (cases w; cases s) auto
qed simp

declare strip_front.simps [simp del]

definition trim_left :: "string \<Rightarrow> string" where
  "trim_left s = strip_front ws_runes s"

definition trim_right :: "string \<Rightarrow> string" where
  "trim_right s = rev (strip_front (map rev ws_runes) (rev s))"

definition trim_space :: "string \<Rightarrow> string" where
  "trim_space s = trim_right (trim_left s)"

definition no_ws_front :: "string list \<Rightarrow> string \<Rightarrow> bool" where
  "no_ws_front ws s \<longleftrightarrow> (\<forall>w \<in> set ws. w \<noteq> [] \<longrightarrow> \<not> prefix w s)"

lemma strip_front_fix: "no_ws_front ws s \<Longrightarrow> strip_front ws s = s"
proof -
  assume "no_ws_front ws s"
  then have "find (\<lambda>w. w \<noteq> [] \<and> prefix w s) ws = None"
    by (auto simp: find_None_iff no_ws_front_def)
  then show ?thesis by (simp add: strip_front.simps [of ws s])
qed

lemma no_ws_front_strip: "no_ws_front ws (strip_front ws s)"
proof (induction ws s rule: strip_front.induct)
  case (1 ws s)
  show ?case
  proof (cases "find (\<lambda>w. w \<noteq> [] \<and> prefix w s) ws")
    case None
    then have "strip_front ws s = s" by (simp add: strip_front.simps [of ws s])
    with None show ?thesis by (auto simp: find_None_iff no_ws_front_def)
  next
    case (Some w)
    with "1" show ?thesis by (simp add: strip_front.simps [of ws s])
  qed
qed

lemma strip_front_suffix: "suffix (strip_front ws s) s"
proof (induction ws s rule: strip_front.induct)
  case (1 ws s)
  show ?case
  proof (cases "find (\<lambda>w. w \<noteq> [] \<and> prefix w s) ws")
    case None
    then show ?thesis by (simp add: strip_front.simps [of ws s])
  next
    case (Some w)
    with "1" have "suffix (strip_front ws (drop (length w) s)) (drop (length w) s)" by simp
    then show ?thesis
      using Some by (auto simp: strip_front.simps [of ws s] intro: suffix_order.trans suffix_drop)
  qed
qed

lemma trim_right_prefix: "prefix (trim_right s) s"
proof -
  have "suffix (strip_front (map rev ws_runes) (rev s)) (rev s)" by (rule strip_front_suffix)
  then show ?thesis by (simp add: trim_right_def suffix_to_prefix)
qed

lemma no_ws_front_prefix: "no_ws_front ws s \<Longrightarrow> prefix t s \<Longrightarrow> no_ws_front ws t"
  by (auto simp: no_ws_front_def intro: prefix_order.trans)

lemma trim_space_idem [simp]: "trim_space (trim_space s) = trim_space s"
proof -
  let ?l = "trim_left s"
  have "no_ws_front ws_runes ?l" by (simp add: trim_left_def no_ws_front_strip)
  then have "no_ws_front ws_runes (trim_right ?l)"
    using trim_right_prefix no_ws_front_prefix by blast
  then have l: "trim_left (trim_right ?l) = trim_right ?l"
    by (simp add: trim_left_def strip_front_fix)
  have "trim_right (trim_right ?l) = trim_right ?l"
    by (simp add: trim_right_def strip_front_fix no_ws_front_strip)
  with l show ?thesis by (simp add: trim_space_def)
qed

lemma length_trim_space: "length (trim_space s) \<le> length s"
proof -
  have "length (trim_right (trim_left s)) \<le> length (trim_left s)"
    using trim_right_prefix prefix_length_le by blast
  also have "length (trim_left s) \<le> length s"
    using strip_front_suffix suffix_length_le unfolding trim_left_def by blast
  finally show ?thesis by (simp add: trim_space_def)
qed

lemma strip_front_Nil [simp]: "strip_front ws [] = []"
  by (rule strip_front_fix) (simp add: no_ws_front_def)

lemma trim_space_Nil [simp]: "trim_space [] = []"
  by (simp add: trim_space_def trim_left_def trim_right_def)

text \<open>
  The bytes no white-space encoding begins or ends with: a string that begins and ends with such
  bytes is unchanged.
\<close>

definition solid :: "char \<Rightarrow> bool" where
  "solid c \<longleftrightarrow> 0x20 < (of_char c :: nat) \<and> (of_char c :: nat) < 0x80"

lemma no_ws_front_solid:
  assumes "solid c" and "\<forall>w \<in> set ws. w = [] \<or> \<not> solid (hd w)"
  shows "no_ws_front ws (c # s)"
  using assms by (force simp: no_ws_front_def prefix_Cons)

lemma ws_runes_hd: "\<forall>w \<in> set ws_runes. w = [] \<or> \<not> solid (hd w)"
  by (simp add: ws_runes_def solid_def)

lemma ws_runes_last: "\<forall>w \<in> set (map rev ws_runes). w = [] \<or> \<not> solid (hd w)"
  by (simp add: ws_runes_def solid_def)

lemma trim_space_solid:
  assumes "s \<noteq> []" and "solid (hd s)" and "solid (last s)"
  shows "trim_space s = s"
proof -
  from assms obtain c t where "s = c # t" by (cases s) auto
  with assms(2) have l: "trim_left s = s"
    by (simp add: trim_left_def strip_front_fix no_ws_front_solid ws_runes_hd)
  from assms obtain d u where "rev s = d # u" "solid d"
    by (cases "rev s") (auto simp: last_rev hd_rev dest: arg_cong [of _ _ rev])
  then have "trim_right s = s"
    by (simp add: trim_right_def strip_front_fix no_ws_front_solid ws_runes_last flip: rev_swap)
  with l show ?thesis by (simp add: trim_space_def)
qed

lemma trim_space_list_all_solid: "list_all solid s \<Longrightarrow> trim_space s = s"
  by (cases "s = []") (auto simp: list_all_iff intro!: trim_space_solid)

section \<open>Prefixes\<close>

definition has_prefix :: "string \<Rightarrow> string \<Rightarrow> bool" where
  "has_prefix s p \<longleftrightarrow> prefix p s"

definition trim_prefix :: "string \<Rightarrow> string \<Rightarrow> string" where
  "trim_prefix s p = (if has_prefix s p then drop (length p) s else s)"

lemma has_prefix_append [simp]: "has_prefix (p @ s) p"
  by (simp add: has_prefix_def)

lemma trim_prefix_append [simp]: "trim_prefix (p @ s) p = s"
  by (simp add: trim_prefix_def)

section \<open>Identifier characters\<close>

text \<open>
  The check \<open>safeID\<close> / \<open>validateInput\<close> make on every rune: ASCII letters, digits and
  \<open>._:-\<close>. All accepted runes are ASCII, and a byte that is not ASCII starts or continues a rune
  that is not accepted, so the check on runes is the check on bytes.
\<close>

definition id_char :: "char \<Rightarrow> bool" where
  "id_char c \<longleftrightarrow> (let n = of_char c :: nat in
     (0x61 \<le> n \<and> n \<le> 0x7A) \<or> (0x41 \<le> n \<and> n \<le> 0x5A) \<or> (0x30 \<le> n \<and> n \<le> 0x39) \<or> c \<in> set ''._:-'')"

lemma id_char_solid: "id_char c \<Longrightarrow> solid c"
  by (auto simp: id_char_def solid_def Let_def)

lemma trim_space_id: "list_all id_char s \<Longrightarrow> trim_space s = s"
  by (rule trim_space_list_all_solid) (auto simp: list_all_iff id_char_solid)

section \<open>Hexadecimal coding\<close>

definition hex_digit :: "nat \<Rightarrow> char" where
  "hex_digit n = char_of (if n < 10 then 0x30 + n else 0x57 + n)"

definition hex_value :: "char \<Rightarrow> nat option" where
  "hex_value c = (let n = of_char c :: nat in
     if 0x30 \<le> n \<and> n \<le> 0x39 then Some (n - 0x30)
     else if 0x61 \<le> n \<and> n \<le> 0x66 then Some (n - 0x57)
     else if 0x41 \<le> n \<and> n \<le> 0x46 then Some (n - 0x37)
     else None)"

fun hex_encode :: "string \<Rightarrow> string" where
  "hex_encode [] = []"
| "hex_encode (c # s) =
     hex_digit (of_char c div 16) # hex_digit (of_char c mod 16) # hex_encode s"

fun hex_decode :: "string \<Rightarrow> string option" where
  "hex_decode [] = Some []"
| "hex_decode [c] = None"
| "hex_decode (a # b # s) =
     (case (hex_value a, hex_value b, hex_decode s) of
        (Some x, Some y, Some t) \<Rightarrow> Some (char_of (16 * x + y) # t)
      | _ \<Rightarrow> None)"

lemma hex_value_digit [simp]: "n < 16 \<Longrightarrow> hex_value (hex_digit n) = Some n"
  by (auto simp: hex_value_def hex_digit_def Let_def)

lemma hex_decode_encode [simp]: "hex_decode (hex_encode s) = Some s"
proof (induction s)
  case (Cons c s)
  have "(of_char c :: nat) div 16 < 16" using nat_of_char_less_256 [of c] by linarith
  with Cons show ?case by simp
qed simp

lemma hex_encode_inj [simp]: "hex_encode s = hex_encode t \<longleftrightarrow> s = t"
  by (metis hex_decode_encode option.inject)

lemma length_hex_encode [simp]: "length (hex_encode s) = 2 * length s"
  by (induction s) simp_all

lemma hex_encode_Nil_iff [simp]: "hex_encode s = [] \<longleftrightarrow> s = []" "[] = hex_encode s \<longleftrightarrow> s = []"
  by (cases s, simp_all)+

lemma length_hex_decode: "hex_decode s = Some t \<Longrightarrow> length s = 2 * length t"
  by (induction s arbitrary: t rule: hex_decode.induct) (auto split: option.splits)

lemma hex_digit_id_char [simp]: "n < 16 \<Longrightarrow> id_char (hex_digit n)"
  by (auto simp: id_char_def hex_digit_def Let_def)

lemma hex_encode_id_chars: "list_all id_char (hex_encode s)"
proof (induction s)
  case (Cons c s)
  have "(of_char c :: nat) div 16 < 16" using nat_of_char_less_256 [of c] by linarith
  with Cons show ?case by simp
qed simp

section \<open>Ordering and sorting\<close>

text \<open>
  Go compares strings bytewise. \<open>sort.Slice\<close> with the comparison \<open>lt\<close> is an insertion sort; the
  order of elements that \<open>lt\<close> does not separate is unspecified in Go, and here it is the order in
  which they came, which for the elements of a Go map is any order.
\<close>

fun str_less :: "string \<Rightarrow> string \<Rightarrow> bool" where
  "str_less [] [] = False"
| "str_less [] (_ # _) = True"
| "str_less (_ # _) [] = False"
| "str_less (a # s) (b # t) = ((of_char a :: nat) < of_char b \<or> (a = b \<and> str_less s t))"

text \<open>Newest first, then by descending ID: the comparison of the factual listings.\<close>

definition newer :: "time \<times> string \<Rightarrow> time \<times> string \<Rightarrow> bool" where
  "newer a b \<longleftrightarrow> (if fst a = fst b then str_less (snd b) (snd a) else fst b < fst a)"

fun insert_by :: "('a \<Rightarrow> 'a \<Rightarrow> bool) \<Rightarrow> 'a \<Rightarrow> 'a list \<Rightarrow> 'a list" where
  "insert_by lt x [] = [x]"
| "insert_by lt x (y # ys) = (if lt y x then y # insert_by lt x ys else x # y # ys)"

definition sort_by :: "('a \<Rightarrow> 'a \<Rightarrow> bool) \<Rightarrow> 'a list \<Rightarrow> 'a list" where
  "sort_by lt xs = foldr (insert_by lt) xs []"

lemma mset_insert_by [simp]: "mset (insert_by lt x ys) = add_mset x (mset ys)"
  by (induction ys) auto

lemma mset_sort_by [simp]: "mset (sort_by lt xs) = mset xs"
  by (induction xs) (simp_all add: sort_by_def)

lemma set_sort_by [simp]: "set (sort_by lt xs) = set xs"
  by (metis mset_sort_by set_mset_mset)

lemma length_sort_by [simp]: "length (sort_by lt xs) = length xs"
  by (metis mset_sort_by size_mset)

lemma sort_by_Nil [simp]: "sort_by lt [] = []"
  by (simp add: sort_by_def)

lemma sort_by_Nil_iff [simp]: "sort_by lt xs = [] \<longleftrightarrow> xs = []"
  using length_sort_by [of lt xs] by fastforce

text \<open>With a comparison that is the strict order of a key, the result is sorted by the key.\<close>

lemma sorted_insert_by:
  "sorted_wrt (\<lambda>a b. \<not> lt b a) ys \<Longrightarrow> transp (\<lambda>a b. \<not> lt b a) \<Longrightarrow> asymp lt \<Longrightarrow>
   sorted_wrt (\<lambda>a b. \<not> lt b a) (insert_by lt x ys)"
proof (induction ys)
  case (Cons y ys)
  have s: "set (insert_by lt x ys) = insert x (set ys)"
    by (metis mset_insert_by set_mset_add_mset_insert set_mset_mset)
  show ?case
  proof (cases "lt y x")
    case True
    with Cons.prems(3) have "\<not> lt x y" by (meson asympD)
    with True Cons s show ?thesis by auto
  next
    case False
    with Cons.prems have "\<forall>z \<in> set ys. \<not> lt z x" by (auto dest: transpD)
    with False Cons.prems show ?thesis by auto
  qed
qed simp

lemma sorted_sort_by:
  "transp (\<lambda>a b. \<not> lt b a) \<Longrightarrow> asymp lt \<Longrightarrow> sorted_wrt (\<lambda>a b. \<not> lt b a) (sort_by lt xs)"
  by (induction xs) (simp_all add: sort_by_def sorted_insert_by)

lemma hd_sort_by:
  assumes "transp (\<lambda>a b. \<not> lt b a)" and "asymp lt" and "x \<in> set xs"
  shows "hd (sort_by lt xs) \<in> set xs" and "\<not> lt x (hd (sort_by lt xs))"
proof -
  obtain y ys where ys: "sort_by lt xs = y # ys" using assms(3) by (cases "sort_by lt xs") auto
  have s: "set xs = insert y (set ys)" by (metis set_sort_by ys list.set(2))
  then show "hd (sort_by lt xs) \<in> set xs" by (simp add: ys)
  show "\<not> lt x (hd (sort_by lt xs))"
    using sorted_sort_by [OF assms(1,2), of xs] assms(2,3) by (auto simp: ys s dest: asympD)
qed

section \<open>Lexical path operations\<close>

fun split_on :: "char \<Rightarrow> string \<Rightarrow> string list" where
  "split_on d [] = [[]]"
| "split_on d (c # s) =
     (if c = d then [] # split_on d s
      else (case split_on d s of [] \<Rightarrow> [[c]] | p # ps \<Rightarrow> (c # p) # ps))"

fun join_with :: "string \<Rightarrow> string list \<Rightarrow> string" where
  "join_with d [] = []"
| "join_with d [p] = p"
| "join_with d (p # q # ps) = p @ d @ join_with d (q # ps)"

definition clean_step :: "bool \<Rightarrow> string list \<Rightarrow> string \<Rightarrow> string list" where
  "clean_step rooted out p =
     (if p = [] \<or> p = ''.'' then out
      else if p = ''..'' then
        (if out \<noteq> [] \<and> last out \<noteq> ''..'' then butlast out
         else if rooted then out else out @ [''..''])
      else out @ [p])"

definition is_abs :: "string \<Rightarrow> bool" where
  "is_abs p \<longleftrightarrow> has_prefix p ''/''"

definition path_clean :: "string \<Rightarrow> string" where
  "path_clean p =
     (if p = [] then ''.''
      else
        (let rooted = is_abs p; out = foldl (clean_step rooted) [] (split_on CHR ''/'' p)
         in if rooted then ''/'' @ join_with ''/'' out
            else if out = [] then ''.'' else join_with ''/'' out))"

definition drop_trailing_slashes :: "string \<Rightarrow> string" where
  "drop_trailing_slashes p = rev (dropWhile (\<lambda>c. c = CHR ''/'') (rev p))"

definition path_base :: "string \<Rightarrow> string" where
  "path_base p =
     (if p = [] then ''.''
      else
        (let q = drop_trailing_slashes p;
             b = rev (takeWhile (\<lambda>c. c \<noteq> CHR ''/'') (rev q))
         in if b = [] then ''/'' else b))"

definition path_dir :: "string \<Rightarrow> string" where
  "path_dir p = path_clean (rev (dropWhile (\<lambda>c. c \<noteq> CHR ''/'') (rev p)))"

definition path_join :: "string \<Rightarrow> string \<Rightarrow> string" where
  "path_join d n =
     (if d = [] \<and> n = [] then []
      else if d = [] then path_clean n
      else if n = [] then path_clean d
      else path_clean (d @ ''/'' @ n))"

end
