(* ===== verification/Domain.thy ===== *)
theory Domain
  imports Go_Strings "HOL-Library.Word"
begin

text \<open>
  The shared data of \<open>internal/domain/types.go\<close>: what a capability grant holds. A token hash
  (\<open>[32]byte\<close>) is a byte string; the epoch is a 64-bit word; a nil \<open>RevokedAt\<close> is \<open>None\<close>.
\<close>

record permissions =
  perm_exec :: bool
  perm_shell :: bool
  perm_upload :: bool
  perm_download :: bool
  perm_history_read :: bool
  perm_notes_read :: bool
  perm_notes_write :: bool

record history_scope =
  hist_current_session :: bool
  hist_previous :: bool
  hist_other_agents :: bool
  hist_include_output :: bool

record grant =
  g_id :: string
  g_token_hash :: string
  g_purpose :: string
  g_agent :: string
  g_targets :: "string list"
  g_permissions :: permissions
  g_history :: history_scope
  g_security_epoch :: "64 word"
  g_issued_at :: time
  g_expires_at :: time
  g_revoked_at :: "time option"

definition no_permissions :: permissions where
  "no_permissions = \<lparr>perm_exec = False, perm_shell = False, perm_upload = False, perm_download = False,
     perm_history_read = False, perm_notes_read = False, perm_notes_write = False\<rparr>"

definition no_history :: history_scope where
  "no_history = \<lparr>hist_current_session = False, hist_previous = False, hist_other_agents = False,
     hist_include_output = False\<rparr>"

definition zero_hash :: string where
  "zero_hash = replicate 32 (CHR 0x00)"

text \<open>Go's zero value \<open>domain.Grant{}\<close>.\<close>

definition zero_grant :: grant where
  "zero_grant = \<lparr>g_id = [], g_token_hash = zero_hash, g_purpose = [], g_agent = [], g_targets = [],
     g_permissions = no_permissions, g_history = no_history, g_security_epoch = 0,
     g_issued_at = 0, g_expires_at = 0, g_revoked_at = None\<rparr>"

lemma length_zero_hash [simp]: "length zero_hash = 32"
  by (simp add: zero_hash_def)

end
