(* ===== verification/Transition_System.thy ===== *)
theory Transition_System
  imports Main
begin

text \<open>
  The contract every stateful component of the program meets, stated once: a step relation, and a
  predicate that every step keeps. The components interpret it on their own operations; the facts
  on runs of any length come from here.
\<close>

locale stable_predicate =
  fixes step :: "'s \<Rightarrow> 's \<Rightarrow> bool"
    and pred :: "'s \<Rightarrow> bool"
  assumes step_keeps: "step s t \<Longrightarrow> pred s \<Longrightarrow> pred t"
begin

lemma steps_keep: "step\<^sup>*\<^sup>* s t \<Longrightarrow> pred s \<Longrightarrow> pred t"
  by (induction rule: rtranclp_induct) (auto intro: step_keeps)

lemma steps_from_keep:
  assumes "pred s" and "step\<^sup>*\<^sup>* s t" and "step\<^sup>*\<^sup>* t u"
  shows "pred u"
  using assms by (metis rtranclp_trans steps_keep)

end

text \<open>
  A quantity that no step decreases, with respect to a preorder: lifecycle ranks, epochs, and the
  relation ``this record only moved forward''.
\<close>

locale monotone_steps =
  fixes step :: "'s \<Rightarrow> 's \<Rightarrow> bool"
    and rel :: "'s \<Rightarrow> 's \<Rightarrow> bool"
  assumes rel_refl: "rel s s"
    and rel_trans: "rel s t \<Longrightarrow> rel t u \<Longrightarrow> rel s u"
    and step_rel: "step s t \<Longrightarrow> rel s t"
begin

lemma steps_rel: "step\<^sup>*\<^sup>* s t \<Longrightarrow> rel s t"
  by (induction rule: rtranclp_induct) (auto intro: rel_refl rel_trans step_rel)

end

text \<open>Monotonicity under an invariant: the steps of the invariant's states are monotone.\<close>

locale monotone_under = inv: stable_predicate step pred
  for step :: "'s \<Rightarrow> 's \<Rightarrow> bool" and pred :: "'s \<Rightarrow> bool" +
  fixes rel :: "'s \<Rightarrow> 's \<Rightarrow> bool"
  assumes rel_refl: "rel s s"
    and rel_trans: "rel s t \<Longrightarrow> rel t u \<Longrightarrow> rel s u"
    and step_rel: "pred s \<Longrightarrow> step s t \<Longrightarrow> rel s t"
begin

lemma steps_rel:
  assumes "step\<^sup>*\<^sup>* s t" and "pred s"
  shows "rel s t"
  using assms
proof (induction rule: rtranclp_induct)
  case base
  show ?case by (rule rel_refl)
next
  case (step t u)
  from step have "pred t" by (meson inv.steps_keep)
  with step show ?case by (meson rel_trans step_rel)
qed

end

end
