(* ===== verification/Grant_Store.thy ===== *)
theory Grant_Store
  imports Domain Transition_System
begin

text \<open>
  The grant stores (\<open>internal/store/store.go\<close> and \<open>file.go\<close>): two Go maps, \<open>byHash\<close> from token
  hash to grant and \<open>byID\<close> from grant ID to token hash, and for the file store the file they are
  written to. The interface \<open>store.GrantStore\<close> is the locale \<open>grant_store\<close>, whose laws speak of
  the abstract content, a map from grant IDs to grants; both stores interpret it.
\<close>

section \<open>The in-memory maps\<close>

record grant_maps =
  gs_by_hash :: "(string \<times> grant) list"
  gs_by_id :: "(string \<times> string) list"

definition gm_lookup_hash :: "'a grant_maps_scheme \<Rightarrow> string \<Rightarrow> grant" where
  "gm_lookup_hash s h = (case map_of (gs_by_hash s) h of None \<Rightarrow> zero_grant | Some g \<Rightarrow> g)"

definition gm_grant_by_token_hash :: "'a grant_maps_scheme \<Rightarrow> string \<Rightarrow> err + grant" where
  "gm_grant_by_token_hash s h =
     (case map_of (gs_by_hash s) h of None \<Rightarrow> Inl Err_NotFound | Some g \<Rightarrow> Inr g)"

definition gm_grant_by_id :: "'a grant_maps_scheme \<Rightarrow> string \<Rightarrow> err + grant" where
  "gm_grant_by_id s i =
     (case map_of (gs_by_id s) i of None \<Rightarrow> Inl Err_NotFound | Some h \<Rightarrow> Inr (gm_lookup_hash s h))"

definition gm_put :: "grant \<Rightarrow> 'a grant_maps_scheme \<Rightarrow> 'a grant_maps_scheme" where
  "gm_put g s = s\<lparr>gs_by_hash := AList.update (g_token_hash g) g (gs_by_hash s),
                  gs_by_id := AList.update (g_id g) (g_token_hash g) (gs_by_id s)\<rparr>"

definition gm_set_hash :: "string \<Rightarrow> grant \<Rightarrow> 'a grant_maps_scheme \<Rightarrow> 'a grant_maps_scheme" where
  "gm_set_hash h g s = s\<lparr>gs_by_hash := AList.update h g (gs_by_hash s)\<rparr>"

definition mem_create_grant :: "grant \<Rightarrow> grant_maps \<Rightarrow> grant_maps \<times> err option" where
  "mem_create_grant g s =
     (if map_of (gs_by_id s) (g_id g) \<noteq> None then (s, Some (Err_Msg ''grant already exists''))
      else (gm_put g s, None))"

definition mem_revoke_grant :: "string \<Rightarrow> time \<Rightarrow> grant_maps \<Rightarrow> grant_maps \<times> err option" where
  "mem_revoke_grant i at s =
     (case map_of (gs_by_id s) i of
        None \<Rightarrow> (s, Some Err_NotFound)
      | Some h \<Rightarrow> (gm_set_hash h ((gm_lookup_hash s h)\<lparr>g_revoked_at := Some at\<rparr>) s, None))"

section \<open>The file store\<close>

text \<open>
  One element of the file: the grant without its token hash (\<open>json:"-"\<close>) and the hash in
  hexadecimal.
\<close>

record file_grant =
  fg_grant :: grant
  fg_token_hash :: string

record file_grant_store = grant_maps +
  gs_disk :: "file_grant list option"

definition fgs_state :: "'a grant_maps_scheme \<Rightarrow> file_grant list" where
  "fgs_state s = map (\<lambda>(h, g). \<lparr>fg_grant = g\<lparr>g_token_hash := zero_hash\<rparr>, fg_token_hash = hex_encode h\<rparr>)
     (gs_by_hash s)"

definition fgs_persist :: "fs_fault \<Rightarrow> file_grant_store \<Rightarrow> file_grant_store \<times> err option" where
  "fgs_persist fault s =
     (case atomic_replace fault (gs_disk s) (Some (fgs_state s)) of (d, e) \<Rightarrow> (s\<lparr>gs_disk := d\<rparr>, e))"

definition fgs_create_grant :: "grant \<Rightarrow> fs_fault \<Rightarrow> file_grant_store \<Rightarrow> file_grant_store \<times> err option" where
  "fgs_create_grant g fault s =
     (if map_of (gs_by_id s) (g_id g) \<noteq> None then (s, Some (Err_Msg ''grant already exists''))
      else (case fgs_persist fault (gm_put g s) of
          (s1, Some e) \<Rightarrow>
            (s1\<lparr>gs_by_hash := AList.delete (g_token_hash g) (gs_by_hash s1),
                gs_by_id := AList.delete (g_id g) (gs_by_id s1)\<rparr>, Some e)
        | (s1, None) \<Rightarrow> (s1, None)))"

definition fgs_revoke_grant :: "string \<Rightarrow> time \<Rightarrow> fs_fault \<Rightarrow> file_grant_store \<Rightarrow> file_grant_store \<times> err option" where
  "fgs_revoke_grant i at fault s =
     (case map_of (gs_by_id s) i of
        None \<Rightarrow> (s, Some Err_NotFound)
      | Some h \<Rightarrow>
          (let old = gm_lookup_hash s h in
           case fgs_persist fault (gm_set_hash h (old\<lparr>g_revoked_at := Some at\<rparr>) s) of
             (s1, Some e) \<Rightarrow> (gm_set_hash h old s1, Some e)
           | (s1, None) \<Rightarrow> (s1, None)))"

definition fgs_list_grants :: "'a grant_maps_scheme \<Rightarrow> grant list" where
  "fgs_list_grants s =
     sort_by (\<lambda>a b. newer (g_issued_at a, g_id a) (g_issued_at b, g_id b))
       (map (\<lambda>(i, h). gm_lookup_hash s h) (gs_by_id s))"

text \<open>\<open>load\<close>: the elements in the order of the file; the first bad hash stops it.\<close>

fun fgs_load_items :: "file_grant list \<Rightarrow> grant_maps \<Rightarrow> err + grant_maps" where
  "fgs_load_items [] s = Inr s"
| "fgs_load_items (it # its) s =
     (case hex_decode (fg_token_hash it) of
        None \<Rightarrow> Inl (Err_Msg ''grant store contains invalid token hash'')
      | Some raw \<Rightarrow>
          if length raw \<noteq> 32 then Inl (Err_Msg ''grant store contains invalid token hash'')
          else fgs_load_items its (gm_put ((fg_grant it)\<lparr>g_token_hash := raw\<rparr>) s))"

definition fgs_open :: "string \<Rightarrow> file_grant list option \<Rightarrow> err + file_grant_store" where
  "fgs_open path file =
     (if path = [] then Inl (Err_Msg ''grant store path is empty'')
      else (case file of
          None \<Rightarrow> Inr \<lparr>gs_by_hash = [], gs_by_id = [], gs_disk = None\<rparr>
        | Some items \<Rightarrow>
            (case fgs_load_items items \<lparr>gs_by_hash = [], gs_by_id = []\<rparr> of
               Inl e \<Rightarrow> Inl e
             | Inr m \<Rightarrow> Inr \<lparr>gs_by_hash = gs_by_hash m, gs_by_id = gs_by_id m, gs_disk = Some items\<rparr>)))"

section \<open>Well-formed stores and their content\<close>

text \<open>The two maps agree: each is the other's index.\<close>

definition gm_wf :: "'a grant_maps_scheme \<Rightarrow> bool" where
  "gm_wf s \<longleftrightarrow>
     unique_keys (gs_by_hash s) \<and> unique_keys (gs_by_id s) \<and>
     (\<forall>i h. map_of (gs_by_id s) i = Some h \<longrightarrow>
        (\<exists>g. map_of (gs_by_hash s) h = Some g \<and> g_id g = i)) \<and>
     (\<forall>h g. map_of (gs_by_hash s) h = Some g \<longrightarrow>
        g_token_hash g = h \<and> length h = 32 \<and> map_of (gs_by_id s) (g_id g) = Some h)"

definition gm_abs :: "'a grant_maps_scheme \<Rightarrow> string \<rightharpoonup> grant" where
  "gm_abs s i = (case map_of (gs_by_id s) i of None \<Rightarrow> None | Some h \<Rightarrow> map_of (gs_by_hash s) h)"

lemma gm_wf_id_ex:
  assumes "gm_wf s" and "map_of (gs_by_id s) i = Some h"
  shows "\<exists>g. map_of (gs_by_hash s) h = Some g \<and> g_id g = i"
  using assms by (auto simp: gm_wf_def)

lemma gm_wf_id_eq:
  "gm_wf s \<Longrightarrow> map_of (gs_by_id s) i = Some h \<Longrightarrow> map_of (gs_by_hash s) h = Some g \<Longrightarrow> g_id g = i"
  by (fastforce dest: gm_wf_id_ex)

lemma gm_wf_hashD:
  assumes "gm_wf s" and "map_of (gs_by_hash s) h = Some g"
  shows "g_token_hash g = h" and "length h = 32" and "map_of (gs_by_id s) (g_id g) = Some h"
  using assms by (auto simp: gm_wf_def)

lemma gm_wf_id_iff:
  assumes "gm_wf s" and "map_of (gs_by_hash s) h = Some g"
  shows "map_of (gs_by_id s) i = Some h \<longleftrightarrow> i = g_id g"
proof
  assume "map_of (gs_by_id s) i = Some h"
  from gm_wf_id_eq [OF assms(1) this assms(2)] show "i = g_id g" by (rule sym)
next
  assume "i = g_id g"
  then show "map_of (gs_by_id s) i = Some h" by (simp add: gm_wf_hashD(3) [OF assms])
qed

lemma gm_abs_Some_iff:
  assumes "gm_wf s"
  shows "gm_abs s i = Some g \<longleftrightarrow> map_of (gs_by_hash s) (g_token_hash g) = Some g \<and> g_id g = i"
proof
  assume "gm_abs s i = Some g"
  then obtain h where h: "map_of (gs_by_id s) i = Some h" "map_of (gs_by_hash s) h = Some g"
    by (auto simp: gm_abs_def split: option.splits)
  then show "map_of (gs_by_hash s) (g_token_hash g) = Some g \<and> g_id g = i"
    using gm_wf_hashD(1) [OF assms h(2)] gm_wf_id_eq [OF assms h] by simp
next
  assume g: "map_of (gs_by_hash s) (g_token_hash g) = Some g \<and> g_id g = i"
  then show "gm_abs s i = Some g"
    using gm_wf_hashD(3) [OF assms, of "g_token_hash g" g] by (simp add: gm_abs_def)
qed

lemma gm_abs_None_iff: "gm_wf s \<Longrightarrow> gm_abs s i = None \<longleftrightarrow> map_of (gs_by_id s) i = None"
  using gm_wf_id_ex [of s i] by (cases "map_of (gs_by_id s) i") (auto simp: gm_abs_def)

definition hash_fresh :: "grant \<Rightarrow> 'a grant_maps_scheme \<Rightarrow> bool" where
  "hash_fresh g s \<longleftrightarrow> map_of (gs_by_hash s) (g_token_hash g) = None \<and> length (g_token_hash g) = 32"

lemma gm_wf_put:
  assumes "gm_wf s" and "map_of (gs_by_id s) (g_id g) = None" and "hash_fresh g s"
  shows "gm_wf (gm_put g s)"
proof -
  have "map_of (gs_by_id s) i \<noteq> Some (g_token_hash g)" for i
    using assms(3) gm_wf_id_ex [OF assms(1), of i] by (auto simp: hash_fresh_def)
  moreover have "g_id g' \<noteq> g_id g" if "map_of (gs_by_hash s) h = Some g'" for h g'
    using gm_wf_hashD(3) [OF assms(1) that] assms(2) by auto
  ultimately show ?thesis
    using assms unfolding gm_wf_def gm_put_def hash_fresh_def by auto
qed

lemma gm_abs_put:
  assumes "gm_wf s" and "hash_fresh g s"
  shows "gm_abs (gm_put g s) = (gm_abs s)(g_id g \<mapsto> g)"
proof
  fix i
  have "map_of (gs_by_id s) i \<noteq> Some (g_token_hash g)"
    using assms(2) gm_wf_id_ex [OF assms(1), of i] by (auto simp: hash_fresh_def)
  then show "gm_abs (gm_put g s) i = ((gm_abs s)(g_id g \<mapsto> g)) i"
    by (auto simp: gm_abs_def gm_put_def split: option.splits)
qed

lemma gm_wf_set_hash:
  assumes "gm_wf s" and "map_of (gs_by_hash s) h = Some g0" and "g_token_hash g = h" and "g_id g = g_id g0"
  shows "gm_wf (gm_set_hash h g s)"
proof -
  note iff = gm_wf_id_iff [OF assms(1,2)]
  show ?thesis
    using assms gm_wf_hashD [OF assms(1,2)] unfolding gm_wf_def gm_set_hash_def by (auto simp: iff)
qed

lemma gm_abs_set_hash:
  assumes "gm_wf s" and "map_of (gs_by_hash s) h = Some g0"
  shows "gm_abs (gm_set_hash h g s) = (gm_abs s)(g_id g0 \<mapsto> g)"
proof
  fix i
  show "gm_abs (gm_set_hash h g s) i = ((gm_abs s)(g_id g0 \<mapsto> g)) i"
  proof (cases "i = g_id g0")
    case True
    then show ?thesis by (simp add: gm_abs_def gm_set_hash_def gm_wf_hashD(3) [OF assms])
  next
    case False
    then have "map_of (gs_by_id s) i \<noteq> Some h" by (simp add: gm_wf_id_iff [OF assms])
    with False show ?thesis by (auto simp: gm_abs_def gm_set_hash_def split: option.split)
  qed
qed

lemma gm_lookup_id:
  assumes "gm_wf s" and "map_of (gs_by_id s) i = Some h"
  obtains g where "map_of (gs_by_hash s) h = Some g" "gm_lookup_hash s h = g" "g_id g = i"
    "g_token_hash g = h" "gm_abs s i = Some g"
proof -
  from gm_wf_id_ex [OF assms] obtain g where g: "map_of (gs_by_hash s) h = Some g" "g_id g = i" by blast
  with assms gm_wf_hashD(1) [OF assms(1) g(1)] show ?thesis
    by (intro that [of g]) (simp_all add: gm_lookup_hash_def gm_abs_def)
qed

lemma gm_by_id: "gm_wf s \<Longrightarrow> gm_grant_by_id s i = (case gm_abs s i of None \<Rightarrow> Inl Err_NotFound | Some g \<Rightarrow> Inr g)"
  using gm_wf_id_ex [of s i]
  by (cases "map_of (gs_by_id s) i") (auto simp: gm_grant_by_id_def gm_abs_def gm_lookup_hash_def)

lemma gm_by_hash_iff:
  "gm_wf s \<Longrightarrow> gm_grant_by_token_hash s h = Inr g \<longleftrightarrow> gm_abs s (g_id g) = Some g \<and> g_token_hash g = h"
  by (auto simp: gm_grant_by_token_hash_def gm_abs_Some_iff split: option.splits dest: gm_wf_hashD(1))

lemma gm_by_hash_error: "gm_grant_by_token_hash s h = Inl e \<Longrightarrow> e = Err_NotFound"
  by (auto simp: gm_grant_by_token_hash_def split: option.splits)

section \<open>The interface\<close>

text \<open>
  \<open>store.GrantStore\<close>: the four operations, the store's invariant, its content, and \<open>fits\<close>, the
  condition under which a new grant may be added (its token hash is not in use). The laws: the
  lookups read the content, a successful \<open>CreateGrant\<close> adds exactly its grant, a successful
  \<open>RevokeGrant\<close> stamps exactly the named grant, and a failing operation leaves the content alone.
\<close>

locale grant_store =
  fixes create :: "grant \<Rightarrow> 'f \<Rightarrow> 's \<Rightarrow> 's \<times> err option"
    and revoke :: "string \<Rightarrow> time \<Rightarrow> 'f \<Rightarrow> 's \<Rightarrow> 's \<times> err option"
    and by_hash :: "'s \<Rightarrow> string \<Rightarrow> err + grant"
    and by_id :: "'s \<Rightarrow> string \<Rightarrow> err + grant"
    and wf :: "'s \<Rightarrow> bool"
    and content :: "'s \<Rightarrow> string \<rightharpoonup> grant"
    and fits :: "grant \<Rightarrow> 's \<Rightarrow> bool"
    and io_ok :: "'f \<Rightarrow> bool"
  assumes by_id_content: "wf s \<Longrightarrow> by_id s i = (case content s i of None \<Rightarrow> Inl Err_NotFound | Some g \<Rightarrow> Inr g)"
    and by_hash_content: "wf s \<Longrightarrow> by_hash s h = Inr g \<longleftrightarrow> content s (g_id g) = Some g \<and> g_token_hash g = h"
    and content_id: "wf s \<Longrightarrow> content s i = Some g \<Longrightarrow> g_id g = i"
    and create_wf: "wf s \<Longrightarrow> fits g s \<Longrightarrow> wf (fst (create g f s))"
    and create_result: "wf s \<Longrightarrow> fits g s \<Longrightarrow> snd (create g f s) = None \<longleftrightarrow> content s (g_id g) = None \<and> io_ok f"
    and create_content: "wf s \<Longrightarrow> fits g s \<Longrightarrow>
      content (fst (create g f s)) = (if snd (create g f s) = None then (content s)(g_id g \<mapsto> g) else content s)"
    and revoke_wf: "wf s \<Longrightarrow> wf (fst (revoke i at f s))"
    and revoke_result: "wf s \<Longrightarrow> snd (revoke i at f s) = None \<longleftrightarrow> content s i \<noteq> None \<and> io_ok f"
    and revoke_content: "wf s \<Longrightarrow>
      content (fst (revoke i at f s)) =
        (if snd (revoke i at f s) = None
         then (content s)(i := map_option (\<lambda>g. g\<lparr>g_revoked_at := Some at\<rparr>) (content s i))
         else content s)"
begin

text \<open>What a client of the store may rely on.\<close>

lemma create_then_lookup:
  assumes "wf s" and "fits g s" and "snd (create g f s) = None"
  shows "by_id (fst (create g f s)) (g_id g) = Inr g"
    and "by_hash (fst (create g f s)) (g_token_hash g) = Inr g"
  using assms by (simp_all add: by_id_content by_hash_content create_wf create_content)

lemma create_no_overwrite:
  assumes "wf s" and "fits g s" and "content s i = Some g0"
  shows "content (fst (create g f s)) i = Some g0"
  using assms create_result [OF assms(1,2), of f] by (auto simp: create_content)

lemma lookups_agree:
  assumes "wf s" and "by_hash s h = Inr g"
  shows "by_id s (g_id g) = Inr g"
  using assms by (simp add: by_hash_content by_id_content)

lemma revoke_then_lookup:
  assumes "wf s" and "snd (revoke i at f s) = None" and "by_id (fst (revoke i at f s)) i = Inr g"
  shows "g_revoked_at g = Some at"
  using assms by (auto simp: by_id_content revoke_wf revoke_content split: option.splits)

text \<open>A revoked grant stays revoked, and stays in the store, whatever is done to the store later.\<close>

lemma revoked_create:
  assumes "wf s" and "fits g s" and "\<exists>g0. content s i = Some g0 \<and> g_revoked_at g0 \<noteq> None"
  shows "\<exists>g0. content (fst (create g f s)) i = Some g0 \<and> g_revoked_at g0 \<noteq> None"
  using assms create_no_overwrite by blast

lemma revoked_revoke:
  assumes "wf s" and "\<exists>g0. content s i = Some g0 \<and> g_revoked_at g0 \<noteq> None"
  shows "\<exists>g0. content (fst (revoke j at f s)) i = Some g0 \<and> g_revoked_at g0 \<noteq> None"
  using assms by (auto simp: revoke_content)

end

section \<open>Both stores meet it\<close>

lemma mem_create_cases:
  "mem_create_grant g s =
     (if map_of (gs_by_id s) (g_id g) \<noteq> None then (s, Some (Err_Msg ''grant already exists'')) else (gm_put g s, None))"
  by (simp add: mem_create_grant_def)

interpretation mem: grant_store
  "\<lambda>g (f :: unit). mem_create_grant g" "\<lambda>i at (f :: unit). mem_revoke_grant i at"
  gm_grant_by_token_hash gm_grant_by_id gm_wf gm_abs hash_fresh "\<lambda>_. True"
proof (unfold_locales, goal_cases)
  case (1 s i) then show ?case by (rule gm_by_id)
next
  case (2 s h g) then show ?case by (rule gm_by_hash_iff)
next
  case (3 s i g) then show ?case by (simp add: gm_abs_Some_iff)
next
  case (4 s g f) then show ?case by (simp add: mem_create_cases gm_wf_put)
next
  case (5 s g f) then show ?case by (simp add: mem_create_cases gm_abs_None_iff)
next
  case (6 s g f) then show ?case by (simp add: mem_create_cases gm_abs_put)
next
  case (7 s i at f)
  show ?case
  proof (cases "map_of (gs_by_id s) i")
    case (Some h)
    with 7 obtain g where "map_of (gs_by_hash s) h = Some g" "gm_lookup_hash s h = g" "g_token_hash g = h"
      by (rule gm_lookup_id)
    with 7 Some show ?thesis by (simp add: mem_revoke_grant_def gm_wf_set_hash)
  qed (use 7 in \<open>simp add: mem_revoke_grant_def\<close>)
next
  case (8 s i at f)
  then show ?case by (auto simp: mem_revoke_grant_def gm_abs_None_iff split: option.split)
next
  case (9 s i at f)
  show ?case
  proof (cases "map_of (gs_by_id s) i")
    case (Some h)
    with 9 obtain g where "map_of (gs_by_hash s) h = Some g" "gm_lookup_hash s h = g" "g_id g = i" "gm_abs s i = Some g"
      by (rule gm_lookup_id)
    with 9 Some show ?thesis by (simp add: mem_revoke_grant_def gm_abs_set_hash)
  qed (use 9 in \<open>simp add: mem_revoke_grant_def\<close>)
qed

text \<open>
  The file store under a fault: the rollback restores the maps up to the order of the entries,
  hence the content.
\<close>

lemma fgs_persist_cases:
  "fgs_persist fault s =
     (if fault = None then (s\<lparr>gs_disk := Some (fgs_state s)\<rparr>, None) else (s, Some Err_IO))"
  by (cases fault) (simp_all add: fgs_persist_def)

lemma gm_wf_disk [simp]: "gm_wf (s\<lparr>gs_disk := d\<rparr>) = gm_wf s"
  by (simp add: gm_wf_def)

lemma gm_abs_disk [simp]: "gm_abs (s\<lparr>gs_disk := d\<rparr>) = gm_abs s"
  by (rule ext) (simp add: gm_abs_def split: option.split)

lemma gm_abs_cong: "gs_by_hash s = gs_by_hash t \<Longrightarrow> gs_by_id s = gs_by_id t \<Longrightarrow> gm_abs s = gm_abs t"
  by (rule ext) (simp add: gm_abs_def split: option.split)

lemma delete_update_idem:
  "map_of al k = None \<Longrightarrow> AList.delete k (AList.update k v al) = al"
proof (induction al)
  case (Cons x al)
  then show ?case by (cases x) (auto split: if_splits)
qed simp

lemma fgs_create_cases:
  assumes "hash_fresh g s"
  shows "fgs_create_grant g fault s =
     (if map_of (gs_by_id s) (g_id g) \<noteq> None then (s, Some (Err_Msg ''grant already exists''))
      else if fault = None then ((gm_put g s)\<lparr>gs_disk := Some (fgs_state (gm_put g s))\<rparr>, None)
      else (s, Some Err_IO))"
  using assms
  by (auto simp: fgs_create_grant_def fgs_persist_cases gm_put_def hash_fresh_def delete_update_idem)

lemma gm_set_hash_back:
  assumes "gm_wf s" and "map_of (gs_by_hash s) h = Some g0"
  shows "gm_wf (gm_set_hash h g0 (gm_set_hash h g s))" and "gm_abs (gm_set_hash h g0 (gm_set_hash h g s)) = gm_abs s"
proof -
  have m: "map_of (gs_by_hash (gm_set_hash h g0 (gm_set_hash h g s))) = map_of (gs_by_hash s)"
    and i: "gs_by_id (gm_set_hash h g0 (gm_set_hash h g s)) = gs_by_id s"
    and d: "unique_keys (gs_by_hash (gm_set_hash h g0 (gm_set_hash h g s)))"
    using assms by (auto simp: gm_set_hash_def gm_wf_def fun_eq_iff)
  with assms(1) show "gm_wf (gm_set_hash h g0 (gm_set_hash h g s))" unfolding gm_wf_def by simp
  from m i show "gm_abs (gm_set_hash h g0 (gm_set_hash h g s)) = gm_abs s"
    by (intro ext) (simp add: gm_abs_def split: option.split)
qed

lemma fgs_revoke_cases:
  assumes "gm_wf s" and "map_of (gs_by_id s) i = Some h" and "map_of (gs_by_hash s) h = Some g0"
  shows "fgs_revoke_grant i at fault s =
     (let s1 = gm_set_hash h (g0\<lparr>g_revoked_at := Some at\<rparr>) s in
      if fault = None then (s1\<lparr>gs_disk := Some (fgs_state s1)\<rparr>, None) else (gm_set_hash h g0 s1, Some Err_IO))"
  using assms by (auto simp: fgs_revoke_grant_def fgs_persist_cases gm_lookup_hash_def Let_def)

interpretation fgs: grant_store
  fgs_create_grant fgs_revoke_grant gm_grant_by_token_hash gm_grant_by_id gm_wf gm_abs hash_fresh
  "\<lambda>f. f = None"
proof (unfold_locales, goal_cases)
  case (1 s i) then show ?case by (rule gm_by_id)
next
  case (2 s h g) then show ?case by (rule gm_by_hash_iff)
next
  case (3 s i g) then show ?case by (simp add: gm_abs_Some_iff)
next
  case (4 s g f) then show ?case by (simp add: fgs_create_cases gm_wf_put)
next
  case (5 s g f) then show ?case by (simp add: fgs_create_cases gm_abs_None_iff)
next
  case (6 s g f) then show ?case by (simp add: fgs_create_cases gm_abs_put)
next
  case (7 s i at f)
  show ?case
  proof (cases "map_of (gs_by_id s) i")
    case (Some h)
    with 7 obtain g where "map_of (gs_by_hash s) h = Some g" "g_id g = i" "g_token_hash g = h"
      by (rule gm_lookup_id)
    with 7 Some show ?thesis
      by (simp add: fgs_revoke_cases Let_def gm_set_hash_back gm_wf_set_hash)
  qed (use 7 in \<open>simp add: fgs_revoke_grant_def\<close>)
next
  case (8 s i at f)
  show ?case
  proof (cases "map_of (gs_by_id s) i")
    case (Some h)
    with 8 obtain g where "map_of (gs_by_hash s) h = Some g" "gm_abs s i = Some g"
      by (rule gm_lookup_id)
    with 8 Some show ?thesis by (simp add: fgs_revoke_cases Let_def)
  qed (use 8 in \<open>simp add: fgs_revoke_grant_def gm_abs_None_iff\<close>)
next
  case (9 s i at f)
  show ?case
  proof (cases "map_of (gs_by_id s) i")
    case (Some h)
    with 9 obtain g where "map_of (gs_by_hash s) h = Some g" "g_id g = i" "gm_abs s i = Some g"
      by (rule gm_lookup_id)
    with 9 Some show ?thesis
      by (simp add: fgs_revoke_cases Let_def gm_set_hash_back gm_abs_set_hash)
  qed (use 9 in \<open>simp add: fgs_revoke_grant_def\<close>)
qed

section \<open>Persistence\<close>

text \<open>Loading a list of entries puts them one after the other.\<close>

definition gm_put_all :: "(string \<times> grant) list \<Rightarrow> grant_maps \<Rightarrow> grant_maps" where
  "gm_put_all al m = foldl (\<lambda>m kv. gm_put (snd kv) m) m al"

lemma fgs_load_state:
  assumes "\<forall>kv \<in> set al. g_token_hash (snd kv) = fst kv \<and> length (fst kv) = 32"
  shows "fgs_load_items (map (\<lambda>(h, g). \<lparr>fg_grant = g\<lparr>g_token_hash := zero_hash\<rparr>, fg_token_hash = hex_encode h\<rparr>) al) m
    = Inr (gm_put_all al m)"
  using assms
proof (induction al arbitrary: m)
  case (Cons kv al)
  obtain h g where kv: "kv = (h, g)" by (cases kv)
  with Cons.prems have g: "h = g_token_hash g" "length h = 32" by auto
  have "g\<lparr>g_token_hash := g_token_hash g\<rparr> = g" by simp
  with g kv Cons show ?case by (simp add: gm_put_all_def)
qed (simp add: gm_put_all_def)

lemma map_add_upd_fresh: "n k = None \<Longrightarrow> m(k \<mapsto> v) ++ n = m ++ n(k \<mapsto> v)"
  by (auto simp: fun_eq_iff map_add_def split: option.split)

lemma gm_put_all_maps:
  assumes "unique_keys al" and "\<forall>kv \<in> set al. g_token_hash (snd kv) = fst kv"
    and "distinct (map (\<lambda>kv. g_id (snd kv)) al)"
  shows "map_of (gs_by_hash (gm_put_all al m)) = map_of (gs_by_hash m) ++ map_of al
    \<and> map_of (gs_by_id (gm_put_all al m)) = map_of (gs_by_id m) ++ map_of (map (\<lambda>kv. (g_id (snd kv), fst kv)) al)"
  using assms
proof (induction al arbitrary: m)
  case (Cons kv al)
  obtain h g where kv: "kv = (h, g)" by (cases kv)
  have fresh: "map_of al h = None" "map_of (map (\<lambda>kv. (g_id (snd kv), fst kv)) al) (g_id g) = None"
    using Cons.prems kv by (auto simp: unique_keys_def map_of_eq_None_iff image_iff)
  have u: "unique_keys al" using Cons.prems by (simp add: unique_keys_def)
  have p: "gm_put_all (kv # al) m = gm_put_all al (gm_put g m)" by (simp add: gm_put_all_def kv)
  have g: "g_token_hash g = h" using Cons.prems kv by simp
  have "map_of (gs_by_hash (gm_put_all al (gm_put g m))) = map_of (gs_by_hash (gm_put g m)) ++ map_of al
      \<and> map_of (gs_by_id (gm_put_all al (gm_put g m)))
        = map_of (gs_by_id (gm_put g m)) ++ map_of (map (\<lambda>kv. (g_id (snd kv), fst kv)) al)"
    using Cons.IH [OF u] Cons.prems by simp
  with fresh g show ?case
    unfolding p by (auto simp: kv gm_put_def map_add_upd_fresh fun_eq_iff map_add_def split: option.split)
qed (simp add: gm_put_all_def)

lemma gm_wf_entry:
  assumes "gm_wf s" and "kv \<in> set (gs_by_hash s)"
  shows "map_of (gs_by_hash s) (fst kv) = Some (snd kv)"
  using assms by (simp add: gm_wf_def unique_keys_def)

lemma gm_wf_distinct_ids:
  assumes "gm_wf s"
  shows "distinct (map (\<lambda>kv. g_id (snd kv)) (gs_by_hash s))"
proof -
  have "inj_on (\<lambda>kv. g_id (snd kv)) (set (gs_by_hash s))"
  proof (rule inj_onI)
    fix x y
    assume xy: "x \<in> set (gs_by_hash s)" "y \<in> set (gs_by_hash s)" "g_id (snd x) = g_id (snd y)"
    note m = gm_wf_entry [OF assms xy(1)] gm_wf_entry [OF assms xy(2)]
    have "fst x = fst y"
      using gm_wf_hashD(3) [OF assms m(1)] gm_wf_hashD(3) [OF assms m(2)] xy(3) by simp
    with m show "x = y" by (simp add: prod_eq_iff)
  qed
  moreover have "distinct (gs_by_hash s)"
    using assms by (auto simp: gm_wf_def unique_keys_def dest: distinct_map [THEN iffD1])
  ultimately show ?thesis by (simp add: distinct_map)
qed

text \<open>What a well-formed store writes is read back as a store with the same content.\<close>

definition fgs_reads_back :: "file_grant list \<Rightarrow> (string \<rightharpoonup> grant) \<Rightarrow> bool" where
  "fgs_reads_back items c \<longleftrightarrow>
     (\<exists>m. fgs_load_items items \<lparr>gs_by_hash = [], gs_by_id = []\<rparr> = Inr m \<and> gm_abs m = c)"

lemma fgs_state_reads_back:
  assumes "gm_wf s"
  shows "fgs_reads_back (fgs_state s) (gm_abs s)"
proof -
  let ?al = "gs_by_hash s" and ?e = "\<lparr>gs_by_hash = [], gs_by_id = []\<rparr>"
  have ent: "\<forall>kv \<in> set ?al. g_token_hash (snd kv) = fst kv \<and> length (fst kv) = 32"
    using gm_wf_hashD(1,2) [OF assms] gm_wf_entry [OF assms] by blast
  have u: "unique_keys ?al" using assms by (simp add: gm_wf_def)
  note d = gm_wf_distinct_ids [OF assms]
  let ?m = "gm_put_all ?al ?e"
  have h: "map_of (gs_by_hash ?m) = map_of ?al"
    and i: "map_of (gs_by_id ?m) = map_of (map (\<lambda>kv. (g_id (snd kv), fst kv)) ?al)"
    using gm_put_all_maps [OF u _ d, of ?e] ent by simp_all
  have ids: "map_of (map (\<lambda>kv. (g_id (snd kv), fst kv)) ?al) j = map_of (gs_by_id s) j" for j
  proof (cases "map_of (gs_by_id s) j")
    case (Some k)
    from gm_wf_id_ex [OF assms this] obtain g where "map_of ?al k = Some g" "g_id g = j" by blast
    then have "(j, k) \<in> set (map (\<lambda>kv. (g_id (snd kv), fst kv)) ?al)" by (force dest: map_of_SomeD)
    with d Some show ?thesis by (simp add: comp_def map_of_is_SomeI)
  next
    case None
    then have "j \<notin> fst ` set (map (\<lambda>kv. (g_id (snd kv), fst kv)) ?al)"
      using gm_wf_hashD(3) [OF assms gm_wf_entry [OF assms]] by auto
    then have "map_of (map (\<lambda>kv. (g_id (snd kv), fst kv)) ?al) j = None"
      by (metis map_of_eq_None_iff)
    with None show ?thesis by simp
  qed
  have "gm_abs ?m = gm_abs s" by (intro ext) (simp add: gm_abs_def h i ids split: option.split)
  with fgs_load_state [OF ent, of ?e] show ?thesis
    by (auto simp: fgs_reads_back_def fgs_state_def)
qed

text \<open>The store's file stands for the content of the store.\<close>

definition fgs_disk_holds :: "file_grant list option \<Rightarrow> (string \<rightharpoonup> grant) \<Rightarrow> bool" where
  "fgs_disk_holds d c \<longleftrightarrow> (case d of None \<Rightarrow> c = Map.empty | Some items \<Rightarrow> fgs_reads_back items c)"

definition fgs_synced :: "file_grant_store \<Rightarrow> bool" where
  "fgs_synced s \<longleftrightarrow> gm_wf s \<and> fgs_disk_holds (gs_disk s) (gm_abs s)"

lemma fgs_disk_holds_state: "gm_wf s \<Longrightarrow> fgs_disk_holds (Some (fgs_state s)) (gm_abs s)"
  by (simp add: fgs_disk_holds_def fgs_state_reads_back)

definition fgs_empty :: file_grant_store where
  "fgs_empty = \<lparr>gs_by_hash = [], gs_by_id = [], gs_disk = None\<rparr>"

inductive fgs_step :: "file_grant_store \<Rightarrow> file_grant_store \<Rightarrow> bool" where
  fgs_step_create: "hash_fresh g s \<Longrightarrow> fgs_step s (fst (fgs_create_grant g fault s))"
| fgs_step_revoke: "fgs_step s (fst (fgs_revoke_grant i at fault s))"

lemma fgs_synced_create:
  assumes "fgs_synced s" and "hash_fresh g s"
  shows "fgs_synced (fst (fgs_create_grant g fault s))"
proof -
  have "gm_wf s" using assms by (simp add: fgs_synced_def)
  moreover have "gm_wf (gm_put g s)" if "map_of (gs_by_id s) (g_id g) = None"
    using gm_wf_put [OF \<open>gm_wf s\<close> that assms(2)] .
  ultimately show ?thesis
    using assms by (simp add: fgs_create_cases fgs_synced_def fgs_disk_holds_state)
qed

lemma fgs_disk_set_hash [simp]: "gs_disk (gm_set_hash h g s) = gs_disk s"
  by (simp add: gm_set_hash_def)

lemma fgs_synced_revoke:
  assumes "fgs_synced s"
  shows "fgs_synced (fst (fgs_revoke_grant i at fault s))"
proof (cases "map_of (gs_by_id s) i")
  case (Some h)
  have wf: "gm_wf s" using assms by (simp add: fgs_synced_def)
  from wf Some obtain g where g: "map_of (gs_by_hash s) h = Some g" "g_token_hash g = h"
    by (rule gm_lookup_id)
  have "gm_wf (gm_set_hash h (g\<lparr>g_revoked_at := Some at\<rparr>) s)"
    using gm_wf_set_hash [OF wf g(1)] g(2) by simp
  then show ?thesis
    using assms gm_set_hash_back [OF wf g(1)]
    by (simp add: fgs_revoke_cases [OF wf Some g(1)] Let_def fgs_synced_def fgs_disk_holds_state)
qed (use assms in \<open>simp add: fgs_revoke_grant_def\<close>)

interpretation fgs_run: stable_predicate fgs_step fgs_synced
  by unfold_locales (auto elim!: fgs_step.cases intro: fgs_synced_create fgs_synced_revoke)

section \<open>Properties\<close>

text \<open>
  The grant store survives restarts: after any sequence of \<open>CreateGrant\<close> and \<open>RevokeGrant\<close>
  calls on a new store, with write failures at any point, opening the file gives a store with
  exactly the grants (and revocations) the running process has.
\<close>

theorem grant_store_durable:
  assumes "fgs_step\<^sup>*\<^sup>* fgs_empty s" and "path \<noteq> []"
  shows "\<exists>s'. fgs_open path (gs_disk s) = Inr s' \<and> gm_abs s' = gm_abs s"
proof -
  have "fgs_synced fgs_empty"
    by (simp add: fgs_synced_def fgs_disk_holds_def fgs_empty_def gm_wf_def gm_abs_def fun_eq_iff)
  then have s: "fgs_synced s" using assms(1) fgs_run.steps_keep by blast
  show ?thesis
  proof (cases "gs_disk s")
    case None
    with s assms(2) show ?thesis
      by (simp add: fgs_synced_def fgs_disk_holds_def fgs_open_def gm_abs_def fun_eq_iff)
  next
    case (Some items)
    with s obtain m where m: "fgs_load_items items \<lparr>gs_by_hash = [], gs_by_id = []\<rparr> = Inr m" "gm_abs m = gm_abs s"
      by (auto simp: fgs_synced_def fgs_disk_holds_def fgs_reads_back_def)
    let ?s' = "\<lparr>gs_by_hash = gs_by_hash m, gs_by_id = gs_by_id m, gs_disk = Some items\<rparr>"
    have "gm_abs ?s' = gm_abs m" by (rule gm_abs_cong) simp_all
    with m Some assms(2) show ?thesis by (simp add: fgs_open_def)
  qed
qed

definition demo_grant :: grant where
  "demo_grant = zero_grant\<lparr>g_id := ''g1'', g_expires_at := 100\<rparr>"

theorem grant_store_durable_witness:
  "\<exists>s'. fgs_open ''f'' (gs_disk (fst (fgs_create_grant demo_grant None fgs_empty))) = Inr s'
     \<and> gm_abs s' = gm_abs (fst (fgs_create_grant demo_grant None fgs_empty))"
proof (rule grant_store_durable)
  show "fgs_step\<^sup>*\<^sup>* fgs_empty (fst (fgs_create_grant demo_grant None fgs_empty))"
    by (rule r_into_rtranclp, rule fgs_step_create)
      (simp add: hash_fresh_def fgs_empty_def demo_grant_def zero_grant_def)
qed simp

end
