(* ===== verification/Emergency.thy ===== *)
theory Emergency
  imports Go_Strings Transition_System "HOL-Library.Word"
begin

text \<open>
  The emergency store (\<open>internal/emergency/store.go\<close>): the monotonic security epoch and the
  global disable switch, in memory and on disk. The state record is the source's \<open>State\<close>; the
  file is the value its JSON text stands for. Whether a write to disk fails, and at which call,
  is an argument of each operation. The theorems say that a revocation is irrevocable.
\<close>

section \<open>State and operations\<close>

record em_state =
  em_epoch :: "64 word"
  em_disabled :: bool
  em_updated_at :: time
  em_reason :: string

record em_store =
  em_mem :: em_state
  em_disk :: "em_state option"

definition em_zero :: em_state where
  "em_zero = \<lparr>em_epoch = 0, em_disabled = False, em_updated_at = 0, em_reason = []\<rparr>"

text \<open>What \<open>Open\<close> finds at the path, and what decoding the file yields.\<close>

datatype em_content = Em_unreadable | Em_bad_json | Em_trailing_value | Em_trailing_garbage | Em_value em_state

datatype em_file = Em_missing | Em_stat_error | Em_found bool nat em_content

definition group_other_write :: "nat \<Rightarrow> bool" where
  "group_other_write perm \<longleftrightarrow> perm div 2 mod 2 = 1 \<or> perm div 16 mod 2 = 1"

definition em_open :: "string \<Rightarrow> em_file \<Rightarrow> err + em_store" where
  "em_open path file =
     (if trim_space path = [] then Inl (Err_Msg ''emergency state path is empty'')
      else case file of
        Em_missing \<Rightarrow> Inr \<lparr>em_mem = em_zero, em_disk = None\<rparr>
      | Em_stat_error \<Rightarrow> Inl Err_IO
      | Em_found regular perm content \<Rightarrow>
          (if \<not> regular then Inl (Err_Msg ''emergency state must be a regular file'')
           else if group_other_write perm then Inl (Err_Msg ''emergency state must not be group/other writable'')
           else case content of
             Em_unreadable \<Rightarrow> Inl Err_IO
           | Em_bad_json \<Rightarrow> Inl (Err_Msg ''decode emergency state'')
           | Em_trailing_value \<Rightarrow> Inl (Err_Msg ''emergency state must contain exactly one JSON value'')
           | Em_trailing_garbage \<Rightarrow> Inl (Err_Msg ''decode trailing emergency state data'')
           | Em_value st \<Rightarrow> Inr \<lparr>em_mem = st, em_disk = Some st\<rparr>))"

definition em_snapshot :: "em_store \<Rightarrow> em_state" where
  "em_snapshot s = em_mem s"

definition em_validate_epoch :: "em_store \<Rightarrow> 64 word \<Rightarrow> err option" where
  "em_validate_epoch s epoch =
     (let state = em_snapshot s in
      if em_disabled state then Some Err_Disabled
      else if epoch \<noteq> em_epoch state then Some Err_StaleEpoch
      else None)"

definition normalize_reason :: "string \<Rightarrow> string" where
  "normalize_reason reason = take 512 (trim_space reason)"

definition em_persist :: "fs_fault \<Rightarrow> em_store \<Rightarrow> em_store \<times> err option" where
  "em_persist fault s =
     (case atomic_replace fault (em_disk s) (Some (em_mem s)) of (disk, e) \<Rightarrow> (s\<lparr>em_disk := disk\<rparr>, e))"

definition em_revoke_all :: "string \<Rightarrow> time \<Rightarrow> fs_fault \<Rightarrow> em_store \<Rightarrow> em_store \<times> em_state \<times> err option" where
  "em_revoke_all reason at fault s =
     (let r = normalize_reason reason in
      if em_epoch (em_mem s) = - 1 then
        (let s1 = s\<lparr>em_mem := (em_mem s)\<lparr>em_disabled := True, em_updated_at := at, em_reason := r\<rparr>\<rparr>;
             (s2, e) = em_persist fault s1
         in case e of
              Some x \<Rightarrow> (s2, em_mem s2, Some x)
            | None \<Rightarrow> (s2, em_mem s2, Some Err_EpochExhausted))
      else
        (let s1 = s\<lparr>em_mem := \<lparr>em_epoch = em_epoch (em_mem s) + 1, em_disabled = True,
                               em_updated_at = at, em_reason = r\<rparr>\<rparr>;
             (s2, e) = em_persist fault s1
         in (s2, em_mem s2, e)))"

definition em_enable :: "string \<Rightarrow> time \<Rightarrow> fs_fault \<Rightarrow> em_store \<Rightarrow> em_store \<times> (err + em_state)" where
  "em_enable reason at fault s =
     (let r = normalize_reason reason in
      if em_epoch (em_mem s) = - 1 then (s, Inl Err_EpochExhausted)
      else
        (let old = em_mem s;
             s1 = s\<lparr>em_mem := old\<lparr>em_disabled := False, em_updated_at := at, em_reason := r\<rparr>\<rparr>;
             (s2, e) = em_persist fault s1
         in case e of
              Some x \<Rightarrow> (s2\<lparr>em_mem := old\<rparr>, Inl x)
            | None \<Rightarrow> (s2, Inr (em_mem s2))))"

text \<open>A restart of the process opens the file it left; a missing file is the zero state.\<close>

definition em_restart :: "em_store \<Rightarrow> em_store" where
  "em_restart s = s\<lparr>em_mem := (case em_disk s of None \<Rightarrow> em_zero | Some st \<Rightarrow> st)\<rparr>"

lemmas em_defs = em_persist_def em_revoke_all_def em_enable_def em_restart_def em_snapshot_def
  em_validate_epoch_def

section \<open>Runs\<close>

text \<open>One process: every interleaving of the two mutating operations, failing or not.\<close>

inductive em_step :: "em_store \<Rightarrow> em_store \<Rightarrow> bool" where
  em_step_revoke: "em_step s (fst (em_revoke_all reason at fault s))"
| em_step_enable: "em_step s (fst (em_enable reason at fault s))"

text \<open>The same with restarts of the process in between.\<close>

inductive em_life_step :: "em_store \<Rightarrow> em_store \<Rightarrow> bool" where
  em_life_run: "em_step s t \<Longrightarrow> em_life_step s t"
| em_life_restart: "em_life_step s (em_restart s)"

section \<open>A dead epoch stays dead\<close>

text \<open>
  An epoch is dead in a state when no sequence of operations can make it current again: it is
  older than the current epoch, or the counter is exhausted and the switch is off.
\<close>

definition em_dead_in :: "64 word \<Rightarrow> em_state \<Rightarrow> bool" where
  "em_dead_in e st \<longleftrightarrow> e < em_epoch st \<or> (em_epoch st = - 1 \<and> em_disabled st)"

definition em_dead :: "64 word \<Rightarrow> em_store \<Rightarrow> bool" where
  "em_dead e s \<longleftrightarrow> em_dead_in e (em_mem s)"

definition em_dead_durably :: "64 word \<Rightarrow> em_store \<Rightarrow> bool" where
  "em_dead_durably e s \<longleftrightarrow> em_dead e s \<and> (\<exists>d. em_disk s = Some d \<and> em_dead_in e d)"

lemma unat_succ_64: "(w :: 64 word) \<noteq> - 1 \<Longrightarrow> unat (w + 1) = Suc (unat w)"
proof -
  assume "w \<noteq> - 1"
  then have "1 + w \<noteq> 0" by (metis add_eq_0_iff)
  then show ?thesis using unatSuc [of w] by (simp add: add.commute)
qed

lemma word_less_succ: "(w :: 64 word) \<noteq> - 1 \<Longrightarrow> w < w + 1"
  by (simp add: word_less_nat_alt unat_succ_64)

lemma unat_max_64: "unat (- 1 :: 64 word) = 2 ^ 64 - 1"
  by (simp add: unsigned_minus_1_eq_mask mask_eq_exp_minus_1)

lemma em_dead_rejected: "em_dead e s \<Longrightarrow> em_validate_epoch s e \<noteq> None"
  by (auto simp: em_dead_def em_dead_in_def em_validate_epoch_def em_snapshot_def Let_def)

lemma em_persist_cases:
  "em_persist fault s =
     (if fault = None then (s\<lparr>em_disk := Some (em_mem s)\<rparr>, None) else (s, Some Err_IO))"
  by (cases fault) (simp_all add: em_persist_def)

lemma em_revoke_all_mem:
  "em_mem (fst (em_revoke_all reason at fault s)) =
     (em_mem s)\<lparr>em_epoch := (if em_epoch (em_mem s) = - 1 then - 1 else em_epoch (em_mem s) + 1),
               em_disabled := True, em_updated_at := at, em_reason := normalize_reason reason\<rparr>"
  by (auto simp: em_revoke_all_def em_persist_cases Let_def)

lemma em_revoke_all_disk:
  "em_disk (fst (em_revoke_all reason at fault s)) =
     (if fault = None then Some (em_mem (fst (em_revoke_all reason at fault s))) else em_disk s)"
  by (auto simp: em_revoke_all_def em_persist_cases Let_def)

lemma em_enable_state:
  "fst (em_enable reason at fault s) =
     (if em_epoch (em_mem s) = - 1 \<or> fault \<noteq> None then s
      else (let st = (em_mem s)\<lparr>em_disabled := False, em_updated_at := at, em_reason := normalize_reason reason\<rparr>
            in \<lparr>em_mem = st, em_disk = Some st\<rparr>))"
  by (auto simp: em_enable_def em_persist_cases Let_def)

lemma em_dead_revoke_all: "em_epoch (em_mem s) \<ge> e \<Longrightarrow> em_dead e (fst (em_revoke_all reason at fault s))"
  by (auto simp: em_dead_def em_dead_in_def em_revoke_all_mem intro: le_less_trans word_less_succ)

lemma em_dead_revoke_keep: "em_dead e s \<Longrightarrow> em_dead e (fst (em_revoke_all reason at fault s))"
  by (auto simp: em_dead_def em_dead_in_def em_revoke_all_mem intro: less_trans word_less_succ)

lemma em_dead_enable_keep: "em_dead e s \<Longrightarrow> em_dead e (fst (em_enable reason at fault s))"
  by (auto simp: em_dead_def em_dead_in_def em_enable_state Let_def)

interpretation em_proc: stable_predicate em_step "em_dead e"
  by unfold_locales (auto elim!: em_step.cases intro: em_dead_revoke_keep em_dead_enable_keep)

lemma em_dead_durably_run: "em_step s t \<Longrightarrow> em_dead_durably e s \<Longrightarrow> em_dead_durably e t"
proof -
  assume step: "em_step s t" and d: "em_dead_durably e s"
  have mem: "em_dead e t" using step d em_proc.step_keeps by (auto simp: em_dead_durably_def)
  from step have "em_disk t = em_disk s \<or> em_disk t = Some (em_mem t)"
    by cases (auto simp: em_revoke_all_disk em_enable_state Let_def)
  with mem d show ?thesis by (auto simp: em_dead_durably_def em_dead_def)
qed

lemma em_dead_durably_restart: "em_dead_durably e s \<Longrightarrow> em_dead_durably e (em_restart s)"
  by (auto simp: em_dead_durably_def em_dead_def em_restart_def)

interpretation em_life: stable_predicate em_life_step "em_dead_durably e"
  by unfold_locales
    (auto elim!: em_life_step.cases intro: em_dead_durably_run em_dead_durably_restart)

section \<open>Properties\<close>

text \<open>
  REVOKE ALL is irrevocable: whatever the epoch was and whether or not the write to disk
  succeeded, after \<open>RevokeAll\<close> every epoch up to the one that was current is refused, and it
  stays refused after any further sequence of \<open>RevokeAll\<close> and \<open>Enable\<close> calls in this process,
  including at the exhaustion of the 64-bit counter.
\<close>

theorem revoke_all_irrevocable:
  assumes "e \<le> em_epoch (em_mem s)"
    and "em_step\<^sup>*\<^sup>* (fst (em_revoke_all reason at fault s)) t"
  shows "em_validate_epoch t e \<noteq> None"
  using em_proc.steps_keep [OF assms(2)] em_dead_revoke_all [OF assms(1)] em_dead_rejected by blast

theorem revoke_all_irrevocable_witness:
  "em_validate_epoch
     (fst (em_enable ''back'' 9 None
       (fst (em_revoke_all ''drill'' 5 (Some Sync_temp)
         \<lparr>em_mem = em_zero\<lparr>em_epoch := 7\<rparr>, em_disk = None\<rparr>)))) 7 \<noteq> None"
proof (rule revoke_all_irrevocable)
  show "em_step\<^sup>*\<^sup>*
     (fst (em_revoke_all ''drill'' 5 (Some Sync_temp) \<lparr>em_mem = em_zero\<lparr>em_epoch := 7\<rparr>, em_disk = None\<rparr>))
     (fst (em_enable ''back'' 9 None
       (fst (em_revoke_all ''drill'' 5 (Some Sync_temp)
         \<lparr>em_mem = em_zero\<lparr>em_epoch := 7\<rparr>, em_disk = None\<rparr>))))"
    by (rule r_into_rtranclp, rule em_step_enable)
qed simp

text \<open>
  A persisted REVOKE ALL survives restarts: when the file was written, every epoch up to the
  revoked one stays refused under any later sequence of operations, failing writes and process
  restarts.
\<close>

theorem revoke_all_durable:
  assumes "e \<le> em_epoch (em_mem s)"
    and "em_life_step\<^sup>*\<^sup>* (fst (em_revoke_all reason at None s)) t"
  shows "em_validate_epoch t e \<noteq> None"
proof -
  let ?s = "fst (em_revoke_all reason at None s)"
  have dead: "em_dead e ?s" by (rule em_dead_revoke_all [OF assms(1)])
  then have "em_dead_durably e ?s" by (simp add: em_dead_durably_def em_dead_def em_revoke_all_disk)
  with assms(2) have "em_dead_durably e t" by (rule em_life.steps_keep)
  then show ?thesis by (simp add: em_dead_durably_def em_dead_rejected)
qed

theorem revoke_all_durable_witness:
  "em_validate_epoch
     (em_restart (fst (em_revoke_all ''drill'' 5 None \<lparr>em_mem = em_zero\<lparr>em_epoch := 7\<rparr>, em_disk = None\<rparr>))) 7
   \<noteq> None"
proof (rule revoke_all_durable)
  show "em_life_step\<^sup>*\<^sup>*
     (fst (em_revoke_all ''drill'' 5 None \<lparr>em_mem = em_zero\<lparr>em_epoch := 7\<rparr>, em_disk = None\<rparr>))
     (em_restart (fst (em_revoke_all ''drill'' 5 None \<lparr>em_mem = em_zero\<lparr>em_epoch := 7\<rparr>, em_disk = None\<rparr>)))"
    by (rule r_into_rtranclp, rule em_life_restart)
qed simp

text \<open>
  The two switches fail in the safe direction. When the file cannot be written, \<open>RevokeAll\<close>
  still leaves this process disabled and reports the error, and \<open>Enable\<close> leaves the whole state
  as it was and reports the error.
\<close>

theorem emergency_fails_safe:
  "em_disabled (em_mem (fst (em_revoke_all reason at (Some f) s)))
   \<and> snd (snd (em_revoke_all reason at (Some f) s)) = Some Err_IO
   \<and> fst (em_enable reason at (Some f) s) = s
   \<and> (\<exists>x. snd (em_enable reason at (Some f) s) = Inl x)"
  by (auto simp: em_revoke_all_def em_enable_def em_persist_cases Let_def)

text \<open>
  The epoch never decreases within a process, and it increases by exactly one at each
  \<open>RevokeAll\<close> until the counter is exhausted; \<open>Enable\<close> never changes it.
\<close>

theorem epoch_monotone:
  "em_epoch (em_mem s) \<le> em_epoch (em_mem (fst (em_revoke_all reason at fault s)))
   \<and> unat (em_epoch (em_mem (fst (em_revoke_all reason at fault s))))
       = min (unat (em_epoch (em_mem s)) + 1) (2 ^ 64 - 1)
   \<and> em_epoch (em_mem (fst (em_enable reason' at' fault' s))) = em_epoch (em_mem s)"
proof (cases "em_epoch (em_mem s) = - 1")
  case True
  then show ?thesis by (simp add: em_revoke_all_mem em_enable_state unat_max_64)
next
  case False
  have "unat (em_epoch (em_mem s) + 1) < 2 ^ 64" using unsigned_less [of "em_epoch (em_mem s) + 1"] by simp
  with False show ?thesis
    by (auto simp: em_revoke_all_mem em_enable_state Let_def unat_succ_64 intro: less_imp_le word_less_succ)
qed

end
