(* ===== verification/Go_Base64.thy ===== *)
theory Go_Base64
  imports Go_Strings
begin

text \<open>
  \<open>base64.RawURLEncoding\<close>: the URL alphabet without padding. The decoder skips carriage returns
  and newlines, refuses every other byte outside the alphabet, refuses a single trailing symbol,
  and ignores the spare bits of the last symbol (Go's decoder is not strict by default).
\<close>

definition b64_char :: "nat \<Rightarrow> char" where
  "b64_char v =
     (if v < 26 then char_of (0x41 + v)
      else if v < 52 then char_of (0x61 + (v - 26))
      else if v < 62 then char_of (0x30 + (v - 52))
      else if v = 62 then CHR ''-'' else CHR 0x5F)"

definition b64_value :: "char \<Rightarrow> nat option" where
  "b64_value c = (let n = of_char c :: nat in
     if 0x41 \<le> n \<and> n \<le> 0x5A then Some (n - 0x41)
     else if 0x61 \<le> n \<and> n \<le> 0x7A then Some (n - 0x61 + 26)
     else if 0x30 \<le> n \<and> n \<le> 0x39 then Some (n - 0x30 + 52)
     else if c = CHR ''-'' then Some 62
     else if c = CHR 0x5F then Some 63
     else None)"

fun b64_sextets :: "string \<Rightarrow> nat list" where
  "b64_sextets (a # b # c # s) =
     (let x = of_char a; y = of_char b; z = of_char c in
      x div 4 # (x mod 4 * 16 + y div 16) # (y mod 16 * 4 + z div 64) # z mod 64 # b64_sextets s)"
| "b64_sextets [a, b] =
     (let x = of_char a; y = of_char b in [x div 4, x mod 4 * 16 + y div 16, y mod 16 * 4])"
| "b64_sextets [a] = (let x = of_char a in [x div 4, x mod 4 * 16])"
| "b64_sextets [] = []"

definition b64url_encode :: "string \<Rightarrow> string" where
  "b64url_encode s = map b64_char (b64_sextets s)"

fun b64_bytes :: "nat list \<Rightarrow> string option" where
  "b64_bytes (p # q # r # t # vs) =
     map_option (\<lambda>s. char_of (p * 4 + q div 16) # char_of (q mod 16 * 16 + r div 4) # char_of (r mod 4 * 64 + t) # s)
       (b64_bytes vs)"
| "b64_bytes [p, q, r] = Some [char_of (p * 4 + q div 16), char_of (q mod 16 * 16 + r div 4)]"
| "b64_bytes [p, q] = Some [char_of (p * 4 + q div 16)]"
| "b64_bytes [p] = None"
| "b64_bytes [] = Some []"

fun b64_values :: "string \<Rightarrow> nat list option" where
  "b64_values [] = Some []"
| "b64_values (c # s) =
     (if c = CHR 0x0A \<or> c = CHR 0x0D then b64_values s
      else (case b64_value c of None \<Rightarrow> None | Some v \<Rightarrow> map_option ((#) v) (b64_values s)))"

definition b64url_decode :: "string \<Rightarrow> string option" where
  "b64url_decode s = Option.bind (b64_values s) b64_bytes"

lemma b64_value_char [simp]: "v < 64 \<Longrightarrow> b64_value (b64_char v) = Some v"
proof -
  assume "v < 64"
  then consider "v < 26" | "26 \<le> v" "v < 52" | "52 \<le> v" "v < 62" | "v = 62" | "v = 63" by linarith
  then show ?thesis by cases (auto simp: b64_value_def b64_char_def Let_def)
qed

lemma b64_char_not_nl: "v < 64 \<Longrightarrow> b64_char v \<noteq> CHR 0x0A \<and> b64_char v \<noteq> CHR 0x0D"
proof -
  assume "v < 64"
  then have "b64_value (b64_char v) \<noteq> None" by simp
  moreover have "b64_value (CHR 0x0A) = None" "b64_value (CHR 0x0D) = None" by (simp_all add: b64_value_def)
  ultimately show ?thesis by metis
qed

lemma sextet_bounds:
  fixes x y :: nat
  assumes "x < 256" and "y < 256"
  shows "x div 4 < 64" and "x mod 4 * 16 + y div 16 < 64" and "x mod 16 * 4 + y div 64 < 64"
    and "x mod 4 * 16 < 64" and "x mod 16 * 4 < 64"
proof -
  have "x mod 4 < 4" "x mod 16 < 16" "y div 16 < 16" "y div 64 < 4" "x div 4 < 64" using assms by auto
  then show "x div 4 < 64" and "x mod 4 * 16 + y div 16 < 64" and "x mod 16 * 4 + y div 64 < 64"
    and "x mod 4 * 16 < 64" and "x mod 16 * 4 < 64" by linarith+
qed

lemma b64_sextets_bound: "v \<in> set (b64_sextets s) \<Longrightarrow> v < 64"
proof (induction s rule: b64_sextets.induct)
  case (1 a b c s)
  then show ?case
    using sextet_bounds [of "of_char a" "of_char b"] sextet_bounds [of "of_char b" "of_char c"]
    by (auto simp: Let_def)
next
  case (2 a b)
  then show ?case
    using sextet_bounds [of "of_char a" "of_char b"] sextet_bounds [of "of_char b" "of_char b"]
    by (auto simp: Let_def)
next
  case (3 a)
  then show ?case using sextet_bounds [of "of_char a" "of_char a"] by (auto simp: Let_def)
qed simp

lemma byte_parts [simp]:
  "(of_char c :: nat) div 16 div 16 = 0" "(of_char c :: nat) div 16 mod 16 = of_char c div 16"
  "(of_char c :: nat) div 64 div 4 = 0" "(of_char c :: nat) div 64 mod 4 = of_char c div 64"
proof -
  have "(of_char c :: nat) < 256" by simp
  then have "(of_char c :: nat) div 16 < 16" "(of_char c :: nat) div 64 < 4" by linarith+
  then show "(of_char c :: nat) div 16 div 16 = 0" "(of_char c :: nat) div 16 mod 16 = of_char c div 16"
    "(of_char c :: nat) div 64 div 4 = 0" "(of_char c :: nat) div 64 mod 4 = of_char c div 64" by simp_all
qed

lemma b64_bytes_sextets [simp]: "b64_bytes (b64_sextets s) = Some s"
  by (induction s rule: b64_sextets.induct) (simp_all add: Let_def)

lemma b64_values_chars: "\<forall>v \<in> set vs. v < 64 \<Longrightarrow> b64_values (map b64_char vs) = Some vs"
  by (induction vs) (simp_all add: b64_char_not_nl)

lemma b64url_roundtrip [simp]: "b64url_decode (b64url_encode s) = Some s"
  using b64_sextets_bound by (simp add: b64url_decode_def b64url_encode_def b64_values_chars)

end
