(* ===== verification/Capability.thy ===== *)
theory Capability
  imports Grant_Store Emergency Go_Crypto Go_Base64
begin

text \<open>
  The capability service (\<open>internal/capability\<close>) over the file-backed stores: opaque tokens whose
  SHA-256 is all the server keeps, issue, authentication by token, hash or grant ID, and
  revocation. The random bytes, the clock and the outcome of the disk writes are arguments. The
  backend is the source's \<open>legacyBackend\<close>: a grant store and an optional emergency store, either of
  which may be nil; a nil service or backend is \<open>None\<close>.
\<close>

section \<open>Tokens\<close>

definition token_prefix :: string where
  "token_prefix = ''tsc_''"

definition token_hash :: "string \<Rightarrow> string" where
  "token_hash token = sha256 token"

text \<open>\<open>Generate\<close>: the 32 random bytes, \<open>None\<close> when \<open>crypto/rand\<close> fails.\<close>

definition generate_token :: "string option \<Rightarrow> err + string \<times> string" where
  "generate_token rnd =
     (case rnd of
        None \<Rightarrow> Inl Err_Rand
      | Some buf \<Rightarrow> (let token = token_prefix @ b64url_encode buf in Inr (token, token_hash token)))"

definition validate_format :: "string \<Rightarrow> err option" where
  "validate_format token =
     (if \<not> has_prefix token token_prefix then Some Err_MalformedToken
      else (case b64url_decode (trim_prefix token token_prefix) of
          None \<Rightarrow> Some Err_MalformedToken
        | Some raw \<Rightarrow> if length raw \<noteq> 32 then Some Err_MalformedToken else None))"

definition random_id :: "string option \<Rightarrow> err + string" where
  "random_id rnd = (case rnd of None \<Rightarrow> Inl Err_Rand | Some b \<Rightarrow> Inr (hex_encode b))"

section \<open>Backend and service\<close>

record legacy_backend =
  lb_store :: "file_grant_store option"
  lb_emergency :: "em_store option"

type_synonym cap_service = "legacy_backend option"

definition lb_issue_grant :: "grant \<Rightarrow> fs_fault \<Rightarrow> legacy_backend \<Rightarrow> legacy_backend \<times> (err + grant)" where
  "lb_issue_grant g fault b =
     (case lb_store b of
        None \<Rightarrow> (b, Inl Err_BackendUnavailable)
      | Some st \<Rightarrow>
          (if (case lb_emergency b of None \<Rightarrow> False | Some em \<Rightarrow> em_disabled (em_snapshot em))
           then (b, Inl Err_GlobalRevoked)
           else
             (let g' = (case lb_emergency b of None \<Rightarrow> g | Some em \<Rightarrow> g\<lparr>g_security_epoch := em_epoch (em_snapshot em)\<rparr>);
                  (st', e) = fgs_create_grant g' fault st
              in (b\<lparr>lb_store := Some st'\<rparr>, (case e of Some x \<Rightarrow> Inl x | None \<Rightarrow> Inr g')))))"

definition lb_authenticate_grant :: "legacy_backend \<Rightarrow> grant \<Rightarrow> time \<Rightarrow> err + grant" where
  "lb_authenticate_grant b g now =
     (if (case lb_emergency b of None \<Rightarrow> False | Some em \<Rightarrow> em_validate_epoch em (g_security_epoch g) \<noteq> None)
      then Inl Err_GlobalRevoked
      else if g_revoked_at g \<noteq> None then Inl Err_CapRevoked
      else if \<not> now < g_expires_at g then Inl Err_CapExpired
      else Inr g)"

definition lb_authenticate_hash :: "legacy_backend \<Rightarrow> string \<Rightarrow> time \<Rightarrow> err + grant" where
  "lb_authenticate_hash b h now =
     (case lb_store b of
        None \<Rightarrow> Inl Err_BackendUnavailable
      | Some st \<Rightarrow> (case gm_grant_by_token_hash st h of Inl e \<Rightarrow> Inl e | Inr g \<Rightarrow> lb_authenticate_grant b g now))"

definition lb_authenticate_id :: "legacy_backend \<Rightarrow> string \<Rightarrow> time \<Rightarrow> err + grant" where
  "lb_authenticate_id b i now =
     (case lb_store b of
        None \<Rightarrow> Inl Err_BackendUnavailable
      | Some st \<Rightarrow> (case gm_grant_by_id st i of Inl e \<Rightarrow> Inl e | Inr g \<Rightarrow> lb_authenticate_grant b g now))"

definition lb_revoke :: "string \<Rightarrow> time \<Rightarrow> fs_fault \<Rightarrow> legacy_backend \<Rightarrow> legacy_backend \<times> err option" where
  "lb_revoke i at fault b =
     (case lb_store b of
        None \<Rightarrow> (b, Some Err_BackendUnavailable)
      | Some st \<Rightarrow> (case fgs_revoke_grant i at fault st of (st', e) \<Rightarrow> (b\<lparr>lb_store := Some st'\<rparr>, e)))"

text \<open>
  \<open>PrepareGrant\<close>, which \<open>Service.Issue\<close> repeats inline: a missing ID and issue time are filled in,
  the expiry must lie after the issue time, and the token is generated.
\<close>

definition prepare_grant ::
  "string option \<Rightarrow> string option \<Rightarrow> time \<Rightarrow> grant \<Rightarrow> err + grant \<times> string" where
  "prepare_grant rnd_id rnd_tok now g =
     (case (if g_id g = [] then random_id rnd_id else Inr (g_id g)) of
        Inl e \<Rightarrow> Inl e
      | Inr i \<Rightarrow>
          (let g1 = g\<lparr>g_id := i, g_issued_at := (if g_issued_at g = 0 then now else g_issued_at g)\<rparr> in
           if \<not> g_issued_at g1 < g_expires_at g1 then Inl (Err_Msg ''expiry must be after issue time'')
           else (case generate_token rnd_tok of
               Inl e \<Rightarrow> Inl e
             | Inr (token, h) \<Rightarrow> Inr (g1\<lparr>g_token_hash := h\<rparr>, token))))"

definition cap_issue ::
  "string option \<Rightarrow> string option \<Rightarrow> time \<Rightarrow> fs_fault \<Rightarrow> grant \<Rightarrow> cap_service \<Rightarrow> cap_service \<times> (err + grant \<times> string)" where
  "cap_issue rnd_id rnd_tok now fault g s =
     (case s of
        None \<Rightarrow> (None, Inl Err_BackendUnavailable)
      | Some b \<Rightarrow>
          (case prepare_grant rnd_id rnd_tok now g of
             Inl e \<Rightarrow> (s, Inl e)
           | Inr (g1, token) \<Rightarrow>
               (case lb_issue_grant g1 fault b of
                  (b', Inl e) \<Rightarrow> (Some b', Inl e)
                | (b', Inr g2) \<Rightarrow> (Some b', Inr (g2, token)))))"

definition cap_authenticate_hash :: "cap_service \<Rightarrow> string \<Rightarrow> time \<Rightarrow> err + grant" where
  "cap_authenticate_hash s h now =
     (case s of None \<Rightarrow> Inl Err_BackendUnavailable | Some b \<Rightarrow> lb_authenticate_hash b h now)"

definition cap_authenticate :: "cap_service \<Rightarrow> string \<Rightarrow> time \<Rightarrow> err + grant" where
  "cap_authenticate s token now =
     (case validate_format token of
        Some e \<Rightarrow> Inl e
      | None \<Rightarrow> cap_authenticate_hash s (token_hash token) now)"

definition cap_authenticate_id :: "cap_service \<Rightarrow> string \<Rightarrow> time \<Rightarrow> err + grant" where
  "cap_authenticate_id s i now =
     (case s of None \<Rightarrow> Inl Err_BackendUnavailable | Some b \<Rightarrow> lb_authenticate_id b i now)"

definition cap_revoke :: "string \<Rightarrow> time \<Rightarrow> fs_fault \<Rightarrow> cap_service \<Rightarrow> cap_service \<times> err option" where
  "cap_revoke i at fault s =
     (case s of
        None \<Rightarrow> (None, Some Err_BackendUnavailable)
      | Some b \<Rightarrow> (case lb_revoke i at fault b of (b', e) \<Rightarrow> (Some b', e)))"

section \<open>The wired service\<close>

text \<open>
  In file mode \<open>sentinel-control\<close> wires the service with both stores present, and the emergency
  API mutates the same emergency store. The authority state is that pair; \<open>auth_service\<close> is the
  service over it.
\<close>

record authority =
  au_store :: file_grant_store
  au_em :: em_store

definition auth_service :: "authority \<Rightarrow> cap_service" where
  "auth_service a = Some \<lparr>lb_store = Some (au_store a), lb_emergency = Some (au_em a)\<rparr>"

definition auth_of :: "cap_service \<Rightarrow> authority \<Rightarrow> authority" where
  "auth_of s a = (case s of
     None \<Rightarrow> a
   | Some b \<Rightarrow> \<lparr>au_store = (case lb_store b of None \<Rightarrow> au_store a | Some st \<Rightarrow> st),
               au_em = (case lb_emergency b of None \<Rightarrow> au_em a | Some e \<Rightarrow> e)\<rparr>)"

lemmas cap_defs = cap_issue_def cap_authenticate_hash_def cap_authenticate_id_def cap_revoke_def
  lb_issue_grant_def lb_authenticate_hash_def lb_authenticate_id_def lb_authenticate_grant_def lb_revoke_def
  auth_service_def

text \<open>When authentication accepts a grant: the four conditions of \<open>authenticateGrant\<close>.\<close>

definition grant_live :: "authority \<Rightarrow> grant \<Rightarrow> time \<Rightarrow> bool" where
  "grant_live a g now \<longleftrightarrow>
     \<not> em_disabled (em_mem (au_em a)) \<and> g_security_epoch g = em_epoch (em_mem (au_em a))
     \<and> g_revoked_at g = None \<and> now < g_expires_at g"

lemma lb_authenticate_live:
  "lb_authenticate_grant \<lparr>lb_store = st, lb_emergency = Some (au_em a)\<rparr> g now = Inr g' \<longleftrightarrow> g' = g \<and> grant_live a g now"
  by (auto simp: lb_authenticate_grant_def grant_live_def em_validate_epoch_def em_snapshot_def Let_def)

lemma dead_not_live: "em_dead (g_security_epoch g) (au_em a) \<Longrightarrow> \<not> grant_live a g now"
  using em_dead_rejected by (fastforce simp: grant_live_def em_validate_epoch_def em_snapshot_def Let_def)

definition au_wf :: "authority \<Rightarrow> bool" where
  "au_wf a \<longleftrightarrow> gm_wf (au_store a)
     \<and> (\<forall>i g. gm_abs (au_store a) i = Some g \<longrightarrow> g_security_epoch g \<le> em_epoch (em_mem (au_em a)))"

lemma cap_authenticate_hash_iff:
  assumes "au_wf a"
  shows "cap_authenticate_hash (auth_service a) h now = Inr g \<longleftrightarrow>
    gm_abs (au_store a) (g_id g) = Some g \<and> g_token_hash g = h \<and> grant_live a g now"
proof -
  have wf: "gm_wf (au_store a)" using assms by (simp add: au_wf_def)
  have "cap_authenticate_hash (auth_service a) h now = Inr g \<longleftrightarrow>
      gm_grant_by_token_hash (au_store a) h = Inr g \<and> grant_live a g now"
    by (auto simp: cap_authenticate_hash_def auth_service_def lb_authenticate_hash_def lb_authenticate_live
        split: sum.splits)
  then show ?thesis by (simp add: fgs.by_hash_content [OF wf])
qed

lemma cap_authenticate_id_iff:
  assumes "au_wf a"
  shows "cap_authenticate_id (auth_service a) i now = Inr g \<longleftrightarrow>
    gm_abs (au_store a) i = Some g \<and> grant_live a g now"
proof -
  have wf: "gm_wf (au_store a)" using assms by (simp add: au_wf_def)
  show ?thesis
    by (auto simp: cap_authenticate_id_def auth_service_def lb_authenticate_id_def fgs.by_id_content [OF wf]
        lb_authenticate_live split: option.splits)
qed

section \<open>Runs\<close>

text \<open>
  The operations of the authority: issue and revoke through the service, and the two emergency
  switches. An issue needs a token whose hash is not yet in the store (a SHA-256 collision between
  two random tokens would otherwise replace a grant).
\<close>

inductive au_step :: "authority \<Rightarrow> authority \<Rightarrow> bool" where
  au_issue: "prepare_grant rnd_id rnd_tok now g = Inr (g1, token) \<Longrightarrow>
    map_of (gs_by_hash (au_store a)) (token_hash token) = None \<Longrightarrow>
    cap_issue rnd_id rnd_tok now fault g (auth_service a) = (s', r) \<Longrightarrow> au_step a (auth_of s' a)"
| au_revoke: "cap_revoke i at fault (auth_service a) = (s', e) \<Longrightarrow> au_step a (auth_of s' a)"
| au_revoke_all: "au_step a (a\<lparr>au_em := fst (em_revoke_all reason at fault (au_em a))\<rparr>)"
| au_enable: "au_step a (a\<lparr>au_em := fst (em_enable reason at fault (au_em a))\<rparr>)"

lemma prepare_grant_token:
  "prepare_grant rnd_id rnd_tok now g = Inr (g1, token) \<Longrightarrow>
     g_token_hash g1 = token_hash token \<and> g_issued_at g1 < g_expires_at g1
     \<and> (g_id g \<noteq> [] \<longrightarrow> g_id g1 = g_id g) \<and> g_expires_at g1 = g_expires_at g
     \<and> g_targets g1 = g_targets g \<and> g_permissions g1 = g_permissions g \<and> g_revoked_at g1 = g_revoked_at g"
  by (auto simp: prepare_grant_def generate_token_def Let_def split: sum.splits option.splits if_splits)

text \<open>What an issue does to the authority: nothing, or it creates the stamped grant in the store.\<close>

definition stamped :: "authority \<Rightarrow> grant \<Rightarrow> grant" where
  "stamped a g = g\<lparr>g_security_epoch := em_epoch (em_mem (au_em a))\<rparr>"

lemma cap_issue_effect:
  assumes "prepare_grant rnd_id rnd_tok now g = Inr (g1, token)"
  shows "cap_issue rnd_id rnd_tok now fault g (auth_service a) =
    (if em_disabled (em_mem (au_em a)) then (auth_service a, Inl Err_GlobalRevoked)
     else (let (st, e) = fgs_create_grant (stamped a g1) fault (au_store a)
           in (auth_service (a\<lparr>au_store := st\<rparr>), (case e of Some x \<Rightarrow> Inl x | None \<Rightarrow> Inr (stamped a g1, token)))))"
  using assms
  by (auto simp: cap_issue_def auth_service_def lb_issue_grant_def em_snapshot_def stamped_def Let_def
      split: prod.splits option.splits)

lemma cap_revoke_effect:
  "cap_revoke i at fault (auth_service a) =
     (let (st, e) = fgs_revoke_grant i at fault (au_store a) in (auth_service (a\<lparr>au_store := st\<rparr>), e))"
  by (simp add: cap_revoke_def auth_service_def lb_revoke_def split: prod.splits)

lemma auth_of_service [simp]: "auth_of (auth_service a) b = a"
  by (simp add: auth_of_def auth_service_def)

lemma au_step_cases:
  assumes "au_step a b"
  obtains (same) "b = a"
  | (create) g fault where "hash_fresh g (au_store a)" "g_security_epoch g = em_epoch (em_mem (au_em a))"
      "b = a\<lparr>au_store := fst (fgs_create_grant g fault (au_store a))\<rparr>"
  | (revoke) i at fault where "b = a\<lparr>au_store := fst (fgs_revoke_grant i at fault (au_store a))\<rparr>"
  | (em) t where "em_step (au_em a) t" "b = a\<lparr>au_em := t\<rparr>"
  using assms
proof cases
  case (au_issue rnd_id rnd_tok now g g1 token fault s' r)
  note tok = prepare_grant_token [OF au_issue(2)]
  have "hash_fresh (stamped a g1) (au_store a)"
    using au_issue(3) tok by (simp add: hash_fresh_def stamped_def token_hash_def)
  with au_issue same create [of "stamped a g1" fault] show ?thesis
    by (auto simp: cap_issue_effect stamped_def split: if_splits prod.splits)
next
  case (au_revoke i at fault s' e)
  with revoke [of i at fault] show ?thesis by (auto simp: cap_revoke_effect split: prod.splits)
qed (auto intro: em em_step.intros)

lemma au_wf_step: "au_step a b \<Longrightarrow> au_wf a \<Longrightarrow> au_wf b"
proof (erule au_step_cases, goal_cases)
  case 1 then show ?case by simp
next
  case (2 g fault)
  then have wf: "gm_wf (au_store a)" by (simp add: au_wf_def)
  from 2 fgs.create_wf [OF wf] fgs.create_content [OF wf] show ?case
    by (auto simp: au_wf_def split: if_splits)
next
  case (3 i at fault)
  then have wf: "gm_wf (au_store a)" by (simp add: au_wf_def)
  from 3 fgs.revoke_wf [OF wf] fgs.revoke_content [OF wf] show ?case
    by (fastforce simp: au_wf_def split: if_splits)
next
  case (4 t)
  from 4(2) have "em_epoch (em_mem (au_em a)) \<le> em_epoch (em_mem t)"
    by cases (use word_less_succ in \<open>auto simp: em_revoke_all_mem em_enable_state Let_def intro: less_imp_le\<close>)
  with 4 show ?case by (auto simp: au_wf_def intro: order_trans)
qed

interpretation au_run: stable_predicate au_step au_wf
  by unfold_locales (rule au_wf_step)

text \<open>Two facts that no step undoes: a grant is revoked; an epoch is dead.\<close>

definition au_revoked :: "string \<Rightarrow> authority \<Rightarrow> bool" where
  "au_revoked i a \<longleftrightarrow> au_wf a \<and> (\<exists>g. gm_abs (au_store a) i = Some g \<and> g_revoked_at g \<noteq> None)"

lemma au_revoked_step: "au_step a b \<Longrightarrow> au_revoked i a \<Longrightarrow> au_revoked i b"
proof -
  assume step: "au_step a b" and r: "au_revoked i a"
  then have b: "au_wf b" using au_wf_step by (auto simp: au_revoked_def)
  have wf: "gm_wf (au_store a)" using r by (simp add: au_revoked_def au_wf_def)
  from step have "\<exists>g. gm_abs (au_store b) i = Some g \<and> g_revoked_at g \<noteq> None"
  proof (rule au_step_cases, goal_cases)
    case (2 g fault) with r fgs.revoked_create [OF wf 2(1), of i fault] show ?case by (simp add: au_revoked_def)
  next
    case (3 j at fault) with r fgs.revoked_revoke [OF wf, of i j at fault] show ?case by (simp add: au_revoked_def)
  qed (use r in \<open>auto simp: au_revoked_def\<close>)
  with b show ?thesis by (simp add: au_revoked_def)
qed

interpretation au_rev: stable_predicate au_step "au_revoked i"
  by unfold_locales (rule au_revoked_step)

text \<open>A grant the store held when an epoch died: its content never comes back to life.\<close>

definition au_dead_grant :: "string \<Rightarrow> authority \<Rightarrow> bool" where
  "au_dead_grant i a \<longleftrightarrow> au_wf a \<and>
     (\<exists>g. gm_abs (au_store a) i = Some g \<and> em_dead (g_security_epoch g) (au_em a))"

lemma au_dead_grant_step: "au_step a b \<Longrightarrow> au_dead_grant i a \<Longrightarrow> au_dead_grant i b"
proof -
  assume step: "au_step a b" and d: "au_dead_grant i a"
  then have b: "au_wf b" using au_wf_step by (auto simp: au_dead_grant_def)
  have wf: "gm_wf (au_store a)" using d by (simp add: au_dead_grant_def au_wf_def)
  from d obtain g0 where g0: "gm_abs (au_store a) i = Some g0" "em_dead (g_security_epoch g0) (au_em a)"
    by (auto simp: au_dead_grant_def)
  from step have "\<exists>g. gm_abs (au_store b) i = Some g \<and> em_dead (g_security_epoch g) (au_em b)"
  proof (rule au_step_cases, goal_cases)
    case (2 g fault) with g0 fgs.create_no_overwrite [OF wf 2(1) g0(1)] show ?case by simp
  next
    case (3 j at fault) with g0 fgs.revoke_content [OF wf, of j at fault] show ?case by auto
  next
    case (4 t) with g0 em_proc.step_keeps [OF 4(1)] show ?case by auto
  qed (use g0 in auto)
  with b show ?thesis by (simp add: au_dead_grant_def)
qed

interpretation au_dead: stable_predicate au_step "au_dead_grant i"
  by unfold_locales (rule au_dead_grant_step)

section \<open>Properties\<close>

text \<open>
  Authentication is exact: a capability hash authenticates as a grant if and only if the store
  holds that grant under that hash, global access is enabled, the grant carries the current
  security epoch, it is not revoked, and its lifetime has not ended.
\<close>

theorem authenticate_exact:
  assumes "au_wf a"
  shows "cap_authenticate_hash (auth_service a) h now = Inr g \<longleftrightarrow>
    gm_abs (au_store a) (g_id g) = Some g \<and> g_token_hash g = h
    \<and> \<not> em_disabled (em_mem (au_em a)) \<and> g_security_epoch g = em_epoch (em_mem (au_em a))
    \<and> g_revoked_at g = None \<and> now < g_expires_at g"
  using cap_authenticate_hash_iff [OF assms] by (simp add: grant_live_def)

definition demo_authority :: authority where
  "demo_authority =
     \<lparr>au_store = \<lparr>gs_by_hash = [(zero_hash, demo_grant)], gs_by_id = [(''g1'', zero_hash)], gs_disk = None\<rparr>,
      au_em = \<lparr>em_mem = em_zero, em_disk = None\<rparr>\<rparr>"

lemma demo_authority_wf: "au_wf demo_authority"
  by (auto simp: au_wf_def gm_wf_def gm_abs_def demo_authority_def demo_grant_def zero_grant_def
      em_zero_def unique_keys_def split: if_splits)

theorem authenticate_exact_witness:
  "cap_authenticate_hash (auth_service demo_authority) zero_hash 50 = Inr demo_grant"
  using authenticate_exact [OF demo_authority_wf, of zero_hash 50 demo_grant]
  by (simp add: gm_abs_def demo_authority_def demo_grant_def zero_grant_def em_zero_def)

text \<open>
  Revocation of a grant is final: once \<open>Revoke\<close> has succeeded for a grant ID, no sequence of
  issues, revocations and emergency operations makes any token or the ID authenticate as that
  grant again.
\<close>

theorem revoked_grant_never_authenticates:
  assumes "au_wf a" and "cap_revoke i at fault (auth_service a) = (s', None)" and "au_step\<^sup>*\<^sup>* (auth_of s' a) b"
  shows "\<not> is_ok (cap_authenticate_id (auth_service b) i now)
    \<and> (\<forall>h g. cap_authenticate_hash (auth_service b) h now = Inr g \<longrightarrow> g_id g \<noteq> i)"
proof -
  have wf: "gm_wf (au_store a)" using assms(1) by (simp add: au_wf_def)
  let ?st = "fst (fgs_revoke_grant i at fault (au_store a))"
  have s': "auth_of s' a = a\<lparr>au_store := ?st\<rparr>" and ok: "snd (fgs_revoke_grant i at fault (au_store a)) = None"
    using assms(2) by (auto simp: cap_revoke_effect split: prod.splits)
  have "au_step a (auth_of s' a)" using assms(2) by (rule au_step.au_revoke)
  then have "au_wf (auth_of s' a)" using assms(1) au_wf_step by blast
  then have "au_revoked i (auth_of s' a)"
    using ok fgs.revoke_result [OF wf, of i at fault] fgs.revoke_content [OF wf, of i at fault]
    by (auto simp: au_revoked_def s')
  then have r: "au_revoked i b" using assms(3) au_rev.steps_keep by blast
  then have "au_wf b" by (simp add: au_revoked_def)
  with r show ?thesis
    by (auto simp: is_ok_iff cap_authenticate_id_iff cap_authenticate_hash_iff au_revoked_def grant_live_def)
qed

theorem revoked_grant_never_authenticates_witness:
  "\<not> is_ok (cap_authenticate_id (auth_service
     (auth_of (fst (cap_revoke ''g1'' 60 None (auth_service demo_authority))) demo_authority)) ''g1'' 70)"
proof -
  have "cap_revoke ''g1'' 60 None (auth_service demo_authority)
      = (fst (cap_revoke ''g1'' 60 None (auth_service demo_authority)), None)"
    by (simp add: cap_revoke_effect demo_authority_def fgs_revoke_grant_def fgs_persist_cases Let_def)
  from revoked_grant_never_authenticates [OF demo_authority_wf this rtranclp.rtrancl_refl]
  show ?thesis by blast
qed

text \<open>
  REVOKE ALL reaches every capability: a grant that was in the store when \<open>RevokeAll\<close> ran
  never authenticates again, by any token or by its ID, under any later sequence of issues,
  revocations, \<open>RevokeAll\<close> and \<open>Enable\<close> calls.
\<close>

theorem revoke_all_kills_every_grant:
  assumes "au_wf a" and "gm_abs (au_store a) i \<noteq> None"
    and "au_step\<^sup>*\<^sup>* (a\<lparr>au_em := fst (em_revoke_all reason at fault (au_em a))\<rparr>) b"
  shows "\<not> is_ok (cap_authenticate_id (auth_service b) i now)
    \<and> (\<forall>h g. cap_authenticate_hash (auth_service b) h now = Inr g \<longrightarrow> g_id g \<noteq> i)"
proof -
  let ?a = "a\<lparr>au_em := fst (em_revoke_all reason at fault (au_em a))\<rparr>"
  from assms(2) obtain g where g: "gm_abs (au_store a) i = Some g" by auto
  with assms(1) have "em_dead (g_security_epoch g) (au_em ?a)"
    by (auto simp: au_wf_def intro!: em_dead_revoke_all)
  moreover have "au_wf ?a" using assms(1) au_wf_step au_revoke_all by blast
  ultimately have "au_dead_grant i ?a" using g by (simp add: au_dead_grant_def)
  then have d: "au_dead_grant i b" using assms(3) au_dead.steps_keep by blast
  then have "au_wf b" by (simp add: au_dead_grant_def)
  with d show ?thesis
    by (auto simp: is_ok_iff cap_authenticate_id_iff cap_authenticate_hash_iff au_dead_grant_def
        dest: dead_not_live)
qed

theorem revoke_all_kills_every_grant_witness:
  "\<not> is_ok (cap_authenticate_id
     (auth_service (demo_authority\<lparr>au_em := fst (em_revoke_all ''drill'' 7 None (au_em demo_authority))\<rparr>)) ''g1'' 50)"
proof -
  have "gm_abs (au_store demo_authority) ''g1'' \<noteq> None"
    by (simp add: demo_authority_def gm_abs_def)
  from revoke_all_kills_every_grant [OF demo_authority_wf this rtranclp.rtrancl_refl]
  show ?thesis by blast
qed

text \<open>
  C35. Issue and authenticate agree: whenever \<open>Issue\<close> succeeds (with 32 random bytes for the token,
  and no stored grant under the new token's hash), the returned token has the accepted format and
  authenticates, at any time before the expiry, as exactly the returned grant, which has the
  requested scope and carries the current epoch.
\<close>

theorem issue_authenticate_roundtrip:
  assumes "au_wf a" and "g_revoked_at g = None" and "length buf = 32"
    and "cap_issue rnd_id (Some buf) now fault g (auth_service a) = (s', Inr (g', token))"
    and "map_of (gs_by_hash (au_store a)) (token_hash token) = None"
    and "later < g_expires_at g'"
  shows "cap_authenticate (auth_service (auth_of s' a)) token later = Inr g'
    \<and> g_targets g' = g_targets g \<and> g_permissions g' = g_permissions g \<and> g_expires_at g' = g_expires_at g
    \<and> g_security_epoch g' = em_epoch (em_mem (au_em a))"
proof -
  from assms(4) obtain g1 where p: "prepare_grant rnd_id (Some buf) now g = Inr (g1, token)"
    by (auto simp: cap_issue_def auth_service_def split: sum.splits prod.splits)
  note tok = prepare_grant_token [OF p]
  from assms(4) have en: "\<not> em_disabled (em_mem (au_em a))" and g': "g' = stamped a g1"
    and s': "auth_of s' a = a\<lparr>au_store := fst (fgs_create_grant (stamped a g1) fault (au_store a))\<rparr>"
    and ok: "snd (fgs_create_grant (stamped a g1) fault (au_store a)) = None"
    by (auto simp: cap_issue_effect [OF p] split: if_splits prod.splits option.splits)
  have wf: "gm_wf (au_store a)" using assms(1) by (simp add: au_wf_def)
  have fits: "hash_fresh (stamped a g1) (au_store a)"
    using tok assms(5) by (simp add: hash_fresh_def stamped_def token_hash_def)
  have "au_step a (auth_of s' a)" using p assms(5,4) by (rule au_step.au_issue)
  then have "au_wf (auth_of s' a)" using assms(1) au_wf_step by blast
  moreover have "gm_abs (au_store (auth_of s' a)) (g_id g') = Some g'"
    using fgs.create_content [OF wf fits, of fault] ok by (simp add: s' g')
  moreover have "grant_live (auth_of s' a) g' later"
    using en assms(2,6) tok by (simp add: grant_live_def s' g' stamped_def)
  ultimately have "cap_authenticate_hash (auth_service (auth_of s' a)) (token_hash token) later = Inr g'"
    using tok by (simp add: cap_authenticate_hash_iff g' stamped_def)
  moreover have "validate_format token = None"
  proof -
    have "token = token_prefix @ b64url_encode buf"
      using p by (auto simp: prepare_grant_def generate_token_def Let_def split: sum.splits if_splits)
    then show ?thesis using assms(3) by (simp add: validate_format_def)
  qed
  ultimately show ?thesis using tok by (simp add: cap_authenticate_def g' stamped_def)
qed

definition demo_empty_authority :: authority where
  "demo_empty_authority = \<lparr>au_store = fgs_empty, au_em = \<lparr>em_mem = em_zero, em_disk = None\<rparr>\<rparr>"

definition demo_request :: grant where
  "demo_request = zero_grant\<lparr>g_id := ''g2'', g_targets := [''host-a''], g_issued_at := 10, g_expires_at := 100\<rparr>"

definition demo_token :: string where
  "demo_token = token_prefix @ b64url_encode zero_hash"

definition demo_issued :: grant where
  "demo_issued = demo_request\<lparr>g_token_hash := token_hash demo_token\<rparr>"

theorem issue_authenticate_roundtrip_witness:
  "cap_authenticate (auth_service (auth_of
     (fst (cap_issue None (Some zero_hash) 10 None demo_request (auth_service demo_empty_authority))) demo_empty_authority))
     demo_token 50 = Inr demo_issued"
proof -
  have wf: "au_wf demo_empty_authority"
    by (simp add: au_wf_def gm_wf_def gm_abs_def demo_empty_authority_def fgs_empty_def)
  have issue: "cap_issue None (Some zero_hash) 10 None demo_request (auth_service demo_empty_authority)
    = (fst (cap_issue None (Some zero_hash) 10 None demo_request (auth_service demo_empty_authority)),
       Inr (demo_issued, demo_token))"
    by (simp add: cap_issue_def prepare_grant_def generate_token_def demo_request_def demo_empty_authority_def
        auth_service_def lb_issue_grant_def em_snapshot_def em_zero_def fgs_create_grant_def fgs_persist_cases
        fgs_empty_def demo_issued_def demo_token_def zero_grant_def Let_def)
  have "g_revoked_at demo_request = None" "(50::time) < g_expires_at demo_issued"
    "map_of (gs_by_hash (au_store demo_empty_authority)) (token_hash demo_token) = None"
    by (simp_all add: demo_request_def demo_issued_def zero_grant_def demo_empty_authority_def fgs_empty_def)
  with issue_authenticate_roundtrip [OF wf _ length_zero_hash issue] show ?thesis by blast
qed

end
