(* ===== verification/Go_JSON.thy ===== *)
theory Go_JSON
  imports Go_Strings
begin

text \<open>
  What the program uses of \<open>encoding/json\<close>'s encoder, \<open>unicode/utf8\<close> and \<open>time\<close> formatting: the
  text \<open>json.Marshal\<close> yields for strings (with HTML escaping, and with every byte that is not
  valid UTF-8 replaced by U+FFFD), integers, booleans, arrays and structs, and the RFC 3339 text
  of an instant. The texts matter because the program hashes them: the command binding, the scope
  keys and the record MAC are digests of JSON texts. The section ends with the fact the bindings
  rest on: a quoted JSON string determines the (valid UTF-8) string it encodes and the text after
  it.
\<close>

section \<open>UTF-8\<close>

definition in_range :: "nat \<Rightarrow> nat \<Rightarrow> char \<Rightarrow> bool" where
  "in_range lo hi c \<longleftrightarrow> lo \<le> of_char c \<and> of_char c \<le> hi"

text \<open>The length of the rune at the front of a byte string, 0 where there is no valid one.\<close>

fun utf8_size :: "string \<Rightarrow> nat" where
  "utf8_size [] = 0"
| "utf8_size (a # s) =
     (let x = of_char a :: nat in
      if x < 0x80 then 1
      else if 0xC2 \<le> x \<and> x \<le> 0xDF then
        (case s of b # _ \<Rightarrow> if in_range 0x80 0xBF b then 2 else 0 | [] \<Rightarrow> 0)
      else if 0xE0 \<le> x \<and> x \<le> 0xEF then
        (case s of
           b # c # _ \<Rightarrow>
             if in_range (if x = 0xE0 then 0xA0 else 0x80) (if x = 0xED then 0x9F else 0xBF) b
                \<and> in_range 0x80 0xBF c then 3 else 0
         | _ \<Rightarrow> 0)
      else if 0xF0 \<le> x \<and> x \<le> 0xF4 then
        (case s of
           b # c # d # _ \<Rightarrow>
             if in_range (if x = 0xF0 then 0x90 else 0x80) (if x = 0xF4 then 0x8F else 0xBF) b
                \<and> in_range 0x80 0xBF c \<and> in_range 0x80 0xBF d then 4 else 0
         | _ \<Rightarrow> 0)
      else 0)"

declare utf8_size.simps(2) [simp del]

text \<open>A rune that is not ASCII is a run of at least two bytes, none of them ASCII.\<close>

lemma utf8_size_multi:
  assumes "utf8_size (a # s) = Suc n" and "\<not> (of_char a :: nat) < 0x80"
  shows "n \<noteq> 0" and "n \<le> length s" and "list_all (\<lambda>c. 0x80 \<le> (of_char c :: nat)) (a # take n s)"
  using assms
  by (auto simp: utf8_size.simps(2) Let_def in_range_def split: if_splits list.splits)

function valid_utf8 :: "string \<Rightarrow> bool" where
  "valid_utf8 s =
     (if s = [] then True else if utf8_size s = 0 then False else valid_utf8 (drop (utf8_size s) s))"
  by pat_completeness auto
termination by (relation "measure length") auto

declare valid_utf8.simps [simp del]

lemma valid_utf8_Nil [simp]: "valid_utf8 []"
  by (simp add: valid_utf8.simps)

lemma utf8_size_ascii: "(of_char a :: nat) < 0x80 \<Longrightarrow> utf8_size (a # s) = 1"
  by (simp add: utf8_size.simps(2) Let_def)

lemma valid_utf8_ascii: "(of_char a :: nat) < 0x80 \<Longrightarrow> valid_utf8 (a # s) = valid_utf8 s"
  by (simp add: valid_utf8.simps [of "a # s"] utf8_size_ascii)

definition ascii :: "string \<Rightarrow> bool" where
  "ascii s \<longleftrightarrow> list_all (\<lambda>c. (of_char c :: nat) < 0x80) s"

lemma ascii_valid_utf8: "ascii s \<Longrightarrow> valid_utf8 s"
  by (induction s) (simp_all add: ascii_def valid_utf8_ascii)

section \<open>JSON strings\<close>

text \<open>One ASCII byte inside a JSON string, as the encoder writes it (with HTML escaping).\<close>

definition json_ascii :: "char \<Rightarrow> string" where
  "json_ascii c =
     (let n = of_char c :: nat in
      if c = CHR 0x22 \<or> c = CHR 0x5C then [CHR 0x5C, c]
      else if c = CHR 0x08 then [CHR 0x5C, CHR ''b'']
      else if c = CHR 0x0C then [CHR 0x5C, CHR ''f'']
      else if c = CHR 0x0A then [CHR 0x5C, CHR ''n'']
      else if c = CHR 0x0D then [CHR 0x5C, CHR ''r'']
      else if c = CHR 0x09 then [CHR 0x5C, CHR ''t'']
      else if n < 0x20 \<or> c = CHR ''<'' \<or> c = CHR ''>'' \<or> c = CHR ''&''
        then CHR 0x5C # ''u00'' @ [hex_digit (n div 16), hex_digit (n mod 16)]
      else [c])"

definition rune_2028 :: string where "rune_2028 = [CHR 0xE2, CHR 0x80, CHR 0xA8]"
definition rune_2029 :: string where "rune_2029 = [CHR 0xE2, CHR 0x80, CHR 0xA9]"

text \<open>The encoder's loop: one rune (or one invalid byte) per turn.\<close>

function json_body :: "string \<Rightarrow> string" where
  "json_body [] = []"
| "json_body (c # s) =
     (if (of_char c :: nat) < 0x80 then json_ascii c @ json_body s
      else (case utf8_size (c # s) of
          0 \<Rightarrow> CHR 0x5C # ''ufffd'' @ json_body s
        | Suc n \<Rightarrow>
            (if c # take n s = rune_2028 then CHR 0x5C # ''u2028''
             else if c # take n s = rune_2029 then CHR 0x5C # ''u2029''
             else c # take n s) @ json_body (drop n s)))"
  by pat_completeness auto
termination by (relation "measure length") auto

declare json_body.simps(2) [simp del]

definition json_string :: "string \<Rightarrow> string" where
  "json_string s = CHR 0x22 # json_body s @ [CHR 0x22]"

text \<open>
  A left inverse of the encoder, reading up to the closing quote. It is a proof device: the
  encoder's output determines its input.
\<close>

definition unhex2 :: "char \<Rightarrow> char \<Rightarrow> char" where
  "unhex2 a b = char_of (16 * the (hex_value a) + the (hex_value b))"

definition unesc_char :: "char \<Rightarrow> char" where
  "unesc_char e =
     (if e = CHR ''b'' then CHR 0x08 else if e = CHR ''f'' then CHR 0x0C
      else if e = CHR ''n'' then CHR 0x0A else if e = CHR ''r'' then CHR 0x0D
      else if e = CHR ''t'' then CHR 0x09 else e)"

fun unesc :: "string \<Rightarrow> string \<times> string" where
  "unesc [] = ([], [])"
| "unesc (c # s) =
     (if c = CHR 0x22 then ([], s)
      else if c = CHR 0x5C then
        (case s of
           [] \<Rightarrow> ([], [])
         | e # s' \<Rightarrow>
             if e = CHR ''u'' then
               (case s' of
                  p # q # a # b # s'' \<Rightarrow>
                    (if p = CHR ''2'' then map_prod ((@) (if b = CHR ''8'' then rune_2028 else rune_2029)) id (unesc s'')
                     else map_prod ((#) (unhex2 a b)) id (unesc s''))
                | _ \<Rightarrow> ([], []))
             else map_prod ((#) (unesc_char e)) id (unesc s'))
      else map_prod ((#) c) id (unesc s))"

declare unesc.simps(2) [simp del]

lemma unesc_plain:
  "c \<noteq> CHR 0x22 \<Longrightarrow> c \<noteq> CHR 0x5C \<Longrightarrow> unesc (c # s) = map_prod ((#) c) id (unesc s)"
  by (simp add: unesc.simps(2))

lemma unesc_high:
  "list_all (\<lambda>c. 0x80 \<le> (of_char c :: nat)) u \<Longrightarrow> unesc (u @ r) = map_prod ((@) u) id (unesc r)"
proof (induction u)
  case (Cons c u)
  then have "c \<noteq> CHR 0x22" "c \<noteq> CHR 0x5C" by auto
  with Cons show ?case by (simp add: unesc_plain map_prod_def split: prod.splits)
qed (simp add: map_prod_def split: prod.splits)

lemma hex2_inverse: "n < 256 \<Longrightarrow> unhex2 (hex_digit (n div 16)) (hex_digit (n mod 16)) = char_of n"
  by (simp add: unhex2_def less_mult_imp_div_less)

lemma unesc_ascii: "unesc (json_ascii c @ r) = map_prod ((#) c) id (unesc r)"
proof -
  have u: "unhex2 (hex_digit (of_char c div 16)) (hex_digit (of_char c mod 16)) = c"
    using hex2_inverse [of "of_char c"] by simp
  show ?thesis
    by (auto simp: json_ascii_def Let_def unesc.simps(2) unesc_char_def u unesc_plain)
qed

lemma unesc_2028: "unesc (CHR 0x5C # CHR ''u'' # CHR ''2'' # CHR ''0'' # CHR ''2'' # CHR ''8'' # x) = map_prod ((@) rune_2028) id (unesc x)"
  by (simp add: unesc.simps(2))

lemma unesc_2029: "unesc (CHR 0x5C # CHR ''u'' # CHR ''2'' # CHR ''0'' # CHR ''2'' # CHR ''9'' # x) = map_prod ((@) rune_2029) id (unesc x)"
  by (simp add: unesc.simps(2))

lemma unesc_json_body:
  "valid_utf8 s \<Longrightarrow> unesc (json_body s @ CHR 0x22 # r) = (s, r)"
proof (induction s rule: json_body.induct)
  case 1
  show ?case by (simp add: unesc.simps(2))
next
  case (2 c s)
  show ?case
  proof (cases "(of_char c :: nat) < 0x80")
    case True
    with 2 have "unesc (json_body s @ CHR 0x22 # r) = (s, r)" by (simp add: valid_utf8_ascii)
    with True show ?thesis by (simp add: json_body.simps(2) unesc_ascii)
  next
    case False
    from 2(4) obtain n where n: "utf8_size (c # s) = Suc n" and v: "valid_utf8 (drop n s)"
      by (cases "utf8_size (c # s)") (simp_all add: valid_utf8.simps [of "c # s"])
    note IH = 2(3) [OF False n v]
    note hi = utf8_size_multi(3) [OF n False]
    define u where "u = c # take n s"
    define d where "d = drop n s"
    have split: "c # s = u @ d" by (simp add: u_def d_def)
    have "json_body (c # s) =
        (if u = rune_2028 then CHR 0x5C # ''u2028''
         else if u = rune_2029 then CHR 0x5C # ''u2029'' else u) @ json_body d"
      using False n by (simp add: json_body.simps(2) u_def d_def)
    moreover have "unesc (json_body d @ CHR 0x22 # r) = (d, r)" using IH by (simp add: d_def)
    ultimately have "unesc (json_body (c # s) @ CHR 0x22 # r) = (u @ d, r)"
      using unesc_high [OF hi [folded u_def], of "json_body d @ CHR 0x22 # r"]
      by (simp add: unesc_2028 unesc_2029)
    then show ?thesis by (simp only: split)
  qed
qed

lemma json_string_inj:
  assumes "valid_utf8 s" and "valid_utf8 t" and "json_string s @ u = json_string t @ v"
  shows "s = t" and "u = v"
proof -
  have "(s, u) = unesc (json_body s @ CHR 0x22 # u)" by (simp add: unesc_json_body assms(1))
  also have "json_body s @ CHR 0x22 # u = json_body t @ CHR 0x22 # v"
    using assms(3) by (simp add: json_string_def)
  also have "unesc (json_body t @ CHR 0x22 # v) = (t, v)" by (simp add: unesc_json_body assms(2))
  finally have "(s, u) = (t, v)" .
  then show "s = t" and "u = v" by simp_all
qed

section \<open>JSON values\<close>

fun dec_nat :: "nat \<Rightarrow> string" where
  "dec_nat n = (if n < 10 then [char_of (0x30 + n)] else dec_nat (n div 10) @ [char_of (0x30 + n mod 10)])"

declare dec_nat.simps [simp del]

definition dec_int :: "int \<Rightarrow> string" where
  "dec_int i = (if i < 0 then CHR ''-'' # dec_nat (nat (- i)) else dec_nat (nat i))"

definition dec_bool :: "bool \<Rightarrow> string" where
  "dec_bool b = (if b then ''true'' else ''false'')"

text \<open>
  The values the program marshals: JSON texts ready to be placed (\<open>JRaw\<close>: an instant), strings,
  integers, booleans, arrays, and structs as the list of their fields in declaration order.
\<close>

datatype jval = JRaw string | JStr string | JInt int | JBool bool | JArr "jval list" | JObj "(string \<times> jval) list"

primrec json_enc :: "jval \<Rightarrow> string" where
  "json_enc (JRaw t) = t"
| "json_enc (JStr s) = json_string s"
| "json_enc (JInt i) = dec_int i"
| "json_enc (JBool b) = dec_bool b"
| "json_enc (JArr vs) = ''['' @ join_with '','' (map json_enc vs) @ '']''"
| "json_enc (JObj fs) =
     ''{'' @ join_with '','' (map (\<lambda>(k, v). json_string k @ '':'' @ v) (map (map_prod id json_enc) fs)) @ ''}''"

text \<open>A field with \<open>omitempty\<close>: absent for the empty string and the nil pointer.\<close>

definition omit_str :: "string \<Rightarrow> string \<Rightarrow> (string \<times> jval) list" where
  "omit_str k s = (if s = [] then [] else [(k, JStr s)])"

section \<open>Instants\<close>

definition days_in_month :: "bool \<Rightarrow> nat list" where
  "days_in_month leap = [31, if leap then 29 else 28, 31, 30, 31, 30, 31, 31, 30, 31, 30, 31]"

fun month_day :: "nat list \<Rightarrow> nat \<Rightarrow> nat \<Rightarrow> nat \<times> nat" where
  "month_day [] m d = (m, d)"
| "month_day (k # ks) m d = (if d < k then (m, d) else month_day ks (Suc m) (d - k))"

text \<open>
  Year, month and day of a number of days since 1 January of year 1, in the proleptic Gregorian
  calendar: whole 400-, 100-, 4- and 1-year periods.
\<close>

definition civil_date :: "int \<Rightarrow> int \<times> nat \<times> nat" where
  "civil_date days =
     (let n400 = days div 146097; d = days mod 146097;
          n100 = min 3 (d div 36524); d = d - n100 * 36524;
          n4 = d div 1461; d = d mod 1461;
          n1 = min 3 (d div 365); d = d - n1 * 365;
          leap = (n1 = 3 \<and> (n4 \<noteq> 24 \<or> n100 = 3));
          (m, k) = month_day (days_in_month leap) 1 (nat d)
      in (400 * n400 + 100 * n100 + 4 * n4 + n1 + 1, m, k + 1))"

definition pad_left :: "nat \<Rightarrow> nat \<Rightarrow> string" where
  "pad_left w n = (let s = dec_nat n in replicate (w - length s) (CHR ''0'') @ s)"

definition fraction :: "nat \<Rightarrow> string" where
  "fraction ns =
     (if ns = 0 then []
      else CHR ''.'' # rev (dropWhile (\<lambda>c. c = CHR ''0'') (rev (pad_left 9 ns))))"

text \<open>\<open>t.UTC().Format(time.RFC3339Nano)\<close> for a year in the range 0 to 9999.\<close>

definition rfc3339_nano :: "time \<Rightarrow> string" where
  "rfc3339_nano t =
     (let secs = t div 10 ^ 9; ns = nat (t mod 10 ^ 9);
          (y, m, d) = civil_date (secs div 86400); r = nat (secs mod 86400)
      in pad_left 4 (nat y) @ ''-'' @ pad_left 2 m @ ''-'' @ pad_left 2 d @ ''T''
         @ pad_left 2 (r div 3600) @ '':'' @ pad_left 2 (r mod 3600 div 60) @ '':'' @ pad_left 2 (r mod 60)
         @ fraction ns @ ''Z'')"

definition year_of :: "time \<Rightarrow> int" where
  "year_of t = fst (civil_date (t div 10 ^ 9 div 86400))"

text \<open>\<open>Time.MarshalJSON\<close> refuses a year outside 0 to 9999.\<close>

definition time_marshals :: "time \<Rightarrow> bool" where
  "time_marshals t \<longleftrightarrow> 0 \<le> year_of t \<and> year_of t \<le> 9999"

definition jtime :: "time \<Rightarrow> jval" where
  "jtime t = JRaw (CHR 0x22 # rfc3339_nano t @ [CHR 0x22])"

definition omit_time :: "string \<Rightarrow> time option \<Rightarrow> (string \<times> jval) list" where
  "omit_time k t = (case t of None \<Rightarrow> [] | Some u \<Rightarrow> [(k, jtime u)])"

definition opt_time_marshals :: "time option \<Rightarrow> bool" where
  "opt_time_marshals t \<longleftrightarrow> (case t of None \<Rightarrow> True | Some u \<Rightarrow> time_marshals u)"

section \<open>Arrays of strings\<close>

definition json_strings :: "string list \<Rightarrow> string" where
  "json_strings xs = json_enc (JArr (map JStr xs))"

lemma json_string_Cons: "\<exists>r. json_string s = CHR 0x22 # r"
  by (simp add: json_string_def)

lemma join_json_Cons:
  "join_with '','' (map json_string (z # zs)) @ w
     = json_string z @ (if zs = [] then [] else '','' @ join_with '','' (map json_string zs)) @ w"
  by (cases zs) auto

lemma join_json_hd: "\<exists>r. join_with '','' (map json_string (z # zs)) @ w = CHR 0x22 # r"
  unfolding join_json_Cons by (simp add: json_string_def)

lemma json_strings_tail_inj:
  assumes "list_all valid_utf8 xs" and "list_all valid_utf8 ys"
    and "join_with '','' (map json_string xs) @ '']'' @ u = join_with '','' (map json_string ys) @ '']'' @ v"
  shows "xs = ys \<and> u = v"
  using assms
proof (induction xs arbitrary: ys)
  case Nil
  show ?case
  proof (cases ys)
    case (Cons y ys')
    with Nil.prems(3) join_json_hd [of y ys' "'']'' @ v"] show ?thesis by auto
  qed (use Nil.prems in simp)
next
  case (Cons x xs)
  from Cons.prems(3) join_json_hd [of x xs "'']'' @ u"] obtain y ys' where ys: "ys = y # ys'"
    by (cases ys) auto
  let ?t = "\<lambda>zs w. (if zs = [] then [] else '','' @ join_with '','' (map json_string zs)) @ '']'' @ w"
  from Cons.prems(3) have "json_string x @ ?t xs u = json_string y @ ?t ys' v"
    unfolding ys join_json_Cons .
  with Cons.prems ys have "x = y" and t: "?t xs u = ?t ys' v"
    using json_string_inj [of x y "?t xs u" "?t ys' v"] by simp_all
  show ?case
  proof (cases "xs = [] \<or> ys' = []")
    case True
    with t have "xs = [] \<and> ys' = [] \<and> u = v" by (auto split: if_splits)
    with \<open>x = y\<close> ys show ?thesis by simp
  next
    case False
    with t have "join_with '','' (map json_string xs) @ '']'' @ u
        = join_with '','' (map json_string ys') @ '']'' @ v" by simp
    with Cons.IH [of ys'] Cons.prems ys have "xs = ys' \<and> u = v" by simp
    with \<open>x = y\<close> ys show ?thesis by simp
  qed
qed

lemma json_strings_inj:
  assumes "list_all valid_utf8 xs" and "list_all valid_utf8 ys"
    and "json_strings xs @ u = json_strings ys @ v"
  shows "xs = ys \<and> u = v"
  using json_strings_tail_inj [OF assms(1,2)] assms(3)
  by (simp add: json_strings_def comp_def)

end
