(* ===== verification/Risk.thy ===== *)
theory Risk
  imports Go_Crypto Go_JSON
begin

text \<open>
  The command classifier (\<open>internal/risk\<close>): \<open>Classify\<close> maps an argv to a policy decision, a level,
  a category and a scope key, and \<open>permissions.go\<close> says which categories need the shell capability
  and which may be approved for a session. A Go \<open>switch\<close> whose cases may fall out of it without
  returning is \<open>go_switch\<close>: the first matching case, whose body yields a result or \<open>None\<close>.
\<close>

section \<open>Results\<close>

datatype risk_level = Low | Medium | High | Critical

datatype risk_decision = Allow | ApprovalRequired | Deny

record risk_result =
  r_decision :: risk_decision
  r_level :: risk_level
  r_category :: string
  r_scope_key :: string
  r_reason :: string

definition approval :: "risk_level \<Rightarrow> string \<Rightarrow> string \<Rightarrow> string \<Rightarrow> risk_result" where
  "approval level category scope reason =
     \<lparr>r_decision = ApprovalRequired, r_level = level, r_category = category, r_scope_key = scope, r_reason = reason\<rparr>"

definition exact_scope :: "string list \<Rightarrow> string" where
  "exact_scope argv = ''argv-sha256:'' @ sha256_hex (json_strings argv)"

definition semantic_payload :: "string \<Rightarrow> string \<Rightarrow> string" where
  "semantic_payload executable resource =
     json_enc (JObj [(''executable'', JStr executable), (''resource'', JStr resource)])"

definition semantic_scope :: "string \<Rightarrow> string \<Rightarrow> string" where
  "semantic_scope executable resource = ''semantic-sha256:'' @ sha256_hex (semantic_payload executable resource)"

section \<open>Control structure\<close>

definition go_switch :: "string \<Rightarrow> (string list \<times> 'a option) list \<Rightarrow> 'a option" where
  "go_switch x cases = (case find (\<lambda>c. x \<in> set (fst c)) cases of None \<Rightarrow> None | Some c \<Rightarrow> snd c)"

definition on :: "bool \<Rightarrow> 'a \<Rightarrow> 'a option" where
  "on c r = (if c then Some r else None)"

fun first_some :: "'a option list \<Rightarrow> 'a option" where
  "first_some [] = None"
| "first_some (None # rs) = first_some rs"
| "first_some (Some r # rs) = Some r"

lemma pred_go_switch: "list_all (\<lambda>c. pred_option P (snd c)) cases \<Longrightarrow> pred_option P (go_switch x cases)"
  by (auto simp: go_switch_def list_all_iff find_Some_iff split: option.split)
     (metis nth_mem snd_conv)

lemma pred_on: "P r \<Longrightarrow> pred_option P (on c r)"
  by (simp add: on_def)

lemma pred_first_some: "list_all (pred_option P) rs \<Longrightarrow> pred_option P (first_some rs)"
  by (induction rs rule: first_some.induct) auto

lemma go_switch_simps [simp]:
  "go_switch x [] = None"
  "go_switch x ((names, r) # cases) = (if x \<in> set names then r else go_switch x cases)"
  by (simp_all add: go_switch_def)

section \<open>Helpers on argument lists\<close>

definition contains_any :: "string list \<Rightarrow> string list \<Rightarrow> bool" where
  "contains_any args values \<longleftrightarrow> list_ex (\<lambda>arg. list_ex (\<lambda>v. arg = v) values) args"

definition contains :: "string list \<Rightarrow> string list \<Rightarrow> bool" where
  "contains args seq \<longleftrightarrow>
     \<not> (length seq = 0 \<or> length args < length seq) \<and>
     list_ex (\<lambda>i. list_all (\<lambda>j. args ! (i + j) = seq ! j) [0..<length seq]) [0..<length args - length seq + 1]"

abbreviation contains_sequence :: "string list \<Rightarrow> string list \<Rightarrow> bool" where
  "contains_sequence \<equiv> contains"

definition has_option_prefix :: "string list \<Rightarrow> string list \<Rightarrow> bool" where
  "has_option_prefix args values \<longleftrightarrow>
     list_ex (\<lambda>arg. list_ex (\<lambda>v. arg = v \<or> has_prefix arg (v @ ''='')
       \<or> (length v = 2 \<and> has_prefix arg v \<and> length v < length arg)) values) args"

fun first_operand :: "string list \<Rightarrow> string" where
  "first_operand [] = ''*''"
| "first_operand (c # cs) = (if \<not> has_prefix c ''-'' then c else first_operand cs)"

fun action_resource :: "string list \<Rightarrow> string list \<Rightarrow> string \<times> string" where
  "action_resource [] actions = ([], ''*'')"
| "action_resource (arg # rest) actions =
     (if arg \<in> set actions then (arg, first_operand rest) else action_resource rest actions)"

definition systemctl_action :: "string list \<Rightarrow> string \<times> string" where
  "systemctl_action args =
     action_resource args [''stop'', ''disable'', ''mask'', ''restart'', ''try-restart'', ''reload-or-restart'']"

fun contains_object_verb :: "string list \<Rightarrow> string \<Rightarrow> string list \<Rightarrow> bool" where
  "contains_object_verb [] object verbs = False"
| "contains_object_verb (arg # rest) object verbs =
     ((arg = object \<and> list_ex (\<lambda>later. later \<in> set verbs) rest) \<or> contains_object_verb rest object verbs)"

definition contains_assignment :: "string list \<Rightarrow> bool" where
  "contains_assignment args \<longleftrightarrow> list_ex (\<lambda>arg. CHR ''='' \<in> set arg \<and> \<not> has_prefix arg ''='') args"

definition sysrc_read_only :: "string list \<Rightarrow> bool" where
  "sysrc_read_only args \<longleftrightarrow> args = [] \<or> list_all (\<lambda>arg. \<not> (arg = ''-x'' \<or> CHR ''='' \<in> set arg)) args"

section \<open>Executables\<close>

definition is_privilege_launcher :: "string \<Rightarrow> bool" where
  "is_privilege_launcher cmd \<longleftrightarrow> cmd \<in> set
     [''sudo'', ''doas'', ''su'', ''runuser'', ''pkexec'', ''setpriv'', ''capsh'', ''chroot'', ''nsenter'', ''unshare'',
      ''systemd-run'', ''machinectl'']"

definition python_like :: "string \<Rightarrow> bool" where
  "python_like cmd \<longleftrightarrow>
     cmd = ''python'' \<or>
     (has_prefix cmd ''python'' \<and>
      (let rest = trim_prefix cmd ''python'' in
       rest = [] \<or> list_all (\<lambda>r. (0x30 \<le> (of_char r :: nat) \<and> of_char r \<le> (0x39 :: nat)) \<or> r = CHR ''.'') rest))"

definition is_arbitrary_code_carrier :: "string \<Rightarrow> bool" where
  "is_arbitrary_code_carrier cmd \<longleftrightarrow> cmd \<in> set
     [''sh'', ''bash'', ''dash'', ''zsh'', ''ksh'', ''mksh'', ''fish'', ''csh'', ''tcsh'',
      ''perl'', ''ruby'', ''irb'', ''node'', ''nodejs'', ''deno'', ''bun'', ''php'',
      ''lua'', ''luajit'', ''tclsh'', ''wish'', ''awk'', ''gawk'', ''mawk'', ''nawk'',
      ''java'', ''jshell'', ''dotnet'', ''pwsh'', ''powershell'',
      ''env'', ''xargs'', ''make'', ''gmake'', ''cmake'', ''ninja'',
      ''busybox'', ''toybox'', ''vim'', ''vi'', ''nvim'', ''emacs'', ''ed'', ''ex'',
      ''timeout'', ''nice'', ''nohup'', ''stdbuf'', ''setsid'', ''flock'', ''watch'',
      ''taskset'', ''ionice'', ''chrt'', ''fakeroot'', ''start-stop-daemon'',
      ''script'', ''expect'', ''parallel'', ''screen'', ''tmux'',
      ''gdb'', ''lldb'', ''strace'', ''ltrace'', ''valgrind'',
      ''sed'', ''psql'', ''mysql'', ''sqlite3'', ''lftp'',
      ''crontab'', ''at'', ''batch'']
     \<or> python_like cmd \<or> has_prefix cmd ''pypy'' \<or> has_prefix cmd ''ld-linux'' \<or> cmd = ''ld.so''"

definition is_remote_exec_tool :: "string \<Rightarrow> bool" where
  "is_remote_exec_tool cmd \<longleftrightarrow> cmd \<in> set
     [''ssh'', ''sshpass'', ''scp'', ''sftp'', ''rsync'', ''mosh'',
      ''nc'', ''ncat'', ''netcat'', ''socat'', ''telnet'',
      ''ansible'', ''ansible-playbook'', ''salt'', ''salt-call'']"

fun tar_can_execute :: "string list \<Rightarrow> bool" where
  "tar_can_execute [] = False"
| "tar_can_execute (arg # rest) =
     (has_prefix arg ''--checkpoint-action=exec='' \<or>
      (arg = ''--checkpoint-action'' \<and> (case rest of [] \<Rightarrow> False | next # _ \<Rightarrow> has_prefix next ''exec='')) \<or>
      tar_can_execute rest)"

definition trusted_system_executable_path :: "string \<Rightarrow> bool" where
  "trusted_system_executable_path path \<longleftrightarrow>
     path_clean path = path \<and>
     path_dir path \<in> set [''/bin'', ''/sbin'', ''/usr/bin'', ''/usr/sbin'', ''/usr/local/bin'', ''/usr/local/sbin'']"

section \<open>Operational classes\<close>

text \<open>Each classifier takes the executable as written, its base name, the arguments and the argv.\<close>

definition classify_escape :: "string \<Rightarrow> string \<Rightarrow> string list \<Rightarrow> string list \<Rightarrow> risk_result option" where
  "classify_escape executable cmd args argv = go_switch cmd
    [([''git'', ''hg''],
       Some (approval High ''ARBITRARY_CODE'' (exact_scope argv) ''VCS configuration, hooks or aliases can execute external programs'')),
     ([''gcc'', ''g++'', ''cc'', ''c++'', ''clang'', ''clang++'', ''ld'', ''lld''],
       Some (approval High ''ARBITRARY_CODE'' (exact_scope argv) ''compiler or linker plugins/wrappers can execute supplied code'')),
     ([''tar''],
       on (has_option_prefix args [''--to-command'', ''--use-compress-program'', ''-I'', ''--rsh-command''])
         (approval High ''ARBITRARY_CODE'' (exact_scope argv) ''tar option can launch an external command'')),
     ([''cpio''],
       on (has_option_prefix args [''--to-command''])
         (approval High ''ARBITRARY_CODE'' (exact_scope argv) ''cpio option can launch an external command'')),
     ([''openssl''],
       on (has_option_prefix args [''-engine'', ''-provider'', ''-provider-path''])
         (approval High ''ARBITRARY_CODE'' (exact_scope argv) ''OpenSSL engine/provider loading can load executable code'')),
     ([''man''],
       on (has_option_prefix args [''-P'', ''--pager''])
         (approval High ''ARBITRARY_CODE'' (exact_scope argv) ''custom manual pager can execute an external command'')),
     ([''less'', ''more''],
       Some (approval High ''ARBITRARY_CODE'' (exact_scope argv) ''pager command language supports shell escapes'')),
     ([''sudoedit'', ''chpst'', ''setuidgid'', ''envuidgid'', ''daemon''],
       Some (approval Critical ''PRIVILEGE_LAUNCHER'' (exact_scope argv) ''launcher can execute under a changed identity or privilege context'')),
     ([''softlimit'', ''prlimit'', ''setarch'', ''linux32'', ''linux64'', ''daemonize''],
       Some (approval High ''ARBITRARY_CODE'' (exact_scope argv) ''command wrapper can launch an arbitrary child executable''))]"

text \<open>The two-operand service managers: \<open>name action\<close> and \<open>action name\<close>.\<close>

definition service_verb ::
  "string \<Rightarrow> string \<Rightarrow> string \<Rightarrow> string \<Rightarrow> string list \<Rightarrow> string \<Rightarrow> string list \<Rightarrow> string \<Rightarrow> risk_result option" where
  "service_verb executable manager action name control control_reason restart restart_reason =
     (let scope = semantic_scope executable (manager @ '':'' @ action @ '':'' @ name) in
      if action \<in> set control then Some (approval High ''SERVICE_CONTROL'' scope control_reason)
      else if action \<in> set restart then Some (approval Medium ''SERVICE_RESTART'' scope restart_reason)
      else None)"

definition classify_service :: "string \<Rightarrow> string \<Rightarrow> string list \<Rightarrow> string list \<Rightarrow> risk_result option" where
  "classify_service executable cmd args argv = go_switch cmd
    [([''systemctl''], first_some
       [on (contains_any args [''reboot'', ''poweroff'', ''halt'', ''kexec'', ''soft-reboot'',
              ''suspend'', ''hibernate'', ''hybrid-sleep'', ''suspend-then-hibernate''])
          (approval High ''POWER'' (exact_scope argv) ''system power-state transition''),
        (let (action, resource) = action_resource args
               [''start'', ''stop'', ''restart'', ''try-restart'', ''reload'', ''reload-or-restart'', ''reload-or-try-restart'',
                ''enable'', ''disable'', ''reenable'', ''mask'', ''unmask'', ''preset'', ''revert'', ''kill'', ''set-property'', ''edit''];
             restart = (action = ''restart'' \<or> action = ''try-restart'' \<or> has_prefix action ''reload'')
         in on (action \<noteq> [])
              (approval (if restart then Medium else High) (if restart then ''SERVICE_RESTART'' else ''SERVICE_CONTROL'')
                (semantic_scope executable (''systemctl:'' @ action @ '':'' @ resource)) ''service lifecycle or configuration change'')),
        on (contains_any args [''daemon-reload'', ''daemon-reexec'', ''preset-all'', ''isolate'', ''rescue'', ''emergency'', ''set-default'',
              ''enable-environment'', ''set-environment'', ''unset-environment'', ''import-environment''])
          (approval High ''SYSTEM_MANAGER'' (exact_scope argv) ''systemd manager state change'')]),
     ([''loginctl''], first_some
       [on (contains_any args [''reboot'', ''poweroff'', ''suspend'', ''hibernate'', ''hybrid-sleep'', ''suspend-then-hibernate''])
          (approval High ''POWER'' (exact_scope argv) ''login manager power-state transition''),
        on (contains_any args [''terminate-session'', ''terminate-user'', ''terminate-seat'', ''kill-session'', ''kill-user''])
          (approval High ''PROCESS_CONTROL'' (exact_scope argv) ''login/session process termination'')]),
     ([''service''], (case args of
         name # action # _ \<Rightarrow> service_verb executable ''service'' action name
           [''start'', ''stop'', ''enable'', ''disable'', ''onestart'', ''onestop'', ''forcestart'', ''forcestop''] ''service lifecycle change''
           [''restart'', ''reload'', ''onerestart'', ''forcerestart''] ''service restart or reload''
       | _ \<Rightarrow> None)),
     ([''rcctl''],
       (let (action, resource) = action_resource args [''start'', ''stop'', ''restart'', ''reload'', ''enable'', ''disable'', ''set''];
            restart = (action = ''restart'' \<or> action = ''reload'')
        in on (action \<noteq> [])
             (approval (if restart then Medium else High) (if restart then ''SERVICE_RESTART'' else ''SERVICE_CONTROL'')
               (semantic_scope executable (''rcctl:'' @ action @ '':'' @ resource)) ''service lifecycle or configuration change''))),
     ([''rc-service''], (case args of
         name # action # _ \<Rightarrow> service_verb executable ''rc-service'' action name
           [''start'', ''stop''] ''service lifecycle change'' [''restart'', ''reload''] ''service restart or reload''
       | _ \<Rightarrow> None)),
     ([''sv''], (case args of
         action # name # _ \<Rightarrow> service_verb executable ''sv'' action name
           [''up'', ''down'', ''once'', ''pause'', ''cont'', ''kill'', ''exit''] ''runit service lifecycle change''
           [''restart'', ''force-restart'', ''hup'', ''term'', ''interrupt''] ''runit service restart or signal''
       | _ \<Rightarrow> None)),
     ([''sysrc''],
       on (contains_assignment args \<or> contains_any args [''-x''])
         (approval High ''SYSTEM_CONFIG'' (exact_scope argv) ''FreeBSD rc configuration change''))]"

definition short_flags :: "string \<Rightarrow> bool" where
  "short_flags arg \<longleftrightarrow> has_prefix arg ''-'' \<and> \<not> has_prefix arg ''--'' \<and> 2 < length arg"

definition nft_read_only :: "string list \<Rightarrow> bool" where
  "nft_read_only args \<longleftrightarrow> args \<noteq> [] \<and>
     list_all (\<lambda>arg. arg \<notin> set [''add'', ''insert'', ''replace'', ''delete'', ''destroy'', ''flush'', ''reset'', ''rename'', ''import'']) args \<and>
     contains_any args [''list'', ''get'', ''describe'', ''monitor'']"

definition iptables_mutating_option :: "string \<Rightarrow> bool" where
  "iptables_mutating_option arg \<longleftrightarrow>
     list_ex (\<lambda>opt. arg = opt \<or> has_prefix arg (opt @ ''=''))
       [''-A'', ''--append'', ''-D'', ''--delete'', ''-I'', ''--insert'', ''-R'', ''--replace'',
        ''-F'', ''--flush'', ''-Z'', ''--zero'', ''-N'', ''--new-chain'', ''-X'', ''--delete-chain'',
        ''-P'', ''--policy'', ''-E'', ''--rename-chain'', ''--set-counters'']
     \<or> (short_flags arg \<and> list_ex (\<lambda>f. f \<in> set ''ADIRFZNXPE'') (tl arg))"

definition iptables_read_only :: "string list \<Rightarrow> bool" where
  "iptables_read_only args \<longleftrightarrow> args \<noteq> [] \<and> list_all (\<lambda>arg. \<not> iptables_mutating_option arg) args \<and>
     (has_option_prefix args [''-L'', ''--list'', ''-S'', ''--list-rules'', ''-C'', ''--check''] \<or>
      list_ex (\<lambda>arg. short_flags arg \<and> list_ex (\<lambda>f. f \<in> set ''LSC'') (tl arg)) args)"

definition pfctl_mutating_option :: "string \<Rightarrow> bool" where
  "pfctl_mutating_option arg \<longleftrightarrow>
     \<not> (\<not> has_prefix arg ''-'' \<or> arg = ''-'') \<and>
     (has_prefix arg ''--'' \<or> list_ex (\<lambda>f. f \<in> set ''edfFkKTxzZ'') (tl arg))"

definition pfctl_read_only :: "string list \<Rightarrow> bool" where
  "pfctl_read_only args \<longleftrightarrow> args \<noteq> [] \<and> list_all (\<lambda>arg. \<not> pfctl_mutating_option arg) args \<and>
     list_ex (\<lambda>arg. arg = ''-s'' \<or> has_prefix arg ''-s'' \<or> arg = ''-i'' \<or> has_prefix arg ''-i''
       \<or> arg = ''-v'' \<or> has_prefix arg ''-v'') args"

definition ip_objects :: "(string \<times> string list) list" where
  "ip_objects =
    [(''link'', [''add'', ''delete'', ''del'', ''set'']),
     (''address'', [''add'', ''change'', ''replace'', ''delete'', ''del'', ''flush'']),
     (''addr'', [''add'', ''change'', ''replace'', ''delete'', ''del'', ''flush'']),
     (''route'', [''add'', ''append'', ''change'', ''replace'', ''delete'', ''del'', ''flush'']),
     (''rule'', [''add'', ''delete'', ''del'', ''flush'']),
     (''neigh'', [''add'', ''change'', ''replace'', ''delete'', ''del'', ''flush'']),
     (''neighbor'', [''add'', ''change'', ''replace'', ''delete'', ''del'', ''flush'']),
     (''tunnel'', [''add'', ''change'', ''delete'', ''del'']),
     (''netns'', [''add'', ''delete'', ''del'', ''set''])]"

definition classify_network :: "string \<Rightarrow> string \<Rightarrow> string list \<Rightarrow> string list \<Rightarrow> risk_result option" where
  "classify_network executable cmd args argv =
    (let net = (\<lambda>reason. approval High ''NETWORK_CONTROL'' (exact_scope argv) reason) in go_switch cmd
    [([''nft''], on (\<not> nft_read_only args) (net ''nftables policy or state change'')),
     ([''iptables'', ''ip6tables''], on (\<not> iptables_read_only args) (net ''netfilter policy or counter state change'')),
     ([''iptables-restore'', ''ip6tables-restore'', ''nft-restore''],
       Some (net ''firewall ruleset restore changes packet-filter state'')),
     ([''pfctl''], on (\<not> pfctl_read_only args) (net ''PF policy or runtime state change'')),
     ([''ip''], first_some
       [on (contains_sequence args [''netns'', ''exec''] \<or> contains_sequence args [''vrf'', ''exec''])
          (approval Critical ''PRIVILEGE_LAUNCHER'' (exact_scope argv) ''network namespace execution can cross the target process boundary''),
        on (list_ex (\<lambda>object. contains_object_verb args (fst object) (snd object)) ip_objects)
          (net ''network interface, address, route or namespace state change'')]),
     ([''bridge''], on (contains_any args [''add'', ''del'', ''delete'', ''set'', ''replace'', ''flush'']) (net ''bridge state change'')),
     ([''tc''], on (contains_any args [''add'', ''change'', ''replace'', ''delete'', ''del'']) (net ''traffic-control state change'')),
     ([''ifconfig''], on (1 < length args) (net ''interface configuration change'')),
     ([''route''], on (contains_any args [''add'', ''delete'', ''del'', ''change'', ''replace'', ''flush'']) (net ''route table change'')),
     ([''wg''], on (contains_any args [''set'', ''setconf'', ''syncconf'']) (net ''WireGuard configuration change'')),
     ([''wg-quick''], on (contains_any args [''up'', ''down'', ''save'']) (net ''WireGuard interface state change'')),
     ([''networkctl''],
       on (contains_any args [''up'', ''down'', ''renew'', ''forcerenew'', ''reconfigure'', ''reload'', ''delete'']) (net ''networkd state change'')),
     ([''resolvectl''],
       on (contains_any args [''dns'', ''domain'', ''default-route'', ''llmnr'', ''mdns'', ''dnssec'', ''nta'', ''revert''])
         (net ''resolver link configuration change'')),
     ([''nmcli''],
       on (contains_any args [''up'', ''down'', ''add'', ''delete'', ''modify'', ''clone'', ''import'', ''connect'', ''disconnect'', ''reapply'']
           \<or> contains_sequence args [''networking'', ''off''] \<or> contains_sequence args [''networking'', ''on''])
         (net ''NetworkManager state change'')),
     ([''ethtool''],
       on (has_option_prefix args [''-s'', ''--change'', ''-K'', ''--offload'', ''-L'', ''--set-channels'', ''-G'', ''--set-ring'',
             ''-C'', ''--coalesce'', ''-A'', ''--pause'', ''--set-eee'', ''--set-priv-flags''])
         (net ''network device configuration change''))])"

text \<open>\<open>pacmanMutates\<close>: the loop with its two flags.\<close>

fun pacman_loop :: "string list \<Rightarrow> bool \<Rightarrow> bool \<Rightarrow> bool" where
  "pacman_loop [] sync_seen read_only_sync = (sync_seen \<and> \<not> read_only_sync)"
| "pacman_loop (arg # rest) sync_seen read_only_sync =
     (if arg \<in> set [''-R'', ''--remove'', ''-U'', ''--upgrade''] then True
      else
        (let ss1 = (sync_seen \<or> arg = ''--sync'');
             ro1 = (read_only_sync \<or> arg \<in> set [''--search'', ''--info'', ''--list'', ''--groups'', ''--print'']) in
         if has_prefix arg ''-R'' \<and> 2 < length arg then True
         else if has_prefix arg ''-U'' \<and> 2 < length arg then True
         else if has_prefix arg ''-S'' then
           (let opts = trim_prefix arg ''-S'' in
            if list_ex (\<lambda>r. r \<in> set ''yu'') opts then True
            else pacman_loop rest True (ro1 \<or> (opts \<noteq> [] \<and> list_all (\<lambda>r. r \<in> set ''silgpq'') opts)))
         else pacman_loop rest ss1 ro1))"

definition pacman_mutates :: "string list \<Rightarrow> bool" where
  "pacman_mutates args = pacman_loop args False False"

definition classify_package :: "string \<Rightarrow> string \<Rightarrow> string list \<Rightarrow> string list \<Rightarrow> risk_result option" where
  "classify_package executable cmd args argv =
    (let pkg = (\<lambda>reason. approval Medium ''PACKAGE_CONTROL'' (exact_scope argv) reason);
         mutating = (\<lambda>verbs. on (contains_any args verbs) (pkg ''package or system software state change'')) in go_switch cmd
    [([''apt'', ''apt-get''],
       mutating [''install'', ''remove'', ''purge'', ''upgrade'', ''full-upgrade'', ''dist-upgrade'', ''autoremove'', ''build-dep'', ''satisfy'']),
     ([''apt-mark''], mutating [''hold'', ''unhold'', ''manual'', ''auto'', ''minimize-manual'']),
     ([''dnf'', ''yum''], first_some
       [mutating [''install'', ''remove'', ''erase'', ''upgrade'', ''update'', ''downgrade'', ''reinstall'', ''distro-sync'', ''autoremove'', ''swap''],
        on (contains_sequence args [''module'', ''enable''] \<or> contains_sequence args [''module'', ''disable'']
            \<or> contains_sequence args [''module'', ''reset''] \<or> contains_sequence args [''module'', ''install'']
            \<or> contains_sequence args [''module'', ''remove''])
          (pkg ''package module state change'')]),
     ([''zypper''], mutating [''install'', ''in'', ''remove'', ''rm'', ''update'', ''up'', ''dist-upgrade'', ''dup'', ''patch'']),
     ([''apk''], mutating [''add'', ''del'', ''upgrade'', ''fix'']),
     ([''pkg''], mutating [''bootstrap'', ''install'', ''delete'', ''remove'', ''upgrade'', ''update'', ''autoremove'', ''lock'', ''unlock'', ''set'']),
     ([''xbps-install'', ''xbps-remove'', ''xbps-reconfigure'', ''xbps-pkgdb''], Some (pkg ''XBPS package state change'')),
     ([''dpkg''],
       on (has_option_prefix args [''-i'', ''--install'', ''-r'', ''--remove'', ''-P'', ''--purge'', ''--configure'', ''--unpack''])
         (pkg ''dpkg package state change'')),
     ([''rpm''],
       on (has_option_prefix args [''-i'', ''--install'', ''-U'', ''--upgrade'', ''-F'', ''--freshen'', ''-e'', ''--erase'', ''--rebuilddb''])
         (pkg ''RPM package state change'')),
     ([''pacman''], on (pacman_mutates args) (pkg ''pacman package state change'')),
     ([''freebsd-update''], mutating [''install'', ''upgrade'', ''rollback'']),
     ([''snap''], mutating [''install'', ''remove'', ''refresh'', ''revert'', ''enable'', ''disable'']),
     ([''flatpak''], mutating [''install'', ''uninstall'', ''update'', ''override'', ''mask'', ''pin''])])"

definition mount_read_only_query :: "string list \<Rightarrow> bool" where
  "mount_read_only_query args \<longleftrightarrow> args = [] \<or>
     list_all (\<lambda>arg. arg \<in> set [''-l'', ''--show-labels'', ''-h'', ''--help'', ''-V'', ''--version'']) args"

definition help_or_version_only :: "string list \<Rightarrow> bool" where
  "help_or_version_only args \<longleftrightarrow> args \<noteq> [] \<and>
     list_all (\<lambda>arg. arg \<in> set [''-h'', ''--help'', ''-V'', ''--version'']) args"

definition losetup_read_only :: "string list \<Rightarrow> bool" where
  "losetup_read_only args \<longleftrightarrow> args = [] \<or>
     list_all (\<lambda>arg. arg \<in> set [''-a'', ''--all'', ''-l'', ''--list'', ''-f'', ''--find'', ''-j'', ''--associated'', ''-O'', ''--output'',
         ''--output-all'', ''--json'', ''--raw'', ''--noheadings'', ''-n'']
       \<or> \<not> (arg \<noteq> [] \<and> hd arg \<noteq> CHR ''-'')) args"

definition partition_mutation_present :: "string list \<Rightarrow> bool" where
  "partition_mutation_present args = contains_any args
     [''mklabel'', ''mktable'', ''mkpart'', ''rm'', ''name'', ''resizepart'', ''set'', ''toggle'', ''rescue'',
      ''--new'', ''--delete'', ''--change-name'', ''--typecode'', ''--attributes'', ''--zap'', ''--zap-all'', ''--clear'']"

definition mdadm_read_only :: "string list \<Rightarrow> bool" where
  "mdadm_read_only args \<longleftrightarrow>
     contains_any args [''--detail'', ''--examine'', ''--query'', ''--scan''] \<and>
     \<not> contains_any args [''--create'', ''--assemble'', ''--stop'', ''--add'', ''--remove'', ''--fail'', ''--grow'', ''--manage'', ''--incremental'']"

definition classify_storage :: "string \<Rightarrow> string \<Rightarrow> string list \<Rightarrow> string list \<Rightarrow> risk_result option" where
  "classify_storage executable cmd args argv =
    (let sto = (\<lambda>level reason. approval level ''STORAGE_CONTROL'' (exact_scope argv) reason);
         raw = (\<lambda>reason. approval Critical ''RAW_STORAGE_WRITE'' (exact_scope argv) reason) in go_switch cmd
    [([''dd'', ''blkdiscard'', ''sg_format''], Some (raw ''raw block/storage write can destroy data'')),
     ([''nvme''], on (contains_any args [''format'', ''sanitize'']) (raw ''NVMe destructive media operation'')),
     ([''hdparm''],
       on (has_option_prefix args [''-S'', ''-B'', ''-M'', ''-W'', ''-w'', ''--security-set-pass'', ''--security-erase'',
             ''--security-erase-enhanced'', ''--yes-i-know-what-i-am-doing''])
         (sto Critical ''block-device firmware or power/security state change'')),
     ([''camcontrol''],
       on (contains_any args [''reset'', ''stop'', ''start'', ''format'', ''sanitize'', ''security'', ''modepage''])
         (sto Critical ''FreeBSD CAM device state change'')),
     ([''mount''], on (\<not> mount_read_only_query args) (sto High ''mount state change'')),
     ([''umount''], on (\<not> help_or_version_only args) (sto High ''unmount state change'')),
     ([''swapon''], on (\<not> contains_any args [''--show'', ''-s'', ''--summary'']) (sto High ''swap state change'')),
     ([''swapoff''], Some (sto High ''swap state change'')),
     ([''losetup''], on (\<not> losetup_read_only args) (sto High ''loop-device state change'')),
     ([''fdisk''],
       on (\<not> (contains_any args [''-l'', ''--list''] \<or> help_or_version_only args)) (sto Critical ''partition-table operation'')),
     ([''sfdisk''],
       on (\<not> (contains_any args [''-l'', ''--list'', ''-d'', ''--dump''] \<or> help_or_version_only args)) (sto Critical ''partition-table operation'')),
     ([''cfdisk'', ''gdisk''], Some (sto Critical ''interactive partition-table operation'')),
     ([''sgdisk''],
       on (\<not> (contains_any args [''-p'', ''--print'', ''-i'', ''--info''] \<and> \<not> partition_mutation_present args))
         (sto Critical ''GPT partition-table operation'')),
     ([''parted''],
       on (\<not> (contains_any args [''-l'', ''--list'', ''print''] \<and> \<not> partition_mutation_present args))
         (sto Critical ''partition-table operation'')),
     ([''fsck'', ''e2fsck'', ''xfs_repair'', ''resize2fs'', ''xfs_growfs'', ''tune2fs''],
       Some (sto High ''filesystem repair or geometry change'')),
     ([''mdadm''], on (\<not> mdadm_read_only args) (sto High ''software RAID state change'')),
     ([''pvcreate'', ''pvremove'', ''pvresize'', ''pvmove'',
       ''vgcreate'', ''vgremove'', ''vgextend'', ''vgreduce'', ''vgrename'', ''vgchange'',
       ''lvcreate'', ''lvremove'', ''lvresize'', ''lvextend'', ''lvreduce'', ''lvrename'', ''lvchange'', ''lvconvert''],
       Some (sto High ''LVM topology or volume state change'')),
     ([''zpool''],
       on (contains_any args [''add'', ''attach'', ''detach'', ''replace'', ''remove'', ''online'', ''offline'', ''clear'', ''import'', ''export'',
             ''upgrade'', ''set'', ''trim'', ''checkpoint'', ''reguid'', ''split'', ''scrub''])
         (sto High ''ZFS pool state or topology change'')),
     ([''zfs''],
       on (contains_any args [''create'', ''snapshot'', ''clone'', ''promote'', ''rename'', ''rollback'', ''set'', ''inherit'', ''hold'', ''release'',
             ''mount'', ''unmount'', ''share'', ''unshare'', ''receive'', ''recv''] \<and> args \<noteq> [''mount''])
         (sto High ''ZFS dataset state change'')),
     ([''cryptsetup''],
       on (\<not> contains_any args [''status'', ''luksDump'', ''isLuks'', ''benchmark'']) (sto Critical ''encrypted-volume state or metadata change'')),
     ([''geli''],
       on (contains_any args [''init'', ''attach'', ''detach'', ''setkey'', ''delkey'', ''kill'', ''onetime'', ''configure'', ''resize''])
         (sto Critical ''GELI encrypted-volume state change'')),
     ([''gpart''],
       on (contains_any args [''create'', ''add'', ''delete'', ''destroy'', ''modify'', ''resize'', ''recover'', ''set'', ''unset'', ''bootcode''])
         (sto Critical ''GEOM partition state change'')),
     ([''bectl''],
       on (contains_any args [''create'', ''destroy'', ''activate'', ''rename'', ''mount'', ''unmount'', ''jail''])
         (sto High ''boot-environment state change''))])"

definition classify_system :: "string \<Rightarrow> string \<Rightarrow> string list \<Rightarrow> string list \<Rightarrow> risk_result option" where
  "classify_system executable cmd args argv =
    (let ap = (\<lambda>level category reason. approval level category (exact_scope argv) reason) in go_switch cmd
    [([''sysctl''],
       on (has_option_prefix args [''-w'', ''--write''] \<or> contains_assignment args)
         (ap High ''KERNEL_CONTROL'' ''kernel runtime parameter change'')),
     ([''modprobe'', ''insmod'', ''rmmod'', ''kldload'', ''kldunload''], Some (ap High ''KERNEL_CONTROL'' ''kernel module state change'')),
     ([''kexec''], Some (ap Critical ''POWER'' ''kernel replacement or kexec transition'')),
     ([''init'', ''telinit''], on (0 < length args) (ap Critical ''POWER'' ''init/runlevel transition can stop services or power the host'')),
     ([''hostnamectl'', ''timedatectl'', ''localectl''],
       on (contains_any args [''set-hostname'', ''set-icon-name'', ''set-chassis'', ''set-location'',
             ''set-time'', ''set-timezone'', ''set-ntp'', ''set-local-rtc'', ''set-locale'', ''set-keymap'', ''set-x11-keymap''])
         (ap High ''SYSTEM_CONFIG'' ''host system configuration change'')),
     ([''hostname''],
       on (0 < length args \<and> \<not> contains_any args [''-f'', ''--fqdn'', ''-s'', ''--short'', ''-d'', ''--domain'', ''-i'', ''--ip-address'', ''-I'', ''--all-ip-addresses''])
         (ap High ''SYSTEM_CONFIG'' ''host name change'')),
     ([''date''], on (has_option_prefix args [''-s'', ''--set'']) (ap High ''SYSTEM_CONFIG'' ''system clock change'')),
     ([''hwclock''],
       on (contains_any args [''--systohc'', ''--hctosys'', ''--set'', ''--adjust'', ''--predict-hc''])
         (ap High ''SYSTEM_CONFIG'' ''hardware/system clock state change'')),
     ([''journalctl''],
       on (has_option_prefix args [''--vacuum-size'', ''--vacuum-time'', ''--vacuum-files''] \<or> contains_any args [''--rotate''])
         (ap High ''LOG_CONTROL'' ''system journal retention or rotation change'')),
     ([''logrotate''], on (has_option_prefix args [''-f'', ''--force'']) (ap Medium ''LOG_CONTROL'' ''forced log rotation'')),
     ([''kill'', ''pkill'', ''killall''], Some (ap High ''PROCESS_CONTROL'' ''process termination or signal delivery'')),
     ([''renice''], Some (ap Medium ''PROCESS_CONTROL'' ''process scheduling priority change''))])"

definition classify_runtime :: "string \<Rightarrow> string \<Rightarrow> string list \<Rightarrow> string list \<Rightarrow> risk_result option" where
  "classify_runtime executable cmd args argv =
    (let ap = (\<lambda>level category reason. approval level category (exact_scope argv) reason) in go_switch cmd
    [([''docker''], first_some
       [on (has_option_prefix args [''-H'', ''--host'', ''--context''])
          (ap High ''REMOTE_EXEC'' ''Docker operation targets another daemon/context''),
        on (contains_any args [''start'', ''restart'', ''build''] \<or> contains_sequence args [''buildx'', ''build'']
            \<or> contains_sequence args [''compose'', ''up''] \<or> contains_sequence args [''compose'', ''start'']
            \<or> contains_sequence args [''compose'', ''restart''] \<or> contains_sequence args [''compose'', ''build'']
            \<or> contains_sequence args [''plugin'', ''install''] \<or> contains_sequence args [''plugin'', ''enable'']
            \<or> contains_sequence args [''plugin'', ''upgrade''])
          (ap High ''ARBITRARY_CODE'' ''container operation can start or build mutable executable workloads''),
        on (contains_any args [''stop'', ''kill'', ''rm'', ''pause'', ''unpause'', ''rename'', ''update'', ''commit'', ''pull'',
            ''push'', ''tag'', ''load'', ''import''] \<or> contains_sequence args [''network'', ''create'']
            \<or> contains_sequence args [''network'', ''rm''] \<or> contains_sequence args [''network'', ''connect'']
            \<or> contains_sequence args [''network'', ''disconnect''] \<or> contains_sequence args [''volume'', ''create'']
            \<or> contains_sequence args [''volume'', ''rm''] \<or> contains_sequence args [''compose'', ''down'']
            \<or> contains_sequence args [''compose'', ''stop''] \<or> contains_sequence args [''compose'', ''rm''])
          (ap High ''CONTAINER_CONTROL'' ''container runtime state change'')]),
     ([''podman''], first_some
       [on (contains_any args [''--remote''] \<or> has_option_prefix args [''--connection'', ''--url''])
          (ap High ''REMOTE_EXEC'' ''Podman operation targets another service/context''),
        on (contains_any args [''start'', ''restart'', ''build''])
          (ap High ''ARBITRARY_CODE'' ''container operation can start or build mutable executable workloads''),
        on (contains_any args [''stop'', ''kill'', ''rm'', ''pause'', ''unpause'', ''rename'', ''update'', ''commit'', ''pull'',
            ''push'', ''tag'', ''load'', ''import''] \<or> contains_sequence args [''network'', ''create'']
            \<or> contains_sequence args [''network'', ''rm''] \<or> contains_sequence args [''network'', ''connect'']
            \<or> contains_sequence args [''network'', ''disconnect''] \<or> contains_sequence args [''volume'', ''create'']
            \<or> contains_sequence args [''volume'', ''rm''])
          (ap High ''CONTAINER_CONTROL'' ''container runtime state change'')]),
     ([''nerdctl''], first_some
       [on (contains_any args [''run'', ''exec'', ''create'', ''start'', ''restart'', ''build''])
          (ap High ''ARBITRARY_CODE'' ''container command can execute or start arbitrary code''),
        on (contains_any args [''stop'', ''kill'', ''rm'', ''pause'', ''unpause'', ''pull'', ''load''])
          (ap High ''CONTAINER_CONTROL'' ''container runtime state change'')]),
     ([''crictl''], first_some
       [on (contains_any args [''exec'', ''run'', ''runp'', ''start''])
          (ap High ''ARBITRARY_CODE'' ''CRI operation can execute or start arbitrary workloads''),
        on (contains_any args [''stop'', ''stopp'', ''rm'', ''rmp'', ''pull''])
          (ap High ''CONTAINER_CONTROL'' ''CRI runtime state change'')]),
     ([''kubectl''], first_some
       [on (contains_any args [''apply'', ''create'', ''replace'', ''patch'', ''edit'', ''scale'', ''autoscale'', ''label'',
            ''annotate'', ''taint'', ''cordon'', ''uncordon'', ''drain'']
            \<or> contains_sequence args [''rollout'', ''restart''] \<or> contains_sequence args [''rollout'', ''undo'']
            \<or> contains_sequence args [''set'', ''image''] \<or> contains_sequence args [''set'', ''env'']
            \<or> contains_sequence args [''set'', ''resources''])
          (ap High ''ORCHESTRATOR_CONTROL'' ''Kubernetes resource or node state change''),
        on (contains_any args [''cp''])
          (ap High ''REMOTE_EXEC'' ''Kubernetes copy operation crosses the target/container boundary'')]),
     ([''helm''], on (contains_any args [''install'', ''upgrade'', ''uninstall'', ''rollback''])
          (ap High ''ORCHESTRATOR_CONTROL'' ''Helm release state change'')),
     ([''qm''], first_some
       [on (contains_any args [''terminal'', ''monitor'', ''guest''])
          (ap High ''REMOTE_EXEC'' ''VM console/monitor/guest-agent operation can cross into guest execution''),
        on (contains_any args [''create'', ''destroy'', ''start'', ''stop'', ''shutdown'', ''reboot'', ''reset'', ''suspend'',
            ''resume'', ''clone'', ''migrate'', ''move_disk'', ''set'', ''resize'', ''snapshot'', ''delsnapshot'', ''rollback'',
            ''importdisk''])
          (ap High ''HYPERVISOR_CONTROL'' ''Proxmox VM state or configuration change'')]),
     ([''pct''], first_some
       [on (contains_any args [''enter'', ''exec''])
          (ap High ''REMOTE_EXEC'' ''container enter/exec crosses the target execution boundary''),
        on (contains_any args [''create'', ''destroy'', ''start'', ''stop'', ''shutdown'', ''reboot'', ''suspend'', ''resume'',
            ''clone'', ''migrate'', ''move-volume'', ''set'', ''resize'', ''snapshot'', ''delsnapshot'', ''rollback'',
            ''push''])
          (ap High ''HYPERVISOR_CONTROL'' ''Proxmox container state or configuration change'')]),
     ([''pvesh''], on (contains_any args [''create'', ''set'', ''delete''])
          (ap High ''HYPERVISOR_CONTROL'' ''Proxmox API state change'')),
     ([''ha-manager''], on (contains_any args [''add'', ''remove'', ''set'', ''migrate'', ''relocate'', ''enable'',
            ''disable''])
          (ap High ''HYPERVISOR_CONTROL'' ''Proxmox HA state change'')),
     ([''virsh''], first_some
       [on (contains_any args [''console'', ''qemu-monitor-command'', ''qemu-agent-command''])
          (ap High ''REMOTE_EXEC'' ''VM console/monitor/agent operation can cross into guest execution''),
        on (contains_any args [''start'', ''shutdown'', ''destroy'', ''reboot'', ''reset'', ''suspend'', ''resume'', ''define'',
            ''undefine'', ''create'', ''migrate'', ''managedsave'', ''snapshot-create'', ''snapshot-delete'',
            ''snapshot-revert'', ''attach-disk'', ''detach-disk'', ''attach-interface'', ''detach-interface'', ''setmem'',
            ''setvcpus''])
          (ap High ''HYPERVISOR_CONTROL'' ''libvirt VM state or configuration change'')]),
     ([''bhyvectl''], on (0 < length args \<and> \<not> contains_any args [''--get-stats''])
          (ap High ''HYPERVISOR_CONTROL'' ''bhyve VM state change'')),
     ([''vm''], on (contains_any args [''start'', ''stop'', ''restart'', ''poweroff'', ''reset'', ''create'', ''destroy'',
            ''clone'', ''snapshot'', ''rollback'', ''install'', ''configure''])
          (ap High ''HYPERVISOR_CONTROL'' ''vm-bhyve state or configuration change'')),
     ([''jexec''], Some (ap High ''REMOTE_EXEC'' ''FreeBSD jail execution crosses the target process boundary'')),
     ([''jail''], on (0 < length args)
          (ap High ''HYPERVISOR_CONTROL'' ''FreeBSD jail state change'')),
     ([''iocage''], first_some
       [on (contains_any args [''exec'', ''console''])
          (ap High ''REMOTE_EXEC'' ''jail exec/console crosses the target process boundary''),
        on (contains_any args [''create'', ''destroy'', ''start'', ''stop'', ''restart'', ''set'', ''rename'', ''clone'',
            ''snapshot'', ''rollback'', ''upgrade'', ''update''])
          (ap High ''HYPERVISOR_CONTROL'' ''iocage jail state or configuration change'')])])"

definition classify_operational :: "string \<Rightarrow> string \<Rightarrow> string list \<Rightarrow> string list \<Rightarrow> risk_result option" where
  "classify_operational executable cmd args argv = first_some
     (map (\<lambda>classify. classify executable cmd args argv)
       [classify_escape, classify_service, classify_network, classify_package, classify_storage, classify_system,
        classify_runtime])"

section \<open>Classify\<close>

text \<open>The first \<open>switch\<close> of \<open>Classify\<close>.\<close>

definition classify_base :: "string \<Rightarrow> string \<Rightarrow> string list \<Rightarrow> string list \<Rightarrow> risk_result option" where
  "classify_base executable cmd args argv =
    (let ap = (\<lambda>level category reason. approval level category (exact_scope argv) reason) in go_switch cmd
    [([''reboot'', ''shutdown'', ''poweroff'', ''halt''], Some (ap High ''POWER'' ''host power-state change'')),
     ([''mkfs'', ''mkfs.ext4'', ''mkfs.xfs'', ''wipefs'', ''shred''],
       Some (ap Critical ''FILESYSTEM_DESTRUCTIVE'' ''destructive storage operation'')),
     ([''zpool''], on (contains_any args [''destroy'']) (ap Critical ''STORAGE_DESTRUCTIVE'' ''zpool destruction'')),
     ([''zfs''], on (contains_any args [''destroy'']) (ap Critical ''STORAGE_DESTRUCTIVE'' ''ZFS dataset destruction'')),
     ([''rm''], Some (ap High ''FILESYSTEM_DELETE'' ''file deletion'')),
     ([''passwd'', ''useradd'', ''userdel'', ''usermod'', ''groupadd'', ''groupdel'', ''chpasswd''],
       Some (ap High ''IDENTITY'' ''identity or authentication change'')),
     ([''systemctl''], first_some
       [on (has_option_prefix args [''--host'', ''-H'', ''--machine'', ''-M''])
          (ap High ''REMOTE_EXEC'' ''systemctl remote/machine transport can cross the local target boundary''),
        (let (action, unit) = systemctl_action args;
             scope = semantic_scope executable (''systemctl:'' @ action @ '':'' @ unit) in go_switch action
          [([''stop'', ''disable'', ''mask''], Some (approval High ''SERVICE_CONTROL'' scope ''service availability change'')),
           ([''restart'', ''try-restart'', ''reload-or-restart''],
              Some (approval Medium ''SERVICE_RESTART'' scope ''service restart''))])]),
     ([''docker'', ''podman''], first_some
       [on (contains args [''system'', ''prune''] \<or> contains args [''volume'', ''prune''])
          (ap Critical ''CONTAINER_DESTRUCTIVE'' ''destructive container cleanup''),
        on (contains_any args [''exec'', ''run'', ''create''])
          (ap High ''ARBITRARY_CODE'' ''container operation can execute arbitrary code'')]),
     ([''kubectl''], first_some
       [on (contains_any args [''delete'']) (ap High ''ORCHESTRATOR_DESTRUCTIVE'' ''Kubernetes resource deletion''),
        on (contains_any args [''exec'', ''run'', ''debug'', ''attach'', ''port-forward'', ''proxy''])
          (ap High ''REMOTE_EXEC'' ''Kubernetes operation can execute code or expose a network path'')]),
     ([''find''],
       on (contains_any args [''-exec'', ''-execdir'', ''-ok'', ''-okdir''])
         (ap High ''ARBITRARY_CODE'' ''find action can launch arbitrary commands'')),
     ([''tar''], on (tar_can_execute args) (ap High ''ARBITRARY_CODE'' ''tar checkpoint action can execute arbitrary commands'')),
     ([''go''], on (contains_any args [''run'']) (ap High ''ARBITRARY_CODE'' ''go run executes supplied code'')),
     ([''cargo''], on (contains_any args [''run'']) (ap High ''ARBITRARY_CODE'' ''cargo run executes supplied code''))])"

definition allow_result :: "string \<Rightarrow> string \<Rightarrow> risk_result" where
  "allow_result cmd reason =
     \<lparr>r_decision = Allow, r_level = Low, r_category = ''DEFAULT'', r_scope_key = cmd, r_reason = reason\<rparr>"

text \<open>What follows the \<open>switch\<close>.\<close>

definition classify_rest :: "string \<Rightarrow> string \<Rightarrow> string list \<Rightarrow> string list \<Rightarrow> risk_result" where
  "classify_rest executable cmd args argv =
    (if cmd = ''sysrc'' \<and> sysrc_read_only args then allow_result cmd ''read-only sysrc query''
     else case classify_operational executable cmd args argv of Some result \<Rightarrow> result
     | None \<Rightarrow>
     if is_arbitrary_code_carrier cmd then
       approval High ''ARBITRARY_CODE'' (exact_scope argv) ''interpreter or command carrier can execute arbitrary code''
     else if is_remote_exec_tool cmd then
       approval High ''REMOTE_EXEC'' (exact_scope argv) ''tool can create a remote execution or lateral network path''
     else if is_abs executable \<and> \<not> trusted_system_executable_path executable then
       approval High ''ARBITRARY_CODE'' (exact_scope argv)
         ''execution of an arbitrary absolute-path binary requires explicit approval''
     else allow_result cmd ''no elevated-risk rule matched'')"

definition classify :: "string list \<Rightarrow> risk_result" where
  "classify argv = (case argv of
     [] \<Rightarrow> \<lparr>r_decision = Deny, r_level = Critical, r_category = ''INVALID'', r_scope_key = [], r_reason = ''empty command''\<rparr>
   | argv0 # args \<Rightarrow>
     let executable = trim_space argv0; cmd = path_base executable in
     if executable = [] then
       \<lparr>r_decision = Deny, r_level = Critical, r_category = ''INVALID'', r_scope_key = [], r_reason = ''empty command''\<rparr>
     else if is_privilege_launcher cmd then
       approval Critical ''PRIVILEGE_LAUNCHER'' (exact_scope argv) ''privilege or namespace launcher can broaden execution authority''
     else case classify_base executable cmd args argv of Some result \<Rightarrow> result
     | None \<Rightarrow>
     classify_rest executable cmd args argv)"

section \<open>Permissions\<close>

definition requires_shell_category :: "string \<Rightarrow> bool" where
  "requires_shell_category category \<longleftrightarrow> category \<in> set [''ARBITRARY_CODE'', ''PRIVILEGE_LAUNCHER'', ''REMOTE_EXEC'']"

definition requires_shell :: "risk_result \<Rightarrow> bool" where
  "requires_shell result = requires_shell_category (r_category result)"

definition session_approval_allowed_category :: "string \<Rightarrow> bool" where
  "session_approval_allowed_category category \<longleftrightarrow> \<not> requires_shell_category category"

definition session_approval_allowed :: "risk_result \<Rightarrow> bool" where
  "session_approval_allowed result = session_approval_allowed_category (r_category result)"

section \<open>The contract of a classifier\<close>

text \<open>
  A rule that matches asks for approval. Its scope key is the digest of the whole argv, except for the service classes,
  where it is the digest of the executable and the service operation.
\<close>

definition service_category :: "string \<Rightarrow> bool" where
  "service_category c \<longleftrightarrow> c = ''SERVICE_CONTROL'' \<or> c = ''SERVICE_RESTART''"

definition approval_for :: "string \<Rightarrow> string list \<Rightarrow> risk_result \<Rightarrow> bool" where
  "approval_for executable argv r \<longleftrightarrow>
     r_decision r = ApprovalRequired \<and> r_level r \<noteq> Low \<and> r_category r \<noteq> ''DEFAULT'' \<and> r_category r \<noteq> ''INVALID'' \<and>
     (if service_category (r_category r) then \<exists>resource. r_scope_key r = semantic_scope executable resource
      else r_scope_key r = exact_scope argv)"

lemma approval_for_exact [simp]:
  "approval_for executable argv (approval level category (exact_scope argv) reason) \<longleftrightarrow>
     level \<noteq> Low \<and> category \<noteq> ''DEFAULT'' \<and> category \<noteq> ''INVALID'' \<and>
     (service_category category \<longrightarrow> (\<exists>resource. exact_scope argv = semantic_scope executable resource))"
  by (auto simp: approval_for_def approval_def)

lemma approval_for_semantic [simp]:
  "service_category category \<Longrightarrow>
   approval_for executable argv (approval level category (semantic_scope executable resource) reason) \<longleftrightarrow> level \<noteq> Low"
  by (auto simp: approval_for_def approval_def service_category_def)

lemma service_categories [simp]:
  "service_category ''SERVICE_CONTROL''" "service_category ''SERVICE_RESTART''"
  by (simp_all add: service_category_def)

lemma pred_service_verb [simp]:
  "pred_option (approval_for executable argv) (service_verb executable manager action name control cr restart rr)"
  by (simp add: service_verb_def Let_def)

locale operational_classifier =
  fixes rule :: "string \<Rightarrow> string \<Rightarrow> string list \<Rightarrow> string list \<Rightarrow> risk_result option"
  assumes contract: "pred_option (approval_for executable argv) (rule executable cmd args argv)"
begin

lemma matched_needs_approval:
  "rule executable cmd args argv = Some r \<Longrightarrow> approval_for executable argv r"
  using contract [of executable argv cmd args] by simp

end

lemma pred_case: "pred_option P r \<Longrightarrow> pred_option P (snd (names, r))"
  by simp

lemma pred_some: "P r \<Longrightarrow> pred_option P (Some r)"
  by simp

lemma rule_list: "list_all P []" "P c \<Longrightarrow> list_all P cs \<Longrightarrow> list_all P (c # cs)"
  by simp_all

lemma service_category_if [simp]:
  "service_category (if c then a else b) \<longleftrightarrow> (if c then service_category a else service_category b)"
  by simp

lemma pred_action_resource:
  "(\<And>action resource. pred_option P (f action resource)) \<Longrightarrow>
   pred_option P (case p of (action, resource) \<Rightarrow> f action resource)"
  by (simp add: case_prod_unfold)

lemma pred_list_cases:
  "pred_option P n \<Longrightarrow> (\<And>x xs. pred_option P (c x xs)) \<Longrightarrow> pred_option P (case l of [] \<Rightarrow> n | x # xs \<Rightarrow> c x xs)"
  by (simp split: list.split)

lemma pred_none: "pred_option P None"
  by simp

lemmas classifier_defs = classify_base_def classify_operational_def classify_escape_def classify_service_def
  classify_network_def classify_package_def classify_storage_def classify_system_def classify_runtime_def

lemmas classifier_rules = pred_go_switch pred_first_some pred_case pred_some pred_none rule_list pred_on
  pred_action_resource pred_list_cases pred_service_verb

interpretation escape: operational_classifier classify_escape
  unfolding classify_escape_def Let_def
  by unfold_locales (intro classifier_rules; simp add: service_category_def)

interpretation service: operational_classifier classify_service
  unfolding classify_service_def Let_def
  by unfold_locales (intro classifier_rules; simp add: service_category_def)

interpretation network: operational_classifier classify_network
  unfolding classify_network_def Let_def
  by unfold_locales (intro classifier_rules; simp add: service_category_def)

interpretation package: operational_classifier classify_package
  unfolding classify_package_def Let_def
  by unfold_locales (intro classifier_rules; simp add: service_category_def)

interpretation storage: operational_classifier classify_storage
  unfolding classify_storage_def Let_def
  by unfold_locales (intro classifier_rules; simp add: service_category_def)

interpretation system: operational_classifier classify_system
  unfolding classify_system_def Let_def
  by unfold_locales (intro classifier_rules; simp add: service_category_def)

interpretation runtime: operational_classifier classify_runtime
  unfolding classify_runtime_def Let_def
  by unfold_locales (intro classifier_rules; simp add: service_category_def)

interpretation operational: operational_classifier classify_operational
  unfolding classify_operational_def
  by unfold_locales
    (rule pred_first_some, simp add: escape.contract service.contract network.contract package.contract
       storage.contract system.contract runtime.contract)

interpretation base: operational_classifier classify_base
  unfolding classify_base_def Let_def
  by unfold_locales (intro classifier_rules; simp add: service_category_def)

section \<open>Properties\<close>

lemma classify_rest_cases:
  "approval_for e argv (classify_rest e cmd args argv) \<or>
   classify_rest e cmd args argv = allow_result cmd ''read-only sysrc query'' \<and> cmd = ''sysrc'' \<or>
   classify_rest e cmd args argv = allow_result cmd ''no elevated-risk rule matched'' \<and>
     \<not> is_arbitrary_code_carrier cmd \<and> \<not> is_remote_exec_tool cmd \<and> (is_abs e \<longrightarrow> trusted_system_executable_path e)"
proof (cases "classify_operational e cmd args argv")
  case (Some r)
  then show ?thesis using operational.matched_needs_approval [OF Some] by (simp add: classify_rest_def)
next
  case None
  then show ?thesis by (simp add: classify_rest_def service_category_def)
qed

lemma classify_cases:
  assumes "argv = argv0 # args" and "trim_space argv0 \<noteq> []"
  obtains "approval_for (trim_space argv0) argv (classify argv)"
  | "classify argv = allow_result (path_base (trim_space argv0)) ''read-only sysrc query''"
    and "path_base (trim_space argv0) = ''sysrc''"
  | "classify argv = allow_result (path_base (trim_space argv0)) ''no elevated-risk rule matched''"
    and "\<not> is_privilege_launcher (path_base (trim_space argv0))"
    and "\<not> is_arbitrary_code_carrier (path_base (trim_space argv0))"
    and "\<not> is_remote_exec_tool (path_base (trim_space argv0))"
    and "is_abs (trim_space argv0) \<longrightarrow> trusted_system_executable_path (trim_space argv0)"
proof -
  define e cmd where "e = trim_space argv0" and "cmd = path_base e"
  note [simp] = e_def [symmetric] cmd_def [symmetric]
  have e: "e \<noteq> []" using assms(2) by simp
  show thesis
  proof (cases "is_privilege_launcher cmd")
    case True
    then have "approval_for e argv (classify argv)" using e assms(1) by (simp add: classify_def Let_def service_category_def)
    then show thesis using that(1) by simp
  next
    case launcher: False
    show thesis
    proof (cases "classify_base e cmd args argv")
      case (Some r)
      then have "classify argv = r" using launcher e assms(1) by (simp add: classify_def Let_def)
      then show thesis using base.matched_needs_approval [OF Some] that(1) by simp
    next
      case base: None
      then have rest: "classify argv = classify_rest e cmd args argv" using launcher e assms(1) by (simp add: classify_def Let_def)
      show thesis using classify_rest_cases [of e argv cmd args] launcher that unfolding rest by auto
    qed
  qed
qed

lemma approval_for_decision: "approval_for e argv r \<Longrightarrow> r_decision r = ApprovalRequired \<and> r_category r \<noteq> ''DEFAULT''"
  by (simp add: approval_for_def)

lemma classify_blank: "argv = [] \<or> trim_space (hd argv) = [] \<Longrightarrow> r_decision (classify argv) = Deny \<and> r_category (classify argv) = ''INVALID''"
  by (cases argv) (simp_all add: classify_def)

lemma classify_not_blank:
  assumes "\<not> (argv = [] \<or> trim_space (hd argv) = [])"
  shows "approval_for (trim_space (hd argv)) argv (classify argv) \<or>
         r_decision (classify argv) = Allow \<and> r_category (classify argv) = ''DEFAULT''"
proof -
  obtain argv0 args where argv: "argv = argv0 # args" and "trim_space argv0 \<noteq> []" using assms by (cases argv) auto
  then show ?thesis by (rule classify_cases) (simp_all add: argv allow_result_def)
qed

lemma classify_approval:
  "r_decision (classify argv) = ApprovalRequired \<Longrightarrow> approval_for (trim_space (hd argv)) argv (classify argv)"
  using classify_blank [of argv] classify_not_blank [of argv] by auto

text \<open>
  \<open>Classify\<close> decides every argv: it denies exactly the empty ones (no argv, or a first argument of white space only),
  it allows exactly under the category \<open>DEFAULT\<close>, and everything else asks for approval with a level above \<open>low\<close>,
  under a scope key that is the digest of the whole argv, or, for the service classes only, of the executable and the
  service operation.
\<close>
theorem classify_decides:
  "(r_decision (classify argv) = Deny \<longleftrightarrow> argv = [] \<or> trim_space (hd argv) = []) \<and>
   (r_decision (classify argv) = Allow \<longleftrightarrow> r_category (classify argv) = ''DEFAULT'') \<and>
   (r_decision (classify argv) = ApprovalRequired \<longleftrightarrow> approval_for (trim_space (hd argv)) argv (classify argv))"
proof (cases "argv = [] \<or> trim_space (hd argv) = []")
  case True
  with classify_blank [OF True] show ?thesis by (auto dest: approval_for_decision)
next
  case False
  with classify_not_blank [OF False] show ?thesis by (auto dest: approval_for_decision)
qed

text \<open>
  C36. A command that runs without approval is none of the launchers, code carriers and remote tools, and, unless its
  base name is \<open>sysrc\<close>, an absolute executable is a clean path directly inside a system binary directory.
\<close>
theorem allowed_is_plain:
  assumes "r_decision (classify (argv0 # args)) = Allow"
  shows "\<not> is_privilege_launcher (path_base (trim_space argv0)) \<and>
         \<not> is_arbitrary_code_carrier (path_base (trim_space argv0)) \<and>
         \<not> is_remote_exec_tool (path_base (trim_space argv0)) \<and>
         (path_base (trim_space argv0) = ''sysrc'' \<or> \<not> is_abs (trim_space argv0) \<or>
          trusted_system_executable_path (trim_space argv0))"
proof -
  have "trim_space argv0 \<noteq> []" using assms classify_blank [of "argv0 # args"] by auto
  then show ?thesis
  proof (rule classify_cases [OF refl, of argv0 args])
    assume "path_base (trim_space argv0) = ''sysrc''"
    moreover have "\<not> is_privilege_launcher ''sysrc'' \<and> \<not> is_arbitrary_code_carrier ''sysrc'' \<and> \<not> is_remote_exec_tool ''sysrc''"
      by code_simp
    ultimately show ?thesis by simp
  qed (use assms in \<open>auto dest: approval_for_decision\<close>)
qed

theorem allowed_is_plain_witness:
  "r_decision (classify [''/usr/bin/uptime'']) = Allow \<and> trusted_system_executable_path ''/usr/bin/uptime''"
proof -
  have e: "trim_space ''/usr/bin/uptime'' = ''/usr/bin/uptime''" "path_base ''/usr/bin/uptime'' = ''uptime''"
      "is_abs ''/usr/bin/uptime''" "trusted_system_executable_path ''/usr/bin/uptime''"
      "\<not> is_privilege_launcher ''uptime''" "\<not> is_arbitrary_code_carrier ''uptime''" "\<not> is_remote_exec_tool ''uptime''"
    by code_simp+
  have a: "r_decision (classify [''/usr/bin/uptime'']) = Allow"
    by (simp add: classify_def classify_rest_def e Let_def allow_result_def classifier_defs)
  from a e allowed_is_plain [OF a] show ?thesis by simp
qed

lemma semantic_scope_inj:
  assumes "valid_utf8 e" and "valid_utf8 e'" and "semantic_scope e r = semantic_scope e' r'"
  shows "e = e' \<or> sha256_collision (semantic_payload e r) (semantic_payload e' r')"
proof (cases "semantic_payload e r = semantic_payload e' r'")
  case True
  then have "json_string e @ '','' @ json_string ''resource'' @ '':'' @ json_string r @ ''}'' =
      json_string e' @ '','' @ json_string ''resource'' @ '':'' @ json_string r' @ ''}''"
    by (simp add: semantic_payload_def)
  with assms show ?thesis by (blast dest: json_string_inj)
next
  case False
  with assms show ?thesis by (simp add: semantic_scope_def sha256_collision_def)
qed

lemma exact_scope_inj:
  assumes "list_all valid_utf8 argv" and "list_all valid_utf8 argv'" and "exact_scope argv = exact_scope argv'"
  shows "argv = argv' \<or> sha256_collision (json_strings argv) (json_strings argv')"
  using assms json_strings_inj [OF assms(1,2), of "[]" "[]"]
  by (auto simp: exact_scope_def sha256_collision_def)

lemma exact_not_semantic: "exact_scope argv \<noteq> semantic_scope e r" "semantic_scope e r \<noteq> exact_scope argv"
  by (simp_all add: exact_scope_def semantic_scope_def)

text \<open>
  A scope key identifies what was approved: two commands that need approval and have the same scope key are the same
  argv, or are both service operations, or exhibit a SHA-256 collision between their argv encodings. Arguments are
  UTF-8, as every argv decoded from JSON is; the encoder would merge distinct invalid bytes.
\<close>
theorem scope_key_binds_argv:
  assumes "r_decision (classify argv) = ApprovalRequired" and "r_decision (classify argv') = ApprovalRequired"
    and "list_all valid_utf8 argv" and "list_all valid_utf8 argv'"
    and "r_scope_key (classify argv) = r_scope_key (classify argv')"
  shows "argv = argv' \<or>
         service_category (r_category (classify argv)) \<and> service_category (r_category (classify argv')) \<or>
         sha256_collision (json_strings argv) (json_strings argv')"
proof -
  have "approval_for (trim_space (hd argv)) argv (classify argv)" "approval_for (trim_space (hd argv')) argv' (classify argv')"
    using assms(1,2) by (simp_all add: classify_approval)
  with assms(5) show ?thesis
    using exact_scope_inj [OF assms(3,4)] by (auto simp: approval_for_def exact_not_semantic split: if_splits)
qed

theorem scope_key_binds_argv_witness:
  "r_decision (classify [''rm'', ''-r'', ''/srv'']) = ApprovalRequired \<and>
   ([''rm'', ''-r'', ''/srv''] = [''rm'', ''-r'', ''/srv''] \<or>
    service_category (r_category (classify [''rm'', ''-r'', ''/srv''])) \<or>
    sha256_collision (json_strings [''rm'', ''-r'', ''/srv'']) (json_strings [''rm'', ''-r'', ''/srv'']))"
proof -
  have v: "list_all valid_utf8 [''rm'', ''-r'', ''/srv'']" by code_simp
  have e: "trim_space ''rm'' = ''rm''" "path_base ''rm'' = ''rm''" "\<not> is_privilege_launcher ''rm''" by code_simp+
  have "r_decision (classify [''rm'', ''-r'', ''/srv'']) = ApprovalRequired"
    by (simp add: classify_def e Let_def classify_base_def approval_def)
  then show ?thesis using scope_key_binds_argv [OF _ _ v v] by blast
qed

text \<open>
  Every command that needs the shell capability (arbitrary code, privilege launchers, remote execution) also needs
  an approval bound to the exact argv, and that approval is never open to a session decision.
\<close>
theorem shell_class_needs_exact_approval:
  assumes "requires_shell (classify argv)"
  shows "r_decision (classify argv) = ApprovalRequired \<and> r_scope_key (classify argv) = exact_scope argv \<and>
         \<not> session_approval_allowed (classify argv)"
proof -
  have shell: "r_category (classify argv) \<in> set [''ARBITRARY_CODE'', ''PRIVILEGE_LAUNCHER'', ''REMOTE_EXEC'']"
    using assms by (simp add: requires_shell_def requires_shell_category_def)
  then have "\<not> (argv = [] \<or> trim_space (hd argv) = [])" using classify_blank by fastforce
  with shell have "approval_for (trim_space (hd argv)) argv (classify argv)" using classify_not_blank by fastforce
  moreover have "\<not> service_category (r_category (classify argv))" using shell by (auto simp: service_category_def)
  ultimately show ?thesis using assms
    by (simp add: approval_for_def session_approval_allowed_def session_approval_allowed_category_def requires_shell_def)
qed

theorem shell_class_needs_exact_approval_witness:
  "requires_shell (classify [''sudo'', ''id'']) \<and> r_decision (classify [''sudo'', ''id'']) = ApprovalRequired"
proof -
  have e: "trim_space ''sudo'' = ''sudo''" "path_base ''sudo'' = ''sudo''" "is_privilege_launcher ''sudo''" by code_simp+
  have "requires_shell (classify [''sudo'', ''id''])"
    by (simp add: classify_def e Let_def approval_def requires_shell_def requires_shell_category_def)
  then show ?thesis using shell_class_needs_exact_approval by blast
qed

lemma contains_at:
  "list_all (\<lambda>j. args ! (i + j) = seq ! j) [0..<length seq] \<and> i + length seq \<le> length args \<longleftrightarrow>
   (\<exists>xs ys. args = xs @ seq @ ys \<and> length xs = i)"
proof
  assume a: "list_all (\<lambda>j. args ! (i + j) = seq ! j) [0..<length seq] \<and> i + length seq \<le> length args"
  then have "take (length seq) (drop i args) = seq" by (intro nth_equalityI) (auto simp: list_all_iff)
  then have "args = take i args @ seq @ drop (length seq) (drop i args)" by (metis append_take_drop_id)
  then show "\<exists>xs ys. args = xs @ seq @ ys \<and> length xs = i" using a by (metis add_leD1 length_take min.absorb2)
next
  assume "\<exists>xs ys. args = xs @ seq @ ys \<and> length xs = i"
  then show "list_all (\<lambda>j. args ! (i + j) = seq ! j) [0..<length seq] \<and> i + length seq \<le> length args"
    by (auto simp: list_all_iff nth_append)
qed

text \<open>
  \<open>contains\<close> (and \<open>containsSequence\<close>) finds exactly the contiguous occurrences of a nonempty sequence of arguments.
\<close>
theorem contains_iff_sublist:
  "contains args seq \<longleftrightarrow> seq \<noteq> [] \<and> (\<exists>before after. args = before @ seq @ after)"
proof (cases "length seq = 0 \<or> length args < length seq")
  case True
  then show ?thesis by (auto simp: contains_def)
next
  case False
  then have "i \<in> set [0..<length args - length seq + 1] \<longleftrightarrow> i + length seq \<le> length args" for i by auto
  with False have "contains args seq \<longleftrightarrow>
      (\<exists>i. list_all (\<lambda>j. args ! (i + j) = seq ! j) [0..<length seq] \<and> i + length seq \<le> length args)"
    unfolding contains_def list_ex_iff by blast
  with False show ?thesis unfolding contains_at by auto
qed

text \<open>
  A read-only query of any executable named \<open>sysrc\<close> is allowed without approval whatever directory it is in: the
  check of untrusted absolute paths comes after the \<open>sysrc\<close> rule.
\<close>
theorem sysrc_path_not_checked:
  assumes "sysrc_read_only args"
  shows "r_decision (classify (''/tmp/sysrc'' # args)) = Allow \<and> \<not> trusted_system_executable_path ''/tmp/sysrc''"
proof -
  have e: "trim_space ''/tmp/sysrc'' = ''/tmp/sysrc''" "path_base ''/tmp/sysrc'' = ''sysrc''"
    "\<not> is_privilege_launcher ''sysrc''" "\<not> trusted_system_executable_path ''/tmp/sysrc''" by code_simp+
  then show ?thesis
    using assms by (simp add: classify_def classify_rest_def Let_def allow_result_def classify_base_def)
qed

theorem sysrc_path_not_checked_witness:
  "sysrc_read_only [''hostname''] \<and> r_decision (classify [''/tmp/sysrc'', ''hostname'']) = Allow"
proof -
  have "sysrc_read_only [''hostname'']" by code_simp
  then show ?thesis using sysrc_path_not_checked by blast
qed

end
