(* ===== verification/Approval.thy ===== *)
theory Approval
  imports Risk Transition_System Go_Strings
begin

text \<open>
  The file-backed approval store (\<open>internal/approval/approval.go\<close>): requests for approval, their operator
  decisions and the consumption of an \<open>allow_once\<close>. The clock and the random identifier of an operation
  are its arguments, as is the fault of its write; an operation returns the new store and a result or an error.
\<close>

section \<open>Data\<close>

datatype ap_status = Ap_Pending | Ap_Decided | Ap_Consumed | Ap_Other_Status string

datatype ap_decision = Ap_No_Decision | Ap_Deny | Ap_AllowOnce | Ap_AllowSession | Ap_Other_Decision string

record ap_request =
  ar_id :: string
  ar_grant_id :: string
  ar_agent :: string
  ar_target :: string
  ar_argv :: "string list"
  ar_category :: string
  ar_risk_level :: risk_level
  ar_scope_key :: string
  ar_risk_reason :: string
  ar_agent_reason :: string
  ar_session_allowed :: bool
  ar_status :: ap_status
  ar_decision :: ap_decision
  ar_created_at :: time
  ar_decided_at :: "time option"
  ar_decision_actor :: string

record ap_store =
  ap_requests :: "(string \<times> ap_request) list"
  ap_disk :: "ap_request list option"

section \<open>Operations\<close>

definition same_scope :: "ap_request \<Rightarrow> ap_request \<Rightarrow> bool" where
  "same_scope a b \<longleftrightarrow> ar_grant_id a = ar_grant_id b \<and> ar_target a = ar_target b \<and>
     ar_category a = ar_category b \<and> ar_scope_key a = ar_scope_key b"

definition ap_random_id :: "string option \<Rightarrow> err + string" where
  "ap_random_id rnd = (case rnd of None \<Rightarrow> Inl Err_Rand | Some b \<Rightarrow> Inr (hex_encode b))"

definition ap_open :: "string \<Rightarrow> ap_request list option \<Rightarrow> err + ap_store" where
  "ap_open path file =
     (if path = [] then Inl (Err_Msg ''approval store path is empty'')
      else (case file of
          None \<Rightarrow> Inr \<lparr>ap_requests = [], ap_disk = None\<rparr>
        | Some requests \<Rightarrow> Inr
            \<lparr>ap_requests = fold (\<lambda>req. AList.update (ar_id req)
                 (req\<lparr>ar_session_allowed := session_approval_allowed_category (ar_category req)\<rparr>)) requests [],
             ap_disk = Some requests\<rparr>))"

definition ap_persist :: "fs_fault \<Rightarrow> ap_store \<Rightarrow> ap_store \<times> err option" where
  "ap_persist fault s =
     (case atomic_replace fault (ap_disk s)
             (Some (sort_by (\<lambda>a b. ar_created_at a < ar_created_at b) (map snd (ap_requests s)))) of
        (d, e) \<Rightarrow> (s\<lparr>ap_disk := d\<rparr>, e))"

definition ap_new ::
  "ap_request \<Rightarrow> string option \<Rightarrow> time \<Rightarrow> fs_fault \<Rightarrow> ap_store \<Rightarrow> ap_store \<times> (err + ap_request \<times> bool)" where
  "ap_new req rnd now fault s =
     (case find (\<lambda>existing. same_scope existing req \<and> ar_status existing = Ap_Pending) (map snd (ap_requests s)) of
        Some existing \<Rightarrow> (s, Inr (existing, False))
      | None \<Rightarrow>
         (case ap_random_id rnd of
            Inl e \<Rightarrow> (s, Inl e)
          | Inr i \<Rightarrow>
             (let req1 = req\<lparr>ar_id := i, ar_session_allowed := session_approval_allowed_category (ar_category req),
                    ar_status := Ap_Pending, ar_decision := Ap_No_Decision, ar_created_at := now\<rparr> in
              case ap_persist fault (s\<lparr>ap_requests := AList.update i req1 (ap_requests s)\<rparr>) of
                (s1, Some e) \<Rightarrow> (s1\<lparr>ap_requests := AList.delete i (ap_requests s1)\<rparr>, Inl e)
              | (s1, None) \<Rightarrow> (s1, Inr (req1, True)))))"

definition ap_put :: "string \<Rightarrow> ap_request \<Rightarrow> ap_request \<Rightarrow> fs_fault \<Rightarrow> ap_store \<Rightarrow> ap_store \<times> (err + ap_request)" where
  "ap_put i old req fault s =
     (case ap_persist fault (s\<lparr>ap_requests := AList.update i req (ap_requests s)\<rparr>) of
        (s1, Some e) \<Rightarrow> (s1\<lparr>ap_requests := AList.update i old (ap_requests s1)\<rparr>, Inl e)
      | (s1, None) \<Rightarrow> (s1, Inr req))"

definition ap_decide ::
  "string \<Rightarrow> ap_decision \<Rightarrow> string \<Rightarrow> time \<Rightarrow> fs_fault \<Rightarrow> ap_store \<Rightarrow> ap_store \<times> (err + ap_request)" where
  "ap_decide i decision actor now fault s =
     (if decision \<noteq> Ap_Deny \<and> decision \<noteq> Ap_AllowOnce \<and> decision \<noteq> Ap_AllowSession
      then (s, Inl (Err_Msg ''invalid approval decision''))
      else (case map_of (ap_requests s) i of
          None \<Rightarrow> (s, Inl (Err_Msg ''approval not found''))
        | Some req \<Rightarrow>
            if ar_status req \<noteq> Ap_Pending then (s, Inl (Err_Msg ''approval is no longer pending''))
            else if decision = Ap_AllowSession \<and> \<not> session_approval_allowed_category (ar_category req)
            then (s, Inl (Err_Msg ''session approval is not allowed for this risk category; use allow_once''))
            else ap_put i req
              (req\<lparr>ar_session_allowed := session_approval_allowed_category (ar_category req), ar_status := Ap_Decided,
                  ar_decision := decision, ar_decided_at := Some now, ar_decision_actor := actor\<rparr>) fault s))"

definition ap_matches :: "string \<Rightarrow> string \<Rightarrow> string \<Rightarrow> string \<Rightarrow> ap_request \<Rightarrow> bool" where
  "ap_matches grant_id target category scope_key req \<longleftrightarrow>
     \<not> (ar_decision req = Ap_AllowSession \<and> \<not> session_approval_allowed_category (ar_category req)) \<and>
     ar_grant_id req = grant_id \<and> ar_target req = target \<and> ar_category req = category \<and>
     ar_scope_key req = scope_key \<and> ar_status req = Ap_Decided"

definition ap_match :: "string \<Rightarrow> string \<Rightarrow> string \<Rightarrow> string \<Rightarrow> ap_store \<Rightarrow> ap_request option" where
  "ap_match grant_id target category scope_key s =
     (let matches = filter (ap_matches grant_id target category scope_key) (map snd (ap_requests s)) in
      if matches = [] then None
      else Some (hd (sort_by (\<lambda>a b. ar_created_at b < ar_created_at a) matches)))"

definition ap_consume_allow_once :: "string \<Rightarrow> fs_fault \<Rightarrow> ap_store \<Rightarrow> ap_store \<times> (err + ap_request)" where
  "ap_consume_allow_once i fault s =
     (case map_of (ap_requests s) i of
        None \<Rightarrow> (s, Inl (Err_Msg ''approval not found''))
      | Some req \<Rightarrow>
          if ar_status req = Ap_Consumed \<and> ar_decision req = Ap_AllowOnce then (s, Inr req)
          else if ar_status req \<noteq> Ap_Decided \<or> ar_decision req \<noteq> Ap_AllowOnce
          then (s, Inl (Err_Msg ''approval is not a consumable allow-once decision''))
          else ap_put i req (req\<lparr>ar_status := Ap_Consumed\<rparr>) fault s)"

definition ap_get :: "string \<Rightarrow> ap_store \<Rightarrow> ap_request option" where
  "ap_get i s = map_of (ap_requests s) i"

definition ap_match_and_consume ::
  "string \<Rightarrow> string \<Rightarrow> string \<Rightarrow> string \<Rightarrow> fs_fault \<Rightarrow> ap_store \<Rightarrow> ap_store \<times> (err + (ap_decision \<times> string) option)" where
  "ap_match_and_consume grant_id target category scope_key fault s =
     (case ap_match grant_id target category scope_key s of
        None \<Rightarrow> (s, Inr None)
      | Some req \<Rightarrow>
          if ar_decision req = Ap_AllowOnce then
            (case ap_consume_allow_once (ar_id req) fault s of
               (s1, Inl e) \<Rightarrow> (s1, Inl e)
             | (s1, Inr _) \<Rightarrow> (s1, Inr (Some (ar_decision req, ar_id req))))
          else (s, Inr (Some (ar_decision req, ar_id req))))"

definition ap_pending :: "ap_store \<Rightarrow> ap_request list" where
  "ap_pending s = sort_by (\<lambda>a b. ar_created_at a < ar_created_at b)
     (filter (\<lambda>req. ar_status req = Ap_Pending) (map snd (ap_requests s)))"

definition ap_list :: "ap_store \<Rightarrow> ap_request list" where
  "ap_list s = sort_by (\<lambda>a b. newer (ar_created_at a, ar_id a) (ar_created_at b, ar_id b))
     (map (\<lambda>(i, req). req\<lparr>ar_session_allowed := session_approval_allowed_category (ar_category req)\<rparr>) (ap_requests s))"

section \<open>The abstract machine\<close>

text \<open>
  What the store promises: a request is added as pending when no request of its scope is pending, a pending request
  is decided once, and an \<open>allow_once\<close> decision is consumed.
\<close>

definition valid_decision :: "string \<Rightarrow> ap_decision \<Rightarrow> bool" where
  "valid_decision category d \<longleftrightarrow>
     d = Ap_Deny \<or> d = Ap_AllowOnce \<or> d = Ap_AllowSession \<and> session_approval_allowed_category category"

inductive ap_update :: "ap_store \<Rightarrow> string \<Rightarrow> ap_request \<Rightarrow> bool" where
  add: "map_of (ap_requests s) i = None \<Longrightarrow> ar_id r = i \<Longrightarrow> ar_status r = Ap_Pending \<Longrightarrow> ar_decision r = Ap_No_Decision \<Longrightarrow>
    ar_session_allowed r = session_approval_allowed_category (ar_category r) \<Longrightarrow>
    \<forall>q \<in> snd ` set (ap_requests s). \<not> (same_scope q r \<and> ar_status q = Ap_Pending) \<Longrightarrow> ap_update s i r"
| decide: "map_of (ap_requests s) i = Some old \<Longrightarrow> ar_status old = Ap_Pending \<Longrightarrow> valid_decision (ar_category old) d \<Longrightarrow>
    r = old\<lparr>ar_session_allowed := session_approval_allowed_category (ar_category old), ar_status := Ap_Decided,
            ar_decision := d, ar_decided_at := Some now, ar_decision_actor := actor\<rparr> \<Longrightarrow> ap_update s i r"
| consume: "map_of (ap_requests s) i = Some old \<Longrightarrow> ar_status old = Ap_Decided \<Longrightarrow> ar_decision old = Ap_AllowOnce \<Longrightarrow>
    r = old\<lparr>ar_status := Ap_Consumed\<rparr> \<Longrightarrow> ap_update s i r"

inductive_cases ap_updateE: "ap_update s i r"

definition ap_written :: "string \<Rightarrow> ap_request \<Rightarrow> ap_store \<Rightarrow> ap_store" where
  "ap_written i r s = s\<lparr>ap_requests := AList.update i r (ap_requests s),
     ap_disk := Some (sort_by (\<lambda>a b. ar_created_at a < ar_created_at b) (map snd (AList.update i r (ap_requests s))))\<rparr>"

lemma ap_written_requests [simp]: "ap_requests (ap_written i r s) = AList.update i r (ap_requests s)"
  by (simp add: ap_written_def)

text \<open>An operation does nothing, or writes one record, in memory and on disk.\<close>

definition ap_new_id :: "string option \<Rightarrow> ap_store \<Rightarrow> bool" where
  "ap_new_id rnd s \<longleftrightarrow> (case rnd of None \<Rightarrow> True | Some b \<Rightarrow> map_of (ap_requests s) (hex_encode b) = None)"

definition ap_fresh :: "string \<Rightarrow> time \<Rightarrow> ap_request \<Rightarrow> ap_request" where
  "ap_fresh b now req = req\<lparr>ar_id := hex_encode b, ar_session_allowed := session_approval_allowed_category (ar_category req),
     ar_status := Ap_Pending, ar_decision := Ap_No_Decision, ar_created_at := now\<rparr>"

definition ap_scope_pending :: "ap_request \<Rightarrow> ap_store \<Rightarrow> ap_request option" where
  "ap_scope_pending req s =
     find (\<lambda>existing. same_scope existing req \<and> ar_status existing = Ap_Pending) (map snd (ap_requests s))"

lemma ap_new_eq:
  assumes "ap_new_id rnd s"
  shows "ap_new req rnd now fault s =
    (case ap_scope_pending req s of Some existing \<Rightarrow> (s, Inr (existing, False))
     | None \<Rightarrow> (case rnd of None \<Rightarrow> (s, Inl Err_Rand)
        | Some b \<Rightarrow> (case fault of Some _ \<Rightarrow> (s, Inl Err_IO)
           | None \<Rightarrow> (ap_written (hex_encode b) (ap_fresh b now req) s, Inr (ap_fresh b now req, True)))))"
  using assms
  by (auto simp: ap_new_def ap_scope_pending_def ap_random_id_def ap_persist_def ap_new_id_def ap_written_def ap_fresh_def
      delete_update_absent Let_def split: option.splits)

lemma ap_put_eq:
  assumes "map_of (ap_requests s) i = Some old"
  shows "ap_put i old r fault s = (case fault of Some _ \<Rightarrow> (s, Inl Err_IO) | None \<Rightarrow> (ap_written i r s, Inr r))"
  using assms by (simp add: ap_put_def ap_persist_def ap_written_def update_same split: option.split)

lemma ap_fresh_update:
  assumes "ap_scope_pending req s = None" and "map_of (ap_requests s) (hex_encode b) = None"
  shows "ap_update s (hex_encode b) (ap_fresh b now req)"
  using assms by (intro add) (auto simp: ap_fresh_def ap_scope_pending_def find_None_iff same_scope_def)

lemma ap_new_refines:
  assumes "ap_new_id rnd s"
  shows "(\<exists>r. ap_new req rnd now fault s = (ap_written (ar_id r) r s, Inr (r, True)) \<and> ap_update s (ar_id r) r) \<or>
         fst (ap_new req rnd now fault s) = s"
proof (cases "ap_scope_pending req s = None \<and> rnd \<noteq> None \<and> fault = None")
  case True
  then obtain b where b: "rnd = Some b" by auto
  with assms True have "ap_update s (hex_encode b) (ap_fresh b now req)"
    by (intro ap_fresh_update) (simp_all add: ap_new_id_def)
  moreover have "ap_new req rnd now fault s = (ap_written (hex_encode b) (ap_fresh b now req) s, Inr (ap_fresh b now req, True))"
    unfolding ap_new_eq [OF assms] using True b by simp
  moreover have "ar_id (ap_fresh b now req) = hex_encode b" by (simp add: ap_fresh_def)
  ultimately show ?thesis by metis
next
  case False
  then show ?thesis by (auto simp: ap_new_eq [OF assms] split: option.splits)
qed

lemma ap_decide_refines:
  "(\<exists>r. ap_decide i d actor now fault s = (ap_written i r s, Inr r) \<and> ap_update s i r \<and> ar_decision r = d) \<or>
   (\<exists>e. ap_decide i d actor now fault s = (s, Inl e))"
proof (cases "map_of (ap_requests s) i")
  case None
  then show ?thesis by (simp add: ap_decide_def)
next
  case (Some old)
  show ?thesis
  proof (cases "ar_status old = Ap_Pending \<and> valid_decision (ar_category old) d \<and> fault = None")
    case True
    then show ?thesis
      using ap_put_eq [OF Some, of _ fault] decide [OF Some _ _ refl, of d actor now] Some
      by (auto simp: ap_decide_def valid_decision_def)
  next
    case False
    then show ?thesis
      using ap_put_eq [OF Some, of _ fault] Some
      by (auto simp: ap_decide_def valid_decision_def split: option.splits)
  qed
qed

lemma ap_consume_refines:
  "(\<exists>r. ap_consume_allow_once i fault s = (ap_written i r s, Inr r) \<and> ap_update s i r \<and> ar_status r = Ap_Consumed) \<or>
   (\<exists>r. ap_consume_allow_once i fault s = (s, Inr r) \<and> map_of (ap_requests s) i = Some r \<and> ar_status r = Ap_Consumed) \<or>
   (\<exists>e. ap_consume_allow_once i fault s = (s, Inl e))"
proof (cases "map_of (ap_requests s) i")
  case None
  then show ?thesis by (simp add: ap_consume_allow_once_def)
next
  case (Some old)
  then show ?thesis
    using ap_put_eq [OF Some, of "old\<lparr>ar_status := Ap_Consumed\<rparr>" fault] consume [OF Some _ _ refl]
    by (cases fault) (auto simp: ap_consume_allow_once_def)
qed

inductive ap_step :: "ap_store \<Rightarrow> ap_store \<Rightarrow> bool" where
  new: "ap_new_id rnd s \<Longrightarrow> ap_step s (fst (ap_new req rnd now fault s))"
| decide: "ap_step s (fst (ap_decide i d actor now fault s))"
| consume: "ap_step s (fst (ap_consume_allow_once i fault s))"

lemma ap_step_cases:
  assumes "ap_step s t"
  shows "t = s \<or> (\<exists>i r. t = ap_written i r s \<and> ap_update s i r)"
  using assms
proof cases
  case (new rnd req now fault)
  then show ?thesis using ap_new_refines [OF new(2), of req now fault] by (metis fst_conv)
next
  case (decide i d actor now fault)
  then show ?thesis using ap_decide_refines [of i d actor now fault s] by (metis fst_conv)
next
  case (consume i fault)
  then show ?thesis using ap_consume_refines [of i fault s] by (metis fst_conv)
qed

section \<open>The invariant\<close>

definition ap_request_ok :: "ap_request \<Rightarrow> bool" where
  "ap_request_ok r \<longleftrightarrow> ar_session_allowed r = session_approval_allowed_category (ar_category r) \<and>
     (case ar_status r of
        Ap_Pending \<Rightarrow> ar_decision r = Ap_No_Decision
      | Ap_Decided \<Rightarrow> valid_decision (ar_category r) (ar_decision r)
      | Ap_Consumed \<Rightarrow> ar_decision r = Ap_AllowOnce
      | Ap_Other_Status _ \<Rightarrow> False)"

definition ap_wf :: "ap_store \<Rightarrow> bool" where
  "ap_wf s \<longleftrightarrow> unique_keys (ap_requests s) \<and>
     (\<forall>i r. map_of (ap_requests s) i = Some r \<longrightarrow> ar_id r = i \<and> ap_request_ok r) \<and>
     (\<forall>i j r q. map_of (ap_requests s) i = Some r \<longrightarrow> map_of (ap_requests s) j = Some q \<longrightarrow>
        ar_status r = Ap_Pending \<longrightarrow> ar_status q = Ap_Pending \<longrightarrow> same_scope r q \<longrightarrow> i = j)"

definition ap_synced :: "ap_store \<Rightarrow> bool" where
  "ap_synced s \<longleftrightarrow> ap_wf s \<and>
     (case ap_disk s of None \<Rightarrow> ap_requests s = [] | Some rs \<Rightarrow> mset rs = mset (map snd (ap_requests s)))"

lemma ap_wfD:
  assumes "ap_wf s" and "map_of (ap_requests s) i = Some r"
  shows "ar_id r = i" and "ap_request_ok r"
  using assms by (auto simp: ap_wf_def)

lemma ap_update_id:
  assumes "ap_update s i r" and "ap_wf s"
  shows "ar_id r = i \<and> ap_request_ok r"
  using assms(1)
proof cases
  case add
  then show ?thesis by (simp add: ap_request_ok_def)
next
  case (decide old d now actor)
  with ap_wfD [OF assms(2) decide(1)] show ?thesis by (simp add: ap_request_ok_def)
next
  case (consume old)
  with ap_wfD [OF assms(2) consume(1)] show ?thesis by (simp add: ap_request_ok_def)
qed

lemma ap_update_pending:
  assumes "ap_update s i r" and "ar_status r = Ap_Pending" and "map_of (ap_requests s) j = Some q"
    and "ar_status q = Ap_Pending"
  shows "\<not> same_scope q r"
  using assms(1)
proof cases
  case add
  with assms(3,4) show ?thesis by (force dest: map_of_SomeD)
qed (use assms(2) in auto)

lemma same_scope_sym: "same_scope a b \<Longrightarrow> same_scope b a"
  by (auto simp: same_scope_def)

lemma ap_wf_written:
  assumes "ap_wf s" and "ap_update s i r"
  shows "ap_wf (ap_written i r s)"
proof -
  note id = ap_update_id [OF assms(2,1)]
  have "\<not> same_scope q r" "\<not> same_scope r q"
    if "ar_status r = Ap_Pending" "map_of (ap_requests s) j = Some q" "ar_status q = Ap_Pending" for j q
    using ap_update_pending [OF assms(2) that] by (auto dest: same_scope_sym)
  with assms(1) id show ?thesis by (auto simp: ap_wf_def)
qed

lemma ap_synced_written:
  assumes "ap_wf s" and "ap_update s i r"
  shows "ap_synced (ap_written i r s)"
  using ap_wf_written [OF assms] by (simp add: ap_synced_def ap_written_def)

interpretation ap_run: stable_predicate ap_step ap_synced
proof
  fix s t
  assume "ap_step s t" and "ap_synced s"
  then show "ap_synced t"
    using ap_step_cases [of s t] ap_synced_written [of s] by (auto simp: ap_synced_def)
qed

section \<open>Records only move forward\<close>

fun ap_rank :: "ap_status \<Rightarrow> nat" where
  "ap_rank Ap_Pending = 0" | "ap_rank Ap_Decided = 1" | "ap_rank Ap_Consumed = 2" | "ap_rank (Ap_Other_Status _) = 3"

definition ap_later :: "ap_request \<Rightarrow> ap_request \<Rightarrow> bool" where
  "ap_later r q \<longleftrightarrow>
     ar_id q = ar_id r \<and> ar_grant_id q = ar_grant_id r \<and> ar_agent q = ar_agent r \<and> ar_target q = ar_target r \<and>
     ar_argv q = ar_argv r \<and> ar_category q = ar_category r \<and> ar_scope_key q = ar_scope_key r \<and>
     ar_created_at q = ar_created_at r \<and> ap_rank (ar_status r) \<le> ap_rank (ar_status q) \<and>
     (ar_status r \<noteq> Ap_Pending \<longrightarrow>
        ar_decision q = ar_decision r \<and> ar_decided_at q = ar_decided_at r \<and> ar_decision_actor q = ar_decision_actor r)"

lemma ap_later_refl: "ap_later r r"
  by (simp add: ap_later_def)

lemma ap_later_trans: "ap_later r q \<Longrightarrow> ap_later q p \<Longrightarrow> ap_later r p"
  by (cases "ar_status r"; cases "ar_status q") (auto simp: ap_later_def)

definition ap_history :: "ap_store \<Rightarrow> ap_store \<Rightarrow> bool" where
  "ap_history s t \<longleftrightarrow> (\<forall>i r. map_of (ap_requests s) i = Some r \<longrightarrow> (\<exists>q. map_of (ap_requests t) i = Some q \<and> ap_later r q))"

lemma ap_update_later:
  assumes "ap_update s i r" and "map_of (ap_requests s) i = Some old"
  shows "ap_later old r"
  using assms(1) by (cases rule: ap_updateE) (use assms(2) in \<open>auto simp: ap_later_def\<close>)

interpretation ap_forward: monotone_steps ap_step ap_history
proof
  show "ap_history s s" for s by (auto simp: ap_history_def ap_later_refl)
  show "ap_history s u" if "ap_history s t" "ap_history t u" for s t u
    using that unfolding ap_history_def by (meson ap_later_trans)
  show "ap_history s t" if "ap_step s t" for s t
    using ap_step_cases [OF that] by (auto simp: ap_history_def ap_later_refl intro: ap_update_later)
qed

section \<open>Properties\<close>

text \<open>
  C37. The history of an approval is immutable: along every sequence of requests, decisions and consumptions, with any
  clock and any write failures, a request never disappears, its grant, target, argv, category and scope never change, its
  status only moves from pending to decided to consumed, and once decided neither its decision nor its actor changes.
\<close>
theorem approval_history_immutable:
  assumes "ap_step\<^sup>*\<^sup>* s t" and "ap_get i s = Some r"
  shows "\<exists>q. ap_get i t = Some q \<and> ap_later r q"
  using ap_forward.steps_rel [OF assms(1)] assms(2) by (simp add: ap_history_def ap_get_def)

definition demo_approval :: ap_request where
  "demo_approval = \<lparr>ar_id = ''0a'', ar_grant_id = ''g'', ar_agent = ''agent'', ar_target = ''host'', ar_argv = [''rm'', ''f''],
     ar_category = ''FILESYSTEM_DELETE'', ar_risk_level = High, ar_scope_key = ''k'', ar_risk_reason = [], ar_agent_reason = [],
     ar_session_allowed = True, ar_status = Ap_Decided, ar_decision = Ap_AllowOnce, ar_created_at = 5,
     ar_decided_at = Some 6, ar_decision_actor = ''op''\<rparr>"

definition demo_approvals :: ap_store where
  "demo_approvals = \<lparr>ap_requests = [(''0a'', demo_approval)], ap_disk = Some [demo_approval]\<rparr>"

lemma demo_approvals_synced: "ap_synced demo_approvals"
proof -
  have "ap_request_ok demo_approval" by code_simp
  then show ?thesis by (simp add: ap_synced_def ap_wf_def demo_approvals_def demo_approval_def unique_keys_def)
qed

theorem approval_history_immutable_witness:
  "\<exists>q. ap_get ''0a'' (fst (ap_consume_allow_once ''0a'' None demo_approvals)) = Some q \<and> ap_later demo_approval q"
proof -
  have "ap_step\<^sup>*\<^sup>* demo_approvals (fst (ap_consume_allow_once ''0a'' None demo_approvals))"
    by (rule r_into_rtranclp) (rule ap_step.consume)
  moreover have "ap_get ''0a'' demo_approvals = Some demo_approval" by (simp add: ap_get_def demo_approvals_def)
  ultimately show ?thesis by (rule approval_history_immutable)
qed

lemma ap_values:
  assumes "ap_wf s"
  shows "r \<in> snd ` set (ap_requests s) \<longleftrightarrow> ap_get (ar_id r) s = Some r"
proof -
  have "unique_keys (ap_requests s)" using assms by (simp add: ap_wf_def)
  then have "r \<in> snd ` set (ap_requests s) \<longleftrightarrow> (\<exists>k. map_of (ap_requests s) k = Some r)" by (rule values_iff)
  also have "\<dots> \<longleftrightarrow> map_of (ap_requests s) (ar_id r) = Some r" using ap_wfD(1) [OF assms] by blast
  finally show ?thesis by (simp add: ap_get_def)
qed

lemma ap_match_Some:
  assumes "ap_match g t c k s = Some r"
  shows "r \<in> snd ` set (ap_requests s)" and "ap_matches g t c k r"
    and "q \<in> snd ` set (ap_requests s) \<Longrightarrow> ap_matches g t c k q \<Longrightarrow> ar_created_at q \<le> ar_created_at r"
proof -
  let ?ms = "filter (ap_matches g t c k) (map snd (ap_requests s))" and ?lt = "\<lambda>a b. ar_created_at b < ar_created_at a"
  have r: "?ms \<noteq> []" "r = hd (sort_by ?lt ?ms)"
    using assms by (simp_all add: ap_match_def Let_def split: if_splits)
  have order: "transp (\<lambda>a b. \<not> ?lt b a)" "asymp ?lt" by (auto simp: transp_def asymp_on_def)
  from r(1) obtain x where "x \<in> set ?ms" by (cases ?ms) auto
  from hd_sort_by(1) [OF order this] have "r \<in> set ?ms" by (simp add: r)
  then show "r \<in> snd ` set (ap_requests s)" "ap_matches g t c k r" by auto
  show "ar_created_at q \<le> ar_created_at r" if "q \<in> snd ` set (ap_requests s)" "ap_matches g t c k q"
    using hd_sort_by(2) [OF order, of q ?ms] that by (simp add: r)
qed

lemma ap_match_None: "ap_match g t c k s = None \<longleftrightarrow> (\<forall>r \<in> snd ` set (ap_requests s). \<not> ap_matches g t c k r)"
  by (auto simp: ap_match_def Let_def filter_empty_conv)

text \<open>
  \<open>Match\<close> returns exactly the newest applicable decision: nothing when no decided approval has this grant, target,
  category and scope key, and otherwise one that has, is not older than any other, and, if it allows the session, is of a
  category that may be approved for a session.
\<close>
theorem match_newest_decision:
  assumes "ap_wf s"
  shows "(ap_match g t c k s = None \<longleftrightarrow> (\<nexists>i r. ap_get i s = Some r \<and> ap_matches g t c k r)) \<and>
         (\<forall>r. ap_match g t c k s = Some r \<longrightarrow>
            ap_get (ar_id r) s = Some r \<and> ar_status r = Ap_Decided \<and> ar_grant_id r = g \<and> ar_target r = t \<and>
            ar_category r = c \<and> ar_scope_key r = k \<and> valid_decision c (ar_decision r) \<and>
            (\<forall>i q. ap_get i s = Some q \<longrightarrow> ap_matches g t c k q \<longrightarrow> ar_created_at q \<le> ar_created_at r))"
proof (intro conjI allI impI)
  have ids: "ap_get i s = Some r \<Longrightarrow> ap_get (ar_id r) s = Some r" for i r
    using ap_wfD(1) [OF assms] by (simp add: ap_get_def)
  then show "ap_match g t c k s = None \<longleftrightarrow> (\<nexists>i r. ap_get i s = Some r \<and> ap_matches g t c k r)"
    unfolding ap_match_None Ball_def ap_values [OF assms] by blast
  fix r
  assume m: "ap_match g t c k s = Some r"
  show get: "ap_get (ar_id r) s = Some r" using ap_match_Some(1) [OF m] by (simp add: ap_values [OF assms])
  show fields: "ar_status r = Ap_Decided" "ar_grant_id r = g" "ar_target r = t" "ar_category r = c" "ar_scope_key r = k"
    using ap_match_Some(2) [OF m] by (simp_all add: ap_matches_def)
  show "valid_decision c (ar_decision r)"
    using ap_wfD(2) [OF assms, of "ar_id r" r] get fields by (simp add: ap_get_def ap_request_ok_def)
  show "ar_created_at q \<le> ar_created_at r" if "ap_get i s = Some q" "ap_matches g t c k q" for i q
    using ap_match_Some(3) [OF m, of q] that ids by (simp add: ap_values [OF assms])
qed

theorem match_newest_decision_witness:
  "ap_match ''g'' ''host'' ''FILESYSTEM_DELETE'' ''k'' demo_approvals = Some demo_approval \<and>
   ap_get (ar_id demo_approval) demo_approvals = Some demo_approval"
proof -
  have "ap_match ''g'' ''host'' ''FILESYSTEM_DELETE'' ''k'' demo_approvals = Some demo_approval" by code_simp
  moreover have "ap_wf demo_approvals" using demo_approvals_synced by (simp add: ap_synced_def)
  ultimately show ?thesis using match_newest_decision by blast
qed

text \<open>
  A spent \<open>allow_once\<close> stays spent: once \<open>ConsumeAllowOnce\<close> succeeded, no later \<open>Match\<close> returns that approval,
  whatever is requested, decided or consumed in between.
\<close>
theorem allow_once_spent:
  assumes "ap_synced s" and "ap_consume_allow_once i fault s = (t, Inr r)" and "ap_step\<^sup>*\<^sup>* t u"
    and "ap_match g tg c k u = Some q"
  shows "ar_id q \<noteq> i"
proof
  assume i: "ar_id q = i"
  have step: "ap_step s t" using ap_step.consume [of s i fault] assms(2) by simp
  then have "ap_wf u" using ap_run.steps_keep assms(1,3) by (meson ap_synced_def converse_rtranclp_into_rtranclp)
  then have q: "ap_get i u = Some q" "ar_status q = Ap_Decided"
    using ap_match_Some(1,2) [OF assms(4)] i by (simp_all add: ap_values ap_matches_def)
  have "\<exists>r. ap_get i t = Some r \<and> ar_status r = Ap_Consumed"
    using ap_consume_refines [of i fault s] assms(2) by (auto simp: ap_get_def)
  then obtain r' where "ap_get i t = Some r'" "ar_status r' = Ap_Consumed" by blast
  with ap_forward.steps_rel [OF assms(3)] q show False by (fastforce simp: ap_history_def ap_get_def ap_later_def)
qed

definition demo_approval2 :: ap_request where
  "demo_approval2 = demo_approval\<lparr>ar_id := ''0b'', ar_scope_key := ''k2''\<rparr>"

definition demo_approvals2 :: ap_store where
  "demo_approvals2 = \<lparr>ap_requests = [(''0a'', demo_approval), (''0b'', demo_approval2)],
     ap_disk = Some [demo_approval, demo_approval2]\<rparr>"

lemma demo_approvals2_synced: "ap_synced demo_approvals2"
proof -
  have "ap_request_ok demo_approval \<and> ap_request_ok demo_approval2" by code_simp
  then show ?thesis
    by (simp add: ap_synced_def ap_wf_def demo_approvals2_def demo_approval2_def demo_approval_def unique_keys_def)
qed

theorem allow_once_spent_witness:
  "ap_match ''g'' ''host'' ''FILESYSTEM_DELETE'' ''k2'' (fst (ap_consume_allow_once ''0a'' None demo_approvals2)) =
     Some demo_approval2 \<and> ar_id demo_approval2 \<noteq> ''0a''"
proof -
  let ?t = "fst (ap_consume_allow_once ''0a'' None demo_approvals2)"
  have m: "ap_match ''g'' ''host'' ''FILESYSTEM_DELETE'' ''k2'' ?t = Some demo_approval2" by code_simp
  have "ap_consume_allow_once ''0a'' None demo_approvals2 = (?t, Inr (demo_approval\<lparr>ar_status := Ap_Consumed\<rparr>))"
    by code_simp
  from allow_once_spent [OF demo_approvals2_synced this rtranclp.rtrancl_refl m] m show ?thesis by simp
qed

text \<open>
  What the store answers is what a restart would read: after every sequence of operations from a store that agrees
  with its file, write failures included, opening the file again succeeds and gives the same approvals.
\<close>
theorem approvals_durable:
  assumes "ap_synced s" and "ap_step\<^sup>*\<^sup>* s t" and "path \<noteq> []"
  shows "\<exists>u. ap_open path (ap_disk t) = Inr u \<and> (\<forall>i. ap_get i u = ap_get i t)"
proof (cases "ap_disk t")
  case None
  then show ?thesis using ap_run.steps_keep [OF assms(2,1)] assms(3) by (simp add: ap_open_def ap_synced_def ap_get_def)
next
  case (Some rs)
  have t: "ap_wf t" "mset rs = mset (map snd (ap_requests t))"
    using ap_run.steps_keep [OF assms(2,1)] Some by (simp_all add: ap_synced_def)
  let ?f = "\<lambda>req. req\<lparr>ar_session_allowed := session_approval_allowed_category (ar_category req)\<rparr>"
  have "map_of (fold (\<lambda>req. AList.update (ar_id req) (?f req)) rs []) = map_of (ap_requests t)"
    using t ap_wfD [OF t(1)] by (intro reload_values) (simp_all add: ap_wf_def ap_request_ok_def)
  with Some assms(3) show ?thesis by (simp add: ap_open_def ap_get_def)
qed

theorem approvals_durable_witness:
  "\<exists>u. ap_open ''approvals.json'' (ap_disk (fst (ap_consume_allow_once ''0a'' (Some Sync_temp) demo_approvals))) = Inr u \<and>
     (\<forall>i. ap_get i u = ap_get i (fst (ap_consume_allow_once ''0a'' (Some Sync_temp) demo_approvals)))"
  by (rule approvals_durable [OF demo_approvals_synced r_into_rtranclp [where r = ap_step, OF ap_step.consume]]) simp

text \<open>
  \<open>MatchAndConsume\<close> spends an \<open>allow_once\<close> once per caller only when calls do not overlap: it takes the store's lock
  for the match and again for the consumption, and \<open>ConsumeAllowOnce\<close> accepts an approval that is consumed already. Two
  calls whose matches both come before either consumption both succeed on the same approval.
\<close>
theorem match_and_consume_race:
  assumes "ap_wf s" and "ap_match g t c k s = Some r" and "ar_decision r = Ap_AllowOnce"
  shows "\<exists>s1. ap_consume_allow_once (ar_id r) None s = (s1, Inr (r\<lparr>ar_status := Ap_Consumed\<rparr>)) \<and>
              ap_consume_allow_once (ar_id r) None s1 = (s1, Inr (r\<lparr>ar_status := Ap_Consumed\<rparr>)) \<and>
              snd (ap_match_and_consume g t c k None s) = Inr (Some (Ap_AllowOnce, ar_id r)) \<and>
              fst (ap_match_and_consume g t c k None s) = s1"
proof -
  have r: "map_of (ap_requests s) (ar_id r) = Some r" "ar_status r = Ap_Decided"
    using ap_match_Some(1,2) [OF assms(2)] by (simp_all add: ap_values [OF assms(1)] ap_get_def ap_matches_def)
  have "ap_consume_allow_once (ar_id r) None s =
      (ap_written (ar_id r) (r\<lparr>ar_status := Ap_Consumed\<rparr>) s, Inr (r\<lparr>ar_status := Ap_Consumed\<rparr>))"
    using r assms(3) by (simp add: ap_consume_allow_once_def ap_put_eq)
  then show ?thesis using assms(2,3) by (simp add: ap_match_and_consume_def ap_consume_allow_once_def [of _ _ "ap_written _ _ _"])
qed

theorem match_and_consume_race_witness:
  "\<exists>s1. ap_consume_allow_once ''0a'' None demo_approvals = (s1, Inr (demo_approval\<lparr>ar_status := Ap_Consumed\<rparr>)) \<and>
        ap_consume_allow_once ''0a'' None s1 = (s1, Inr (demo_approval\<lparr>ar_status := Ap_Consumed\<rparr>))"
proof -
  have "ap_match ''g'' ''host'' ''FILESYSTEM_DELETE'' ''k'' demo_approvals = Some demo_approval" by code_simp
  moreover have "ap_wf demo_approvals" using demo_approvals_synced by (simp add: ap_synced_def)
  moreover have "ar_decision demo_approval = Ap_AllowOnce" "ar_id demo_approval = ''0a''" by (simp_all add: demo_approval_def)
  ultimately show ?thesis using match_and_consume_race [of demo_approvals _ _ _ _ demo_approval] by metis
qed

end
