(* ===== verification/Execution_Job.thy ===== *)
theory Execution_Job
  imports Go_Crypto Go_JSON Transition_System
begin

text \<open>
  The execution job store (\<open>internal/executionjob\<close>): jobs bound to a command by a digest, a claim token handed to
  one worker, and an HMAC over every record. A job goes from staged through pending, claimed and running to an end.
  The clock, the random bytes and the fault of the write are arguments of each operation. This theory holds the data
  and the operations; \<open>Execution_Job_Props\<close> holds the invariant and the properties.
\<close>

section \<open>Data\<close>

datatype job_status = Staged | Pending | Claimed | Running | Succeeded | Failed | Canceled | Expired

fun status_text :: "job_status \<Rightarrow> string" where
  "status_text Staged = ''staged''"
| "status_text Pending = ''pending''"
| "status_text Claimed = ''claimed''"
| "status_text Running = ''running''"
| "status_text Succeeded = ''succeeded''"
| "status_text Failed = ''failed''"
| "status_text Canceled = ''canceled''"
| "status_text Expired = ''expired''"

record job_result =
  res_success :: bool
  res_exit_code :: int
  res_output_sha256 :: string
  res_error_kind :: string

record job =
  j_id :: string
  j_request_id :: string
  j_grant_id :: string
  j_agent :: string
  j_target :: string
  j_argv :: "string list"
  j_command_sha256 :: string
  j_approval_id :: string
  j_risk_category :: string
  j_scope_key :: string
  j_created_at :: time
  j_expires_at :: time
  j_status :: job_status
  j_claimed_at :: "time option"
  j_started_at :: "time option"
  j_completed_at :: "time option"
  j_result :: "job_result option"

record enqueue_input =
  in_request_id :: string
  in_grant_id :: string
  in_agent :: string
  in_target :: string
  in_argv :: "string list"
  in_approval_id :: string
  in_risk_category :: string
  in_scope_key :: string
  in_expires_at :: time

record job_record =
  rec_job :: job
  rec_claim_sha256 :: string
  rec_mac :: string

record job_store =
  js_key :: string
  js_records :: "(string \<times> job_record) list"
  js_disk :: "job_record list option"

section \<open>Input contracts\<close>

definition validate_input :: "enqueue_input \<Rightarrow> err option" where
  "validate_input inp =
     (if length (in_request_id inp) < 8 \<or> 128 < length (in_request_id inp)
      then Some (Err_Msg ''request_id must be between 8 and 128 characters'')
      else if \<not> list_all id_char (in_request_id inp)
      then Some (Err_Msg ''request_id contains unsupported characters'')
      else if in_grant_id inp = [] \<or> in_agent inp = [] \<or> in_target inp = []
      then Some (Err_Msg ''grant, agent and target are required'')
      else if in_argv inp = [] \<or> trim_space (hd (in_argv inp)) = []
      then Some (Err_Msg ''argv must contain an executable'')
      else if in_expires_at inp = 0 then Some (Err_Msg ''execution job expiry is required'')
      else None)"

definition validate_result :: "job_result \<Rightarrow> err option" where
  "validate_result result =
     (if res_output_sha256 result \<noteq> [] \<and>
         (case hex_decode (res_output_sha256 result) of None \<Rightarrow> True | Some decoded \<Rightarrow> length decoded \<noteq> 32)
      then Some (Err_Msg ''output_sha256 must be a 64-character SHA-256 hex digest'')
      else if 128 < length (res_error_kind result) then Some (Err_Msg ''error_kind is too long'')
      else None)"

section \<open>Digests\<close>

text \<open>An empty argument slice is nil, which the encoder writes as \<open>null\<close>.\<close>

definition jargv :: "string list \<Rightarrow> jval" where
  "jargv argv = (if argv = [] then JRaw ''null'' else JArr (map JStr argv))"

definition binding_payload :: "string \<Rightarrow> string \<Rightarrow> string \<Rightarrow> string list \<Rightarrow> string" where
  "binding_payload grant_id request_id target argv =
     json_enc (JObj [(''grant_id'', JStr grant_id), (''request_id'', JStr request_id), (''target'', JStr target),
       (''argv'', jargv argv)])"

definition binding_hash :: "string \<Rightarrow> string \<Rightarrow> string \<Rightarrow> string list \<Rightarrow> string" where
  "binding_hash grant_id request_id target argv = sha256_hex (binding_payload grant_id request_id target argv)"

definition verify_binding :: "job \<Rightarrow> bool" where
  "verify_binding j \<longleftrightarrow> binding_hash (j_grant_id j) (j_request_id j) (j_target j) (j_argv j) = j_command_sha256 j"

definition result_json :: "job_result \<Rightarrow> jval" where
  "result_json r = JObj
     ([(''success'', JBool (res_success r)), (''exit_code'', JInt (res_exit_code r))]
      @ omit_str ''output_sha256'' (res_output_sha256 r) @ omit_str ''error_kind'' (res_error_kind r))"

definition job_json :: "job \<Rightarrow> jval" where
  "job_json j = JObj
     ([(''id'', JStr (j_id j)), (''request_id'', JStr (j_request_id j)), (''grant_id'', JStr (j_grant_id j)),
       (''agent'', JStr (j_agent j)), (''target'', JStr (j_target j)), (''argv'', jargv (j_argv j)),
       (''command_sha256'', JStr (j_command_sha256 j))]
      @ omit_str ''approval_id'' (j_approval_id j) @ omit_str ''risk_category'' (j_risk_category j)
      @ omit_str ''scope_key'' (j_scope_key j)
      @ [(''created_at'', jtime (j_created_at j)), (''expires_at'', jtime (j_expires_at j)),
         (''status'', JStr (status_text (j_status j)))]
      @ omit_time ''claimed_at'' (j_claimed_at j) @ omit_time ''started_at'' (j_started_at j)
      @ omit_time ''completed_at'' (j_completed_at j)
      @ (case j_result j of None \<Rightarrow> [] | Some r \<Rightarrow> [(''result'', result_json r)]))"

definition record_json :: "job_record \<Rightarrow> jval" where
  "record_json r = JObj
     ([(''job'', job_json (rec_job r))] @ omit_str ''claim_token_sha256'' (rec_claim_sha256 r)
      @ [(''integrity_mac'', JStr (rec_mac r))])"

definition job_marshals :: "job \<Rightarrow> bool" where
  "job_marshals j \<longleftrightarrow> time_marshals (j_created_at j) \<and> time_marshals (j_expires_at j) \<and>
     opt_time_marshals (j_claimed_at j) \<and> opt_time_marshals (j_started_at j) \<and> opt_time_marshals (j_completed_at j)"

definition record_mac :: "string \<Rightarrow> job_record \<Rightarrow> err + string" where
  "record_mac key r =
     (if job_marshals (rec_job r)
      then Inr (hex_encode (hmac_sha256 key (json_enc (record_json (r\<lparr>rec_mac := []\<rparr>)))))
      else Inl Err_IO)"

definition verify_record :: "string \<Rightarrow> job_record \<Rightarrow> err option" where
  "verify_record key r =
     (case record_mac key r of
        Inl e \<Rightarrow> Some e
      | Inr want \<Rightarrow>
          (case hex_decode (rec_mac r) of
             None \<Rightarrow> Some Err_Integrity
           | Some got \<Rightarrow>
               (case hex_decode want of
                  None \<Rightarrow> Some Err_Integrity
                | Some expected \<Rightarrow>
                    if length got \<noteq> length expected \<or> got \<noteq> expected then Some Err_Integrity else None)))"

text \<open>\<open>rec.IntegrityMAC, _ = s.recordMAC(rec)\<close>: an error leaves the empty MAC.\<close>

definition seal :: "string \<Rightarrow> job_record \<Rightarrow> job_record" where
  "seal key r = r\<lparr>rec_mac := (case record_mac key r of Inl _ \<Rightarrow> [] | Inr m \<Rightarrow> m)\<rparr>"

definition valid_claim_token :: "job_record \<Rightarrow> string \<Rightarrow> bool" where
  "valid_claim_token r claim_token \<longleftrightarrow>
     (case hex_decode (rec_claim_sha256 r) of
        None \<Rightarrow> False
      | Some want \<Rightarrow> length want = 32 \<and> sha256 claim_token = want)"

section \<open>Persistence\<close>

fun verify_all :: "string \<Rightarrow> job_record list \<Rightarrow> err option" where
  "verify_all key [] = None"
| "verify_all key (r # rs) = (case verify_record key r of Some e \<Rightarrow> Some e | None \<Rightarrow> verify_all key rs)"

definition ej_file :: "(string \<times> job_record) list \<Rightarrow> job_record list" where
  "ej_file recs = sort_by (\<lambda>a b. j_created_at (rec_job a) < j_created_at (rec_job b)) (map snd recs)"

definition ej_persist :: "fs_fault \<Rightarrow> job_store \<Rightarrow> job_store \<times> err option" where
  "ej_persist fault s =
     (case verify_all (js_key s) (map snd (js_records s)) of
        Some e \<Rightarrow> (s, Some e)
      | None \<Rightarrow>
          (case atomic_replace fault (js_disk s) (Some (ej_file (js_records s))) of
             (d, e) \<Rightarrow> (s\<lparr>js_disk := d\<rparr>, e)))"

definition ej_rollback :: "(string \<times> job_record) list \<Rightarrow> job_store \<Rightarrow> job_store" where
  "ej_rollback changed s = s\<lparr>js_records := fold (\<lambda>(i, r). AList.update i r) changed (js_records s)\<rparr>"

fun ej_load :: "string \<Rightarrow> job_record list \<Rightarrow> (string \<times> job_record) list \<Rightarrow> err + (string \<times> job_record) list" where
  "ej_load key [] recs = Inr recs"
| "ej_load key (r # rs) recs =
     (case verify_record key r of
        Some e \<Rightarrow> Inl e
      | None \<Rightarrow>
          if j_id (rec_job r) = [] then Inl Err_Integrity
          else if map_of recs (j_id (rec_job r)) \<noteq> None then Inl Err_Integrity
          else ej_load key rs (AList.update (j_id (rec_job r)) r recs))"

definition ej_open :: "string \<Rightarrow> string \<Rightarrow> job_record list option \<Rightarrow> err + job_store" where
  "ej_open path auth_key file =
     (if trim_space path = [] then Inl (Err_Msg ''execution job store path is empty'')
      else if length auth_key < 32 then Inl (Err_Msg ''execution job auth key must be at least 32 bytes'')
      else (case file of
          None \<Rightarrow> Inr \<lparr>js_key = auth_key, js_records = [], js_disk = None\<rparr>
        | Some rs \<Rightarrow>
            (case ej_load auth_key rs [] of
               Inl e \<Rightarrow> Inl e
             | Inr recs \<Rightarrow> Inr \<lparr>js_key = auth_key, js_records = recs, js_disk = Some rs\<rparr>)))"

section \<open>Operations on one job\<close>

definition random_hex :: "string option \<Rightarrow> err + string" where
  "random_hex rnd = (case rnd of None \<Rightarrow> Inl Err_Rand | Some b \<Rightarrow> Inr (hex_encode b))"

definition trim_input :: "enqueue_input \<Rightarrow> enqueue_input" where
  "trim_input inp = inp\<lparr>in_request_id := trim_space (in_request_id inp), in_grant_id := trim_space (in_grant_id inp),
     in_agent := trim_space (in_agent inp), in_target := trim_space (in_target inp)\<rparr>"

definition new_job :: "string \<Rightarrow> time \<Rightarrow> enqueue_input \<Rightarrow> job" where
  "new_job i now inp =
     \<lparr>j_id = i, j_request_id = in_request_id inp, j_grant_id = in_grant_id inp, j_agent = in_agent inp,
      j_target = in_target inp, j_argv = in_argv inp,
      j_command_sha256 = binding_hash (in_grant_id inp) (in_request_id inp) (in_target inp) (in_argv inp),
      j_approval_id = in_approval_id inp, j_risk_category = in_risk_category inp, j_scope_key = in_scope_key inp,
      j_created_at = now, j_expires_at = in_expires_at inp, j_status = Staged,
      j_claimed_at = None, j_started_at = None, j_completed_at = None, j_result = None\<rparr>"

definition find_request :: "string \<Rightarrow> string \<Rightarrow> job_store \<Rightarrow> job_record option" where
  "find_request grant_id request_id s =
     find (\<lambda>r. j_grant_id (rec_job r) = grant_id \<and> j_request_id (rec_job r) = request_id) (map snd (js_records s))"

definition ej_enqueue ::
  "enqueue_input \<Rightarrow> string option \<Rightarrow> time \<Rightarrow> fs_fault \<Rightarrow> job_store \<Rightarrow> job_store \<times> (err + job \<times> bool)" where
  "ej_enqueue inp0 rnd now fault s =
     (let inp = trim_input inp0 in
      case validate_input inp of
        Some e \<Rightarrow> (s, Inl e)
      | None \<Rightarrow>
        (let command_hash = binding_hash (in_grant_id inp) (in_request_id inp) (in_target inp) (in_argv inp) in
         case find_request (in_grant_id inp) (in_request_id inp) s of
           Some r \<Rightarrow>
             if j_command_sha256 (rec_job r) \<noteq> command_hash then (s, Inl Err_RequestConflict)
             else (s, Inr (rec_job r, False))
         | None \<Rightarrow>
           (case random_hex rnd of
              Inl e \<Rightarrow> (s, Inl e)
            | Inr i \<Rightarrow>
              (let r = \<lparr>rec_job = new_job i now inp, rec_claim_sha256 = [], rec_mac = []\<rparr> in
               case record_mac (js_key s) r of
                 Inl e \<Rightarrow> (s, Inl e)
               | Inr m \<Rightarrow>
                 (case ej_persist fault (s\<lparr>js_records := AList.update i (r\<lparr>rec_mac := m\<rparr>) (js_records s)\<rparr>) of
                    (s1, Some e) \<Rightarrow> (s1\<lparr>js_records := AList.delete i (js_records s1)\<rparr>, Inl e)
                  | (s1, None) \<Rightarrow> (s1, Inr (rec_job r, True)))))))"

text \<open>Replacing one record, with the rollback of a failing write.\<close>

definition ej_put :: "string \<Rightarrow> job_record \<Rightarrow> job_record \<Rightarrow> fs_fault \<Rightarrow> job_store \<Rightarrow> job_store \<times> err option" where
  "ej_put i old r fault s =
     (case ej_persist fault (s\<lparr>js_records := AList.update i r (js_records s)\<rparr>) of
        (s1, Some e) \<Rightarrow> (s1\<lparr>js_records := AList.update i old (js_records s1)\<rparr>, Some e)
      | (s1, None) \<Rightarrow> (s1, None))"

definition publish_record :: "string \<Rightarrow> time \<Rightarrow> job_record \<Rightarrow> job_record" where
  "publish_record key now r =
     seal key (r\<lparr>rec_job := (rec_job r)\<lparr>j_status := (if \<not> now < j_expires_at (rec_job r) then Expired else Pending)\<rparr>\<rparr>)"

definition ej_publish :: "string \<Rightarrow> time \<Rightarrow> fs_fault \<Rightarrow> job_store \<Rightarrow> job_store \<times> (err + job)" where
  "ej_publish i now fault s =
     (case map_of (js_records s) i of
        None \<Rightarrow> (s, Inl Err_NotPending)
      | Some r \<Rightarrow>
        if j_status (rec_job r) \<noteq> Staged then (s, Inl Err_NotPending)
        else (case verify_record (js_key s) r of
          Some e \<Rightarrow> (s, Inl e)
        | None \<Rightarrow>
          (let r1 = publish_record (js_key s) now r in
           case ej_put i r r1 fault s of
             (s1, Some e) \<Rightarrow> (s1, Inl e)
           | (s1, None) \<Rightarrow> (s1, if j_status (rec_job r1) = Expired then Inl Err_JobExpired else Inr (rec_job r1)))))"

definition expire_claim :: "string \<Rightarrow> job_record \<Rightarrow> job_record" where
  "expire_claim key r = seal key (r\<lparr>rec_job := (rec_job r)\<lparr>j_status := Expired\<rparr>, rec_claim_sha256 := []\<rparr>)"

definition start_record :: "string \<Rightarrow> time \<Rightarrow> job_record \<Rightarrow> job_record" where
  "start_record key now r = seal key (r\<lparr>rec_job := (rec_job r)\<lparr>j_status := Running, j_started_at := Some now\<rparr>\<rparr>)"

definition ej_start :: "string \<Rightarrow> string \<Rightarrow> time \<Rightarrow> fs_fault \<Rightarrow> job_store \<Rightarrow> job_store \<times> (err + job)" where
  "ej_start i claim_token now fault s =
     (case map_of (js_records s) i of
        None \<Rightarrow> (s, Inl Err_InvalidClaim)
      | Some r \<Rightarrow>
        if j_status (rec_job r) \<noteq> Claimed then (s, Inl Err_InvalidClaim)
        else (case verify_record (js_key s) r of
          Some e \<Rightarrow> (s, Inl e)
        | None \<Rightarrow>
          if \<not> valid_claim_token r claim_token then (s, Inl Err_InvalidClaim)
          else if \<not> now < j_expires_at (rec_job r) then
            (case ej_put i r (expire_claim (js_key s) r) fault s of
               (s1, Some e) \<Rightarrow> (s1, Inl e)
             | (s1, None) \<Rightarrow> (s1, Inl Err_JobExpired))
          else
            (case ej_put i r (start_record (js_key s) now r) fault s of
               (s1, Some e) \<Rightarrow> (s1, Inl e)
             | (s1, None) \<Rightarrow> (s1, Inr (rec_job (start_record (js_key s) now r))))))"

definition complete_record :: "string \<Rightarrow> time \<Rightarrow> job_result \<Rightarrow> job_record \<Rightarrow> job_record" where
  "complete_record key now result r =
     seal key (r\<lparr>rec_job := (rec_job r)\<lparr>j_status := (if res_success result then Succeeded else Failed),
         j_completed_at := Some now, j_result := Some result\<rparr>, rec_claim_sha256 := []\<rparr>)"

definition ej_complete :: "string \<Rightarrow> string \<Rightarrow> job_result \<Rightarrow> time \<Rightarrow> fs_fault \<Rightarrow> job_store \<Rightarrow> job_store \<times> (err + job)" where
  "ej_complete i claim_token result now fault s =
     (case map_of (js_records s) i of
        None \<Rightarrow> (s, Inl Err_InvalidClaim)
      | Some r \<Rightarrow>
        if j_status (rec_job r) \<noteq> Running then (s, Inl Err_InvalidClaim)
        else (case verify_record (js_key s) r of
          Some e \<Rightarrow> (s, Inl e)
        | None \<Rightarrow>
          if \<not> valid_claim_token r claim_token then (s, Inl Err_InvalidClaim)
          else (case validate_result result of
            Some e \<Rightarrow> (s, Inl e)
          | None \<Rightarrow>
            (case ej_put i r (complete_record (js_key s) now result r) fault s of
               (s1, Some e) \<Rightarrow> (s1, Inl e)
             | (s1, None) \<Rightarrow> (s1, Inr (rec_job (complete_record (js_key s) now result r)))))))"

definition rejection :: "string \<Rightarrow> job_result" where
  "rejection error_kind =
     (let k = trim_space error_kind in
      \<lparr>res_success = False, res_exit_code = -1, res_output_sha256 = [], res_error_kind = (if k = [] then ''execution_rejected'' else k)\<rparr>)"

definition cancel_record :: "string \<Rightarrow> time \<Rightarrow> job_result \<Rightarrow> job_record \<Rightarrow> job_record" where
  "cancel_record key now result r =
     seal key (r\<lparr>rec_job := (rec_job r)\<lparr>j_status := Canceled, j_completed_at := Some now, j_result := Some result\<rparr>,
       rec_claim_sha256 := []\<rparr>)"

definition ej_reject_claim :: "string \<Rightarrow> string \<Rightarrow> string \<Rightarrow> time \<Rightarrow> fs_fault \<Rightarrow> job_store \<Rightarrow> job_store \<times> (err + job)" where
  "ej_reject_claim i claim_token error_kind now fault s =
     (case map_of (js_records s) i of
        None \<Rightarrow> (s, Inl Err_InvalidClaim)
      | Some r \<Rightarrow>
        if j_status (rec_job r) \<noteq> Claimed \<and> j_status (rec_job r) \<noteq> Running then (s, Inl Err_InvalidClaim)
        else (case verify_record (js_key s) r of
          Some e \<Rightarrow> (s, Inl e)
        | None \<Rightarrow>
          if \<not> valid_claim_token r claim_token then (s, Inl Err_InvalidClaim)
          else (case validate_result (rejection error_kind) of
            Some e \<Rightarrow> (s, Inl e)
          | None \<Rightarrow>
            (case ej_put i r (cancel_record (js_key s) now (rejection error_kind) r) fault s of
               (s1, Some e) \<Rightarrow> (s1, Inl e)
             | (s1, None) \<Rightarrow> (s1, Inr (rec_job (cancel_record (js_key s) now (rejection error_kind) r)))))))"

definition cancel_unclaimed :: "string \<Rightarrow> job_record \<Rightarrow> job_record" where
  "cancel_unclaimed key r = seal key (r\<lparr>rec_job := (rec_job r)\<lparr>j_status := Canceled\<rparr>\<rparr>)"

definition ej_cancel_pending :: "string \<Rightarrow> fs_fault \<Rightarrow> job_store \<Rightarrow> job_store \<times> err option" where
  "ej_cancel_pending i fault s =
     (case map_of (js_records s) i of
        None \<Rightarrow> (s, Some Err_NotPending)
      | Some r \<Rightarrow>
        if j_status (rec_job r) \<noteq> Staged \<and> j_status (rec_job r) \<noteq> Pending then (s, Some Err_NotPending)
        else (case verify_record (js_key s) r of
          Some e \<Rightarrow> (s, Some e)
        | None \<Rightarrow> ej_put i r (cancel_unclaimed (js_key s) r) fault s))"

definition ej_validate_running_claim :: "string \<Rightarrow> string \<Rightarrow> time \<Rightarrow> job_store \<Rightarrow> err + job" where
  "ej_validate_running_claim i claim_token now s =
     (case map_of (js_records s) i of
        None \<Rightarrow> Inl Err_InvalidClaim
      | Some r \<Rightarrow>
        if j_status (rec_job r) \<noteq> Running then Inl Err_InvalidClaim
        else (case verify_record (js_key s) r of
          Some e \<Rightarrow> Inl e
        | None \<Rightarrow>
          if \<not> valid_claim_token r claim_token then Inl Err_InvalidClaim
          else if \<not> now < j_expires_at (rec_job r) then Inl Err_JobExpired
          else Inr (rec_job r)))"

definition ej_by_id :: "string \<Rightarrow> job_store \<Rightarrow> err + job option" where
  "ej_by_id i s =
     (case map_of (js_records s) i of
        None \<Rightarrow> Inr None
      | Some r \<Rightarrow> (case verify_record (js_key s) r of Some e \<Rightarrow> Inl e | None \<Rightarrow> Inr (Some (rec_job r))))"

definition ej_by_request :: "string \<Rightarrow> string \<Rightarrow> job_store \<Rightarrow> err + job option" where
  "ej_by_request grant_id request_id s =
     (case find_request grant_id request_id s of
        None \<Rightarrow> Inr None
      | Some r \<Rightarrow> (case verify_record (js_key s) r of Some e \<Rightarrow> Inl e | None \<Rightarrow> Inr (Some (rec_job r))))"

definition ej_list :: "job_store \<Rightarrow> err + job list" where
  "ej_list s =
     (case verify_all (js_key s) (map snd (js_records s)) of
        Some e \<Rightarrow> Inl e
      | None \<Rightarrow> Inr (sort_by (\<lambda>a b. newer (j_created_at a, j_id a) (j_created_at b, j_id b))
          (map (rec_job \<circ> snd) (js_records s))))"

section \<open>Operations on several jobs\<close>

text \<open>
  The loop of \<open>Claim\<close> over the job IDs, oldest first. It yields the records, the saved old records (the map \<open>changed\<close>)
  and an error, nothing, or the claim. The error of an invalid record returns at once, without a rollback.
\<close>

definition claim_token :: "string \<Rightarrow> string" where
  "claim_token b = ''jcl_'' @ hex_encode b"

definition expire_record :: "string \<Rightarrow> job_record \<Rightarrow> job_record" where
  "expire_record key r = seal key (r\<lparr>rec_job := (rec_job r)\<lparr>j_status := Expired\<rparr>\<rparr>)"

definition claim_record :: "string \<Rightarrow> time \<Rightarrow> string \<Rightarrow> job_record \<Rightarrow> job_record" where
  "claim_record key now token r =
     seal key (r\<lparr>rec_job := (rec_job r)\<lparr>j_status := Claimed, j_claimed_at := Some now\<rparr>, rec_claim_sha256 := sha256_hex token\<rparr>)"

fun claim_loop ::
  "string \<Rightarrow> time \<Rightarrow> string option \<Rightarrow> string list \<Rightarrow> (string \<times> job_record) list \<Rightarrow> (string \<times> job_record) list \<Rightarrow>
   (string \<times> job_record) list \<times> (string \<times> job_record) list \<times> (err + (job \<times> string) option)" where
  "claim_loop key now rnd [] recs changed = (recs, changed, Inr None)"
| "claim_loop key now rnd (i # is) recs changed =
     (case map_of recs i of
        None \<Rightarrow> claim_loop key now rnd is recs changed
      | Some r \<Rightarrow>
        (case verify_record key r of
           Some e \<Rightarrow> (recs, changed, Inl e)
         | None \<Rightarrow>
           if j_status (rec_job r) \<noteq> Pending then claim_loop key now rnd is recs changed
           else if \<not> now < j_expires_at (rec_job r) then
             claim_loop key now rnd is (AList.update i (expire_record key r) recs) (AList.update i r changed)
           else
             (case rnd of
                None \<Rightarrow> (fold (\<lambda>(i, r). AList.update i r) changed recs, changed, Inl Err_Rand)
              | Some b \<Rightarrow>
                  (AList.update i (claim_record key now (claim_token b) r) recs, AList.update i r changed,
                   Inr (Some (rec_job (claim_record key now (claim_token b) r), claim_token b))))))"

definition claim_order :: "job_store \<Rightarrow> string list" where
  "claim_order s = map fst (sort_by (\<lambda>a b. j_created_at (rec_job (snd a)) < j_created_at (rec_job (snd b))) (js_records s))"

definition ej_claim :: "string option \<Rightarrow> time \<Rightarrow> fs_fault \<Rightarrow> job_store \<Rightarrow> job_store \<times> (err + job \<times> string)" where
  "ej_claim rnd now fault s =
     (case claim_loop (js_key s) now rnd (claim_order s) (js_records s) [] of
        (recs, changed, Inl e) \<Rightarrow> (s\<lparr>js_records := recs\<rparr>, Inl e)
      | (recs, changed, Inr None) \<Rightarrow>
          if changed = [] then (s, Inl Err_NoJob)
          else (case ej_persist fault (s\<lparr>js_records := recs\<rparr>) of
              (s1, Some e) \<Rightarrow> (ej_rollback changed s1, Inl e)
            | (s1, None) \<Rightarrow> (s1, Inl Err_NoJob))
      | (recs, changed, Inr (Some c)) \<Rightarrow>
          (case ej_persist fault (s\<lparr>js_records := recs\<rparr>) of
             (s1, Some e) \<Rightarrow> (ej_rollback changed s1, Inl e)
           | (s1, None) \<Rightarrow> (s1, Inr c)))"

text \<open>
  The loop shared by \<open>CancelPendingByGrant\<close> and \<open>CancelNotRunningAll\<close>: the records that satisfy a condition are
  replaced; an invalid one stops it.
\<close>

fun cancel_loop ::
  "string \<Rightarrow> (job \<Rightarrow> bool) \<Rightarrow> (job_record \<Rightarrow> job_record) \<Rightarrow> (string \<times> job_record) list \<Rightarrow>
   (string \<times> job_record) list \<Rightarrow> (string \<times> job_record) list \<Rightarrow>
   (string \<times> job_record) list \<times> (string \<times> job_record) list \<times> err option" where
  "cancel_loop key sel f [] recs changed = (recs, changed, None)"
| "cancel_loop key sel f ((i, r) # es) recs changed =
     (if \<not> sel (rec_job r) then cancel_loop key sel f es recs changed
      else (case verify_record key r of
          Some e \<Rightarrow> (recs, changed, Some e)
        | None \<Rightarrow> cancel_loop key sel f es (AList.update i (f r) recs) (AList.update i r changed)))"

definition ej_cancel_pending_by_grant :: "string \<Rightarrow> fs_fault \<Rightarrow> job_store \<Rightarrow> job_store \<times> (err + nat)" where
  "ej_cancel_pending_by_grant grant_id fault s =
     (case cancel_loop (js_key s)
         (\<lambda>j. j_grant_id j = grant_id \<and> (j_status j = Staged \<or> j_status j = Pending))
         (cancel_unclaimed (js_key s)) (js_records s) (js_records s) [] of
        (recs, changed, Some e) \<Rightarrow> (s\<lparr>js_records := recs\<rparr>, Inl e)
      | (recs, changed, None) \<Rightarrow>
          if changed = [] then (s, Inr 0)
          else (case ej_persist fault (s\<lparr>js_records := recs\<rparr>) of
              (s1, Some e) \<Rightarrow> (ej_rollback changed s1, Inl e)
            | (s1, None) \<Rightarrow> (s1, Inr (length changed))))"

definition revocation :: "string \<Rightarrow> job_result" where
  "revocation error_kind =
     (let k = trim_space error_kind in
      \<lparr>res_success = False, res_exit_code = -1, res_output_sha256 = [], res_error_kind = (if k = [] then ''global_revoke_all'' else k)\<rparr>)"

definition ej_cancel_not_running_all :: "string \<Rightarrow> time \<Rightarrow> fs_fault \<Rightarrow> job_store \<Rightarrow> job_store \<times> (err + nat)" where
  "ej_cancel_not_running_all error_kind now fault s =
     (case cancel_loop (js_key s)
         (\<lambda>j. j_status j = Staged \<or> j_status j = Pending \<or> j_status j = Claimed)
         (cancel_record (js_key s) now (revocation error_kind)) (js_records s) (js_records s) [] of
        (recs, changed, Some e) \<Rightarrow> (ej_rollback changed (s\<lparr>js_records := recs\<rparr>), Inl e)
      | (recs, changed, None) \<Rightarrow>
          if changed = [] then (s, Inr 0)
          else (case ej_persist fault (s\<lparr>js_records := recs\<rparr>) of
              (s1, Some e) \<Rightarrow> (ej_rollback changed s1, Inl e)
            | (s1, None) \<Rightarrow> (s1, Inr (length changed))))"

end
