(* ===== verification/Execution_Job_Props.thy ===== *)
theory Execution_Job_Props
  imports Execution_Job
begin

text \<open>
  The invariant of the execution job store and its properties: the lifecycle of a job as an abstract machine which every
  operation refines, write failures and rollbacks included; what is durable; what runs at most once; what the bulk
  cancellations reach.
\<close>

section \<open>Seals\<close>

lemma record_mac_mac [simp]: "record_mac key (r\<lparr>rec_mac := m\<rparr>) = record_mac key r"
  by (simp add: record_mac_def)

lemma rec_job_seal [simp]: "rec_job (seal key r) = rec_job r" "rec_claim_sha256 (seal key r) = rec_claim_sha256 r"
  by (simp_all add: seal_def)

lemma verify_seal [simp]: "verify_record key (seal key r) = None \<longleftrightarrow> job_marshals (rec_job r)"
  by (auto simp: verify_record_def seal_def record_mac_def split: option.splits)

lemma verify_mac: "record_mac key r = Inr m \<Longrightarrow> verify_record key (r\<lparr>rec_mac := m\<rparr>) = None"
  by (auto simp: verify_record_def record_mac_def split: if_splits option.splits)

lemma verify_all_None: "verify_all key rs = None \<longleftrightarrow> (\<forall>r \<in> set rs. verify_record key r = None)"
  by (induction rs) (auto split: option.splits)

section \<open>Writing\<close>

definition js_written :: "(string \<times> job_record) list \<Rightarrow> job_store \<Rightarrow> job_store" where
  "js_written recs s = s\<lparr>js_records := recs, js_disk := Some (ej_file recs)\<rparr>"

lemma js_written_simps [simp]:
  "js_records (js_written recs s) = recs" "js_key (js_written recs s) = js_key s"
  "js_disk (js_written recs s) = Some (ej_file recs)"
  by (simp_all add: js_written_def)

lemma ej_persist_cases:
  obtains "ej_persist fault s = (js_written (js_records s) s, None)"
      and "\<forall>r \<in> snd ` set (js_records s). verify_record (js_key s) r = None"
  | e where "ej_persist fault s = (s, Some e)"
proof (cases "verify_all (js_key s) (map snd (js_records s))")
  case None
  then have "\<forall>r \<in> snd ` set (js_records s). verify_record (js_key s) r = None" by (simp add: verify_all_None)
  with None that show thesis by (cases fault) (simp_all add: ej_persist_def js_written_def)
next
  case (Some e)
  then show thesis using that(2) [of e] by (simp add: ej_persist_def)
qed

lemma value_of_update: "map_of al k = Some v \<Longrightarrow> v \<in> snd ` set al"
  by (force dest: map_of_SomeD)

lemma ej_put_cases:
  assumes "map_of (js_records s) i = Some old"
  shows "ej_put i old r fault s = (js_written (AList.update i r (js_records s)) s, None) \<and> verify_record (js_key s) r = None \<or>
         (\<exists>e. ej_put i old r fault s = (s, Some e))"
proof (rule ej_persist_cases [of fault "s\<lparr>js_records := AList.update i r (js_records s)\<rparr>"])
  assume p: "ej_persist fault (s\<lparr>js_records := AList.update i r (js_records s)\<rparr>) =
      (js_written (js_records (s\<lparr>js_records := AList.update i r (js_records s)\<rparr>)) (s\<lparr>js_records := AList.update i r (js_records s)\<rparr>), None)"
    and v: "\<forall>q \<in> snd ` set (js_records (s\<lparr>js_records := AList.update i r (js_records s)\<rparr>)).
      verify_record (js_key (s\<lparr>js_records := AList.update i r (js_records s)\<rparr>)) q = None"
  have "r \<in> snd ` set (AList.update i r (js_records s))" by (rule value_of_update [of _ i]) simp
  with v have "verify_record (js_key s) r = None" by auto
  with p show ?thesis by (simp add: ej_put_def js_written_def)
next
  fix e
  assume "ej_persist fault (s\<lparr>js_records := AList.update i r (js_records s)\<rparr>) =
      (s\<lparr>js_records := AList.update i r (js_records s)\<rparr>, Some e)"
  then show ?thesis using assms by (simp add: ej_put_def update_same)
qed

lemma verify_error: "verify_record key r = Some e \<Longrightarrow> e \<in> {Err_IO, Err_Integrity}"
  by (auto simp: verify_record_def record_mac_def split: if_splits option.splits)

lemma verify_all_error: "verify_all key rs = Some e \<Longrightarrow> e \<in> {Err_IO, Err_Integrity}"
  by (induction rs) (auto split: option.splits dest: verify_error)

lemma persist_error: "ej_persist fault s = (s1, Some e) \<Longrightarrow> e \<in> {Err_IO, Err_Integrity}"
  by (auto simp: ej_persist_def split: option.splits dest: verify_all_error)

section \<open>The lifecycle\<close>

definition same_command :: "job \<Rightarrow> job \<Rightarrow> bool" where
  "same_command j j' \<longleftrightarrow>
     j_id j' = j_id j \<and> j_request_id j' = j_request_id j \<and> j_grant_id j' = j_grant_id j \<and> j_agent j' = j_agent j \<and>
     j_target j' = j_target j \<and> j_argv j' = j_argv j \<and> j_command_sha256 j' = j_command_sha256 j \<and>
     j_approval_id j' = j_approval_id j \<and> j_risk_category j' = j_risk_category j \<and> j_scope_key j' = j_scope_key j \<and>
     j_created_at j' = j_created_at j \<and> j_expires_at j' = j_expires_at j"

definition job_edges :: "(job_status \<times> job_status) list" where
  "job_edges =
     [(Staged, Pending), (Staged, Expired), (Staged, Canceled),
      (Pending, Claimed), (Pending, Expired), (Pending, Canceled),
      (Claimed, Running), (Claimed, Expired), (Claimed, Canceled),
      (Running, Succeeded), (Running, Failed), (Running, Canceled)]"

definition terminal :: "job_status \<Rightarrow> bool" where
  "terminal st \<longleftrightarrow> st \<in> set [Succeeded, Failed, Canceled, Expired]"

definition held :: "job_record \<Rightarrow> bool" where
  "held r \<longleftrightarrow> j_status (rec_job r) = Claimed \<or> j_status (rec_job r) = Running"

definition record_ok :: "string \<Rightarrow> job_record \<Rightarrow> bool" where
  "record_ok key r \<longleftrightarrow> verify_record key r = None \<and> verify_binding (rec_job r) \<and> (held r \<longleftrightarrow> rec_claim_sha256 r \<noteq> [])"

definition job_move :: "string \<Rightarrow> job_record \<Rightarrow> job_record \<Rightarrow> bool" where
  "job_move key r r' \<longleftrightarrow>
     verify_record key r' = None \<and> same_command (rec_job r) (rec_job r') \<and>
     (j_status (rec_job r), j_status (rec_job r')) \<in> set job_edges \<and>
     (held r' \<longleftrightarrow> rec_claim_sha256 r' \<noteq> []) \<and>
     (j_status (rec_job r') = Running \<longrightarrow> rec_claim_sha256 r' = rec_claim_sha256 r)"

lemma same_command_refl: "same_command j j"
  by (simp add: same_command_def)

lemma same_command_trans: "same_command a b \<Longrightarrow> same_command b c \<Longrightarrow> same_command a c"
  by (simp add: same_command_def)

lemma same_command_binding: "same_command j j' \<Longrightarrow> verify_binding j' \<longleftrightarrow> verify_binding j"
  by (simp add: verify_binding_def same_command_def)

lemma job_move_ok:
  assumes "record_ok key r" and "job_move key r r'"
  shows "record_ok key r'"
proof -
  have "verify_binding (rec_job r')"
    using assms same_command_binding [of "rec_job r" "rec_job r'"] unfolding record_ok_def job_move_def by blast
  with assms(2) show ?thesis unfolding record_ok_def job_move_def by blast
qed

lemma move_publish:
  assumes "record_ok key r" and "j_status (rec_job r) = Staged" and "verify_record key (publish_record key now r) = None"
  shows "job_move key r (publish_record key now r)"
  using assms
  by (auto simp: job_move_def publish_record_def same_command_def job_edges_def record_ok_def held_def)

lemma move_expire_claim:
  assumes "record_ok key r" and "j_status (rec_job r) = Claimed" and "verify_record key (expire_claim key r) = None"
  shows "job_move key r (expire_claim key r)"
  using assms by (auto simp: job_move_def expire_claim_def same_command_def job_edges_def record_ok_def held_def)

lemma move_start:
  assumes "record_ok key r" and "j_status (rec_job r) = Claimed" and "verify_record key (start_record key now r) = None"
  shows "job_move key r (start_record key now r)"
  using assms by (auto simp: job_move_def start_record_def same_command_def job_edges_def record_ok_def held_def)

lemma move_complete:
  assumes "record_ok key r" and "j_status (rec_job r) = Running" and "verify_record key (complete_record key now res r) = None"
  shows "job_move key r (complete_record key now res r)"
  using assms by (auto simp: job_move_def complete_record_def same_command_def job_edges_def record_ok_def held_def)

lemma move_cancel:
  assumes "record_ok key r" and "\<not> terminal (j_status (rec_job r))" and "verify_record key (cancel_record key now res r) = None"
  shows "job_move key r (cancel_record key now res r)"
  using assms
  by (cases "j_status (rec_job r)")
    (auto simp: job_move_def cancel_record_def same_command_def job_edges_def record_ok_def held_def terminal_def)

lemma move_cancel_unclaimed:
  assumes "record_ok key r" and "j_status (rec_job r) = Staged \<or> j_status (rec_job r) = Pending"
    and "verify_record key (cancel_unclaimed key r) = None"
  shows "job_move key r (cancel_unclaimed key r)"
  using assms by (auto simp: job_move_def cancel_unclaimed_def same_command_def job_edges_def record_ok_def held_def)

lemma move_expire:
  assumes "record_ok key r" and "j_status (rec_job r) = Pending" and "verify_record key (expire_record key r) = None"
  shows "job_move key r (expire_record key r)"
  using assms by (auto simp: job_move_def expire_record_def same_command_def job_edges_def record_ok_def held_def)

lemma move_claim:
  assumes "record_ok key r" and "j_status (rec_job r) = Pending" and "verify_record key (claim_record key now tok r) = None"
  shows "job_move key r (claim_record key now tok r)"
  using assms by (auto simp: job_move_def claim_record_def same_command_def job_edges_def record_ok_def held_def)

section \<open>Replacing several records\<close>

text \<open>A bulk operation as the list of its moves: the ID, the old and the new record.\<close>

type_synonym move = "string \<times> job_record \<times> job_record"

definition put_new :: "move list \<Rightarrow> (string \<times> job_record) list \<Rightarrow> (string \<times> job_record) list" where
  "put_new ms recs = fold (\<lambda>(i, r, r'). AList.update i r') ms recs"

definition put_old :: "move list \<Rightarrow> (string \<times> job_record) list \<Rightarrow> (string \<times> job_record) list" where
  "put_old ms changed = fold (\<lambda>(i, r, r'). AList.update i r) ms changed"

definition moves_of :: "(string \<times> job_record) list \<Rightarrow> move list \<Rightarrow> bool" where
  "moves_of recs ms \<longleftrightarrow> distinct (map fst ms) \<and> (\<forall>(i, r, r') \<in> set ms. map_of recs i = Some r)"

lemma keys_update: "k \<in> fst ` set al \<Longrightarrow> map fst (AList.update k v al) = map fst al"
  by (simp add: update_keys)

lemma keys_fold_update:
  "\<forall>x \<in> set xs. key x \<in> fst ` set al \<Longrightarrow> map fst (fold (\<lambda>x. AList.update (key x) (val x)) xs al) = map fst al"
proof (induction xs arbitrary: al)
  case (Cons x xs)
  have k: "map fst (AList.update (key x) (val x) al) = map fst al" using Cons.prems by (simp add: keys_update)
  then have "fst ` set (AList.update (key x) (val x) al) = fst ` set al" by (metis list.set_map)
  with Cons.IH [of "AList.update (key x) (val x) al"] Cons.prems k show ?case by simp
qed simp

lemma put_new_alt: "put_new ms = fold (\<lambda>m. AList.update (fst m) (snd (snd m))) ms"
  and put_old_alt: "put_old ms = fold (\<lambda>m. AList.update (fst m) (fst (snd m))) ms"
  by (auto simp: put_new_def put_old_def case_prod_unfold intro!: ext)

lemma map_of_key: "map_of al k = Some v \<Longrightarrow> k \<in> fst ` set al"
  by (force dest: map_of_SomeD)

lemma keys_put_new: "moves_of recs ms \<Longrightarrow> map fst (put_new ms recs) = map fst recs"
  unfolding put_new_alt by (rule keys_fold_update) (fastforce simp: moves_of_def intro: map_of_key)

lemma put_new_other: "i \<notin> fst ` set ms \<Longrightarrow> map_of (put_new ms recs) i = map_of recs i"
  unfolding put_new_def by (induction ms arbitrary: recs) auto

lemma put_new_moved:
  "distinct (map fst ms) \<Longrightarrow> (i, r, r') \<in> set ms \<Longrightarrow> map_of (put_new ms recs) i = Some r'"
proof (induction ms arbitrary: recs)
  case (Cons m ms)
  show ?case
  proof (cases "m = (i, r, r')")
    case True
    with Cons.prems put_new_other [of i ms] show ?thesis by (simp add: put_new_def)
  next
    case False
    with Cons show ?thesis by (cases m) (auto simp: put_new_def)
  qed
qed simp

lemma put_old_append:
  "distinct (map fst ms) \<Longrightarrow> fst ` set ms \<inter> fst ` set changed = {} \<Longrightarrow>
   put_old ms changed = changed @ map (\<lambda>(i, r, r'). (i, r)) ms"
proof (induction ms arbitrary: changed)
  case (Cons m ms)
  obtain i r r' where m: "m = (i, r, r')" by (cases m) auto
  with Cons.prems have "map_of changed i = None" by (simp add: map_of_eq_None_iff)
  then have "AList.update i r changed = changed @ [(i, r)]" by (rule update_absent)
  with Cons m show ?case by (auto simp: put_old_def)
qed (simp add: put_old_def)

lemma alist_eq:
  assumes "map fst al = map fst bl" and "unique_keys al" and "map_of al = map_of bl"
  shows "al = bl"
proof (rule nth_equalityI)
  show len: "length al = length bl" using assms(1) by (metis length_map)
  fix n
  assume n: "n < length al"
  then have k: "fst (al ! n) = fst (bl ! n)" using assms(1) len by (metis nth_map)
  have d: "distinct (map fst al)" "distinct (map fst bl)" using assms(1,2) by (simp_all add: unique_keys_def)
  have "map_of al (fst (al ! n)) = Some (snd (al ! n))" "map_of bl (fst (bl ! n)) = Some (snd (bl ! n))"
    using d n len by (simp_all add: map_of_eq_Some_iff)
  with k assms(3) show "al ! n = bl ! n" by (simp add: prod_eq_iff)
qed

lemma rollback_moves:
  assumes "moves_of recs ms" and "unique_keys recs"
  shows "fold (\<lambda>(i, r). AList.update i r) (put_old ms []) (put_new ms recs) = recs"
proof -
  let ?undo = "map (\<lambda>(i, r, r'). (i, r', r)) ms"
  have old: "put_old ms [] = map (\<lambda>(i, r, r'). (i, r)) ms"
    using assms(1) by (simp add: put_old_append moves_of_def)
  have eq: "fold (\<lambda>(i, r). AList.update i r) (put_old ms []) (put_new ms recs) = put_new ?undo (put_new ms recs)"
    by (simp add: old put_new_def fold_map case_prod_unfold comp_def)
  have d: "distinct (map fst ms)" "distinct (map fst ?undo)"
    using assms(1) by (simp_all add: moves_of_def case_prod_unfold comp_def)
  have undo: "moves_of (put_new ms recs) ?undo"
    using d put_new_moved [OF d(1)] by (auto simp: moves_of_def)
  have keys: "map fst (put_new ?undo (put_new ms recs)) = map fst recs"
    using keys_put_new [OF undo] keys_put_new [OF assms(1)] by simp
  have "map_of (put_new ?undo (put_new ms recs)) i = map_of recs i" for i
  proof (cases "i \<in> fst ` set ms")
    case True
    then obtain r r' where "(i, r, r') \<in> set ms" by auto
    then have "(i, r', r) \<in> set ?undo" and "map_of recs i = Some r" using assms(1) by (force simp: moves_of_def)+
    then show ?thesis using put_new_moved [OF d(2), of i r' r] by simp
  next
    case False
    then have "i \<notin> fst ` set ?undo" by force
    with False show ?thesis by (simp add: put_new_other)
  qed
  then show ?thesis unfolding eq
    using keys assms(2) by (intro alist_eq) (auto simp: unique_keys_def)
qed

lemma commit_moves:
  assumes "moves_of (js_records s) ms" and "unique_keys (js_records s)"
  obtains "ej_persist fault (s\<lparr>js_records := put_new ms (js_records s)\<rparr>) = (js_written (put_new ms (js_records s)) s, None)"
      and "\<forall>(i, r, r') \<in> set ms. verify_record (js_key s) r' = None"
  | e s1 where "ej_persist fault (s\<lparr>js_records := put_new ms (js_records s)\<rparr>) = (s1, Some e)"
      and "ej_rollback (put_old ms []) s1 = s"
proof (rule ej_persist_cases [of fault "s\<lparr>js_records := put_new ms (js_records s)\<rparr>"])
  assume p: "ej_persist fault (s\<lparr>js_records := put_new ms (js_records s)\<rparr>) =
      (js_written (js_records (s\<lparr>js_records := put_new ms (js_records s)\<rparr>)) (s\<lparr>js_records := put_new ms (js_records s)\<rparr>), None)"
    and v: "\<forall>r \<in> snd ` set (js_records (s\<lparr>js_records := put_new ms (js_records s)\<rparr>)).
      verify_record (js_key (s\<lparr>js_records := put_new ms (js_records s)\<rparr>)) r = None"
  have "verify_record (js_key s) r' = None" if "(i, r, r') \<in> set ms" for i r r'
  proof -
    have "r' \<in> snd ` set (put_new ms (js_records s))"
      using put_new_moved [of ms i r r'] assms(1) that by (intro value_of_update [of _ i]) (simp add: moves_of_def)
    with v show ?thesis by auto
  qed
  with p that(1) show thesis by (fastforce simp: js_written_def)
next
  fix e
  assume "ej_persist fault (s\<lparr>js_records := put_new ms (js_records s)\<rparr>) = (s\<lparr>js_records := put_new ms (js_records s)\<rparr>, Some e)"
  then show thesis using that(2) rollback_moves [OF assms] by (simp add: ej_rollback_def)
qed

section \<open>The invariant\<close>

definition same_request :: "job_record \<Rightarrow> job_record \<Rightarrow> bool" where
  "same_request r q \<longleftrightarrow>
     j_grant_id (rec_job r) = j_grant_id (rec_job q) \<and> j_request_id (rec_job r) = j_request_id (rec_job q)"

definition js_wf :: "job_store \<Rightarrow> bool" where
  "js_wf s \<longleftrightarrow> 32 \<le> length (js_key s) \<and> unique_keys (js_records s) \<and>
     (\<forall>i r. map_of (js_records s) i = Some r \<longrightarrow> i \<noteq> [] \<and> j_id (rec_job r) = i \<and> record_ok (js_key s) r) \<and>
     (\<forall>i j r q. map_of (js_records s) i = Some r \<longrightarrow> map_of (js_records s) j = Some q \<longrightarrow> same_request r q \<longrightarrow> i = j)"

definition js_synced :: "job_store \<Rightarrow> bool" where
  "js_synced s \<longleftrightarrow> js_wf s \<and>
     (case js_disk s of None \<Rightarrow> js_records s = [] | Some rs \<Rightarrow> mset rs = mset (map snd (js_records s)))"

lemma js_wfD:
  assumes "js_wf s" and "map_of (js_records s) i = Some r"
  shows "i \<noteq> []" and "j_id (rec_job r) = i" and "record_ok (js_key s) r" and "verify_record (js_key s) r = None"
  using assms unfolding js_wf_def record_ok_def by blast+

lemma js_wf_keys: "js_wf s \<Longrightarrow> unique_keys (js_records s)"
  by (simp add: js_wf_def)

text \<open>What one operation may do to the records: add a staged job, or move jobs along the lifecycle.\<close>

inductive js_change :: "string \<Rightarrow> (string \<times> job_record) list \<Rightarrow> (string \<times> job_record) list \<Rightarrow> bool" where
  add: "map_of recs i = None \<Longrightarrow> i \<noteq> [] \<Longrightarrow> j_id (rec_job r) = i \<Longrightarrow> record_ok key r \<Longrightarrow> j_status (rec_job r) = Staged \<Longrightarrow>
    \<forall>q \<in> snd ` set recs. \<not> same_request q r \<Longrightarrow> js_change key recs (AList.update i r recs)"
| move: "moves_of recs ms \<Longrightarrow> \<forall>(i, r, r') \<in> set ms. job_move key r r' \<Longrightarrow> js_change key recs (put_new ms recs)"

definition rec_later :: "string \<Rightarrow> job_record \<Rightarrow> job_record \<Rightarrow> bool" where
  "rec_later key r r' \<longleftrightarrow> r' = r \<or> job_move key r r'"

lemma put_new_later:
  assumes "moves_of recs ms" and "\<forall>(i, r, r') \<in> set ms. job_move key r r'" and "map_of recs i = Some r"
  shows "\<exists>r'. map_of (put_new ms recs) i = Some r' \<and> rec_later key r r'"
proof (cases "i \<in> fst ` set ms")
  case True
  then obtain q r' where m: "(i, q, r') \<in> set ms" by auto
  with assms have "q = r" "job_move key r r'" by (fastforce simp: moves_of_def)+
  then show ?thesis using put_new_moved [of ms i q r' recs] m assms(1) by (simp add: moves_of_def rec_later_def)
next
  case False
  then show ?thesis using assms(3) by (simp add: put_new_other rec_later_def)
qed

lemma put_new_dom:
  assumes "moves_of recs ms" and "map_of (put_new ms recs) i = Some r'"
  shows "\<exists>r. map_of recs i = Some r"
proof -
  have "i \<in> set (map fst (put_new ms recs))" using map_of_key [OF assms(2)] by simp
  then have "i \<in> fst ` set recs" by (simp only: keys_put_new [OF assms(1)] list.set_map)
  then show ?thesis by (metis map_of_eq_None_iff not_None_eq)
qed

lemma js_change_later:
  assumes "js_change key recs recs'" and "map_of recs i = Some r"
  shows "\<exists>r'. map_of recs' i = Some r' \<and> rec_later key r r'"
  using assms(1)
proof cases
  case (add j q)
  with assms(2) show ?thesis by (auto simp: rec_later_def)
next
  case (move ms)
  with put_new_later [OF move(2,3) assms(2)] show ?thesis by simp
qed

lemma rec_later_same: "rec_later key r r' \<Longrightarrow> same_command (rec_job r) (rec_job r')"
  by (auto simp: rec_later_def job_move_def same_command_refl)

lemma rec_later_ok: "record_ok key r \<Longrightarrow> rec_later key r r' \<Longrightarrow> record_ok key r'"
  by (auto simp: rec_later_def intro: job_move_ok)

lemma same_request_later:
  "rec_later key r r' \<Longrightarrow> rec_later key q q' \<Longrightarrow> same_request r' q' \<longleftrightarrow> same_request r q"
  by (auto simp: same_request_def same_command_def dest!: rec_later_same)

lemma js_wf_moved:
  assumes "js_wf s" and "moves_of (js_records s) ms" and "\<forall>(i, r, r') \<in> set ms. job_move (js_key s) r r'"
  shows "js_wf (js_written (put_new ms (js_records s)) s)"
proof -
  have before: "\<exists>r. map_of (js_records s) i = Some r \<and> rec_later (js_key s) r r'"
    if "map_of (put_new ms (js_records s)) i = Some r'" for i r'
    using put_new_dom [OF assms(2) that] put_new_later [OF assms(2,3)] that by fastforce
  show ?thesis
    unfolding js_wf_def js_written_simps
  proof (intro conjI allI impI)
    show "32 \<le> length (js_key s)" using assms(1) by (simp add: js_wf_def)
    show "unique_keys (put_new ms (js_records s))"
      using js_wf_keys [OF assms(1)] keys_put_new [OF assms(2)] by (simp add: unique_keys_def)
  next
    fix i r'
    assume "map_of (put_new ms (js_records s)) i = Some r'"
    then obtain r where r: "map_of (js_records s) i = Some r" "rec_later (js_key s) r r'" using before by blast
    note wf = js_wfD [OF assms(1) r(1)]
    show "i \<noteq> []" by (rule wf(1))
    show "j_id (rec_job r') = i" using wf(2) rec_later_same [OF r(2)] by (simp add: same_command_def)
    show "record_ok (js_key s) r'" using wf(3) r(2) by (rule rec_later_ok)
  next
    fix i j r' q'
    assume i: "map_of (put_new ms (js_records s)) i = Some r'" and j: "map_of (put_new ms (js_records s)) j = Some q'"
      and same: "same_request r' q'"
    from before [OF i] obtain r where r: "map_of (js_records s) i = Some r" "rec_later (js_key s) r r'" by blast
    from before [OF j] obtain q where q: "map_of (js_records s) j = Some q" "rec_later (js_key s) q q'" by blast
    from same have "same_request r q" by (simp add: same_request_later [OF r(2) q(2)])
    with r(1) q(1) assms(1) show "i = j" unfolding js_wf_def by blast
  qed
qed

lemma js_wf_added:
  assumes "js_wf s" and "map_of (js_records s) i = None" and "i \<noteq> []" and "j_id (rec_job r) = i" and "record_ok (js_key s) r"
    and "\<forall>q \<in> snd ` set (js_records s). \<not> same_request q r"
  shows "js_wf (js_written (AList.update i r (js_records s)) s)"
proof -
  have "\<not> same_request q r" "\<not> same_request r q" if "map_of (js_records s) j = Some q" for j q
    using assms(6) value_of_update [OF that] by (auto simp: same_request_def)
  with assms(1-5) show ?thesis unfolding js_wf_def by auto
qed

lemma js_wf_change:
  assumes "js_wf s" and "js_change (js_key s) (js_records s) recs"
  shows "js_wf (js_written recs s)"
  using assms(2)
proof cases
  case (add i r)
  with js_wf_added [OF assms(1) add(2-5,7)] show ?thesis by simp
next
  case (move ms)
  with js_wf_moved [OF assms(1) move(2,3)] show ?thesis by simp
qed

lemma js_synced_change:
  assumes "js_wf s" and "js_change (js_key s) (js_records s) recs"
  shows "js_synced (js_written recs s)"
  using js_wf_change [OF assms] by (simp add: js_synced_def ej_file_def)

section \<open>Every operation makes an allowed change or none\<close>

definition js_effect :: "job_store \<Rightarrow> job_store \<Rightarrow> bool" where
  "js_effect s t \<longleftrightarrow> t = s \<or> (\<exists>recs. t = js_written recs s \<and> js_change (js_key s) (js_records s) recs)"

lemma js_effect_refl [simp]: "js_effect s s"
  by (simp add: js_effect_def)

lemma fst_put [simp]:
  "fst (case p of (s1, None) \<Rightarrow> (s1, f s1) | (s1, Some e) \<Rightarrow> (s1, g s1 e)) = fst p"
  by (cases p; cases "snd p") simp_all

lemma put_effect:
  assumes "map_of (js_records s) i = Some r" and "verify_record (js_key s) r' = None \<Longrightarrow> job_move (js_key s) r r'"
  shows "js_effect s (fst (ej_put i r r' fault s))"
  using ej_put_cases [OF assms(1), of r' fault]
proof
  assume p: "ej_put i r r' fault s = (js_written (AList.update i r' (js_records s)) s, None) \<and> verify_record (js_key s) r' = None"
  then have "js_change (js_key s) (js_records s) (put_new [(i, r, r')] (js_records s))"
    using assms by (intro js_change.move) (simp_all add: moves_of_def)
  then show ?thesis using p by (auto simp: js_effect_def put_new_def)
qed auto

lemma publish_effect: "js_wf s \<Longrightarrow> js_effect s (fst (ej_publish i now fault s))"
  by (auto simp: ej_publish_def Let_def split: option.split intro!: put_effect move_publish dest: js_wfD)

lemma start_effect: "js_wf s \<Longrightarrow> js_effect s (fst (ej_start i tok now fault s))"
  by (auto simp: ej_start_def split: option.split intro!: put_effect move_start move_expire_claim dest: js_wfD)

lemma complete_effect: "js_wf s \<Longrightarrow> js_effect s (fst (ej_complete i tok res now fault s))"
  by (auto simp: ej_complete_def split: option.split intro!: put_effect move_complete dest: js_wfD)

lemma reject_effect:
  assumes "js_wf s"
  shows "js_effect s (fst (ej_reject_claim i tok k now fault s))"
proof (cases "map_of (js_records s) i")
  case (Some r)
  have "js_effect s (fst (ej_put i r (cancel_record (js_key s) now (rejection k) r) fault s))"
    if "j_status (rec_job r) = Claimed \<or> j_status (rec_job r) = Running"
    using that js_wfD(3) [OF assms Some] by (intro put_effect [OF Some] move_cancel) (auto simp: terminal_def)
  with Some show ?thesis by (simp add: ej_reject_claim_def split: option.split)
qed (simp add: ej_reject_claim_def)

lemma cancel_pending_effect: "js_wf s \<Longrightarrow> js_effect s (fst (ej_cancel_pending i fault s))"
  by (auto simp: ej_cancel_pending_def split: option.split intro!: put_effect move_cancel_unclaimed dest: js_wfD)

text \<open>A new job needs an identifier that is not in use: 16 random bytes.\<close>

definition ej_new_id :: "string option \<Rightarrow> job_store \<Rightarrow> bool" where
  "ej_new_id rnd s \<longleftrightarrow>
     (case rnd of None \<Rightarrow> True | Some b \<Rightarrow> length b = 16 \<and> map_of (js_records s) (hex_encode b) = None)"

definition ej_fresh :: "string \<Rightarrow> string \<Rightarrow> time \<Rightarrow> enqueue_input \<Rightarrow> job_record" where
  "ej_fresh key b now inp = seal key \<lparr>rec_job = new_job (hex_encode b) now inp, rec_claim_sha256 = [], rec_mac = []\<rparr>"

lemma ej_enqueue_cases:
  assumes "ej_new_id rnd s"
  obtains "fst (ej_enqueue inp0 rnd now fault s) = s" and "\<And>j. snd (ej_enqueue inp0 rnd now fault s) \<noteq> Inr (j, True)"
  | b where "ej_enqueue inp0 rnd now fault s =
        (js_written (AList.update (hex_encode b) (ej_fresh (js_key s) b now (trim_input inp0)) (js_records s)) s,
         Inr (new_job (hex_encode b) now (trim_input inp0), True))"
      and "rnd = Some b" and "validate_input (trim_input inp0) = None"
      and "find_request (in_grant_id (trim_input inp0)) (in_request_id (trim_input inp0)) s = None"
      and "verify_record (js_key s) (ej_fresh (js_key s) b now (trim_input inp0)) = None"
proof (cases "validate_input (trim_input inp0) = None \<and>
    find_request (in_grant_id (trim_input inp0)) (in_request_id (trim_input inp0)) s = None \<and> rnd \<noteq> None \<and>
    job_marshals (new_job (hex_encode (the rnd)) now (trim_input inp0))")
  case False
  show thesis
    by (rule that(1))
      (use False in \<open>auto simp: ej_enqueue_def Let_def random_hex_def record_mac_def split: option.splits if_splits\<close>)
next
  case True
  then obtain b where b: "rnd = Some b" by auto
  let ?i = "hex_encode b" and ?r = "ej_fresh (js_key s) b now (trim_input inp0)"
  have fresh: "map_of (js_records s) ?i = None" using assms b by (simp add: ej_new_id_def)
  have eq: "ej_enqueue inp0 rnd now fault s =
      (case ej_persist fault (s\<lparr>js_records := AList.update ?i ?r (js_records s)\<rparr>) of
         (s1, Some e) \<Rightarrow> (s1\<lparr>js_records := AList.delete ?i (js_records s1)\<rparr>, Inl e)
       | (s1, None) \<Rightarrow> (s1, Inr (new_job ?i now (trim_input inp0), True)))"
    using True b by (auto simp: ej_enqueue_def Let_def random_hex_def record_mac_def ej_fresh_def seal_def)
  show thesis
  proof (rule ej_persist_cases [of fault "s\<lparr>js_records := AList.update ?i ?r (js_records s)\<rparr>"])
    assume "ej_persist fault (s\<lparr>js_records := AList.update ?i ?r (js_records s)\<rparr>) =
        (js_written (js_records (s\<lparr>js_records := AList.update ?i ?r (js_records s)\<rparr>)) (s\<lparr>js_records := AList.update ?i ?r (js_records s)\<rparr>), None)"
    then show thesis using eq True b by (intro that(2) [of b]) (simp_all add: js_written_def ej_fresh_def)
  next
    fix e
    assume "ej_persist fault (s\<lparr>js_records := AList.update ?i ?r (js_records s)\<rparr>) = (s\<lparr>js_records := AList.update ?i ?r (js_records s)\<rparr>, Some e)"
    then show thesis using eq by (intro that(1)) (simp_all add: delete_update_absent [OF fresh])
  qed
qed

lemma find_request_None:
  assumes "find_request (j_grant_id (rec_job r)) (j_request_id (rec_job r)) s = None"
  shows "\<forall>q \<in> snd ` set (js_records s). \<not> same_request q r"
  using assms by (auto simp: find_request_def find_None_iff same_request_def)

lemma enqueue_effect:
  assumes "js_wf s" and "ej_new_id rnd s"
  shows "js_effect s (fst (ej_enqueue inp0 rnd now fault s))"
proof (rule ej_enqueue_cases [OF assms(2), of inp0 now fault])
  fix b
  let ?i = "hex_encode b" and ?r = "ej_fresh (js_key s) b now (trim_input inp0)"
  assume e: "ej_enqueue inp0 rnd now fault s = (js_written (AList.update ?i ?r (js_records s)) s, Inr (new_job ?i now (trim_input inp0), True))"
    and b: "rnd = Some b"
    and none: "find_request (in_grant_id (trim_input inp0)) (in_request_id (trim_input inp0)) s = None"
    and v: "verify_record (js_key s) ?r = None"
  have "\<forall>q \<in> snd ` set (js_records s). \<not> same_request q ?r"
    by (rule find_request_None) (simp add: none ej_fresh_def new_job_def)
  moreover have "record_ok (js_key s) ?r"
    using v by (simp add: record_ok_def ej_fresh_def verify_binding_def new_job_def held_def)
  moreover have "b \<noteq> []" "map_of (js_records s) ?i = None" using assms(2) b by (auto simp: ej_new_id_def)
  ultimately have "js_change (js_key s) (js_records s) (AList.update ?i ?r (js_records s))"
    by (intro js_change.add) (simp_all add: ej_fresh_def new_job_def)
  then show ?thesis unfolding e by (auto simp: js_effect_def)
qed simp

section \<open>The bulk operations\<close>

definition cancel_moves :: "(job \<Rightarrow> bool) \<Rightarrow> (job_record \<Rightarrow> job_record) \<Rightarrow> (string \<times> job_record) list \<Rightarrow> move list" where
  "cancel_moves sel f es = map (\<lambda>(i, r). (i, r, f r)) (filter (\<lambda>(i, r). sel (rec_job r)) es)"

lemma cancel_loop_eq:
  "\<forall>(i, r) \<in> set es. verify_record key r = None \<Longrightarrow>
   cancel_loop key sel f es recs changed =
     (put_new (cancel_moves sel f es) recs, put_old (cancel_moves sel f es) changed, None)"
  by (induction es arbitrary: recs changed) (auto simp: cancel_moves_def put_new_def put_old_def)

lemma js_wf_entry: "js_wf s \<Longrightarrow> (i, r) \<in> set (js_records s) \<longleftrightarrow> map_of (js_records s) i = Some r"
  by (simp add: js_wf_def unique_keys_def)

lemma js_wf_verified: "js_wf s \<Longrightarrow> \<forall>(i, r) \<in> set (js_records s). verify_record (js_key s) r = None"
  by (auto simp: js_wf_entry dest: js_wfD)

lemma cancel_moves_of:
  assumes "js_wf s"
  shows "moves_of (js_records s) (cancel_moves sel f (js_records s))"
proof -
  have "distinct (map fst (filter (\<lambda>(i, r). sel (rec_job r)) (js_records s)))"
    using js_wf_keys [OF assms] unfolding unique_keys_def by (rule distinct_map_filter)
  moreover have "map fst (cancel_moves sel f (js_records s)) = map fst (filter (\<lambda>(i, r). sel (rec_job r)) (js_records s))"
    by (simp add: cancel_moves_def case_prod_unfold comp_def)
  ultimately have "distinct (map fst (cancel_moves sel f (js_records s)))" by simp
  then show ?thesis unfolding moves_of_def by (auto simp: cancel_moves_def js_wf_entry [OF assms])
qed

text \<open>The tail of a bulk operation: write the moves, or restore the records.\<close>

lemma bulk_effect:
  assumes "js_wf s" and "moves_of (js_records s) ms"
    and "\<And>i r r'. (i, r, r') \<in> set ms \<Longrightarrow> verify_record (js_key s) r' = None \<Longrightarrow> job_move (js_key s) r r'"
  shows "js_effect s (fst (case ej_persist fault (s\<lparr>js_records := put_new ms (js_records s)\<rparr>) of
      (s1, Some e) \<Rightarrow> (ej_rollback (put_old ms []) s1, f e) | (s1, None) \<Rightarrow> (s1, g)))"
proof (rule commit_moves [OF assms(2) js_wf_keys [OF assms(1)], of fault])
  assume p: "ej_persist fault (s\<lparr>js_records := put_new ms (js_records s)\<rparr>) = (js_written (put_new ms (js_records s)) s, None)"
    and v: "\<forall>(i, r, r') \<in> set ms. verify_record (js_key s) r' = None"
  have "\<forall>(i, r, r') \<in> set ms. job_move (js_key s) r r'" using v assms(3) by fastforce
  from js_change.move [OF assms(2) this] p show ?thesis by (auto simp: js_effect_def)
qed auto

lemma cancel_by_grant_effect:
  assumes "js_wf s"
  shows "js_effect s (fst (ej_cancel_pending_by_grant g fault s))"
proof -
  let ?sel = "\<lambda>j. j_grant_id j = g \<and> (j_status j = Staged \<or> j_status j = Pending)"
  let ?ms = "cancel_moves ?sel (cancel_unclaimed (js_key s)) (js_records s)"
  have "js_effect s (fst (case ej_persist fault (s\<lparr>js_records := put_new ?ms (js_records s)\<rparr>) of
      (s1, Some e) \<Rightarrow> (ej_rollback (put_old ?ms []) s1, Inl e) | (s1, None) \<Rightarrow> (s1, Inr (length (put_old ?ms [])))))"
    using js_wfD(3) [OF assms]
    by (intro bulk_effect [OF assms cancel_moves_of [OF assms]])
      (auto simp: cancel_moves_def js_wf_entry [OF assms] intro!: move_cancel_unclaimed)
  then show ?thesis
    by (simp add: ej_cancel_pending_by_grant_def cancel_loop_eq [OF js_wf_verified [OF assms]])
qed

lemma cancel_all_effect:
  assumes "js_wf s"
  shows "js_effect s (fst (ej_cancel_not_running_all k now fault s))"
proof -
  let ?sel = "\<lambda>j. j_status j = Staged \<or> j_status j = Pending \<or> j_status j = Claimed"
  let ?ms = "cancel_moves ?sel (cancel_record (js_key s) now (revocation k)) (js_records s)"
  have "js_effect s (fst (case ej_persist fault (s\<lparr>js_records := put_new ?ms (js_records s)\<rparr>) of
      (s1, Some e) \<Rightarrow> (ej_rollback (put_old ?ms []) s1, Inl e) | (s1, None) \<Rightarrow> (s1, Inr (length (put_old ?ms [])))))"
    using js_wfD(3) [OF assms]
    by (intro bulk_effect [OF assms cancel_moves_of [OF assms]])
      (auto simp: cancel_moves_def js_wf_entry [OF assms] terminal_def intro!: move_cancel)
  then show ?thesis
    by (simp add: ej_cancel_not_running_all_def cancel_loop_eq [OF js_wf_verified [OF assms]])
qed

text \<open>\<open>Claim\<close>: the stale jobs before the first claimable one expire; that one is claimed.\<close>

definition claimable :: "time \<Rightarrow> job_record \<Rightarrow> bool" where
  "claimable now r \<longleftrightarrow> j_status (rec_job r) = Pending \<and> now < j_expires_at (rec_job r)"

definition stale_moves :: "string \<Rightarrow> time \<Rightarrow> (string \<Rightarrow> job_record) \<Rightarrow> string list \<Rightarrow> move list" where
  "stale_moves key now R ids =
     map (\<lambda>i. (i, R i, expire_record key (R i)))
       (filter (\<lambda>i. j_status (rec_job (R i)) = Pending) (takeWhile (\<lambda>i. \<not> claimable now (R i)) ids))"

lemma claim_loop_eq:
  assumes "\<forall>i \<in> set ids. map_of recs i = Some (R i) \<and> verify_record key (R i) = None" and "distinct ids"
  shows "claim_loop key now rnd ids recs changed =
    (let recs1 = put_new (stale_moves key now R ids) recs; changed1 = put_old (stale_moves key now R ids) changed in
     case find (\<lambda>i. claimable now (R i)) ids of
       None \<Rightarrow> (recs1, changed1, Inr None)
     | Some i \<Rightarrow>
         (case rnd of
            None \<Rightarrow> (fold (\<lambda>(i, r). AList.update i r) changed1 recs1, changed1, Inl Err_Rand)
          | Some b \<Rightarrow>
              (AList.update i (claim_record key now (claim_token b) (R i)) recs1, AList.update i (R i) changed1,
               Inr (Some (rec_job (claim_record key now (claim_token b) (R i)), claim_token b)))))"
  using assms
proof (induction ids arbitrary: recs changed)
  case Nil
  then show ?case by (simp add: stale_moves_def put_new_def put_old_def)
next
  case (Cons i ids)
  have i: "map_of recs i = Some (R i)" "verify_record key (R i) = None" using Cons.prems(1) by simp_all
  show ?case
  proof (cases "claimable now (R i)")
    case True
    then show ?thesis using i by (simp add: claimable_def stale_moves_def put_new_def put_old_def split: option.split)
  next
    case no_claim: False
    show ?thesis
    proof (cases "j_status (rec_job (R i)) = Pending")
      case True
      then have late: "\<not> now < j_expires_at (rec_job (R i))" using no_claim by (simp add: claimable_def)
      have "\<forall>j \<in> set ids. map_of (AList.update i (expire_record key (R i)) recs) j = Some (R j) \<and> verify_record key (R j) = None"
        using Cons.prems by auto
      from Cons.IH [OF this, of "AList.update i (R i) changed"] Cons.prems(2) i True late no_claim show ?thesis
        by (simp add: stale_moves_def put_new_def put_old_def)
    next
      case False
      then show ?thesis using Cons i no_claim by (simp add: stale_moves_def)
    qed
  qed
qed

definition rec_of :: "job_store \<Rightarrow> string \<Rightarrow> job_record" where
  "rec_of s i = the (map_of (js_records s) i)"

lemma claim_order_ids:
  assumes "js_wf s"
  shows "distinct (claim_order s)" and "i \<in> set (claim_order s) \<longleftrightarrow> (\<exists>r. map_of (js_records s) i = Some r)"
    and "\<forall>i \<in> set (claim_order s). map_of (js_records s) i = Some (rec_of s i) \<and> verify_record (js_key s) (rec_of s i) = None"
proof -
  have m: "mset (claim_order s) = mset (map fst (js_records s))" unfolding claim_order_def mset_map by simp
  then show "distinct (claim_order s)"
    using js_wf_keys [OF assms] unfolding unique_keys_def by (metis mset_eq_imp_distinct_iff)
  have set: "set (claim_order s) = fst ` set (js_records s)" using mset_eq_setD [OF m] by simp
  then show dom: "i \<in> set (claim_order s) \<longleftrightarrow> (\<exists>r. map_of (js_records s) i = Some r)" for i
    by (metis map_of_eq_None_iff not_None_eq)
  show "\<forall>i \<in> set (claim_order s). map_of (js_records s) i = Some (rec_of s i) \<and> verify_record (js_key s) (rec_of s i) = None"
    using dom js_wfD(4) [OF assms] by (fastforce simp: rec_of_def)
qed

definition claim_moves :: "job_store \<Rightarrow> time \<Rightarrow> string \<Rightarrow> string \<Rightarrow> move list" where
  "claim_moves s now tok i =
     stale_moves (js_key s) now (rec_of s) (claim_order s) @ [(i, rec_of s i, claim_record (js_key s) now tok (rec_of s i))]"

lemma stale_moves_of:
  assumes "js_wf s"
  shows "moves_of (js_records s) (stale_moves (js_key s) now (rec_of s) (claim_order s))"
  using claim_order_ids(1,3) [OF assms]
  by (auto simp: moves_of_def stale_moves_def comp_def distinct_filter distinct_takeWhile dest: set_takeWhileD)

lemma claim_moves_of:
  assumes "js_wf s" and "find (\<lambda>i. claimable now (rec_of s i)) (claim_order s) = Some i"
  shows "moves_of (js_records s) (claim_moves s now tok i)"
proof -
  from assms(2) have i: "i \<in> set (claim_order s)" "claimable now (rec_of s i)"
    by (auto elim: find_split)
  then have "i \<notin> fst ` set (stale_moves (js_key s) now (rec_of s) (claim_order s))"
    by (auto simp: stale_moves_def dest: set_takeWhileD)
  with stale_moves_of [OF assms(1), of now] claim_order_ids(3) [OF assms(1)] i(1) show ?thesis
    by (auto simp: moves_of_def claim_moves_def)
qed

lemma ej_claim_eq:
  assumes "js_wf s"
  shows "ej_claim rnd now fault s =
    (let stale = stale_moves (js_key s) now (rec_of s) (claim_order s) in
     case find (\<lambda>i. claimable now (rec_of s i)) (claim_order s) of
       None \<Rightarrow>
         if stale = [] then (s, Inl Err_NoJob)
         else (case ej_persist fault (s\<lparr>js_records := put_new stale (js_records s)\<rparr>) of
             (s1, Some e) \<Rightarrow> (ej_rollback (put_old stale []) s1, Inl e) | (s1, None) \<Rightarrow> (s1, Inl Err_NoJob))
     | Some i \<Rightarrow>
         (case rnd of
            None \<Rightarrow> (s, Inl Err_Rand)
          | Some b \<Rightarrow>
              (let ms = claim_moves s now (claim_token b) i in
               case ej_persist fault (s\<lparr>js_records := put_new ms (js_records s)\<rparr>) of
                 (s1, Some e) \<Rightarrow> (ej_rollback (put_old ms []) s1, Inl e)
               | (s1, None) \<Rightarrow> (s1, Inr (rec_job (claim_record (js_key s) now (claim_token b) (rec_of s i)), claim_token b)))))"
proof -
  let ?stale = "stale_moves (js_key s) now (rec_of s) (claim_order s)"
  have nil: "put_old ?stale [] = [] \<longleftrightarrow> ?stale = []"
    using stale_moves_of [OF assms, of now] by (simp add: put_old_append moves_of_def)
  have new: "put_new (claim_moves s now tok i) (js_records s) =
      AList.update i (claim_record (js_key s) now tok (rec_of s i)) (put_new ?stale (js_records s))" for tok i
    by (simp add: claim_moves_def put_new_def)
  have old: "put_old (claim_moves s now tok i) [] = AList.update i (rec_of s i) (put_old ?stale [])" for tok i
    by (simp add: claim_moves_def put_old_def)
  show ?thesis
    unfolding ej_claim_def claim_loop_eq [OF claim_order_ids(3,1) [OF assms]] Let_def new old
    using rollback_moves [OF stale_moves_of [OF assms] js_wf_keys [OF assms]]
    by (simp add: nil put_old_def [of "[]"] split: option.split)
qed

lemma rec_of_ok: "js_wf s \<Longrightarrow> i \<in> set (claim_order s) \<Longrightarrow> record_ok (js_key s) (rec_of s i)"
  using claim_order_ids(3) js_wfD(3) by blast

lemma stale_move:
  assumes "js_wf s" and "(i, r, r') \<in> set (stale_moves (js_key s) now (rec_of s) (claim_order s))"
    and "verify_record (js_key s) r' = None"
  shows "job_move (js_key s) r r'"
proof -
  have i: "i \<in> set (claim_order s)" "r = rec_of s i" "r' = expire_record (js_key s) (rec_of s i)" "j_status (rec_job r) = Pending"
    using assms(2) by (auto simp: stale_moves_def dest: set_takeWhileD)
  then have "record_ok (js_key s) r" by (simp add: rec_of_ok [OF assms(1)])
  with i assms(3) show ?thesis by (simp add: move_expire)
qed

lemma claim_move:
  assumes "js_wf s" and "find (\<lambda>i. claimable now (rec_of s i)) (claim_order s) = Some j"
    and "(i, r, r') \<in> set (claim_moves s now tok j)" and "verify_record (js_key s) r' = None"
  shows "job_move (js_key s) r r'"
proof (cases "(i, r, r') \<in> set (stale_moves (js_key s) now (rec_of s) (claim_order s))")
  case True
  from stale_move [OF assms(1) True assms(4)] show ?thesis .
next
  case False
  have j: "j \<in> set (claim_order s)" "claimable now (rec_of s j)" using assms(2) by (auto elim: find_split)
  then have "record_ok (js_key s) (rec_of s j)" by (simp add: rec_of_ok [OF assms(1)])
  with False j assms(3,4) show ?thesis by (auto simp: claim_moves_def claimable_def intro: move_claim)
qed

lemma claim_effect:
  assumes "js_wf s"
  shows "js_effect s (fst (ej_claim rnd now fault s))"
proof (cases "find (\<lambda>i. claimable now (rec_of s i)) (claim_order s)")
  case None
  have "js_effect s (fst (case ej_persist fault (s\<lparr>js_records := put_new ms (js_records s)\<rparr>) of
      (s1, Some e) \<Rightarrow> (ej_rollback (put_old ms []) s1, Inl e) | (s1, None) \<Rightarrow> (s1, g)))"
    if "ms = stale_moves (js_key s) now (rec_of s) (claim_order s)" for ms and g :: "err + job \<times> string"
    unfolding that by (rule bulk_effect [OF assms stale_moves_of [OF assms]]) (rule stale_move [OF assms])
  with None show ?thesis by (simp add: ej_claim_eq [OF assms] Let_def)
next
  case (Some i)
  have "js_effect s (fst (case ej_persist fault (s\<lparr>js_records := put_new ms (js_records s)\<rparr>) of
      (s1, Some e) \<Rightarrow> (ej_rollback (put_old ms []) s1, Inl e) | (s1, None) \<Rightarrow> (s1, g)))"
    if "ms = claim_moves s now tok i" for ms tok and g :: "err + job \<times> string"
    unfolding that by (rule bulk_effect [OF assms claim_moves_of [OF assms Some]]) (rule claim_move [OF assms Some])
  with Some show ?thesis by (simp add: ej_claim_eq [OF assms] Let_def split: option.split)
qed

section \<open>Steps\<close>

inductive js_step :: "job_store \<Rightarrow> job_store \<Rightarrow> bool" where
  enqueue: "ej_new_id rnd s \<Longrightarrow> js_step s (fst (ej_enqueue inp rnd now fault s))"
| publish: "js_step s (fst (ej_publish i now fault s))"
| claim: "js_step s (fst (ej_claim rnd now fault s))"
| start: "js_step s (fst (ej_start i tok now fault s))"
| complete: "js_step s (fst (ej_complete i tok res now fault s))"
| reject: "js_step s (fst (ej_reject_claim i tok k now fault s))"
| cancel: "js_step s (fst (ej_cancel_pending i fault s))"
| cancel_grant: "js_step s (fst (ej_cancel_pending_by_grant g fault s))"
| cancel_all: "js_step s (fst (ej_cancel_not_running_all k now fault s))"

lemma js_step_effect:
  assumes "js_step s t" and "js_wf s"
  shows "js_effect s t"
  using assms(1)
  by cases (simp_all add: assms(2) enqueue_effect publish_effect claim_effect start_effect complete_effect reject_effect
      cancel_pending_effect cancel_by_grant_effect cancel_all_effect)

interpretation js_run: stable_predicate js_step js_synced
proof
  fix s t
  assume st: "js_step s t" "js_synced s"
  then have wf: "js_wf s" by (simp add: js_synced_def)
  from js_step_effect [OF st(1) wf] st(2) show "js_synced t"
    by (auto simp: js_effect_def intro: js_synced_change [OF wf])
qed

section \<open>Records only move forward\<close>

definition js_history :: "job_store \<Rightarrow> job_store \<Rightarrow> bool" where
  "js_history s t \<longleftrightarrow> js_key t = js_key s \<and>
     (\<forall>i r. map_of (js_records s) i = Some r \<longrightarrow>
        (\<exists>r'. map_of (js_records t) i = Some r' \<and> (job_move (js_key s))\<^sup>*\<^sup>* r r'))"

lemma js_effect_history:
  assumes "js_effect s t"
  shows "js_history s t"
  using assms unfolding js_effect_def
proof
  assume "t = s"
  then show ?thesis by (auto simp: js_history_def)
next
  assume "\<exists>recs. t = js_written recs s \<and> js_change (js_key s) (js_records s) recs"
  then obtain recs where t: "t = js_written recs s" and c: "js_change (js_key s) (js_records s) recs" by blast
  have "\<exists>r'. map_of recs i = Some r' \<and> (job_move (js_key s))\<^sup>*\<^sup>* r r'" if "map_of (js_records s) i = Some r" for i r
    using js_change_later [OF c that] by (auto simp: rec_later_def)
  then show ?thesis by (simp add: t js_history_def)
qed

interpretation js_forward: monotone_under js_step js_synced js_history
proof
  show "js_history s s" for s by (auto simp: js_history_def)
  show "js_history s u" if "js_history s t" "js_history t u" for s t u
    using that unfolding js_history_def by (metis rtranclp_trans)
  show "js_history s t" if "js_synced s" "js_step s t" for s t
    using that by (intro js_effect_history js_step_effect) (simp_all add: js_synced_def)
qed

fun job_rank :: "job_status \<Rightarrow> nat" where
  "job_rank Staged = 0" | "job_rank Pending = 1" | "job_rank Claimed = 2" | "job_rank Running = 3"
| "job_rank Succeeded = 4" | "job_rank Failed = 4" | "job_rank Canceled = 4" | "job_rank Expired = 4"

lemma job_edge_rank: "(a, b) \<in> set job_edges \<Longrightarrow> job_rank a < job_rank b"
  by (auto simp: job_edges_def)

lemma terminal_rank: "terminal st \<longleftrightarrow> job_rank st = 4"
  by (cases st) (simp_all add: terminal_def)

lemma rank_bound: "job_rank st \<le> 4"
  by (cases st) simp_all

lemma moves_facts:
  "(job_move key)\<^sup>*\<^sup>* r r' \<Longrightarrow>
   same_command (rec_job r) (rec_job r') \<and> (j_status (rec_job r), j_status (rec_job r')) \<in> (set job_edges)\<^sup>* \<and>
   (r' = r \<or> job_rank (j_status (rec_job r)) < job_rank (j_status (rec_job r')))"
proof (induction rule: rtranclp_induct)
  case base
  show ?case by (simp add: same_command_refl)
next
  case (step q p)
  have e: "same_command (rec_job q) (rec_job p)" "(j_status (rec_job q), j_status (rec_job p)) \<in> set job_edges"
    using step(2) by (simp_all add: job_move_def)
  have "same_command (rec_job r) (rec_job p)" using step.IH e(1) same_command_trans by blast
  moreover have "(j_status (rec_job r), j_status (rec_job p)) \<in> (set job_edges)\<^sup>*"
    using step.IH e(2) by (meson rtrancl.rtrancl_into_rtrancl)
  moreover have "job_rank (j_status (rec_job r)) < job_rank (j_status (rec_job p))"
    using step.IH job_edge_rank [OF e(2)] by auto
  ultimately show ?case by blast
qed

lemma js_later:
  assumes "js_synced s" and "js_step\<^sup>*\<^sup>* s t" and "map_of (js_records s) i = Some r"
  obtains r' where "map_of (js_records t) i = Some r'" and "same_command (rec_job r) (rec_job r')"
    and "(j_status (rec_job r), j_status (rec_job r')) \<in> (set job_edges)\<^sup>*"
    and "r' = r \<or> job_rank (j_status (rec_job r)) < job_rank (j_status (rec_job r'))"
proof -
  from js_forward.steps_rel [OF assms(2,1)] assms(3)
  obtain r' where "map_of (js_records t) i = Some r'" "(job_move (js_key s))\<^sup>*\<^sup>* r r'"
    by (auto simp: js_history_def)
  with moves_facts [OF this(2)] that show thesis by blast
qed

section \<open>What a claim and a start do\<close>

lemma sort_by_prefix:
  assumes "transp (\<lambda>a b. \<not> lt b a)" and "asymp lt" and "sort_by lt xs = before @ x # after" and "y \<in> set after"
  shows "\<not> lt y x"
  using sorted_sort_by [OF assms(1,2), of xs] assms(4) unfolding assms(3) by (simp add: sorted_wrt_append)

lemma claim_order_oldest:
  assumes "js_wf s" and "find (\<lambda>i. claimable now (rec_of s i)) (claim_order s) = Some i"
    and "map_of (js_records s) j = Some q" and "claimable now q"
  shows "j_created_at (rec_job (rec_of s i)) \<le> j_created_at (rec_job q)"
proof -
  let ?lt = "\<lambda>a b :: string \<times> job_record. j_created_at (rec_job (snd a)) < j_created_at (rec_job (snd b))"
  let ?es = "sort_by ?lt (js_records s)"
  have order: "transp (\<lambda>a b. \<not> ?lt b a)" "asymp ?lt" by (auto simp: transp_def asymp_on_def)
  obtain before after where f: "claim_order s = before @ i # after" "\<forall>k \<in> set before. \<not> claimable now (rec_of s k)"
    using find_split [OF assms(2)] by metis
  from f(1) obtain es1 rest where r: "?es = es1 @ rest" "map fst es1 = before" "map fst rest = i # after"
    unfolding claim_order_def by (auto simp: map_eq_append_conv)
  then obtain e es2 where es: "?es = es1 @ e # es2" "i = fst e" by (cases rest) auto
  have entry: "(k, r) \<in> set ?es \<longleftrightarrow> map_of (js_records s) k = Some r" for k r using js_wf_entry [OF assms(1)] by simp
  have e: "e = (i, rec_of s i)" using entry [of "fst e" "snd e"] es by (simp add: rec_of_def prod_eq_iff)
  have "(j, q) \<in> set ?es" using entry assms(3) by simp
  moreover have "(j, q) \<notin> set es1"
    using f(2) r(2) assms(3,4) by (force simp: rec_of_def)
  ultimately have "(j, q) = e \<or> (j, q) \<in> set es2" using es(1) by auto
  then show ?thesis using sort_by_prefix [OF order es(1), of "(j, q)"] e by auto
qed

lemma ej_claim_success:
  assumes "js_wf s" and "ej_claim rnd now fault s = (t, Inr (j, tok))"
  obtains i b where "find (\<lambda>i. claimable now (rec_of s i)) (claim_order s) = Some i" and "rnd = Some b" and "tok = claim_token b"
    and "j = rec_job (claim_record (js_key s) now tok (rec_of s i))"
    and "t = js_written (put_new (claim_moves s now tok i) (js_records s)) s"
proof -
  obtain i where i: "find (\<lambda>i. claimable now (rec_of s i)) (claim_order s) = Some i"
    using assms(2)
    by (cases "find (\<lambda>i. claimable now (rec_of s i)) (claim_order s)")
      (auto simp: ej_claim_eq [OF assms(1)] Let_def split: if_splits prod.splits option.splits)
  then obtain b where b: "rnd = Some b" using assms(2) by (cases rnd) (auto simp: ej_claim_eq [OF assms(1)])
  show thesis
    using commit_moves [OF claim_moves_of [OF assms(1) i, of "claim_token b"] js_wf_keys [OF assms(1)], of fault]
  proof cases
    case 1
    with assms(2) i b show thesis by (intro that [of i b]) (auto simp: ej_claim_eq [OF assms(1)] Let_def)
  next
    case (2 e s1)
    with assms(2) i b show thesis by (simp add: ej_claim_eq [OF assms(1)] Let_def)
  qed
qed

lemma valid_claim_token_claim [simp]: "valid_claim_token (claim_record key now tok r) tok"
  by (simp add: valid_claim_token_def claim_record_def)

lemma rec_of_id:
  assumes "js_wf s" and "i \<in> set (claim_order s)"
  shows "map_of (js_records s) i = Some (rec_of s i)" and "j_id (rec_job (rec_of s i)) = i"
  using claim_order_ids(3) [OF assms(1)] assms(2) js_wfD(2) [OF assms(1)] by blast+

lemma ej_start_success:
  assumes "ej_start i tok now fault s = (t, Inr j)"
  obtains r where "map_of (js_records s) i = Some r" and "j_status (rec_job r) = Claimed" and "valid_claim_token r tok"
    and "now < j_expires_at (rec_job r)" and "j = rec_job (start_record (js_key s) now r)"
    and "t = js_written (AList.update i (start_record (js_key s) now r) (js_records s)) s"
proof (cases "map_of (js_records s) i")
  case None
  with assms show thesis by (simp add: ej_start_def)
next
  case (Some r)
  have c: "j_status (rec_job r) = Claimed" "valid_claim_token r tok" "verify_record (js_key s) r = None"
    "now < j_expires_at (rec_job r)"
    using assms Some by (auto simp: ej_start_def split: if_splits option.splits prod.splits)
  from ej_put_cases [OF Some, of "start_record (js_key s) now r" fault] assms Some c show thesis
    by (intro that [of r]) (auto simp: ej_start_def)
qed

section \<open>Demonstration values\<close>

definition demo_key :: string where
  "demo_key = replicate 32 (CHR ''k'')"

definition demo_input :: enqueue_input where
  "demo_input = \<lparr>in_request_id = ''request-1'', in_grant_id = ''g'', in_agent = ''agent'', in_target = ''host'',
     in_argv = [''uptime''], in_approval_id = [], in_risk_category = ''DEFAULT'', in_scope_key = ''uptime'', in_expires_at = 100\<rparr>"

definition demo_job :: "job_status \<Rightarrow> job" where
  "demo_job st = (new_job ''0a'' 1 demo_input)\<lparr>j_status := st\<rparr>"

definition demo_record :: "job_status \<Rightarrow> job_record" where
  "demo_record st = seal demo_key
     \<lparr>rec_job = demo_job st, rec_claim_sha256 = (if st = Claimed \<or> st = Running then sha256_hex ''jcl_t'' else []), rec_mac = []\<rparr>"

definition demo_jobs :: "job_status \<Rightarrow> job_store" where
  "demo_jobs st = \<lparr>js_key = demo_key, js_records = [(''0a'', demo_record st)], js_disk = Some [demo_record st]\<rparr>"

lemma demo_times: "time_marshals 1" "time_marshals 2" "time_marshals 100"
  by code_simp+

lemma demo_record_ok: "record_ok demo_key (demo_record st)"
  using demo_times
  by (simp add: record_ok_def demo_record_def demo_job_def new_job_def demo_input_def job_marshals_def opt_time_marshals_def
      verify_binding_def held_def)

lemma demo_jobs_synced: "js_synced (demo_jobs st)"
  using demo_record_ok [of st]
  by (simp add: js_synced_def js_wf_def demo_jobs_def unique_keys_def demo_key_def)
    (simp add: demo_record_def demo_job_def new_job_def)

lemma demo_map [simp]: "map_of (js_records (demo_jobs st)) ''0a'' = Some (demo_record st)" "js_key (demo_jobs st) = demo_key"
  by (simp_all add: demo_jobs_def)

lemma demo_rec_job [simp]: "rec_job (demo_record st) = demo_job st"
  by (simp add: demo_record_def)

section \<open>Properties\<close>



text \<open>
  A job starts at most once: after a successful \<open>Start\<close> no later sequence of operations makes another \<open>Start\<close> of the
  same job succeed, with whatever token, and no later \<open>Claim\<close> hands the job out again.
\<close>
theorem job_starts_once:
  assumes "js_synced s" and "ej_start i tok now fault s = (t, Inr j)" and "js_step\<^sup>*\<^sup>* t u"
  shows "snd (ej_start i tok' now' fault' u) = Inl Err_InvalidClaim \<and>
         (\<forall>rnd v j' tok''. ej_claim rnd now' fault' u = (v, Inr (j', tok'')) \<longrightarrow> j_id j' \<noteq> i)"
proof -
  have t: "js_synced t" using js_run.step_keeps [OF js_step.start] assms(1,2) by (metis fst_conv)
  then have u: "js_wf u" using js_run.steps_keep [OF assms(3)] by (simp add: js_synced_def)
  obtain r where "map_of (js_records t) i = Some r" "j_status (rec_job r) = Running"
    using assms(2) by (rule ej_start_success) (simp add: start_record_def)
  then obtain q where q: "map_of (js_records u) i = Some q" "3 \<le> job_rank (j_status (rec_job q))"
    using js_later [OF t assms(3)] by (metis job_rank.simps(4) less_imp_le order_refl)
  have "snd (ej_start i tok' now' fault' u) = Inl Err_InvalidClaim"
    using q by (auto simp: ej_start_def)
  moreover have "j_id j' \<noteq> i" if c: "ej_claim rnd now' fault' u = (v, Inr (j', tok''))" for rnd v j' tok''
  proof (rule ej_claim_success [OF u c])
    fix k b
    assume f: "find (\<lambda>i. claimable now' (rec_of u i)) (claim_order u) = Some k"
      and j': "j' = rec_job (claim_record (js_key u) now' tok'' (rec_of u k))"
    have k: "k \<in> set (claim_order u)" "claimable now' (rec_of u k)" using f by (auto elim: find_split)
    then have "j_id j' = k" by (simp add: j' claim_record_def rec_of_id(2) [OF u])
    moreover have "k \<noteq> i" using k(2) q by (auto simp: claimable_def rec_of_def)
    ultimately show "j_id j' \<noteq> i" by simp
  qed
  ultimately show ?thesis by blast
qed

lemma demo_start:
  "ej_start ''0a'' ''jcl_t'' 2 None (demo_jobs Claimed) =
     (js_written [(''0a'', start_record demo_key 2 (demo_record Claimed))] (demo_jobs Claimed),
      Inr (rec_job (start_record demo_key 2 (demo_record Claimed))))"
proof -
  have v: "verify_record demo_key (demo_record Claimed) = None" using demo_record_ok by (simp add: record_ok_def)
  have "verify_record demo_key (start_record demo_key 2 (demo_record Claimed)) = None"
    using demo_times
    by (simp add: start_record_def demo_job_def new_job_def demo_input_def job_marshals_def opt_time_marshals_def)
  moreover have "valid_claim_token (demo_record Claimed) ''jcl_t''" by (simp add: valid_claim_token_def demo_record_def)
  ultimately show ?thesis
    using v by (simp add: ej_start_def ej_put_def ej_persist_def js_written_def demo_jobs_def
        demo_job_def [of Claimed] new_job_def demo_input_def)
qed

theorem job_starts_once_witness:
  "snd (ej_start ''0a'' ''jcl_t'' 3 None (fst (ej_start ''0a'' ''jcl_t'' 2 None (demo_jobs Claimed)))) = Inl Err_InvalidClaim"
  using job_starts_once [OF demo_jobs_synced demo_start rtranclp.rtrancl_refl, of "''jcl_t''" 3 None]
  by (simp add: demo_start)

text \<open>
  \<open>Claim\<close> hands out the oldest live job: a successful claim returns a job that was pending and not expired, none of
  the live pending jobs is older, the stored job is now claimed, and the returned token is the one the stored digest accepts.
  When it reports that there is no job, no live pending job exists.
\<close>
theorem claim_oldest_live_job:
  assumes "js_wf s"
  shows "(\<forall>t j tok. ej_claim rnd now fault s = (t, Inr (j, tok)) \<longrightarrow>
            (\<exists>r r'. map_of (js_records s) (j_id j) = Some r \<and> claimable now r \<and>
               (\<forall>i q. map_of (js_records s) i = Some q \<longrightarrow> claimable now q \<longrightarrow> j_created_at (rec_job r) \<le> j_created_at (rec_job q)) \<and>
               map_of (js_records t) (j_id j) = Some r' \<and> rec_job r' = j \<and> j_status j = Claimed \<and>
               same_command (rec_job r) j \<and> valid_claim_token r' tok)) \<and>
         (snd (ej_claim rnd now fault s) = Inl Err_NoJob \<longrightarrow>
            (\<forall>i q. map_of (js_records s) i = Some q \<longrightarrow> \<not> claimable now q))"
proof (intro conjI allI impI)
  fix t j tok
  assume "ej_claim rnd now fault s = (t, Inr (j, tok))"
  then obtain i b where f: "find (\<lambda>i. claimable now (rec_of s i)) (claim_order s) = Some i"
    and j: "j = rec_job (claim_record (js_key s) now tok (rec_of s i))"
    and t: "t = js_written (put_new (claim_moves s now tok i) (js_records s)) s"
    by (rule ej_claim_success [OF assms]) blast
  have i: "i \<in> set (claim_order s)" "claimable now (rec_of s i)" using f by (auto elim: find_split)
  note r = rec_of_id [OF assms i(1)]
  have "j_id j = i" by (simp add: j claim_record_def r(2))
  moreover have "map_of (js_records t) i = Some (claim_record (js_key s) now tok (rec_of s i))"
    using put_new_moved [of "claim_moves s now tok i" i "rec_of s i"] claim_moves_of [OF assms f, of tok]
    by (simp add: t moves_of_def claim_moves_def)
  moreover have "j_status j = Claimed" "same_command (rec_job (rec_of s i)) j"
    by (simp_all add: j claim_record_def same_command_def)
  ultimately show "\<exists>r r'. map_of (js_records s) (j_id j) = Some r \<and> claimable now r \<and>
      (\<forall>i q. map_of (js_records s) i = Some q \<longrightarrow> claimable now q \<longrightarrow> j_created_at (rec_job r) \<le> j_created_at (rec_job q)) \<and>
      map_of (js_records t) (j_id j) = Some r' \<and> rec_job r' = j \<and> j_status j = Claimed \<and>
      same_command (rec_job r) j \<and> valid_claim_token r' tok"
    using r(1) i(2) claim_order_oldest [OF assms f] j by (intro exI) auto
next
  fix i q
  assume none: "snd (ej_claim rnd now fault s) = Inl Err_NoJob" and q: "map_of (js_records s) i = Some q"
  show "\<not> claimable now q"
  proof
    assume "claimable now q"
    then have "i \<in> set (claim_order s) \<and> claimable now (rec_of s i)"
      using q claim_order_ids(2) [OF assms] by (auto simp: rec_of_def)
    then obtain k where k: "find (\<lambda>i. claimable now (rec_of s i)) (claim_order s) = Some k"
      by (metis find_None_iff not_None_eq)
    show False
    proof (cases rnd)
      case None
      with none k show False by (simp add: ej_claim_eq [OF assms])
    next
      case (Some b)
      with none k show False
        by (auto simp: ej_claim_eq [OF assms] Let_def split: prod.splits option.splits dest: persist_error)
    qed
  qed
qed

theorem claim_oldest_live_job_witness:
  "snd (ej_claim (Some ''x'') 2 (Some Sync_temp) (demo_jobs Running)) = Inl Err_NoJob \<and> \<not> claimable 2 (demo_record Running)"
proof -
  have wf: "js_wf (demo_jobs Running)" using demo_jobs_synced by (simp add: js_synced_def)
  have v: "verify_record demo_key (demo_record Running) = None" using demo_record_ok by (simp add: record_ok_def)
  have e: "snd (ej_claim (Some ''x'') 2 (Some Sync_temp) (demo_jobs Running)) = Inl Err_NoJob"
    by (simp add: ej_claim_def claim_order_def sort_by_def demo_jobs_def v demo_job_def)
  then have "\<forall>i q. map_of (js_records (demo_jobs Running)) i = Some q \<longrightarrow> \<not> claimable 2 q"
    using claim_oldest_live_job [OF wf] by blast
  then have "\<not> claimable 2 (demo_record Running)" using demo_map(1) by blast
  with e show ?thesis by blast
qed

text \<open>
  A job starts only for the worker that claimed it: a successful \<open>Start\<close> needs a claimed, unexpired job and, if the
  claim was made with the token \<open>tok0\<close>, this very token (or an exhibited SHA-256 collision with it).
\<close>
theorem start_needs_claim_token:
  assumes "ej_start i tok now fault s = (t, Inr j)"
  shows "\<exists>r. map_of (js_records s) i = Some r \<and> j_status (rec_job r) = Claimed \<and> now < j_expires_at (rec_job r) \<and>
             j_status j = Running \<and> same_command (rec_job r) j \<and>
             (\<forall>tok0. rec_claim_sha256 r = sha256_hex tok0 \<longrightarrow> tok = tok0 \<or> sha256_collision tok tok0)"
  using assms
proof (rule ej_start_success)
  fix r
  assume r: "map_of (js_records s) i = Some r" "j_status (rec_job r) = Claimed" "valid_claim_token r tok"
    "now < j_expires_at (rec_job r)" "j = rec_job (start_record (js_key s) now r)"
  have "tok = tok0 \<or> sha256_collision tok tok0" if "rec_claim_sha256 r = sha256_hex tok0" for tok0
    using r(3) that by (auto simp: valid_claim_token_def sha256_collision_def)
  with r show ?thesis by (auto simp: start_record_def same_command_def)
qed

theorem start_needs_claim_token_witness:
  "\<exists>r. map_of (js_records (demo_jobs Claimed)) ''0a'' = Some r \<and> rec_claim_sha256 r = sha256_hex ''jcl_t'' \<and>
     j_status (rec_job (start_record demo_key 2 (demo_record Claimed))) = Running"
  using start_needs_claim_token [OF demo_start] by (auto simp: demo_record_def)

lemma binding_payload_inj:
  assumes "list_all valid_utf8 [g, r, t]" and "list_all valid_utf8 [g', r', t']"
    and "list_all valid_utf8 argv" and "list_all valid_utf8 argv'"
    and "binding_payload g r t argv = binding_payload g' r' t' argv'"
  shows "g = g' \<and> r = r' \<and> t = t' \<and> argv = argv'"
proof -
  let ?k = "\<lambda>n v. json_string n @ '':'' @ v" and ?a = "\<lambda>argv. json_enc (jargv argv) @ ''}''"
  let ?T = "\<lambda>t argv. json_string t @ '','' @ json_string ''argv'' @ '':'' @ ?a argv"
  let ?R = "\<lambda>r t argv. json_string r @ '','' @ json_string ''target'' @ '':'' @ ?T t argv"
  have "json_string g @ '','' @ json_string ''request_id'' @ '':'' @ ?R r t argv =
      json_string g' @ '','' @ json_string ''request_id'' @ '':'' @ ?R r' t' argv'"
    using assms(5) by (simp add: binding_payload_def)
  from json_string_inj [OF _ _ this] assms(1,2) have g: "g = g'" and R: "?R r t argv = ?R r' t' argv'" by simp_all
  from json_string_inj [OF _ _ R] assms(1,2) have r: "r = r'" and T: "?T t argv = ?T t' argv'" by simp_all
  from json_string_inj [OF _ _ T] assms(1,2) have t: "t = t'" and a: "?a argv = ?a argv'" by simp_all
  have "argv = argv'"
  proof (cases "argv = [] \<or> argv' = []")
    case True
    with a show ?thesis by (auto simp: jargv_def split: if_splits)
  next
    case False
    with a have "json_strings argv @ ''}'' = json_strings argv' @ ''}''" by (simp add: jargv_def json_strings_def)
    from json_strings_inj [OF assms(3,4) this] show ?thesis by simp
  qed
  with g r t show ?thesis by simp
qed

lemma find_request_wf:
  assumes "js_wf s" and "map_of (js_records s) i = Some r" and "j_grant_id (rec_job r) = g" and "j_request_id (rec_job r) = q"
  shows "find_request g q s = Some r"
proof (cases "find_request g q s")
  case None
  then have "\<forall>p \<in> snd ` set (js_records s). \<not> same_request p r"
    using find_request_None [of r s] assms(3,4) by simp
  with value_of_update [OF assms(2)] show ?thesis by (auto simp: same_request_def)
next
  case (Some p)
  then have p: "p \<in> snd ` set (js_records s)" "same_request p r"
    using assms(3,4) unfolding find_request_def by (auto elim!: find_split simp: same_request_def)
      (metis image_eqI list.set_intros(1) in_set_conv_decomp set_map snd_conv)
  then obtain k where "map_of (js_records s) k = Some p" using values_iff [OF js_wf_keys [OF assms(1)]] by blast
  with assms(1,2) p(2) have "k = i" unfolding js_wf_def by blast
  with \<open>map_of (js_records s) k = Some p\<close> assms(2) Some show ?thesis by simp
qed

text \<open>
  A request ID is bound to one command: enqueueing again under the same grant and request ID never adds a job; it
  returns the existing job if the digest of the command agrees, and reports a conflict otherwise; the digests agree only
  for the same target and argv, or at an exhibited SHA-256 collision. (Strings are UTF-8, as every decoded JSON string is.)
\<close>
theorem enqueue_idempotent:
  assumes "js_wf s" and "map_of (js_records s) i = Some r" and "validate_input (trim_input inp) = None"
    and "j_grant_id (rec_job r) = in_grant_id (trim_input inp)" and "j_request_id (rec_job r) = in_request_id (trim_input inp)"
    and "list_all valid_utf8 ([in_grant_id (trim_input inp), in_request_id (trim_input inp), in_target (trim_input inp),
           j_target (rec_job r)] @ in_argv inp @ j_argv (rec_job r))"
  shows "(ej_enqueue inp rnd now fault s = (s, Inr (rec_job r, False)) \<and>
            (j_target (rec_job r) = in_target (trim_input inp) \<and> j_argv (rec_job r) = in_argv inp \<or>
             sha256_collision
               (binding_payload (in_grant_id (trim_input inp)) (in_request_id (trim_input inp)) (j_target (rec_job r)) (j_argv (rec_job r)))
               (binding_payload (in_grant_id (trim_input inp)) (in_request_id (trim_input inp)) (in_target (trim_input inp)) (in_argv inp)))
          \<or> ej_enqueue inp rnd now fault s = (s, Inl Err_RequestConflict) \<and>
            (j_target (rec_job r) \<noteq> in_target (trim_input inp) \<or> j_argv (rec_job r) \<noteq> in_argv inp))"
proof -
  let ?in = "trim_input inp"
  have argv: "in_argv ?in = in_argv inp" by (simp add: trim_input_def)
  let ?p = "binding_payload (in_grant_id ?in) (in_request_id ?in) (in_target ?in) (in_argv inp)"
  let ?q = "binding_payload (in_grant_id ?in) (in_request_id ?in) (j_target (rec_job r)) (j_argv (rec_job r))"
  have bound: "j_command_sha256 (rec_job r) = sha256_hex ?q"
    using js_wfD(3) [OF assms(1,2)] assms(4,5) by (simp add: record_ok_def verify_binding_def binding_hash_def)
  have e: "ej_enqueue inp rnd now fault s =
      (s, if sha256 ?q \<noteq> sha256 ?p then Inl Err_RequestConflict else Inr (rec_job r, False))"
    using find_request_wf [OF assms(1,2,4,5)] assms(3) bound
    by (simp add: ej_enqueue_def Let_def binding_hash_def argv)
  show ?thesis
  proof (cases "sha256 ?q = sha256 ?p")
    case True
    then have "?q = ?p \<or> sha256_collision ?q ?p" by (auto simp: sha256_collision_def)
    then have "j_target (rec_job r) = in_target ?in \<and> j_argv (rec_job r) = in_argv inp \<or> sha256_collision ?q ?p"
      using binding_payload_inj [of "in_grant_id ?in" "in_request_id ?in" "j_target (rec_job r)" "in_grant_id ?in"
          "in_request_id ?in" "in_target ?in" "j_argv (rec_job r)" "in_argv inp"] assms(6) by auto
    with e True show ?thesis by simp
  next
    case False
    then have "j_target (rec_job r) \<noteq> in_target ?in \<or> j_argv (rec_job r) \<noteq> in_argv inp" by auto
    with e False show ?thesis by simp
  qed
qed

lemma demo_trim: "trim_input demo_input = demo_input" "validate_input demo_input = None"
  "list_all valid_utf8 [''g'', ''request-1'', ''host'', ''uptime'', ''reboot'']"
  by code_simp+

theorem enqueue_idempotent_witness:
  "ej_enqueue (demo_input\<lparr>in_argv := [''reboot'']\<rparr>) (Some ''x'') 5 None (demo_jobs Running) =
     (demo_jobs Running, Inl Err_RequestConflict) \<or>
   sha256_collision (binding_payload ''g'' ''request-1'' ''host'' [''uptime'']) (binding_payload ''g'' ''request-1'' ''host'' [''reboot''])"
proof -
  let ?in = "demo_input\<lparr>in_argv := [''reboot'']\<rparr>"
  have wf: "js_wf (demo_jobs Running)" using demo_jobs_synced by (simp add: js_synced_def)
  have t: "trim_input ?in = ?in" "validate_input ?in = None" by code_simp+
  have f: "in_grant_id ?in = ''g''" "in_request_id ?in = ''request-1''" "in_target ?in = ''host''" "in_argv ?in = [''reboot'']"
    "j_grant_id (demo_job Running) = ''g''" "j_request_id (demo_job Running) = ''request-1''"
    "j_target (demo_job Running) = ''host''" "j_argv (demo_job Running) = [''uptime'']"
    by (simp_all add: demo_input_def demo_job_def new_job_def)
  from enqueue_idempotent [OF wf demo_map(1), of ?in "Some ''x''" 5 None] demo_trim(3) show ?thesis
    unfolding t demo_rec_job f by auto
qed

lemma ej_load_eq:
  "\<forall>r \<in> set rs. verify_record key r = None \<and> j_id (rec_job r) \<noteq> [] \<and> map_of recs (j_id (rec_job r)) = None \<Longrightarrow>
   distinct (map (\<lambda>r. j_id (rec_job r)) rs) \<Longrightarrow>
   ej_load key rs recs = Inr (fold (\<lambda>r. AList.update (j_id (rec_job r)) r) rs recs)"
proof (induction rs arbitrary: recs)
  case (Cons r rs)
  have "j_id (rec_job q) \<noteq> j_id (rec_job r)" if "q \<in> set rs" for q
    using Cons.prems(2) that by (fastforce simp: image_iff)
  with Cons.prems have "ej_load key rs (AList.update (j_id (rec_job r)) r recs) =
      Inr (fold (\<lambda>r. AList.update (j_id (rec_job r)) r) rs (AList.update (j_id (rec_job r)) r recs))"
    by (intro Cons.IH) auto
  with Cons.prems show ?case by simp
qed simp

lemma ej_load_ok:
  "ej_load key rs recs = Inr recs' \<Longrightarrow>
   (\<forall>r \<in> set rs. verify_record key r = None \<and> j_id (rec_job r) \<noteq> [] \<and> map_of recs (j_id (rec_job r)) = None) \<and>
   distinct (map (\<lambda>r. j_id (rec_job r)) rs)"
proof (induction rs arbitrary: recs)
  case (Cons r rs)
  then have r: "verify_record key r = None" "j_id (rec_job r) \<noteq> []" "map_of recs (j_id (rec_job r)) = None"
    "ej_load key rs (AList.update (j_id (rec_job r)) r recs) = Inr recs'"
    by (auto split: option.splits if_splits)
  from Cons.IH [OF r(4)] r(1-3) show ?case by (auto split: if_splits)
qed simp

lemma js_wf_ids:
  assumes "js_wf s"
  shows "distinct (map (\<lambda>r. j_id (rec_job r)) (map snd (js_records s)))"
proof -
  have "map (\<lambda>r. j_id (rec_job r)) (map snd (js_records s)) = map fst (js_records s)"
    using js_wf_entry [OF assms] js_wfD(2) [OF assms] by (auto simp: comp_def)
  then show ?thesis using js_wf_keys [OF assms] unfolding unique_keys_def by (simp only:)
qed

lemma js_wf_values:
  assumes "js_wf s" and "r \<in> snd ` set (js_records s)"
  shows "verify_record (js_key s) r = None \<and> j_id (rec_job r) \<noteq> []"
proof -
  obtain k where "map_of (js_records s) k = Some r" using values_iff [OF js_wf_keys [OF assms(1)]] assms(2) by blast
  with js_wfD [OF assms(1) this] show ?thesis by simp
qed

text \<open>
  The job store survives restarts: after every sequence of operations from a store that agrees with its file, write
  failures and rollbacks included, opening the file with the same key succeeds and gives exactly the records the running
  process has.
\<close>
theorem jobs_durable:
  assumes "js_synced s" and "js_step\<^sup>*\<^sup>* s t" and "trim_space path \<noteq> []"
  shows "\<exists>u. ej_open path (js_key t) (js_disk t) = Inr u \<and> js_key u = js_key t \<and>
             (\<forall>i. map_of (js_records u) i = map_of (js_records t) i)"
proof -
  have t: "js_synced t" "js_wf t" "\<not> length (js_key t) < 32"
    using js_run.steps_keep [OF assms(2,1)] by (auto simp: js_synced_def js_wf_def)
  show ?thesis
  proof (cases "js_disk t")
    case None
    with t assms(3) show ?thesis by (simp add: ej_open_def js_synced_def)
  next
    case (Some rs)
    with t(1) have m: "mset rs = mset (map snd (js_records t))" by (simp add: js_synced_def)
    have "mset (map (\<lambda>r. j_id (rec_job r)) rs) = mset (map (\<lambda>r. j_id (rec_job r)) (map snd (js_records t)))"
      using m by (metis mset_map)
    then have d: "distinct (map (\<lambda>r. j_id (rec_job r)) rs)"
      using js_wf_ids [OF t(2)] by (metis mset_eq_imp_distinct_iff)
    have "\<forall>r \<in> set rs. verify_record (js_key t) r = None \<and> j_id (rec_job r) \<noteq> [] \<and> map_of [] (j_id (rec_job r)) = None"
      using mset_eq_setD [OF m] js_wf_values [OF t(2)] by simp
    from ej_load_eq [OF this d] have "ej_load (js_key t) rs [] = Inr (fold (\<lambda>r. AList.update (j_id (rec_job r)) r) rs [])" .
    moreover have "map_of (fold (\<lambda>r. AList.update (j_id (rec_job r)) r) rs []) = map_of (js_records t)"
      using m js_wfD(2) [OF t(2)] js_wf_keys [OF t(2)] by (intro reload_values [where f = "\<lambda>r. r"]) auto
    ultimately show ?thesis using Some t(3) assms(3) by (simp add: ej_open_def)
  qed
qed

theorem jobs_durable_witness:
  "\<exists>u. ej_open ''jobs.json'' demo_key (js_disk (fst (ej_publish ''0a'' 2 (Some Rename_temp) (demo_jobs Staged)))) = Inr u"
proof -
  let ?t = "fst (ej_publish ''0a'' 2 (Some Rename_temp) (demo_jobs Staged))"
  have step: "js_step\<^sup>*\<^sup>* (demo_jobs Staged) ?t" by (rule r_into_rtranclp) (rule js_step.publish)
  have "trim_space ''jobs.json'' \<noteq> []" by code_simp
  from jobs_durable [OF demo_jobs_synced step this] js_forward.steps_rel [OF step demo_jobs_synced] show ?thesis
    by (auto simp: js_history_def)
qed

text \<open>
  \<open>Open\<close> accepts exactly the authentic files: with a usable path and key, it succeeds if and only if every record of
  the file carries the HMAC of its content under the key, no job ID is empty and no two records share one.
\<close>
theorem open_accepts_exactly_authentic:
  assumes "trim_space path \<noteq> []" and "32 \<le> length key"
  shows "is_ok (ej_open path key (Some rs)) \<longleftrightarrow>
    (\<forall>r \<in> set rs. verify_record key r = None \<and> j_id (rec_job r) \<noteq> []) \<and> distinct (map (\<lambda>r. j_id (rec_job r)) rs)"
proof
  assume "is_ok (ej_open path key (Some rs))"
  with assms obtain recs where "ej_load key rs [] = Inr recs" by (auto simp: ej_open_def is_ok_iff split: sum.splits)
  from ej_load_ok [OF this]
  show "(\<forall>r \<in> set rs. verify_record key r = None \<and> j_id (rec_job r) \<noteq> []) \<and> distinct (map (\<lambda>r. j_id (rec_job r)) rs)" by simp
next
  assume "(\<forall>r \<in> set rs. verify_record key r = None \<and> j_id (rec_job r) \<noteq> []) \<and> distinct (map (\<lambda>r. j_id (rec_job r)) rs)"
  with ej_load_eq [of rs key "[]"] assms show "is_ok (ej_open path key (Some rs))" by (simp add: ej_open_def)
qed

theorem open_accepts_exactly_authentic_witness:
  "is_ok (ej_open ''jobs.json'' demo_key (Some [demo_record Running]))"
proof -
  have "trim_space ''jobs.json'' \<noteq> []" by code_simp
  moreover have "verify_record demo_key (demo_record Running) = None" using demo_record_ok by (simp add: record_ok_def)
  moreover have "32 \<le> length demo_key" by (simp add: demo_key_def)
  ultimately show ?thesis
    using open_accepts_exactly_authentic [of "''jobs.json''" demo_key "[demo_record Running]"]
    by (simp add: demo_job_def new_job_def)
qed

lemma bulk_success:
  assumes "moves_of (js_records s) ms"
    and "(if put_old ms [] = [] then (s, Inr 0)
      else case ej_persist fault (s\<lparr>js_records := put_new ms (js_records s)\<rparr>) of
          (s1, Some e) \<Rightarrow> (ej_rollback (put_old ms []) s1, Inl e)
        | (s1, None) \<Rightarrow> (s1, Inr (length (put_old ms [])))) = (t, Inr n)"
  shows "js_records t = put_new ms (js_records s) \<and> n = length ms"
proof -
  have old: "put_old ms [] = map (\<lambda>(i, r, r'). (i, r)) ms" using assms(1) by (simp add: put_old_append moves_of_def)
  show ?thesis
  proof (cases "ms = []")
    case True
    with assms(2) show ?thesis by (auto simp: put_new_def put_old_def)
  next
    case False
    show ?thesis
      by (rule ej_persist_cases [of fault "s\<lparr>js_records := put_new ms (js_records s)\<rparr>"])
        (use False assms(2) in \<open>auto simp: old\<close>)
  qed
qed

lemma cancel_all_success:
  assumes "js_wf s" and "ej_cancel_not_running_all k now fault s = (t, Inr n)"
  shows "js_records t = put_new (cancel_moves (\<lambda>j. j_status j = Staged \<or> j_status j = Pending \<or> j_status j = Claimed)
           (cancel_record (js_key s) now (revocation k)) (js_records s)) (js_records s)"
  using bulk_success [OF cancel_moves_of [OF assms(1)]
      assms(2) [unfolded ej_cancel_not_running_all_def cancel_loop_eq [OF js_wf_verified [OF assms(1)]] prod.case option.case]]
  by (rule conjunct1)

lemma cancel_by_grant_success:
  assumes "js_wf s" and "ej_cancel_pending_by_grant g fault s = (t, Inr n)"
  shows "js_records t = put_new (cancel_moves (\<lambda>j. j_grant_id j = g \<and> (j_status j = Staged \<or> j_status j = Pending))
           (cancel_unclaimed (js_key s)) (js_records s)) (js_records s)"
  using bulk_success [OF cancel_moves_of [OF assms(1)]
      assms(2) [unfolded ej_cancel_pending_by_grant_def cancel_loop_eq [OF js_wf_verified [OF assms(1)]] prod.case option.case]]
  by (rule conjunct1)

lemma cancel_moves_map:
  assumes "js_wf s" and "map_of (js_records s) i = Some r"
  shows "map_of (put_new (cancel_moves sel f (js_records s)) (js_records s)) i = Some (if sel (rec_job r) then f r else r)"
proof (cases "sel (rec_job r)")
  case True
  then have "(i, r, f r) \<in> set (cancel_moves sel f (js_records s))"
    using assms by (force simp: cancel_moves_def js_wf_entry)
  with put_new_moved cancel_moves_of [OF assms(1)] True show ?thesis by (simp add: moves_of_def)
next
  case False
  then have "i \<notin> fst ` set (cancel_moves sel f (js_records s))"
    using assms by (auto simp: cancel_moves_def js_wf_entry)
  with False assms(2) show ?thesis by (simp add: put_new_other)
qed

lemma terminal_forever:
  assumes "js_synced t" and "js_step\<^sup>*\<^sup>* t u" and "map_of (js_records t) i = Some r" and "terminal (j_status (rec_job r))"
  shows "map_of (js_records u) i = Some r"
proof (rule js_later [OF assms(1-3)])
  fix r'
  assume "map_of (js_records u) i = Some r'"
    "r' = r \<or> job_rank (j_status (rec_job r)) < job_rank (j_status (rec_job r'))"
  with assms(4) rank_bound [of "j_status (rec_job r')"] show ?thesis by (auto simp: terminal_rank)
qed

text \<open>
  REVOKE ALL reaches every job that is not running: when \<open>CancelNotRunningAll\<close> succeeds, each staged, pending or
  claimed job is canceled with the given reason, every other job is untouched, and in every later state of the store the
  jobs that were not running can never be started.
\<close>
theorem revoke_all_cancels_jobs:
  assumes "js_synced s" and "ej_cancel_not_running_all k now fault s = (t, Inr n)" and "js_step\<^sup>*\<^sup>* t u"
    and "map_of (js_records s) i = Some r"
  shows "map_of (js_records t) i = Some
           (if terminal (j_status (rec_job r)) \<or> j_status (rec_job r) = Running then r
            else cancel_record (js_key s) now (revocation k) r) \<and>
         (j_status (rec_job r) = Running \<or> snd (ej_start i tok now' fault' u) = Inl Err_InvalidClaim)"
proof -
  have wf: "js_wf s" using assms(1) by (simp add: js_synced_def)
  have synced: "js_synced t" using js_run.step_keeps [OF js_step.cancel_all assms(1)] assms(2) by (metis fst_conv)
  have sel: "(j_status (rec_job r) = Staged \<or> j_status (rec_job r) = Pending \<or> j_status (rec_job r) = Claimed) \<longleftrightarrow>
      \<not> (terminal (j_status (rec_job r)) \<or> j_status (rec_job r) = Running)"
    by (cases "j_status (rec_job r)") (simp_all add: terminal_def)
  have t: "map_of (js_records t) i = Some (if terminal (j_status (rec_job r)) \<or> j_status (rec_job r) = Running then r
      else cancel_record (js_key s) now (revocation k) r)"
    using cancel_moves_map [OF wf assms(4)] sel by (simp add: cancel_all_success [OF wf assms(2)])
  moreover have "snd (ej_start i tok now' fault' u) = Inl Err_InvalidClaim" if not_running: "j_status (rec_job r) \<noteq> Running"
  proof -
    have "\<exists>q. map_of (js_records t) i = Some q \<and> terminal (j_status (rec_job q))"
      using t not_running by (simp add: cancel_record_def terminal_def)
    then obtain q where q: "map_of (js_records t) i = Some q" "terminal (j_status (rec_job q))" by blast
    from terminal_forever [OF synced assms(3) q] q(2) show ?thesis by (auto simp: ej_start_def terminal_def)
  qed
  ultimately show ?thesis by blast
qed

lemma demo_cancel_all:
  "ej_cancel_not_running_all [] 2 None (demo_jobs Claimed) =
     (js_written [(''0a'', cancel_record demo_key 2 (revocation []) (demo_record Claimed))] (demo_jobs Claimed), Inr 1)"
proof -
  have v: "verify_record demo_key (demo_record Claimed) = None" using demo_record_ok by (simp add: record_ok_def)
  have "verify_record demo_key (cancel_record demo_key 2 (revocation []) (demo_record Claimed)) = None"
    using demo_times
    by (simp add: cancel_record_def demo_job_def new_job_def demo_input_def job_marshals_def opt_time_marshals_def)
  with v show ?thesis
    by (simp add: ej_cancel_not_running_all_def ej_persist_def js_written_def demo_jobs_def demo_job_def [of Claimed])
qed

theorem revoke_all_cancels_jobs_witness:
  "snd (ej_start ''0a'' ''jcl_t'' 3 None (fst (ej_cancel_not_running_all [] 2 None (demo_jobs Claimed)))) = Inl Err_InvalidClaim"
proof -
  have "j_status (rec_job (demo_record Claimed)) \<noteq> Running" by (simp add: demo_job_def)
  with revoke_all_cancels_jobs [OF demo_jobs_synced demo_cancel_all rtranclp.rtrancl_refl demo_map(1), of "''jcl_t''" 3 None]
  show ?thesis unfolding demo_cancel_all fst_conv by blast
qed

text \<open>
  Revoking a grant cancels its unclaimed jobs: when \<open>CancelPendingByGrant\<close> succeeds, each staged or pending job of
  the grant is canceled and is never handed to a worker later, and no other job is touched.
\<close>
theorem cancel_by_grant_exact:
  assumes "js_synced s" and "ej_cancel_pending_by_grant g fault s = (t, Inr n)" and "js_step\<^sup>*\<^sup>* t u"
    and "map_of (js_records s) i = Some r"
  shows "if j_grant_id (rec_job r) = g \<and> (j_status (rec_job r) = Staged \<or> j_status (rec_job r) = Pending)
         then \<exists>q. map_of (js_records u) i = Some q \<and> j_status (rec_job q) = Canceled \<and> same_command (rec_job r) (rec_job q)
         else map_of (js_records t) i = Some r"
proof -
  have wf: "js_wf s" using assms(1) by (simp add: js_synced_def)
  have synced: "js_synced t" using js_run.step_keeps [OF js_step.cancel_grant assms(1)] assms(2) by (metis fst_conv)
  let ?q = "cancel_unclaimed (js_key s) r"
  have t: "map_of (js_records t) i = Some (if j_grant_id (rec_job r) = g \<and> (j_status (rec_job r) = Staged \<or> j_status (rec_job r) = Pending)
      then ?q else r)"
    using cancel_moves_map [OF wf assms(4)] by (simp add: cancel_by_grant_success [OF wf assms(2)])
  have q: "j_status (rec_job ?q) = Canceled" "same_command (rec_job r) (rec_job ?q)"
    by (simp_all add: cancel_unclaimed_def same_command_def)
  show ?thesis
  proof (cases "j_grant_id (rec_job r) = g \<and> (j_status (rec_job r) = Staged \<or> j_status (rec_job r) = Pending)")
    case True
    then have "map_of (js_records u) i = Some ?q"
      using terminal_forever [OF synced assms(3), of i ?q] t q(1) by (simp add: terminal_def)
    with True q show ?thesis by auto
  next
    case False
    then show ?thesis using t by auto
  qed
qed

lemma demo_cancel_grant:
  "ej_cancel_pending_by_grant ''g'' None (demo_jobs Pending) =
     (js_written [(''0a'', cancel_unclaimed demo_key (demo_record Pending))] (demo_jobs Pending), Inr 1)"
proof -
  have v: "verify_record demo_key (demo_record Pending) = None" using demo_record_ok by (simp add: record_ok_def)
  have "verify_record demo_key (cancel_unclaimed demo_key (demo_record Pending)) = None"
    using demo_times
    by (simp add: cancel_unclaimed_def demo_job_def new_job_def demo_input_def job_marshals_def opt_time_marshals_def)
  with v show ?thesis
    by (simp add: ej_cancel_pending_by_grant_def ej_persist_def js_written_def demo_jobs_def demo_job_def [of Pending]
        new_job_def demo_input_def)
qed

theorem cancel_by_grant_exact_witness:
  "\<exists>q. map_of (js_records (fst (ej_cancel_pending_by_grant ''g'' None (demo_jobs Pending)))) ''0a'' = Some q \<and>
     j_status (rec_job q) = Canceled"
  using cancel_by_grant_exact [OF demo_jobs_synced demo_cancel_grant rtranclp.rtrancl_refl demo_map(1)]
  by (auto simp: demo_cancel_grant demo_job_def new_job_def demo_input_def)

end
