(* ===== verification/Audit_Log.thy ===== *)
theory Audit_Log
  imports Go_Crypto Go_JSON Transition_System
begin

text \<open>
  The audit log (\<open>internal/audit\<close>) and the operator identity it records (\<open>internal/operatoridentity\<close>): a file
  of JSON lines, each event carrying the SHA-256 of its own encoding and of the event before it. A line is what the
  reader sees of it: the decoded event, or none if it does not decode, its length, and whether it ends in a newline.
\<close>

section \<open>Operator identity\<close>

definition forwarded_actor :: "string \<Rightarrow> err + string" where
  "forwarded_actor raw0 =
     (let raw = trim_space raw0 in
      if raw = [] then Inr ''operator''
      else if 128 < length raw then Inl (Err_Msg ''operator identity is too long'')
      else if \<not> list_all id_char raw then Inl (Err_Msg ''operator identity contains unsupported characters'')
      else Inr (''operator:'' @ raw))"

definition with_actor :: "string \<Rightarrow> string" where
  "with_actor actor0 = (let actor = trim_space actor0 in if actor = [] then ''operator'' else actor)"

text \<open>\<open>Actor\<close> of a context that carries an actor or does not.\<close>

definition ctx_actor :: "string option \<Rightarrow> string" where
  "ctx_actor ctx =
     (case ctx of None \<Rightarrow> ''operator'' | Some actor \<Rightarrow> if trim_space actor \<noteq> [] then actor else ''operator'')"

section \<open>Events\<close>

record audit_event =
  ev_sequence :: nat
  ev_id :: string
  ev_timestamp :: time
  ev_kind :: string
  ev_actor :: string
  ev_grant_id :: string
  ev_target :: string
  ev_argv :: "string list"
  ev_decision :: string
  ev_category :: string
  ev_scope_key :: string
  ev_approval_id :: string
  ev_reason :: string
  ev_metadata :: "(string \<times> string) list"
  ev_prev_hash :: string
  ev_hash :: string

record audit_input =
  ai_kind :: string
  ai_actor :: string
  ai_grant_id :: string
  ai_target :: string
  ai_argv :: "string list"
  ai_decision :: string
  ai_category :: string
  ai_scope_key :: string
  ai_approval_id :: string
  ai_reason :: string
  ai_metadata :: "(string \<times> string) list"

text \<open>The encoder writes a map sorted by its keys.\<close>

definition metadata_json :: "(string \<times> string) list \<Rightarrow> jval" where
  "metadata_json m = JObj (map (\<lambda>(k, v). (k, JStr v)) (sort_by (\<lambda>a b. str_less (fst a) (fst b)) m))"

definition event_json :: "audit_event \<Rightarrow> jval" where
  "event_json e = JObj
     ([(''sequence'', JInt (int (ev_sequence e))), (''id'', JStr (ev_id e)), (''timestamp'', jtime (ev_timestamp e)),
       (''kind'', JStr (ev_kind e))]
      @ omit_str ''actor'' (ev_actor e) @ omit_str ''grant_id'' (ev_grant_id e) @ omit_str ''target'' (ev_target e)
      @ (if ev_argv e = [] then [] else [(''argv'', JArr (map JStr (ev_argv e)))])
      @ omit_str ''decision'' (ev_decision e) @ omit_str ''category'' (ev_category e)
      @ omit_str ''scope_key'' (ev_scope_key e) @ omit_str ''approval_id'' (ev_approval_id e)
      @ omit_str ''reason'' (ev_reason e)
      @ (if ev_metadata e = [] then [] else [(''metadata'', metadata_json (ev_metadata e))])
      @ [(''prev_hash'', JStr (ev_prev_hash e)), (''hash'', JStr (ev_hash e))])"

definition event_text :: "audit_event \<Rightarrow> string" where
  "event_text e = json_enc (event_json e)"

definition event_hash :: "audit_event \<Rightarrow> err + string" where
  "event_hash e =
     (if time_marshals (ev_timestamp e) then Inr (sha256_hex (event_text (e\<lparr>ev_hash := []\<rparr>))) else Inl Err_IO)"

definition verify_event_hash :: "audit_event \<Rightarrow> bool" where
  "verify_event_hash e \<longleftrightarrow> event_hash e = Inr (ev_hash e)"

definition event_of :: "nat \<Rightarrow> string \<Rightarrow> time \<Rightarrow> string \<Rightarrow> audit_input \<Rightarrow> audit_event" where
  "event_of sequence previous_hash at i inp =
     \<lparr>ev_sequence = sequence, ev_id = i, ev_timestamp = at, ev_kind = ai_kind inp, ev_actor = ai_actor inp,
      ev_grant_id = ai_grant_id inp, ev_target = ai_target inp, ev_argv = ai_argv inp, ev_decision = ai_decision inp,
      ev_category = ai_category inp, ev_scope_key = ai_scope_key inp, ev_approval_id = ai_approval_id inp,
      ev_reason = ai_reason inp, ev_metadata = ai_metadata inp, ev_prev_hash = previous_hash, ev_hash = []\<rparr>"

definition al_random_id :: "string option \<Rightarrow> err + string" where
  "al_random_id rnd = (case rnd of None \<Rightarrow> Inl Err_Rand | Some b \<Rightarrow> Inr (hex_encode b))"

definition build_event :: "nat \<Rightarrow> string \<Rightarrow> time \<Rightarrow> audit_input \<Rightarrow> string option \<Rightarrow> err + audit_event" where
  "build_event sequence previous_hash at inp rnd =
     (case al_random_id rnd of
        Inl e \<Rightarrow> Inl e
      | Inr i \<Rightarrow>
          (let ev = event_of sequence previous_hash at i inp in
           case event_hash ev of Inl e \<Rightarrow> Inl e | Inr h \<Rightarrow> Inr (ev\<lparr>ev_hash := h\<rparr>)))"

definition resolve_operator_actor :: "string option \<Rightarrow> audit_input \<Rightarrow> audit_input" where
  "resolve_operator_actor ctx inp = (if ai_actor inp = ''operator'' then inp\<lparr>ai_actor := ctx_actor ctx\<rparr> else inp)"

section \<open>The log\<close>

record audit_line =
  ln_event :: "audit_event option"
  ln_length :: nat
  ln_newline :: bool

record audit_log =
  al_sequence :: nat
  al_last_hash :: string
  al_lines :: "audit_line list option"

text \<open>
  What can go wrong in \<open>Append\<close>: a failure before the write, a write that leaves \<open>n\<close> bytes of the line (fewer than all),
  a failing \<open>Sync\<close> after the write. Bytes that follow an unfinished line continue it: an object cut short never
  decodes, whatever object follows it on the line, and neither do two objects on one line.
\<close>

datatype audit_fault = Fault_Before | Fault_Write nat | Fault_Sync

definition add_line :: "audit_line \<Rightarrow> audit_line list option \<Rightarrow> audit_line list option" where
  "add_line x f =
     (case f of
        None \<Rightarrow> Some [x]
      | Some ls \<Rightarrow>
          if ls \<noteq> [] \<and> \<not> ln_newline (last ls)
          then Some (butlast ls @ [\<lparr>ln_event = None, ln_length = ln_length (last ls) + ln_length x, ln_newline = ln_newline x\<rparr>])
          else Some (ls @ [x]))"

definition whole_line :: "audit_event \<Rightarrow> audit_line" where
  "whole_line e = \<lparr>ln_event = Some e, ln_length = length (event_text e), ln_newline = True\<rparr>"

definition torn_line :: "audit_event \<Rightarrow> nat \<Rightarrow> audit_line" where
  "torn_line e n =
     (if length (event_text e) \<le> n then (whole_line e)\<lparr>ln_newline := False\<rparr> else \<lparr>ln_event = None, ln_length = n, ln_newline = False\<rparr>)"

definition al_append ::
  "string option \<Rightarrow> audit_input \<Rightarrow> string option \<Rightarrow> time \<Rightarrow> audit_fault option \<Rightarrow> audit_log \<Rightarrow> audit_log \<times> (err + audit_event)" where
  "al_append ctx inp0 rnd now fault l =
     (if ai_kind inp0 = [] then (l, Inl (Err_Msg ''audit event kind is required''))
      else
        (case build_event (al_sequence l + 1) (al_last_hash l) now (resolve_operator_actor ctx inp0) rnd of
           Inl e \<Rightarrow> (l, Inl e)
         | Inr ev \<Rightarrow>
             (case fault of
                Some Fault_Before \<Rightarrow> (l, Inl Err_IO)
              | Some (Fault_Write n) \<Rightarrow>
                  (if n = 0 then l else l\<lparr>al_lines := add_line (torn_line ev n) (al_lines l)\<rparr>, Inl Err_IO)
              | Some Fault_Sync \<Rightarrow> (l\<lparr>al_lines := add_line (whole_line ev) (al_lines l)\<rparr>, Inl Err_IO)
              | None \<Rightarrow>
                  (\<lparr>al_sequence = ev_sequence ev, al_last_hash = ev_hash ev, al_lines = add_line (whole_line ev) (al_lines l)\<rparr>,
                   Inr ev))))"

text \<open>The scanner's buffer holds at most \<open>4<<20\<close> bytes, the newline included.\<close>

definition max_token :: nat where
  "max_token = 4194304"

fun al_scan :: "nat \<Rightarrow> string \<Rightarrow> audit_line list \<Rightarrow> err + nat \<times> string" where
  "al_scan sq prev [] = Inr (sq, prev)"
| "al_scan sq prev (ln # lns) =
     (if max_token \<le> ln_length ln then Inl Err_IO
      else (case ln_event ln of
          None \<Rightarrow> Inl (Err_Msg ''decode audit event'')
        | Some e \<Rightarrow>
            if ev_sequence e \<noteq> sq + 1 then Inl (Err_Msg ''audit sequence mismatch'')
            else if ev_prev_hash e \<noteq> prev then Inl (Err_Msg ''audit previous hash mismatch'')
            else (case event_hash e of
                Inl er \<Rightarrow> Inl er
              | Inr want \<Rightarrow>
                  if ev_hash e \<noteq> want then Inl (Err_Msg ''audit hash mismatch'')
                  else al_scan (ev_sequence e) (ev_hash e) lns)))"

definition al_open :: "string \<Rightarrow> audit_line list option \<Rightarrow> err + audit_log" where
  "al_open path file =
     (if path = [] then Inl (Err_Msg ''audit log path is empty'')
      else (case file of
          None \<Rightarrow> Inr \<lparr>al_sequence = 0, al_last_hash = [], al_lines = None\<rparr>
        | Some lns \<Rightarrow>
            (case al_scan 0 [] lns of
               Inl e \<Rightarrow> Inl e
             | Inr (sq, prev) \<Rightarrow> Inr \<lparr>al_sequence = sq, al_last_hash = prev, al_lines = Some lns\<rparr>)))"

definition al_read_verified :: "int \<Rightarrow> audit_log \<Rightarrow> err + audit_event list" where
  "al_read_verified limit0 l =
     (let limit = (if limit0 \<le> 0 \<or> 5000 < limit0 then 200 else limit0) in
      case al_lines l of
        None \<Rightarrow> Inr []
      | Some lns \<Rightarrow>
          (case al_scan 0 [] lns of
             Inl e \<Rightarrow> Inl e
           | Inr (sq, prev) \<Rightarrow>
               if sq \<noteq> al_sequence l \<or> prev \<noteq> al_last_hash l then Inl (Err_Msg ''audit log changed unexpectedly'')
               else Inr (take (nat limit) (rev (map (the \<circ> ln_event) lns)))))"

section \<open>The end of an encoded event\<close>

lemma json_ascii_id_char:
  assumes "id_char c"
  shows "json_ascii c = [c]" and "(of_char c :: nat) < 0x80"
proof -
  have "\<forall>b \<in> set [CHR 0x22, CHR 0x5C, CHR 0x08, CHR 0x0C, CHR 0x0A, CHR 0x0D, CHR 0x09, CHR ''<'', CHR ''>'', CHR ''&'']. \<not> id_char b"
    by code_simp
  then have "c \<notin> set [CHR 0x22, CHR 0x5C, CHR 0x08, CHR 0x0C, CHR 0x0A, CHR 0x0D, CHR 0x09, CHR ''<'', CHR ''>'', CHR ''&'']"
    using assms by blast
  moreover have "\<not> (of_char c :: nat) < 0x20" "(of_char c :: nat) < 0x80"
    using assms unfolding id_char_def Let_def by auto
  ultimately show "json_ascii c = [c]" "(of_char c :: nat) < 0x80" by (simp_all add: json_ascii_def Let_def)
qed

lemma json_body_id_chars: "list_all id_char s \<Longrightarrow> json_body s = s"
proof (induction s)
  case (Cons c s)
  then have "json_ascii c = [c]" "(of_char c :: nat) < 0x80" by (simp_all add: json_ascii_id_char)
  with Cons show ?case by (simp add: json_body.simps(2))
qed simp

lemma json_string_hex: "json_string (hex_encode s) = CHR 0x22 # hex_encode s @ [CHR 0x22]"
  by (simp add: json_string_def json_body_id_chars hex_encode_id_chars)

lemma join_with_two:
  "xs \<noteq> [] \<Longrightarrow> join_with d (xs @ [a, b]) = join_with d xs @ d @ a @ d @ b"
proof (induction xs)
  case (Cons x xs)
  show ?case
  proof (cases xs)
    case (Cons y ys)
    with \<open>xs \<noteq> [] \<Longrightarrow> _\<close> show ?thesis by simp
  qed simp
qed simp

lemma event_text_end:
  "\<exists>front. \<forall>p h. event_text (e\<lparr>ev_prev_hash := p, ev_hash := h\<rparr>) =
     front @ json_string p @ '','' @ json_string ''hash'' @ '':'' @ json_string h @ ''}''"
proof -
  obtain fs where fs: "fs \<noteq> []"
    "\<And>p h. event_json (e\<lparr>ev_prev_hash := p, ev_hash := h\<rparr>) = JObj (fs @ [(''prev_hash'', JStr p), (''hash'', JStr h)])"
    by (rule that [of "[(''sequence'', JInt (int (ev_sequence e))), (''id'', JStr (ev_id e)), (''timestamp'', jtime (ev_timestamp e)),
       (''kind'', JStr (ev_kind e))]
      @ omit_str ''actor'' (ev_actor e) @ omit_str ''grant_id'' (ev_grant_id e) @ omit_str ''target'' (ev_target e)
      @ (if ev_argv e = [] then [] else [(''argv'', JArr (map JStr (ev_argv e)))])
      @ omit_str ''decision'' (ev_decision e) @ omit_str ''category'' (ev_category e)
      @ omit_str ''scope_key'' (ev_scope_key e) @ omit_str ''approval_id'' (ev_approval_id e)
      @ omit_str ''reason'' (ev_reason e)
      @ (if ev_metadata e = [] then [] else [(''metadata'', metadata_json (ev_metadata e))])"]) (simp_all add: event_json_def)
  let ?enc = "map (\<lambda>(k, v). json_string k @ '':'' @ v) (map (map_prod id json_enc) fs)"
  have "event_text (e\<lparr>ev_prev_hash := p, ev_hash := h\<rparr>) =
      (''{'' @ join_with '','' ?enc @ '','' @ json_string ''prev_hash'' @ '':'') @
      json_string p @ '','' @ json_string ''hash'' @ '':'' @ json_string h @ ''}''" for p h
    using fs(1) join_with_two [of ?enc "'',''"] by (simp add: event_text_def fs(2))
  then show ?thesis by blast
qed

text \<open>The canonical text of an event, which its hash digests.\<close>

definition canonical :: "audit_event \<Rightarrow> string" where
  "canonical e = event_text (e\<lparr>ev_hash := []\<rparr>)"

lemma canonical_prev:
  assumes "canonical e = canonical e'" and "length (json_string (ev_prev_hash e)) = length (json_string (ev_prev_hash e'))"
    and "valid_utf8 (ev_prev_hash e)" and "valid_utf8 (ev_prev_hash e')"
  shows "ev_prev_hash e = ev_prev_hash e'"
proof -
  let ?tail = "\<lambda>p. json_string p @ '','' @ json_string ''hash'' @ '':'' @ json_string [] @ ''}''"
  have tail: "\<exists>f. canonical x = f @ ?tail (ev_prev_hash x)" for x
  proof -
    obtain f where "\<forall>p h. event_text (x\<lparr>ev_prev_hash := p, ev_hash := h\<rparr>) =
        f @ json_string p @ '','' @ json_string ''hash'' @ '':'' @ json_string h @ ''}''"
      using event_text_end by blast
    then have "event_text (x\<lparr>ev_prev_hash := ev_prev_hash x, ev_hash := []\<rparr>) = f @ ?tail (ev_prev_hash x)" by blast
    then show ?thesis unfolding canonical_def by auto
  qed
  obtain f f' where "canonical e = f @ ?tail (ev_prev_hash e)" "canonical e' = f' @ ?tail (ev_prev_hash e')"
    using tail by blast
  with assms(1) have "f @ ?tail (ev_prev_hash e) = f' @ ?tail (ev_prev_hash e')" using assms(1) by simp
  then have "?tail (ev_prev_hash e) = ?tail (ev_prev_hash e')" using assms(2) by (subst (asm) append_eq_append_conv) auto
  from json_string_inj(1) [OF assms(3,4) this] show ?thesis .
qed

section \<open>Chains\<close>

lemma event_hash_hash [simp]: "event_hash (e\<lparr>ev_hash := h\<rparr>) = event_hash e"
  by (simp add: event_hash_def)

lemma event_hash_eq: "event_hash e = Inr h \<Longrightarrow> h = sha256_hex (canonical e)"
  by (simp add: event_hash_def canonical_def split: if_splits)

lemma build_event_ok:
  assumes "build_event sq prev now inp rnd = Inr ev"
  shows "ev_sequence ev = sq" and "ev_prev_hash ev = prev" and "event_hash ev = Inr (ev_hash ev)"
proof -
  obtain i h where ev: "ev = (event_of sq prev now i inp)\<lparr>ev_hash := h\<rparr>" and h: "event_hash (event_of sq prev now i inp) = Inr h"
    using assms by (auto simp: build_event_def Let_def split: sum.splits)
  show "ev_sequence ev = sq" "ev_prev_hash ev = prev" by (simp_all add: ev event_of_def)
  show "event_hash ev = Inr (ev_hash ev)" using h by (simp add: ev)
qed

lemma al_scan_append:
  "al_scan sq prev (xs @ ys) = (case al_scan sq prev xs of Inl e \<Rightarrow> Inl e | Inr (sq', prev') \<Rightarrow> al_scan sq' prev' ys)"
proof (induction xs arbitrary: sq prev)
  case (Cons x xs)
  then show ?case by (cases "ln_event x") (auto split: sum.splits)
qed simp

lemma al_scan_one:
  "al_scan sq prev [x] = Inr (n, h) \<longleftrightarrow>
     (\<exists>e. ln_event x = Some e \<and> ln_length x < max_token \<and> ev_sequence e = sq + 1 \<and> ev_prev_hash e = prev \<and>
          event_hash e = Inr h \<and> ev_hash e = h \<and> n = sq + 1)"
  by (auto split: option.splits sum.splits)

lemma al_scan_snoc:
  assumes "al_scan sq prev (xs @ [x]) = Inr (n, h)"
  obtains e n' where "al_scan sq prev xs = Inr (n', ev_prev_hash e)" and "ln_event x = Some e" and "event_hash e = Inr h"
  using assms unfolding al_scan_append by (auto simp: al_scan_one split: sum.splits simp del: al_scan.simps)

lemma al_scan_hash:
  assumes "al_scan 0 [] xs = Inr (n, h)"
  shows "if xs = [] then h = [] else \<exists>m. h = sha256_hex m"
proof (cases xs rule: rev_cases)
  case Nil
  with assms show ?thesis by simp
next
  case (snoc ys y)
  with assms show ?thesis by (auto elim!: al_scan_snoc dest: event_hash_eq)
qed

lemma hash_text:
  assumes "h = [] \<and> h' = [] \<or> (\<exists>m. h = sha256_hex m) \<and> (\<exists>m. h' = sha256_hex m)"
  shows "length (json_string h) = length (json_string h')" and "valid_utf8 h" and "valid_utf8 h'"
proof -
  have v: "valid_utf8 (sha256_hex m)" for m
    unfolding sha256_hex_def using hex_encode_id_chars json_ascii_id_char(2)
    by (intro ascii_valid_utf8) (force simp: ascii_def list_all_iff)
  have "length (json_string (sha256_hex m)) = 66" for m
    unfolding sha256_hex_def json_string_hex by simp
  with assms show "length (json_string h) = length (json_string h')" by auto
  show "valid_utf8 h" "valid_utf8 h'" using assms v by auto
qed

lemma chain_determined:
  assumes "al_scan 0 [] xs = Inr (n, h)" and "al_scan 0 [] ys = Inr (m, h)" and "length xs = length ys"
  shows "map (canonical \<circ> the \<circ> ln_event) xs = map (canonical \<circ> the \<circ> ln_event) ys \<or>
         (\<exists>k < length xs. sha256_collision (canonical (the (ln_event (xs ! k)))) (canonical (the (ln_event (ys ! k)))))"
  using assms
proof (induction xs arbitrary: ys n m h rule: rev_induct)
  case (snoc x xs)
  from snoc.prems(3) obtain ys' y where ys: "ys = ys' @ [y]" and len: "length xs = length ys'" by (cases ys rule: rev_cases) auto
  obtain e n' where e: "al_scan 0 [] xs = Inr (n', ev_prev_hash e)" "ln_event x = Some e" "event_hash e = Inr h"
    using snoc.prems(1) by (rule al_scan_snoc)
  obtain e' m' where e': "al_scan 0 [] ys' = Inr (m', ev_prev_hash e')" "ln_event y = Some e'" "event_hash e' = Inr h"
    using snoc.prems(2) unfolding ys by (rule al_scan_snoc)
  have same: "sha256 (canonical e) = sha256 (canonical e')"
    using event_hash_eq [OF e(3)] event_hash_eq [OF e'(3)] by simp
  show ?case
  proof (cases "canonical e = canonical e'")
    case False
    with same e(2) e'(2) have "sha256_collision (canonical (the (ln_event ((xs @ [x]) ! length xs)))) (canonical (the (ln_event (ys ! length xs))))"
      by (simp add: ys len nth_append sha256_collision_def)
    then show ?thesis by (intro disjI2 exI [of _ "length xs"]) simp
  next
    case True
    have "ev_prev_hash e = [] \<and> ev_prev_hash e' = [] \<or>
        (\<exists>m. ev_prev_hash e = sha256_hex m) \<and> (\<exists>m. ev_prev_hash e' = sha256_hex m)"
      using al_scan_hash [OF e(1)] al_scan_hash [OF e'(1)] len by (auto split: if_splits)
    from canonical_prev [OF True hash_text [OF this]] have "al_scan 0 [] ys' = Inr (m', ev_prev_hash e)" using e'(1) by simp
    from snoc.IH [OF e(1) this len] show ?thesis
    proof
      assume "map (canonical \<circ> the \<circ> ln_event) xs = map (canonical \<circ> the \<circ> ln_event) ys'"
      with True e(2) e'(2) show ?thesis unfolding ys by (intro disjI1) (simp add: comp_def)
    next
      assume "\<exists>k < length xs. sha256_collision (canonical (the (ln_event (xs ! k)))) (canonical (the (ln_event (ys' ! k))))"
      then obtain k where "k < length xs" "sha256_collision (canonical (the (ln_event (xs ! k)))) (canonical (the (ln_event (ys' ! k))))"
        by blast
      then show ?thesis using len by (intro disjI2 exI [of _ k]) (simp add: ys nth_append)
    qed
  qed
qed simp

section \<open>Appending\<close>

lemma list_all_last: "list_all P xs \<Longrightarrow> xs = [] \<or> P (last xs)"
  by (cases xs rule: rev_cases) simp_all


definition al_wf :: "audit_log \<Rightarrow> bool" where
  "al_wf l \<longleftrightarrow>
     (case al_lines l of
        None \<Rightarrow> al_sequence l = 0 \<and> al_last_hash l = []
      | Some lns \<Rightarrow> al_scan 0 [] lns = Inr (al_sequence l, al_last_hash l) \<and> list_all ln_newline lns)"

text \<open>Appends that do not leave an unfinished or unconfirmed line behind, of events the reader can hold.\<close>

inductive al_step :: "audit_log \<Rightarrow> audit_log \<Rightarrow> bool" where
  append: "fault \<in> {None, Some Fault_Before, Some (Fault_Write 0)} \<Longrightarrow> al_append ctx inp rnd now fault l = (l', res) \<Longrightarrow>
    (\<And>ev. res = Inr ev \<Longrightarrow> length (event_text ev) < max_token) \<Longrightarrow> al_step l l'"

lemma al_append_ok:
  assumes "al_append ctx inp rnd now fault l = (l', Inr ev)"
  shows "fault = None" and "build_event (al_sequence l + 1) (al_last_hash l) now (resolve_operator_actor ctx inp) rnd = Inr ev"
    and "l' = \<lparr>al_sequence = ev_sequence ev, al_last_hash = ev_hash ev, al_lines = add_line (whole_line ev) (al_lines l)\<rparr>"
  using assms by (auto simp: al_append_def split: if_splits sum.splits option.splits audit_fault.splits)

lemma al_append_scan:
  assumes "al_wf l" and "al_append ctx inp rnd now fault l = (l', Inr ev)" and "length (event_text ev) < max_token"
  shows "al_wf l'"
proof -
  note ev = build_event_ok [OF al_append_ok(2) [OF assms(2)]]
  have one: "al_scan (al_sequence l) (al_last_hash l) [whole_line ev] = Inr (ev_sequence ev, ev_hash ev)"
    unfolding al_scan_one using ev assms(3) by (simp add: whole_line_def)
  show ?thesis
  proof (cases "al_lines l")
    case None
    with assms(1) one show ?thesis
      by (simp add: al_wf_def al_append_ok(3) [OF assms(2)] add_line_def whole_line_def del: al_scan.simps)
  next
    case (Some lns)
    with assms(1) have "lns = [] \<or> ln_newline (last lns)"
      by (intro list_all_last) (simp add: al_wf_def)
    with Some assms(1) one show ?thesis
      by (auto simp: al_wf_def al_append_ok(3) [OF assms(2)] add_line_def al_scan_append whole_line_def simp del: al_scan.simps)
  qed
qed

interpretation al_run: stable_predicate al_step al_wf
proof
  fix l l'
  assume "al_step l l'" and wf: "al_wf l"
  then show "al_wf l'"
  proof cases
    case (append fault ctx inp rnd now res)
    show ?thesis
    proof (cases res)
      case (Inr ev)
      with append wf show ?thesis by (intro al_append_scan [OF wf]) auto
    next
      case (Inl e)
      with append(1,2) have "l' = l"
        by (auto simp: al_append_def split: if_splits sum.splits)
      with wf show ?thesis by simp
    qed
  qed
qed

section \<open>Properties\<close>

definition demo_audit_input :: audit_input where
  "demo_audit_input = \<lparr>ai_kind = ''grant.issued'', ai_actor = ''operator'', ai_grant_id = ''g'', ai_target = [], ai_argv = [],
     ai_decision = [], ai_category = [], ai_scope_key = [], ai_approval_id = [], ai_reason = [], ai_metadata = []\<rparr>"

definition demo_log :: audit_log where
  "demo_log = \<lparr>al_sequence = 0, al_last_hash = [], al_lines = None\<rparr>"

lemma demo_log_wf: "al_wf demo_log"
  by (simp add: al_wf_def demo_log_def)

lemma demo_audit_time: "time_marshals 7"
  by code_simp

lemma demo_append_ok:
  "\<exists>l' ev. al_append None demo_audit_input (Some ''i'') 7 None l = (l', Inr ev)"
  using demo_audit_time
  by (simp add: al_append_def demo_audit_input_def build_event_def al_random_id_def event_hash_def event_of_def
      resolve_operator_actor_def)



text \<open>
  C40. The audit chain is tamper evident: two files that both verify, with the same number of events and the same last
  hash, hold the same canonical text for every event, or exhibit a SHA-256 collision between two events at the same place.
\<close>
theorem audit_tamper_evident:
  assumes "al_open path (Some xs) = Inr l" and "al_open path' (Some ys) = Inr l'"
    and "al_last_hash l = al_last_hash l'" and "length xs = length ys"
  shows "map (canonical \<circ> the \<circ> ln_event) xs = map (canonical \<circ> the \<circ> ln_event) ys \<or>
         (\<exists>k < length xs. sha256_collision (canonical (the (ln_event (xs ! k)))) (canonical (the (ln_event (ys ! k)))))"
  using assms chain_determined [of xs "al_sequence l" "al_last_hash l" ys "al_sequence l'"]
  by (auto simp: al_open_def split: if_splits sum.splits)

lemma event_text_hash_length: "length (event_text (e\<lparr>ev_hash := sha256_hex m\<rparr>)) = length (canonical e) + 64"
proof -
  obtain f where f: "\<forall>p h. event_text (e\<lparr>ev_prev_hash := p, ev_hash := h\<rparr>) =
      f @ json_string p @ '','' @ json_string ''hash'' @ '':'' @ json_string h @ ''}''"
    using event_text_end by blast
  from spec [OF spec [OF f, of "ev_prev_hash e"], of "sha256_hex m"] spec [OF spec [OF f, of "ev_prev_hash e"], of "[]"] show ?thesis
    by (simp add: canonical_def sha256_hex_def json_string_hex json_string_def [of "[]"])
qed

definition demo_event0 :: audit_event where
  "demo_event0 = event_of 1 [] 7 ''69'' demo_audit_input"

definition demo_event :: audit_event where
  "demo_event = demo_event0\<lparr>ev_hash := sha256_hex (canonical demo_event0)\<rparr>"

lemma demo_event_open:
  "al_open ''audit.jsonl'' (Some [whole_line demo_event]) =
     Inr \<lparr>al_sequence = 1, al_last_hash = ev_hash demo_event, al_lines = Some [whole_line demo_event]\<rparr>"
proof -
  have "length (canonical demo_event0) < 500" by code_simp
  then have "length (event_text demo_event) < max_token" by (simp add: demo_event_def event_text_hash_length max_token_def)
  moreover have "event_hash demo_event = Inr (ev_hash demo_event)"
    using demo_audit_time by (simp add: demo_event_def event_hash_def canonical_def) (simp add: demo_event0_def event_of_def)
  ultimately have "al_scan 0 [] [whole_line demo_event] = Inr (1, ev_hash demo_event)"
    unfolding al_scan_one by (simp add: whole_line_def) (simp add: demo_event_def demo_event0_def event_of_def)
  then show ?thesis by (simp add: al_open_def del: al_scan.simps)
qed

theorem audit_tamper_evident_witness:
  "map (canonical \<circ> the \<circ> ln_event) [whole_line demo_event] = map (canonical \<circ> the \<circ> ln_event) [whole_line demo_event] \<or>
   (\<exists>k < length [whole_line demo_event].
      sha256_collision (canonical (the (ln_event ([whole_line demo_event] ! k)))) (canonical (the (ln_event ([whole_line demo_event] ! k)))))"
  by (rule audit_tamper_evident [OF demo_event_open demo_event_open]) simp_all

text \<open>
  A failing \<open>Sync\<close> breaks the log for good: the event is in the file but the log's counters are not advanced, so the next
  successful append repeats the sequence number, and the file is refused at the next start.
\<close>
theorem sync_failure_breaks_log:
  assumes "al_wf l" and "al_append ctx inp rnd now (Some Fault_Sync) l = (l1, Inl Err_IO)"
    and "al_append ctx' inp' rnd' now' None l1 = (l2, Inr ev)"
    and "is_ok (build_event (al_sequence l + 1) (al_last_hash l) now (resolve_operator_actor ctx inp) rnd)" and "ai_kind inp \<noteq> []"
  shows "\<not> is_ok (al_open path (al_lines l2))"
proof -
  obtain ev1 where b1: "build_event (al_sequence l + 1) (al_last_hash l) now (resolve_operator_actor ctx inp) rnd = Inr ev1"
    using assms(4) by (auto simp: is_ok_iff)
  have l1: "l1 = l\<lparr>al_lines := add_line (whole_line ev1) (al_lines l)\<rparr>"
    using assms(2,5) b1 by (simp add: al_append_def)
  note e1 = build_event_ok [OF b1] and ev = build_event_ok [OF al_append_ok(2) [OF assms(3)]]
  obtain lns where lns: "al_scan 0 [] lns = Inr (al_sequence l, al_last_hash l)" "add_line (whole_line ev1) (al_lines l) = Some (lns @ [whole_line ev1])"
  proof (cases "al_lines l")
    case None
    with assms(1) show thesis using that [of "[]"] by (simp add: al_wf_def add_line_def)
  next
    case (Some lns)
    with assms(1) have "lns = [] \<or> ln_newline (last lns)"
      by (intro list_all_last) (simp add: al_wf_def)
    with Some assms(1) show thesis using that [of lns] by (auto simp: al_wf_def add_line_def)
  qed
  have l2: "al_lines l2 = Some ((lns @ [whole_line ev1]) @ [whole_line ev])"
    using al_append_ok(3) [OF assms(3)] l1 lns(2) by (simp add: add_line_def whole_line_def)
  have "\<not> is_ok (al_scan 0 [] ((lns @ [whole_line ev1]) @ [whole_line ev]))"
  proof
    assume "is_ok (al_scan 0 [] ((lns @ [whole_line ev1]) @ [whole_line ev]))"
    then obtain n h where "al_scan 0 [] ((lns @ [whole_line ev1]) @ [whole_line ev]) = Inr (n, h)" by (auto simp: is_ok_iff)
    then have "al_scan (al_sequence l) (al_last_hash l) ([whole_line ev1] @ [whole_line ev]) = Inr (n, h)"
      unfolding append_assoc al_scan_append [of _ _ lns] lns(1) by simp
    then show False using e1 ev l1 unfolding al_scan_append
      by (auto simp: al_scan_one whole_line_def split: sum.splits simp del: al_scan.simps)
  qed
  then show ?thesis by (auto simp: al_open_def l2 is_ok_iff split: sum.splits)
qed

theorem sync_failure_breaks_log_witness:
  "\<exists>l2. fst (al_append None demo_audit_input (Some ''i'') 7 None
            (fst (al_append None demo_audit_input (Some ''i'') 7 (Some Fault_Sync) demo_log))) = l2 \<and>
        \<not> is_ok (al_open ''audit.jsonl'' (al_lines l2))"
proof -
  let ?l1 = "fst (al_append None demo_audit_input (Some ''i'') 7 (Some Fault_Sync) demo_log)"
  have b: "is_ok (build_event (al_sequence demo_log + 1) (al_last_hash demo_log) 7 (resolve_operator_actor None demo_audit_input) (Some ''i''))"
    and k: "ai_kind demo_audit_input \<noteq> []"
    using demo_audit_time
    by (simp_all add: build_event_def al_random_id_def event_hash_def event_of_def resolve_operator_actor_def demo_audit_input_def)
  have "al_append None demo_audit_input (Some ''i'') 7 (Some Fault_Sync) demo_log = (?l1, Inl Err_IO)"
    using b k by (auto simp: al_append_def is_ok_iff)
  moreover obtain l2 ev where "al_append None demo_audit_input (Some ''i'') 7 None ?l1 = (l2, Inr ev)" using demo_append_ok by blast
  ultimately show ?thesis using sync_failure_breaks_log [OF demo_log_wf _ _ b k] by (metis fst_conv)
qed

lemma join_with_member: "x \<in> set xs \<Longrightarrow> length x \<le> length (join_with d xs)"
  by (induction d xs rule: join_with.induct) auto

lemma json_arr_member: "v \<in> set vs \<Longrightarrow> length (json_enc v) \<le> length (json_enc (JArr vs))"
  using join_with_member [of "json_enc v" "map json_enc vs" "'',''"] by simp

lemma json_obj_member:
  assumes "(k, v) \<in> set fs"
  shows "length (json_enc v) \<le> length (json_enc (JObj fs))"
proof -
  have "json_string k @ '':'' @ json_enc v \<in> set (map (\<lambda>(k, v). json_string k @ '':'' @ v) (map (map_prod id json_enc) fs))"
    using assms by force
  from join_with_member [OF this, of "'',''"] show ?thesis by simp
qed

lemma event_argv_length:
  assumes "a \<in> set (ev_argv e)"
  shows "length (json_string a) \<le> length (event_text e)"
proof -
  have "length (json_enc (JStr a)) \<le> length (json_enc (JArr (map JStr (ev_argv e))))"
    using assms by (intro json_arr_member) simp
  also have "\<dots> \<le> length (event_text e)"
    unfolding event_text_def event_json_def using assms by (intro json_obj_member [of "''argv''"]) auto
  finally show ?thesis by simp
qed

lemma json_string_angles: "length (json_string (replicate n (CHR ''<''))) = 6 * n + 2"
proof -
  have "json_ascii (CHR ''<'') = CHR 0x5C # ''u003c''" by code_simp
  then have "length (json_body (replicate n (CHR ''<''))) = 6 * n" by (induction n) (simp_all add: json_body.simps(2))
  then show ?thesis by (simp add: json_string_def)
qed

text \<open>
  \<open>Append\<close> accepts events its own reader cannot hold: an event whose line has 4 MiB or more is appended with success,
  and from then on the log is refused at every start and every verified read.
\<close>
theorem oversized_event_breaks_log:
  assumes "al_wf l" and "al_append ctx inp rnd now fault l = (l1, Inr ev)" and "max_token \<le> length (event_text ev)"
  shows "\<not> is_ok (al_open path (al_lines l1)) \<and> \<not> is_ok (al_read_verified limit l1)"
proof -
  have bad: "\<not> is_ok (al_scan sq prev (lns @ [whole_line ev]))" for sq prev lns
    unfolding al_scan_append using assms(3) by (simp add: is_ok_def whole_line_def split: sum.splits)
  obtain lns where "al_lines l1 = Some (lns @ [whole_line ev])"
  proof (cases "al_lines l")
    case None
    then show thesis using that [of "[]"] al_append_ok(3) [OF assms(2)] by (simp add: add_line_def)
  next
    case (Some lns)
    with assms(1) have "lns = [] \<or> ln_newline (last lns)"
      by (intro list_all_last) (simp add: al_wf_def)
    with Some show thesis using that [of lns] al_append_ok(3) [OF assms(2)] by (auto simp: add_line_def)
  qed
  with bad [of 0 "[]" lns] show ?thesis
    by (auto simp: al_open_def al_read_verified_def Let_def is_ok_iff split: sum.splits prod.splits)
qed

theorem oversized_event_breaks_log_witness:
  "\<exists>l1 ev. al_append None (demo_audit_input\<lparr>ai_argv := [replicate 700000 (CHR ''<'')]\<rparr>) (Some ''i'') 7 None demo_log = (l1, Inr ev) \<and>
     \<not> is_ok (al_open ''audit.jsonl'' (al_lines l1))"
proof -
  let ?in = "demo_audit_input\<lparr>ai_argv := [replicate 700000 (CHR ''<'')]\<rparr>"
  obtain l1 ev where a: "al_append None ?in (Some ''i'') 7 None demo_log = (l1, Inr ev)"
    using demo_audit_time
    by (fastforce simp: al_append_def demo_audit_input_def build_event_def al_random_id_def event_hash_def event_of_def
        resolve_operator_actor_def)
  have "ev_argv ev = [replicate 700000 (CHR ''<'')]"
    using al_append_ok(2) [OF a]
    by (auto simp: build_event_def Let_def event_of_def resolve_operator_actor_def split: sum.splits if_splits)
  then have "length (json_string (replicate 700000 (CHR ''<''))) \<le> length (event_text ev)"
    by (intro event_argv_length) simp
  then have "max_token \<le> length (event_text ev)" unfolding json_string_angles max_token_def by simp
  with oversized_event_breaks_log [OF demo_log_wf a] a show ?thesis by blast
qed

end
