(* ===== verification/Execution_Output.thy ===== *)
theory Execution_Output
  imports Go_Strings Transition_System
begin

text \<open>
  The store of captured execution output (\<open>internal/executionoutput\<close>): two byte streams per job, bounded in size,
  in a file that is replaced at every write.
\<close>

section \<open>Data\<close>

record exec_output =
  eo_stdout :: string
  eo_stderr :: string
  eo_stdout_truncated :: bool
  eo_stderr_truncated :: bool

definition max_stream_bytes :: nat where
  "max_stream_bytes = 262144"

definition eo_empty :: "exec_output \<Rightarrow> bool" where
  "eo_empty o1 \<longleftrightarrow> length (eo_stdout o1) = 0 \<and> length (eo_stderr o1) = 0 \<and> \<not> eo_stdout_truncated o1 \<and> \<not> eo_stderr_truncated o1"

definition eo_validate :: "exec_output \<Rightarrow> err option" where
  "eo_validate o1 =
     (if max_stream_bytes < length (eo_stdout o1) \<or> max_stream_bytes < length (eo_stderr o1)
      then Some (Err_Msg ''captured execution output exceeds per-stream limit'') else None)"

record output_store =
  os_outputs :: "(string \<times> exec_output) list"
  os_disk :: "(string \<times> exec_output) list option"

text \<open>What \<open>OpenFile\<close> finds at its path.\<close>

datatype output_file =
    Out_Missing | Out_Stat_Error | Out_Irregular | Out_Group_Access | Out_Read_Error | Out_Undecodable
  | Out_Records "(string \<times> exec_output) list"

section \<open>Operations\<close>

fun eo_load :: "(string \<times> exec_output) list \<Rightarrow> (string \<times> exec_output) list \<Rightarrow> err + (string \<times> exec_output) list" where
  "eo_load [] outs = Inr outs"
| "eo_load ((i, o1) # rs) outs =
     (if trim_space i = [] then Inl (Err_Msg ''execution output store contains an empty job id'')
      else (case eo_validate o1 of
          Some e \<Rightarrow> Inl e
        | None \<Rightarrow>
            if map_of outs i \<noteq> None then Inl (Err_Msg ''execution output store contains duplicate job ids'')
            else eo_load rs (AList.update i o1 outs)))"

definition eo_open :: "string \<Rightarrow> output_file \<Rightarrow> err + output_store" where
  "eo_open path file =
     (if trim_space path = [] then Inl (Err_Msg ''execution output store path is empty'')
      else (case file of
          Out_Missing \<Rightarrow> Inr \<lparr>os_outputs = [], os_disk = None\<rparr>
        | Out_Stat_Error \<Rightarrow> Inl Err_IO
        | Out_Irregular \<Rightarrow> Inl (Err_Msg ''execution output store must be a regular non-symlink file'')
        | Out_Group_Access \<Rightarrow> Inl (Err_Msg ''execution output store must not be group/other accessible'')
        | Out_Read_Error \<Rightarrow> Inl Err_IO
        | Out_Undecodable \<Rightarrow> Inl Err_IO
        | Out_Records rs \<Rightarrow>
            (case eo_load rs [] of Inl e \<Rightarrow> Inl e | Inr outs \<Rightarrow> Inr \<lparr>os_outputs = outs, os_disk = Some rs\<rparr>)))"

definition eo_persist :: "fs_fault \<Rightarrow> output_store \<Rightarrow> output_store \<times> err option" where
  "eo_persist fault s =
     (case atomic_replace fault (os_disk s) (Some (sort_by (\<lambda>a b. str_less (fst a) (fst b)) (os_outputs s))) of
        (d, e) \<Rightarrow> (s\<lparr>os_disk := d\<rparr>, e))"

definition eo_put :: "string \<Rightarrow> exec_output \<Rightarrow> fs_fault \<Rightarrow> output_store \<Rightarrow> output_store \<times> err option" where
  "eo_put job_id0 out fault s =
     (let job_id = trim_space job_id0 in
      if job_id = [] \<or> 128 < length job_id then (s, Some (Err_Msg ''valid job id is required''))
      else (case eo_validate out of
          Some e \<Rightarrow> (s, Some e)
        | None \<Rightarrow>
            (case eo_persist fault (s\<lparr>os_outputs := AList.update job_id out (os_outputs s)\<rparr>) of
               (s1, Some e) \<Rightarrow>
                 (case map_of (os_outputs s) job_id of
                    Some old \<Rightarrow> (s1\<lparr>os_outputs := AList.update job_id old (os_outputs s1)\<rparr>, Some e)
                  | None \<Rightarrow> (s1\<lparr>os_outputs := AList.delete job_id (os_outputs s1)\<rparr>, Some e))
             | (s1, None) \<Rightarrow> (s1, None))))"

definition eo_output_by_id :: "string \<Rightarrow> output_store \<Rightarrow> exec_output option" where
  "eo_output_by_id job_id s = map_of (os_outputs s) (trim_space job_id)"

section \<open>Properties\<close>

lemma eo_put_eq:
  "eo_put job_id out fault s =
     (if trim_space job_id = [] \<or> 128 < length (trim_space job_id) then (s, Some (Err_Msg ''valid job id is required''))
      else (case eo_validate out of Some e \<Rightarrow> (s, Some e)
        | None \<Rightarrow> (case fault of Some _ \<Rightarrow> (s, Some Err_IO)
           | None \<Rightarrow>
               (\<lparr>os_outputs = AList.update (trim_space job_id) out (os_outputs s),
                 os_disk = Some (sort_by (\<lambda>a b. str_less (fst a) (fst b)) (AList.update (trim_space job_id) out (os_outputs s)))\<rparr>, None))))"
  by (auto simp: eo_put_def eo_persist_def Let_def update_same delete_update_absent split: option.splits)

text \<open>
  Writing and reading captured output agree: a successful \<open>Put\<close> makes exactly this job's output readable, within the
  256 KiB limit per stream, and leaves every other job's output as it was; a failing \<open>Put\<close>, the failing write included,
  changes nothing, in memory or on disk.
\<close>
theorem output_put_get:
  "case eo_put i out fault s of
     (t, None) \<Rightarrow> eo_output_by_id i t = Some out \<and> length (eo_stdout out) \<le> max_stream_bytes \<and>
                  length (eo_stderr out) \<le> max_stream_bytes \<and> fault = None \<and> os_disk t \<noteq> None \<and>
                  map_of (os_outputs t) = (map_of (os_outputs s))(trim_space i \<mapsto> out)
   | (t, Some e) \<Rightarrow> t = s"
  by (auto simp: eo_put_eq eo_output_by_id_def eo_validate_def split: option.splits if_splits)

end
