(* ===== verification/Control_Ops.thy ===== *)
theory Control_Ops
  imports Capability Approval Execution_Job_Props Audit_Log Execution_Output
begin

text \<open>
  The control plane's operations in file mode (\<open>internal/controlops\<close> and \<open>internal/emergencyapi/controller.go\<close>): the
  sequences over the authority, the approval store, the job store, the output store and the audit log that make up one
  request. What the outside world decides during one request - the clocks, the random bytes, the faults of each write - is
  the record \<open>env\<close>; each place of the code that reads a clock or writes a file has its own number. A sequence is one
  step here: submission, claim, start and revocation of a grant run under \<open>executionMu\<close> in the code.
\<close>

section \<open>State and environment\<close>

record control =
  ct_auth :: authority
  ct_approvals :: ap_store
  ct_jobs :: job_store
  ct_output :: "output_store option"
  ct_audit :: audit_log

record env =
  e_clock :: "nat \<Rightarrow> time"          \<comment> \<open>the clock at the n-th place of the request that reads it\<close>
  e_ctx :: "string option"         \<comment> \<open>the operator identity of the request\<close>
  e_rnd_id :: "string option"      \<comment> \<open>random bytes: a new ID\<close>
  e_rnd_token :: "string option"   \<comment> \<open>random bytes: a token\<close>
  e_fault :: "nat \<Rightarrow> fs_fault"      \<comment> \<open>of the n-th write of the request\<close>
  e_audit :: "nat \<Rightarrow> string option \<times> time \<times> audit_fault option"
                                   \<comment> \<open>random bytes, clock and fault of the n-th audit event\<close>
  e_err_text :: "err \<Rightarrow> string"     \<comment> \<open>the text of an error\<close>

definition co_append :: "env \<Rightarrow> nat \<Rightarrow> audit_input \<Rightarrow> control \<Rightarrow> control \<times> (err + audit_event)" where
  "co_append env k inp c =
     (case e_audit env k of (rnd, now, fault) \<Rightarrow>
      case al_append (e_ctx env) inp rnd now fault (ct_audit c) of (l, r) \<Rightarrow> (c\<lparr>ct_audit := l\<rparr>, r))"

definition co_cancel :: "env \<Rightarrow> string \<Rightarrow> control \<Rightarrow> control" where
  "co_cancel env i c = c\<lparr>ct_jobs := fst (ej_cancel_pending i (e_fault env 1) (ct_jobs c))\<rparr>"

definition no_input :: audit_input where
  "no_input = \<lparr>ai_kind = [], ai_actor = [], ai_grant_id = [], ai_target = [], ai_argv = [], ai_decision = [], ai_category = [],
     ai_scope_key = [], ai_approval_id = [], ai_reason = [], ai_metadata = []\<rparr>"

section \<open>Authorization of a staged job\<close>

definition submission_denied_event :: "job \<Rightarrow> risk_result \<Rightarrow> audit_input" where
  "submission_denied_event j r = no_input\<lparr>ai_kind := ''command.submission_denied'', ai_actor := j_agent j,
     ai_grant_id := j_grant_id j, ai_target := j_target j, ai_argv := j_argv j, ai_decision := ''deny'',
     ai_category := r_category r, ai_scope_key := r_scope_key r, ai_reason := ''policy denied staged job before publication'',
     ai_metadata := [(''request_id'', j_request_id j)]\<rparr>"

definition job_authorized_event :: "job \<Rightarrow> risk_result \<Rightarrow> string \<Rightarrow> audit_input" where
  "job_authorized_event j r agent_reason = no_input\<lparr>ai_kind := ''execution.job_authorized'', ai_actor := j_agent j,
     ai_grant_id := j_grant_id j, ai_target := j_target j, ai_argv := j_argv j, ai_decision := ''allow'',
     ai_category := r_category r, ai_scope_key := r_scope_key r, ai_approval_id := j_approval_id j,
     ai_reason := trim_space agent_reason,
     ai_metadata := [(''job_id'', j_id j), (''request_id'', j_request_id j), (''command_sha256'', j_command_sha256 j),
       (''expires_at'', rfc3339_nano (j_expires_at j))]\<rparr>"

definition check_approval :: "job \<Rightarrow> risk_result \<Rightarrow> control \<Rightarrow> err + ap_request option" where
  "check_approval j r c =
     (if r_decision r \<noteq> ApprovalRequired then Inr None
      else if j_approval_id j = [] then Inl Err_ApprovalInvalid
      else (case ap_get (j_approval_id j) (ct_approvals c) of
          None \<Rightarrow> Inl Err_ApprovalInvalid
        | Some item \<Rightarrow>
            if ar_grant_id item \<noteq> j_grant_id j \<or> ar_target item \<noteq> j_target j \<or> ar_category item \<noteq> r_category r \<or>
               ar_scope_key item \<noteq> r_scope_key r
            then Inl Err_ApprovalInvalid
            else (case ar_decision item of
                Ap_Deny \<Rightarrow> Inl Err_AuthorizationDenied
              | Ap_AllowSession \<Rightarrow>
                  if ar_status item \<noteq> Ap_Decided \<or> \<not> session_approval_allowed_category (ar_category item)
                  then Inl Err_ApprovalInvalid else Inr (Some item)
              | Ap_AllowOnce \<Rightarrow> if ar_status item \<noteq> Ap_Decided then Inl Err_ApprovalInvalid else Inr (Some item)
              | _ \<Rightarrow> Inl Err_ApprovalInvalid)))"

definition consume_once :: "env \<Rightarrow> ap_request option \<Rightarrow> control \<Rightarrow> control \<times> err option" where
  "consume_once env item c =
     (case item of
        None \<Rightarrow> (c, None)
      | Some a \<Rightarrow>
          if ar_decision a = Ap_AllowOnce then
            (case ap_consume_allow_once (ar_id a) (e_fault env 2) (ct_approvals c) of
               (s, Inl e) \<Rightarrow> (c\<lparr>ct_approvals := s\<rparr>, Some e)
             | (s, Inr _) \<Rightarrow> (c\<lparr>ct_approvals := s\<rparr>, None))
          else (c, None))"

definition publish_authorized :: "env \<Rightarrow> job \<Rightarrow> control \<Rightarrow> control \<times> (err + job)" where
  "publish_authorized env j c =
     (case ej_publish (j_id j) (e_clock env 1) (e_fault env 0) (ct_jobs c) of
        (s, Inl e) \<Rightarrow>
          (let c1 = c\<lparr>ct_jobs := s\<rparr> in (if e \<noteq> Err_JobExpired then co_cancel env (j_id j) c1 else c1, Inl e))
      | (s, Inr p) \<Rightarrow> (c\<lparr>ct_jobs := s\<rparr>, Inr p))"

definition co_authorize :: "env \<Rightarrow> string \<Rightarrow> string \<Rightarrow> control \<Rightarrow> control \<times> risk_result option \<times> (err + job)" where
  "co_authorize env i agent_reason c =
     (case ej_by_id i (ct_jobs c) of
        Inl e \<Rightarrow> (c, None, Inl e)
      | Inr None \<Rightarrow> (c, None, Inl Err_NotPending)
      | Inr (Some j) \<Rightarrow>
        if j_status j \<noteq> Staged then (c, None, Inl Err_NotPending)
        else
        (let r = classify (j_argv j) in
         if \<not> verify_binding j then (co_cancel env (j_id j) c, Some r, Inl Err_Integrity)
         else if \<not> is_ok (cap_authenticate_id (auth_service (ct_auth c)) (j_grant_id j) (e_clock env 0)) then
           (co_cancel env (j_id j) c, Some r, Inl Err_GrantInactive)
         else if r_decision r = Deny then
           (fst (co_append env 0 (submission_denied_event j r) (co_cancel env (j_id j) c)), Some r, Inl Err_AuthorizationDenied)
         else
           (case check_approval j r c of
              Inl e \<Rightarrow> (co_cancel env (j_id j) c, Some r, Inl e)
            | Inr item \<Rightarrow>
              (case co_append env 0 (job_authorized_event j r agent_reason) c of
                 (c1, Inl e) \<Rightarrow> (co_cancel env (j_id j) c1, Some r, Inl e)
               | (c1, Inr _) \<Rightarrow>
                 (case consume_once env item c1 of
                    (c2, Some e) \<Rightarrow> (co_cancel env (j_id j) c2, Some r, Inl e)
                  | (c2, None) \<Rightarrow>
                    (case publish_authorized env j c2 of (c3, p) \<Rightarrow> (c3, Some r, p)))))))"

section \<open>Execution lifecycle\<close>

definition job_event :: "string \<Rightarrow> string \<Rightarrow> string \<Rightarrow> string \<Rightarrow> job \<Rightarrow> (string \<times> string) list \<Rightarrow> audit_input" where
  "job_event kind actor decision reason j metadata = no_input\<lparr>ai_kind := kind, ai_actor := trim_space actor,
     ai_grant_id := j_grant_id j, ai_target := j_target j, ai_argv := j_argv j, ai_decision := decision,
     ai_category := j_risk_category j, ai_scope_key := j_scope_key j, ai_approval_id := j_approval_id j, ai_reason := reason,
     ai_metadata := [(''job_id'', j_id j), (''request_id'', j_request_id j)] @ metadata\<rparr>"

definition co_reject :: "env \<Rightarrow> string \<Rightarrow> string \<Rightarrow> string \<Rightarrow> control \<Rightarrow> control" where
  "co_reject env i tok kind c =
     c\<lparr>ct_jobs := fst (ej_reject_claim i tok kind (e_clock env 1) (e_fault env 1) (ct_jobs c))\<rparr>"

definition co_claim :: "env \<Rightarrow> string \<Rightarrow> control \<Rightarrow> control \<times> (err + job \<times> string)" where
  "co_claim env worker_id c =
     (case ej_claim (e_rnd_token env) (e_clock env 1) (e_fault env 0) (ct_jobs c) of
        (s, Inl e) \<Rightarrow> (c\<lparr>ct_jobs := s\<rparr>, Inl e)
      | (s, Inr (j, tok)) \<Rightarrow>
          (case co_append env 0 (job_event ''execution.job_claimed'' worker_id [] [] j [(''command_sha256'', j_command_sha256 j)])
                  (c\<lparr>ct_jobs := s\<rparr>) of
             (c1, Inl e) \<Rightarrow> (co_reject env (j_id j) tok ''audit_failure_before_execution'' c1, Inl e)
           | (c1, Inr _) \<Rightarrow> (c1, Inr (j, tok))))"

definition co_start :: "env \<Rightarrow> string \<Rightarrow> string \<Rightarrow> string \<Rightarrow> control \<Rightarrow> control \<times> (err + job)" where
  "co_start env i tok worker_id c =
     (case ej_by_id i (ct_jobs c) of
        Inl e \<Rightarrow> (c, Inl e)
      | Inr None \<Rightarrow> (c, Inl Err_InvalidClaim)
      | Inr (Some j) \<Rightarrow>
        if \<not> is_ok (cap_authenticate_id (auth_service (ct_auth c)) (j_grant_id j) (e_clock env 0)) then
          (fst (co_append env 0
             (job_event ''execution.job_rejected'' worker_id ''deny'' ''grant inactive before execution start'' j [])
             (co_reject env (j_id j) tok ''grant_inactive_before_execution'' c)), Inl Err_InvalidClaim)
        else
        (case ej_start (j_id j) tok (e_clock env 1) (e_fault env 0) (ct_jobs c) of
           (s, Inl e) \<Rightarrow> (c\<lparr>ct_jobs := s\<rparr>, Inl e)
         | (s, Inr started) \<Rightarrow>
           (case co_append env 0
               (job_event ''execution.job_started'' worker_id ''allow'' [] started [(''command_sha256'', j_command_sha256 started)])
               (c\<lparr>ct_jobs := s\<rparr>) of
              (c1, Inl e) \<Rightarrow> (co_reject env (j_id started) tok ''audit_failure_at_execution_start'' c1, Inl e)
            | (c1, Inr _) \<Rightarrow> (c1, Inr started))))"

definition completion_metadata :: "job \<Rightarrow> job_result \<Rightarrow> exec_output \<Rightarrow> (string \<times> string) list" where
  "completion_metadata j result out =
     [(''command_sha256'', j_command_sha256 j), (''success'', dec_bool (res_success result)),
      (''exit_code'', dec_int (res_exit_code result)), (''output_sha256'', res_output_sha256 result),
      (''error_kind'', res_error_kind result), (''stdout_bytes'', dec_nat (length (eo_stdout out))),
      (''stderr_bytes'', dec_nat (length (eo_stderr out))), (''stdout_truncated'', dec_bool (eo_stdout_truncated out)),
      (''stderr_truncated'', dec_bool (eo_stderr_truncated out))]"

definition store_output :: "env \<Rightarrow> string \<Rightarrow> exec_output \<Rightarrow> control \<Rightarrow> control \<times> err option" where
  "store_output env i out c =
     (if eo_empty out then (c, None)
      else (case ct_output c of
          None \<Rightarrow> (c, Some (Err_Msg ''execution output store unavailable''))
        | Some s \<Rightarrow> (case eo_put i out (e_fault env 1) s of (s', e) \<Rightarrow> (c\<lparr>ct_output := Some s'\<rparr>, e))))"

text \<open>A failing audit of the completion returns the job and the error; the job stays completed.\<close>

definition co_complete_with_output ::
  "env \<Rightarrow> string \<Rightarrow> string \<Rightarrow> string \<Rightarrow> job_result \<Rightarrow> exec_output \<Rightarrow> control \<Rightarrow> control \<times> (err + job)" where
  "co_complete_with_output env i tok worker_id result out c =
     (case eo_validate out of
        Some e \<Rightarrow> (c, Inl e)
      | None \<Rightarrow>
        (case store_output env i out c of
           (c1, Some e) \<Rightarrow> (c1, Inl e)
         | (c1, None) \<Rightarrow>
           (case ej_complete i tok result (e_clock env 1) (e_fault env 0) (ct_jobs c1) of
              (s, Inl e) \<Rightarrow> (c1\<lparr>ct_jobs := s\<rparr>, Inl e)
            | (s, Inr j) \<Rightarrow>
              (case co_append env 0 (job_event ''execution.job_completed'' worker_id (status_text (j_status j)) [] j
                      (completion_metadata j result out)) (c1\<lparr>ct_jobs := s\<rparr>) of
                 (c2, Inl e) \<Rightarrow> (c2, Inl e)
               | (c2, Inr _) \<Rightarrow> (c2, Inr j)))))"

definition co_complete :: "env \<Rightarrow> string \<Rightarrow> string \<Rightarrow> string \<Rightarrow> job_result \<Rightarrow> control \<Rightarrow> control \<times> (err + job)" where
  "co_complete env i tok worker_id result c =
     co_complete_with_output env i tok worker_id result
       \<lparr>eo_stdout = [], eo_stderr = [], eo_stdout_truncated = False, eo_stderr_truncated = False\<rparr> c"

section \<open>Approval lifecycle\<close>

definition co_request_approval :: "env \<Rightarrow> ap_request \<Rightarrow> string \<Rightarrow> control \<Rightarrow> control \<times> (err + ap_request \<times> bool)" where
  "co_request_approval env req request_id c =
     (case ap_new req (e_rnd_id env) (e_clock env 1) (e_fault env 2) (ct_approvals c) of
        (s, Inl e) \<Rightarrow> (c\<lparr>ct_approvals := s\<rparr>, Inl e)
      | (s, Inr (item, created)) \<Rightarrow>
          if \<not> created then (c\<lparr>ct_approvals := s\<rparr>, Inr (item, created))
          else (case co_append env 0
              (no_input\<lparr>ai_kind := ''approval.requested'', ai_actor := ar_agent item, ai_grant_id := ar_grant_id item,
                 ai_target := ar_target item, ai_argv := ar_argv item, ai_decision := ''approval_required'',
                 ai_category := ar_category item, ai_scope_key := ar_scope_key item, ai_approval_id := ar_id item,
                 ai_reason := ar_agent_reason item, ai_metadata := [(''request_id'', request_id)]\<rparr>)
              (c\<lparr>ct_approvals := s\<rparr>) of
             (c1, Inl e) \<Rightarrow> (c1, Inl e)
           | (c1, Inr _) \<Rightarrow> (c1, Inr (item, True))))"

fun decision_text :: "ap_decision \<Rightarrow> string" where
  "decision_text Ap_No_Decision = []"
| "decision_text Ap_Deny = ''deny''"
| "decision_text Ap_AllowOnce = ''allow_once''"
| "decision_text Ap_AllowSession = ''allow_session''"
| "decision_text (Ap_Other_Decision t) = t"

definition co_decide :: "env \<Rightarrow> string \<Rightarrow> ap_decision \<Rightarrow> string \<Rightarrow> control \<Rightarrow> control \<times> (err + ap_request)" where
  "co_decide env i decision actor c =
     (case ap_decide i decision actor (e_clock env 1) (e_fault env 2) (ct_approvals c) of
        (s, Inl e) \<Rightarrow> (c\<lparr>ct_approvals := s\<rparr>, Inl e)
      | (s, Inr item) \<Rightarrow>
          (case co_append env 0
              (no_input\<lparr>ai_kind := ''approval.decided'', ai_actor := actor, ai_grant_id := ar_grant_id item,
                 ai_target := ar_target item, ai_argv := ar_argv item, ai_decision := decision_text (ar_decision item),
                 ai_category := ar_category item, ai_scope_key := ar_scope_key item, ai_approval_id := ar_id item\<rparr>)
              (c\<lparr>ct_approvals := s\<rparr>) of
             (c1, Inl e) \<Rightarrow> (c1, Inl e)
           | (c1, Inr _) \<Rightarrow> (c1, Inr item)))"

section \<open>Grant lifecycle\<close>

definition co_issue :: "env \<Rightarrow> grant \<Rightarrow> control \<Rightarrow> control \<times> (err + grant \<times> string)" where
  "co_issue env g c =
     (case cap_issue (e_rnd_id env) (e_rnd_token env) (e_clock env 1) (e_fault env 0) g (auth_service (ct_auth c)) of
        (s, Inl e) \<Rightarrow> (c\<lparr>ct_auth := auth_of s (ct_auth c)\<rparr>, Inl e)
      | (s, Inr (created, token)) \<Rightarrow>
          (case co_append env 0
              (no_input\<lparr>ai_kind := ''grant.issued'', ai_actor := ''operator'', ai_grant_id := g_id created,
                 ai_reason := g_purpose created, ai_metadata := [(''agent'', g_agent created)]\<rparr>)
              (c\<lparr>ct_auth := auth_of s (ct_auth c)\<rparr>) of
             (c1, Inl e) \<Rightarrow>
               (c1\<lparr>ct_auth := auth_of (fst (cap_revoke (g_id created) (g_issued_at created) (e_fault env 1) (auth_service (ct_auth c1))))
                    (ct_auth c1)\<rparr>, Inl e)
           | (c1, Inr _) \<Rightarrow> (c1, Inr (created, token))))"

text \<open>
  \<open>Revoke\<close> returns the number of canceled jobs with the error, if any; the result of the operation here is that number or
  the error.
\<close>

definition co_revoke :: "env \<Rightarrow> string \<Rightarrow> time \<Rightarrow> control \<Rightarrow> control \<times> (err + nat)" where
  "co_revoke env i at c =
     (case cap_revoke i at (e_fault env 0) (auth_service (ct_auth c)) of
        (s, Some e) \<Rightarrow> (c\<lparr>ct_auth := auth_of s (ct_auth c)\<rparr>, Inl e)
      | (s, None) \<Rightarrow>
          (let c1 = c\<lparr>ct_auth := auth_of s (ct_auth c)\<rparr>;
               (js, canceled) = ej_cancel_pending_by_grant i (e_fault env 1) (ct_jobs c1);
               c2 = c1\<lparr>ct_jobs := js\<rparr>;
               n = (case canceled of Inl _ \<Rightarrow> 0 | Inr k \<Rightarrow> k);
               (c3, audited) = co_append env 0
                 (no_input\<lparr>ai_kind := ''grant.revoked'', ai_actor := ''operator'', ai_grant_id := i,
                    ai_metadata := [(''canceled_unclaimed_jobs'', dec_nat n)]
                      @ (if is_ok canceled then [] else [(''job_cancellation_error'', ''true'')])\<rparr>) c2
           in (c3, (case canceled of Inl e \<Rightarrow> Inl e | Inr k \<Rightarrow> (case audited of Inl e \<Rightarrow> Inl e | Inr _ \<Rightarrow> Inr k)))))"

section \<open>The emergency controller\<close>

definition revoke_all_metadata :: "em_state \<Rightarrow> err + nat \<Rightarrow> (string \<times> string) list" where
  "revoke_all_metadata st canceled =
     [(''epoch'', dec_nat (unat (em_epoch st))),
      (''canceled_not_running_jobs'', dec_nat (case canceled of Inl _ \<Rightarrow> 0 | Inr k \<Rightarrow> k))]"

definition co_revoke_all :: "env \<Rightarrow> string \<Rightarrow> time \<Rightarrow> control \<Rightarrow> control \<times> em_state \<times> err option" where
  "co_revoke_all env reason at c =
     (let (em, st, state_err) = em_revoke_all reason at (e_fault env 0) (au_em (ct_auth c));
          c1 = c\<lparr>ct_auth := (ct_auth c)\<lparr>au_em := em\<rparr>\<rparr>;
          (js, canceled) = ej_cancel_not_running_all ''global_revoke_all'' (e_clock env 1) (e_fault env 1) (ct_jobs c1);
          c2 = c1\<lparr>ct_jobs := js\<rparr>;
          (c3, audited) = co_append env 0
            (no_input\<lparr>ai_kind := ''emergency.revoke_all'', ai_actor := ''operator'', ai_reason := trim_space reason,
               ai_metadata := revoke_all_metadata st canceled
                 @ (case state_err of None \<Rightarrow> [] | Some e \<Rightarrow> [(''state_error'', e_err_text env e)])
                 @ (if is_ok canceled then [] else [(''job_cancellation_error'', ''true'')])\<rparr>) c2
      in (c3, st,
          (case state_err of Some e \<Rightarrow> Some e | None \<Rightarrow>
           (case canceled of Inl e \<Rightarrow> Some e | Inr _ \<Rightarrow> (case audited of Inl e \<Rightarrow> Some e | Inr _ \<Rightarrow> None)))))"

definition enable_failed_closed :: "env \<Rightarrow> time \<Rightarrow> control \<Rightarrow> control" where
  "enable_failed_closed env at c =
     (let (em, st, revoke_err) = em_revoke_all ''automatic fail-closed after emergency enable audit failure'' at (e_fault env 1) (au_em (ct_auth c));
          c1 = c\<lparr>ct_auth := (ct_auth c)\<lparr>au_em := em\<rparr>\<rparr>;
          (js, canceled) = ej_cancel_not_running_all ''global_revoke_all'' (e_clock env 1) (e_fault env 2) (ct_jobs c1);
          c2 = c1\<lparr>ct_jobs := js\<rparr>
      in fst (co_append env 2
            (no_input\<lparr>ai_kind := ''emergency.enable_failed_closed'', ai_actor := ''system'', ai_reason := ''post-enable audit append failed'',
               ai_metadata := revoke_all_metadata st canceled
                 @ (case revoke_err of None \<Rightarrow> [] | Some e \<Rightarrow> [(''fallback_revoke_error'', e_err_text env e)])
                 @ (if is_ok canceled then [] else [(''job_cancellation_error'', ''true'')])\<rparr>) c2))"

definition co_enable :: "env \<Rightarrow> string \<Rightarrow> time \<Rightarrow> control \<Rightarrow> control \<times> (err + em_state)" where
  "co_enable env reason at c =
     (let before = em_snapshot (au_em (ct_auth c)) in
      if \<not> em_disabled before then (c, Inl (Err_Msg ''global AI access is already enabled''))
      else (case co_append env 0
          (no_input\<lparr>ai_kind := ''emergency.enable_requested'', ai_actor := ''operator'', ai_reason := trim_space reason,
             ai_metadata := [(''epoch'', dec_nat (unat (em_epoch before)))]\<rparr>) c of
         (c1, Inl e) \<Rightarrow> (c1, Inl e)
       | (c1, Inr _) \<Rightarrow>
         (case em_enable reason at (e_fault env 0) (au_em (ct_auth c1)) of
            (em, Inl e) \<Rightarrow> (c1\<lparr>ct_auth := (ct_auth c1)\<lparr>au_em := em\<rparr>\<rparr>, Inl e)
          | (em, Inr st) \<Rightarrow>
            (case co_append env 1
               (no_input\<lparr>ai_kind := ''emergency.enabled'', ai_actor := ''operator'', ai_reason := trim_space reason,
                  ai_metadata := [(''epoch'', dec_nat (unat (em_epoch st)))]\<rparr>)
               (c1\<lparr>ct_auth := (ct_auth c1)\<lparr>au_em := em\<rparr>\<rparr>) of
               (c2, Inr _) \<Rightarrow> (c2, Inr st)
             | (c2, Inl e) \<Rightarrow> (enable_failed_closed env at c2, Inl e)))))"

text \<open>
  \<open>checkAuthority\<close>, the worker's poll during a run: why it is refused, or until when it holds. It runs under no lock, so each
  of its four reads sees the state of its own moment: \<open>c0\<close> and \<open>c3\<close> for the two reads of the emergency state, \<open>c1\<close> for the
  claim and \<open>c2\<close> for the grant.
\<close>

definition authority_reason :: "err \<Rightarrow> string" where
  "authority_reason e =
     (if e = Err_JobExpired then ''job_expired''
      else if e = Err_InvalidClaim then ''job_not_running_or_claim_invalid''
      else ''job_authority_check_failed'')"

definition co_check_authority ::
  "env \<Rightarrow> string \<Rightarrow> string \<Rightarrow> string \<Rightarrow> control \<Rightarrow> control \<Rightarrow> control \<Rightarrow> control \<Rightarrow> (nat \<times> string) + (string + time)" where
  "co_check_authority env i worker_id tok c0 c1 c2 c3 =
     (if trim_space worker_id = [] \<or> 128 < length worker_id \<or> trim_space tok = []
      then Inl (400, ''worker_id and claim_token are required'')
      else if em_disabled (em_snapshot (au_em (ct_auth c0))) then Inr (Inl ''global_ai_access_disabled'')
      else (case ej_validate_running_claim i tok (e_clock env 1) (ct_jobs c1) of
          Inl e \<Rightarrow> Inr (Inl (authority_reason e))
        | Inr j \<Rightarrow>
          (case cap_authenticate_id (auth_service (ct_auth c2)) (j_grant_id j) (e_clock env 0) of
             Inl _ \<Rightarrow> Inr (Inl ''grant_not_authorized'')
           | Inr g \<Rightarrow>
             (let state = em_snapshot (au_em (ct_auth c3)) in
              if em_disabled state \<or> g_security_epoch g \<noteq> em_epoch state then Inr (Inl ''global_authority_changed'')
              else Inr (Inr (if g_expires_at g < j_expires_at j then g_expires_at g else j_expires_at j))))))"

end
