(* ===== verification/Control_Commands.thy ===== *)
theory Control_Commands
  imports Control_Ops
begin

text \<open>
  The handlers of \<open>internal/controlapi\<close> that \<open>cmd/sentinel-control\<close> routes to: command submission (\<open>commands.go\<close>), the worker's
  lifecycle (\<open>execution.go\<close>), grants (\<open>grants.go\<close>), approvals (\<open>approvals.go\<close>) and the agent's view of its jobs
  (\<open>agent_jobs.go\<close>), with the bearer check around them. A request body is what the JSON decoder made of it: an error text or the
  request. Seconds and durations are 64-bit words, as in the code.
\<close>

section \<open>Requests and replies\<close>

datatype 'a reply = Reply nat 'a | Reply_Empty nat | Reply_Error nat string

record submit_request =
  sq_token_hash :: string
  sq_request_id :: string
  sq_target :: string
  sq_argv :: "string list"
  sq_agent_reason :: string
  sq_timeout_seconds :: "64 word"

record receipt =
  rc_id :: string
  rc_request_id :: string
  rc_status :: job_status
  rc_command_sha256 :: string
  rc_expires_at :: time

text \<open>The risk is \<open>None\<close> for Go's zero \<open>risk.Result\<close>.\<close>

record submit_response =
  sp_accepted :: bool
  sp_decision :: string
  sp_approval_id :: string
  sp_risk :: "risk_result option"
  sp_job :: "receipt option"

definition response :: "string \<Rightarrow> string \<Rightarrow> risk_result option \<Rightarrow> submit_response" where
  "response decision approval_id r =
     \<lparr>sp_accepted = False, sp_decision = decision, sp_approval_id = approval_id, sp_risk = r, sp_job = None\<rparr>"

definition accepted_response :: "job \<Rightarrow> risk_result option \<Rightarrow> submit_response" where
  "accepted_response j r =
     \<lparr>sp_accepted = True, sp_decision = ''accepted'', sp_approval_id = j_approval_id j, sp_risk = r,
      sp_job = Some \<lparr>rc_id = j_id j, rc_request_id = j_request_id j, rc_status = j_status j,
        rc_command_sha256 = j_command_sha256 j, rc_expires_at = j_expires_at j\<rparr>\<rparr>"

section \<open>Helpers of the API\<close>

definition bearer :: "string \<Rightarrow> string option" where
  "bearer header =
     (if \<not> has_prefix header ''Bearer '' then None
      else let token = trim_space (trim_prefix header ''Bearer '') in if token = [] then None else Some token)"

definition require_bearer_sha :: "string \<Rightarrow> string \<Rightarrow> string \<Rightarrow> control \<times> 'a reply \<Rightarrow> control \<Rightarrow> control \<times> 'a reply" where
  "require_bearer_sha expected message header served c =
     (case bearer header of
        None \<Rightarrow> (c, Reply_Error 401 message)
      | Some token \<Rightarrow> if sha256 token \<noteq> expected then (c, Reply_Error 401 message) else served)"

definition unique_step :: "string list \<Rightarrow> string \<Rightarrow> string list" where
  "unique_step out value0 =
     (let value = trim_space value0 in
      if value = [] then out else if value \<in> set out then out else out @ [value])"

definition unique_non_empty :: "string list \<Rightarrow> string list" where
  "unique_non_empty values = foldl unique_step [] values"

definition target_allowed :: "string list \<Rightarrow> string \<Rightarrow> bool" where
  "target_allowed targets target \<longleftrightarrow> list_ex (\<lambda>allowed. allowed = target) targets"

definition grant_from_hash :: "time \<Rightarrow> string \<Rightarrow> control \<Rightarrow> err + grant" where
  "grant_from_hash now encoded c =
     (case hex_decode encoded of
        None \<Rightarrow> Inl (Err_Msg ''invalid token hash'')
      | Some raw \<Rightarrow>
          if length raw \<noteq> 32 then Inl (Err_Msg ''invalid token hash'')
          else cap_authenticate_hash (auth_service (ct_auth c)) raw now)"

definition log_submission_denied ::
  "env \<Rightarrow> grant \<Rightarrow> submit_request \<Rightarrow> submit_response \<Rightarrow> risk_result \<Rightarrow> string \<Rightarrow> control \<Rightarrow> control \<times> (err + audit_event)" where
  "log_submission_denied env g req resp r reason c =
     co_append env 0 (no_input\<lparr>ai_kind := ''command.submission_denied'', ai_actor := g_agent g, ai_grant_id := g_id g,
       ai_target := sq_target req, ai_argv := sq_argv req, ai_decision := sp_decision resp, ai_category := r_category r,
       ai_scope_key := r_scope_key r, ai_approval_id := sp_approval_id resp, ai_reason := reason,
       ai_metadata := [(''request_id'', sq_request_id req)]\<rparr>) c"

section \<open>Durations\<close>

definition second :: "64 word" where
  "second = 1000000000"

definition execution_job_ttl :: "64 word" where
  "execution_job_ttl = 30 * second"

definition max_execution_job_ttl :: "64 word" where
  "max_execution_job_ttl = 900 * second"

definition max_grant_ttl :: "64 word" where
  "max_grant_ttl = 28800 * second"

definition requested_execution_ttl :: "64 word \<Rightarrow> err + 64 word" where
  "requested_execution_ttl seconds =
     (if seconds = 0 then Inr execution_job_ttl
      else if sint seconds < 1 \<or> sint max_execution_job_ttl < sint (seconds * second)
      then Inl (Err_Msg ''timeout_seconds must be between 1 and 900'')
      else Inr (seconds * second))"

section \<open>Command submission\<close>

definition authorize_staged_response ::
  "env \<Rightarrow> submit_request \<Rightarrow> string \<Rightarrow> control \<Rightarrow> control \<times> submit_response reply" where
  "authorize_staged_response env req job_id c =
     (case co_authorize env job_id (sq_agent_reason req) c of
        (c1, r, Inr j) \<Rightarrow> (c1, Reply 200 (accepted_response j r))
      | (c1, r, Inl e) \<Rightarrow>
          if e = Err_AuthorizationDenied then (c1, Reply 200 (response ''deny'' [] r))
          else if e \<in> set [Err_JobExpired, Err_NotPending, Err_Integrity, Err_ApprovalInvalid, Err_GrantInactive]
          then (c1, Reply_Error 409 ''execution job expired or authorization is no longer valid'')
          else (c1, Reply_Error 500 ''execution job authorization failed''))"

definition consumed_request :: "submit_response reply" where
  "consumed_request = Reply_Error 409 ''request_id is already consumed by a non-executable job; use a new request_id''"

definition settled_response :: "job \<Rightarrow> risk_result \<Rightarrow> submit_response reply" where
  "settled_response j r =
     (if j_status j = Canceled \<or> j_status j = Expired then consumed_request else Reply 200 (accepted_response j (Some r)))"

definition stage_input :: "grant \<Rightarrow> submit_request \<Rightarrow> string \<Rightarrow> risk_result \<Rightarrow> time \<Rightarrow> enqueue_input" where
  "stage_input g req approval_id r expires_at =
     \<lparr>in_request_id = sq_request_id req, in_grant_id = g_id g, in_agent = g_agent g, in_target = sq_target req,
      in_argv = sq_argv req, in_approval_id = approval_id, in_risk_category = r_category r, in_scope_key = r_scope_key r,
      in_expires_at = expires_at\<rparr>"

definition stage_and_authorize_response ::
  "env \<Rightarrow> grant \<Rightarrow> submit_request \<Rightarrow> string \<Rightarrow> risk_result \<Rightarrow> 64 word \<Rightarrow> control \<Rightarrow> control \<times> submit_response reply" where
  "stage_and_authorize_response env g req approval_id r ttl c =
     (let until = e_clock env 3 + sint ttl;
          expires_at = (if g_expires_at g < until then g_expires_at g else until) in
      case ej_enqueue (stage_input g req approval_id r expires_at) (e_rnd_id env) (e_clock env 4) (e_fault env 3) (ct_jobs c) of
        (s, Inl e) \<Rightarrow>
          (c\<lparr>ct_jobs := s\<rparr>, if e = Err_RequestConflict then Reply_Error 409 (e_err_text env e) else Reply_Error 400 (e_err_text env e))
      | (s, Inr (j, _)) \<Rightarrow>
          if j_status j \<noteq> Staged then (c\<lparr>ct_jobs := s\<rparr>, settled_response j r)
          else authorize_staged_response env req (j_id j) (c\<lparr>ct_jobs := s\<rparr>))"

definition deny_response ::
  "env \<Rightarrow> grant \<Rightarrow> submit_request \<Rightarrow> string \<Rightarrow> risk_result \<Rightarrow> string \<Rightarrow> control \<Rightarrow> control \<times> submit_response reply" where
  "deny_response env g req approval_id r reason c =
     (let resp = response ''deny'' approval_id (Some r) in
      case log_submission_denied env g req resp r reason c of
        (c1, Inl _) \<Rightarrow> (c1, Reply_Error 500 ''audit append failed'')
      | (c1, Inr _) \<Rightarrow> (c1, Reply 200 resp))"

definition approval_input :: "grant \<Rightarrow> submit_request \<Rightarrow> risk_result \<Rightarrow> ap_request" where
  "approval_input g req r =
     \<lparr>ar_id = [], ar_grant_id = g_id g, ar_agent = g_agent g, ar_target = sq_target req, ar_argv = sq_argv req,
      ar_category = r_category r, ar_risk_level = r_level r, ar_scope_key = r_scope_key r, ar_risk_reason = r_reason r,
      ar_agent_reason = trim_space (sq_agent_reason req), ar_session_allowed = False, ar_status = Ap_Other_Status [],
      ar_decision = Ap_No_Decision, ar_created_at = 0, ar_decided_at = None, ar_decision_actor = []\<rparr>"

definition request_approval_response ::
  "env \<Rightarrow> grant \<Rightarrow> submit_request \<Rightarrow> risk_result \<Rightarrow> control \<Rightarrow> control \<times> submit_response reply" where
  "request_approval_response env g req r c =
     (case co_request_approval env (approval_input g req r) (sq_request_id req) c of
        (c1, Inl _) \<Rightarrow> (c1, Reply_Error 500 ''failed to create approval request'')
      | (c1, Inr (item, _)) \<Rightarrow> (c1, Reply 200 (response ''approval_required'' (ar_id item) (Some r))))"

definition submit_fresh ::
  "env \<Rightarrow> grant \<Rightarrow> submit_request \<Rightarrow> 64 word \<Rightarrow> control \<Rightarrow> control \<times> submit_response reply" where
  "submit_fresh env g req ttl c =
     (let r = classify (sq_argv req) in
      if r_decision r = Deny then deny_response env g req [] r ''policy denied command'' c
      else if r_decision r = Allow then stage_and_authorize_response env g req [] r ttl c
      else (case ap_match (g_id g) (sq_target req) (r_category r) (r_scope_key r) (ct_approvals c) of
          Some item \<Rightarrow>
            if ar_decision item = Ap_Deny
            then deny_response env g req (ar_id item) r ''operator denied matching approval scope'' c
            else stage_and_authorize_response env g req (ar_id item) r ttl c
        | None \<Rightarrow> request_approval_response env g req r c))"

definition submit_command :: "env \<Rightarrow> string + submit_request \<Rightarrow> control \<Rightarrow> control \<times> submit_response reply" where
  "submit_command env body c =
     (case body of
        Inl text \<Rightarrow> (c, Reply_Error 400 text)
      | Inr req0 \<Rightarrow>
        (let req = req0\<lparr>sq_request_id := trim_space (sq_request_id req0)\<rparr> in
         case requested_execution_ttl (sq_timeout_seconds req) of
           Inl e \<Rightarrow> (c, Reply_Error 400 (e_err_text env e))
         | Inr ttl \<Rightarrow>
         (case grant_from_hash (e_clock env 2) (sq_token_hash req) c of
            Inl _ \<Rightarrow> (c, Reply_Error 401 ''invalid capability'')
          | Inr g \<Rightarrow>
            if \<not> perm_exec (g_permissions g) then (c, Reply_Error 403 ''exec permission is not granted'')
            else if \<not> target_allowed (g_targets g) (sq_target req) then (c, Reply_Error 403 ''target is not in capability scope'')
            else (case ej_by_request (g_id g) (sq_request_id req) (ct_jobs c) of
               Inl _ \<Rightarrow> (c, Reply_Error 500 ''execution job lookup failed'')
             | Inr (Some existing) \<Rightarrow>
                 if j_target existing \<noteq> sq_target req \<or> j_argv existing \<noteq> sq_argv req
                 then (c, Reply_Error 409 ''request_id is already bound to a different command'')
                 else if j_status existing = Staged then authorize_staged_response env req (j_id existing) c
                 else (c, settled_response existing (classify (sq_argv req)))
             | Inr None \<Rightarrow> submit_fresh env g req ttl c))))"

section \<open>The worker's handlers\<close>

definition worker_ok :: "string \<Rightarrow> bool" where
  "worker_ok worker_id \<longleftrightarrow> worker_id \<noteq> [] \<and> length worker_id \<le> 128"

definition claim_execution :: "env \<Rightarrow> string + string \<Rightarrow> control \<Rightarrow> control \<times> (job \<times> string) reply" where
  "claim_execution env body c =
     (case body of
        Inl text \<Rightarrow> (c, Reply_Error 400 text)
      | Inr worker0 \<Rightarrow>
        (let worker_id = trim_space worker0 in
         if \<not> worker_ok worker_id then (c, Reply_Error 400 ''worker_id is required and must be at most 128 characters'')
         else (case co_claim env worker_id c of
             (c1, Inl e) \<Rightarrow> (c1, if e = Err_NoJob then Reply_Empty 204 else Reply_Error 500 ''execution job claim failed'')
           | (c1, Inr (j, tok)) \<Rightarrow> (c1, Reply 200 (j, tok)))))"

text \<open>\<open>GuardWorkerEnabled\<close> around the claim handler.\<close>

definition guarded_claim :: "env \<Rightarrow> string + string \<Rightarrow> control \<Rightarrow> control \<times> (job \<times> string) reply" where
  "guarded_claim env body c =
     (if em_disabled (em_snapshot (au_em (ct_auth c))) then (c, Reply_Empty 204) else claim_execution env body c)"

definition start_execution :: "env \<Rightarrow> string \<Rightarrow> string + string \<times> string \<Rightarrow> control \<Rightarrow> control \<times> job reply" where
  "start_execution env i body c =
     (case body of
        Inl text \<Rightarrow> (c, Reply_Error 400 text)
      | Inr (worker0, tok0) \<Rightarrow>
        (let worker_id = trim_space worker0; tok = trim_space tok0 in
         if \<not> worker_ok worker_id \<or> tok = [] then (c, Reply_Error 400 ''worker_id and claim_token are required'')
         else (case co_start env i tok worker_id c of
             (c1, Inl _) \<Rightarrow> (c1, Reply_Error 409 ''execution start rejected'')
           | (c1, Inr j) \<Rightarrow> (c1, Reply 200 j))))"

definition complete_execution ::
  "env \<Rightarrow> string \<Rightarrow> string + string \<times> string \<times> job_result \<times> exec_output \<Rightarrow> control \<Rightarrow> control \<times> job reply" where
  "complete_execution env i body c =
     (case body of
        Inl text \<Rightarrow> (c, Reply_Error 400 text)
      | Inr (worker0, tok0, result, out) \<Rightarrow>
        (let worker_id = trim_space worker0; tok = trim_space tok0 in
         if \<not> worker_ok worker_id \<or> tok = [] then (c, Reply_Error 400 ''worker_id and claim_token are required'')
         else (case eo_validate out of
             Some e \<Rightarrow> (c, Reply_Error 400 (e_err_text env e))
           | None \<Rightarrow>
             (case (if eo_empty out then co_complete env i tok worker_id result c
                    else co_complete_with_output env i tok worker_id result out c) of
                (c1, Inl _) \<Rightarrow> (c1, Reply_Error 409 ''execution job completion rejected'')
              | (c1, Inr j) \<Rightarrow> (c1, Reply 200 j)))))"

section \<open>The operator's handlers\<close>

record issue_request =
  iq_agent :: string
  iq_purpose :: string
  iq_targets :: "string list"
  iq_permissions :: permissions
  iq_history :: history_scope
  iq_ttl_seconds :: "64 word"

definition grant_ttl :: "64 word \<Rightarrow> err + 64 word" where
  "grant_ttl seconds =
     (let ttl = seconds * second in
      if sint ttl < sint (30 * second) \<or> sint max_grant_ttl < sint ttl
      then Inl (Err_Msg ''ttl_seconds must be between 30 and 28800'') else Inr ttl)"

definition issue_grant :: "env \<Rightarrow> string + issue_request \<Rightarrow> control \<Rightarrow> control \<times> (grant \<times> string) reply" where
  "issue_grant env body c =
     (case body of
        Inl text \<Rightarrow> (c, Reply_Error 400 text)
      | Inr req \<Rightarrow>
        (let targets = unique_non_empty (iq_targets req) in
         if trim_space (iq_agent req) = [] \<or> trim_space (iq_purpose req) = [] \<or> targets = []
         then (c, Reply_Error 400 ''agent, purpose and at least one target are required'')
         else (case grant_ttl (iq_ttl_seconds req) of
             Inl e \<Rightarrow> (c, Reply_Error 400 ''ttl_seconds must be between 30 and 28800'')
           | Inr ttl \<Rightarrow>
             (case co_issue env (zero_grant\<lparr>g_agent := iq_agent req, g_purpose := iq_purpose req, g_targets := targets,
                     g_permissions := iq_permissions req, g_history := iq_history req, g_issued_at := e_clock env 0,
                     g_expires_at := e_clock env 0 + sint ttl\<rparr>) c of
                (c1, Inl _) \<Rightarrow> (c1, Reply_Error 500 ''failed to issue grant'')
              | (c1, Inr (g, token)) \<Rightarrow> (c1, Reply 201 (g, token))))))"

definition revoke_grant :: "env \<Rightarrow> string \<Rightarrow> control \<Rightarrow> control \<times> unit reply" where
  "revoke_grant env i c =
     (case co_revoke env i (e_clock env 0) c of
        (c1, Inl _) \<Rightarrow> (c1, Reply_Error 404 ''grant not found'')
      | (c1, Inr _) \<Rightarrow> (c1, Reply_Empty 204))"

definition decide_approval :: "env \<Rightarrow> string \<Rightarrow> string + ap_decision \<Rightarrow> control \<Rightarrow> control \<times> ap_request reply" where
  "decide_approval env i body c =
     (case body of
        Inl text \<Rightarrow> (c, Reply_Error 400 text)
      | Inr decision \<Rightarrow>
        (case co_decide env i decision (ctx_actor (e_ctx env)) c of
           (c1, Inl e) \<Rightarrow> (c1, Reply_Error 409 (e_err_text env e))
         | (c1, Inr item) \<Rightarrow> (c1, Reply 200 item)))"

section \<open>The agent's view of its jobs\<close>

text \<open>The view is the job less its grant, agent and scope key, with the captured output where the grant includes it.\<close>

record agent_job =
  aj_id :: string
  aj_request_id :: string
  aj_target :: string
  aj_argv :: "string list"
  aj_command_sha256 :: string
  aj_approval_id :: string
  aj_risk_category :: string
  aj_created_at :: time
  aj_expires_at :: time
  aj_status :: job_status
  aj_claimed_at :: "time option"
  aj_started_at :: "time option"
  aj_completed_at :: "time option"
  aj_result :: "job_result option"
  aj_output :: "exec_output option"

definition agent_job_view :: "job \<Rightarrow> agent_job" where
  "agent_job_view j =
     \<lparr>aj_id = j_id j, aj_request_id = j_request_id j, aj_target = j_target j, aj_argv = j_argv j,
      aj_command_sha256 = j_command_sha256 j, aj_approval_id = j_approval_id j, aj_risk_category = j_risk_category j,
      aj_created_at = j_created_at j, aj_expires_at = j_expires_at j, aj_status = j_status j, aj_claimed_at = j_claimed_at j,
      aj_started_at = j_started_at j, aj_completed_at = j_completed_at j, aj_result = j_result j, aj_output = None\<rparr>"

definition agent_job_response :: "grant \<Rightarrow> job \<Rightarrow> control \<Rightarrow> agent_job" where
  "agent_job_response g j c =
     (let view = agent_job_view j in
      if hist_include_output (g_history g) then
        (case ct_output c of
           None \<Rightarrow> view
         | Some s \<Rightarrow> (case eo_output_by_id (j_id j) s of None \<Rightarrow> view | Some captured \<Rightarrow> view\<lparr>aj_output := Some captured\<rparr>))
      else view)"

definition get_agent_execution_job :: "env \<Rightarrow> string + string \<times> string \<Rightarrow> control \<Rightarrow> agent_job reply" where
  "get_agent_execution_job env body c =
     (case body of
        Inl text \<Rightarrow> Reply_Error 400 text
      | Inr (hash, job_id0) \<Rightarrow>
        (let job_id = trim_space job_id0 in
         if job_id = [] \<or> 128 < length job_id then Reply_Error 400 ''job_id is required and must be at most 128 characters''
         else (case grant_from_hash (e_clock env 0) hash c of
             Inl _ \<Rightarrow> Reply_Error 401 ''invalid capability''
           | Inr g \<Rightarrow>
             (case ej_by_id job_id (ct_jobs c) of
                Inl _ \<Rightarrow> Reply_Error 500 ''execution job lookup failed''
              | Inr None \<Rightarrow> Reply_Error 404 ''execution job not found''
              | Inr (Some j) \<Rightarrow>
                  if j_grant_id j \<noteq> g_id g then Reply_Error 404 ''execution job not found''
                  else Reply 200 (agent_job_response g j c)))))"

definition get_agent_execution_job_by_request :: "env \<Rightarrow> string + string \<times> string \<Rightarrow> control \<Rightarrow> agent_job reply" where
  "get_agent_execution_job_by_request env body c =
     (case body of
        Inl text \<Rightarrow> Reply_Error 400 text
      | Inr (hash, request_id0) \<Rightarrow>
        (let request_id = trim_space request_id0 in
         if length request_id < 8 \<or> 128 < length request_id then Reply_Error 400 ''request_id must be between 8 and 128 characters''
         else (case grant_from_hash (e_clock env 0) hash c of
             Inl _ \<Rightarrow> Reply_Error 401 ''invalid capability''
           | Inr g \<Rightarrow>
             (case ej_by_request (g_id g) request_id (ct_jobs c) of
                Inl _ \<Rightarrow> Reply_Error 500 ''execution job lookup failed''
              | Inr None \<Rightarrow> Reply_Error 404 ''execution job not found''
              | Inr (Some j) \<Rightarrow> Reply 200 (agent_job_response g j c)))))"

end
