(* ===== verification/Control_Props.thy ===== *)
theory Control_Props
  imports Control_Commands
begin

text \<open>
  The properties of the control plane. Every handler is a sequence of small acts on the approvals and the jobs
  (\<open>co_act\<close>); the invariant \<open>co_ok\<close> - every job that may run or ran was authorized, and an \<open>allow_once\<close> decision authorizes one
  job - is kept by each act, so it holds along every run of the handlers.
\<close>

section \<open>Jobs that may run\<close>

definition executable :: "job_status \<Rightarrow> bool" where
  "executable st \<longleftrightarrow> st \<in> set [Pending, Claimed, Running, Succeeded, Failed]"

definition no_publish :: "job_store \<Rightarrow> job_store \<Rightarrow> bool" where
  "no_publish s t \<longleftrightarrow>
     (\<forall>i q. map_of (js_records t) i = Some q \<longrightarrow> j_status (rec_job q) = Pending \<longrightarrow> map_of (js_records s) i = Some q)"

lemma no_publish_refl [simp]: "no_publish s s"
  by (simp add: no_publish_def)

lemma put_no_publish:
  assumes "map_of (js_records s) i = Some r" and "j_status (rec_job r') \<noteq> Pending"
  shows "no_publish s (fst (ej_put i r r' fault s))"
  using ej_put_cases [OF assms(1), of r' fault] assms(2) by (auto simp: no_publish_def split: if_splits)

lemma bulk_no_publish:
  assumes "js_wf s" and "moves_of (js_records s) ms"
    and "\<And>i r r'. (i, r, r') \<in> set ms \<Longrightarrow> j_status (rec_job r') \<noteq> Pending"
  shows "no_publish s (fst (case ej_persist fault (s\<lparr>js_records := put_new ms (js_records s)\<rparr>) of
      (s1, Some e) \<Rightarrow> (ej_rollback (put_old ms []) s1, f e) | (s1, None) \<Rightarrow> (s1, g)))"
proof (rule commit_moves [OF assms(2) js_wf_keys [OF assms(1)], of fault])
  assume p: "ej_persist fault (s\<lparr>js_records := put_new ms (js_records s)\<rparr>) = (js_written (put_new ms (js_records s)) s, None)"
  have "map_of (js_records s) i = Some q"
    if "map_of (put_new ms (js_records s)) i = Some q" "j_status (rec_job q) = Pending" for i q
  proof (cases "i \<in> fst ` set ms")
    case True
    then obtain r r' where m: "(i, r, r') \<in> set ms" by auto
    with put_new_moved [of ms i r r' "js_records s"] assms(2) that(1) have "r' = q" by (simp add: moves_of_def)
    with assms(3) [OF m] that(2) show ?thesis by simp
  qed (use that in \<open>simp add: put_new_other\<close>)
  with p show ?thesis by (simp add: no_publish_def)
qed auto

text \<open>The operations of the job store but \<open>Publish\<close>.\<close>

inductive js_quiet :: "job_store \<Rightarrow> job_store \<Rightarrow> bool" where
  enqueue: "ej_new_id rnd s \<Longrightarrow> js_quiet s (fst (ej_enqueue inp rnd now fault s))"
| claim: "js_quiet s (fst (ej_claim rnd now fault s))"
| start: "js_quiet s (fst (ej_start i tok now fault s))"
| complete: "js_quiet s (fst (ej_complete i tok res now fault s))"
| reject: "js_quiet s (fst (ej_reject_claim i tok k now fault s))"
| cancel: "js_quiet s (fst (ej_cancel_pending i fault s))"
| cancel_grant: "js_quiet s (fst (ej_cancel_pending_by_grant g fault s))"
| cancel_all: "js_quiet s (fst (ej_cancel_not_running_all k now fault s))"

lemma js_quiet_step: "js_quiet s t \<Longrightarrow> js_step s t"
  by (cases rule: js_quiet.cases) (auto intro: js_step.intros)

lemma enqueue_no_publish:
  assumes "ej_new_id rnd s"
  shows "no_publish s (fst (ej_enqueue inp rnd now fault s))"
  by (rule ej_enqueue_cases [OF assms, of inp now fault])
    (auto simp: no_publish_def ej_fresh_def new_job_def split: if_splits)

lemma claim_no_publish:
  assumes "js_wf s"
  shows "no_publish s (fst (ej_claim rnd now fault s))"
proof (cases "find (\<lambda>i. claimable now (rec_of s i)) (claim_order s)")
  case None
  have "no_publish s (fst (case ej_persist fault (s\<lparr>js_records := put_new ms (js_records s)\<rparr>) of
      (s1, Some e) \<Rightarrow> (ej_rollback (put_old ms []) s1, Inl e) | (s1, None) \<Rightarrow> (s1, g)))"
    if "ms = stale_moves (js_key s) now (rec_of s) (claim_order s)" for ms and g :: "err + job \<times> string"
    unfolding that by (rule bulk_no_publish [OF assms stale_moves_of [OF assms]]) (auto simp: stale_moves_def expire_record_def)
  with None show ?thesis by (simp add: ej_claim_eq [OF assms] Let_def)
next
  case (Some i)
  have "no_publish s (fst (case ej_persist fault (s\<lparr>js_records := put_new ms (js_records s)\<rparr>) of
      (s1, Some e) \<Rightarrow> (ej_rollback (put_old ms []) s1, Inl e) | (s1, None) \<Rightarrow> (s1, g)))"
    if "ms = claim_moves s now tok i" for ms tok and g :: "err + job \<times> string"
    unfolding that
    by (rule bulk_no_publish [OF assms claim_moves_of [OF assms Some]])
      (auto simp: claim_moves_def stale_moves_def expire_record_def claim_record_def)
  with Some show ?thesis by (simp add: ej_claim_eq [OF assms] Let_def split: option.split)
qed

lemma cancel_no_publish:
  assumes "js_wf s"
  shows "no_publish s (fst (ej_cancel_pending_by_grant g fault s))"
    and "no_publish s (fst (ej_cancel_not_running_all k now fault s))"
proof -
  have "no_publish s (fst (case ej_persist fault (s\<lparr>js_records := put_new ms (js_records s)\<rparr>) of
      (s1, Some e) \<Rightarrow> (ej_rollback (put_old ms []) s1, Inl e) | (s1, None) \<Rightarrow> (s1, n)))"
    if "ms = cancel_moves sel f (js_records s)" "\<And>r. j_status (rec_job (f r)) = Canceled" for ms sel f and n :: "err + nat"
    unfolding that(1)
    by (rule bulk_no_publish [OF assms cancel_moves_of [OF assms]]) (auto simp: cancel_moves_def that(2))
  note bulk = this [OF refl]
  show "no_publish s (fst (ej_cancel_pending_by_grant g fault s))"
    using bulk [of "cancel_unclaimed (js_key s)"]
    by (simp add: ej_cancel_pending_by_grant_def cancel_loop_eq [OF js_wf_verified [OF assms]] cancel_unclaimed_def)
  show "no_publish s (fst (ej_cancel_not_running_all k now fault s))"
    using bulk [of "cancel_record (js_key s) now (revocation k)"]
    by (simp add: ej_cancel_not_running_all_def cancel_loop_eq [OF js_wf_verified [OF assms]] cancel_record_def)
qed

lemma js_quiet_no_publish:
  assumes "js_quiet s t" and "js_wf s"
  shows "no_publish s t"
  using assms(1)
proof cases
  case (reject i tok k now fault)
  show ?thesis unfolding reject
    by (cases "map_of (js_records s) i")
      (auto simp: ej_reject_claim_def cancel_record_def intro!: put_no_publish split: option.split)
qed (use assms(2) in \<open>auto simp: enqueue_no_publish claim_no_publish cancel_no_publish ej_start_def ej_complete_def
      ej_cancel_pending_def cancel_unclaimed_def complete_record_def start_record_def expire_claim_def
      intro!: put_no_publish split: option.split\<close>)

text \<open>No operation but \<open>Publish\<close> makes a job executable.\<close>

lemma js_effect_origin:
  assumes "js_wf s" and "js_effect s t" and "no_publish s t" and "map_of (js_records t) i = Some q"
    and "executable (j_status (rec_job q))"
  shows "\<exists>r. map_of (js_records s) i = Some r \<and> executable (j_status (rec_job r)) \<and> same_command (rec_job r) (rec_job q)"
proof (cases "t = s")
  case True
  with assms(4,5) show ?thesis by (auto intro: same_command_refl)
next
  case False
  with assms(2) obtain recs where t: "t = js_written recs s" and c: "js_change (js_key s) (js_records s) recs"
    by (auto simp: js_effect_def)
  from assms(4) t have q: "map_of recs i = Some q" by simp
  from c show ?thesis
  proof cases
    case (add k r)
    with q assms(5) show ?thesis by (auto simp: executable_def intro: same_command_refl split: if_splits)
  next
    case (move ms)
    with put_new_dom [OF move(2)] q obtain r where r: "map_of (js_records s) i = Some r" by blast
    from put_new_later [OF move(2,3) r] q move(1) have "q = r \<or> job_move (js_key s) r q" by (auto simp: rec_later_def)
    then show ?thesis
    proof
      assume m: "job_move (js_key s) r q"
      have "j_status (rec_job q) = Pending \<Longrightarrow> q = r" using assms(3,4) r by (auto simp: no_publish_def)
      with m assms(5) have "executable (j_status (rec_job r))"
        by (auto simp: job_move_def job_edges_def executable_def)
      with r m show ?thesis by (auto simp: job_move_def)
    qed (use r assms(5) in \<open>auto intro: same_command_refl\<close>)
  qed
qed

section \<open>Acts and the invariant\<close>

text \<open>
  \<open>launch\<close> is the end of \<open>Authorize\<close>: the approval is checked, an \<open>allow_once\<close> decision consumed, and the job published; the
  audit event in between changes neither store.
\<close>

inductive co_act :: "control \<Rightarrow> control \<Rightarrow> bool" where
  other: "ct_approvals d = ct_approvals c \<Longrightarrow> ct_jobs d = ct_jobs c \<Longrightarrow> co_act c d"
| job: "js_quiet (ct_jobs c) s \<Longrightarrow> co_act c (c\<lparr>ct_jobs := s\<rparr>)"
| approve: "ap_step (ct_approvals c) s \<Longrightarrow> co_act c (c\<lparr>ct_approvals := s\<rparr>)"
| launch: "map_of (js_records (ct_jobs c)) i = Some r \<Longrightarrow> r_decision (classify (j_argv (rec_job r))) \<noteq> Deny \<Longrightarrow>
    check_approval (rec_job r) (classify (j_argv (rec_job r))) c = Inr item \<Longrightarrow> consume_once env item c = (d, None) \<Longrightarrow>
    co_act c (d\<lparr>ct_jobs := fst (ej_publish i now fault (ct_jobs d))\<rparr>)"

definition covers :: "ap_request \<Rightarrow> job \<Rightarrow> bool" where
  "covers a j \<longleftrightarrow> ar_grant_id a = j_grant_id j \<and> ar_target a = j_target j \<and>
     ar_category a = r_category (classify (j_argv j)) \<and> ar_scope_key a = r_scope_key (classify (j_argv j))"

definition spent :: "ap_request \<Rightarrow> bool" where
  "spent a \<longleftrightarrow> ar_decision a = Ap_AllowOnce \<and> ar_status a = Ap_Consumed"

definition standing :: "ap_request \<Rightarrow> bool" where
  "standing a \<longleftrightarrow> ar_decision a = Ap_AllowSession \<and> ar_status a = Ap_Decided \<and> session_approval_allowed_category (ar_category a)"

definition risky :: "job \<Rightarrow> bool" where
  "risky j \<longleftrightarrow> r_decision (classify (j_argv j)) = ApprovalRequired"

definition warranted :: "ap_store \<Rightarrow> job \<Rightarrow> bool" where
  "warranted s j \<longleftrightarrow> r_decision (classify (j_argv j)) \<noteq> Deny \<and>
     (risky j \<longrightarrow> (\<exists>a. ap_get (j_approval_id j) s = Some a \<and> covers a j \<and> (spent a \<or> standing a)))"

definition running_set :: "job_store \<Rightarrow> job set" where
  "running_set s = {rec_job r |r. r \<in> snd ` set (js_records s) \<and> executable (j_status (rec_job r))}"

definition single_use :: "ap_store \<Rightarrow> job_store \<Rightarrow> bool" where
  "single_use s t \<longleftrightarrow>
     (\<forall>j \<in> running_set t. \<forall>k \<in> running_set t. \<forall>a. risky j \<longrightarrow> risky k \<longrightarrow> j_approval_id j = j_approval_id k \<longrightarrow>
        ap_get (j_approval_id j) s = Some a \<longrightarrow> ar_decision a = Ap_AllowOnce \<longrightarrow> j_id j = j_id k)"

definition co_ok :: "control \<Rightarrow> bool" where
  "co_ok c \<longleftrightarrow> js_synced (ct_jobs c) \<and> ap_synced (ct_approvals c) \<and>
     (\<forall>j \<in> running_set (ct_jobs c). warranted (ct_approvals c) j) \<and> single_use (ct_approvals c) (ct_jobs c)"

lemma running_set_iff:
  assumes "js_wf s"
  shows "j \<in> running_set s \<longleftrightarrow> (\<exists>r. map_of (js_records s) (j_id j) = Some r \<and> rec_job r = j \<and> executable (j_status j))"
proof -
  have "r \<in> snd ` set (js_records s) \<longleftrightarrow> map_of (js_records s) (j_id (rec_job r)) = Some r" for r
  proof
    assume "r \<in> snd ` set (js_records s)"
    then obtain i where "map_of (js_records s) i = Some r" by (auto simp: js_wf_entry [OF assms])
    with js_wfD(2) [OF assms this] show "map_of (js_records s) (j_id (rec_job r)) = Some r" by simp
  qed (rule value_of_update)
  then show ?thesis unfolding running_set_def by blast
qed

lemma same_command_facts:
  assumes "same_command j k"
  shows "risky k = risky j" and "warranted s k = warranted s j" and "j_id k = j_id j" and "j_approval_id k = j_approval_id j"
    and "covers a k = covers a j"
  using assms unfolding same_command_def risky_def warranted_def covers_def by simp_all

text \<open>Approvals only move forward, so a warrant stays one.\<close>

lemma ap_later_kept:
  assumes "ap_later a b" and "ap_request_ok b"
  shows "covers a j \<Longrightarrow> covers b j" and "spent a \<Longrightarrow> spent b" and "standing a \<Longrightarrow> standing b"
    and "ar_status a = Ap_Decided \<or> ar_status a = Ap_Consumed \<Longrightarrow> ar_decision b = ar_decision a"
  using assms
  by (auto simp: ap_later_def covers_def spent_def standing_def ap_request_ok_def split: ap_status.splits)

lemma warranted_later:
  assumes "ap_history s t" and "ap_wf t" and "warranted s j"
  shows "warranted t j"
proof (cases "risky j")
  case True
  then obtain a where a: "ap_get (j_approval_id j) s = Some a" "covers a j" "spent a \<or> standing a"
    using assms(3) by (auto simp: warranted_def)
  then obtain b where b: "ap_get (j_approval_id j) t = Some b" "ap_later a b"
    using assms(1) by (auto simp: ap_history_def ap_get_def)
  with ap_wfD [OF assms(2)] have "ap_request_ok b" by (auto simp: ap_get_def)
  from ap_later_kept [OF b(2) this] a b(1) assms(3) show ?thesis by (auto simp: warranted_def)
qed (use assms(3) in \<open>auto simp: warranted_def\<close>)

lemma single_use_later:
  assumes "ap_history s t" and "ap_wf t" and "\<forall>j \<in> running_set u. warranted s j" and "single_use s u"
  shows "single_use t u"
  unfolding single_use_def
proof (intro ballI allI impI)
  fix j k b
  assume jk: "j \<in> running_set u" "k \<in> running_set u" "risky j" "risky k" "j_approval_id j = j_approval_id k"
    and b: "ap_get (j_approval_id j) t = Some b" "ar_decision b = Ap_AllowOnce"
  from assms(3) jk obtain a where a: "ap_get (j_approval_id j) s = Some a" "spent a \<or> standing a"
    by (auto simp: warranted_def)
  with assms(1) b(1) have "ap_later a b" unfolding ap_history_def ap_get_def by (metis option.inject)
  moreover have "ap_request_ok b" using ap_wfD [OF assms(2)] b(1) by (auto simp: ap_get_def)
  ultimately have "ar_decision a = Ap_AllowOnce"
    using ap_later_kept(4) [of a b] a(2) b(2) by (auto simp: spent_def standing_def)
  with assms(4) jk a(1) show "j_id j = j_id k" unfolding single_use_def by blast
qed

lemma running_origin:
  assumes "js_wf s" and "js_quiet s t" and "j \<in> running_set t"
  shows "\<exists>k \<in> running_set s. same_command k j"
proof -
  have eff: "js_effect s t" using js_step_effect [OF js_quiet_step [OF assms(2)] assms(1)] .
  then have wf: "js_wf t" using js_wf_change [OF assms(1)] assms(1) by (auto simp: js_effect_def)
  from assms(3) obtain q where q: "map_of (js_records t) (j_id j) = Some q" "rec_job q = j" "executable (j_status j)"
    by (auto simp: running_set_iff [OF wf])
  from js_effect_origin [OF assms(1) eff js_quiet_no_publish [OF assms(2,1)] q(1)] q
  obtain r where r: "map_of (js_records s) (j_id j) = Some r" "executable (j_status (rec_job r))" "same_command (rec_job r) j"
    by auto
  then have "rec_job r \<in> running_set s"
    using js_wfD(2) [OF assms(1) r(1)] by (auto simp: running_set_iff [OF assms(1)])
  with r(3) show ?thesis by blast
qed

lemma quiet_ok:
  assumes "co_ok c" and "js_quiet (ct_jobs c) s"
  shows "co_ok (c\<lparr>ct_jobs := s\<rparr>)"
proof -
  have wf: "js_wf (ct_jobs c)" using assms(1) by (simp add: co_ok_def js_synced_def)
  have sync: "js_synced s" using js_run.step_keeps [OF js_quiet_step [OF assms(2)]] assms(1) by (simp add: co_ok_def)
  note origin = running_origin [OF wf assms(2)]
  have "warranted (ct_approvals c) j" if j: "j \<in> running_set s" for j
    using origin [OF j] assms(1) same_command_facts(2) by (auto simp: co_ok_def)
  moreover have "single_use (ct_approvals c) s"
    unfolding single_use_def
  proof (intro ballI allI impI)
    fix j k a
    assume "j \<in> running_set s" "k \<in> running_set s" and rest: "risky j" "risky k" "j_approval_id j = j_approval_id k"
      "ap_get (j_approval_id j) (ct_approvals c) = Some a" "ar_decision a = Ap_AllowOnce"
    then obtain j0 k0 where "j0 \<in> running_set (ct_jobs c)" "k0 \<in> running_set (ct_jobs c)"
      and sc: "same_command j0 j" "same_command k0 k" using origin by meson
    with rest assms(1) show "j_id j = j_id k"
      unfolding same_command_facts [OF sc(1)] same_command_facts [OF sc(2)] co_ok_def single_use_def by blast
  qed
  ultimately show ?thesis using sync assms(1) by (simp add: co_ok_def)
qed

lemma approve_ok:
  assumes "co_ok c" and "ap_step (ct_approvals c) s"
  shows "co_ok (c\<lparr>ct_approvals := s\<rparr>)"
proof -
  have s: "ap_synced s" using ap_run.step_keeps [OF assms(2)] assms(1) by (simp add: co_ok_def)
  have h: "ap_history (ct_approvals c) s" using ap_forward.step_rel [OF assms(2)] .
  have wf: "ap_wf s" using s by (simp add: ap_synced_def)
  from assms(1) s warranted_later [OF h wf] single_use_later [OF h wf, of "ct_jobs c"] show ?thesis
    by (auto simp: co_ok_def)
qed

lemma consume_once_facts:
  assumes "consume_once env item c = (d, None)"
  shows "ct_jobs d = ct_jobs c" and "ct_auth d = ct_auth c" and "ct_output d = ct_output c" and "ct_audit d = ct_audit c"
    and "d = c \<or> (\<exists>fault a. item = Some a \<and> d = c\<lparr>ct_approvals := fst (ap_consume_allow_once (ar_id a) fault (ct_approvals c))\<rparr>)"
proof -
  consider "d = c" | a where "item = Some a" "d = c\<lparr>ct_approvals := fst (ap_consume_allow_once (ar_id a) (e_fault env 2) (ct_approvals c))\<rparr>"
    using assms by (auto simp: consume_once_def split: option.splits if_splits prod.splits sum.splits)
  then show "ct_jobs d = ct_jobs c" "ct_auth d = ct_auth c" "ct_output d = ct_output c" "ct_audit d = ct_audit c"
    "d = c \<or> (\<exists>fault a. item = Some a \<and> d = c\<lparr>ct_approvals := fst (ap_consume_allow_once (ar_id a) fault (ct_approvals c))\<rparr>)"
    by (cases; auto)+
qed

text \<open>What the check of the approval and the consumption give: a warrant that no running job uses.\<close>

lemma check_approval_facts:
  assumes "check_approval j (classify (j_argv j)) c = Inr item"
  obtains (plain) "item = None" and "\<not> risky j"
  | (once) a where "item = Some a" and "ap_get (j_approval_id j) (ct_approvals c) = Some a" and "covers a j"
      and "ar_decision a = Ap_AllowOnce" and "ar_status a = Ap_Decided"
  | (session) a where "item = Some a" and "ap_get (j_approval_id j) (ct_approvals c) = Some a" and "covers a j" and "standing a"
proof (cases "risky j")
  case False
  with assms show thesis by (intro plain) (auto simp: check_approval_def risky_def)
next
  case True
  with assms obtain a where a: "ap_get (j_approval_id j) (ct_approvals c) = Some a"
    by (auto simp: check_approval_def risky_def split: if_splits option.splits)
  have cov: "covers a j"
    using assms True a by (auto simp: check_approval_def risky_def covers_def split: if_splits)
  then have "(case ar_decision a of
      Ap_Deny \<Rightarrow> Inl Err_AuthorizationDenied
    | Ap_AllowSession \<Rightarrow>
        if ar_status a \<noteq> Ap_Decided \<or> \<not> session_approval_allowed_category (ar_category a) then Inl Err_ApprovalInvalid else Inr (Some a)
    | Ap_AllowOnce \<Rightarrow> if ar_status a \<noteq> Ap_Decided then Inl Err_ApprovalInvalid else Inr (Some a)
    | _ \<Rightarrow> Inl Err_ApprovalInvalid) = Inr item"
    using assms True a by (simp add: check_approval_def risky_def covers_def split: if_splits)
  then show thesis
    using once [of a] session [of a] a cov by (auto simp: standing_def split: ap_decision.splits if_splits)
qed

lemma consume_decided:
  assumes "ap_wf s" and "map_of (ap_requests s) i = Some a" and "ar_status a = Ap_Decided" and "ar_decision a = Ap_AllowOnce"
    and "ap_consume_allow_once i fault s = (t, Inr q)"
  shows "map_of (ap_requests t) i = Some (a\<lparr>ar_status := Ap_Consumed\<rparr>)"
  using assms ap_put_eq [OF assms(2), of "a\<lparr>ar_status := Ap_Consumed\<rparr>" fault]
  by (auto simp: ap_consume_allow_once_def split: option.splits)

lemma consume_once_spent:
  assumes "ap_wf (ct_approvals c)" and "consume_once env (Some a) c = (d, None)" and "ar_decision a = Ap_AllowOnce"
    and "ar_status a = Ap_Decided" and "ap_get i (ct_approvals c) = Some a"
  shows "ap_get i (ct_approvals d) = Some (a\<lparr>ar_status := Ap_Consumed\<rparr>)"
proof -
  have i: "ar_id a = i" using ap_wfD [OF assms(1)] assms(5) by (auto simp: ap_get_def)
  from assms(2,3) obtain q where "ap_consume_allow_once i (e_fault env 2) (ct_approvals c) = (ct_approvals d, Inr q)"
    by (auto simp: consume_once_def i split: prod.splits sum.splits)
  from consume_decided [OF assms(1) _ assms(4,3) this] assms(5) show ?thesis by (simp add: ap_get_def)
qed

definition unused :: "ap_store \<Rightarrow> job_store \<Rightarrow> job \<Rightarrow> bool" where
  "unused s t j \<longleftrightarrow> (\<forall>k \<in> running_set t. \<forall>a. risky k \<longrightarrow> j_approval_id k = j_approval_id j \<longrightarrow>
     ap_get (j_approval_id j) s = Some a \<longrightarrow> ar_decision a \<noteq> Ap_AllowOnce)"

lemma cleared:
  assumes "co_ok c" and "r_decision (classify (j_argv j)) \<noteq> Deny"
    and "check_approval j (classify (j_argv j)) c = Inr item" and "consume_once env item c = (d, None)"
  shows "co_ok d" and "warranted (ct_approvals d) j" and "risky j \<longrightarrow> unused (ct_approvals d) (ct_jobs d) j"
proof -
  have wf: "ap_wf (ct_approvals c)" using assms(1) by (simp add: co_ok_def ap_synced_def)
  note d = consume_once_facts [OF assms(4)]
  show "co_ok d" using d(5) assms(1) approve_ok [OF assms(1) ap_step.consume] by auto
  from assms(3) show "warranted (ct_approvals d) j"
  proof (cases rule: check_approval_facts)
    case plain
    with assms(2) show ?thesis by (simp add: warranted_def)
  next
    case (once a)
    have "ap_get (j_approval_id j) (ct_approvals d) = Some (a\<lparr>ar_status := Ap_Consumed\<rparr>)"
      by (rule consume_once_spent [OF wf _ once(4,5,2)]) (use assms(4) once(1) in simp)
    with once assms(2) show ?thesis by (auto simp: warranted_def covers_def spent_def)
  next
    case (session a)
    then have "d = c" using assms(4) by (simp add: consume_once_def standing_def)
    with session assms(2) show ?thesis by (auto simp: warranted_def)
  qed
  from assms(3) show "risky j \<longrightarrow> unused (ct_approvals d) (ct_jobs d) j"
  proof (cases rule: check_approval_facts)
    case (once a)
    have "\<not> (k \<in> running_set (ct_jobs c) \<and> risky k \<and> j_approval_id k = j_approval_id j)" for k
    proof
      assume k: "k \<in> running_set (ct_jobs c) \<and> risky k \<and> j_approval_id k = j_approval_id j"
      then have "warranted (ct_approvals c) k" using assms(1) by (simp add: co_ok_def)
      with k once show False by (auto simp: warranted_def spent_def standing_def)
    qed
    then show ?thesis unfolding unused_def d(1) by blast
  next
    case (session a)
    then have "d = c" using assms(4) by (simp add: consume_once_def standing_def)
    with session show ?thesis by (auto simp: unused_def standing_def)
  qed simp
qed

lemma publish_cases:
  assumes "js_wf s" and "map_of (js_records s) i = Some r"
  shows "fst (ej_publish i now fault s) = s \<or>
    fst (ej_publish i now fault s) = js_written (AList.update i (publish_record (js_key s) now r) (js_records s)) s"
  using ej_put_cases [OF assms(2), of "publish_record (js_key s) now r" fault]
  by (auto simp: ej_publish_def assms(2) js_wfD(4) [OF assms] Let_def)

lemma publish_running:
  assumes "js_wf s" and "map_of (js_records s) i = Some r" and "k \<in> running_set (fst (ej_publish i now fault s))"
  shows "k \<in> running_set s \<or> same_command (rec_job r) k"
proof -
  let ?t = "fst (ej_publish i now fault s)"
  have "js_wf ?t"
    using publish_effect [OF assms(1), of i now fault] js_wf_change [OF assms(1)] assms(1) by (auto simp: js_effect_def)
  with assms(3) obtain q where q: "map_of (js_records ?t) (j_id k) = Some q" "rec_job q = k" "executable (j_status k)"
    by (auto simp: running_set_iff)
  have "same_command (rec_job r) (rec_job (publish_record (js_key s) now r))"
    by (simp add: publish_record_def same_command_def)
  with publish_cases [OF assms(1,2), of now fault] q show ?thesis
    by (auto simp: running_set_iff [OF assms(1)] split: if_splits)
qed

lemma launch_ok:
  assumes "co_ok c" and "map_of (js_records (ct_jobs c)) i = Some r" and "r_decision (classify (j_argv (rec_job r))) \<noteq> Deny"
    and "check_approval (rec_job r) (classify (j_argv (rec_job r))) c = Inr item" and "consume_once env item c = (d, None)"
  shows "co_ok (d\<lparr>ct_jobs := fst (ej_publish i now fault (ct_jobs d))\<rparr>)"
proof -
  note cl = cleared [OF assms(1,3,4,5)]
  have sync: "js_synced (ct_jobs d)" and wf: "js_wf (ct_jobs d)" using cl(1) by (simp_all add: co_ok_def js_synced_def)
  have r: "map_of (js_records (ct_jobs d)) i = Some r" using assms(2) consume_once_facts(1) [OF assms(5)] by simp
  let ?t = "fst (ej_publish i now fault (ct_jobs d))"
  note run = publish_running [OF wf r, of _ now fault]
  have "js_synced ?t" using js_run.step_keeps [OF js_step.publish sync] .
  moreover have "warranted (ct_approvals d) k" if "k \<in> running_set ?t" for k
    using run [OF that] cl(1,2) same_command_facts(2) [of "rec_job r" k] by (auto simp: co_ok_def)
  moreover have "single_use (ct_approvals d) ?t"
    unfolding single_use_def
  proof (intro ballI allI impI)
    fix j k a
    assume jk: "j \<in> running_set ?t" "k \<in> running_set ?t"
      and rest: "risky j" "risky k" "j_approval_id j = j_approval_id k"
        "ap_get (j_approval_id j) (ct_approvals d) = Some a" "ar_decision a = Ap_AllowOnce"
    have no: False if "same_command (rec_job r) x" "y \<in> running_set (ct_jobs d)" "risky x" "risky y"
      "j_approval_id y = j_approval_id x" "ap_get (j_approval_id x) (ct_approvals d) = Some a" for x y
      using cl(3) that rest(5) unfolding same_command_facts [OF that(1)] unused_def by blast
    consider "j \<in> running_set (ct_jobs d)" "k \<in> running_set (ct_jobs d)"
      | "same_command (rec_job r) j" "same_command (rec_job r) k"
      | "j \<in> running_set (ct_jobs d)" "same_command (rec_job r) k"
      | "k \<in> running_set (ct_jobs d)" "same_command (rec_job r) j"
      using run [OF jk(1)] run [OF jk(2)] by blast
    then show "j_id j = j_id k"
    proof cases
      case 1
      with cl(1) rest show ?thesis unfolding co_ok_def single_use_def by blast
    next
      case 2
      then show ?thesis by (simp add: same_command_facts(3))
    next
      case 3
      then show ?thesis using no [of k j] rest by simp
    next
      case 4
      then show ?thesis using no [of j k] rest by simp
    qed
  qed
  ultimately show ?thesis using cl(1) by (simp add: co_ok_def)
qed

interpretation co_acts: stable_predicate co_act co_ok
proof
  fix c d
  assume "co_act c d" and "co_ok c"
  then show "co_ok d"
  proof cases
    case other
    with \<open>co_ok c\<close> show ?thesis by (simp add: co_ok_def)
  next
    case (job s)
    with \<open>co_ok c\<close> show ?thesis by (simp add: quiet_ok)
  next
    case (approve s)
    with \<open>co_ok c\<close> show ?thesis by (simp add: approve_ok)
  next
    case (launch i r item env d' now fault)
    from launch(1) launch_ok [OF \<open>co_ok c\<close> launch(2-5)] show ?thesis by simp
  qed
qed

section \<open>The handlers are sequences of acts\<close>

lemma append_frame [simp]:
  "ct_approvals (fst (co_append env k inp c)) = ct_approvals c" "ct_jobs (fst (co_append env k inp c)) = ct_jobs c"
  "ct_auth (fst (co_append env k inp c)) = ct_auth c" "ct_output (fst (co_append env k inp c)) = ct_output c"
  by (simp_all add: co_append_def split: prod.split)

lemma acts_other: "ct_approvals d = ct_approvals c \<Longrightarrow> ct_jobs d = ct_jobs c \<Longrightarrow> co_act\<^sup>*\<^sup>* c d"
  by (simp add: co_act.other r_into_rtranclp)

lemma acts_append: "co_act\<^sup>*\<^sup>* c (fst (co_append env k inp c))"
  by (rule acts_other) simp_all

lemma acts_job: "js_quiet (ct_jobs c) s \<Longrightarrow> co_act\<^sup>*\<^sup>* c (c\<lparr>ct_jobs := s\<rparr>)"
  by (simp add: co_act.job r_into_rtranclp)

lemma acts_approve: "ap_step (ct_approvals c) s \<Longrightarrow> co_act\<^sup>*\<^sup>* c (c\<lparr>ct_approvals := s\<rparr>)"
  by (simp add: co_act.approve r_into_rtranclp)

lemma acts_cancel: "co_act\<^sup>*\<^sup>* c (co_cancel env i c)"
  unfolding co_cancel_def by (rule acts_job) (rule js_quiet.cancel)

lemma acts_reject: "co_act\<^sup>*\<^sup>* c (co_reject env i tok k c)"
  unfolding co_reject_def by (rule acts_job) (rule js_quiet.reject)

text \<open>One part of a handler after another, on the outcome of the first.\<close>

lemma acts_then:
  assumes "co_act\<^sup>*\<^sup>* c (fst p)"
    and "\<And>e. snd p = Inl e \<Longrightarrow> co_act\<^sup>*\<^sup>* (fst p) (fst (f (fst p) e))"
    and "\<And>y. snd p = Inr y \<Longrightarrow> co_act\<^sup>*\<^sup>* (fst p) (fst (g (fst p) y))"
  shows "co_act\<^sup>*\<^sup>* c (fst (case p of (d, Inl e) \<Rightarrow> f d e | (d, Inr y) \<Rightarrow> g d y))"
  using assms by (cases p; cases "snd p") (auto intro: rtranclp_trans)

lemma acts_store:
  assumes "js_quiet (ct_jobs c) (fst p)"
    and "\<And>s e. p = (s, Inl e) \<Longrightarrow> co_act\<^sup>*\<^sup>* (c\<lparr>ct_jobs := s\<rparr>) (fst (f s e))"
    and "\<And>s y. p = (s, Inr y) \<Longrightarrow> co_act\<^sup>*\<^sup>* (c\<lparr>ct_jobs := s\<rparr>) (fst (g s y))"
  shows "co_act\<^sup>*\<^sup>* c (fst (case p of (s, Inl e) \<Rightarrow> f s e | (s, Inr y) \<Rightarrow> g s y))"
  using acts_job [OF assms(1)] assms(2,3) by (cases p; cases "snd p") (auto intro: rtranclp_trans)

lemma consume_acts: "co_act\<^sup>*\<^sup>* c (fst (consume_once env item c))"
proof (cases "\<exists>a. item = Some a \<and> ar_decision a = Ap_AllowOnce")
  case True
  then obtain a where a: "item = Some a" "ar_decision a = Ap_AllowOnce" by blast
  have "fst (consume_once env item c) =
      c\<lparr>ct_approvals := fst (ap_consume_allow_once (ar_id a) (e_fault env 2) (ct_approvals c))\<rparr>"
    using a by (simp add: consume_once_def split: prod.split sum.split)
  then show ?thesis using acts_approve [OF ap_step.consume, of c "ar_id a" "e_fault env 2"] by simp
qed (auto simp: consume_once_def split: option.split)

lemma publish_acts:
  assumes "co_act\<^sup>*\<^sup>* c (d\<lparr>ct_jobs := fst (ej_publish (j_id j) (e_clock env 1) (e_fault env 0) (ct_jobs d))\<rparr>)"
  shows "co_act\<^sup>*\<^sup>* c (fst (publish_authorized env j d))"
proof -
  obtain s e where p: "ej_publish (j_id j) (e_clock env 1) (e_fault env 0) (ct_jobs d) = (s, e)" by (cases "ej_publish (j_id j) (e_clock env 1) (e_fault env 0) (ct_jobs d)")
  with assms have "co_act\<^sup>*\<^sup>* c (d\<lparr>ct_jobs := s\<rparr>)" by simp
  moreover from this have "co_act\<^sup>*\<^sup>* c (co_cancel env (j_id j) (d\<lparr>ct_jobs := s\<rparr>))" by (rule rtranclp_trans [OF _ acts_cancel])
  ultimately show ?thesis unfolding publish_authorized_def p Let_def by (cases e) simp_all
qed

text \<open>The part of \<open>Authorize\<close> after its checks.\<close>

definition clear_and_publish :: "env \<Rightarrow> job \<Rightarrow> string \<Rightarrow> ap_request option \<Rightarrow> control \<Rightarrow> control \<times> risk_result option \<times> (err + job)" where
  "clear_and_publish env j agent_reason item c =
     (let r = classify (j_argv j) in
      case co_append env 0 (job_authorized_event j r agent_reason) c of
        (c1, Inl e) \<Rightarrow> (co_cancel env (j_id j) c1, Some r, Inl e)
      | (c1, Inr _) \<Rightarrow>
        (case consume_once env item c1 of
           (c2, Some e) \<Rightarrow> (co_cancel env (j_id j) c2, Some r, Inl e)
         | (c2, None) \<Rightarrow> (case publish_authorized env j c2 of (c3, p) \<Rightarrow> (c3, Some r, p))))"

lemma co_authorize_cases:
  obtains (refused) e where "co_authorize env i agent_reason c = (c, None, Inl e)"
  | (canceled) j e where "ej_by_id i (ct_jobs c) = Inr (Some j)"
      and "co_authorize env i agent_reason c = (co_cancel env (j_id j) c, Some (classify (j_argv j)), Inl e)"
  | (denied) j where "ej_by_id i (ct_jobs c) = Inr (Some j)"
      and "co_authorize env i agent_reason c =
        (fst (co_append env 0 (submission_denied_event j (classify (j_argv j))) (co_cancel env (j_id j) c)),
         Some (classify (j_argv j)), Inl Err_AuthorizationDenied)"
  | (cleared) j item where "ej_by_id i (ct_jobs c) = Inr (Some j)" and "j_status j = Staged" and "verify_binding j"
      and "is_ok (cap_authenticate_id (auth_service (ct_auth c)) (j_grant_id j) (e_clock env 0))"
      and "r_decision (classify (j_argv j)) \<noteq> Deny" and "check_approval j (classify (j_argv j)) c = Inr item"
      and "co_authorize env i agent_reason c = clear_and_publish env j agent_reason item c"
proof (cases "ej_by_id i (ct_jobs c)")
  case (Inl e)
  then show thesis by (intro refused) (simp add: co_authorize_def)
next
  case (Inr jo)
  show thesis
  proof (cases "\<exists>j. jo = Some j \<and> j_status j = Staged")
    case False
    then show thesis using Inr by (intro refused) (auto simp: co_authorize_def split: option.split)
  next
    case True
    then obtain j where j: "ej_by_id i (ct_jobs c) = Inr (Some j)" "j_status j = Staged" using Inr by auto
    show thesis
    proof (cases "verify_binding j \<and> is_ok (cap_authenticate_id (auth_service (ct_auth c)) (j_grant_id j) (e_clock env 0))")
      case False
      then show thesis
        by (cases "verify_binding j") (rule canceled [OF j(1)], simp add: co_authorize_def j Let_def)+
    next
      case ok: True
      show thesis
      proof (cases "r_decision (classify (j_argv j)) = Deny")
        case True
        then show thesis using ok by (intro denied [OF j(1)]) (simp add: co_authorize_def j Let_def)
      next
        case False
        show thesis
        proof (cases "check_approval j (classify (j_argv j)) c")
          case (Inl e)
          then show thesis using ok False by (intro canceled [OF j(1)]) (simp add: co_authorize_def j Let_def)
        next
          case (Inr item)
          then show thesis
            by (intro cleared [OF j _ _ False Inr]) (use ok False in \<open>simp_all add: co_authorize_def clear_and_publish_def j Let_def\<close>)
        qed
      qed
    qed
  qed
qed

lemma by_id_record:
  assumes "ej_by_id i s = Inr (Some j)"
  shows "\<exists>r. map_of (js_records s) i = Some r \<and> rec_job r = j"
  using assms by (auto simp: ej_by_id_def split: option.splits)

lemma check_approval_frame:
  "ct_approvals d = ct_approvals c \<Longrightarrow> check_approval j r d = check_approval j r c"
  by (simp add: check_approval_def)

lemma clear_acts:
  assumes "map_of (js_records (ct_jobs c)) (j_id j) = Some r" and "rec_job r = j" and "r_decision (classify (j_argv j)) \<noteq> Deny"
    and "check_approval j (classify (j_argv j)) c = Inr item"
  shows "co_act\<^sup>*\<^sup>* c (fst (clear_and_publish env j agent_reason item c))"
proof -
  define p where "p = co_append env 0 (job_authorized_event j (classify (j_argv j)) agent_reason) c"
  obtain c2 e where q: "consume_once env item (fst p) = (c2, e)" by (cases "consume_once env item (fst p)")
  have "co_act\<^sup>*\<^sup>* (fst p) (fst (case consume_once env item (fst p) of
      (c2, Some e) \<Rightarrow> (co_cancel env (j_id j) c2, Some (classify (j_argv j)), Inl e)
    | (c2, None) \<Rightarrow> (case publish_authorized env j c2 of (c3, p) \<Rightarrow> (c3, Some (classify (j_argv j)), p))))" (is "co_act\<^sup>*\<^sup>* _ (fst ?rest)")
  proof (cases e)
    case None
    have "co_act (fst p) (c2\<lparr>ct_jobs := fst (ej_publish (j_id j) (e_clock env 1) (e_fault env 0) (ct_jobs c2))\<rparr>)"
    proof (rule co_act.launch [where r = r])
      show "map_of (js_records (ct_jobs (fst p))) (j_id j) = Some r" using assms(1) by (simp add: p_def)
      show "check_approval (rec_job r) (classify (j_argv (rec_job r))) (fst p) = Inr item"
        using assms(2,4) check_approval_frame [of "fst p" c] by (simp add: p_def)
    qed (use assms(2,3) q None in simp_all)
    then have "co_act\<^sup>*\<^sup>* (fst p) (fst (publish_authorized env j c2))" by (intro publish_acts r_into_rtranclp)
    with q None show ?thesis by (simp add: case_prod_unfold)
  next
    case (Some x)
    from rtranclp_trans [OF consume_acts [of "fst p" env item] acts_cancel] q Some show ?thesis by simp
  qed
  then show ?thesis
    unfolding clear_and_publish_def Let_def p_def [symmetric]
    by (intro acts_then) (simp_all add: p_def acts_append acts_cancel)
qed

lemma authorize_acts:
  assumes "co_ok c"
  shows "co_act\<^sup>*\<^sup>* c (fst (co_authorize env i agent_reason c))"
proof (cases rule: co_authorize_cases [of env i agent_reason c])
  case (canceled j e)
  then show ?thesis by (simp add: acts_cancel)
next
  case (denied j)
  from rtranclp_trans [OF acts_cancel acts_append] denied show ?thesis by simp
next
  case (cleared j item)
  from by_id_record [OF cleared(1)] obtain r where r: "map_of (js_records (ct_jobs c)) i = Some r" "rec_job r = j" by blast
  moreover from this have "j_id j = i" using js_wfD(2) assms by (auto simp: co_ok_def js_synced_def)
  ultimately show ?thesis using clear_acts [of c j r item env agent_reason] cleared by simp
qed simp

end
