(* ===== verification/Control_Runs.thy ===== *)
theory Control_Runs
  imports Control_Props
begin

text \<open>
  Runs of the control plane: every handler, with any clock, any random bytes and any write failures, is a sequence of the acts
  of \<open>Control_Props\<close>, so the invariant holds along every interleaving of requests.
\<close>

section \<open>Submission\<close>

lemma fst_outcome [simp]:
  "fst (case p of (d, Inl e) \<Rightarrow> (d, f d e) | (d, Inr y) \<Rightarrow> (d, g d y)) = fst p"
  "fst (case q of (d, Inl e) \<Rightarrow> (d, f d e) | (d, Inr (x, y)) \<Rightarrow> (d, h d x y)) = fst q"
  by (cases p; cases "snd p"; simp) (cases q; cases "snd q"; simp add: case_prod_unfold)

lemma fst_authorize_staged: "fst (authorize_staged_response env req i c) = fst (co_authorize env i (sq_agent_reason req) c)"
  by (simp add: authorize_staged_response_def split: prod.split sum.split)

lemma fst_deny_response:
  "\<exists>inp. fst (deny_response env g req approval_id r reason c) = fst (co_append env 0 inp c)"
  by (auto simp: deny_response_def log_submission_denied_def Let_def split: prod.split sum.split)

lemma request_approval_acts:
  assumes "ap_new_id (e_rnd_id env) (ct_approvals c)"
  shows "co_act\<^sup>*\<^sup>* c (fst (co_request_approval env req i c))"
proof -
  obtain s p where p: "ap_new req (e_rnd_id env) (e_clock env 1) (e_fault env 2) (ct_approvals c) = (s, p)"
    by (cases "ap_new req (e_rnd_id env) (e_clock env 1) (e_fault env 2) (ct_approvals c)")
  have a: "co_act\<^sup>*\<^sup>* c (c\<lparr>ct_approvals := s\<rparr>)"
    using acts_approve [OF ap_step.new [OF assms], of req "e_clock env 1" "e_fault env 2"] unfolding p by simp
  show ?thesis
  proof (cases p)
    case (Inr ib)
    have "co_act\<^sup>*\<^sup>* c (fst (co_append env 0 inp (c\<lparr>ct_approvals := s\<rparr>)))" for inp
      using rtranclp_trans [OF a acts_append] .
    with a show ?thesis unfolding co_request_approval_def p Inr by (cases ib) simp
  qed (use a in \<open>unfold co_request_approval_def p, simp\<close>)
qed

lemma fst_request_approval_response:
  "fst (request_approval_response env g req r c) = fst (co_request_approval env (approval_input g req r) (sq_request_id req) c)"
  by (simp add: request_approval_response_def split: prod.split sum.split)

lemma stage_acts:
  assumes "co_ok c" and "ej_new_id (e_rnd_id env) (ct_jobs c)"
  shows "co_act\<^sup>*\<^sup>* c (fst (stage_and_authorize_response env g req approval_id r ttl c))"
proof -
  obtain s p where p: "ej_enqueue (stage_input g req approval_id r (if g_expires_at g < e_clock env 3 + sint ttl then g_expires_at g
      else e_clock env 3 + sint ttl)) (e_rnd_id env) (e_clock env 4) (e_fault env 3) (ct_jobs c) = (s, p)" (is "?e = _")
    by (cases ?e)
  have a: "co_act\<^sup>*\<^sup>* c (c\<lparr>ct_jobs := s\<rparr>)"
    using acts_job [OF js_quiet.enqueue [OF assms(2)]] p by (metis fst_conv)
  have "co_act\<^sup>*\<^sup>* c (fst (co_authorize env i t (c\<lparr>ct_jobs := s\<rparr>)))" for i t
    using rtranclp_trans [OF a authorize_acts [OF co_acts.steps_keep [OF a assms(1)]]] .
  with a show ?thesis
    unfolding stage_and_authorize_response_def Let_def p
    by (cases p) (simp_all add: fst_authorize_staged split: prod.split)
qed

definition co_fresh_ids :: "env \<Rightarrow> control \<Rightarrow> bool" where
  "co_fresh_ids env c \<longleftrightarrow> ej_new_id (e_rnd_id env) (ct_jobs c) \<and> ap_new_id (e_rnd_id env) (ct_approvals c)"

lemma submit_fresh_acts:
  assumes "co_ok c" and "co_fresh_ids env c"
  shows "co_act\<^sup>*\<^sup>* c (fst (submit_fresh env g req ttl c))"
proof -
  have d: "co_act\<^sup>*\<^sup>* c (fst (deny_response env g req i r t c))" for i r t
    using fst_deny_response [of env g req i r t c] acts_append by metis
  have s: "co_act\<^sup>*\<^sup>* c (fst (stage_and_authorize_response env g req i r ttl c))" for i r
    by (rule stage_acts [OF assms(1)]) (use assms(2) in \<open>simp add: co_fresh_ids_def\<close>)
  have a: "co_act\<^sup>*\<^sup>* c (fst (request_approval_response env g req r c))" for r
    unfolding fst_request_approval_response
    by (rule request_approval_acts) (use assms(2) in \<open>simp add: co_fresh_ids_def\<close>)
  from d s a show ?thesis unfolding submit_fresh_def Let_def by (simp split: option.split)
qed

lemma submit_acts:
  assumes "co_ok c" and "co_fresh_ids env c"
  shows "co_act\<^sup>*\<^sup>* c (fst (submit_command env body c))"
  using submit_fresh_acts [OF assms] authorize_acts [OF assms(1)]
  unfolding submit_command_def Let_def by (simp add: fst_authorize_staged split: sum.split option.split)

section \<open>The worker\<close>

lemma claim_acts: "co_act\<^sup>*\<^sup>* c (fst (co_claim env w c))"
  unfolding co_claim_def
proof (rule acts_store [OF js_quiet.claim])
  fix s y
  show "co_act\<^sup>*\<^sup>* (c\<lparr>ct_jobs := s\<rparr>) (fst (case y of (j, tok) \<Rightarrow>
      (case co_append env 0 (job_event ''execution.job_claimed'' w [] [] j [(''command_sha256'', j_command_sha256 j)]) (c\<lparr>ct_jobs := s\<rparr>) of
         (c1, Inl e) \<Rightarrow> (co_reject env (j_id j) tok ''audit_failure_before_execution'' c1, Inl e)
       | (c1, Inr _) \<Rightarrow> (c1, Inr (j, tok)))))"
    by (cases y, simp only: prod.case, rule acts_then [OF acts_append]) (simp_all add: acts_reject)
qed simp

lemma start_acts: "co_act\<^sup>*\<^sup>* c (fst (co_start env i tok w c))"
proof (cases "ej_by_id i (ct_jobs c)")
  case (Inr jo)
  show ?thesis
  proof (cases jo)
    case (Some j)
    have run: "co_act\<^sup>*\<^sup>* c (fst (case ej_start (j_id j) tok (e_clock env 1) (e_fault env 0) (ct_jobs c) of
           (s, Inl e) \<Rightarrow> (c\<lparr>ct_jobs := s\<rparr>, Inl e)
         | (s, Inr started) \<Rightarrow>
           (case co_append env 0
               (job_event ''execution.job_started'' w ''allow'' [] started [(''command_sha256'', j_command_sha256 started)])
               (c\<lparr>ct_jobs := s\<rparr>) of
              (c1, Inl e) \<Rightarrow> (co_reject env (j_id started) tok ''audit_failure_at_execution_start'' c1, Inl e)
            | (c1, Inr _) \<Rightarrow> (c1, Inr started))))"
      by (rule acts_store [OF js_quiet.start], simp, rule acts_then [OF acts_append]) (simp_all add: acts_reject)
    have rej: "co_act\<^sup>*\<^sup>* c (fst (co_append env 0 inp (co_reject env (j_id j) tok k c)))" for inp k
      using rtranclp_trans [OF acts_reject acts_append] .
    show ?thesis unfolding co_start_def Inr Some using run rej by simp
  qed (simp add: co_start_def Inr)
qed (simp add: co_start_def)

lemma store_output_frame: "co_act\<^sup>*\<^sup>* c (fst (store_output env i out c))"
  by (rule acts_other) (simp_all add: store_output_def split: option.split prod.split)

lemma complete_acts: "co_act\<^sup>*\<^sup>* c (fst (co_complete_with_output env i tok w result out c))"
proof -
  obtain c1 e where o: "store_output env i out c = (c1, e)" by (cases "store_output env i out c")
  have a: "co_act\<^sup>*\<^sup>* c c1" using store_output_frame [of c env i out] o by simp
  have b: "co_act\<^sup>*\<^sup>* c1 (fst (case ej_complete i tok result (e_clock env 1) (e_fault env 0) (ct_jobs c1) of
              (s, Inl e) \<Rightarrow> (c1\<lparr>ct_jobs := s\<rparr>, Inl e)
            | (s, Inr j) \<Rightarrow>
              (case co_append env 0 (job_event ''execution.job_completed'' w (status_text (j_status j)) [] j
                      (completion_metadata j result out)) (c1\<lparr>ct_jobs := s\<rparr>) of
                 (c2, Inl e) \<Rightarrow> (c2, Inl e)
               | (c2, Inr _) \<Rightarrow> (c2, Inr j))))"
    by (rule acts_store [OF js_quiet.complete], simp, rule acts_then [OF acts_append]) simp_all
  from a rtranclp_trans [OF a b] show ?thesis
    unfolding co_complete_with_output_def o by (simp split: option.split)
qed

section \<open>The operator\<close>

lemma decide_acts: "co_act\<^sup>*\<^sup>* c (fst (co_decide env i d actor c))"
proof -
  obtain s p where p: "ap_decide i d actor (e_clock env 1) (e_fault env 2) (ct_approvals c) = (s, p)"
    by (cases "ap_decide i d actor (e_clock env 1) (e_fault env 2) (ct_approvals c)")
  have a: "co_act\<^sup>*\<^sup>* c (c\<lparr>ct_approvals := s\<rparr>)"
    using acts_approve [OF ap_step.decide, of c i d actor "e_clock env 1" "e_fault env 2"] unfolding p by simp
  have "co_act\<^sup>*\<^sup>* c (fst (co_append env 0 inp (c\<lparr>ct_approvals := s\<rparr>)))" for inp
    using rtranclp_trans [OF a acts_append] .
  with a show ?thesis unfolding co_decide_def p by (cases p) simp_all
qed

lemma issue_acts: "co_act\<^sup>*\<^sup>* c (fst (co_issue env g c))"
proof (rule acts_other)
  show "ct_approvals (fst (co_issue env g c)) = ct_approvals c" "ct_jobs (fst (co_issue env g c)) = ct_jobs c"
    unfolding co_issue_def
    by (auto simp: co_append_def split: prod.split sum.split)
qed

lemma bulk_acts:
  assumes "co_act\<^sup>*\<^sup>* c d" and "js_quiet (ct_jobs d) s"
  shows "co_act\<^sup>*\<^sup>* c (fst (co_append env k inp (d\<lparr>ct_jobs := s\<rparr>)))"
  using rtranclp_trans [OF assms(1) rtranclp_trans [OF acts_job [OF assms(2)] acts_append]] .

lemma auth_acts: "co_act\<^sup>*\<^sup>* c (c\<lparr>ct_auth := a\<rparr>)"
  by (rule acts_other) simp_all

lemma revoke_acts: "co_act\<^sup>*\<^sup>* c (fst (co_revoke env i at c))"
proof -
  obtain s e where r: "cap_revoke i at (e_fault env 0) (auth_service (ct_auth c)) = (s, e)"
    by (cases "cap_revoke i at (e_fault env 0) (auth_service (ct_auth c))")
  have "co_act\<^sup>*\<^sup>* c (fst (co_append env 0 inp (c\<lparr>ct_auth := a, ct_jobs := fst (ej_cancel_pending_by_grant i (e_fault env 1) (ct_jobs c))\<rparr>)))" for inp a
    using bulk_acts [OF auth_acts [of c a], of "fst (ej_cancel_pending_by_grant i (e_fault env 1) (ct_jobs c))"] by (simp add: js_quiet.cancel_grant)
  then show ?thesis unfolding co_revoke_def r
    by (cases e) (simp_all add: auth_acts Let_def case_prod_unfold)
qed

lemma revoke_all_acts: "co_act\<^sup>*\<^sup>* c (fst (co_revoke_all env reason at c))"
proof -
  have "co_act\<^sup>*\<^sup>* c (fst (co_append env 0 inp (c\<lparr>ct_auth := a, ct_jobs := fst (ej_cancel_not_running_all k t (e_fault env 1) (ct_jobs c))\<rparr>)))" for inp a k t
    using bulk_acts [OF auth_acts [of c a], of "fst (ej_cancel_not_running_all k t (e_fault env 1) (ct_jobs c))"] by (simp add: js_quiet.cancel_all)
  then show ?thesis unfolding co_revoke_all_def by (simp add: Let_def case_prod_unfold)
qed

lemma failed_closed_acts: "co_act\<^sup>*\<^sup>* c (enable_failed_closed env at c)"
proof -
  have "co_act\<^sup>*\<^sup>* c (fst (co_append env 2 inp (c\<lparr>ct_auth := a, ct_jobs := fst (ej_cancel_not_running_all k t (e_fault env 2) (ct_jobs c))\<rparr>)))" for inp a k t
    using bulk_acts [OF auth_acts [of c a], of "fst (ej_cancel_not_running_all k t (e_fault env 2) (ct_jobs c))"] by (simp add: js_quiet.cancel_all)
  then show ?thesis unfolding enable_failed_closed_def by (simp add: Let_def case_prod_unfold)
qed

lemma enable_acts: "co_act\<^sup>*\<^sup>* c (fst (co_enable env reason at c))"
proof -
  have em: "co_act\<^sup>*\<^sup>* d (fst (case em_enable reason at (e_fault env 0) (au_em (ct_auth d)) of
            (em, Inl e) \<Rightarrow> (d\<lparr>ct_auth := (ct_auth d)\<lparr>au_em := em\<rparr>\<rparr>, Inl e)
          | (em, Inr st) \<Rightarrow>
            (case co_append env 1 (inp st) (d\<lparr>ct_auth := (ct_auth d)\<lparr>au_em := em\<rparr>\<rparr>) of
               (c2, Inr _) \<Rightarrow> (c2, Inr st)
             | (c2, Inl e) \<Rightarrow> (enable_failed_closed env at c2, Inl e))))" for d inp
  proof -
    obtain em p where p: "em_enable reason at (e_fault env 0) (au_em (ct_auth d)) = (em, p)"
      by (cases "em_enable reason at (e_fault env 0) (au_em (ct_auth d))")
    have "co_act\<^sup>*\<^sup>* (d\<lparr>ct_auth := a\<rparr>) (fst (case co_append env 1 (inp st) (d\<lparr>ct_auth := a\<rparr>) of
        (c2, Inl e) \<Rightarrow> (enable_failed_closed env at c2, Inl e) | (c2, Inr _) \<Rightarrow> (c2, Inr st)))" for a st
      by (rule acts_then [OF acts_append]) (simp_all add: failed_closed_acts)
    from rtranclp_trans [OF auth_acts this] show ?thesis unfolding p by (cases p) (simp_all add: auth_acts)
  qed
  show ?thesis
  proof (cases "em_disabled (em_snapshot (au_em (ct_auth c)))")
    case True
    then have on: "(\<not> em_disabled (em_snapshot (au_em (ct_auth c)))) = False" by simp
    show ?thesis unfolding co_enable_def Let_def on if_False
      by (rule acts_then [OF acts_append]) (simp, rule em)
  qed (simp add: co_enable_def)
qed

section \<open>Steps\<close>

text \<open>
  One request to the control plane. A new job or approval needs an identifier that is not in use: 16 random bytes.
\<close>

inductive co_step :: "control \<Rightarrow> control \<Rightarrow> bool" where
  submit: "co_fresh_ids env c \<Longrightarrow> co_step c (fst (submit_command env body c))"
| claim: "co_step c (fst (guarded_claim env worker c))"
| start: "co_step c (fst (start_execution env i start_body c))"
| complete: "co_step c (fst (complete_execution env i complete_body c))"
| issue: "co_step c (fst (issue_grant env issue_body c))"
| revoke: "co_step c (fst (revoke_grant env i c))"
| decide: "co_step c (fst (decide_approval env i decision c))"
| revoke_all: "co_step c (fst (co_revoke_all env reason at c))"
| enable: "co_step c (fst (co_enable env reason at c))"

lemma fst_handlers:
  "fst (revoke_grant env i c) = fst (co_revoke env i (e_clock env 0) c)"
  "fst (decide_approval env i (Inr d) c) = fst (co_decide env i d (ctx_actor (e_ctx env)) c)"
  by (simp_all add: revoke_grant_def decide_approval_def)

lemma co_step_acts:
  assumes "co_step c d" and "co_ok c"
  shows "co_act\<^sup>*\<^sup>* c d"
  using assms(1)
proof cases
  case (submit env body)
  with submit_acts [OF assms(2)] show ?thesis by simp
next
  case (claim env worker)
  then show ?thesis
    using claim_acts by (auto simp: guarded_claim_def claim_execution_def Let_def split: sum.split)
next
  case (start env i body)
  then show ?thesis
    using start_acts by (auto simp: start_execution_def Let_def split: sum.split)
next
  case (complete env i body)
  then show ?thesis
    using complete_acts by (auto simp: complete_execution_def co_complete_def Let_def split: sum.split option.split)
next
  case (issue env body)
  then show ?thesis
    using issue_acts by (auto simp: issue_grant_def Let_def split: sum.split)
next
  case (revoke env i)
  then show ?thesis using revoke_acts by (simp add: fst_handlers)
next
  case (decide env i body)
  then show ?thesis using decide_acts by (cases body) (simp_all add: fst_handlers, simp add: decide_approval_def)
next
  case (revoke_all env reason at)
  then show ?thesis using revoke_all_acts by simp
next
  case (enable env reason at)
  then show ?thesis using enable_acts by simp
qed

interpretation co_run: stable_predicate co_step co_ok
proof
  fix c d
  assume "co_step c d" and "co_ok c"
  then show "co_ok d" using co_acts.steps_keep co_step_acts by blast
qed

end
