(* ===== verification/Control_Safety.thy ===== *)
theory Control_Safety
  imports Control_Runs
begin

text \<open>
  What the invariant gives along runs of the control plane: no job runs without authority, and an \<open>allow_once\<close> decision runs
  one job.
\<close>

section \<open>A spent approval launches nothing more\<close>

definition frozen :: "control \<Rightarrow> control \<Rightarrow> bool" where
  "frozen c d \<longleftrightarrow> (\<forall>q \<in> running_set (ct_jobs d). \<forall>a. risky q \<longrightarrow> ap_get (j_approval_id q) (ct_approvals c) = Some a \<longrightarrow> spent a \<longrightarrow>
     (\<exists>p \<in> running_set (ct_jobs c). same_command p q))"

definition co_forward :: "control \<Rightarrow> control \<Rightarrow> bool" where
  "co_forward c d \<longleftrightarrow> (co_ok c \<longrightarrow> co_ok d \<and> ap_history (ct_approvals c) (ct_approvals d) \<and> frozen c d)"

lemma frozen_refl: "frozen c c"
  by (auto simp: frozen_def intro: same_command_refl)

lemma spent_later:
  assumes "ap_history s t" and "ap_wf t" and "ap_get i s = Some a" and "spent a"
  shows "\<exists>b. ap_get i t = Some b \<and> spent b"
proof -
  from assms(1,3) obtain b where b: "ap_get i t = Some b" "ap_later a b" by (auto simp: ap_history_def ap_get_def)
  with ap_wfD(2) [OF assms(2)] have "ap_request_ok b" by (auto simp: ap_get_def)
  from ap_later_kept(2) [OF b(2) this assms(4)] b(1) show ?thesis by blast
qed

lemma frozen_trans:
  assumes "frozen c d" and "frozen d e" and "ap_history (ct_approvals c) (ct_approvals d)" and "ap_wf (ct_approvals d)"
  shows "frozen c e"
  unfolding frozen_def
proof (intro ballI allI impI)
  fix q a
  assume q: "q \<in> running_set (ct_jobs e)" "risky q" "ap_get (j_approval_id q) (ct_approvals c) = Some a" "spent a"
  from spent_later [OF assms(3,4) q(3,4)] obtain b where b: "ap_get (j_approval_id q) (ct_approvals d) = Some b" "spent b" by blast
  with assms(2) q(1,2) obtain p where p: "p \<in> running_set (ct_jobs d)" "same_command p q" unfolding frozen_def by blast
  note f = same_command_facts [OF p(2)]
  from assms(1) p(1) q(2-4) f(1,4) obtain p' where "p' \<in> running_set (ct_jobs c)" "same_command p' p"
    unfolding frozen_def by metis
  with p(2) show "\<exists>p \<in> running_set (ct_jobs c). same_command p q" using same_command_trans by blast
qed

lemma launch_frozen:
  assumes "co_ok c" and "map_of (js_records (ct_jobs c)) i = Some r"
    and "check_approval (rec_job r) (classify (j_argv (rec_job r))) c = Inr item" and "consume_once env item c = (d, None)"
  shows "frozen c (d\<lparr>ct_jobs := fst (ej_publish i now fault (ct_jobs d))\<rparr>)"
  unfolding frozen_def
proof (intro ballI allI impI)
  fix q a
  assume q: "q \<in> running_set (ct_jobs (d\<lparr>ct_jobs := fst (ej_publish i now fault (ct_jobs d))\<rparr>))" "risky q"
    "ap_get (j_approval_id q) (ct_approvals c) = Some a" "spent a"
  have jobs: "ct_jobs d = ct_jobs c" using consume_once_facts(1) [OF assms(4)] .
  have wf: "js_wf (ct_jobs c)" using assms(1) by (simp add: co_ok_def js_synced_def)
  have "\<not> same_command (rec_job r) q"
  proof
    assume "same_command (rec_job r) q"
    from q(2,3) have "risky (rec_job r)" "ap_get (j_approval_id (rec_job r)) (ct_approvals c) = Some a"
      unfolding same_command_facts [OF \<open>same_command (rec_job r) q\<close>] .
    with assms(3) q(4) show False by (cases rule: check_approval_facts) (auto simp: spent_def standing_def)
  qed
  with publish_running [OF wf assms(2), of q now fault] q(1) jobs show "\<exists>p \<in> running_set (ct_jobs c). same_command p q"
    by (auto intro: same_command_refl)
qed

lemma act_frozen:
  assumes "co_act c d" and "co_ok c"
  shows "ap_history (ct_approvals c) (ct_approvals d) \<and> frozen c d"
  using assms(1)
proof cases
  case other
  then show ?thesis using frozen_refl [of c] ap_forward.rel_refl by (simp add: frozen_def)
next
  case (job s)
  have "js_wf (ct_jobs c)" using assms(2) by (simp add: co_ok_def js_synced_def)
  from running_origin [OF this job(2)] job(1) show ?thesis by (auto simp: frozen_def ap_forward.rel_refl)
next
  case (approve s)
  then show ?thesis using ap_forward.step_rel [OF approve(2)] by (auto simp: frozen_def intro: same_command_refl)
next
  case (launch i r item env d' now fault)
  have "ap_history (ct_approvals c) (ct_approvals d')"
    using consume_once_facts(5) [OF launch(5)] ap_forward.rel_refl ap_forward.step_rel [OF ap_step.consume] by auto
  with launch(1) launch_frozen [OF assms(2) launch(2,4,5)] show ?thesis by simp
qed

interpretation co_ahead: monotone_steps co_act co_forward
proof
  show "co_forward c c" for c by (simp add: co_forward_def frozen_refl ap_forward.rel_refl)
  show "co_forward c e" if "co_forward c d" "co_forward d e" for c d e
    using that frozen_trans [of c d e] ap_forward.rel_trans [of "ct_approvals c" "ct_approvals d" "ct_approvals e"]
    by (auto simp: co_forward_def co_ok_def ap_synced_def)
  show "co_forward c d" if "co_act c d" for c d
    using that act_frozen co_acts.step_keeps by (auto simp: co_forward_def)
qed

interpretation co_run_ahead: monotone_under co_step co_ok co_forward
proof
  show "co_forward c d" if "co_ok c" "co_step c d" for c d
    using co_ahead.steps_rel [OF co_step_acts [OF that(2,1)]] .
qed (use co_ahead.rel_refl co_ahead.rel_trans in blast)+

section \<open>A fresh control plane\<close>

definition co_fresh :: "control \<Rightarrow> bool" where
  "co_fresh c \<longleftrightarrow> 32 \<le> length (js_key (ct_jobs c)) \<and> js_records (ct_jobs c) = [] \<and> js_disk (ct_jobs c) = None \<and>
     ct_approvals c = \<lparr>ap_requests = [], ap_disk = None\<rparr>"

lemma fresh_ok: "co_fresh c \<Longrightarrow> co_ok c"
  by (simp add: co_fresh_def co_ok_def js_synced_def js_wf_def ap_synced_def ap_wf_def running_set_def single_use_def unique_keys_def)

lemma running_record:
  assumes "co_ok c" and "map_of (js_records (ct_jobs c)) i = Some r" and "executable (j_status (rec_job r))"
  shows "rec_job r \<in> running_set (ct_jobs c)" and "j_id (rec_job r) = i"
  using assms js_wfD(2) by (auto simp: running_set_iff co_ok_def js_synced_def)

section \<open>Demonstration state\<close>

text \<open>A pending job for a risky command, published under a spent \<open>allow_once\<close> decision.\<close>

definition demo_argv :: "string list" where
  "demo_argv = [''rm'', ''f'']"

definition demo_risky_job :: job where
  "demo_risky_job = (new_job ''0a'' 1 (demo_input\<lparr>in_argv := demo_argv, in_approval_id := ''0b'',
     in_risk_category := r_category (classify demo_argv), in_scope_key := r_scope_key (classify demo_argv)\<rparr>))\<lparr>j_status := Pending\<rparr>"

definition demo_risky_record :: job_record where
  "demo_risky_record = seal demo_key \<lparr>rec_job = demo_risky_job, rec_claim_sha256 = [], rec_mac = []\<rparr>"

definition demo_spent :: ap_request where
  "demo_spent = demo_approval\<lparr>ar_id := ''0b'', ar_argv := demo_argv, ar_category := r_category (classify demo_argv),
     ar_scope_key := r_scope_key (classify demo_argv), ar_status := Ap_Consumed,
     ar_session_allowed := session_approval_allowed_category (r_category (classify demo_argv))\<rparr>"

definition demo_control :: control where
  "demo_control =
     \<lparr>ct_auth = demo_authority, ct_approvals = \<lparr>ap_requests = [(''0b'', demo_spent)], ap_disk = Some [demo_spent]\<rparr>,
      ct_jobs = \<lparr>js_key = demo_key, js_records = [(''0a'', demo_risky_record)], js_disk = Some [demo_risky_record]\<rparr>,
      ct_output = None, ct_audit = demo_log\<rparr>"

lemma demo_risky: "r_decision (classify demo_argv) = ApprovalRequired"
proof -
  have "trim_space ''rm'' = ''rm''" "path_base ''rm'' = ''rm''" "\<not> is_privilege_launcher ''rm''" by code_simp+
  then show ?thesis by (simp add: demo_argv_def classify_def Let_def classify_base_def approval_def)
qed

lemma demo_risky_record_ok: "record_ok demo_key demo_risky_record"
  using demo_times
  by (simp add: record_ok_def demo_risky_record_def demo_risky_job_def new_job_def demo_input_def job_marshals_def
      opt_time_marshals_def verify_binding_def held_def)

lemma demo_control_ok: "co_ok demo_control"
proof -
  have rec: "rec_job demo_risky_record = demo_risky_job" by (simp add: demo_risky_record_def)
  have job: "j_id demo_risky_job = ''0a''" "j_argv demo_risky_job = demo_argv" "j_approval_id demo_risky_job = ''0b''"
    "j_grant_id demo_risky_job = ''g''" "j_target demo_risky_job = ''host''" "j_status demo_risky_job = Pending"
    by (simp_all add: demo_risky_job_def new_job_def demo_input_def)
  have "js_synced (ct_jobs demo_control)"
    using demo_risky_record_ok by (simp add: js_synced_def js_wf_def demo_control_def unique_keys_def demo_key_def rec job)
  moreover have "ap_synced (ct_approvals demo_control)"
    by (simp add: ap_synced_def ap_wf_def demo_control_def demo_spent_def demo_approval_def unique_keys_def ap_request_ok_def)
  moreover have run: "running_set (ct_jobs demo_control) = {demo_risky_job}"
    by (simp add: running_set_def demo_control_def rec job executable_def)
  moreover have "warranted (ct_approvals demo_control) demo_risky_job"
    by (simp add: warranted_def risky_def demo_risky job ap_get_def demo_control_def covers_def spent_def demo_spent_def demo_approval_def)
  ultimately show ?thesis by (simp add: co_ok_def single_use_def)
qed

section \<open>Properties\<close>


text \<open>
  C2. An \<open>allow_once\<close> decision runs one job: when a risky job that may run or has run names an \<open>allow_once\<close> approval, then
  at no later moment does another job that names this approval get past staging, whatever requests, failures and
  cancellations come in between.
\<close>
theorem allow_once_runs_once:
  assumes "co_ok c" and "co_step\<^sup>*\<^sup>* c d"
    and "map_of (js_records (ct_jobs c)) i = Some r" and "executable (j_status (rec_job r))"
    and "map_of (js_records (ct_jobs d)) k = Some q" and "executable (j_status (rec_job q))"
    and "r_decision (classify (j_argv (rec_job r))) = ApprovalRequired"
    and "r_decision (classify (j_argv (rec_job q))) = ApprovalRequired"
    and "j_approval_id (rec_job q) = j_approval_id (rec_job r)"
    and "ap_get (j_approval_id (rec_job r)) (ct_approvals c) = Some a" and "ar_decision a = Ap_AllowOnce"
  shows "k = i"
proof -
  have fwd: "co_ok d" "frozen c d"
    using co_run_ahead.steps_rel [OF assms(2,1)] assms(1) by (auto simp: co_forward_def)
  note r = running_record [OF assms(1,3,4)] and q = running_record [OF fwd(1) assms(5,6)]
  have risky: "risky (rec_job r)" "risky (rec_job q)" using assms(7,8) by (simp_all add: risky_def)
  have "warranted (ct_approvals c) (rec_job r)" using r(1) assms(1) by (simp add: co_ok_def)
  then have "spent a" using risky(1) assms(10,11) by (auto simp: warranted_def standing_def)
  then obtain p where p: "p \<in> running_set (ct_jobs c)" "same_command p (rec_job q)"
    using fwd(2) q(1) risky(2) assms(9,10) unfolding frozen_def by metis
  have "single_use (ct_approvals c) (ct_jobs c)" using assms(1) by (simp add: co_ok_def)
  then have "j_id p = j_id (rec_job r)"
    using p(1) r(1) risky assms(9-11) same_command_facts(1,4) [OF p(2)] unfolding single_use_def by metis
  with same_command_facts(3) [OF p(2)] r(2) q(2) show ?thesis by simp
qed

lemma demo_control_record:
  "map_of (js_records (ct_jobs demo_control)) ''0a'' = Some demo_risky_record" "executable (j_status (rec_job demo_risky_record))"
  "r_decision (classify (j_argv (rec_job demo_risky_record))) = ApprovalRequired"
  "ap_get (j_approval_id (rec_job demo_risky_record)) (ct_approvals demo_control) = Some demo_spent"
  using demo_risky
  by (simp_all add: demo_control_def demo_risky_record_def demo_risky_job_def new_job_def demo_input_def executable_def ap_get_def)


theorem allow_once_runs_once_witness:
  "executable (j_status (rec_job demo_risky_record)) \<and> j_id (rec_job demo_risky_record) = ''0a'' \<and> ''0a'' = (''0a'' :: string)"
  using allow_once_runs_once [OF demo_control_ok rtranclp.rtrancl_refl demo_control_record(1,2) demo_control_record(1,2)
      demo_control_record(3) demo_control_record(3) refl demo_control_record(4)] demo_control_record(2)
  by (simp add: demo_spent_def demo_approval_def demo_risky_record_def demo_risky_job_def new_job_def)

end
