(* ===== verification/Control_Requests.thy ===== *)
theory Control_Requests
  imports Control_Safety
begin

text \<open>
  What the answer of one request to the control plane means: an accepted submission, a granted authorization, a start, a poll
  of the authority, a switch back on, and the arithmetic of the requested lifetimes.
\<close>

section \<open>What a success of a store operation means\<close>

lemma ej_publish_success:
  assumes "ej_publish i now fault s = (t, Inr p)"
  obtains r where "map_of (js_records s) i = Some r" and "j_status (rec_job r) = Staged" and "now < j_expires_at (rec_job r)"
    and "p = (rec_job r)\<lparr>j_status := Pending\<rparr>"
    and "t = js_written (AList.update i (publish_record (js_key s) now r) (js_records s)) s"
    and "rec_job (publish_record (js_key s) now r) = p"
proof (cases "map_of (js_records s) i")
  case None
  with assms show thesis by (simp add: ej_publish_def)
next
  case (Some r)
  have c: "j_status (rec_job r) = Staged" "verify_record (js_key s) r = None"
    using assms Some by (auto simp: ej_publish_def split: if_splits option.splits)
  have put: "ej_put i r (publish_record (js_key s) now r) fault s = (t, None)"
    and st: "j_status (rec_job (publish_record (js_key s) now r)) \<noteq> Expired" and p: "p = rec_job (publish_record (js_key s) now r)"
    using assms Some c by (auto simp: ej_publish_def Let_def split: prod.splits option.splits if_splits)
  from st have now: "now < j_expires_at (rec_job r)" by (simp add: publish_record_def split: if_splits)
  have "t = js_written (AList.update i (publish_record (js_key s) now r) (js_records s)) s"
    using ej_put_cases [OF Some, of "publish_record (js_key s) now r" fault] put by auto
  with now p c Some show thesis by (intro that [of r]) (simp_all add: publish_record_def)
qed

lemma find_request_found:
  assumes "find_request g q s = Some r"
  shows "r \<in> snd ` set (js_records s)" and "j_grant_id (rec_job r) = g" and "j_request_id (rec_job r) = q"
  using assms by (auto simp: find_request_def find_Some_iff)

lemma wf_value:
  assumes "js_wf s" and "r \<in> snd ` set (js_records s)"
  shows "map_of (js_records s) (j_id (rec_job r)) = Some r"
proof -
  from assms(2) obtain i where "map_of (js_records s) i = Some r" by (auto simp: js_wf_entry [OF assms(1)])
  with js_wfD(2) [OF assms(1) this] show ?thesis by simp
qed

lemma ej_enqueue_result:
  assumes "js_wf s" and "ej_new_id rnd s" and "ej_enqueue inp0 rnd now fault s = (t, Inr (j, b))"
  defines "inp \<equiv> trim_input inp0"
  shows "\<exists>r. map_of (js_records t) (j_id j) = Some r \<and> rec_job r = j"
    and "j_request_id j = in_request_id inp \<and> j_grant_id j = in_grant_id inp"
    and "j_command_sha256 j = binding_hash (in_grant_id inp) (in_request_id inp) (in_target inp) (in_argv inp)"
proof -
  have "(\<exists>r. map_of (js_records t) (j_id j) = Some r \<and> rec_job r = j) \<and> (j_request_id j = in_request_id inp \<and> j_grant_id j = in_grant_id inp) \<and>
    j_command_sha256 j = binding_hash (in_grant_id inp) (in_request_id inp) (in_target inp) (in_argv inp)"
  proof (cases "find_request (in_grant_id inp) (in_request_id inp) s")
    case (Some r)
    with assms(3) have "t = s" "j = rec_job r"
      "j_command_sha256 j = binding_hash (in_grant_id inp) (in_request_id inp) (in_target inp) (in_argv inp)"
      unfolding inp_def by (auto simp: ej_enqueue_def Let_def split: option.splits if_splits)
    with find_request_found [OF Some] wf_value [OF assms(1)] show ?thesis by auto
  next
    case None
    show ?thesis
    proof (rule ej_enqueue_cases [OF assms(2), of inp0 now fault])
      assume "\<And>j. snd (ej_enqueue inp0 rnd now fault s) \<noteq> Inr (j, True)"
      moreover have "b = True"
        using assms(3) None unfolding inp_def
        by (auto simp: ej_enqueue_def Let_def split: option.splits if_splits sum.splits prod.splits)
      ultimately show ?thesis using assms(3) by auto
    next
      fix b'
      assume e: "ej_enqueue inp0 rnd now fault s =
        (js_written (AList.update (hex_encode b') (ej_fresh (js_key s) b' now (trim_input inp0)) (js_records s)) s,
         Inr (new_job (hex_encode b') now (trim_input inp0), True))"
      with assms(3) have "t = js_written (AList.update (hex_encode b') (ej_fresh (js_key s) b' now inp) (js_records s)) s"
        "j = new_job (hex_encode b') now inp" by (simp_all add: inp_def)
      then show ?thesis by (simp add: ej_fresh_def new_job_def)
    qed
  qed
  then show "\<exists>r. map_of (js_records t) (j_id j) = Some r \<and> rec_job r = j" "j_request_id j = in_request_id inp \<and> j_grant_id j = in_grant_id inp"
    "j_command_sha256 j = binding_hash (in_grant_id inp) (in_request_id inp) (in_target inp) (in_argv inp)" by auto
qed

section \<open>What a granted authorization means\<close>

lemma build_event_input:
  assumes "build_event sq prev now inp rnd = Inr ev"
  shows "ev_kind ev = ai_kind inp" and "ev_grant_id ev = ai_grant_id inp" and "ev_target ev = ai_target inp"
    and "ev_argv ev = ai_argv inp"
  using assms by (auto simp: build_event_def event_of_def Let_def split: sum.splits)

lemma append_success:
  assumes "co_append env k inp c = (d, Inr ev)"
  shows "d = c\<lparr>ct_audit := ct_audit d\<rparr>"
    and "build_event (al_sequence (ct_audit c) + 1) (al_last_hash (ct_audit c)) (fst (snd (e_audit env k)))
        (resolve_operator_actor (e_ctx env) inp) (fst (e_audit env k)) = Inr ev"
    and "al_lines (ct_audit d) = add_line (whole_line ev) (al_lines (ct_audit c))"
proof -
  obtain rnd now fault where a: "e_audit env k = (rnd, now, fault)" by (cases "e_audit env k")
  with assms have ap: "al_append (e_ctx env) inp rnd now fault (ct_audit c) = (ct_audit d, Inr ev)" and "d = c\<lparr>ct_audit := ct_audit d\<rparr>"
    by (auto simp: co_append_def split: prod.splits)
  then show "d = c\<lparr>ct_audit := ct_audit d\<rparr>"
    "build_event (al_sequence (ct_audit c) + 1) (al_last_hash (ct_audit c)) (fst (snd (e_audit env k)))
        (resolve_operator_actor (e_ctx env) inp) (fst (e_audit env k)) = Inr ev"
    "al_lines (ct_audit d) = add_line (whole_line ev) (al_lines (ct_audit c))"
    using al_append_ok [OF ap] by (simp_all add: a)
qed

lemma append_jobs:
  assumes "co_append env k inp c = (d, r)"
  shows "ct_jobs d = ct_jobs c" and "ct_auth d = ct_auth c"
  using append_frame [of env k inp c] assms by simp_all

lemma clear_success:
  assumes "clear_and_publish env j agent_reason item c = (d, ro, Inr p)"
  obtains c1 ev c2 where "co_append env 0 (job_authorized_event j (classify (j_argv j)) agent_reason) c = (c1, Inr ev)"
    and "consume_once env item c1 = (c2, None)" and "ro = Some (classify (j_argv j))"
    and "ej_publish (j_id j) (e_clock env 1) (e_fault env 0) (ct_jobs c2) = (ct_jobs d, Inr p)" and "ct_audit d = ct_audit c2"
    and "ct_approvals d = ct_approvals c2"
proof -
  obtain c1 a where a: "co_append env 0 (job_authorized_event j (classify (j_argv j)) agent_reason) c = (c1, a)"
    by (cases "co_append env 0 (job_authorized_event j (classify (j_argv j)) agent_reason) c")
  obtain c2 e where q: "consume_once env item c1 = (c2, e)" by (cases "consume_once env item c1")
  obtain s x where x: "ej_publish (j_id j) (e_clock env 1) (e_fault env 0) (ct_jobs c2) = (s, x)"
    by (cases "ej_publish (j_id j) (e_clock env 1) (e_fault env 0) (ct_jobs c2)")
  obtain ev where ev: "a = Inr ev" using assms unfolding clear_and_publish_def Let_def a by (cases a) simp_all
  have e: "e = None" using assms unfolding clear_and_publish_def Let_def a ev by (cases e) (simp_all add: q)
  have d: "publish_authorized env j c2 = (d, Inr p)" "ro = Some (classify (j_argv j))"
    using assms unfolding clear_and_publish_def Let_def a ev by (simp_all add: q e case_prod_unfold prod_eq_iff)
  from d(1) have "x = Inr p" "d = c2\<lparr>ct_jobs := s\<rparr>" unfolding publish_authorized_def x by (cases x; simp add: Let_def)+
  with a ev q e x d(2) show thesis by (intro that [of c1 ev c2]) simp_all
qed

lemma co_authorize_success:
  assumes "js_wf (ct_jobs c)" and "co_authorize env i agent_reason c = (d, ro, Inr p)"
  obtains r item c1 c2 ev where "map_of (js_records (ct_jobs c)) i = Some r" and "j_status (rec_job r) = Staged"
    and "verify_binding (rec_job r)"
    and "is_ok (cap_authenticate_id (auth_service (ct_auth c)) (j_grant_id (rec_job r)) (e_clock env 0))"
    and "r_decision (classify (j_argv (rec_job r))) \<noteq> Deny"
    and "check_approval (rec_job r) (classify (j_argv (rec_job r))) c = Inr item"
    and "co_append env 0 (job_authorized_event (rec_job r) (classify (j_argv (rec_job r))) agent_reason) c = (c1, Inr ev)"
    and "consume_once env item c1 = (c2, None)" and "ct_audit d = ct_audit c2" and "ct_approvals d = ct_approvals c2"
    and "p = (rec_job r)\<lparr>j_status := Pending\<rparr>" and "e_clock env 1 < j_expires_at (rec_job r)"
    and "\<exists>q. map_of (js_records (ct_jobs d)) i = Some q \<and> rec_job q = p"
proof (cases rule: co_authorize_cases [of env i agent_reason c])
  case (cleared j item)
  from by_id_record [OF cleared(1)] obtain r where r: "map_of (js_records (ct_jobs c)) i = Some r" "rec_job r = j" by blast
  then have id: "j_id j = i" using js_wfD(2) [OF assms(1)] by auto
  from assms(2) cleared(7) have "clear_and_publish env j agent_reason item c = (d, ro, Inr p)" by simp
  then obtain c1 ev c2 where a: "co_append env 0 (job_authorized_event j (classify (j_argv j)) agent_reason) c = (c1, Inr ev)"
    and q: "consume_once env item c1 = (c2, None)"
    and x: "ej_publish (j_id j) (e_clock env 1) (e_fault env 0) (ct_jobs c2) = (ct_jobs d, Inr p)"
    and d: "ct_audit d = ct_audit c2" "ct_approvals d = ct_approvals c2"
    by (rule clear_success)
  have jobs: "ct_jobs c2 = ct_jobs c"
    using consume_once_facts(1) [OF q] append_jobs(1) [OF a] by simp
  from x obtain r' where r': "map_of (js_records (ct_jobs c)) i = Some r'" "p = (rec_job r')\<lparr>j_status := Pending\<rparr>"
    "e_clock env 1 < j_expires_at (rec_job r')" "rec_job (publish_record (js_key (ct_jobs c)) (e_clock env 1) r') = p"
    "ct_jobs d = js_written (AList.update i (publish_record (js_key (ct_jobs c)) (e_clock env 1) r') (js_records (ct_jobs c))) (ct_jobs c)"
    unfolding id jobs by (rule ej_publish_success)
  with r have [simp]: "r' = r" by simp
  show thesis
    by (rule that [OF r(1), of item c1 ev c2]) (use cleared a q d r r' in simp_all)
qed (use assms(2) in simp_all)

section \<open>Demonstration values\<close>

definition demo_env :: env where
  "demo_env = \<lparr>e_clock = (\<lambda>_. 2), e_ctx = None, e_rnd_id = Some (replicate 16 (CHR ''r'')), e_rnd_token = Some (replicate 32 (CHR ''t'')),
     e_fault = (\<lambda>_. None), e_audit = (\<lambda>_. (Some ''i'', 7, None)), e_err_text = (\<lambda>_. [])\<rparr>"

definition exec_grant :: grant where
  "exec_grant = zero_grant\<lparr>g_id := ''g'', g_agent := ''agent'', g_targets := [''host''],
     g_permissions := no_permissions\<lparr>perm_exec := True\<rparr>, g_expires_at := 100\<rparr>"

definition live_control :: "job_status \<Rightarrow> control" where
  "live_control st =
     \<lparr>ct_auth = \<lparr>au_store = \<lparr>gs_by_hash = [(zero_hash, exec_grant)], gs_by_id = [(''g'', zero_hash)], gs_disk = None\<rparr>,
        au_em = \<lparr>em_mem = em_zero, em_disk = None\<rparr>\<rparr>,
      ct_approvals = \<lparr>ap_requests = [], ap_disk = None\<rparr>, ct_jobs = demo_jobs st, ct_output = None, ct_audit = demo_log\<rparr>"

lemma live_control_wf: "au_wf (ct_auth (live_control st))" "js_wf (ct_jobs (live_control st))"
  using demo_jobs_synced [of st]
  by (auto simp: au_wf_def gm_wf_def gm_abs_def live_control_def exec_grant_def zero_grant_def em_zero_def unique_keys_def
      js_synced_def split: if_splits)

lemma live_grant:
  "gm_abs (au_store (ct_auth (live_control st))) ''g'' = Some exec_grant" "grant_live (ct_auth (live_control st)) exec_grant 2"
  by (simp_all add: gm_abs_def live_control_def grant_live_def exec_grant_def zero_grant_def em_zero_def)

lemma demo_classified: "classify [''uptime''] = allow_result ''uptime'' ''no elevated-risk rule matched''"
proof -
  have "trim_space ''uptime'' = ''uptime''" "path_base ''uptime'' = ''uptime''" "\<not> is_abs ''uptime''"
      "\<not> is_privilege_launcher ''uptime''" "\<not> is_arbitrary_code_carrier ''uptime''" "\<not> is_remote_exec_tool ''uptime''"
    by code_simp+
  then show ?thesis by (simp add: classify_def classify_rest_def Let_def classifier_defs)
qed

lemma demo_allowed: "r_decision (classify [''uptime'']) = Allow"
  by (simp add: demo_classified allow_result_def)

lemma demo_append: "ai_kind inp \<noteq> [] \<Longrightarrow> \<exists>d ev. co_append demo_env k inp c = (d, Inr ev)"
  using demo_audit_time
  by (simp add: co_append_def demo_env_def al_append_def build_event_def al_random_id_def event_hash_def event_of_def
      resolve_operator_actor_def)

lemma demo_job_facts:
  "j_id (demo_job st) = ''0a''" "j_status (demo_job st) = st" "j_grant_id (demo_job st) = ''g''" "j_argv (demo_job st) = [''uptime'']"
  "j_target (demo_job st) = ''host''" "j_request_id (demo_job st) = ''request-1''" "j_expires_at (demo_job st) = 100"
  by (simp_all add: demo_job_def new_job_def demo_input_def)

lemma demo_publish: "\<exists>t p. ej_publish ''0a'' 2 None (demo_jobs Staged) = (t, Inr p)"
proof -
  have v: "verify_record demo_key (demo_record Staged) = None" using demo_record_ok by (simp add: record_ok_def)
  have "verify_record demo_key (publish_record demo_key 2 (demo_record Staged)) = None"
    using demo_times
    by (simp add: publish_record_def demo_job_def new_job_def demo_input_def job_marshals_def opt_time_marshals_def)
  moreover have "j_status (rec_job (publish_record demo_key 2 (demo_record Staged))) = Pending"
    by (simp add: publish_record_def demo_job_facts)
  ultimately show ?thesis
    using v by (simp add: ej_publish_def ej_put_def ej_persist_def demo_jobs_def demo_job_facts Let_def)
qed

lemma demo_authorize: "\<exists>d ro p. co_authorize demo_env ''0a'' [] (live_control Staged) = (d, ro, Inr p)"
proof -
  let ?c = "live_control Staged" and ?j = "demo_job Staged"
  have v: "verify_record demo_key (demo_record Staged) = None" "verify_binding ?j"
    using demo_record_ok [of Staged] by (simp_all add: record_ok_def)
  have j: "ej_by_id ''0a'' (ct_jobs ?c) = Inr (Some ?j)" by (simp add: ej_by_id_def live_control_def v)
  have "cap_authenticate_id (auth_service (ct_auth ?c)) ''g'' 2 = Inr exec_grant"
    by (simp add: cap_authenticate_id_iff [OF live_control_wf(1)] live_grant)
  then have g: "is_ok (cap_authenticate_id (auth_service (ct_auth ?c)) (j_grant_id ?j) (e_clock demo_env 0))"
    by (simp add: is_ok_def demo_job_facts demo_env_def)
  obtain d ev where a: "co_append demo_env 0 (job_authorized_event ?j (classify [''uptime'']) []) ?c = (d, Inr ev)"
    using demo_append [of "job_authorized_event ?j (classify [''uptime'']) []" 0 ?c]
    by (auto simp: job_authorized_event_def)
  have "ct_jobs d = demo_jobs Staged" using append_jobs(1) [OF a] by (simp add: live_control_def)
  then obtain e p where p: "publish_authorized demo_env ?j d = (e, Inr p)"
    using demo_publish by (auto simp: publish_authorized_def demo_job_facts demo_env_def)
  show ?thesis
    using j v g a p demo_allowed
    by (simp add: co_authorize_def demo_job_facts check_approval_def consume_once_def)
qed

section \<open>Properties\<close>

text \<open>
  A job is published only by a live authorization: when \<open>Authorize\<close> answers with a job, that job was staged, carries the
  digest of its own grant, request, target and argv, and was not expired; its grant is in the store, unrevoked, unexpired and of
  the current epoch with AI access enabled at that moment; an \<open>execution.job_authorized\<close> event naming the grant, target and
  argv has been appended to the audit log before; and the job is now pending under its ID, unchanged otherwise.
\<close>
theorem authorize_sound:
  assumes "js_wf (ct_jobs c)" and "au_wf (ct_auth c)" and "co_authorize env i agent_reason c = (d, ro, Inr p)"
  shows "\<exists>r g ev. map_of (js_records (ct_jobs c)) i = Some r \<and> j_status (rec_job r) = Staged \<and> verify_binding (rec_job r) \<and>
     e_clock env 1 < j_expires_at (rec_job r) \<and>
     gm_abs (au_store (ct_auth c)) (j_grant_id (rec_job r)) = Some g \<and> grant_live (ct_auth c) g (e_clock env 0) \<and>
     ev_kind ev = ''execution.job_authorized'' \<and> ev_grant_id ev = j_grant_id (rec_job r) \<and>
     ev_target ev = j_target (rec_job r) \<and> ev_argv ev = j_argv (rec_job r) \<and>
     al_lines (ct_audit d) = add_line (whole_line ev) (al_lines (ct_audit c)) \<and>
     p = (rec_job r)\<lparr>j_status := Pending\<rparr> \<and>
     (\<exists>q. map_of (js_records (ct_jobs d)) i = Some q \<and> rec_job q = p)"
proof -
  from co_authorize_success [OF assms(1,3)] obtain r item c1 c2 ev where
    r: "map_of (js_records (ct_jobs c)) i = Some r" "j_status (rec_job r) = Staged" "verify_binding (rec_job r)"
    and g: "is_ok (cap_authenticate_id (auth_service (ct_auth c)) (j_grant_id (rec_job r)) (e_clock env 0))"
    and a: "co_append env 0 (job_authorized_event (rec_job r) (classify (j_argv (rec_job r))) agent_reason) c = (c1, Inr ev)"
    and q: "consume_once env item c1 = (c2, None)" and d: "ct_audit d = ct_audit c2"
    and p: "p = (rec_job r)\<lparr>j_status := Pending\<rparr>" "e_clock env 1 < j_expires_at (rec_job r)"
      "\<exists>q. map_of (js_records (ct_jobs d)) i = Some q \<and> rec_job q = p"
    by metis
  from g obtain gr where "cap_authenticate_id (auth_service (ct_auth c)) (j_grant_id (rec_job r)) (e_clock env 0) = Inr gr"
    by (auto simp: is_ok_def split: sum.splits)
  then have gr: "gm_abs (au_store (ct_auth c)) (j_grant_id (rec_job r)) = Some gr" "grant_live (ct_auth c) gr (e_clock env 0)"
    by (simp_all add: cap_authenticate_id_iff [OF assms(2)])
  have "ct_audit d = ct_audit c1" using d consume_once_facts(4) [OF q] by simp
  with append_success(3) [OF a] have lines: "al_lines (ct_audit d) = add_line (whole_line ev) (al_lines (ct_audit c))" by simp
  have ev: "ev_kind ev = ''execution.job_authorized''" "ev_grant_id ev = j_grant_id (rec_job r)"
    "ev_target ev = j_target (rec_job r)" "ev_argv ev = j_argv (rec_job r)"
    using build_event_input [OF append_success(2) [OF a]]
    by (simp_all add: resolve_operator_actor_def job_authorized_event_def no_input_def)
  from r gr ev lines p show ?thesis by blast
qed

theorem authorize_sound_witness:
  "\<exists>d ro p r g. co_authorize demo_env ''0a'' [] (live_control Staged) = (d, ro, Inr p) \<and>
     map_of (js_records (ct_jobs (live_control Staged))) ''0a'' = Some r \<and> p = (rec_job r)\<lparr>j_status := Pending\<rparr> \<and>
     grant_live (ct_auth (live_control Staged)) g 2"
proof -
  obtain d ro p where a: "co_authorize demo_env ''0a'' [] (live_control Staged) = (d, ro, Inr p)" using demo_authorize by blast
  have "e_clock demo_env 0 = 2" by (simp add: demo_env_def)
  with authorize_sound [OF live_control_wf(2,1) a] a show ?thesis by metis
qed

section \<open>Submission\<close>

definition submitted :: "string \<Rightarrow> submit_request \<Rightarrow> job \<Rightarrow> bool" where
  "submitted gid req j \<longleftrightarrow> j_request_id j = trim_space (sq_request_id req) \<and> (j_grant_id j = gid \<or> j_grant_id j = trim_space gid) \<and>
     (\<exists>i target. trim_space i = trim_space gid \<and> trim_space target = trim_space (sq_target req) \<and>
        j_command_sha256 j = binding_hash i (trim_space (sq_request_id req)) target (sq_argv req))"

definition receipt_of :: "submit_response \<Rightarrow> job_store \<Rightarrow> job \<Rightarrow> bool" where
  "receipt_of resp s j \<longleftrightarrow>
     (\<exists>rc r. sp_job resp = Some rc \<and> map_of (js_records s) (rc_id rc) = Some r \<and> rec_job r = j \<and>
        rc_status rc = j_status j \<and> rc_command_sha256 rc = j_command_sha256 j \<and> rc_expires_at rc = j_expires_at j)"

lemma receipt_accepted:
  "map_of (js_records s) (j_id j) = Some r \<Longrightarrow> rec_job r = j \<Longrightarrow> receipt_of (accepted_response j ro) s j"
  by (simp add: receipt_of_def accepted_response_def)

lemma settled_accepted:
  assumes "settled_response j r = Reply n resp" and "j_status j \<noteq> Staged"
  shows "resp = accepted_response j (Some r)" and "executable (j_status j)"
  using assms by (cases "j_status j"; simp add: settled_response_def consumed_request_def executable_def split: if_splits)+

lemma authorize_accepted:
  assumes "js_wf (ct_jobs c)" and "authorize_staged_response env req i c = (d, Reply n resp)" and "sp_accepted resp"
    and "map_of (js_records (ct_jobs c)) i = Some r" and "submitted gid req0 (rec_job r)"
  shows "\<exists>j. receipt_of resp (ct_jobs d) j \<and> executable (j_status j) \<and> submitted gid req0 j"
proof -
  obtain c1 ro p where a: "co_authorize env i (sq_agent_reason req) c = (c1, ro, p)"
    by (cases "co_authorize env i (sq_agent_reason req) c")
  obtain j where p: "p = Inr j" "resp = accepted_response j ro" "c1 = d"
    using assms(2,3) a by (cases p) (auto simp: authorize_staged_response_def response_def split: if_splits)
  from co_authorize_success [OF assms(1) a [unfolded p]] assms(4)
  have j: "j = (rec_job r)\<lparr>j_status := Pending\<rparr>" "\<exists>q. map_of (js_records (ct_jobs d)) i = Some q \<and> rec_job q = j" by (metis option.inject)+
  have "j_id j = i" using js_wfD(2) [OF assms(1,4)] by (simp add: j(1))
  with j(2) have "receipt_of resp (ct_jobs d) j" unfolding p(2) using receipt_accepted by blast
  moreover have "submitted gid req0 j" using assms(5) by (simp add: j(1) submitted_def)
  ultimately show ?thesis by (auto simp: j(1) executable_def)
qed

lemma stage_accepted:
  assumes "co_ok c" and "ej_new_id (e_rnd_id env) (ct_jobs c)"
    and "stage_and_authorize_response env g req approval_id r ttl c = (d, Reply n resp)" and "sp_accepted resp"
  shows "\<exists>j. receipt_of resp (ct_jobs d) j \<and> executable (j_status j) \<and> submitted (g_id g) req j"
proof -
  define inp where "inp = stage_input g req approval_id r (if g_expires_at g < e_clock env 3 + sint ttl then g_expires_at g
      else e_clock env 3 + sint ttl)"
  obtain s p where p: "ej_enqueue inp (e_rnd_id env) (e_clock env 4) (e_fault env 3) (ct_jobs c) = (s, p)"
    by (cases "ej_enqueue inp (e_rnd_id env) (e_clock env 4) (e_fault env 3) (ct_jobs c)")
  have st: "stage_and_authorize_response env g req approval_id r ttl c =
      (case (s, p) of
        (s, Inl e) \<Rightarrow> (c\<lparr>ct_jobs := s\<rparr>, if e = Err_RequestConflict then Reply_Error 409 (e_err_text env e) else Reply_Error 400 (e_err_text env e))
      | (s, Inr (j, _)) \<Rightarrow>
          if j_status j \<noteq> Staged then (c\<lparr>ct_jobs := s\<rparr>, settled_response j r)
          else authorize_staged_response env req (j_id j) (c\<lparr>ct_jobs := s\<rparr>))"
    unfolding stage_and_authorize_response_def Let_def p [symmetric] inp_def ..
  have wf: "js_wf (ct_jobs c)" using assms(1) by (simp add: co_ok_def js_synced_def)
  obtain j b where pj: "p = Inr (j, b)" using assms(3) unfolding st by (cases p) (auto split: if_splits)
  note e = ej_enqueue_result [OF wf assms(2) p [unfolded pj]]
  from e(1) obtain q where q: "map_of (js_records s) (j_id j) = Some q" "rec_job q = j" by blast
  have sub: "submitted (g_id g) req j"
    unfolding submitted_def
    by (intro conjI exI [of _ "trim_space (g_id g)"] exI [of _ "trim_space (sq_target req)"])
      (use e(2,3) in \<open>simp_all add: inp_def stage_input_def trim_input_def\<close>)
  have "js_wf s" using enqueue_effect [OF wf assms(2), of inp "e_clock env 4" "e_fault env 3"] js_wf_change [OF wf] wf p
    by (auto simp: js_effect_def)
  then have wf': "js_wf (ct_jobs (c\<lparr>ct_jobs := s\<rparr>))" by simp
  show ?thesis
  proof (cases "j_status j = Staged")
    case True
    with assms(3) have "authorize_staged_response env req (j_id j) (c\<lparr>ct_jobs := s\<rparr>) = (d, Reply n resp)"
      unfolding st pj by simp
    from authorize_accepted [OF wf' this assms(4)] q sub show ?thesis by simp
  next
    case False
    with assms(3) have d: "d = c\<lparr>ct_jobs := s\<rparr>" "settled_response j r = Reply n resp" unfolding st pj by simp_all
    from settled_accepted [OF d(2) False] receipt_accepted [OF q] sub show ?thesis by (auto simp: d(1))
  qed
qed

lemma submit_fresh_accepted:
  assumes "co_ok c" and "ej_new_id (e_rnd_id env) (ct_jobs c)" and "submit_fresh env g req ttl c = (d, Reply n resp)" and "sp_accepted resp"
  shows "\<exists>j. receipt_of resp (ct_jobs d) j \<and> executable (j_status j) \<and> submitted (g_id g) req j"
proof -
  have no: "\<not> sp_accepted (response x y z)" for x y z by (simp add: response_def)
  have den: "deny_response env g req i r t c \<noteq> (d, Reply n resp)" for i r t
    using assms(4) no by (auto simp: deny_response_def Let_def split: prod.splits sum.splits)
  have ask: "request_approval_response env g req r c \<noteq> (d, Reply n resp)" for r
    using assms(4) no by (auto simp: request_approval_response_def split: prod.splits sum.splits)
  have "\<exists>i r. stage_and_authorize_response env g req i r ttl c = (d, Reply n resp)"
    using assms(3) den ask unfolding submit_fresh_def Let_def by (auto split: if_splits option.splits)
  then show ?thesis using stage_accepted [OF assms(1,2) _ assms(4)] by blast
qed

lemma by_request_record:
  assumes "js_wf s" and "ej_by_request g q s = Inr (Some j)"
  obtains r where "map_of (js_records s) (j_id j) = Some r" and "rec_job r = j" and "j_grant_id j = g" and "j_request_id j = q"
    and "verify_binding j"
proof -
  from assms(2) obtain r where f: "find_request g q s = Some r" and j: "rec_job r = j"
    by (auto simp: ej_by_request_def split: option.splits)
  note r = find_request_found [OF f]
  have m: "map_of (js_records s) (j_id j) = Some r" using wf_value [OF assms(1) r(1)] j by simp
  with js_wfD(3) [OF assms(1) m] r j show thesis by (intro that [of r]) (simp_all add: record_ok_def)
qed

lemma grant_from_hash_live:
  assumes "au_wf (ct_auth c)" and "grant_from_hash now encoded c = Inr g"
  shows "gm_abs (au_store (ct_auth c)) (g_id g) = Some g" and "hex_decode encoded = Some (g_token_hash g)"
    and "grant_live (ct_auth c) g now"
  using assms(2) cap_authenticate_hash_iff [OF assms(1)]
  by (auto simp: grant_from_hash_def split: option.splits if_splits)

lemma submit_accepted_job:
  assumes "co_ok c" and "co_fresh_ids env c"
    and "submit_command env (Inr req) c = (d, Reply n resp)" and "sp_accepted resp"
  shows "\<exists>g j. grant_from_hash (e_clock env 2) (sq_token_hash req) c = Inr g \<and> perm_exec (g_permissions g) \<and>
     sq_target req \<in> set (g_targets g) \<and> receipt_of resp (ct_jobs d) j \<and> executable (j_status j) \<and> submitted (g_id g) req j"
proof -
  define rq where "rq = req\<lparr>sq_request_id := trim_space (sq_request_id req)\<rparr>"
  have wf: "js_wf (ct_jobs c)" using assms(1) by (simp add: co_ok_def js_synced_def)
  have sub: "submitted i rq j = submitted i req j" for i j by (simp add: submitted_def rq_def)
  obtain ttl where t: "requested_execution_ttl (sq_timeout_seconds req) = Inr ttl"
    using assms(3) by (cases "requested_execution_ttl (sq_timeout_seconds req)") (simp_all add: submit_command_def Let_def)
  obtain g where g: "grant_from_hash (e_clock env 2) (sq_token_hash req) c = Inr g"
    using assms(3) t by (cases "grant_from_hash (e_clock env 2) (sq_token_hash req) c") (simp_all add: submit_command_def Let_def)
  have ok: "perm_exec (g_permissions g)" "target_allowed (g_targets g) (sq_target req)"
    using assms(3) t g by (auto simp: submit_command_def Let_def split: if_splits)
  have rq: "sq_target rq = sq_target req" "sq_argv rq = sq_argv req" "sq_request_id rq = trim_space (sq_request_id req)"
    "sq_timeout_seconds rq = sq_timeout_seconds req" "sq_token_hash rq = sq_token_hash req" by (simp_all add: rq_def)
  have eq: "(case ej_by_request (g_id g) (sq_request_id rq) (ct_jobs c) of
               Inl _ \<Rightarrow> (c, Reply_Error 500 ''execution job lookup failed'')
             | Inr (Some existing) \<Rightarrow>
                 if j_target existing \<noteq> sq_target rq \<or> j_argv existing \<noteq> sq_argv rq
                 then (c, Reply_Error 409 ''request_id is already bound to a different command'')
                 else if j_status existing = Staged then authorize_staged_response env rq (j_id existing) c
                 else (c, settled_response existing (classify (sq_argv rq)))
             | Inr None \<Rightarrow> submit_fresh env g rq ttl c) = (d, Reply n resp)"
    using assms(3) t g ok unfolding submit_command_def Let_def sum.case rq_def [symmetric] by (simp add: rq)
  have "\<exists>j. receipt_of resp (ct_jobs d) j \<and> executable (j_status j) \<and> submitted (g_id g) req j"
  proof (cases "ej_by_request (g_id g) (trim_space (sq_request_id req)) (ct_jobs c)")
    case (Inr x)
    show ?thesis
    proof (cases x)
      case None
      have "submit_fresh env g rq ttl c = (d, Reply n resp)" using eq Inr None by (simp add: rq)
      from submit_fresh_accepted [OF assms(1) _ this assms(4)] assms(2) show ?thesis by (simp add: co_fresh_ids_def sub)
    next
      case (Some j)
      from by_request_record [OF wf Inr [unfolded Some]] obtain r where
        r: "map_of (js_records (ct_jobs c)) (j_id j) = Some r" "rec_job r = j" "j_grant_id j = g_id g"
          "j_request_id j = trim_space (sq_request_id req)" "verify_binding j" .
      have same: "j_target j = sq_target req" "j_argv j = sq_argv req" using eq Inr Some by (auto simp: rq split: if_splits)
      have s: "submitted (g_id g) req j"
        unfolding submitted_def
        by (intro conjI exI [of _ "g_id g"] exI [of _ "sq_target req"]) (use r(3-5) same in \<open>simp_all add: verify_binding_def\<close>)
      show ?thesis
      proof (cases "j_status j = Staged")
        case True
        then have "authorize_staged_response env rq (j_id j) c = (d, Reply n resp)" using eq Inr Some same by (simp add: rq)
        from authorize_accepted [OF wf this assms(4) r(1)] s r(2) show ?thesis by simp
      next
        case False
        then have "d = c" "settled_response j (classify (sq_argv req)) = Reply n resp" using eq Inr Some same by (simp_all add: rq)
        with settled_accepted [OF this(2) False] receipt_accepted [OF r(1,2)] s show ?thesis by auto
      qed
    qed
  qed (use eq in \<open>simp add: rq\<close>)
  with ok g show ?thesis by (auto simp: target_allowed_def list_ex_iff)
qed

text \<open>
  An accepted submission has authority: when a submission is answered as accepted, the token hash belongs to a stored grant
  that was unrevoked, unexpired and of the current epoch with AI access enabled, the grant has the exec permission and the
  target in its scope; and the receipt names a stored job that is pending or further, under the trimmed request ID and the grant, whose digest
  is the one of this grant, request, target and argv.
\<close>
theorem submit_accepted_sound:
  assumes "co_ok c" and "au_wf (ct_auth c)" and "co_fresh_ids env c"
    and "submit_command env (Inr req) c = (d, Reply n resp)" and "sp_accepted resp"
  shows "\<exists>g j. gm_abs (au_store (ct_auth c)) (g_id g) = Some g \<and> hex_decode (sq_token_hash req) = Some (g_token_hash g) \<and>
     grant_live (ct_auth c) g (e_clock env 2) \<and> perm_exec (g_permissions g) \<and> sq_target req \<in> set (g_targets g) \<and>
     receipt_of resp (ct_jobs d) j \<and> executable (j_status j) \<and> submitted (g_id g) req j"
  using submit_accepted_job [OF assms(1,3-5)] grant_from_hash_live [OF assms(2)] by blast

definition demo_submit :: submit_request where
  "demo_submit = \<lparr>sq_token_hash = hex_encode zero_hash, sq_request_id = '' request-1'', sq_target = ''host'', sq_argv = [''uptime''],
     sq_agent_reason = [], sq_timeout_seconds = 60\<rparr>"

lemma live_control_ok: "co_ok (live_control st)"
proof -
  have "running_set (ct_jobs (live_control st)) \<subseteq> {demo_job st}"
    by (auto simp: running_set_def live_control_def demo_jobs_def)
  moreover have "warranted s (demo_job st)" "\<not> risky (demo_job st)" for s
    using demo_allowed by (simp_all add: warranted_def risky_def demo_job_facts)
  ultimately show ?thesis
    using demo_jobs_synced [of st]
    by (auto simp: co_ok_def single_use_def live_control_def ap_synced_def ap_wf_def unique_keys_def)
qed

lemma demo_submit_accepted:
  "submit_command demo_env (Inr demo_submit) (live_control Pending) =
     (live_control Pending, Reply 200 (accepted_response (demo_job Pending) (Some (classify [''uptime'']))))"
proof -
  let ?c = "live_control Pending"
  have t: "trim_space '' request-1'' = ''request-1''" by code_simp
  have ttl: "requested_execution_ttl 60 = Inr (60 * second)"
    by (simp add: requested_execution_ttl_def second_def max_execution_job_ttl_def)
  have "length zero_hash = 32" by simp
  moreover have "cap_authenticate_hash (auth_service (ct_auth ?c)) zero_hash 2 = Inr exec_grant"
    using live_grant [of Pending] unfolding cap_authenticate_hash_iff [OF live_control_wf(1)]
    by (simp add: exec_grant_def zero_grant_def)
  ultimately have g: "grant_from_hash 2 (hex_encode zero_hash) ?c = Inr exec_grant" by (simp add: grant_from_hash_def)
  have "verify_record demo_key (demo_record Pending) = None" using demo_record_ok by (simp add: record_ok_def)
  then have j: "ej_by_request ''g'' ''request-1'' (ct_jobs ?c) = Inr (Some (demo_job Pending))"
    by (simp add: ej_by_request_def find_request_def live_control_def demo_jobs_def demo_job_facts)
  have e: "g_id exec_grant = ''g''" "perm_exec (g_permissions exec_grant)" "g_targets exec_grant = [''host'']"
    by (simp_all add: exec_grant_def)
  show ?thesis
    using ttl g j e
    by (auto simp: submit_command_def demo_submit_def demo_env_def Let_def t target_allowed_def demo_job_facts settled_response_def)
qed

theorem submit_accepted_sound_witness:
  "\<exists>g j. gm_abs (au_store (ct_auth (live_control Pending))) (g_id g) = Some g \<and> perm_exec (g_permissions g) \<and>
     ''host'' \<in> set (g_targets g) \<and> executable (j_status j) \<and> submitted (g_id g) demo_submit j"
proof -
  have "ej_new_id (e_rnd_id demo_env) (ct_jobs (live_control Pending))" "ap_new_id (e_rnd_id demo_env) (ct_approvals (live_control Pending))"
    by (simp_all add: ej_new_id_def ap_new_id_def demo_env_def live_control_def demo_jobs_def) code_simp
  then have "co_fresh_ids demo_env (live_control Pending)" by (simp add: co_fresh_ids_def)
  moreover have "sq_target demo_submit = ''host''" by (simp add: demo_submit_def)
  ultimately show ?thesis
    using submit_accepted_sound [OF live_control_ok live_control_wf(1) _ demo_submit_accepted]
    by (auto simp: accepted_response_def)
qed

section \<open>Starting and watching a job\<close>

lemma co_start_success:
  assumes "js_wf (ct_jobs c)" and "co_start env i tok worker c = (d, Inr j)"
  obtains r g ev where "map_of (js_records (ct_jobs c)) i = Some r"
    and "cap_authenticate_id (auth_service (ct_auth c)) (j_grant_id (rec_job r)) (e_clock env 0) = Inr g"
    and "ej_start i tok (e_clock env 1) (e_fault env 0) (ct_jobs c) = (ct_jobs d, Inr j)"
    and "co_append env 0 (job_event ''execution.job_started'' worker ''allow'' [] j [(''command_sha256'', j_command_sha256 j)])
      (c\<lparr>ct_jobs := ct_jobs d\<rparr>) = (d, Inr ev)"
proof -
  obtain j0 where j0: "ej_by_id i (ct_jobs c) = Inr (Some j0)"
    using assms(2) by (auto simp: co_start_def split: sum.splits option.splits)
  from by_id_record [OF this] obtain r where r: "map_of (js_records (ct_jobs c)) i = Some r" "rec_job r = j0" by blast
  have id: "j_id j0 = i" using js_wfD(2) [OF assms(1) r(1)] r(2) by simp
  have ok: "is_ok (cap_authenticate_id (auth_service (ct_auth c)) (j_grant_id j0) (e_clock env 0))"
    using assms(2) unfolding co_start_def j0 by (auto split: if_splits)
  then obtain g where g: "cap_authenticate_id (auth_service (ct_auth c)) (j_grant_id j0) (e_clock env 0) = Inr g"
    by (auto simp: is_ok_def split: sum.splits)
  obtain s p where p: "ej_start i tok (e_clock env 1) (e_fault env 0) (ct_jobs c) = (s, p)"
    by (cases "ej_start i tok (e_clock env 1) (e_fault env 0) (ct_jobs c)")
  have run: "(case (s, p) of (s, Inl e) \<Rightarrow> (c\<lparr>ct_jobs := s\<rparr>, Inl e)
     | (s, Inr started) \<Rightarrow>
       (case co_append env 0
           (job_event ''execution.job_started'' worker ''allow'' [] started [(''command_sha256'', j_command_sha256 started)])
           (c\<lparr>ct_jobs := s\<rparr>) of
          (c1, Inl e) \<Rightarrow> (co_reject env (j_id started) tok ''audit_failure_at_execution_start'' c1, Inl e)
        | (c1, Inr _) \<Rightarrow> (c1, Inr started))) = (d, Inr j)"
    using assms(2) ok unfolding co_start_def j0 by (simp add: id p del: One_nat_def)
  then have pj: "p = Inr j" by (cases p) (auto split: prod.splits sum.splits)
  with run obtain ev where
    a: "co_append env 0 (job_event ''execution.job_started'' worker ''allow'' [] j [(''command_sha256'', j_command_sha256 j)])
      (c\<lparr>ct_jobs := s\<rparr>) = (d, Inr ev)" by (auto split: prod.splits sum.splits)
  have s: "ct_jobs d = s" using append_jobs [OF a] by simp
  with that r g p pj a show thesis by simp
qed

text \<open>
  A job starts only under a live grant: when \<open>Start\<close> answers with a job, the job was claimed, the token is the one of its
  claim, and it had not expired; its grant was in the store, unrevoked, unexpired and of the current epoch with AI access enabled;
  the job is now running under its ID; and an \<open>execution.job_started\<close> event for its grant, target and argv is in the audit log.
\<close>
theorem start_needs_live_grant:
  assumes "js_wf (ct_jobs c)" and "au_wf (ct_auth c)" and "co_start env i tok worker c = (d, Inr j)"
  shows "\<exists>r g ev. map_of (js_records (ct_jobs c)) i = Some r \<and> j_status (rec_job r) = Claimed \<and> valid_claim_token r tok \<and>
     e_clock env 1 < j_expires_at (rec_job r) \<and>
     gm_abs (au_store (ct_auth c)) (j_grant_id (rec_job r)) = Some g \<and> grant_live (ct_auth c) g (e_clock env 0) \<and>
     j = (rec_job r)\<lparr>j_status := Running, j_started_at := Some (e_clock env 1)\<rparr> \<and>
     map_of (js_records (ct_jobs d)) i = Some (start_record (js_key (ct_jobs c)) (e_clock env 1) r) \<and>
     ev_kind ev = ''execution.job_started'' \<and> ev_grant_id ev = j_grant_id j \<and> ev_target ev = j_target j \<and> ev_argv ev = j_argv j \<and>
     al_lines (ct_audit d) = add_line (whole_line ev) (al_lines (ct_audit c))"
proof -
  obtain r g ev where r: "map_of (js_records (ct_jobs c)) i = Some r"
    and g: "cap_authenticate_id (auth_service (ct_auth c)) (j_grant_id (rec_job r)) (e_clock env 0) = Inr g"
    and p: "ej_start i tok (e_clock env 1) (e_fault env 0) (ct_jobs c) = (ct_jobs d, Inr j)"
    and a: "co_append env 0 (job_event ''execution.job_started'' worker ''allow'' [] j [(''command_sha256'', j_command_sha256 j)])
      (c\<lparr>ct_jobs := ct_jobs d\<rparr>) = (d, Inr ev)"
    by (rule co_start_success [OF assms(1,3)])
  from p r show ?thesis
  proof (cases rule: ej_start_success [consumes 1, case_names started])
    case (started r')
    then have [simp]: "r' = r" using r by simp
    have "gm_abs (au_store (ct_auth c)) (j_grant_id (rec_job r)) = Some g \<and> grant_live (ct_auth c) g (e_clock env 0)"
      using g by (simp add: cap_authenticate_id_iff [OF assms(2)])
    moreover have "ev_kind ev = ''execution.job_started'' \<and> ev_grant_id ev = j_grant_id j \<and> ev_target ev = j_target j \<and> ev_argv ev = j_argv j"
      using build_event_input [OF append_success(2) [OF a]] by (simp add: resolve_operator_actor_def job_event_def no_input_def)
    moreover have "al_lines (ct_audit d) = add_line (whole_line ev) (al_lines (ct_audit c))"
      using append_success(3) [OF a] by simp
    moreover have "j = (rec_job r)\<lparr>j_status := Running, j_started_at := Some (e_clock env 1)\<rparr>"
      using started(5) by (simp add: start_record_def)
    moreover have "map_of (js_records (ct_jobs d)) i = Some (start_record (js_key (ct_jobs c)) (e_clock env 1) r)"
      using started(6) by simp
    ultimately show ?thesis using started(2-4) r(1) by auto
  qed
qed

lemma demo_start_ok: "\<exists>d j. co_start demo_env ''0a'' ''jcl_t'' ''w'' (live_control Claimed) = (d, Inr j)"
proof -
  let ?c = "live_control Claimed"
  have "verify_record demo_key (demo_record Claimed) = None" using demo_record_ok by (simp add: record_ok_def)
  then have j: "ej_by_id ''0a'' (ct_jobs ?c) = Inr (Some (demo_job Claimed))" by (simp add: ej_by_id_def live_control_def)
  have "cap_authenticate_id (auth_service (ct_auth ?c)) ''g'' 2 = Inr exec_grant"
    by (simp add: cap_authenticate_id_iff [OF live_control_wf(1)] live_grant)
  then have g: "is_ok (cap_authenticate_id (auth_service (ct_auth ?c)) ''g'' 2)" by (simp add: is_ok_def)
  have jobs: "ct_jobs ?c = demo_jobs Claimed" by (simp add: live_control_def)
  have env: "e_clock demo_env n = 2" "e_fault demo_env n = None" for n by (simp_all add: demo_env_def)
  let ?j = "rec_job (start_record demo_key 2 (demo_record Claimed))"
    and ?d = "?c\<lparr>ct_jobs := js_written [(''0a'', start_record demo_key 2 (demo_record Claimed))] (demo_jobs Claimed)\<rparr>"
  have "ai_kind (job_event ''execution.job_started'' ''w'' ''allow'' [] ?j [(''command_sha256'', j_command_sha256 ?j)]) \<noteq> []"
    by (simp add: job_event_def)
  from demo_append [OF this, of 0 ?d] obtain d ev where
    a: "co_append demo_env 0 (job_event ''execution.job_started'' ''w'' ''allow'' [] ?j [(''command_sha256'', j_command_sha256 ?j)]) ?d = (d, Inr ev)"
    by blast
  show ?thesis
    using g unfolding co_start_def j [unfolded jobs] sum.case option.case demo_job_facts env jobs demo_start prod.case a by simp
qed

theorem start_needs_live_grant_witness:
  "\<exists>d j g. co_start demo_env ''0a'' ''jcl_t'' ''w'' (live_control Claimed) = (d, Inr j) \<and> j_status j = Running \<and>
     grant_live (ct_auth (live_control Claimed)) g 2"
proof -
  obtain d j where a: "co_start demo_env ''0a'' ''jcl_t'' ''w'' (live_control Claimed) = (d, Inr j)" using demo_start_ok by blast
  have "e_clock demo_env 0 = 2" by (simp add: demo_env_def)
  with start_needs_live_grant [OF live_control_wf(2,1) a] a show ?thesis by auto
qed

end
