(* ===== verification/Control_Limits.thy ===== *)
theory Control_Limits
  imports Control_Requests
begin

text \<open>
  The emergency controller, the poll of a running job's authority, the bounds of lifetimes and the order of effects of a
  completion.
\<close>

section \<open>The authority of a running job\<close>

lemma validate_running:
  assumes "ej_validate_running_claim i tok now s = Inr j"
  shows "\<exists>r. map_of (js_records s) i = Some r \<and> rec_job r = j \<and> j_status j = Running \<and> valid_claim_token r tok \<and> now < j_expires_at j"
  using assms by (auto simp: ej_validate_running_claim_def split: option.splits if_splits)

text \<open>
  C29. The worker's poll allows a job to go on only while its authority holds: the job was running under the worker's claim and not
  expired, its grant was live at the moment of the third read, AI access was enabled at the first and at the last read, and the
  epoch at the last read is still the grant's - so a \<open>revoke-all\<close> that lands between the reads is refused - and the promised end
  is neither after the grant's nor after the job's expiry.
\<close>
theorem authority_poll_sound:
  assumes "au_wf (ct_auth c2)" and "co_check_authority env i worker tok c0 c1 c2 c3 = Inr (Inr until)"
  shows "\<exists>r g. map_of (js_records (ct_jobs c1)) i = Some r \<and> j_status (rec_job r) = Running \<and> valid_claim_token r tok \<and>
     e_clock env 1 < j_expires_at (rec_job r) \<and>
     gm_abs (au_store (ct_auth c2)) (j_grant_id (rec_job r)) = Some g \<and> grant_live (ct_auth c2) g (e_clock env 0) \<and>
     \<not> em_disabled (em_mem (au_em (ct_auth c0))) \<and> \<not> em_disabled (em_mem (au_em (ct_auth c3))) \<and>
     em_epoch (em_mem (au_em (ct_auth c3))) = g_security_epoch g \<and>
     until \<le> g_expires_at g \<and> until \<le> j_expires_at (rec_job r) \<and> (until = g_expires_at g \<or> until = j_expires_at (rec_job r))"
proof -
  have d0: "\<not> em_disabled (em_mem (au_em (ct_auth c0)))"
    using assms(2) by (auto simp: co_check_authority_def em_snapshot_def split: if_splits)
  obtain j where j: "ej_validate_running_claim i tok (e_clock env 1) (ct_jobs c1) = Inr j"
    using assms(2) by (auto simp: co_check_authority_def split: if_splits sum.splits)
  obtain g where g: "cap_authenticate_id (auth_service (ct_auth c2)) (j_grant_id j) (e_clock env 0) = Inr g"
    using assms(2) j by (auto simp: co_check_authority_def split: if_splits sum.splits)
  have e: "\<not> em_disabled (em_mem (au_em (ct_auth c3)))" "g_security_epoch g = em_epoch (em_mem (au_em (ct_auth c3)))"
    "until = (if g_expires_at g < j_expires_at j then g_expires_at g else j_expires_at j)"
    using assms(2) j g by (auto simp: co_check_authority_def em_snapshot_def Let_def split: if_splits)
  from validate_running [OF j] g d0 e show ?thesis by (auto simp: cap_authenticate_id_iff [OF assms(1)])
qed

lemma demo_poll:
  "co_check_authority demo_env ''0a'' ''w'' ''jcl_t'' (live_control Running) (live_control Running) (live_control Running) (live_control Running)
     = Inr (Inr 100)"
proof -
  let ?c = "live_control Running"
  have t: "trim_space ''w'' = ''w''" "trim_space ''jcl_t'' = ''jcl_t''" by code_simp+
  have v: "verify_record demo_key (demo_record Running) = None" using demo_record_ok by (simp add: record_ok_def)
  have tok: "valid_claim_token (demo_record Running) ''jcl_t''" by (simp add: valid_claim_token_def demo_record_def)
  have j: "ej_validate_running_claim ''0a'' ''jcl_t'' 2 (ct_jobs ?c) = Inr (demo_job Running)"
    using v tok by (simp add: ej_validate_running_claim_def live_control_def demo_job_facts)
  have g: "cap_authenticate_id (auth_service (ct_auth ?c)) ''g'' 2 = Inr exec_grant"
    by (simp add: cap_authenticate_id_iff [OF live_control_wf(1)] live_grant)
  have e: "em_snapshot (au_em (ct_auth ?c)) = em_zero" by (simp add: em_snapshot_def live_control_def)
  show ?thesis
    using j g by (simp add: co_check_authority_def demo_env_def t e em_zero_def demo_job_facts exec_grant_def zero_grant_def)
qed

theorem authority_poll_sound_witness:
  "\<exists>g. gm_abs (au_store (ct_auth (live_control Running))) ''g'' = Some g \<and> grant_live (ct_auth (live_control Running)) g 2"
  using authority_poll_sound [OF live_control_wf(1) demo_poll] by (auto simp: demo_env_def live_control_def demo_job_facts)

section \<open>Switching back on\<close>

lemma failed_closed_disabled: "em_disabled (em_mem (au_em (ct_auth (enable_failed_closed env at c))))"
  by (simp add: enable_failed_closed_def Let_def case_prod_unfold em_revoke_all_mem)

text \<open>
  C30. Enabling fails closed: from the disabled state, whatever write or audit fails, an \<open>Enable\<close> that reports an error leaves
  AI access disabled in the running process; one that succeeds has put both the \<open>enable_requested\<close> and the \<open>enabled\<close> event in the
  audit log, in this order, and left the epoch as it was.
\<close>
theorem enable_fails_closed:
  assumes "em_disabled (em_mem (au_em (ct_auth c)))" and "co_enable env reason at c = (d, res)"
  shows "case res of
      Inl e \<Rightarrow> em_disabled (em_mem (au_em (ct_auth d)))
    | Inr st \<Rightarrow> \<not> em_disabled (em_mem (au_em (ct_auth d))) \<and> em_mem (au_em (ct_auth d)) = st \<and>
        em_epoch st = em_epoch (em_mem (au_em (ct_auth c))) \<and>
        (\<exists>ev1 ev2. ev_kind ev1 = ''emergency.enable_requested'' \<and> ev_kind ev2 = ''emergency.enabled'' \<and>
           al_lines (ct_audit d) = add_line (whole_line ev2) (add_line (whole_line ev1) (al_lines (ct_audit c))))"
proof -
  have on: "(\<not> em_disabled (em_snapshot (au_em (ct_auth c)))) = False" using assms(1) by (simp add: em_snapshot_def)
  define inp where "inp = no_input\<lparr>ai_kind := ''emergency.enable_requested'', ai_actor := ''operator'', ai_reason := trim_space reason,
             ai_metadata := [(''epoch'', dec_nat (unat (em_epoch (em_snapshot (au_em (ct_auth c))))))]\<rparr>"
  obtain c1 p where p: "co_append env 0 inp c = (c1, p)" by (cases "co_append env 0 inp c")
  show ?thesis
  proof (cases p)
    case (Inl e)
    then have "d = c1" "res = Inl e" using assms(2) unfolding co_enable_def Let_def on if_False inp_def [symmetric] p by simp_all
    then show ?thesis using assms(1) append_jobs(2) [OF p] by simp
  next
    case (Inr ev1)
    define em where "em = fst (em_enable reason at (e_fault env 0) (au_em (ct_auth c1)))"
    define r where "r = snd (em_enable reason at (e_fault env 0) (au_em (ct_auth c1)))"
    have em: "em_enable reason at (e_fault env 0) (au_em (ct_auth c1)) = (em, r)" by (simp add: em_def r_def)
    define inp2 where "inp2 = (\<lambda>st :: em_state. no_input\<lparr>ai_kind := ''emergency.enabled'', ai_actor := ''operator'', ai_reason := trim_space reason,
                  ai_metadata := [(''epoch'', dec_nat (unat (em_epoch st)))]\<rparr>)"
    have rest: "(case r of
            Inl e \<Rightarrow> (c1\<lparr>ct_auth := (ct_auth c1)\<lparr>au_em := em\<rparr>\<rparr>, Inl e)
          | Inr st \<Rightarrow>
            (case co_append env 1 (inp2 st) (c1\<lparr>ct_auth := (ct_auth c1)\<lparr>au_em := em\<rparr>\<rparr>) of
               (c2, Inl e) \<Rightarrow> (enable_failed_closed env at c2, Inl e)
             | (c2, Inr _) \<Rightarrow> (c2, Inr st))) = (d, res)"
      using assms(2) unfolding co_enable_def Let_def on if_False inp_def [symmetric] p Inr inp2_def by (simp add: em del: One_nat_def)
    have old: "au_em (ct_auth c1) = au_em (ct_auth c)" using append_jobs(2) [OF p] by simp
    show ?thesis
    proof (cases r)
      case (Inl e)
      then have "em = au_em (ct_auth c)"
        using em by (auto simp: em_enable_def em_persist_cases Let_def old split: if_splits)
      with rest Inl assms(1) show ?thesis by auto
    next
      case (Inr st)
      have st: "em_mem em = st" "\<not> em_disabled st" "em_epoch st = em_epoch (em_mem (au_em (ct_auth c)))"
        using em Inr by (auto simp: em_enable_def em_persist_cases Let_def old split: if_splits)
      obtain c2 q where q: "co_append env 1 (inp2 st) (c1\<lparr>ct_auth := (ct_auth c1)\<lparr>au_em := em\<rparr>\<rparr>) = (c2, q)"
        by (cases "co_append env 1 (inp2 st) (c1\<lparr>ct_auth := (ct_auth c1)\<lparr>au_em := em\<rparr>\<rparr>)")
      show ?thesis
      proof (cases q)
        case (Inl e)
        then have "d = enable_failed_closed env at c2" "res = Inl e" using rest unfolding \<open>r = Inr st\<close> sum.case q by simp_all
        then show ?thesis by (simp add: failed_closed_disabled)
      next
        case (Inr ev2)
        then have d: "d = c2" "res = Inr st" using rest unfolding \<open>r = Inr st\<close> sum.case q by simp_all
        have ev: "ev_kind ev1 = ''emergency.enable_requested''" "ev_kind ev2 = ''emergency.enabled''"
          using build_event_input(1) [OF append_success(2) [OF p [unfolded \<open>p = Inr ev1\<close>]]]
            build_event_input(1) [OF append_success(2) [OF q [unfolded Inr]]]
          by (simp_all add: resolve_operator_actor_def inp_def inp2_def no_input_def)
        have "al_lines (ct_audit d) = add_line (whole_line ev2) (add_line (whole_line ev1) (al_lines (ct_audit c)))"
          using append_success(3) [OF p [unfolded \<open>p = Inr ev1\<close>]] append_success(3) [OF q [unfolded Inr]] d(1) by simp
        moreover have "au_em (ct_auth d) = em" using append_jobs(2) [OF q] d(1) by simp
        ultimately show ?thesis using st ev d(2) by auto
      qed
    qed
  qed
qed

definition dark_control :: control where
  "dark_control = (live_control Staged)\<lparr>ct_auth := (ct_auth (live_control Staged))\<lparr>au_em :=
     \<lparr>em_mem = em_zero\<lparr>em_epoch := 3, em_disabled := True\<rparr>, em_disk = None\<rparr>\<rparr>\<rparr>"

theorem enable_fails_closed_witness:
  "\<forall>fault. em_disabled (em_mem (au_em (ct_auth (fst (co_enable (demo_env\<lparr>e_audit := (\<lambda>k. (None, 7, None)), e_fault := fault\<rparr>) [] 5 dark_control)))))"
proof
  fix fault
  let ?env = "demo_env\<lparr>e_audit := (\<lambda>k. (None, 7, None)), e_fault := fault\<rparr>"
  have off: "em_disabled (em_mem (au_em (ct_auth dark_control)))" by (simp add: dark_control_def)
  then have "\<exists>e. snd (co_enable ?env [] 5 dark_control) = Inl e"
    by (simp add: co_enable_def em_snapshot_def co_append_def al_append_def build_event_def al_random_id_def no_input_def)
  then show "em_disabled (em_mem (au_em (ct_auth (fst (co_enable ?env [] 5 dark_control)))))"
    using enable_fails_closed [OF off, of ?env "[]" 5 "fst (co_enable ?env [] 5 dark_control)" "snd (co_enable ?env [] 5 dark_control)"]
    by auto
qed

section \<open>The order of effects of a completion\<close>

text \<open>
  A completion stores the captured output before the claim is checked: for a job ID of the right form, a worker's completion
  with output replaces the stored output of that job, and when the claim token is not the job's the request is rejected all the
  same - the output stays.
\<close>
theorem rejected_completion_stores_output:
  assumes "ct_output c = Some s" and "eo_validate out = None" and "\<not> eo_empty out" and "trim_space i \<noteq> []"
    and "length (trim_space i) \<le> 128" and "e_fault env 1 = None"
    and "map_of (js_records (ct_jobs c)) i = Some r" and "\<not> valid_claim_token r tok"
  shows "\<exists>e t. snd (co_complete_with_output env i tok worker result out c) = Inl e \<and>
     ct_output (fst (co_complete_with_output env i tok worker result out c)) = Some t \<and> eo_output_by_id i t = Some out"
proof -
  obtain t e where p: "eo_put i out (e_fault env 1) s = (t, e)" by (cases "eo_put i out (e_fault env 1) s")
  then have e: "e = None" "eo_output_by_id i t = Some out"
    using assms(2,4-6) by (auto simp: eo_put_eq eo_output_by_id_def)
  have o: "store_output env i out c = (c\<lparr>ct_output := Some t\<rparr>, None)" using p e assms(1,3) by (simp add: store_output_def)
  have "\<exists>x. ej_complete i tok result now fault (ct_jobs c) = (ct_jobs c, Inl x)" for now fault
    using assms(7,8) by (auto simp: ej_complete_def split: option.split)
  then obtain x where "ej_complete i tok result (e_clock env 1) (e_fault env 0) (ct_jobs c) = (ct_jobs c, Inl x)" by blast
  then show ?thesis using o e(2) assms(2) by (simp add: co_complete_with_output_def del: One_nat_def)
qed

theorem rejected_completion_stores_output_witness:
  "\<exists>t. ct_output (fst (co_complete_with_output demo_env ''0a'' ''jcl_x'' ''w''
       \<lparr>res_success = True, res_exit_code = 0, res_output_sha256 = [], res_error_kind = []\<rparr>
       \<lparr>eo_stdout = ''forged'', eo_stderr = [], eo_stdout_truncated = False, eo_stderr_truncated = False\<rparr>
       ((live_control Staged)\<lparr>ct_output := Some \<lparr>os_outputs = [], os_disk = None\<rparr>\<rparr>))) = Some t \<and>
     eo_output_by_id ''0a'' t = Some \<lparr>eo_stdout = ''forged'', eo_stderr = [], eo_stdout_truncated = False, eo_stderr_truncated = False\<rparr>"
proof -
  let ?c = "(live_control Staged)\<lparr>ct_output := Some \<lparr>os_outputs = [], os_disk = None\<rparr>\<rparr>"
  let ?o = "\<lparr>eo_stdout = ''forged'', eo_stderr = [], eo_stdout_truncated = False, eo_stderr_truncated = False\<rparr>"
  have t: "trim_space ''0a'' = ''0a''" by code_simp
  have "\<not> valid_claim_token (demo_record Staged) ''jcl_x''" by (simp add: valid_claim_token_def demo_record_def)
  then show ?thesis
    using rejected_completion_stores_output [of ?c "\<lparr>os_outputs = [], os_disk = None\<rparr>" ?o "''0a''" demo_env "demo_record Staged" "''jcl_x''" "''w''"
        "\<lparr>res_success = True, res_exit_code = 0, res_output_sha256 = [], res_error_kind = []\<rparr>"]
    by (auto simp: t eo_validate_def eo_empty_def max_stream_bytes_def demo_env_def live_control_def)
qed

section \<open>Lifetimes\<close>

lemma sint_seconds:
  assumes "0 \<le> sint s" and "sint s \<le> 9223372036"
  shows "sint (s * second) = sint s * 1000000000"
proof -
  have "sint (s * second) = signed_take_bit 63 (sint s * 1000000000)" by (simp add: second_def sint_word_ariths)
  also have "\<dots> = sint s * 1000000000" by (rule signed_take_bit_int_eq_self) (use assms in simp_all)
  finally show ?thesis .
qed

lemma sint_ttls: "sint max_execution_job_ttl = 900000000000" "sint execution_job_ttl = 30000000000"
  "sint max_grant_ttl = 28800000000000" "sint (30 * second) = 30000000000"
  by (simp_all add: max_execution_job_ttl_def execution_job_ttl_def max_grant_ttl_def second_def)

text \<open>
  The lifetime of a job is bounded: an accepted timeout is at most 900 seconds, whatever number was sent. Up to the largest
  number of seconds that fits a duration, exactly the timeouts 0 (the default of 30 seconds) and 1 to 900 are accepted; above it
  the multiplication wraps, so that 36028797018964028 is accepted as 60 seconds and 9223372037 as a negative lifetime.
\<close>
theorem execution_ttl_bounds:
  "(\<forall>s ttl. requested_execution_ttl s = Inr ttl \<longrightarrow> sint ttl \<le> 900 * 10 ^ 9) \<and>
   (\<forall>s. 0 \<le> sint s \<and> sint s \<le> 9223372036 \<longrightarrow>
      (case requested_execution_ttl s of Inl e \<Rightarrow> 900 < sint s
       | Inr ttl \<Rightarrow> sint s \<le> 900 \<and> sint ttl = (if sint s = 0 then 30 else sint s) * 10 ^ 9)) \<and>
   requested_execution_ttl 36028797018964028 = Inr (60 * second) \<and>
   (\<exists>ttl. requested_execution_ttl 9223372037 = Inr ttl \<and> sint ttl < 0)"
proof (intro conjI)
  show "\<forall>s ttl. requested_execution_ttl s = Inr ttl \<longrightarrow> sint ttl \<le> 900 * 10 ^ 9"
    by (auto simp: requested_execution_ttl_def sint_ttls split: if_splits)
  show "\<forall>s. 0 \<le> sint s \<and> sint s \<le> 9223372036 \<longrightarrow>
      (case requested_execution_ttl s of Inl e \<Rightarrow> 900 < sint s
       | Inr ttl \<Rightarrow> sint s \<le> 900 \<and> sint ttl = (if sint s = 0 then 30 else sint s) * 10 ^ 9)"
  proof (intro allI impI)
    fix s :: "64 word"
    assume s: "0 \<le> sint s \<and> sint s \<le> 9223372036"
    show "case requested_execution_ttl s of Inl e \<Rightarrow> 900 < sint s
       | Inr ttl \<Rightarrow> sint s \<le> 900 \<and> sint ttl = (if sint s = 0 then 30 else sint s) * 10 ^ 9"
    proof (cases "s = 0")
      case False
      then have "sint s \<noteq> 0" using signed_word_eqI [of s 0] by auto
      then have "1 \<le> sint s" using s by linarith
      with False s show ?thesis by (simp add: requested_execution_ttl_def sint_ttls sint_seconds)
    qed (simp add: requested_execution_ttl_def sint_ttls)
  qed
  show "requested_execution_ttl 36028797018964028 = Inr (60 * second)"
    by (simp add: requested_execution_ttl_def second_def max_execution_job_ttl_def)
  show "\<exists>ttl. requested_execution_ttl 9223372037 = Inr ttl \<and> sint ttl < 0"
    by (simp add: requested_execution_ttl_def second_def max_execution_job_ttl_def)
qed

theorem execution_ttl_bounds_witness: "\<exists>ttl. requested_execution_ttl 60 = Inr ttl \<and> sint ttl = 60 * 10 ^ 9"
proof -
  have "case requested_execution_ttl 60 of Inl e \<Rightarrow> 900 < sint (60 :: 64 word)
     | Inr ttl \<Rightarrow> sint (60 :: 64 word) \<le> 900 \<and> sint ttl = (if sint (60 :: 64 word) = 0 then 30 else sint (60 :: 64 word)) * 10 ^ 9"
    by (rule mp [OF spec [OF conjunct1 [OF conjunct2 [OF execution_ttl_bounds]]]]) simp
  then show ?thesis by (simp split: sum.splits)
qed

section \<open>Issued grants\<close>

lemma unique_step_keeps:
  assumes "distinct out \<and> (\<forall>t \<in> set out. t \<noteq> [] \<and> trim_space t = t)"
  shows "distinct (unique_step out v) \<and> (\<forall>t \<in> set (unique_step out v). t \<noteq> [] \<and> trim_space t = t)"
  using assms by (auto simp: unique_step_def Let_def)

lemma unique_non_empty_ok:
  "distinct (unique_non_empty vs) \<and> (\<forall>t \<in> set (unique_non_empty vs). t \<noteq> [] \<and> trim_space t = t)"
proof -
  have "distinct (foldl unique_step out vs) \<and> (\<forall>t \<in> set (foldl unique_step out vs). t \<noteq> [] \<and> trim_space t = t)"
    if "distinct out \<and> (\<forall>t \<in> set out. t \<noteq> [] \<and> trim_space t = t)" for out
    using that
  proof (induction vs arbitrary: out)
    case (Cons v vs)
    show ?case unfolding foldl_Cons by (rule Cons.IH) (rule unique_step_keeps [OF Cons.prems])
  qed simp
  from this [of "[]"] show ?thesis by (simp add: unique_non_empty_def)
qed

lemma set_unique_non_empty: "set (unique_non_empty vs) = trim_space ` set vs - {[]}"
proof -
  have "set (foldl unique_step out vs) = set out \<union> (trim_space ` set vs - {[]})" for out
    by (induction vs arbitrary: out) (auto simp: unique_step_def Let_def)
  then show ?thesis by (simp add: unique_non_empty_def)
qed

lemma co_issue_success:
  assumes "co_issue env g0 c = (d, Inr (g, token))"
  obtains g1 ev where "prepare_grant (e_rnd_id env) (e_rnd_token env) (e_clock env 1) g0 = Inr (g1, token)"
    and "g = stamped (ct_auth c) g1" and "\<not> em_disabled (em_mem (au_em (ct_auth c)))"
    and "ev_kind ev = ''grant.issued''" and "ev_grant_id ev = g_id g"
    and "al_lines (ct_audit d) = add_line (whole_line ev) (al_lines (ct_audit c))"
proof -
  obtain s p where p: "cap_issue (e_rnd_id env) (e_rnd_token env) (e_clock env 1) (e_fault env 0) g0 (auth_service (ct_auth c)) = (s, p)"
    by (cases "cap_issue (e_rnd_id env) (e_rnd_token env) (e_clock env 1) (e_fault env 0) g0 (auth_service (ct_auth c))")
  have out: "(case p of
        Inl e \<Rightarrow> (c\<lparr>ct_auth := auth_of s (ct_auth c)\<rparr>, Inl e)
      | Inr (created, token) \<Rightarrow>
          (case co_append env 0
              (no_input\<lparr>ai_kind := ''grant.issued'', ai_actor := ''operator'', ai_grant_id := g_id created,
                 ai_reason := g_purpose created, ai_metadata := [(''agent'', g_agent created)]\<rparr>)
              (c\<lparr>ct_auth := auth_of s (ct_auth c)\<rparr>) of
             (c1, Inl e) \<Rightarrow>
               (c1\<lparr>ct_auth := auth_of (fst (cap_revoke (g_id created) (g_issued_at created) (e_fault env 1) (auth_service (ct_auth c1))))
                    (ct_auth c1)\<rparr>, Inl e)
           | (c1, Inr _) \<Rightarrow> (c1, Inr (created, token)))) = (d, Inr (g, token))"
    using assms unfolding co_issue_def p by (simp del: One_nat_def)
  then have pg: "p = Inr (g, token)" by (cases p) (auto split: prod.splits sum.splits)
  with out obtain ev where
    a: "co_append env 0 (no_input\<lparr>ai_kind := ''grant.issued'', ai_actor := ''operator'', ai_grant_id := g_id g,
          ai_reason := g_purpose g, ai_metadata := [(''agent'', g_agent g)]\<rparr>) (c\<lparr>ct_auth := auth_of s (ct_auth c)\<rparr>) = (d, Inr ev)"
    by (auto split: prod.splits sum.splits)
  have ev: "ev_kind ev = ''grant.issued''" "ev_grant_id ev = g_id g"
    using build_event_input(1,2) [OF append_success(2) [OF a]] by (simp_all add: resolve_operator_actor_def no_input_def)
  obtain g1 t where pr: "prepare_grant (e_rnd_id env) (e_rnd_token env) (e_clock env 1) g0 = Inr (g1, t)"
    using p pg by (auto simp: cap_issue_def auth_service_def split: sum.splits)
  have "t = token" "g = stamped (ct_auth c) g1" "\<not> em_disabled (em_mem (au_em (ct_auth c)))"
    using p pg unfolding cap_issue_effect [OF pr] by (auto simp: Let_def split: if_splits prod.splits option.splits)
  with pr ev append_success(3) [OF a] show thesis by (intro that [of g1 ev]) simp_all
qed

text \<open>
  An issued grant is within its limits: it ends between 30 seconds and 8 hours after the moment of issue, whatever number of
  seconds was sent, wrap-around included; its targets are the request's, trimmed, without blanks or repetitions, and at least one;
  it has the request's permissions, the current epoch with AI access enabled, and the hash of the returned token; and a
  \<open>grant.issued\<close> event with its ID is in the audit log.
\<close>
theorem issued_grant_bounds:
  assumes "issue_grant env (Inr req) c = (d, Reply n (g, token))"
  shows "e_clock env 0 + 30 * 10 ^ 9 \<le> g_expires_at g \<and> g_expires_at g \<le> e_clock env 0 + 28800 * 10 ^ 9 \<and>
    distinct (g_targets g) \<and> g_targets g \<noteq> [] \<and> set (g_targets g) = trim_space ` set (iq_targets req) - {[]} \<and>
    g_permissions g = iq_permissions req \<and> g_token_hash g = token_hash token \<and>
    g_security_epoch g = em_epoch (em_mem (au_em (ct_auth c))) \<and> \<not> em_disabled (em_mem (au_em (ct_auth c))) \<and>
    (\<exists>ev. ev_kind ev = ''grant.issued'' \<and> ev_grant_id ev = g_id g \<and>
       al_lines (ct_audit d) = add_line (whole_line ev) (al_lines (ct_audit c)))"
proof -
  have t: "unique_non_empty (iq_targets req) \<noteq> []" using assms by (auto simp: issue_grant_def Let_def split: if_splits)
  obtain ttl where ttl: "grant_ttl (iq_ttl_seconds req) = Inr ttl"
    using assms by (auto simp: issue_grant_def Let_def split: if_splits sum.splits)
  have b: "30 * 10 ^ 9 \<le> sint ttl" "sint ttl \<le> 28800 * 10 ^ 9"
    using ttl by (auto simp: grant_ttl_def Let_def sint_ttls split: if_splits)
  define g0 where "g0 = zero_grant\<lparr>g_agent := iq_agent req, g_purpose := iq_purpose req, g_targets := unique_non_empty (iq_targets req),
      g_permissions := iq_permissions req, g_history := iq_history req, g_issued_at := e_clock env 0,
      g_expires_at := e_clock env 0 + sint ttl\<rparr>"
  have "co_issue env g0 c = (d, Inr (g, token))"
  proof -
    obtain d' p where p: "co_issue env g0 c = (d', p)" by (cases "co_issue env g0 c")
    have "(case p of Inl _ \<Rightarrow> (d', Reply_Error 500 ''failed to issue grant'') | Inr (g, token) \<Rightarrow> (d', Reply 201 (g, token))) = (d, Reply n (g, token))"
      using assms ttl unfolding issue_grant_def sum.case Let_def g0_def [symmetric] by (simp add: p g0_def [symmetric] split: if_splits)
    with p show ?thesis by (cases p) (auto split: prod.splits)
  qed
  then obtain g1 ev where pr: "prepare_grant (e_rnd_id env) (e_rnd_token env) (e_clock env 1) g0 = Inr (g1, token)"
    and g: "g = stamped (ct_auth c) g1" and dis: "\<not> em_disabled (em_mem (au_em (ct_auth c)))"
    and ev: "ev_kind ev = ''grant.issued''" "ev_grant_id ev = g_id g"
      "al_lines (ct_audit d) = add_line (whole_line ev) (al_lines (ct_audit c))"
    by (rule co_issue_success)
  have g1: "g_expires_at g = e_clock env 0 + sint ttl" "g_targets g = unique_non_empty (iq_targets req)"
    "g_permissions g = iq_permissions req" "g_token_hash g = token_hash token" "g_security_epoch g = em_epoch (em_mem (au_em (ct_auth c)))"
    using prepare_grant_token [OF pr] by (simp_all add: g stamped_def g0_def)
  have "\<exists>ev. ev_kind ev = ''grant.issued'' \<and> ev_grant_id ev = g_id g \<and>
       al_lines (ct_audit d) = add_line (whole_line ev) (al_lines (ct_audit c))" using ev by blast
  then show ?thesis
    unfolding g1 set_unique_non_empty using b t dis unique_non_empty_ok [of "iq_targets req"] by simp
qed

definition demo_issue :: issue_request where
  "demo_issue = \<lparr>iq_agent = ''agent'', iq_purpose = ''check'', iq_targets = [''host'', '' host ''], iq_permissions = no_permissions,
     iq_history = no_history, iq_ttl_seconds = 60\<rparr>"

theorem issued_grant_bounds_witness:
  "\<exists>d g token. issue_grant demo_env (Inr demo_issue) (live_control Staged) = (d, Reply 201 (g, token)) \<and>
     g_expires_at g \<le> 2 + 28800 * 10 ^ 9 \<and> set (g_targets g) = {''host''}"
proof -
  let ?c = "live_control Staged"
  have t: "trim_space ''agent'' = ''agent''" "trim_space ''check'' = ''check''" "trim_space ''host'' = ''host''" "trim_space '' host '' = ''host''"
    by code_simp+
  have u: "unique_non_empty [''host'', '' host ''] = [''host'']" by (simp add: unique_non_empty_def unique_step_def t)
  have ttl: "grant_ttl 60 = Inr (60 * second)" by (simp add: grant_ttl_def second_def max_grant_ttl_def)
  have s: "sint (60 * second) = 60000000000" by (simp add: second_def)
  define g0 where "g0 = zero_grant\<lparr>g_agent := ''agent'', g_purpose := ''check'', g_targets := [''host''],
      g_permissions := no_permissions, g_history := no_history, g_issued_at := 2, g_expires_at := 2 + sint (60 * second)\<rparr>"
  have id: "hex_encode (replicate 16 (CHR ''r'')) \<noteq> ''g''" by code_simp
  have issue: "\<exists>st g token. cap_issue (e_rnd_id demo_env) (e_rnd_token demo_env) 2 None g0 (auth_service (ct_auth ?c)) = (st, Inr (g, token))"
    using id by (simp add: demo_env_def cap_issue_def prepare_grant_def generate_token_def random_id_def g0_def live_control_def
        auth_service_def lb_issue_grant_def em_snapshot_def em_zero_def fgs_create_grant_def fgs_persist_cases zero_grant_def Let_def s)
  then obtain st g token where i: "cap_issue (e_rnd_id demo_env) (e_rnd_token demo_env) 2 None g0 (auth_service (ct_auth ?c)) = (st, Inr (g, token))"
    by blast
  let ?inp = "no_input\<lparr>ai_kind := ''grant.issued'', ai_actor := ''operator'', ai_grant_id := g_id g,
                 ai_reason := g_purpose g, ai_metadata := [(''agent'', g_agent g)]\<rparr>"
  obtain d ev where a: "co_append demo_env 0 ?inp (?c\<lparr>ct_auth := auth_of st (ct_auth ?c)\<rparr>) = (d, Inr ev)"
    using demo_append [of ?inp 0 "?c\<lparr>ct_auth := auth_of st (ct_auth ?c)\<rparr>"] by auto
  have env: "e_clock demo_env n = 2" "e_fault demo_env n = None" for n by (simp_all add: demo_env_def)
  have "co_issue demo_env g0 ?c = (d, Inr (g, token))"
    unfolding co_issue_def env i prod.case sum.case a ..
  then have r: "issue_grant demo_env (Inr demo_issue) ?c = (d, Reply 201 (g, token))"
    by (simp add: issue_grant_def demo_issue_def u ttl t env g0_def Let_def)
  have "trim_space ` set (iq_targets demo_issue) - {[]} = {''host''}" by (simp add: demo_issue_def t)
  with issued_grant_bounds [OF r] r show ?thesis by (auto simp: env)
qed

end
