(* ===== verification/Go_JSON_Decode.thy ===== *)
theory Go_JSON_Decode
  imports Go_JSON
begin

text \<open>
  What the program uses of \<open>encoding/json\<close>'s decoder. Every place of the program decodes in the same way: one value,
  no unknown field, and then only white space up to the end, so a text is accepted exactly when it is one JSON value
  whose assignment to the destination raises no error. The scanner is a lexer and a machine with one state per
  situation of Go's scanner; strings are unquoted as Go does it, invalid UTF-8 and lone surrogates becoming U+FFFD. The
  nesting limit of 10000 is not modelled: a value nested that deep fits no destination of the program and is refused anyway.
\<close>

section \<open>Unquoting a string\<close>

definition rune_error :: string where "rune_error = [CHR 0xEF, CHR 0xBF, CHR 0xBD]"

text \<open>\<open>utf8.EncodeRune\<close>.\<close>

definition enc_rune :: "nat \<Rightarrow> string" where
  "enc_rune r =
     (if r < 0x80 then [char_of r]
      else if r < 0x800 then [char_of (0xC0 + r div 64), char_of (0x80 + r mod 64)]
      else if (0xD800 \<le> r \<and> r \<le> 0xDFFF) \<or> 0x10FFFF < r then rune_error
      else if r < 0x10000 then
        [char_of (0xE0 + r div 4096), char_of (0x80 + r div 64 mod 64), char_of (0x80 + r mod 64)]
      else
        [char_of (0xF0 + r div 262144), char_of (0x80 + r div 4096 mod 64), char_of (0x80 + r div 64 mod 64),
         char_of (0x80 + r mod 64)])"

fun hex4 :: "string \<Rightarrow> (nat \<times> string) option" where
  "hex4 (a # b # c # d # s) =
     (case (hex_value a, hex_value b, hex_value c, hex_value d) of
        (Some w, Some x, Some y, Some z) \<Rightarrow> Some (4096 * w + 256 * x + 16 * y + z, s)
      | _ \<Rightarrow> None)"
| "hex4 _ = None"

text \<open>The low half of a surrogate pair, if the text goes on with one.\<close>

fun low_surrogate :: "string \<Rightarrow> (nat \<times> string) option" where
  "low_surrogate (a # b # s) =
     (if a = CHR 0x5C \<and> b = CHR ''u'' then
        (case hex4 s of
           Some (r, t) \<Rightarrow> if 0xDC00 \<le> r \<and> r \<le> 0xDFFF then Some (r, t) else None
         | None \<Rightarrow> None)
      else None)"
| "low_surrogate _ = None"

definition simple_escape :: "char \<Rightarrow> char option" where
  "simple_escape e =
     (if e = CHR 0x22 \<or> e = CHR 0x5C \<or> e = CHR ''/'' then Some e
      else if e = CHR ''b'' then Some (CHR 0x08) else if e = CHR ''f'' then Some (CHR 0x0C)
      else if e = CHR ''n'' then Some (CHR 0x0A) else if e = CHR ''r'' then Some (CHR 0x0D)
      else if e = CHR ''t'' then Some (CHR 0x09) else None)"

lemma hex4_shorter: "hex4 s = Some (r, t) \<Longrightarrow> length t < length s"
  by (induction s rule: hex4.induct) (auto split: option.splits)

lemma low_surrogate_shorter: "low_surrogate s = Some (r, t) \<Longrightarrow> length t < length s"
  by (induction s rule: low_surrogate.induct) (auto dest: hex4_shorter split: option.splits if_splits)

text \<open>One escape sequence, after its backslash: the bytes it stands for and the text after it.\<close>

definition unescape :: "string \<Rightarrow> (string \<times> string) option" where
  "unescape s =
     (case s of
        [] \<Rightarrow> None
      | e # s' \<Rightarrow>
          if e = CHR ''u'' then
            (case hex4 s' of
               None \<Rightarrow> None
             | Some (r, t) \<Rightarrow>
                 if 0xD800 \<le> r \<and> r \<le> 0xDFFF then
                   (case low_surrogate t of
                      Some (r2, t2) \<Rightarrow>
                        if r < 0xDC00 then Some (enc_rune (0x10000 + (r - 0xD800) * 1024 + (r2 - 0xDC00)), t2)
                        else Some (rune_error, t)
                    | None \<Rightarrow> Some (rune_error, t))
                 else Some (enc_rune r, t))
          else map_option (\<lambda>d. ([d], s')) (simple_escape e))"

lemma unescape_shorter: "unescape s = Some (u, t) \<Longrightarrow> length t < length s"
  by (cases s) (auto simp: unescape_def dest!: hex4_shorter low_surrogate_shorter split: if_splits option.splits)

text \<open>The text after an opening quote: the string up to the closing quote, and the text after that.\<close>

function json_unquote :: "string \<Rightarrow> (string \<times> string) option" where
  "json_unquote [] = None"
| "json_unquote (c # s) =
     (if c = CHR 0x22 then Some ([], s)
      else if (of_char c :: nat) < 0x20 then None
      else if c = CHR 0x5C then
        (case unescape s of
           None \<Rightarrow> None
         | Some (u, t) \<Rightarrow> map_option (map_prod ((@) u) id) (json_unquote t))
      else
        (case utf8_size (c # s) of
           0 \<Rightarrow> map_option (map_prod ((@) rune_error) id) (json_unquote s)
         | Suc n \<Rightarrow> map_option (map_prod ((@) (c # take n s)) id) (json_unquote (drop n s))))"
  by pat_completeness auto
termination by (relation "measure length") (auto dest: unescape_shorter)

declare json_unquote.simps(2) [simp del]

lemma json_unquote_shorter: "json_unquote s = Some (u, t) \<Longrightarrow> length t < length s"
proof (induction s arbitrary: u rule: json_unquote.induct)
  case (2 c s)
  then show ?case
    by (auto simp: json_unquote.simps(2) dest!: unescape_shorter split: if_splits option.splits nat.splits; fastforce)
qed simp

text \<open>What decoding makes of the bytes the encoder was given: every invalid byte becomes U+FFFD.\<close>

function utf8_clean :: "string \<Rightarrow> string" where
  "utf8_clean [] = []"
| "utf8_clean (c # s) =
     (case utf8_size (c # s) of
        0 \<Rightarrow> rune_error @ utf8_clean s
      | Suc n \<Rightarrow> c # take n s @ utf8_clean (drop n s))"
  by pat_completeness auto
termination by (relation "measure length") auto

declare utf8_clean.simps(2) [simp del]

lemma utf8_clean_valid: "valid_utf8 s \<Longrightarrow> utf8_clean s = s"
proof (induction s rule: utf8_clean.induct)
  case (2 c s)
  from 2(3) obtain n where n: "utf8_size (c # s) = Suc n" and v: "valid_utf8 (drop n s)"
    by (cases "utf8_size (c # s)") (simp_all add: valid_utf8.simps [of "c # s"])
  with 2(2) [OF n v] show ?case by (simp add: utf8_clean.simps(2))
qed simp

lemma json_unquote_rune:
  assumes "utf8_size (c # s) = Suc n" and "\<not> (of_char c :: nat) < 0x80"
  shows "json_unquote ((c # take n s) @ r) = map_option (map_prod ((@) (c # take n s)) id) (json_unquote r)"
proof -
  have len: "n \<le> length s" using utf8_size_multi(2) [OF assms] .
  have "utf8_size (c # take n s @ r) = Suc n"
    using assms by (auto simp: utf8_size.simps(2) Let_def numeral_2_eq_2 numeral_3_eq_3 split: if_splits list.splits)
  with assms(2) len show ?thesis by (auto simp: json_unquote.simps(2))
qed

lemma unescape_u00:
  "n < 0x80 \<Longrightarrow> unescape (''u00'' @ hex_digit (n div 16) # hex_digit (n mod 16) # r) = Some ([char_of n], r)"
  by (simp add: unescape_def hex_value_def [of "CHR ''0''"] enc_rune_def less_mult_imp_div_less)

lemma char_of_runes:
  "char_of (239 :: nat) = CHR 0xEF" "char_of (191 :: nat) = CHR 0xBF" "char_of (189 :: nat) = CHR 0xBD"
  "char_of (226 :: nat) = CHR 0xE2" "char_of (128 :: nat) = CHR 0x80" "char_of (168 :: nat) = CHR 0xA8"
  "char_of (169 :: nat) = CHR 0xA9"
  by code_simp+

lemma unescape_runes:
  "unescape (''ufffd'' @ r) = Some (rune_error, r)" "unescape (''u2028'' @ r) = Some (rune_2028, r)"
  "unescape (''u2029'' @ r) = Some (rune_2029, r)"
  by (simp_all add: unescape_def hex_value_def enc_rune_def rune_error_def rune_2028_def rune_2029_def char_of_runes)

lemma append_singleton: "(@) [c] = (#) c"
  by (rule ext) simp

lemma json_unquote_ascii:
  assumes "(of_char c :: nat) < 0x80"
  shows "json_unquote (json_ascii c @ r) = map_option (map_prod ((#) c) id) (json_unquote r)"
proof -
  have esc: "json_unquote (CHR 0x5C # s) = (case unescape s of None \<Rightarrow> None | Some (u, t) \<Rightarrow> map_option (map_prod ((@) u) id) (json_unquote t))" for s
    by (simp add: json_unquote.simps(2))
  have u: "unescape (CHR ''u'' # CHR ''0'' # CHR ''0'' # hex_digit (of_char c div 16) # hex_digit (of_char c mod 16) # r) = Some ([c], r)"
    using unescape_u00 [OF assms, of r] by simp
  have "unescape (e # r) = map_option (\<lambda>d. ([d], r)) (simple_escape e)" if "e \<noteq> CHR ''u''" for e
    using that by (simp add: unescape_def)
  moreover have "json_unquote (c # r) = map_option (map_prod ((#) c) id) (json_unquote r)"
    if "c \<noteq> CHR 0x22" "c \<noteq> CHR 0x5C" "\<not> (of_char c :: nat) < 0x20"
    using that assms by (simp add: json_unquote.simps(2) utf8_size_ascii append_singleton)
  ultimately show ?thesis
    unfolding json_ascii_def Let_def by (auto simp: esc u simple_escape_def append_singleton)
qed

text \<open>
  A writer of string bodies: an escape for each ASCII byte that the decoder undoes, and the encoder's loop over runes. The encoder has two,
  with and without HTML escaping.
\<close>

locale json_quoting =
  fixes escape :: "char \<Rightarrow> string" and body :: "string \<Rightarrow> string"
  assumes body_Nil: "body [] = []"
    and body_Cons: "body (c # s) =
      (if (of_char c :: nat) < 0x80 then escape c @ body s
       else (case utf8_size (c # s) of
           0 \<Rightarrow> CHR 0x5C # ''ufffd'' @ body s
         | Suc n \<Rightarrow>
             (if c # take n s = rune_2028 then CHR 0x5C # ''u2028''
              else if c # take n s = rune_2029 then CHR 0x5C # ''u2029''
              else c # take n s) @ body (drop n s)))"
    and esc_unquote: "(of_char c :: nat) < 0x80 \<Longrightarrow> json_unquote (escape c @ r) = map_option (map_prod ((#) c) id) (json_unquote r)"
begin

lemma unquote_body: "json_unquote (body s @ CHR 0x22 # r) = Some (utf8_clean s, r)"
proof (induction s rule: json_body.induct)
  case 1
  show ?case by (simp add: body_Nil json_unquote.simps(2))
next
  case (2 c s)
  have esc: "json_unquote (CHR 0x5C # s) = (case unescape s of None \<Rightarrow> None | Some (u, t) \<Rightarrow> map_option (map_prod ((@) u) id) (json_unquote t))" for s
    by (simp add: json_unquote.simps(2))
  show ?case
  proof (cases "(of_char c :: nat) < 0x80")
    case True
    with 2(1) show ?thesis by (simp add: body_Cons esc_unquote utf8_clean.simps(2) utf8_size_ascii)
  next
    case False
    show ?thesis
    proof (cases "utf8_size (c # s)")
      case 0
      have "body (c # s) = CHR 0x5C # ''ufffd'' @ body s" using False 0 by (simp add: body_Cons)
      with 2(2) [OF False 0] show ?thesis
        using unescape_runes(1) [of "body s @ CHR 0x22 # r"] by (simp add: esc utf8_clean.simps(2) 0)
    next
      case (Suc n)
      define u where "u = c # take n s"
      have b: "body (c # s) = (if u = rune_2028 then CHR 0x5C # ''u2028'' else if u = rune_2029 then CHR 0x5C # ''u2029'' else u) @ body (drop n s)"
        using False Suc by (simp add: body_Cons u_def)
      have cl: "utf8_clean (c # s) = u @ utf8_clean (drop n s)" by (simp add: utf8_clean.simps(2) Suc u_def)
      note IH = 2(3) [OF False Suc]
      show ?thesis
        using unescape_runes(2,3) [of "body (drop n s) @ CHR 0x22 # r"]
          json_unquote_rune [OF Suc False, folded u_def, of "body (drop n s) @ CHR 0x22 # r"]
        unfolding b cl by (simp add: esc IH)
    qed
  qed
qed

end

interpretation html_quoting: json_quoting json_ascii json_body
  by unfold_locales (simp_all add: json_body.simps(2) json_unquote_ascii)

lemmas json_unquote_body = html_quoting.unquote_body

text \<open>The encoder with \<open>SetEscapeHTML(false)\<close>.\<close>

definition json_ascii_raw :: "char \<Rightarrow> string" where
  "json_ascii_raw c = (if c = CHR ''<'' \<or> c = CHR ''>'' \<or> c = CHR ''&'' then [c] else json_ascii c)"

function json_body_raw :: "string \<Rightarrow> string" where
  "json_body_raw [] = []"
| "json_body_raw (c # s) =
     (if (of_char c :: nat) < 0x80 then json_ascii_raw c @ json_body_raw s
      else (case utf8_size (c # s) of
          0 \<Rightarrow> CHR 0x5C # ''ufffd'' @ json_body_raw s
        | Suc n \<Rightarrow>
            (if c # take n s = rune_2028 then CHR 0x5C # ''u2028''
             else if c # take n s = rune_2029 then CHR 0x5C # ''u2029''
             else c # take n s) @ json_body_raw (drop n s)))"
  by pat_completeness auto
termination by (relation "measure length") auto

declare json_body_raw.simps(2) [simp del]

definition json_string_raw :: "string \<Rightarrow> string" where
  "json_string_raw s = CHR 0x22 # json_body_raw s @ [CHR 0x22]"

lemma json_unquote_ascii_raw:
  assumes "(of_char c :: nat) < 0x80"
  shows "json_unquote (json_ascii_raw c @ r) = map_option (map_prod ((#) c) id) (json_unquote r)"
  using json_unquote_ascii [OF assms, of r]
  by (auto simp: json_ascii_raw_def json_unquote.simps(2) utf8_size_ascii append_singleton)

interpretation raw_quoting: json_quoting json_ascii_raw json_body_raw
  by unfold_locales (simp_all add: json_body_raw.simps(2) json_unquote_ascii_raw)

section \<open>Tokens\<close>

datatype jtok = TLBrace | TRBrace | TLBrack | TRBrack | TColon | TComma | TTrue | TFalse | TNull | TStr string | TNum string

definition json_ws :: "char \<Rightarrow> bool" where
  "json_ws c \<longleftrightarrow> c = CHR '' '' \<or> c = CHR 0x09 \<or> c = CHR 0x0A \<or> c = CHR 0x0D"

definition digit :: "char \<Rightarrow> bool" where
  "digit c \<longleftrightarrow> 0x30 \<le> (of_char c :: nat) \<and> (of_char c :: nat) \<le> 0x39"

text \<open>The parts of a number: each takes what it can from the text, or fails.\<close>

definition num_digits :: "string \<Rightarrow> (string \<times> string) option" where
  "num_digits s = (if takeWhile digit s = [] then None else Some (takeWhile digit s, dropWhile digit s))"

definition num_integer :: "string \<Rightarrow> (string \<times> string) option" where
  "num_integer s =
     (case s of
        [] \<Rightarrow> None
      | c # t \<Rightarrow> if c = CHR ''0'' then Some ([c], t) else num_digits s)"

definition num_fraction :: "string \<Rightarrow> (string \<times> string) option" where
  "num_fraction s =
     (case s of
        [] \<Rightarrow> Some ([], [])
      | c # t \<Rightarrow> if c = CHR ''.'' then map_option (map_prod ((#) c) id) (num_digits t) else Some ([], s))"

definition num_exponent :: "string \<Rightarrow> (string \<times> string) option" where
  "num_exponent s =
     (case s of
        [] \<Rightarrow> Some ([], [])
      | c # t \<Rightarrow>
          if c = CHR ''e'' \<or> c = CHR ''E'' then
            (case t of
               [] \<Rightarrow> None
             | d # u \<Rightarrow>
                 if d = CHR ''+'' \<or> d = CHR ''-'' then map_option (map_prod ((@) [c, d]) id) (num_digits u)
                 else map_option (map_prod ((#) c) id) (num_digits t))
          else Some ([], s))"

definition lex_number :: "string \<Rightarrow> (string \<times> string) option" where
  "lex_number s =
     (let (sign, s0) = (if s \<noteq> [] \<and> hd s = CHR ''-'' then ([hd s], tl s) else ([], s)) in
      case num_integer s0 of
        None \<Rightarrow> None
      | Some (i, s1) \<Rightarrow>
          (case num_fraction s1 of
             None \<Rightarrow> None
           | Some (f, s2) \<Rightarrow>
               (case num_exponent s2 of
                  None \<Rightarrow> None
                | Some (e, s3) \<Rightarrow> Some (sign @ i @ f @ e, s3))))"

lemma num_digits_shorter: "num_digits s = Some (u, t) \<Longrightarrow> length t < length s"
proof -
  assume "num_digits s = Some (u, t)"
  then have "u \<noteq> []" "s = u @ t" by (auto simp: num_digits_def split: if_splits)
  then show ?thesis by (cases u) auto
qed

lemma lex_number_shorter: "lex_number s = Some (u, t) \<Longrightarrow> length t < length s"
proof -
  assume a: "lex_number s = Some (u, t)"
  define s0 where "s0 = (if s \<noteq> [] \<and> hd s = CHR ''-'' then tl s else s)"
  have le: "length s0 \<le> length s" by (simp add: s0_def)
  obtain i s1 where i: "num_integer s0 = Some (i, s1)"
    using a by (auto simp: lex_number_def Let_def s0_def split: option.splits if_splits)
  with a obtain f s2 where f: "num_fraction s1 = Some (f, s2)"
    by (auto simp: lex_number_def Let_def s0_def split: option.splits if_splits)
  with a i obtain e where e: "num_exponent s2 = Some (e, t)"
    by (auto simp: lex_number_def Let_def s0_def split: option.splits if_splits)
  have "length s1 < length s0" using i by (auto simp: num_integer_def dest: num_digits_shorter split: list.splits if_splits)
  moreover have "length s2 \<le> length s1"
    using f by (auto simp: num_fraction_def dest!: num_digits_shorter split: list.splits if_splits)
  moreover have "length t \<le> length s2"
    using e by (auto simp: num_exponent_def dest!: num_digits_shorter split: list.splits if_splits)
  ultimately show ?thesis using le by linarith
qed

definition lex_keyword :: "string \<Rightarrow> (jtok \<times> string) option" where
  "lex_keyword s =
     (if prefix ''true'' s then Some (TTrue, drop 4 s)
      else if prefix ''false'' s then Some (TFalse, drop 5 s)
      else if prefix ''null'' s then Some (TNull, drop 4 s)
      else None)"

definition lex_punct :: "char \<Rightarrow> jtok option" where
  "lex_punct c =
     (if c = CHR ''{'' then Some TLBrace else if c = CHR ''}'' then Some TRBrace
      else if c = CHR ''['' then Some TLBrack else if c = CHR '']'' then Some TRBrack
      else if c = CHR '':'' then Some TColon else if c = CHR '','' then Some TComma else None)"

definition lex_token :: "string \<Rightarrow> (jtok \<times> string) option" where
  "lex_token s =
     (case s of
        [] \<Rightarrow> None
      | c # t \<Rightarrow>
          (case lex_punct c of
             Some k \<Rightarrow> Some (k, t)
           | None \<Rightarrow>
               if c = CHR 0x22 then map_option (map_prod TStr id) (json_unquote t)
               else if c = CHR ''-'' \<or> digit c then map_option (map_prod TNum id) (lex_number s)
               else lex_keyword s))"

lemma lex_token_shorter: "lex_token s = Some (k, t) \<Longrightarrow> length t < length s"
  by (cases s)
    (auto simp: lex_token_def lex_keyword_def dest!: json_unquote_shorter lex_number_shorter
      split: option.splits if_splits)

function json_lex :: "string \<Rightarrow> jtok list option" where
  "json_lex [] = Some []"
| "json_lex (c # s) =
     (if json_ws c then json_lex s
      else (case lex_token (c # s) of
          None \<Rightarrow> None
        | Some (k, t) \<Rightarrow> map_option ((#) k) (json_lex t)))"
  by pat_completeness auto
termination by (relation "measure length") (auto dest: lex_token_shorter)

declare json_lex.simps(2) [simp del]

section \<open>Values\<close>

datatype json = Null | Bool bool | Num string | Str string | Arr "json list" | Obj "(string \<times> json) list"

text \<open>
  The state of the scanner: what may come next, with the containers around it. A frame is an array with the elements read, or an
  object with the fields read and the key whose value is due.
\<close>

datatype jframe = FArr "json list" | FObj "(string \<times> json) list" string

datatype jstate =
    SVal "jframe list"
  | SArr0 "jframe list"
  | SObj0 "jframe list"
  | SKey "jframe list" "(string \<times> json) list"
  | SColon "jframe list" "(string \<times> json) list" string
  | SAfter "jframe list" json

definition start_value :: "jtok \<Rightarrow> jframe list \<Rightarrow> jstate option" where
  "start_value t fs =
     (case t of
        TStr s \<Rightarrow> Some (SAfter fs (Str s)) | TNum n \<Rightarrow> Some (SAfter fs (Num n))
      | TTrue \<Rightarrow> Some (SAfter fs (Bool True)) | TFalse \<Rightarrow> Some (SAfter fs (Bool False))
      | TNull \<Rightarrow> Some (SAfter fs Null)
      | TLBrack \<Rightarrow> Some (SArr0 fs) | TLBrace \<Rightarrow> Some (SObj0 fs)
      | _ \<Rightarrow> None)"

fun scan_step :: "jtok \<Rightarrow> jstate \<Rightarrow> jstate option" where
  "scan_step t (SVal fs) = start_value t fs"
| "scan_step t (SArr0 fs) = (if t = TRBrack then Some (SAfter fs (Arr [])) else start_value t (FArr [] # fs))"
| "scan_step t (SObj0 fs) =
     (case t of TRBrace \<Rightarrow> Some (SAfter fs (Obj [])) | TStr k \<Rightarrow> Some (SColon fs [] k) | _ \<Rightarrow> None)"
| "scan_step t (SKey fs acc) = (case t of TStr k \<Rightarrow> Some (SColon fs acc k) | _ \<Rightarrow> None)"
| "scan_step t (SColon fs acc k) = (if t = TColon then Some (SVal (FObj acc k # fs)) else None)"
| "scan_step t (SAfter [] v) = None"
| "scan_step t (SAfter (FArr vs # fs) v) =
     (case t of TComma \<Rightarrow> Some (SVal (FArr (vs @ [v]) # fs)) | TRBrack \<Rightarrow> Some (SAfter fs (Arr (vs @ [v]))) | _ \<Rightarrow> None)"
| "scan_step t (SAfter (FObj acc k # fs) v) =
     (case t of TComma \<Rightarrow> Some (SKey fs (acc @ [(k, v)])) | TRBrace \<Rightarrow> Some (SAfter fs (Obj (acc @ [(k, v)]))) | _ \<Rightarrow> None)"

fun scan :: "jtok list \<Rightarrow> jstate \<Rightarrow> jstate option" where
  "scan [] st = Some st"
| "scan (t # ts) st = (case scan_step t st of None \<Rightarrow> None | Some st' \<Rightarrow> scan ts st')"

definition json_document :: "string \<Rightarrow> json option" where
  "json_document s =
     (case json_lex s of
        None \<Rightarrow> None
      | Some ts \<Rightarrow> (case scan ts (SVal []) of Some (SAfter [] v) \<Rightarrow> Some v | _ \<Rightarrow> None))"

section \<open>Decoding what the encoder wrote\<close>

text \<open>The values whose texts are within the model of the decoder: those without a raw text but \<open>null\<close>.\<close>

primrec jplain :: "jval \<Rightarrow> bool" where
  "jplain (JRaw t) = (t = ''null'')"
| "jplain (JStr s) = True"
| "jplain (JInt i) = True"
| "jplain (JBool b) = True"
| "jplain (JArr vs) = list_all id (map jplain vs)"
| "jplain (JObj fs) = list_all snd (map (map_prod id jplain) fs)"

primrec jast :: "jval \<Rightarrow> json" where
  "jast (JRaw t) = Null"
| "jast (JStr s) = Str (utf8_clean s)"
| "jast (JInt i) = Num (dec_int i)"
| "jast (JBool b) = Bool b"
| "jast (JArr vs) = Arr (map jast vs)"
| "jast (JObj fs) = Obj (map (map_prod utf8_clean id) (map (map_prod id jast) fs))"

fun commas :: "jtok list list \<Rightarrow> jtok list" where
  "commas [] = []"
| "commas [x] = x"
| "commas (x # y # xs) = x @ TComma # commas (y # xs)"

primrec jtoks :: "jval \<Rightarrow> jtok list" where
  "jtoks (JRaw t) = [TNull]"
| "jtoks (JStr s) = [TStr (utf8_clean s)]"
| "jtoks (JInt i) = [TNum (dec_int i)]"
| "jtoks (JBool b) = [if b then TTrue else TFalse]"
| "jtoks (JArr vs) = TLBrack # commas (map jtoks vs) @ [TRBrack]"
| "jtoks (JObj fs) =
     TLBrace # commas (map (\<lambda>(k, ts). TStr (utf8_clean k) # TColon # ts) (map (map_prod id jtoks) fs)) @ [TRBrace]"

lemma jtoks_start: "jplain v \<Longrightarrow> \<exists>t ts. jtoks v = t # ts \<and> t \<noteq> TRBrack"
  by (cases v) auto

lemma scan_append: "scan (xs @ ys) st = (case scan xs st of None \<Rightarrow> None | Some st' \<Rightarrow> scan ys st')"
  by (induction xs arbitrary: st) (auto split: option.splits)

lemma commas_list_induct:
  assumes "P []" and "\<And>v. P [v]" and "\<And>v w vs. P (w # vs) \<Longrightarrow> P (v # w # vs)"
  shows "P vs"
  using assms by induction_schema (pat_completeness, lexicographic_order)

lemma scan_array:
  assumes "\<And>v ts fs. v \<in> set vs \<Longrightarrow> scan (jtoks v @ ts) (SVal fs) = scan ts (SAfter fs (jast v))" and "vs \<noteq> []"
  shows "scan (commas (map jtoks vs) @ TRBrack # ts) (SVal (FArr acc # fs)) = scan ts (SAfter fs (Arr (acc @ map jast vs)))"
  using assms
proof (induction vs arbitrary: acc rule: commas_list_induct [case_names Nil single more])
  case (more v w vs)
  then show ?case by simp
qed simp_all

definition jfield :: "string \<times> jval \<Rightarrow> string \<times> json" where
  "jfield = map_prod utf8_clean jast"

definition jfield_toks :: "string \<times> jval \<Rightarrow> jtok list" where
  "jfield_toks kv = TStr (utf8_clean (fst kv)) # TColon # jtoks (snd kv)"

lemma jtoks_obj: "jtoks (JObj fs) = TLBrace # commas (map jfield_toks fs) @ [TRBrace]"
  by (simp add: jfield_toks_def [abs_def] comp_def case_prod_unfold)

lemma jast_obj: "jast (JObj fs) = Obj (map jfield fs)"
  by (simp add: jfield_def map_prod_def comp_def case_prod_unfold)

lemma scan_object:
  assumes "\<And>kv ts fs. kv \<in> set kvs \<Longrightarrow> scan (jtoks (snd kv) @ ts) (SVal fs) = scan ts (SAfter fs (jast (snd kv)))"
    and "kvs \<noteq> []" and "st = SObj0 fs \<and> acc = [] \<or> st = SKey fs acc"
  shows "scan (commas (map jfield_toks kvs) @ TRBrace # ts) st = scan ts (SAfter fs (Obj (acc @ map jfield kvs)))"
  using assms
proof (induction kvs arbitrary: acc st rule: commas_list_induct [case_names Nil single more])
  case (single kv)
  from single.prems(3) single.prems(1) [of kv] show ?case
    by (cases kv) (auto simp: jfield_toks_def jfield_def)
next
  case (more kv kv' kvs)
  have "scan (jfield_toks kv @ TComma # ts') st = scan ts' (SKey fs (acc @ [jfield kv]))" for ts'
    using more.prems(3) more.prems(1) [of kv] by (cases kv) (auto simp: jfield_toks_def jfield_def)
  with more.IH [of "SKey fs (acc @ [jfield kv])" "acc @ [jfield kv]"] more.prems(1) show ?case by simp
qed simp

lemma scan_value: "jplain v \<Longrightarrow> scan (jtoks v @ ts) (SVal fs) = scan ts (SAfter fs (jast v))"
proof (induction v arbitrary: ts fs)
  case (JArr vs)
  have IH: "scan (jtoks v @ ts) (SVal fs) = scan ts (SAfter fs (jast v))" if "v \<in> set vs" for v ts fs
    using JArr that by (auto simp: list_all_iff)
  show ?case
  proof (cases vs)
    case (Cons v vs')
    with JArr.prems obtain t tl where "jtoks v = t # tl" "t \<noteq> TRBrack"
      using jtoks_start [of v] by auto
    then obtain q where c: "commas (map jtoks vs) = t # q"
      by (cases vs') (simp_all add: Cons)
    have "scan (commas (map jtoks vs) @ r) (SArr0 fs) = scan (commas (map jtoks vs) @ r) (SVal (FArr [] # fs))" for r
      unfolding c using \<open>t \<noteq> TRBrack\<close> by simp
    moreover have "scan (commas (map jtoks vs) @ TRBrack # ts) (SVal (FArr [] # fs)) = scan ts (SAfter fs (Arr ([] @ map jast vs)))"
      by (rule scan_array) (use IH Cons in simp_all)
    ultimately show ?thesis by (simp add: start_value_def)
  qed (simp add: start_value_def)
next
  case (JObj fs')
  have IH: "scan (jtoks (snd kv) @ ts) (SVal fs) = scan ts (SAfter fs (jast (snd kv)))" if "kv \<in> set fs'" for kv ts fs
    using JObj.IH [OF that snds.intros] JObj.prems that by (auto simp: list_all_iff)
  show ?case
  proof (cases "fs' = []")
    case False
    have "scan (commas (map jfield_toks fs') @ TRBrace # ts) (SObj0 fs) = scan ts (SAfter fs (Obj ([] @ map jfield fs')))"
      by (rule scan_object) (use IH False in simp_all)
    then show ?thesis unfolding jtoks_obj jast_obj by (simp add: start_value_def)
  qed (simp add: start_value_def)
qed (simp_all add: start_value_def)

text \<open>The text after a value: its end, or the punctuation of the container.\<close>

definition value_end :: "string \<Rightarrow> bool" where
  "value_end r \<longleftrightarrow> (case r of [] \<Rightarrow> True | c # _ \<Rightarrow> c = CHR '','' \<or> c = CHR '']'' \<or> c = CHR ''}'')"

lemma json_lex_punct: "lex_punct c = Some k \<Longrightarrow> json_lex (c # s) = map_option ((#) k) (json_lex s)"
  by (auto simp: json_lex.simps(2) lex_token_def json_ws_def lex_punct_def split: if_splits)

lemma dec_nat_digits: "list_all digit (dec_nat n)" "dec_nat n \<noteq> []"
proof -
  show "list_all digit (dec_nat n)"
  proof (induction n rule: dec_nat.induct)
    case (1 n)
    then show ?case by (cases "n < 10") (simp_all add: dec_nat.simps [of n] digit_def)
  qed
  show "dec_nat n \<noteq> []" by (subst dec_nat.simps) simp
qed

lemma dec_nat_zero: "hd (dec_nat n) = CHR ''0'' \<Longrightarrow> n = 0"
proof (induction n rule: dec_nat.induct)
  case (1 n)
  show ?case
  proof (cases "n < 10")
    case True
    then have "hd (dec_nat n) = char_of (0x30 + n)" by (simp add: dec_nat.simps [of n])
    with 1 have "of_char (char_of (0x30 + n) :: char) = (0x30 :: nat)" by simp
    with True show ?thesis by simp
  next
    case False
    then have "hd (dec_nat n) = hd (dec_nat (n div 10))" by (simp add: dec_nat.simps [of n] dec_nat_digits)
    with 1 False show ?thesis by simp
  qed
qed

lemma digit_end: "value_end r \<Longrightarrow> takeWhile digit r = [] \<and> dropWhile digit r = r"
  by (cases r) (auto simp: value_end_def digit_def)

lemma num_tail:
  assumes "value_end r"
  shows "num_fraction r = Some ([], r)" and "num_exponent r = Some ([], r)"
  using assms by (auto simp: num_fraction_def num_exponent_def value_end_def split: list.splits)

lemma num_integer_dec:
  assumes "value_end r"
  shows "num_integer (dec_nat n @ r) = Some (dec_nat n, r)"
proof (cases "n = 0")
  case True
  have "dec_nat 0 = ''0''" by code_simp
  with True show ?thesis by (simp add: num_integer_def)
next
  case False
  obtain c t where ct: "dec_nat n = c # t" using dec_nat_digits(2) [of n] by (cases "dec_nat n") auto
  have "c \<noteq> CHR ''0''" using dec_nat_zero [of n] False ct by auto
  moreover have "takeWhile digit (dec_nat n @ r) = dec_nat n" "dropWhile digit (dec_nat n @ r) = r"
    using dec_nat_digits(1) [of n] digit_end [OF assms] by (auto simp: list_all_iff takeWhile_append dropWhile_append)
  ultimately show ?thesis using ct by (simp add: num_integer_def num_digits_def)
qed

lemma dec_nat_hd: "digit (hd (dec_nat n))"
  using dec_nat_digits [of n] by (cases "dec_nat n") auto

lemma lex_number_dec: "value_end r \<Longrightarrow> lex_number (dec_int i @ r) = Some (dec_int i, r)"
proof -
  assume r: "value_end r"
  have "hd (dec_nat n) \<noteq> CHR ''-''" for n using dec_nat_hd [of n] by (auto simp: digit_def)
  then show ?thesis
    using dec_nat_digits(2) by (auto simp: lex_number_def dec_int_def num_integer_dec r num_tail)
qed

lemma json_lex_int:
  assumes "value_end r"
  shows "json_lex (dec_int i @ r) = map_option ((#) (TNum (dec_int i))) (json_lex r)"
proof -
  obtain c t where ct: "dec_int i = c # t" and c: "c = CHR ''-'' \<or> digit c"
    using dec_nat_hd [of "nat i"] dec_nat_digits(2) [of "nat i"]
    by (cases "i < 0"; cases "dec_nat (nat i)") (auto simp: dec_int_def)
  have "\<not> json_ws c" "lex_punct c = None" "c \<noteq> CHR 0x22"
    using c by (auto simp: json_ws_def lex_punct_def digit_def)
  with c lex_number_dec [OF assms, of i] ct show ?thesis
    by (simp add: json_lex.simps(2) lex_token_def)
qed

lemma json_lex_bool: "json_lex (dec_bool b @ r) = map_option ((#) (if b then TTrue else TFalse)) (json_lex r)"
  by (simp add: dec_bool_def json_lex.simps(2) json_ws_def lex_token_def lex_punct_def digit_def lex_keyword_def)

lemma json_lex_null: "json_lex (''null'' @ r) = map_option ((#) TNull) (json_lex r)"
  by (simp add: json_lex.simps(2) json_ws_def lex_token_def lex_punct_def digit_def lex_keyword_def)

lemma json_lex_commas:
  assumes "\<And>v r. v \<in> set vs \<Longrightarrow> value_end r \<Longrightarrow> json_lex (enc v @ r) = map_option ((@) (tk v)) (json_lex r)"
    and "value_end r"
  shows "json_lex (join_with '','' (map enc vs) @ r) = map_option ((@) (commas (map tk vs))) (json_lex r)"
  using assms(1)
proof (induction vs rule: commas_list_induct [case_names Nil single more])
  case Nil
  show ?case by (simp add: option.map_ident)
next
  case (more v w vs)
  have "json_lex (enc v @ CHR '','' # s) = map_option (\<lambda>ts. tk v @ TComma # ts) (json_lex s)" for s
    using more.prems [of v "CHR '','' # s"] json_lex_punct [of "CHR '',''" TComma s]
    by (simp add: value_end_def lex_punct_def option.map_comp comp_def)
  with more.IH more.prems show ?case by (simp add: option.map_comp comp_def)
qed (use assms(2) in simp)

text \<open>The text of a value with a given writer of strings.\<close>

primrec json_with :: "(string \<Rightarrow> string) \<Rightarrow> jval \<Rightarrow> string" where
  "json_with q (JRaw t) = t"
| "json_with q (JStr s) = q s"
| "json_with q (JInt i) = dec_int i"
| "json_with q (JBool b) = dec_bool b"
| "json_with q (JArr vs) = ''['' @ join_with '','' (map (json_with q) vs) @ '']''"
| "json_with q (JObj fs) =
     ''{'' @ join_with '','' (map (\<lambda>(k, v). q k @ '':'' @ v) (map (map_prod id (json_with q)) fs)) @ ''}''"

lemma json_enc_with: "json_enc v = json_with json_string v"
  by (induction v) (auto simp: case_prod_unfold cong: map_cong intro!: arg_cong [of _ _ "join_with _"])

definition json_field :: "(string \<Rightarrow> string) \<Rightarrow> string \<times> jval \<Rightarrow> string" where
  "json_field q kv = q (fst kv) @ '':'' @ json_with q (snd kv)"

lemma json_with_obj: "json_with q (JObj fs) = ''{'' @ join_with '','' (map (json_field q) fs) @ ''}''"
  by (simp add: json_field_def [abs_def] comp_def case_prod_unfold)

context json_quoting
begin

definition quote :: "string \<Rightarrow> string" where
  "quote s = CHR 0x22 # body s @ [CHR 0x22]"

lemma lex_quote: "json_lex (quote s @ r) = map_option ((#) (TStr (utf8_clean s))) (json_lex r)"
  by (simp add: quote_def json_lex.simps(2) json_ws_def lex_token_def lex_punct_def unquote_body)

lemma lex_value:
  "jplain v \<Longrightarrow> value_end r \<Longrightarrow> json_lex (json_with quote v @ r) = map_option ((@) (jtoks v)) (json_lex r)"
proof (induction v arbitrary: r)
  case (JArr vs)
  have "json_lex (join_with '','' (map (json_with quote) vs) @ CHR '']'' # r)
      = map_option ((@) (commas (map jtoks vs))) (json_lex (CHR '']'' # r))"
    by (rule json_lex_commas) (use JArr in \<open>auto simp: list_all_iff value_end_def\<close>)
  then show ?case
    by (simp add: json_lex_punct [of _ TLBrack] json_lex_punct [of _ TRBrack] lex_punct_def option.map_comp comp_def)
next
  case (JObj fs)
  have f: "json_lex (json_field quote kv @ r) = map_option ((@) (jfield_toks kv)) (json_lex r)"
    if "kv \<in> set fs" and "value_end r" for kv r
  proof -
    have "json_lex (json_with quote (snd kv) @ r) = map_option ((@) (jtoks (snd kv))) (json_lex r)"
      using JObj.IH [OF that(1) snds.intros _ that(2)] JObj.prems(1) that(1) by (auto simp: list_all_iff)
    then show ?thesis
      unfolding jfield_toks_def
      by (cases "json_lex r") (simp_all add: json_field_def lex_quote json_lex_punct [of _ TColon] lex_punct_def
          option.map_comp comp_def)
  qed
  have "json_lex (join_with '','' (map (json_field quote) fs) @ CHR ''}'' # r)
      = map_option ((@) (commas (map jfield_toks fs))) (json_lex (CHR ''}'' # r))"
    by (rule json_lex_commas) (use f in \<open>auto simp: value_end_def\<close>)
  then show ?case
    unfolding json_with_obj jtoks_obj
    by (simp add: json_lex_punct [of _ TLBrace] json_lex_punct [of _ TRBrace] lex_punct_def option.map_comp comp_def)
qed (use json_lex_null in \<open>simp_all add: lex_quote json_lex_int json_lex_bool append_singleton\<close>)

lemma document_value:
  assumes "jplain v"
  shows "json_document (json_with quote v) = Some (jast v)"
proof -
  have "json_lex (json_with quote v) = Some (jtoks v)"
    using lex_value [OF assms, of "[]"] by (simp add: value_end_def)
  moreover have "scan (jtoks v) (SVal []) = Some (SAfter [] (jast v))"
    using scan_value [OF assms, of "[]" "[]"] by simp
  ultimately show ?thesis by (simp add: json_document_def)
qed

end

lemma html_quote: "html_quoting.quote = json_string"
  by (rule ext) (simp add: html_quoting.quote_def json_string_def)

lemma raw_quote: "raw_quoting.quote = json_string_raw"
  by (rule ext) (simp add: raw_quoting.quote_def json_string_raw_def)

lemma json_document_enc: "jplain v \<Longrightarrow> json_document (json_enc v) = Some (jast v)"
  using html_quoting.document_value by (simp add: html_quote json_enc_with)

definition json_raw :: "jval \<Rightarrow> string" where
  "json_raw v = json_with json_string_raw v"

lemma json_document_raw: "jplain v \<Longrightarrow> json_document (json_raw v) = Some (jast v)"
  using raw_quoting.document_value by (simp add: raw_quote json_raw_def)

section \<open>Decoded strings are valid UTF-8\<close>

lemma utf8_size_append:
  assumes "utf8_size u = Suc n"
  shows "utf8_size (u @ v) = Suc n" and "Suc n \<le> length u"
  using assms
  by (cases u; auto simp: utf8_size.simps(2) Let_def split: if_splits list.splits)+

lemma valid_utf8_append: "valid_utf8 u \<Longrightarrow> valid_utf8 v \<Longrightarrow> valid_utf8 (u @ v)"
proof (induction u rule: valid_utf8.induct)
  case (1 u)
  show ?case
  proof (cases "u = []")
    case False
    with 1(2) obtain n where n: "utf8_size u = Suc n" and d: "valid_utf8 (drop (Suc n) u)"
      by (cases "utf8_size u") (simp_all add: valid_utf8.simps [of u])
    then have "valid_utf8 (drop (Suc n) u @ v)" using 1(1) [OF False] n 1(3) by simp
    with False utf8_size_append [OF n] show ?thesis by (simp add: valid_utf8.simps [of "u @ v"])
  qed (use 1(3) in simp)
qed

lemma valid_utf8_one: "utf8_size u = length u \<Longrightarrow> valid_utf8 u"
  by (simp add: valid_utf8.simps [of u])

lemma valid_utf8_take:
  assumes "utf8_size (c # s) = Suc n"
  shows "valid_utf8 (c # take n s)"
proof (rule valid_utf8_one)
  have "n \<le> length s" using utf8_size_append(2) [OF assms] by simp
  moreover have "utf8_size (c # take n s) = Suc n"
    using assms by (auto simp: utf8_size.simps(2) Let_def numeral_2_eq_2 numeral_3_eq_3 split: if_splits list.splits)
  ultimately show "utf8_size (c # take n s) = length (c # take n s)" by simp
qed

lemma valid_rune_error: "valid_utf8 rune_error"
  by (rule valid_utf8_one) (simp add: rune_error_def utf8_size.simps(2) in_range_def)

lemma enc_rune_3:
  fixes r :: nat
  assumes "0x800 \<le> r" and "r < 0x10000" and "\<not> (0xD800 \<le> r \<and> r \<le> 0xDFFF)"
  shows "utf8_size [char_of (0xE0 + r div 4096), char_of (0x80 + r div 64 mod 64), char_of (0x80 + r mod 64)] = 3"
proof -
  have b: "r div 4096 < 16" "r div 64 mod 64 < 64" "r mod 64 < 64" using assms(2) by auto
  have "0x20 \<le> r div 64 mod 64" if "r div 4096 = 0"
  proof -
    have "r div 64 div 64 = 0" using that by (simp add: div_mult2_eq [symmetric])
    then have "r div 64 < 64" by simp
    with assms(1) show ?thesis by simp
  qed
  moreover have "r div 64 mod 64 < 0x20" if "r div 4096 = 0xD"
  proof -
    have "r div 64 div 64 = 0xD" using that by (simp add: div_mult2_eq [symmetric])
    then have "r div 64 = 64 * 0xD + r div 64 mod 64" using mult_div_mod_eq [of 64 "r div 64"] by simp
    moreover have "r div 64 < 0x360"
    proof -
      have "r < 0xE000" using that by linarith
      then show ?thesis using assms(3) by linarith
    qed
    ultimately show ?thesis by linarith
  qed
  ultimately show ?thesis
    using b by (auto simp: utf8_size.simps(2) Let_def in_range_def)
qed

lemma enc_rune_4:
  fixes r :: nat
  assumes "0x10000 \<le> r" and "r \<le> 0x10FFFF"
  shows "utf8_size [char_of (0xF0 + r div 262144), char_of (0x80 + r div 4096 mod 64), char_of (0x80 + r div 64 mod 64),
         char_of (0x80 + r mod 64)] = 4"
proof -
  have b: "r div 262144 < 5" "r div 4096 mod 64 < 64" "r div 64 mod 64 < 64" "r mod 64 < 64" using assms(2) by auto
  have d: "r div 4096 = 64 * (r div 262144) + r div 4096 mod 64"
    using mult_div_mod_eq [of 64 "r div 4096"] by (simp add: div_mult2_eq [symmetric])
  have "0x10 \<le> r div 4096" "r div 4096 < 0x110" using assms by linarith+
  then have "0x10 \<le> r div 4096 mod 64" if "r div 262144 = 0" using d that by linarith
  moreover have "r div 4096 mod 64 < 0x10" if "r div 262144 = 4" using d that \<open>r div 4096 < 0x110\<close> by linarith
  ultimately show ?thesis
    using b by (auto simp: utf8_size.simps(2) Let_def in_range_def)
qed

lemma valid_enc_rune: "valid_utf8 (enc_rune r)"
proof -
  consider "r < 0x80" | "0x80 \<le> r" "r < 0x800" | "(0xD800 \<le> r \<and> r \<le> 0xDFFF) \<or> 0x10FFFF < r"
    | "0x800 \<le> r" "r < 0x10000" "\<not> (0xD800 \<le> r \<and> r \<le> 0xDFFF)" | "0x10000 \<le> r" "r \<le> 0x10FFFF"
    by linarith
  then show ?thesis
  proof cases
    case 1
    then show ?thesis by (auto simp: enc_rune_def utf8_size.simps(2) intro: valid_utf8_one)
  next
    case 2
    then have "r div 64 < 32" "2 \<le> r div 64" "r mod 64 < 64" by auto
    with 2 show ?thesis by (auto simp: enc_rune_def utf8_size.simps(2) Let_def in_range_def intro!: valid_utf8_one)
  next
    case 3
    then show ?thesis by (auto simp: enc_rune_def valid_rune_error)
  next
    case 4
    with enc_rune_3 [of r] show ?thesis by (auto simp: enc_rune_def intro!: valid_utf8_one)
  next
    case 5
    with enc_rune_4 [of r] show ?thesis by (auto simp: enc_rune_def intro!: valid_utf8_one)
  qed
qed

lemma valid_unescape: "unescape s = Some (u, t) \<Longrightarrow> valid_utf8 u"
proof -
  assume a: "unescape s = Some (u, t)"
  have "valid_utf8 [d]" if "simple_escape e = Some d" for d e
    using that by (auto simp: simple_escape_def valid_utf8_ascii split: if_splits)
  with a show ?thesis
    by (cases s) (auto simp: unescape_def valid_enc_rune valid_rune_error split: if_splits option.splits)
qed

lemma valid_json_unquote: "json_unquote s = Some (u, t) \<Longrightarrow> valid_utf8 u"
proof (induction s arbitrary: u rule: json_unquote.induct)
  case (2 c s)
  show ?case
  proof (cases "c = CHR 0x22 \<or> (of_char c :: nat) < 0x20")
    case False
    show ?thesis
    proof (cases "c = CHR 0x5C")
      case True
      with "2.prems" obtain v r w where "unescape s = Some (v, r)" "json_unquote r = Some (w, t)" "u = v @ w"
        by (auto simp: json_unquote.simps(2) split: option.splits)
      with "2.IH"(1) [of "(v, r)"] True show ?thesis by (auto intro: valid_utf8_append valid_unescape)
    next
      case c: False
      show ?thesis
      proof (cases "utf8_size (c # s)")
        case 0
        with "2.prems" False c obtain w where "json_unquote s = Some (w, t)" "u = rune_error @ w"
          by (auto simp: json_unquote.simps(2))
        with "2.IH"(2) False c 0 show ?thesis by (auto intro: valid_utf8_append valid_rune_error)
      next
        case (Suc n)
        with "2.prems" False c obtain w where w: "json_unquote (drop n s) = Some (w, t)" "u = (c # take n s) @ w"
          by (auto simp: json_unquote.simps(2))
        with "2.IH"(3) False c Suc have "valid_utf8 w" by auto
        with valid_utf8_take [OF Suc] show ?thesis unfolding w(2) by (rule valid_utf8_append)
      qed
    qed
  qed (use "2.prems" in \<open>auto simp: json_unquote.simps(2) split: if_splits\<close>)
qed simp

fun tok_utf8 :: "jtok \<Rightarrow> bool" where
  "tok_utf8 (TStr s) = valid_utf8 s"
| "tok_utf8 _ = True"

primrec json_utf8 :: "json \<Rightarrow> bool" where
  "json_utf8 Null = True"
| "json_utf8 (Bool b) = True"
| "json_utf8 (Num n) = True"
| "json_utf8 (Str s) = valid_utf8 s"
| "json_utf8 (Arr vs) = list_all id (map json_utf8 vs)"
| "json_utf8 (Obj fs) = list_all snd (map (map_prod id json_utf8) fs)"

definition fields_utf8 :: "(string \<times> json) list \<Rightarrow> bool" where
  "fields_utf8 fs \<longleftrightarrow> (\<forall>kv \<in> set fs. json_utf8 (snd kv))"

fun frame_utf8 :: "jframe \<Rightarrow> bool" where
  "frame_utf8 (FArr vs) = list_all json_utf8 vs"
| "frame_utf8 (FObj fs k) = fields_utf8 fs"

fun state_utf8 :: "jstate \<Rightarrow> bool" where
  "state_utf8 (SVal fs) = list_all frame_utf8 fs"
| "state_utf8 (SArr0 fs) = list_all frame_utf8 fs"
| "state_utf8 (SObj0 fs) = list_all frame_utf8 fs"
| "state_utf8 (SKey fs acc) = (list_all frame_utf8 fs \<and> fields_utf8 acc)"
| "state_utf8 (SColon fs acc k) = (list_all frame_utf8 fs \<and> fields_utf8 acc)"
| "state_utf8 (SAfter fs v) = (list_all frame_utf8 fs \<and> json_utf8 v)"

lemma start_value_utf8: "start_value t fs = Some st \<Longrightarrow> tok_utf8 t \<Longrightarrow> list_all frame_utf8 fs \<Longrightarrow> state_utf8 st"
  by (cases t) (auto simp: start_value_def)

lemma scan_step_utf8: "scan_step t st = Some st' \<Longrightarrow> tok_utf8 t \<Longrightarrow> state_utf8 st \<Longrightarrow> state_utf8 st'"
  by (induction t st rule: scan_step.induct)
    (auto simp: list_all_iff fields_utf8_def dest: start_value_utf8 split: if_splits jtok.splits)

lemma scan_utf8: "scan ts st = Some st' \<Longrightarrow> list_all tok_utf8 ts \<Longrightarrow> state_utf8 st \<Longrightarrow> state_utf8 st'"
  by (induction ts arbitrary: st) (auto dest: scan_step_utf8 split: option.splits)

lemma lex_punct_utf8: "lex_punct c = Some k \<Longrightarrow> tok_utf8 k"
  unfolding lex_punct_def by (simp split: if_splits)

lemma lex_keyword_utf8: "lex_keyword s = Some (k, t) \<Longrightarrow> tok_utf8 k"
  unfolding lex_keyword_def by (simp split: if_splits)

lemma lex_token_utf8: "lex_token s = Some (k, t) \<Longrightarrow> tok_utf8 k"
proof (cases s)
  case (Cons c r)
  assume a: "lex_token s = Some (k, t)"
  show ?thesis
  proof (cases "lex_punct c")
    case None
    consider "c = CHR 0x22" | "c \<noteq> CHR 0x22" "c = CHR ''-'' \<or> digit c" | "c \<noteq> CHR 0x22" "\<not> (c = CHR ''-'' \<or> digit c)" by blast
    then show ?thesis
    proof cases
      case 1
      with a Cons None obtain u where "json_unquote r = Some (u, t)" "k = TStr u" by (auto simp: lex_token_def)
      then show ?thesis using valid_json_unquote by simp
    next
      case 2
      with a Cons None show ?thesis by (auto simp: lex_token_def)
    next
      case 3
      with a Cons None have "lex_keyword s = Some (k, t)" by (simp add: lex_token_def)
      then show ?thesis by (rule lex_keyword_utf8)
    qed
  qed (use a Cons in \<open>simp add: lex_token_def lex_punct_utf8\<close>)
qed (simp add: lex_token_def)

lemma json_lex_utf8: "json_lex s = Some ts \<Longrightarrow> list_all tok_utf8 ts"
proof (induction s arbitrary: ts rule: json_lex.induct)
  case (2 c s)
  show ?case
  proof (cases "json_ws c")
    case True
    with 2(3) have "json_lex s = Some ts" by (simp add: json_lex.simps(2))
    with 2(1) True show ?thesis by simp
  next
    case False
    with 2(3) obtain k t ts' where k: "lex_token (c # s) = Some (k, t)" and t: "json_lex t = Some ts'" "ts = k # ts'"
      by (auto simp: json_lex.simps(2) simp del: json_lex.simps(1) split: option.splits)
    with 2(2) [OF False k refl t(1)] lex_token_utf8 [OF k] show ?thesis by simp
  qed
qed simp

lemma json_document_utf8: "json_document s = Some v \<Longrightarrow> json_utf8 v"
proof -
  assume "json_document s = Some v"
  then obtain ts where "json_lex s = Some ts" "scan ts (SVal []) = Some (SAfter [] v)"
    by (auto simp: json_document_def split: option.splits jstate.splits list.splits)
  then have "state_utf8 (SAfter [] v)" using scan_utf8 json_lex_utf8 by fastforce
  then show ?thesis by simp
qed

end
