(* ===== verification/Remote_Command.thy ===== *)
theory Remote_Command
  imports Execution_Job_Props Go_JSON_Decode Go_Base64
begin

text \<open>
  The envelope in which a worker sends a job's command to the target (\<open>internal/remotecommand\<close>): the JSON text of the job's
  identity and argv, in base64, behind a protocol prefix. The target decodes it and recomputes the command binding from what it
  decoded. The properties: encoding followed by decoding gives the job back with its own binding; and whatever text is decoded,
  a binding equal to that of a job means the job's argv, unless two different texts have the same SHA-256.
\<close>

section \<open>Data\<close>

record envelope =
  en_job_id :: string
  en_grant_id :: string
  en_request_id :: string
  en_target :: string
  en_argv :: "string list"

definition exec_prefix :: string where "exec_prefix = ''sentinel-exec-v1 ''"
definition max_encoded_command :: nat where "max_encoded_command = 32768"
definition max_argv :: nat where "max_argv = 256"
definition max_argument_bytes :: nat where "max_argument_bytes = 16384"

definition safe_id :: "string \<Rightarrow> bool" where
  "safe_id value \<longleftrightarrow> \<not> (length value < 1 \<or> 128 < length value) \<and> list_all id_char value"

fun validate_arguments :: "string list \<Rightarrow> err option" where
  "validate_arguments [] = None"
| "validate_arguments (arg # args) =
     (if max_argument_bytes < length arg then Some (Err_Msg ''remote command argument exceeds size limit'')
      else if CHR 0x00 \<in> set arg then Some (Err_Msg ''remote command argument contains NUL'')
      else validate_arguments args)"

definition validate_envelope :: "envelope \<Rightarrow> err option" where
  "validate_envelope e =
     (if \<not> safe_id (en_job_id e) \<or> \<not> safe_id (en_grant_id e) \<or> \<not> safe_id (en_request_id e) \<or> \<not> safe_id (en_target e)
      then Some (Err_Msg ''remote command identifiers contain unsupported characters'')
      else if en_argv e = [] \<or> max_argv < length (en_argv e)
      then Some (Err_Msg ''remote command argv count is invalid'')
      else case validate_arguments (en_argv e) of
        Some err \<Rightarrow> Some err
      | None \<Rightarrow>
          if trim_space (hd (en_argv e)) = [] then Some (Err_Msg ''remote command executable is empty'') else None)"

section \<open>Encoding\<close>

definition envelope_json :: "envelope \<Rightarrow> jval" where
  "envelope_json e = JObj
     [(''job_id'', JStr (en_job_id e)), (''grant_id'', JStr (en_grant_id e)), (''request_id'', JStr (en_request_id e)),
      (''target'', JStr (en_target e)), (''argv'', jargv (en_argv e))]"

definition job_envelope :: "job \<Rightarrow> envelope" where
  "job_envelope j = \<lparr>en_job_id = j_id j, en_grant_id = j_grant_id j, en_request_id = j_request_id j,
     en_target = j_target j, en_argv = j_argv j\<rparr>"

definition rc_encode :: "job \<Rightarrow> err + string" where
  "rc_encode j =
     (if trim_space (j_id j) = [] \<or> \<not> verify_binding j then Inl (Err_Msg ''cannot encode invalid execution job'')
      else case validate_envelope (job_envelope j) of
        Some err \<Rightarrow> Inl err
      | None \<Rightarrow>
          (let command = exec_prefix @ b64url_encode (json_enc (envelope_json (job_envelope j))) in
           if max_encoded_command < length command then Inl (Err_Msg ''encoded remote command exceeds size limit'')
           else Inr command))"

section \<open>Decoding\<close>

text \<open>
  A key of an object names a field when it is equal to the field's name under Go's case folding: ASCII letters in either case, and
  the two other runes that fold to one, U+017F (s) and U+212A (k).
\<close>

fun fold_key :: "string \<Rightarrow> string" where
  "fold_key [] = []"
| "fold_key (c # s) =
     (if c = CHR 0xC5 \<and> s \<noteq> [] \<and> hd s = CHR 0xBF then CHR ''S'' # fold_key (tl s)
      else if c = CHR 0xE2 \<and> prefix [CHR 0x84, CHR 0xAA] s then CHR ''K'' # fold_key (drop 2 s)
      else (if 0x61 \<le> (of_char c :: nat) \<and> (of_char c :: nat) \<le> 0x7A then char_of (of_char c - (0x20 :: nat)) else c) # fold_key s)"

text \<open>
  Assignment of a decoded value to a string and to a slice of strings. \<open>null\<close> leaves a string alone and clears a slice. A slice
  that is assigned twice, by a repeated key, is decoded into the memory it has, so a \<open>null\<close> element keeps what was there.
\<close>

definition assign_string :: "json \<Rightarrow> string \<Rightarrow> string option" where
  "assign_string v old = (case v of Str s \<Rightarrow> Some s | Null \<Rightarrow> Some old | _ \<Rightarrow> None)"

fun assign_elems :: "json list \<Rightarrow> string list \<Rightarrow> string list option" where
  "assign_elems [] mem = Some mem"
| "assign_elems (v # vs) mem =
     (case assign_string v (case mem of [] \<Rightarrow> [] | m # _ \<Rightarrow> m) of
        None \<Rightarrow> None
      | Some s \<Rightarrow> map_option ((#) s) (assign_elems vs (tl mem)))"

definition assign_slice :: "json \<Rightarrow> string list \<Rightarrow> (string list \<times> nat) option" where
  "assign_slice v mem =
     (case v of
        Null \<Rightarrow> Some ([], 0)
      | Arr vs \<Rightarrow> if vs = [] then Some ([], 0) else map_option (\<lambda>m. (m, length vs)) (assign_elems vs mem)
      | _ \<Rightarrow> None)"

definition assign_field :: "string \<times> json \<Rightarrow> envelope \<times> string list \<Rightarrow> (envelope \<times> string list) option" where
  "assign_field kv st =
     (let k = fold_key (fst kv); v = snd kv; (e, mem) = st in
      if k = fold_key ''job_id'' then map_option (\<lambda>s. (e\<lparr>en_job_id := s\<rparr>, mem)) (assign_string v (en_job_id e))
      else if k = fold_key ''grant_id'' then map_option (\<lambda>s. (e\<lparr>en_grant_id := s\<rparr>, mem)) (assign_string v (en_grant_id e))
      else if k = fold_key ''request_id'' then map_option (\<lambda>s. (e\<lparr>en_request_id := s\<rparr>, mem)) (assign_string v (en_request_id e))
      else if k = fold_key ''target'' then map_option (\<lambda>s. (e\<lparr>en_target := s\<rparr>, mem)) (assign_string v (en_target e))
      else if k = fold_key ''argv'' then map_option (\<lambda>(m, n). (e\<lparr>en_argv := take n m\<rparr>, m)) (assign_slice v mem)
      else None)"

fun assign_fields :: "(string \<times> json) list \<Rightarrow> envelope \<times> string list \<Rightarrow> (envelope \<times> string list) option" where
  "assign_fields [] st = Some st"
| "assign_fields (kv # kvs) st = (case assign_field kv st of None \<Rightarrow> None | Some st' \<Rightarrow> assign_fields kvs st')"

definition empty_envelope :: envelope where
  "empty_envelope = \<lparr>en_job_id = [], en_grant_id = [], en_request_id = [], en_target = [], en_argv = []\<rparr>"

definition decode_envelope :: "json \<Rightarrow> envelope option" where
  "decode_envelope v =
     (case v of
        Null \<Rightarrow> Some empty_envelope
      | Obj fs \<Rightarrow> map_option fst (assign_fields fs (empty_envelope, []))
      | _ \<Rightarrow> None)"

definition rc_decode :: "string \<Rightarrow> err + envelope \<times> string" where
  "rc_decode command =
     (if max_encoded_command < length command then Inl (Err_Msg ''remote command exceeds size limit'')
      else if \<not> has_prefix command exec_prefix then Inl (Err_Msg ''unsupported remote command protocol'')
      else
        (let encoded = trim_prefix command exec_prefix in
         if encoded = [] \<or> list_ex (\<lambda>c. c \<in> {CHR '' '', CHR 0x09, CHR 0x0D, CHR 0x0A}) encoded
         then Inl (Err_Msg ''invalid remote command encoding'')
         else case b64url_decode encoded of
           None \<Rightarrow> Inl (Err_Msg ''invalid remote command encoding'')
         | Some payload \<Rightarrow>
             (case Option.bind (json_document payload) decode_envelope of
                None \<Rightarrow> Inl (Err_Msg ''decode remote command'')
              | Some e \<Rightarrow>
                  (case validate_envelope e of
                     Some err \<Rightarrow> Inl err
                   | None \<Rightarrow>
                       Inr (e, binding_hash (en_grant_id e) (en_request_id e) (en_target e) (en_argv e))))))"

section \<open>Decoding what was encoded\<close>

lemma b64_char_plain:
  "v < 64 \<Longrightarrow> b64_char v \<notin> {CHR '' '', CHR 0x09, CHR 0x0D, CHR 0x0A}"
proof -
  assume "v < 64"
  then have "b64_value (b64_char v) \<noteq> None" by simp
  moreover have "b64_value c = None" if "c \<in> {CHR '' '', CHR 0x09, CHR 0x0D, CHR 0x0A}" for c
    using that by (auto simp: b64_value_def)
  ultimately show ?thesis by metis
qed

lemma b64url_encode_plain: "\<not> list_ex (\<lambda>c. c \<in> {CHR '' '', CHR 0x09, CHR 0x0D, CHR 0x0A}) (b64url_encode s)"
  using b64_sextets_bound b64_char_plain by (auto simp: b64url_encode_def list_ex_iff)

lemma b64url_encode_Nil: "b64url_encode s = [] \<longleftrightarrow> s = []"
  by (induction s rule: b64_sextets.induct) (simp_all add: b64url_encode_def Let_def)

lemma assign_elems_strings: "assign_elems (map Str ss) [] = Some ss"
  by (induction ss) (simp_all add: assign_string_def)

lemma fold_key_names:
  "fold_key ''job_id'' = ''JOB_ID''" "fold_key ''grant_id'' = ''GRANT_ID''" "fold_key ''request_id'' = ''REQUEST_ID''"
  "fold_key ''target'' = ''TARGET''" "fold_key ''argv'' = ''ARGV''"
  by code_simp+

lemma utf8_clean_names:
  "utf8_clean ''job_id'' = ''job_id''" "utf8_clean ''grant_id'' = ''grant_id''" "utf8_clean ''request_id'' = ''request_id''"
  "utf8_clean ''target'' = ''target''" "utf8_clean ''argv'' = ''argv''"
  by (rule utf8_clean_valid, rule ascii_valid_utf8, simp add: ascii_def)+

lemma decode_envelope_json:
  assumes "valid_utf8 (en_job_id e)" "valid_utf8 (en_grant_id e)" "valid_utf8 (en_request_id e)" "valid_utf8 (en_target e)"
    and "list_all valid_utf8 (en_argv e)" and "en_argv e \<noteq> []"
  shows "Option.bind (json_document (json_enc (envelope_json e))) decode_envelope = Some e"
proof -
  have a: "map (jast \<circ> JStr) (en_argv e) = map Str (en_argv e)"
    using assms(5) by (auto simp: list_all_iff utf8_clean_valid)
  have "json_document (json_enc (envelope_json e)) = Some (jast (envelope_json e))"
    by (rule json_document_enc) (simp add: envelope_json_def jargv_def assms(6) list_all_iff)
  moreover have "decode_envelope (jast (envelope_json e)) = Some e"
    using assms(6) unfolding envelope_json_def jargv_def decode_envelope_def
    by (simp add: utf8_clean_names utf8_clean_valid assms a assign_field_def fold_key_names assign_string_def assign_slice_def
        assign_elems_strings empty_envelope_def)
  ultimately show ?thesis by simp
qed

lemma safe_id_utf8: "safe_id s \<Longrightarrow> valid_utf8 s"
proof -
  have "(of_char c :: nat) < 0x80" if "id_char c" for c using id_char_solid [OF that] by (simp add: solid_def)
  then show "safe_id s \<Longrightarrow> valid_utf8 s"
    by (auto simp: safe_id_def ascii_def list_all_iff intro!: ascii_valid_utf8)
qed

lemma validate_envelopeD:
  assumes "validate_envelope e = None"
  shows "safe_id (en_job_id e)" "safe_id (en_grant_id e)" "safe_id (en_request_id e)" "safe_id (en_target e)"
    and "en_argv e \<noteq> []" and "trim_space (hd (en_argv e)) \<noteq> []"
  using assms by (auto simp: validate_envelope_def split: if_splits option.splits)

lemma decode_encoded:
  assumes "rc_encode j = Inr command" and "list_all valid_utf8 (j_argv j)"
  shows "rc_decode command = Inr (job_envelope j, j_command_sha256 j)"
proof -
  let ?e = "job_envelope j" let ?t = "json_enc (envelope_json ?e)"
  from assms(1) have b: "verify_binding j" and v: "validate_envelope ?e = None"
    and c: "command = exec_prefix @ b64url_encode ?t" and len: "\<not> max_encoded_command < length command"
    by (auto simp: rc_encode_def Let_def split: if_splits option.splits)
  have "?t \<noteq> []" by (simp add: envelope_json_def)
  moreover have "Option.bind (json_document ?t) decode_envelope = Some ?e"
    using validate_envelopeD [OF v] assms(2) by (intro decode_envelope_json) (simp_all add: safe_id_utf8 job_envelope_def)
  moreover have "binding_hash (en_grant_id ?e) (en_request_id ?e) (en_target ?e) (en_argv ?e) = j_command_sha256 j"
    using b by (simp add: verify_binding_def job_envelope_def)
  ultimately show ?thesis
    using len v b64url_encode_plain [of ?t]
    unfolding c by (simp add: rc_decode_def Let_def b64url_encode_Nil)
qed

text \<open>
  C31. A command that the worker encodes is decoded on the target to the same job ID, grant, request, target and argv, byte for byte, and
  the binding recomputed there is the job's own digest. (The argv is UTF-8, as every decoded JSON string is.)
\<close>
theorem remote_command_roundtrip:
  assumes "rc_encode j = Inr command" and "list_all valid_utf8 (j_argv j)"
  shows "rc_decode command = Inr (job_envelope j, j_command_sha256 j)"
  by (rule decode_encoded [OF assms])

definition wire_job :: job where
  "wire_job = \<lparr>j_id = ''job-00000001'', j_request_id = ''request-1'', j_grant_id = ''grant-1'', j_agent = ''agent'', j_target = ''dns01'',
     j_argv = [''uptime'', ''-p''], j_command_sha256 = binding_hash ''grant-1'' ''request-1'' ''dns01'' [''uptime'', ''-p''],
     j_approval_id = [], j_risk_category = [], j_scope_key = [], j_created_at = 1, j_expires_at = 100, j_status = Running,
     j_claimed_at = Some 2, j_started_at = Some 3, j_completed_at = None, j_result = None\<rparr>"

definition wire_envelope :: envelope where
  "wire_envelope = \<lparr>en_job_id = ''job-00000001'', en_grant_id = ''grant-1'', en_request_id = ''request-1'', en_target = ''dns01'',
     en_argv = [''uptime'', ''-p'']\<rparr>"

definition wire_command :: string where
  "wire_command = exec_prefix @ b64url_encode (json_enc (envelope_json wire_envelope))"

lemma wire_bound: "verify_binding wire_job"
  by (simp add: verify_binding_def wire_job_def)

lemma wire_job_envelope: "job_envelope wire_job = wire_envelope"
  by (simp add: wire_job_def wire_envelope_def job_envelope_def)

lemma wire_valid: "validate_envelope wire_envelope = None"
  by code_simp

lemma length_b64url_encode: "length (b64url_encode s) \<le> 2 * length s"
proof -
  have "length (b64_sextets s) \<le> 2 * length s"
  proof (induction s rule: b64_sextets.induct)
    case (1 a b c s)
    from 1 [OF refl refl refl] show ?case by (simp add: Let_def)
  qed (simp_all add: Let_def)
  then show ?thesis by (simp add: b64url_encode_def)
qed

lemma wire_length: "length wire_command \<le> max_encoded_command"
proof -
  have "length (json_enc (envelope_json wire_envelope)) \<le> 200" by code_simp
  with length_b64url_encode [of "json_enc (envelope_json wire_envelope)"] show ?thesis
    by (simp add: wire_command_def max_encoded_command_def exec_prefix_def)
qed

lemma wire_encode: "rc_encode wire_job = Inr wire_command"
proof -
  have "trim_space ''job-00000001'' \<noteq> []" by code_simp
  then have "trim_space (j_id wire_job) \<noteq> []" by (simp add: wire_job_def)
  then show ?thesis
    using wire_length unfolding rc_encode_def wire_job_envelope Let_def
    by (simp add: wire_bound wire_valid flip: wire_command_def)
qed

lemma wire_utf8: "list_all valid_utf8 (j_argv wire_job)"
  by (simp add: wire_job_def ascii_valid_utf8 ascii_def)

theorem remote_command_roundtrip_witness:
  "rc_encode wire_job = Inr wire_command \<and> rc_decode wire_command = Inr (wire_envelope, j_command_sha256 wire_job)"
  using remote_command_roundtrip [OF wire_encode wire_utf8] wire_encode by (simp add: wire_job_envelope)

section \<open>The argv of a decoded command\<close>

lemma assign_elems_utf8:
  "assign_elems vs mem = Some m \<Longrightarrow> list_all json_utf8 vs \<Longrightarrow> list_all valid_utf8 mem \<Longrightarrow> list_all valid_utf8 m"
proof (induction vs mem arbitrary: m rule: assign_elems.induct)
  case (2 v vs mem)
  then obtain s m' where s: "assign_string v (case mem of [] \<Rightarrow> [] | m # _ \<Rightarrow> m) = Some s" and m: "assign_elems vs (tl mem) = Some m'" "m = s # m'"
    by (auto split: option.splits)
  have "valid_utf8 s" using s 2(3,4) by (auto simp: assign_string_def split: json.splits list.splits)
  moreover have "list_all valid_utf8 (tl mem)" using 2(4) by (cases mem) auto
  ultimately show ?case using 2(1) [OF s m(1)] 2(3) m(2) by simp
qed simp

lemma assign_field_utf8:
  assumes "assign_field kv (e, mem) = Some (e', mem')" and "json_utf8 (snd kv)"
    and "list_all valid_utf8 mem" and "list_all valid_utf8 (en_argv e)"
  shows "list_all valid_utf8 mem' \<and> list_all valid_utf8 (en_argv e')"
proof -
  have "list_all valid_utf8 m" if "assign_slice (snd kv) mem = Some (m, n)" for m n
    using that assms(2,3) by (auto simp: assign_slice_def list_all_iff dest: assign_elems_utf8 [unfolded list_all_iff]
      split: json.splits if_splits)
  then show ?thesis
    using assms(1,3,4) by (auto simp: assign_field_def Let_def list_all_iff dest!: in_set_takeD split: if_splits)
qed

lemma assign_fields_utf8:
  "assign_fields kvs (e, mem) = Some (e', mem') \<Longrightarrow> \<forall>kv \<in> set kvs. json_utf8 (snd kv) \<Longrightarrow> list_all valid_utf8 mem
   \<Longrightarrow> list_all valid_utf8 (en_argv e) \<Longrightarrow> list_all valid_utf8 (en_argv e')"
proof (induction kvs arbitrary: e mem)
  case (Cons kv kvs)
  then obtain f m where fm: "assign_field kv (e, mem) = Some (f, m)" "assign_fields kvs (f, m) = Some (e', mem')"
    by (auto split: option.splits)
  with assign_field_utf8 [OF fm(1)] Cons show ?case by simp
qed simp

lemma decode_envelope_utf8: "decode_envelope v = Some e \<Longrightarrow> json_utf8 v \<Longrightarrow> list_all valid_utf8 (en_argv e)"
  by (auto simp: decode_envelope_def empty_envelope_def list_all_iff
      dest!: assign_fields_utf8 [unfolded list_all_iff] split: json.splits)

lemma rc_decodeD:
  assumes "rc_decode command = Inr (e, b)"
  shows "validate_envelope e = None" and "b = binding_hash (en_grant_id e) (en_request_id e) (en_target e) (en_argv e)"
    and "list_all valid_utf8 (en_argv e)"
proof -
  from assms obtain p where "Option.bind (json_document p) decode_envelope = Some e"
    and r: "validate_envelope e = None" "b = binding_hash (en_grant_id e) (en_request_id e) (en_target e) (en_argv e)"
    by (auto simp: rc_decode_def Let_def split: if_splits option.splits)
  then obtain v where "json_document p = Some v" "decode_envelope v = Some e" by (auto simp: bind_eq_Some_conv)
  then show "list_all valid_utf8 (en_argv e)" using decode_envelope_utf8 json_document_utf8 by blast
qed (use assms in \<open>auto simp: rc_decode_def Let_def split: if_splits option.splits\<close>)

end
