(* ===== verification/Remote_Wrapper.thy ===== *)
theory Remote_Wrapper
  imports Remote_Command
begin

text \<open>
  What runs on the target (\<open>internal/remotewrapper\<close>, \<open>cmd/tethys-sentinel-exec\<close> and \<open>cmd/tethys-sentinel-consume\<close>): the wrapper
  that the certificate forces, its check of the command against the certificate's binding, the resolution of the executable in a
  fixed path, and the replay marker that the privileged helper creates before the command starts. The file system is a record: what
  \<open>stat\<close> and a read return, and the files that \<open>lstat\<close> and an exclusive create see. Which call fails is an argument.
\<close>

unbundle bit_operations_syntax

section \<open>Data\<close>

record file_info =
  fi_regular :: bool
  fi_dir :: bool
  fi_symlink :: bool
  fi_perm :: nat
  fi_uid :: nat

record host =
  h_stat :: "string \<Rightarrow> file_info option"
  h_read :: "string \<Rightarrow> string option"
  h_files :: "string \<Rightarrow> (file_info \<times> string) option"

record wrapper_request =
  wr_job_id :: string
  wr_binding :: string
  wr_local_target :: string
  wr_original_command :: string

section \<open>Verification of the command\<close>

text \<open>
  \<open>strings.ToLower\<close> on ASCII letters. The runes outside ASCII that Go maps into ASCII become \<open>i\<close> and \<open>k\<close>, which are not
  hexadecimal digits: \<open>decodeBinding\<close> refuses such a text either way.
\<close>

definition lower_char :: "char \<Rightarrow> char" where
  "lower_char c =
     (if 0x41 \<le> (of_char c :: nat) \<and> (of_char c :: nat) \<le> 0x5A then char_of (of_char c + (0x20 :: nat)) else c)"

definition normal_binding :: "string \<Rightarrow> string" where
  "normal_binding s = map lower_char (trim_space s)"

definition decode_binding :: "string \<Rightarrow> err + string" where
  "decode_binding value =
     (if length value \<noteq> 64 then Inl (Err_Msg ''binding must be a SHA-256 hex digest'')
      else case hex_decode value of
        None \<Rightarrow> Inl (Err_Msg ''binding must be a SHA-256 hex digest'')
      | Some decoded \<Rightarrow>
          if length decoded \<noteq> 32 then Inl (Err_Msg ''binding must be a SHA-256 hex digest'') else Inr decoded)"

definition rw_verify :: "wrapper_request \<Rightarrow> err + string list" where
  "rw_verify req =
     (let job_id = trim_space (wr_job_id req); binding = normal_binding (wr_binding req);
          local_target = trim_space (wr_local_target req) in
      if \<not> safe_id job_id \<or> \<not> safe_id local_target
      then Inl (Err_Msg ''job id and local target must use safe identifier characters'')
      else case decode_binding binding of
        Inl e \<Rightarrow> Inl e
      | Inr want_binding \<Rightarrow>
          (case rc_decode (wr_original_command req) of
             Inl e \<Rightarrow> Inl e
           | Inr (envelope, computed_binding) \<Rightarrow>
               if en_job_id envelope \<noteq> job_id
               then Inl (Err_Msg ''remote command job id does not match certificate force-command'')
               else if en_target envelope \<noteq> local_target
               then Inl (Err_Msg ''remote command target does not match this host'')
               else
                 (case decode_binding computed_binding of
                    Inl e \<Rightarrow> Inl e
                  | Inr computed \<Rightarrow>
                      if want_binding \<noteq> computed then Inl (Err_Msg ''remote command binding mismatch'')
                      else Inr (en_argv envelope))))"

definition target_id_path :: string where "target_id_path = ''/etc/tethys-sentinel/target-id''"

definition load_target_id :: "string \<Rightarrow> host \<Rightarrow> err + string" where
  "load_target_id path0 h =
     (let path = (if path0 = [] then target_id_path else path0) in
      case h_stat h path of
        None \<Rightarrow> Inl Err_IO
      | Some info \<Rightarrow>
          if \<not> fi_regular info then Inl (Err_Msg ''target id must be a regular file'')
          else if fi_perm info AND 0x12 \<noteq> 0 then Inl (Err_Msg ''target id must not be group/other writable'')
          else case h_read h path of
            None \<Rightarrow> Inl Err_IO
          | Some data \<Rightarrow>
              (let target = trim_space data in
               if \<not> safe_id target then Inl (Err_Msg ''target id is invalid'') else Inr target))"

section \<open>The executable and its environment\<close>

definition safe_path :: string where
  "safe_path = ''/usr/local/sbin:/usr/local/bin:/usr/sbin:/usr/bin:/sbin:/bin''"

definition executable_file :: "host \<Rightarrow> string \<Rightarrow> bool" where
  "executable_file h path \<longleftrightarrow>
     (case h_stat h path of None \<Rightarrow> False | Some info \<Rightarrow> fi_regular info \<and> fi_perm info AND 0x49 \<noteq> 0)"

definition resolve_executable :: "host \<Rightarrow> string \<Rightarrow> err + string" where
  "resolve_executable h raw =
     (let name = trim_space raw in
      if name = [] \<or> CHR 0x00 \<in> set name then Inl (Err_Msg ''executable is empty or invalid'')
      else if CHR ''/'' \<in> set name then
        (if \<not> is_abs name \<or> path_clean name \<noteq> name
         then Inl (Err_Msg ''executable path must be a clean absolute path'')
         else if \<not> executable_file h name then Inl (Err_Msg ''path is not an executable regular file'')
         else Inr name)
      else case find (\<lambda>d. executable_file h (path_join d name)) (split_on CHR '':'' safe_path) of
        Some d \<Rightarrow> Inr (path_join d name)
      | None \<Rightarrow> Inl (Err_Msg ''executable not found in fixed safe path''))"

definition safe_environment :: "(string \<times> string) option \<Rightarrow> string list" where
  "safe_environment current =
     (let home = (case current of Some (d, _) \<Rightarrow> if d \<noteq> [] then d else ''/nonexistent'' | None \<Rightarrow> ''/nonexistent'');
          username = (case current of Some (_, u) \<Rightarrow> if u \<noteq> [] then u else ''sentinel-ai'' | None \<Rightarrow> ''sentinel-ai'') in
      [''PATH='' @ safe_path, ''HOME='' @ home, ''USER='' @ username, ''LOGNAME='' @ username, ''LANG=C'', ''LC_ALL=C'',
       ''TERM=dumb'', ''PAGER=cat'', ''SYSTEMD_PAGER=cat'', ''SYSTEMD_PAGERSECURE=1'', ''GIT_PAGER=cat''])"

section \<open>The replay marker\<close>

definition replay_state_dir :: string where "replay_state_dir = ''/var/lib/tethys-sentinel/executed''"

definition validate_owned_private_directory :: "nat \<Rightarrow> host \<Rightarrow> string \<Rightarrow> err option" where
  "validate_owned_private_directory euid h path =
     (case h_files h path of
        None \<Rightarrow> Some Err_IO
      | Some (info, _) \<Rightarrow>
          if fi_symlink info \<or> \<not> fi_dir info then Some (Err_Msg ''path must be a real directory'')
          else if fi_perm info AND 0x3F \<noteq> 0 then Some (Err_Msg ''directory must not grant group/other permissions'')
          else if fi_uid info \<noteq> euid then Some (Err_Msg ''directory must be owned by the effective uid'')
          else None)"

text \<open>
  The calls that may fail after the checks: opening the marker for another reason than that it exists; a write, which may leave a
  part of the text; the sync; the close. After a failure the marker is removed, unless the removal fails too.
\<close>

datatype marker_fault = Open_marker | Write_marker nat | Sync_marker | Close_marker

definition consume_execution ::
    "string \<Rightarrow> string \<Rightarrow> string \<Rightarrow> time \<Rightarrow> nat \<Rightarrow> marker_fault option \<Rightarrow> bool \<Rightarrow> host \<Rightarrow> host \<times> err option" where
  "consume_execution dir0 job_id0 binding0 now euid fault removed h =
     (let dir = (if dir0 = [] then replay_state_dir else dir0);
          job_id = trim_space job_id0; binding = normal_binding binding0 in
      if \<not> safe_id job_id then (h, Some (Err_Msg ''replay guard job id is invalid''))
      else case decode_binding binding of
        Inl e \<Rightarrow> (h, Some e)
      | Inr _ \<Rightarrow>
          (case validate_owned_private_directory euid h (path_dir dir) of
             Some e \<Rightarrow> (h, Some e)
           | None \<Rightarrow>
               (case validate_owned_private_directory euid h dir of
                  Some e \<Rightarrow> (h, Some e)
                | None \<Rightarrow>
                    (let marker = path_join dir job_id;
                         info = \<lparr>fi_regular = True, fi_dir = False, fi_symlink = False, fi_perm = 0x180, fi_uid = euid\<rparr>;
                         payload = ''binding='' @ binding @ [CHR 0x0A] @ ''consumed_at='' @ rfc3339_nano now @ [CHR 0x0A];
                         leave = (\<lambda>text. if removed then h else h\<lparr>h_files := (h_files h)(marker \<mapsto> (info, text))\<rparr>) in
                     if h_files h marker \<noteq> None then (h, Some Err_Replay)
                     else case fault of
                       Some Open_marker \<Rightarrow> (h, Some Err_IO)
                     | Some (Write_marker n) \<Rightarrow> (leave (take n payload), Some Err_IO)
                     | Some _ \<Rightarrow> (leave payload, Some Err_IO)
                     | None \<Rightarrow> (h\<lparr>h_files := (h_files h)(marker \<mapsto> (info, payload))\<rparr>, None)))))"

text \<open>The helper's \<open>main\<close>, and the wrapper's call of it through \<open>sudo\<close>: the helper may not be run at all, or its exit status be lost.\<close>

definition consume_main :: "string list \<Rightarrow> string \<Rightarrow> string \<Rightarrow> time \<Rightarrow> nat \<Rightarrow> marker_fault option \<Rightarrow> bool \<Rightarrow> host \<Rightarrow> host \<times> err option" where
  "consume_main rest job_id binding now euid fault removed h =
     (if rest \<noteq> [] then (h, Some (Err_Msg ''unexpected helper arguments''))
      else if euid \<noteq> 0 then (h, Some (Err_Msg ''must run with effective uid 0''))
      else consume_execution [] job_id binding now euid fault removed h)"

record helper_run =
  hr_started :: bool
  hr_euid :: nat
  hr_now :: time
  hr_fault :: "marker_fault option"
  hr_removed :: bool
  hr_status_lost :: bool

definition consume_via_helper :: "string \<Rightarrow> string \<Rightarrow> helper_run \<Rightarrow> host \<Rightarrow> host \<times> err option" where
  "consume_via_helper job_id0 binding0 run h =
     (let job_id = trim_space job_id0; binding = normal_binding binding0 in
      if \<not> safe_id job_id then (h, Some (Err_Msg ''consume helper job id is invalid''))
      else case decode_binding binding of
        Inl e \<Rightarrow> (h, Some e)
      | Inr _ \<Rightarrow>
          if \<not> hr_started run then (h, Some Err_IO)
          else case consume_main [] job_id binding (hr_now run) (hr_euid run) (hr_fault run) (hr_removed run) h of
            (h', e) \<Rightarrow> (h', if e \<noteq> None \<or> hr_status_lost run then Some Err_IO else None))"

section \<open>The wrapper\<close>

record process =
  pr_path :: string
  pr_args :: "string list"
  pr_env :: "string list"

datatype wrapper_end = Fatal nat | Spawn process

definition exec_main ::
    "string list \<Rightarrow> string \<Rightarrow> string \<Rightarrow> string \<Rightarrow> (string \<times> string) option \<Rightarrow> helper_run \<Rightarrow> host \<Rightarrow> host \<times> wrapper_end" where
  "exec_main rest job_id binding original_command current run h =
     (if rest \<noteq> [] then (h, Fatal 125)
      else case load_target_id [] h of
        Inl _ \<Rightarrow> (h, Fatal 125)
      | Inr target_id \<Rightarrow>
          (case rw_verify \<lparr>wr_job_id = job_id, wr_binding = binding, wr_local_target = target_id,
                 wr_original_command = original_command\<rparr> of
             Inl _ \<Rightarrow> (h, Fatal 125)
           | Inr argv \<Rightarrow>
               (case resolve_executable h (hd argv) of
                  Inl _ \<Rightarrow> (h, Fatal 127)
                | Inr executable \<Rightarrow>
                    (case consume_via_helper job_id binding run h of
                       (h', Some _) \<Rightarrow> (h', Fatal 125)
                     | (h', None) \<Rightarrow>
                         (h', Spawn \<lparr>pr_path = executable, pr_args = tl argv, pr_env = safe_environment current\<rparr>)))))"

section \<open>What an accepted command is\<close>

lemma lower_hex_digit: "n < 16 \<Longrightarrow> lower_char (hex_digit n) = hex_digit n"
  by (simp add: lower_char_def hex_digit_def)

lemma lower_hex_encode: "map lower_char (hex_encode s) = hex_encode s"
  by (induction s) (simp_all add: lower_hex_digit less_mult_imp_div_less)

lemma normal_binding_hash [simp]: "normal_binding (binding_hash g r t argv) = binding_hash g r t argv"
  unfolding normal_binding_def binding_hash_def sha256_hex_def
  by (simp add: trim_space_id hex_encode_id_chars lower_hex_encode)

lemma decode_binding_hash [simp]: "decode_binding (binding_hash g r t argv) = Inr (sha256 (binding_payload g r t argv))"
  by (simp add: decode_binding_def binding_hash_def)

lemma rw_verifyD:
  assumes "rw_verify req = Inr argv"
  obtains e where "rc_decode (wr_original_command req)
      = Inr (e, binding_hash (en_grant_id e) (en_request_id e) (en_target e) (en_argv e))"
    and "en_job_id e = trim_space (wr_job_id req)" and "en_target e = trim_space (wr_local_target req)" and "argv = en_argv e"
    and "decode_binding (normal_binding (wr_binding req))
      = Inr (sha256 (binding_payload (en_grant_id e) (en_request_id e) (en_target e) (en_argv e)))"
proof -
  from assms obtain want e b got where d: "decode_binding (normal_binding (wr_binding req)) = Inr want"
    and e: "rc_decode (wr_original_command req) = Inr (e, b)" and g: "decode_binding b = Inr got"
    and r: "en_job_id e = trim_space (wr_job_id req)" "en_target e = trim_space (wr_local_target req)" "argv = en_argv e" "want = got"
    by (auto simp: rw_verify_def Let_def split: if_splits sum.splits prod.splits)
  with rc_decodeD(2) [OF e] that show thesis by simp
qed

definition envelope_payload :: "envelope \<Rightarrow> string" where
  "envelope_payload e = binding_payload (en_grant_id e) (en_request_id e) (en_target e) (en_argv e)"

definition job_payload :: "job \<Rightarrow> string" where
  "job_payload j = binding_payload (j_grant_id j) (j_request_id j) (j_target j) (j_argv j)"

definition job_utf8 :: "job \<Rightarrow> bool" where
  "job_utf8 j \<longleftrightarrow> list_all valid_utf8 ([j_grant_id j, j_request_id j, j_target j] @ j_argv j)"

lemma verify_bound:
  assumes "rw_verify req = Inr argv" and "wr_binding req = j_command_sha256 j" and "verify_binding j" and "job_utf8 j"
  shows "argv = j_argv j \<and> trim_space (wr_local_target req) = j_target j \<or>
    (\<exists>e b. rc_decode (wr_original_command req) = Inr (e, b) \<and> sha256_collision (envelope_payload e) (job_payload j))"
proof -
  obtain e where e: "rc_decode (wr_original_command req) = Inr (e, binding_hash (en_grant_id e) (en_request_id e) (en_target e) (en_argv e))"
    and r: "en_target e = trim_space (wr_local_target req)" "argv = en_argv e"
    and d: "decode_binding (normal_binding (wr_binding req)) = Inr (sha256 (envelope_payload e))"
    using rw_verifyD [OF assms(1)] by (metis envelope_payload_def)
  have "wr_binding req = binding_hash (j_grant_id j) (j_request_id j) (j_target j) (j_argv j)"
    using assms(2,3) by (simp add: verify_binding_def)
  with d have s: "sha256 (envelope_payload e) = sha256 (job_payload j)" by (simp add: job_payload_def)
  show ?thesis
  proof (cases "envelope_payload e = job_payload j")
    case True
    have "argv = j_argv j \<and> en_target e = j_target j"
      using binding_payload_inj [OF _ _ _ _ True [unfolded envelope_payload_def job_payload_def]]
        validate_envelopeD [OF rc_decodeD(1) [OF e]] rc_decodeD(3) [OF e] assms(4) r
      by (simp add: safe_id_utf8 job_utf8_def)
    with r show ?thesis by simp
  next
    case False
    with s e show ?thesis by (auto simp: sha256_collision_def)
  qed
qed

lemma exec_main_spawn:
  assumes "exec_main rest job_id binding original current run h = (h', Spawn p)"
  obtains target argv executable where "load_target_id [] h = Inr target"
    and "rw_verify \<lparr>wr_job_id = job_id, wr_binding = binding, wr_local_target = target, wr_original_command = original\<rparr> = Inr argv"
    and "resolve_executable h (hd argv) = Inr executable" and "consume_via_helper job_id binding run h = (h', None)"
    and "p = \<lparr>pr_path = executable, pr_args = tl argv, pr_env = safe_environment current\<rparr>" and "rest = []"
  using assms that unfolding exec_main_def by (auto split: if_splits sum.splits prod.splits option.splits)

lemma spawn_bound:
  assumes "verify_binding j" and "job_utf8 j"
    and "exec_main rest job_id (j_command_sha256 j) original current run h = (h', Spawn p)"
  shows "load_target_id [] h = Inr (j_target j) \<and> resolve_executable h (hd (j_argv j)) = Inr (pr_path p) \<and> pr_args p = tl (j_argv j)
      \<and> pr_env p = safe_environment current \<or>
    (\<exists>e b. rc_decode original = Inr (e, b) \<and> sha256_collision (envelope_payload e) (job_payload j))"
proof -
  obtain target argv executable where t: "load_target_id [] h = Inr target"
    and v: "rw_verify \<lparr>wr_job_id = job_id, wr_binding = j_command_sha256 j, wr_local_target = target, wr_original_command = original\<rparr> = Inr argv"
    and x: "resolve_executable h (hd argv) = Inr executable"
    and p: "p = \<lparr>pr_path = executable, pr_args = tl argv, pr_env = safe_environment current\<rparr>"
    using exec_main_spawn [OF assms(3)] by metis
  have "trim_space target = target"
    using t by (auto simp: load_target_id_def Let_def split: option.splits if_splits)
  with verify_bound [OF v _ assms(1,2)] t x p show ?thesis by auto
qed

text \<open>
  Whatever command text reaches the wrapper, if the certificate forces the ID and the digest of a job and the wrapper starts a
  process, then the process is the job's argv, with its first element resolved on the host, on the job's target; or the text decodes
  to a command whose binding text collides with the job's under SHA-256.
\<close>
theorem wrapper_runs_the_job:
  assumes "verify_binding j" and "job_utf8 j"
    and "exec_main rest (j_id j) (j_command_sha256 j) original current run h = (h', Spawn p)"
  shows "load_target_id [] h = Inr (j_target j) \<and> resolve_executable h (hd (j_argv j)) = Inr (pr_path p) \<and> pr_args p = tl (j_argv j)
      \<and> pr_env p = safe_environment current \<or>
    (\<exists>e b. rc_decode original = Inr (e, b) \<and> sha256_collision (envelope_payload e) (job_payload j))"
  by (rule spawn_bound [OF assms])

section \<open>A job runs at most once on a host\<close>

definition marker_of :: "string \<Rightarrow> string" where
  "marker_of job_id = path_join replay_state_dir (trim_space job_id)"

definition present :: "string \<Rightarrow> host \<Rightarrow> bool" where
  "present path h \<longleftrightarrow> h_files h path \<noteq> None"

lemma present_upd: "present m h \<Longrightarrow> present m (h\<lparr>h_files := (h_files h)(p \<mapsto> x)\<rparr>)"
  by (simp add: present_def)

lemma consume_execution_cases:
  obtains e where "consume_execution dir job_id binding now euid fault removed h = (h, Some e)"
  | x e where "\<not> present (path_join (if dir = [] then replay_state_dir else dir) (trim_space job_id)) h"
      "consume_execution dir job_id binding now euid fault removed h =
        (h\<lparr>h_files := (h_files h)(path_join (if dir = [] then replay_state_dir else dir) (trim_space job_id) \<mapsto> x)\<rparr>, e)"
proof -
  let ?d = "if dir = [] then replay_state_dir else dir" and ?b = "normal_binding binding"
  let ?m = "path_join ?d (trim_space job_id)"
  show thesis
  proof (cases "safe_id (trim_space job_id) \<and> is_ok (decode_binding ?b) \<and>
      validate_owned_private_directory euid h (path_dir ?d) = None \<and> validate_owned_private_directory euid h ?d = None \<and> \<not> present ?m h")
    case False
    then have "\<exists>e. consume_execution dir job_id binding now euid fault removed h = (h, Some e)"
      unfolding consume_execution_def Let_def present_def is_ok_def
      by (cases "decode_binding ?b"; cases "validate_owned_private_directory euid h (path_dir ?d)";
          cases "validate_owned_private_directory euid h ?d") simp_all
    with that(1) show thesis by blast
  next
    case True
    then obtain w where w: "decode_binding ?b = Inr w" by (auto simp: is_ok_iff)
    have n: "h_files h ?m = None" using True unfolding present_def by blast
    have "(\<exists>e. consume_execution dir job_id binding now euid fault removed h = (h, Some e)) \<or>
        (\<exists>x e. consume_execution dir job_id binding now euid fault removed h = (h\<lparr>h_files := (h_files h)(?m \<mapsto> x)\<rparr>, e))"
      using True w n unfolding consume_execution_def Let_def
      by (cases fault) (auto split: marker_fault.split)
    with that True show thesis by blast
  qed
qed

lemma consume_execution_keeps:
  "present m h \<Longrightarrow> present m (fst (consume_execution dir job_id binding now euid fault removed h))"
  by (rule consume_execution_cases [of dir job_id binding now euid fault removed h]) (simp_all add: present_upd)

lemma consume_execution_success:
  assumes "consume_execution [] job_id binding now euid fault removed h = (h', None)"
  shows "\<not> present (marker_of job_id) h \<and> present (marker_of job_id) h'"
proof (rule consume_execution_cases [of "[]" job_id binding now euid fault removed h])
qed (use assms in \<open>simp_all add: marker_of_def present_def\<close>)

lemma consume_main_keeps:
  "present m h \<Longrightarrow> present m (fst (consume_main rest job_id binding now euid fault removed h))"
  unfolding consume_main_def by (simp add: consume_execution_keeps)

lemma consume_via_helper_keeps:
  assumes "present m h"
  shows "present m (fst (consume_via_helper job_id binding run h))"
proof -
  have "present m (fst (consume_main [] j b (hr_now run) (hr_euid run) (hr_fault run) (hr_removed run) h))" for j b
    by (rule consume_main_keeps) (rule assms)
  then show ?thesis
    using assms unfolding consume_via_helper_def Let_def by (simp split: sum.split prod.split) (metis fst_conv)
qed

lemma consume_via_helper_success:
  assumes "consume_via_helper job_id binding run h = (h', None)"
  shows "\<not> present (marker_of job_id) h \<and> present (marker_of job_id) h'"
proof -
  have "consume_execution [] (trim_space job_id) (normal_binding binding) (hr_now run) (hr_euid run) (hr_fault run) (hr_removed run) h = (h', None)"
    using assms unfolding consume_via_helper_def consume_main_def Let_def by (auto split: if_splits sum.splits prod.splits)
  from consume_execution_success [OF this] show ?thesis by (simp add: marker_of_def)
qed

lemma exec_main_keeps:
  assumes "present m h"
  shows "present m (fst (exec_main rest job_id binding original current run h))"
  using consume_via_helper_keeps [OF assms, of job_id binding run] assms
  unfolding exec_main_def by (auto split: sum.split prod.split option.split)

inductive host_step :: "host \<Rightarrow> host \<Rightarrow> bool" where
  run_wrapper: "host_step h (fst (exec_main rest job_id binding original current run h))"
| run_helper: "host_step h (fst (consume_main rest job_id binding now euid fault removed h))"

definition consumed :: "string \<Rightarrow> host \<Rightarrow> bool" where
  "consumed job_id h \<longleftrightarrow> present (marker_of job_id) h"

interpretation host_run: stable_predicate host_step "consumed job_id"
proof
  fix h h'
  assume "host_step h h'" and "consumed job_id h"
  then show "consumed job_id h'"
    by (induction rule: host_step.induct) (simp_all add: consumed_def exec_main_keeps consume_main_keeps)
qed

text \<open>
  C5. A job runs at most once on a host: once the wrapper has started a process for a job ID, no later run of the wrapper for that ID starts
  one, whatever runs of the wrapper and of the helper happen in between, with whatever faults, arguments and commands.
\<close>
theorem job_runs_once_on_host:
  assumes "exec_main rest job_id binding original current run h = (h1, Spawn p)" and "host_step\<^sup>*\<^sup>* h1 h2"
    and "trim_space job_id' = trim_space job_id"
  shows "\<exists>code. snd (exec_main rest' job_id' binding' original' current' run' h2) = Fatal code"
proof (cases "snd (exec_main rest' job_id' binding' original' current' run' h2)")
  case (Spawn p')
  obtain h3 where "exec_main rest' job_id' binding' original' current' run' h2 = (h3, Spawn p')"
    using Spawn by (metis prod.collapse)
  then have "consume_via_helper job_id' binding' run' h2 = (h3, None)" by (rule exec_main_spawn)
  then have "\<not> consumed job_id h2"
    using consume_via_helper_success assms(3) by (metis consumed_def marker_of_def)
  moreover have "consume_via_helper job_id binding run h = (h1, None)" using assms(1) by (rule exec_main_spawn)
  then have "consumed job_id h1" using consume_via_helper_success by (metis consumed_def)
  then have "consumed job_id h2" using host_run.steps_keep [OF assms(2)] by simp
  ultimately show ?thesis by simp
qed simp

section \<open>Text without separators\<close>

lemma split_on_none: "c \<notin> set p \<Longrightarrow> split_on c p = [p]"
  by (induction p) auto

lemma split_on_first: "c \<notin> set p \<Longrightarrow> split_on c (p @ c # s) = p # split_on c s"
  by (induction p) auto

lemma split_on_join: "ps \<noteq> [] \<Longrightarrow> \<forall>p \<in> set ps. c \<notin> set p \<Longrightarrow> split_on c (join_with [c] ps) = ps"
proof (induction ps rule: commas_list_induct [case_names Nil single more])
  case (more p q ps)
  then show ?case by (simp add: split_on_first)
qed (simp_all add: split_on_none)

lemma set_join: "set (join_with d ps) \<subseteq> set d \<union> (\<Union>p \<in> set ps. set p)"
  by (induction ps rule: commas_list_induct [case_names Nil single more]) auto

section \<open>Joining a directory and a name\<close>

lemma split_on_last: "c \<notin> set n \<Longrightarrow> split_on c (d @ c # n) = split_on c d @ [n]"
proof (induction d)
  case Nil
  then show ?case by (simp add: split_on_none)
next
  case (Cons a d)
  have "split_on c d \<noteq> []" by (induction d) (auto split: list.splits)
  with Cons show ?case by (cases "split_on c d") auto
qed

definition plain_name :: "string \<Rightarrow> bool" where
  "plain_name n \<longleftrightarrow> n \<noteq> [] \<and> n \<noteq> ''.'' \<and> n \<noteq> ''..'' \<and> CHR ''/'' \<notin> set n"

lemma path_join_clean:
  assumes "plain_name n" and "d \<noteq> []" and "is_abs d" and "foldl (clean_step True) [] (split_on CHR ''/'' d) = out" and "out \<noteq> []"
    and "''/'' @ join_with ''/'' out = d"
  shows "path_join d n = d @ ''/'' @ n"
proof -
  have j: "join_with ''/'' (out @ [n]) = join_with ''/'' out @ ''/'' @ n"
    using assms(5) by (induction out rule: commas_list_induct) auto
  have "is_abs (d @ s)" for s using assms(3) by (auto simp: is_abs_def has_prefix_def)
  moreover have "foldl (clean_step True) [] (split_on CHR ''/'' (d @ ''/'' @ n)) = out @ [n]"
    using assms(1,4) by (simp add: split_on_last plain_name_def clean_step_def)
  moreover have "n \<noteq> []" using assms(1) by (simp add: plain_name_def)
  moreover have "(''/'' @ join_with ''/'' out) @ ''/'' @ n = d @ ''/'' @ n" unfolding assms(6) ..
  ultimately show ?thesis
    using assms(2) j by (simp add: path_join_def path_clean_def Let_def)
qed

section \<open>The markers refine a set of executed jobs\<close>

text \<open>The abstract replay guard: a set of job IDs, to which a job can be added once.\<close>

definition once_step :: "string \<Rightarrow> string set \<Rightarrow> string set \<times> bool" where
  "once_step job_id done = (if job_id \<in> done then (done, False) else (insert job_id done, True))"

definition executed :: "host \<Rightarrow> string set" where
  "executed h = {job_id. safe_id job_id \<and> plain_name job_id \<and> present (marker_of job_id) h}"

lemma marker_of_plain:
  assumes "safe_id job_id" and "plain_name job_id"
  shows "marker_of job_id = replay_state_dir @ ''/'' @ job_id"
proof -
  have "path_join replay_state_dir job_id = replay_state_dir @ ''/'' @ job_id"
    by (rule path_join_clean [OF assms(2), where out = "[''var'', ''lib'', ''tethys-sentinel'', ''executed'']"]) code_simp+
  then show ?thesis using assms(1) by (simp add: marker_of_def safe_id_def trim_space_id)
qed

lemma executed_upd:
  assumes "safe_id job_id" and "plain_name job_id"
  shows "executed (h\<lparr>h_files := (h_files h)(marker_of job_id \<mapsto> x)\<rparr>) = insert job_id (executed h)"
proof (rule set_eqI)
  fix k
  have "marker_of k = marker_of job_id \<longleftrightarrow> k = job_id" if "safe_id k" "plain_name k"
    using marker_of_plain [OF that] marker_of_plain [OF assms] by simp
  then show "k \<in> executed (h\<lparr>h_files := (h_files h)(marker_of job_id \<mapsto> x)\<rparr>) \<longleftrightarrow> k \<in> insert job_id (executed h)"
    using assms by (auto simp: executed_def present_def)
qed

definition dirs_ok :: "nat \<Rightarrow> host \<Rightarrow> bool" where
  "dirs_ok euid h \<longleftrightarrow> validate_owned_private_directory euid h (path_dir replay_state_dir) = None \<and>
     validate_owned_private_directory euid h replay_state_dir = None"

text \<open>
  The marker files implement the set of executed jobs: on a sound directory and without a fault, consuming a job is the abstract step - it
  succeeds and adds the job exactly when the job is not in the set, and reports a replay otherwise; and whatever fault strikes, the set
  stays as it was or gains this job alone, and the call fails.
\<close>
theorem consume_refines_once:
  assumes "safe_id job_id" and "plain_name job_id" and "decode_binding (normal_binding binding) = Inr w" and "dirs_ok euid h"
  shows "(executed (fst (consume_execution [] job_id binding now euid None removed h)),
            snd (consume_execution [] job_id binding now euid None removed h) = None) = once_step job_id (executed h) \<and>
    (job_id \<in> executed h \<longrightarrow> consume_execution [] job_id binding now euid fault removed h = (h, Some Err_Replay)) \<and>
    (fault \<noteq> None \<longrightarrow> snd (consume_execution [] job_id binding now euid fault removed h) \<noteq> None \<and>
       executed (fst (consume_execution [] job_id binding now euid fault removed h)) \<in> {executed h, insert job_id (executed h)})"
proof -
  have t: "trim_space job_id = job_id" using assms(1) by (simp add: safe_id_def trim_space_id)
  have m: "path_join replay_state_dir job_id = marker_of job_id" by (simp add: marker_of_def t)
  have d: "validate_owned_private_directory euid h (path_dir replay_state_dir) = None"
    "validate_owned_private_directory euid h replay_state_dir = None" using assms(4) by (simp_all add: dirs_ok_def)
  note u = consume_execution_def Let_def t m d assms(1,3)
  show ?thesis
  proof (cases "present (marker_of job_id) h")
    case True
    then have p: "h_files h (marker_of job_id) \<noteq> None" and x: "job_id \<in> executed h"
      using assms(1,2) by (simp_all only: present_def executed_def mem_Collect_eq simp_thms)
    have "consume_execution [] job_id binding now euid f removed h = (h, Some Err_Replay)" for f
      using p by (simp add: u)
    with x show ?thesis by (simp add: once_step_def)
  next
    case False
    then have p: "h_files h (marker_of job_id) = None" unfolding present_def by blast
    have x: "job_id \<notin> executed h" using False by (simp add: executed_def)
    have "\<exists>v. consume_execution [] job_id binding now euid None removed h = (h\<lparr>h_files := (h_files h)(marker_of job_id \<mapsto> v)\<rparr>, None)"
      using p by (simp add: u) blast
    then have n: "executed (fst (consume_execution [] job_id binding now euid None removed h)) = insert job_id (executed h)"
      "snd (consume_execution [] job_id binding now euid None removed h) = None"
      using executed_upd [OF assms(1,2)] by auto
    have f: "snd (consume_execution [] job_id binding now euid (Some k) removed h) \<noteq> None" for k
      using p by (cases k) (simp_all add: u)
    have "executed (fst (consume_execution [] job_id binding now euid fault removed h)) \<in> {executed h, insert job_id (executed h)}"
      by (rule consume_execution_cases [of "[]" job_id binding now euid fault removed h])
        (simp_all add: t m executed_upd [OF assms(1,2)])
    with n f x show ?thesis by (cases fault) (simp_all add: once_step_def)
  qed
qed

section \<open>An encoded job runs\<close>

definition host_ready :: "string \<Rightarrow> helper_run \<Rightarrow> host \<Rightarrow> bool" where
  "host_ready job_id run h \<longleftrightarrow>
     validate_owned_private_directory 0 h (path_dir replay_state_dir) = None \<and>
     validate_owned_private_directory 0 h replay_state_dir = None \<and>
     h_files h (marker_of job_id) = None \<and>
     hr_started run \<and> hr_euid run = 0 \<and> hr_fault run = None \<and> \<not> hr_status_lost run"

lemma consume_ready:
  assumes "host_ready job_id run h" and "safe_id job_id"
  shows "snd (consume_via_helper job_id (binding_hash g r t argv) run h) = None"
proof -
  have "trim_space job_id = job_id" using assms(2) by (simp add: safe_id_def trim_space_id)
  with assms show ?thesis
    by (simp add: consume_via_helper_def consume_main_def consume_execution_def Let_def host_ready_def marker_of_def
        split: prod.split)
qed

lemma encoded_runs:
  assumes "rc_encode j = Inr command" and "list_all valid_utf8 (j_argv j)" and "load_target_id [] h = Inr (j_target j)"
    and "resolve_executable h (hd (j_argv j)) = Inr executable" and "host_ready (j_id j) run h"
  shows "\<exists>h'. exec_main [] (j_id j) (j_command_sha256 j) command current run h =
    (h', Spawn \<lparr>pr_path = executable, pr_args = tl (j_argv j), pr_env = safe_environment current\<rparr>)"
proof -
  have v: "validate_envelope (job_envelope j) = None" and b: "verify_binding j"
    using assms(1) by (auto simp: rc_encode_def Let_def split: if_splits option.splits)
  have ids: "safe_id (j_id j)" "safe_id (j_target j)" using validate_envelopeD [OF v] by (simp_all add: job_envelope_def)
  then have t: "trim_space (j_id j) = j_id j" "trim_space (j_target j) = j_target j" by (simp_all add: safe_id_def trim_space_id)
  have s: "j_command_sha256 j = binding_hash (j_grant_id j) (j_request_id j) (j_target j) (j_argv j)"
    using b by (simp add: verify_binding_def)
  have "rw_verify \<lparr>wr_job_id = j_id j, wr_binding = j_command_sha256 j, wr_local_target = j_target j, wr_original_command = command\<rparr> = Inr (j_argv j)"
    using decode_encoded [OF assms(1,2)] ids t unfolding rw_verify_def Let_def s by (simp add: job_envelope_def)
  moreover obtain h' where "consume_via_helper (j_id j) (j_command_sha256 j) run h = (h', None)"
    using consume_ready [OF assms(5) ids(1)] unfolding s by (metis prod.collapse)
  ultimately show ?thesis using assms(3,4) unfolding exec_main_def by simp
qed

text \<open>
  C32. The command text that the worker encodes for a job is accepted on the job's target, and the wrapper starts the job's argv, provided the
  executable resolves there, the replay directory is sound, no marker of the job exists and the helper runs without a fault.
\<close>
theorem encoded_job_runs:
  assumes "rc_encode j = Inr command" and "list_all valid_utf8 (j_argv j)" and "load_target_id [] h = Inr (j_target j)"
    and "resolve_executable h (hd (j_argv j)) = Inr executable" and "host_ready (j_id j) run h"
  shows "\<exists>h'. exec_main [] (j_id j) (j_command_sha256 j) command current run h =
    (h', Spawn \<lparr>pr_path = executable, pr_args = tl (j_argv j), pr_env = safe_environment current\<rparr>)"
  by (rule encoded_runs [OF assms])

section \<open>A concrete host\<close>

definition wire_host :: host where
  "wire_host = \<lparr>
     h_stat = (\<lambda>p. if p = target_id_path then Some \<lparr>fi_regular = True, fi_dir = False, fi_symlink = False, fi_perm = 0x1A4, fi_uid = 0\<rparr>
       else if p = ''/usr/bin/uptime'' then Some \<lparr>fi_regular = True, fi_dir = False, fi_symlink = False, fi_perm = 0x1ED, fi_uid = 0\<rparr>
       else None),
     h_read = (\<lambda>p. if p = target_id_path then Some (''dns01'' @ [CHR 0x0A]) else None),
     h_files = (\<lambda>p. if p = ''/var/lib/tethys-sentinel'' \<or> p = replay_state_dir
       then Some (\<lparr>fi_regular = False, fi_dir = True, fi_symlink = False, fi_perm = 0x1C0, fi_uid = 0\<rparr>, []) else None)\<rparr>"

definition wire_run :: helper_run where
  "wire_run = \<lparr>hr_started = True, hr_euid = 0, hr_now = 0, hr_fault = None, hr_removed = True, hr_status_lost = False\<rparr>"

lemma wire_target: "load_target_id [] wire_host = Inr ''dns01''"
  by code_simp

lemma wire_executable: "resolve_executable wire_host ''uptime'' = Inr ''/usr/bin/uptime''"
  by code_simp

lemma wire_ready: "host_ready ''job-00000001'' wire_run wire_host"
  by code_simp

lemma wire_spawns:
  "\<exists>h'. exec_main [] ''job-00000001'' (j_command_sha256 wire_job) wire_command None wire_run wire_host =
     (h', Spawn \<lparr>pr_path = ''/usr/bin/uptime'', pr_args = [''-p''], pr_env = safe_environment None\<rparr>)"
  using encoded_runs [OF wire_encode, of wire_host "''/usr/bin/uptime''" wire_run None]
    wire_utf8 wire_target wire_executable wire_ready by (simp add: wire_job_def)

theorem encoded_job_runs_witness:
  "\<exists>h'. exec_main [] (j_id wire_job) (j_command_sha256 wire_job) wire_command None wire_run wire_host =
     (h', Spawn \<lparr>pr_path = ''/usr/bin/uptime'', pr_args = tl (j_argv wire_job), pr_env = safe_environment None\<rparr>)"
  by (rule encoded_job_runs [OF wire_encode wire_utf8])
    (simp_all add: wire_job_def wire_target wire_executable wire_ready)

theorem job_runs_once_on_host_witness:
  "\<exists>h1 p code. exec_main [] ''job-00000001'' (j_command_sha256 wire_job) wire_command None wire_run wire_host = (h1, Spawn p) \<and>
     snd (exec_main [] ''job-00000001'' (j_command_sha256 wire_job) wire_command None wire_run h1) = Fatal code"
proof -
  obtain h1 p where e: "exec_main [] ''job-00000001'' (j_command_sha256 wire_job) wire_command None wire_run wire_host = (h1, Spawn p)"
    using wire_spawns by blast
  with job_runs_once_on_host [OF e rtranclp.rtrancl_refl refl] show ?thesis by blast
qed

theorem wrapper_runs_the_job_witness:
  "\<exists>h1 p. exec_main [] (j_id wire_job) (j_command_sha256 wire_job) wire_command None wire_run wire_host = (h1, Spawn p) \<and>
     (load_target_id [] wire_host = Inr (j_target wire_job) \<and> resolve_executable wire_host (hd (j_argv wire_job)) = Inr (pr_path p) \<and>
        pr_args p = tl (j_argv wire_job) \<and> pr_env p = safe_environment None \<or>
      (\<exists>e b. rc_decode wire_command = Inr (e, b) \<and> sha256_collision (envelope_payload e) (job_payload wire_job)))"
proof -
  obtain h1 p where e: "exec_main [] (j_id wire_job) (j_command_sha256 wire_job) wire_command None wire_run wire_host = (h1, Spawn p)"
    using wire_spawns by (auto simp: wire_job_def)
  moreover have "job_utf8 wire_job" by (simp add: job_utf8_def wire_job_def ascii_valid_utf8 ascii_def)
  ultimately show ?thesis using wrapper_runs_the_job [OF wire_bound _ e] by blast
qed

theorem consume_refines_once_witness:
  "(executed (fst (consume_execution [] ''job-00000001'' (binding_hash [] [] [] []) 0 0 None True wire_host)),
     snd (consume_execution [] ''job-00000001'' (binding_hash [] [] [] []) 0 0 None True wire_host) = None)
   = once_step ''job-00000001'' (executed wire_host)"
proof -
  have s: "safe_id ''job-00000001''" "plain_name ''job-00000001''" and d: "dirs_ok 0 wire_host" by code_simp+
  have b: "decode_binding (normal_binding (binding_hash [] [] [] [])) = Inr (sha256 (binding_payload [] [] [] []))" by simp
  show ?thesis by (rule consume_refines_once [OF s b d, THEN conjunct1])
qed

end
