(* ===== verification/Go_Netip.thy ===== *)
theory Go_Netip
  imports Go_JSON_Decode
begin

text \<open>
  What the program uses of \<open>net/netip\<close>, \<open>net\<close> and \<open>strconv\<close>: literal IP addresses, their parsing and their canonical text,
  host and port, and decimal integers. An IPv4 address is its four octets; an IPv6 address its eight 16-bit groups and its zone.
\<close>

section \<open>Addresses\<close>

datatype ip_addr = V4 "int list" | V6 "int list" string

definition dec_value :: "string \<Rightarrow> int" where
  "dec_value s = foldl (\<lambda>n c. 10 * n + (of_char c - 0x30)) 0 s"

text \<open>One octet of an IPv4 address: digits without a leading zero, at most 255.\<close>

definition parse_octet :: "string \<Rightarrow> int option" where
  "parse_octet s =
     (if s = [] \<or> \<not> list_all digit s \<or> (1 < length s \<and> hd s = CHR ''0'') \<or> 255 < dec_value s then None
      else Some (dec_value s))"

fun all_some :: "'a option list \<Rightarrow> 'a list option" where
  "all_some [] = Some []"
| "all_some (x # xs) = (case x of None \<Rightarrow> None | Some v \<Rightarrow> map_option ((#) v) (all_some xs))"

definition parse_ipv4 :: "string \<Rightarrow> int list option" where
  "parse_ipv4 s =
     (let fields = split_on CHR ''.'' s in
      if length fields \<noteq> 4 then None else all_some (map parse_octet fields))"

definition hex_number :: "string \<Rightarrow> int" where
  "hex_number s = foldl (\<lambda>n c. 16 * n + (case hex_value c of None \<Rightarrow> 0 | Some v \<Rightarrow> int v)) 0 s"

definition is_hex :: "char \<Rightarrow> bool" where
  "is_hex c \<longleftrightarrow> hex_value c \<noteq> None"

text \<open>
  The loop of \<open>parseIPv6\<close>: groups of at most four hexadecimal digits, separated by colons, with at most one ellipsis (whose position
  is the number of groups before it), and possibly an IPv4 address for the last two groups.
\<close>

function v6_groups :: "string \<Rightarrow> int list \<Rightarrow> nat option \<Rightarrow> (int list \<times> nat option \<times> string) option" where
  "v6_groups s acc ell =
     (if 8 \<le> length acc then Some (acc, ell, s)
      else
        (let ds = takeWhile is_hex s; r = dropWhile is_hex s in
         if ds = [] \<or> 4 < length ds then None
         else if r \<noteq> [] \<and> hd r = CHR ''.'' then
           (if (ell = None \<and> length acc \<noteq> 6) \<or> 6 < length acc then None
            else case parse_ipv4 s of
              Some [a, b, c, d] \<Rightarrow> Some (acc @ [256 * a + b, 256 * c + d], ell, [])
            | _ \<Rightarrow> None)
         else
           (let acc' = acc @ [hex_number ds] in
            if r = [] then Some (acc', ell, [])
            else if hd r \<noteq> CHR '':'' \<or> tl r = [] then None
            else if hd (tl r) = CHR '':'' then
              (if ell \<noteq> None then None
               else if tl (tl r) = [] then Some (acc', Some (length acc'), [])
               else v6_groups (tl (tl r)) acc' (Some (length acc')))
            else v6_groups (tl r) acc' ell)))"
  by pat_completeness auto
termination by (relation "measure (\<lambda>(s, acc, ell). 8 - length acc)") auto

declare v6_groups.simps [simp del]

definition parse_ipv6 :: "string \<Rightarrow> ip_addr option" where
  "parse_ipv6 input =
     (let zoned = CHR ''%'' \<in> set input; s = takeWhile (\<lambda>c. c \<noteq> CHR ''%'') input;
          zone = (if zoned then tl (dropWhile (\<lambda>c. c \<noteq> CHR ''%'') input) else []) in
      if zoned \<and> zone = [] then None
      else if s = ''::'' then Some (V6 (replicate 8 0) zone)
      else
        (let lead = prefix ''::'' s in
         case v6_groups (if lead then drop 2 s else s) [] (if lead then Some 0 else None) of
           None \<Rightarrow> None
         | Some (acc, ell, rest) \<Rightarrow>
             if rest \<noteq> [] then None
             else if length acc < 8 then
               (case ell of
                  None \<Rightarrow> None
                | Some e \<Rightarrow> Some (V6 (take e acc @ replicate (8 - length acc) 0 @ drop e acc) zone))
             else if ell \<noteq> None then None
             else Some (V6 acc zone)))"

text \<open>The first of a dot, a colon and a percent sign decides.\<close>

definition parse_addr :: "string \<Rightarrow> ip_addr option" where
  "parse_addr s =
     (case find (\<lambda>c. c = CHR ''.'' \<or> c = CHR '':'' \<or> c = CHR ''%'') s of
        None \<Rightarrow> None
      | Some c \<Rightarrow>
          if c = CHR ''.'' then map_option V4 (parse_ipv4 s) else if c = CHR '':'' then parse_ipv6 s else None)"

fun addr_unmap :: "ip_addr \<Rightarrow> ip_addr" where
  "addr_unmap (V4 os) = V4 os"
| "addr_unmap (V6 gs zone) =
     (if take 6 gs = [0, 0, 0, 0, 0, 0xFFFF] then
        V4 [gs ! 6 div 256, gs ! 6 mod 256, gs ! 7 div 256, gs ! 7 mod 256]
      else V6 gs zone)"

fun addr_zone :: "ip_addr \<Rightarrow> string" where
  "addr_zone (V4 os) = []"
| "addr_zone (V6 gs zone) = zone"

fun without_zone :: "ip_addr \<Rightarrow> ip_addr" where
  "without_zone (V4 os) = V4 os"
| "without_zone (V6 gs zone) = V6 gs []"

fun is_global_unicast :: "ip_addr \<Rightarrow> bool" where
  "is_global_unicast (V4 os) =
     (os \<noteq> [0, 0, 0, 0] \<and> os \<noteq> [255, 255, 255, 255] \<and> os ! 0 \<noteq> 127 \<and> os ! 0 div 16 \<noteq> 14 \<and> \<not> (os ! 0 = 169 \<and> os ! 1 = 254))"
| "is_global_unicast (V6 gs zone) =
     (\<not> (gs = replicate 8 0 \<and> zone = []) \<and> gs \<noteq> [0, 0, 0, 0, 0, 0, 0, 1] \<and> gs ! 0 div 256 \<noteq> 255 \<and> gs ! 0 div 64 \<noteq> 0x3FA)"

section \<open>Canonical text\<close>

function hex_text :: "int \<Rightarrow> string" where
  "hex_text n = (if n < 16 then [hex_digit (nat n)] else hex_text (n div 16) @ [hex_digit (nat (n mod 16))])"
  by pat_completeness auto
termination by (relation "measure nat") auto

declare hex_text.simps [simp del]

definition zero_run :: "int list \<Rightarrow> nat \<Rightarrow> nat" where
  "zero_run gs i = length (takeWhile (\<lambda>g. g = 0) (drop i gs))"

text \<open>The first longest run of at least two zero groups: its start and its end.\<close>

definition best_run :: "int list \<Rightarrow> (nat \<times> nat) option" where
  "best_run gs = foldl
     (\<lambda>best i. let l = zero_run gs i in
        if 2 \<le> l \<and> (case best of None \<Rightarrow> 0 | Some (a, b) \<Rightarrow> b - a) < l then Some (i, i + l) else best)
     None [0..<8]"

fun addr_string :: "ip_addr \<Rightarrow> string" where
  "addr_string (V4 os) = join_with ''.'' (map dec_int os)"
| "addr_string (V6 gs zone) =
     (case best_run gs of
        None \<Rightarrow> join_with '':'' (map hex_text gs)
      | Some (a, b) \<Rightarrow> join_with '':'' (map hex_text (take a gs)) @ ''::'' @ join_with '':'' (map hex_text (drop b gs)))
     @ (if zone = [] then [] else ''%'' @ zone)"

fun addr_is4 :: "ip_addr \<Rightarrow> bool" where
  "addr_is4 (V4 os) = True"
| "addr_is4 (V6 gs zone) = False"

section \<open>Host and port\<close>

definition after_last :: "char \<Rightarrow> string \<Rightarrow> string" where
  "after_last c s = rev (takeWhile (\<lambda>d. d \<noteq> c) (rev s))"

definition before_last :: "char \<Rightarrow> string \<Rightarrow> string" where
  "before_last c s = take (length s - Suc (length (after_last c s))) s"

definition split_host_port :: "string \<Rightarrow> (string \<times> string) option" where
  "split_host_port hp =
     (if CHR '':'' \<notin> set hp then None
      else if hd hp = CHR ''['' then
        (if CHR '']'' \<notin> set hp then None
         else
           (let host = takeWhile (\<lambda>c. c \<noteq> CHR '']'') (tl hp); behind = tl (dropWhile (\<lambda>c. c \<noteq> CHR '']'') hp) in
            if behind = [] \<or> hd behind \<noteq> CHR '':'' \<or> CHR '':'' \<in> set (tl behind) then None
            else if CHR ''['' \<in> set (tl hp) \<or> CHR '']'' \<in> set behind then None
            else Some (host, tl behind)))
      else
        (let host = before_last CHR '':'' hp in
         if CHR '':'' \<in> set host \<or> CHR ''['' \<in> set hp \<or> CHR '']'' \<in> set hp then None
         else Some (host, after_last CHR '':'' hp)))"

definition join_host_port :: "string \<Rightarrow> string \<Rightarrow> string" where
  "join_host_port host port =
     (if CHR '':'' \<in> set host \<or> CHR ''%'' \<in> set host then ''['' @ host @ '']:'' @ port else host @ '':'' @ port)"

text \<open>\<open>strconv.Atoi\<close>: an optional sign and digits, within the range of a 64-bit integer.\<close>

definition atoi :: "string \<Rightarrow> int option" where
  "atoi s =
     (let signed = s \<noteq> [] \<and> (hd s = CHR ''+'' \<or> hd s = CHR ''-''); ds = (if signed then tl s else s);
          v = (if signed \<and> hd s = CHR ''-'' then - dec_value ds else dec_value ds) in
      if ds = [] \<or> \<not> list_all digit ds \<or> v < - (2 ^ 63) \<or> 2 ^ 63 \<le> v then None else Some v)"

end
