(* ===== verification/Ssh_Signer.thy ===== *)
theory Ssh_Signer
  imports Remote_Wrapper Go_Netip "HOL-Library.Word"
begin

text \<open>
  The signer of short-lived SSH certificates (\<open>internal/sshsigner\<close>). The SSH library is a third-party package, so what the code calls
  of it is the record \<open>ssh_lib\<close>, an argument: parsing an \<open>authorized_keys\<close> line, signing and printing a certificate, fingerprints. The
  clock and the draws of the random generator are arguments. An instant is nanoseconds since Go's zero time; \<open>Unix\<close> seconds are
  counted from 1970 and wrap to an unsigned 64-bit word in the certificate.
\<close>

unbundle bit_operations_syntax

section \<open>Data\<close>

record pub_key =
  pk_type :: string
  pk_is_cert :: bool
  pk_blob :: string

record certificate =
  cf_key :: pub_key
  cf_serial :: "64 word"
  cf_user_cert :: bool
  cf_key_id :: string
  cf_principals :: "string list"
  cf_valid_after :: "64 word"
  cf_valid_before :: "64 word"
  cf_critical_options :: "(string \<times> string) list"
  cf_extensions :: "(string \<times> string) list"

record ssh_lib =
  lib_parse_authorized_key :: "string \<Rightarrow> (pub_key \<times> string list \<times> string) option"
  lib_sign_cert :: "certificate \<Rightarrow> string option"          \<comment> \<open>the \<open>authorized_keys\<close> text of the signed certificate\<close>
  lib_marshal_authorized_key :: "pub_key \<Rightarrow> string"
  lib_fingerprint_key :: "pub_key \<Rightarrow> string"
  lib_fingerprint_cert :: "string \<Rightarrow> string"

record signer_policy =
  sg_principal :: string
  sg_wrapper_path :: string
  sg_source_addresses :: "string list"
  sg_certificate_ttl :: duration
  sg_backdate :: duration

record sign_request =
  sr_job_id :: string
  sr_grant_id :: string
  sr_target :: string
  sr_command_sha256 :: string
  sr_public_key :: string
  sr_not_after :: time

record sign_response =
  sn_certificate :: string
  sn_serial :: "64 word"
  sn_key_id :: string
  sn_principal :: string
  sn_force_command :: string
  sn_source_addresses :: "string list"
  sn_valid_after :: time
  sn_valid_before :: time
  sn_ca_fingerprint :: string
  sn_certificate_fingerprint :: string
  sn_public_key_fingerprint :: string

record signer_service =
  sv_ca :: pub_key
  sv_principal :: string
  sv_wrapper_path :: string
  sv_source_addresses :: "string list"
  sv_ttl :: duration
  sv_backdate :: duration

definition go_second :: duration where "go_second = 1000000000"

definition key_algo_ed25519 :: string where "key_algo_ed25519 = ''ssh-ed25519''"

text \<open>\<open>Time.Unix\<close>: the seconds between Go's zero time and 1970 are subtracted.\<close>

definition unix :: "time \<Rightarrow> int" where
  "unix t = t div go_second - 62135596800"

section \<open>The policy\<close>

definition path_char :: "char \<Rightarrow> bool" where
  "path_char c \<longleftrightarrow> (let n = of_char c :: nat in
     (0x61 \<le> n \<and> n \<le> 0x7A) \<or> (0x41 \<le> n \<and> n \<le> 0x5A) \<or> (0x30 \<le> n \<and> n \<le> 0x39) \<or> c \<in> set ''/._-'')"

definition validate_wrapper_path :: "string \<Rightarrow> err + string" where
  "validate_wrapper_path raw =
     (let value = trim_space raw in
      if value = [] \<or> \<not> is_abs value \<or> path_clean value \<noteq> value then Inl (Err_Msg ''wrapper path must be a clean absolute path'')
      else if \<not> list_all path_char value then Inl (Err_Msg ''wrapper path contains shell-unsafe characters'')
      else Inr value)"

definition host_prefix :: "ip_addr \<Rightarrow> string" where
  "host_prefix addr = addr_string (without_zone addr) @ (if addr_is4 addr then ''/32'' else ''/128'')"

fun canonical_loop :: "string list \<Rightarrow> string list \<Rightarrow> err + string list" where
  "canonical_loop [] out = Inr out"
| "canonical_loop (raw # raws) out =
     (case parse_addr (trim_space raw) of
        None \<Rightarrow> Inl (Err_Msg ''invalid worker source address'')
      | Some addr \<Rightarrow>
          (let pre = host_prefix (addr_unmap addr) in
           canonical_loop raws (if pre \<in> set out then out else out @ [pre])))"

definition canonical_source_addresses :: "string list \<Rightarrow> err + string list" where
  "canonical_source_addresses values =
     (if values = [] then Inl (Err_Msg ''at least one exact worker source address is required'')
      else case canonical_loop values [] of
        Inl e \<Rightarrow> Inl e
      | Inr out \<Rightarrow> if 16 < length out then Inl (Err_Msg ''too many worker source addresses'') else Inr out)"

definition ss_new :: "pub_key option \<Rightarrow> signer_policy \<Rightarrow> err + signer_service" where
  "ss_new ca policy =
     (case ca of
        None \<Rightarrow> Inl (Err_Msg ''SSH CA signer is required'')
      | Some key \<Rightarrow>
        if pk_type key \<noteq> key_algo_ed25519 then Inl (Err_Msg ''SSH CA must use Ed25519'')
        else if \<not> safe_id (trim_space (sg_principal policy)) then Inl (Err_Msg ''principal contains unsupported characters'')
        else case validate_wrapper_path (sg_wrapper_path policy) of
          Inl e \<Rightarrow> Inl e
        | Inr wrapper \<Rightarrow>
          if sg_certificate_ttl policy < 10 * go_second \<or> 120 * go_second < sg_certificate_ttl policy
          then Inl (Err_Msg ''certificate TTL out of range'')
          else if sg_backdate policy < 0 \<or> 15 * go_second < sg_backdate policy
          then Inl (Err_Msg ''certificate backdate out of range'')
          else case canonical_source_addresses (sg_source_addresses policy) of
            Inl e \<Rightarrow> Inl e
          | Inr sources \<Rightarrow>
              Inr \<lparr>sv_ca = key, sv_principal = trim_space (sg_principal policy), sv_wrapper_path = wrapper,
                sv_source_addresses = sources, sv_ttl = sg_certificate_ttl policy, sv_backdate = sg_backdate policy\<rparr>)"

text \<open>\<open>LoadCA\<close>; the parser of a private key, which gives its public key here, is the library's.\<close>

definition load_ca :: "(string \<Rightarrow> pub_key option) \<Rightarrow> string \<Rightarrow> host \<Rightarrow> err + pub_key" where
  "load_ca parse_private_key path0 h =
     (let path = trim_space path0 in
      if path = [] then Inl (Err_Msg ''SSH CA key path is required'')
      else case h_stat h path of
        None \<Rightarrow> Inl Err_IO
      | Some info \<Rightarrow>
          if \<not> fi_regular info then Inl (Err_Msg ''SSH CA key must be a regular file'')
          else if fi_perm info AND 0x3F \<noteq> 0 then Inl (Err_Msg ''SSH CA key permissions must not grant group/other access'')
          else case h_read h path of
            None \<Rightarrow> Inl Err_IO
          | Some data \<Rightarrow>
              (case parse_private_key data of
                 None \<Rightarrow> Inl (Err_Msg ''parse SSH CA key'')
               | Some key \<Rightarrow> if pk_type key \<noteq> key_algo_ed25519 then Inl (Err_Msg ''SSH CA must use Ed25519'') else Inr key))"

section \<open>Signing\<close>

definition parse_ephemeral_public_key :: "ssh_lib \<Rightarrow> string \<Rightarrow> err + pub_key" where
  "parse_ephemeral_public_key lib raw =
     (let value = trim_space raw in
      if value = [] then Inl (Err_Msg ''ephemeral public key is required'')
      else case lib_parse_authorized_key lib (value @ [CHR 0x0A]) of
        None \<Rightarrow> Inl (Err_Msg ''parse ephemeral public key'')
      | Some (key, options, rest) \<Rightarrow>
          if options \<noteq> [] \<or> trim_space rest \<noteq> []
          then Inl (Err_Msg ''ephemeral public key must not contain authorized_keys options or additional records'')
          else if pk_is_cert key then Inl (Err_Msg ''ephemeral public key must not already be a certificate'')
          else if pk_type key \<noteq> key_algo_ed25519 then Inl (Err_Msg ''ephemeral public key must use Ed25519'')
          else Inr key)"

definition validate_sha256 :: "string \<Rightarrow> err option" where
  "validate_sha256 value =
     (if length value \<noteq> 64 then Some (Err_Msg ''must be a 64-character SHA-256 hex digest'')
      else case hex_decode value of
        None \<Rightarrow> Some (Err_Msg ''must be a 64-character SHA-256 hex digest'')
      | Some decoded \<Rightarrow>
          if length decoded \<noteq> 32 then Some (Err_Msg ''must be a 64-character SHA-256 hex digest'') else None)"

definition be_uint64 :: "string \<Rightarrow> 64 word" where
  "be_uint64 raw = word_of_int (foldl (\<lambda>n c. 256 * n + of_char c) 0 raw)"

text \<open>\<open>randomSerial\<close> draws until the number is not zero: \<open>None\<close> if it never returns.\<close>

partial_function (option) random_serial :: "(nat \<Rightarrow> string option) \<Rightarrow> nat \<Rightarrow> (err + 64 word) option" where
  "random_serial draws n =
     (case draws n of
        None \<Rightarrow> Some (Inl Err_Rand)
      | Some raw \<Rightarrow> if be_uint64 raw \<noteq> 0 then Some (Inr (be_uint64 raw)) else random_serial draws (Suc n))"

definition validity_end :: "signer_service \<Rightarrow> time \<Rightarrow> time \<Rightarrow> time" where
  "validity_end s now not_after = (if not_after < now + sv_ttl s then not_after else now + sv_ttl s)"

definition force_command_of :: "signer_service \<Rightarrow> string \<Rightarrow> string \<Rightarrow> string" where
  "force_command_of s job_id binding = sv_wrapper_path s @ '' --job '' @ job_id @ '' --binding '' @ binding"

definition key_id_of :: "string \<Rightarrow> string \<Rightarrow> string \<Rightarrow> string" where
  "key_id_of job_id grant_id target = ''tethys-sentinel:job:'' @ job_id @ '':grant:'' @ grant_id @ '':target:'' @ target"

definition build_certificate :: "signer_service \<Rightarrow> pub_key \<Rightarrow> 64 word \<Rightarrow> string \<Rightarrow> string \<Rightarrow> time \<Rightarrow> time \<Rightarrow> certificate" where
  "build_certificate s key serial key_id force_command valid_after valid_before =
     \<lparr>cf_key = key, cf_serial = serial, cf_user_cert = True, cf_key_id = key_id, cf_principals = [sv_principal s],
      cf_valid_after = word_of_int (unix valid_after), cf_valid_before = word_of_int (unix valid_before),
      cf_critical_options = [(''force-command'', force_command), (''source-address'', join_with '','' (sv_source_addresses s))],
      cf_extensions = []\<rparr>"

definition sign_with_serial ::
    "ssh_lib \<Rightarrow> signer_service \<Rightarrow> time \<Rightarrow> sign_request \<Rightarrow> pub_key \<Rightarrow> 64 word \<Rightarrow> err + (sign_response \<times> certificate)" where
  "sign_with_serial lib s now req key serial =
     (let job_id = trim_space (sr_job_id req); grant_id = trim_space (sr_grant_id req); target = trim_space (sr_target req);
          binding = normal_binding (sr_command_sha256 req);
          valid_before = validity_end s now (sr_not_after req); valid_after = now - sv_backdate s;
          force_command = force_command_of s job_id binding; key_id = key_id_of job_id grant_id target;
          cert = build_certificate s key serial key_id force_command valid_after valid_before in
      case lib_sign_cert lib cert of
        None \<Rightarrow> Inl (Err_Msg ''sign SSH certificate'')
      | Some text \<Rightarrow>
          Inr (\<lparr>sn_certificate = trim_space text, sn_serial = serial, sn_key_id = key_id, sn_principal = sv_principal s,
             sn_force_command = force_command, sn_source_addresses = sv_source_addresses s, sn_valid_after = valid_after,
             sn_valid_before = valid_before, sn_ca_fingerprint = lib_fingerprint_key lib (sv_ca s),
             sn_certificate_fingerprint = lib_fingerprint_cert lib text,
             sn_public_key_fingerprint = lib_fingerprint_key lib key\<rparr>, cert))"

definition sign_checks :: "ssh_lib \<Rightarrow> signer_service \<Rightarrow> time \<Rightarrow> sign_request \<Rightarrow> err + pub_key" where
  "sign_checks lib s now req =
     (let job_id = trim_space (sr_job_id req); grant_id = trim_space (sr_grant_id req); target = trim_space (sr_target req);
          binding = normal_binding (sr_command_sha256 req) in
      if \<not> safe_id job_id \<or> \<not> safe_id grant_id \<or> \<not> safe_id target
      then Inl (Err_Msg ''job_id, grant_id and target must use safe identifier characters'')
      else case validate_sha256 binding of
        Some e \<Rightarrow> Inl e
      | None \<Rightarrow>
        (case parse_ephemeral_public_key lib (sr_public_key req) of
          Inl e \<Rightarrow> Inl e
        | Inr key \<Rightarrow>
          if sr_not_after req = 0 then Inl (Err_Msg ''not_after is required'')
          else if \<not> now < sr_not_after req then Inl (Err_Msg ''not_after must be in the future'')
          else if unix (validity_end s now (sr_not_after req)) \<le> unix now
          then Inl (Err_Msg ''certificate validity window is too short'')
          else Inr key))"

definition ss_sign ::
    "ssh_lib \<Rightarrow> signer_service \<Rightarrow> time \<Rightarrow> (nat \<Rightarrow> string option) \<Rightarrow> sign_request \<Rightarrow> (err + (sign_response \<times> certificate)) option" where
  "ss_sign lib s now draws req =
     (case sign_checks lib s now req of
        Inl e \<Rightarrow> Some (Inl e)
      | Inr key \<Rightarrow>
          (case random_serial draws 0 of
             None \<Rightarrow> None
           | Some (Inl e) \<Rightarrow> Some (Inl e)
           | Some (Inr serial) \<Rightarrow> Some (sign_with_serial lib s now req key serial)))"

section \<open>The serial number\<close>

lemma random_serial_nonzero: "random_serial draws n = Some r \<Longrightarrow> r \<noteq> Inr 0"
proof (rule random_serial.raw_induct [of "\<lambda>draws n r. r \<noteq> Inr 0"])
  fix f draws n and y :: "err + 64 word"
  assume "\<And>d m y. f d m = Some y \<Longrightarrow> y \<noteq> Inr 0"
    and "(case draws n of None \<Rightarrow> Some (Inl Err_Rand)
        | Some raw \<Rightarrow> if be_uint64 raw \<noteq> 0 then Some (Inr (be_uint64 raw)) else f draws (Suc n)) = Some y"
  then show "y \<noteq> Inr 0" by (auto split: option.splits if_splits)
qed

definition serial_stop :: "(nat \<Rightarrow> string option) \<Rightarrow> nat \<Rightarrow> bool" where
  "serial_stop draws k \<longleftrightarrow> (case draws k of None \<Rightarrow> True | Some raw \<Rightarrow> be_uint64 raw \<noteq> 0)"

lemma random_serial_stops: "random_serial draws n = Some r \<Longrightarrow> \<exists>k. serial_stop draws (n + k)"
proof (rule random_serial.raw_induct [of "\<lambda>draws n r. \<exists>k. serial_stop draws (n + k)"])
  fix f draws n and y :: "err + 64 word"
  assume IH: "\<And>d m y. f d m = Some y \<Longrightarrow> \<exists>k. serial_stop d (m + k)"
    and e: "(case draws n of None \<Rightarrow> Some (Inl Err_Rand)
        | Some raw \<Rightarrow> if be_uint64 raw \<noteq> 0 then Some (Inr (be_uint64 raw)) else f draws (Suc n)) = Some y"
  show "\<exists>k. serial_stop draws (n + k)"
  proof (cases "serial_stop draws n")
    case True
    then have "serial_stop draws (n + 0)" by simp
    then show ?thesis ..
  next
    case False
    with e have "f draws (Suc n) = Some y" by (auto simp: serial_stop_def split: option.splits)
    from IH [OF this] obtain k where "serial_stop draws (n + Suc k)" by auto
    then show ?thesis ..
  qed
qed

lemma random_serial_unfold:
  "\<not> serial_stop draws n \<Longrightarrow> random_serial draws n = random_serial draws (Suc n)"
  "serial_stop draws n \<Longrightarrow> \<exists>r. random_serial draws n = Some r"
  by (subst random_serial.simps, auto simp: serial_stop_def split: option.splits)+

text \<open>
  The loop that draws a certificate's serial number returns exactly when some draw fails or is not zero; a serial that it returns is
  not zero.
\<close>
theorem random_serial_terminates:
  "((\<exists>r. random_serial draws n = Some r) \<longleftrightarrow> (\<exists>k. serial_stop draws (n + k))) \<and> random_serial draws n \<noteq> Some (Inr 0)"
proof (intro conjI iffI)
  assume "\<exists>k. serial_stop draws (n + k)"
  then obtain k where "serial_stop draws (n + k)" ..
  then show "\<exists>r. random_serial draws n = Some r"
  proof (induction k arbitrary: n)
    case 0
    then show ?case by (simp add: random_serial_unfold(2))
  next
    case (Suc k)
    then show ?case
      by (cases "serial_stop draws n") (simp_all add: random_serial_unfold)
  qed
qed (use random_serial_stops random_serial_nonzero in blast)+

section \<open>Source addresses\<close>

lemma hex_text_chars: "list_all is_hex (hex_text n)"
proof (induction n rule: hex_text.induct)
  case (1 n)
  have h: "is_hex (hex_digit (nat k))" if "k < 16" for k using that by (simp add: is_hex_def nat_less_iff)
  show ?case
  proof (cases "n < 16")
    case True
    then show ?thesis by (simp add: hex_text.simps [of n] h)
  next
    case False
    then have "list_all is_hex (hex_text (n div 16))" using 1 by simp
    with False show ?thesis by (simp add: hex_text.simps [of n] h)
  qed
qed

lemma digit_is_hex: "digit c \<Longrightarrow> is_hex c"
  by (simp add: digit_def is_hex_def hex_value_def)

definition addr_char :: "char \<Rightarrow> bool" where
  "addr_char c \<longleftrightarrow> is_hex c \<or> c = CHR ''.'' \<or> c = CHR '':'' \<or> c = CHR ''-''"

lemma addr_string_chars: "list_all addr_char (addr_string (without_zone a))"
proof -
  have j: "list_all addr_char (join_with d (map f xs))"
    if "\<And>x. list_all addr_char (f x)" and "d \<in> {''.'', '':''}" for d f and xs :: "int list"
    using set_join [of d "map f xs"] that by (force simp: list_all_iff addr_char_def)
  have d: "list_all addr_char (dec_int n)" for n
    using dec_nat_digits(1) digit_is_hex by (auto simp: dec_int_def list_all_iff addr_char_def)
  have h: "list_all addr_char (hex_text n)" for n using hex_text_chars [of n] by (auto simp: list_all_iff addr_char_def)
  have "list_all addr_char (join_with '':'' (map hex_text gs))" for gs by (rule j) (simp_all add: h)
  moreover have "list_all addr_char (join_with ''.'' (map dec_int os))" for os by (rule j) (simp_all add: d)
  ultimately show ?thesis by (cases a) (auto simp: addr_char_def split: option.splits)
qed

lemma host_prefix_no_comma: "CHR '','' \<notin> set (host_prefix a)"
proof
  assume "CHR '','' \<in> set (host_prefix a)"
  then have "CHR '','' \<in> set (addr_string (without_zone a))" by (auto simp: host_prefix_def split: if_splits)
  then have "addr_char CHR '',''" using addr_string_chars [of a] by (simp add: list_all_iff)
  then show False by (simp add: addr_char_def is_hex_def hex_value_def)
qed

lemma canonical_loop_result:
  assumes "canonical_loop raws out = Inr res" and "distinct out"
  shows "distinct res \<and> set res = set out \<union> (\<lambda>raw. host_prefix (addr_unmap (the (parse_addr (trim_space raw))))) ` set raws \<and>
    (\<forall>raw \<in> set raws. parse_addr (trim_space raw) \<noteq> None)"
  using assms
proof (induction raws out rule: canonical_loop.induct)
  case (2 raw raws out)
  from "2.prems" obtain a where a: "parse_addr (trim_space raw) = Some a" by (auto split: option.splits)
  let ?o = "if host_prefix (addr_unmap a) \<in> set out then out else out @ [host_prefix (addr_unmap a)]"
  have "canonical_loop raws ?o = Inr res" "distinct ?o" using "2.prems" a by (auto simp: Let_def)
  from "2.IH" [OF a refl this] a show ?case by auto
qed simp

text \<open>
  The \<open>source-address\<close> option of a certificate lists exactly the configured worker addresses, each as a single host: the comma-separated
  text splits back into the list, which has 1 to 16 distinct entries, and each entry is the canonical text of a configured address with
  the full prefix length.
\<close>
theorem source_addresses_exact:
  assumes "canonical_source_addresses values = Inr out"
  shows "split_on CHR '','' (join_with '','' out) = out \<and> distinct out \<and> 1 \<le> length out \<and> length out \<le> 16 \<and>
    (\<forall>raw \<in> set values. parse_addr (trim_space raw) \<noteq> None) \<and>
    set out = (\<lambda>raw. host_prefix (addr_unmap (the (parse_addr (trim_space raw))))) ` set values"
proof -
  from assms have v: "values \<noteq> []" and c: "canonical_loop values [] = Inr out" and n: "length out \<le> 16"
    by (auto simp: canonical_source_addresses_def split: if_splits sum.splits)
  note r = canonical_loop_result [OF c]
  then have ne: "out \<noteq> []" using v by auto
  have "CHR '','' \<notin> set p" if "p \<in> set out" for p using r that host_prefix_no_comma by auto
  with ne have "split_on CHR '','' (join_with '','' out) = out" using split_on_join [of out "CHR '',''"] by simp
  with r n ne show ?thesis by (cases out) auto
qed

section \<open>What a certificate says\<close>

lemma ss_signD:
  assumes "ss_sign lib s now draws req = Some (Inr (resp, cert))"
  obtains key serial where "sign_checks lib s now req = Inr key" and "serial \<noteq> 0"
    and "sign_with_serial lib s now req key serial = Inr (resp, cert)"
proof -
  from assms obtain key serial where "sign_checks lib s now req = Inr key" and r: "random_serial draws 0 = Some (Inr serial)"
    and "sign_with_serial lib s now req key serial = Inr (resp, cert)"
    by (auto simp: ss_sign_def split: sum.splits option.splits)
  moreover have "serial \<noteq> 0" using random_serial_nonzero [OF r] by simp
  ultimately show thesis using that by blast
qed

lemma sign_checksD:
  assumes "sign_checks lib s now req = Inr key"
  shows "safe_id (trim_space (sr_job_id req))" "safe_id (trim_space (sr_grant_id req))" "safe_id (trim_space (sr_target req))"
    and "validate_sha256 (normal_binding (sr_command_sha256 req)) = None"
    and "parse_ephemeral_public_key lib (sr_public_key req) = Inr key"
    and "now < sr_not_after req" and "unix now < unix (validity_end s now (sr_not_after req))"
  using assms by (auto simp: sign_checks_def Let_def split: if_splits option.splits sum.splits)

lemma sign_with_serialD:
  assumes "sign_with_serial lib s now req key serial = Inr (resp, cert)"
  shows "cert = build_certificate s key serial (sn_key_id resp) (sn_force_command resp) (sn_valid_after resp) (sn_valid_before resp)"
    and "sn_valid_before resp = validity_end s now (sr_not_after req)" and "sn_valid_after resp = now - sv_backdate s"
    and "sn_force_command resp = force_command_of s (trim_space (sr_job_id req)) (normal_binding (sr_command_sha256 req))"
    and "sn_key_id resp = key_id_of (trim_space (sr_job_id req)) (trim_space (sr_grant_id req)) (trim_space (sr_target req))"
    and "sn_serial resp = serial"
  using assms by (auto simp: sign_with_serial_def Let_def split: option.splits)

lemma ss_newD:
  assumes "ss_new ca policy = Inr s"
  shows "10 * go_second \<le> sv_ttl s" "sv_ttl s \<le> 120 * go_second" "0 \<le> sv_backdate s" "sv_backdate s \<le> 15 * go_second"
    and "list_all path_char (sv_wrapper_path s)" "safe_id (sv_principal s)"
    and "canonical_source_addresses (sg_source_addresses policy) = Inr (sv_source_addresses s)"
  using assms
  by (auto simp: ss_new_def validate_wrapper_path_def Let_def split: option.splits if_splits sum.splits)

lemma unix_mono: "t \<le> u \<Longrightarrow> unix t \<le> unix u"
  by (simp add: unix_def go_second_def zdiv_mono1)

lemma unix_add: "unix (t + n * go_second) = unix t + n"
  by (simp add: unix_def go_second_def)

lemma uint_unix: "0 \<le> x \<Longrightarrow> x < 2 ^ 64 \<Longrightarrow> uint (word_of_int x :: 64 word) = x"
  by (simp add: uint_word_of_int take_bit_int_eq_self)

lemma certificate_window:
  assumes "ss_new ca policy = Inr s" and "sign_checks lib s now req = Inr key"
    and "sign_with_serial lib s now req key serial = Inr (resp, cert)" and "15 \<le> unix now" and "unix now < 2 ^ 62"
  shows "unix now < unix (sn_valid_before resp)" "unix (sn_valid_before resp) \<le> unix now + 120"
    and "unix (sn_valid_before resp) \<le> unix (sr_not_after req)"
    and "unix now - 15 \<le> unix (sn_valid_after resp)" "unix (sn_valid_after resp) \<le> unix now"
    and "uint (cf_valid_before cert) = unix (sn_valid_before resp)" "uint (cf_valid_after cert) = unix (sn_valid_after resp)"
proof -
  note k = sign_checksD [OF assms(2)] and r = sign_with_serialD [OF assms(3)] and n = ss_newD [OF assms(1)]
  show vb: "unix now < unix (sn_valid_before resp)" using k(7) r(2) by simp
  have "sn_valid_before resp \<le> now + 120 * go_second" using r(2) n(2) by (simp add: validity_end_def)
  from unix_mono [OF this] show b: "unix (sn_valid_before resp) \<le> unix now + 120" by (simp add: unix_add)
  show "unix (sn_valid_before resp) \<le> unix (sr_not_after req)"
    using r(2) by (auto simp: validity_end_def intro: unix_mono)
  have "unix (now + (-15) * go_second) \<le> unix (sn_valid_after resp)" using r(3) n(4) by (intro unix_mono) simp
  then show va: "unix now - 15 \<le> unix (sn_valid_after resp)" using unix_add [of now "-15"] by simp
  show va': "unix (sn_valid_after resp) \<le> unix now" using r(3) n(3) by (intro unix_mono) simp
  show "uint (cf_valid_before cert) = unix (sn_valid_before resp)" "uint (cf_valid_after cert) = unix (sn_valid_after resp)"
    using vb b va va' assms(4,5) unfolding r(1) by (simp_all add: build_certificate_def uint_unix)
qed

text \<open>
  C33. A certificate that the signer issues is a user certificate for one principal, without extensions, with a serial number that is not
  zero; in the certificate's own unsigned seconds it is not yet over when it is signed, ends within two minutes and no later than the
  request allows, and starts at most fifteen seconds early; its options are the forced command and the source addresses of the policy.
\<close>
theorem certificate_bounds:
  assumes "ss_new ca policy = Inr s" and "ss_sign lib s now draws req = Some (Inr (resp, cert))"
    and "15 \<le> unix now" and "unix now < 2 ^ 62"
  shows "cf_user_cert cert \<and> cf_principals cert = [trim_space (sg_principal policy)] \<and> cf_extensions cert = [] \<and> cf_serial cert \<noteq> 0 \<and>
    unix now < uint (cf_valid_before cert) \<and> uint (cf_valid_before cert) \<le> unix now + 120 \<and>
    uint (cf_valid_before cert) \<le> unix (sr_not_after req) \<and>
    unix now - 15 \<le> uint (cf_valid_after cert) \<and> uint (cf_valid_after cert) \<le> unix now \<and>
    map_of (cf_critical_options cert) ''force-command'' = Some (sn_force_command resp) \<and>
    map_of (cf_critical_options cert) ''source-address'' = Some (join_with '','' (sv_source_addresses s)) \<and>
    length (cf_critical_options cert) = 2"
proof -
  obtain key serial where c: "sign_checks lib s now req = Inr key" and z: "serial \<noteq> 0"
    and w: "sign_with_serial lib s now req key serial = Inr (resp, cert)"
    by (rule ss_signD [OF assms(2)])
  note r = sign_with_serialD [OF w] and v = certificate_window [OF assms(1) c w assms(3,4)]
  have p: "sv_principal s = trim_space (sg_principal policy)"
    using assms(1) by (auto simp: ss_new_def split: option.splits if_splits sum.splits)
  from v(1-5) z p show ?thesis unfolding v(6,7) by (simp add: r(1) build_certificate_def)
qed

section \<open>The forced command\<close>

definition shell_inert :: "char \<Rightarrow> bool" where
  "shell_inert c \<longleftrightarrow> id_char c \<or> c = CHR ''/''"

lemma path_char_inert: "path_char c \<Longrightarrow> shell_inert c"
  by (auto simp: path_char_def shell_inert_def id_char_def Let_def)

lemma hex_decode_hex: "hex_decode s = Some t \<Longrightarrow> list_all is_hex s"
proof (induction s arbitrary: t rule: hex_decode.induct)
  case (3 a b s)
  from 3(2) obtain x y u where "hex_value a = Some x" "hex_value b = Some y" "hex_decode s = Some u"
    by (auto split: option.splits)
  with 3(1) show ?case by (simp add: is_hex_def)
qed simp_all

lemma hex_id_char: "is_hex c \<Longrightarrow> id_char c"
  by (auto simp: is_hex_def hex_value_def id_char_def Let_def split: if_splits)

lemma inert_no_space: "list_all shell_inert s \<Longrightarrow> CHR '' '' \<notin> set s"
  by (auto simp: list_all_iff shell_inert_def id_char_def)

lemma force_words:
  assumes "ss_new ca policy = Inr s" and "ss_sign lib s now draws req = Some (Inr (resp, cert))"
  shows "split_on CHR '' '' (sn_force_command resp)
      = [sv_wrapper_path s, ''--job'', trim_space (sr_job_id req), ''--binding'', normal_binding (sr_command_sha256 req)] \<and>
    list_all (list_all shell_inert) (split_on CHR '' '' (sn_force_command resp))"
proof -
  obtain key serial where c: "sign_checks lib s now req = Inr key"
    and w: "sign_with_serial lib s now req key serial = Inr (resp, cert)"
    by (rule ss_signD [OF assms(2)])
  let ?j = "trim_space (sr_job_id req)" and ?b = "normal_binding (sr_command_sha256 req)"
  have "list_all shell_inert (sv_wrapper_path s)" using ss_newD(5) [OF assms(1)] path_char_inert by (auto simp: list_all_iff)
  moreover have "list_all shell_inert ?j" using sign_checksD(1) [OF c] by (auto simp: safe_id_def shell_inert_def list_all_iff)
  moreover obtain d where "hex_decode ?b = Some d"
    using sign_checksD(4) [OF c] by (auto simp: validate_sha256_def split: if_splits option.splits)
  then have "list_all shell_inert ?b" using hex_decode_hex hex_id_char by (fastforce simp: shell_inert_def list_all_iff)
  moreover have "list_all shell_inert ''--job''" "list_all shell_inert ''--binding''" by (simp_all add: shell_inert_def id_char_def)
  ultimately have all: "list_all (list_all shell_inert) [sv_wrapper_path s, ''--job'', ?j, ''--binding'', ?b]"
    by simp
  have "sn_force_command resp = join_with '' '' [sv_wrapper_path s, ''--job'', ?j, ''--binding'', ?b]"
    using sign_with_serialD(4) [OF w] by (simp add: force_command_of_def)
  then have "split_on CHR '' '' (sn_force_command resp) = [sv_wrapper_path s, ''--job'', ?j, ''--binding'', ?b]"
    using split_on_join [of "[sv_wrapper_path s, ''--job'', ?j, ''--binding'', ?b]" "CHR '' ''"] all inert_no_space
    by (auto simp: list_all_iff)
  with all show ?thesis by simp
qed

text \<open>
  The forced command of a certificate is five words - the configured wrapper, \<open>--job\<close>, the job's ID, \<open>--binding\<close> and the digest, in lower
  case - of characters that no shell interprets, so the wrapper on the target receives exactly the job ID and the digest that were
  signed.
\<close>
theorem force_command_words:
  assumes "ss_new ca policy = Inr s" and "ss_sign lib s now draws req = Some (Inr (resp, cert))"
  shows "split_on CHR '' '' (sn_force_command resp)
      = [sv_wrapper_path s, ''--job'', trim_space (sr_job_id req), ''--binding'', normal_binding (sr_command_sha256 req)] \<and>
    list_all (list_all shell_inert) (split_on CHR '' '' (sn_force_command resp))"
  by (rule force_words [OF assms])

section \<open>A concrete signer\<close>

definition demo_key_blob :: pub_key where
  "demo_key_blob = \<lparr>pk_type = key_algo_ed25519, pk_is_cert = False, pk_blob = ''key''\<rparr>"

definition demo_lib :: ssh_lib where
  "demo_lib = \<lparr>lib_parse_authorized_key = (\<lambda>_. Some (demo_key_blob, [], [])), lib_sign_cert = (\<lambda>_. Some ''cert''),
     lib_marshal_authorized_key = (\<lambda>k. pk_type k @ '' '' @ pk_blob k @ [CHR 0x0A]),
     lib_fingerprint_key = (\<lambda>_. ''SHA256:k''), lib_fingerprint_cert = (\<lambda>_. ''SHA256:c'')\<rparr>"

definition demo_policy :: signer_policy where
  "demo_policy = \<lparr>sg_principal = ''sentinel-ai'', sg_wrapper_path = ''/usr/local/libexec/tethys-sentinel-exec'',
     sg_source_addresses = [''192.0.2.50'', '' ::ffff:192.0.2.50'', ''2001:db8::1''], sg_certificate_ttl = 20000000000, sg_backdate = 2000000000\<rparr>"

definition demo_service :: signer_service where
  "demo_service = \<lparr>sv_ca = demo_key_blob, sv_principal = ''sentinel-ai'', sv_wrapper_path = ''/usr/local/libexec/tethys-sentinel-exec'',
     sv_source_addresses = [''192.0.2.50/32'', ''2001:db8::1/128''], sv_ttl = 20000000000, sv_backdate = 2000000000\<rparr>"

definition demo_now :: time where "demo_now = 63835596800000000000"

definition demo_draws :: "nat \<Rightarrow> string option" where
  "demo_draws n = Some (replicate 7 (CHR 0x00) @ [if n = 0 then CHR 0x00 else CHR 0x01])"

definition demo_sign_request :: sign_request where
  "demo_sign_request = \<lparr>sr_job_id = ''job-00000001'', sr_grant_id = ''grant-1'', sr_target = ''dns01'',
     sr_command_sha256 = replicate 64 (CHR ''A''), sr_public_key = ''ssh-ed25519 AAAA'', sr_not_after = demo_now + 30000000000\<rparr>"

lemma demo_new: "ss_new (Some demo_key_blob) demo_policy = Inr demo_service"
  by code_simp

lemma demo_serial: "random_serial demo_draws 0 = Some (Inr 1)"
proof -
  have "be_uint64 (replicate 7 (CHR 0x00) @ [CHR 0x00]) = 0" "be_uint64 (replicate 7 (CHR 0x00) @ [CHR 0x01]) = 1"
    by code_simp+
  then show ?thesis
    unfolding random_serial.simps [of demo_draws 0] random_serial.simps [of demo_draws "Suc 0"] by (simp add: demo_draws_def)
qed

lemma demo_checks: "sign_checks demo_lib demo_service demo_now demo_sign_request = Inr demo_key_blob"
  by code_simp

lemma demo_signs: "\<exists>resp cert. ss_sign demo_lib demo_service demo_now demo_draws demo_sign_request = Some (Inr (resp, cert))"
proof -
  have "lib_sign_cert demo_lib c = Some ''cert''" for c by (simp add: demo_lib_def)
  then show ?thesis by (simp add: ss_sign_def demo_checks demo_serial sign_with_serial_def Let_def)
qed

theorem source_addresses_exact_witness:
  "canonical_source_addresses (sg_source_addresses demo_policy) = Inr [''192.0.2.50/32'', ''2001:db8::1/128''] \<and>
   split_on CHR '','' ''192.0.2.50/32,2001:db8::1/128'' = [''192.0.2.50/32'', ''2001:db8::1/128'']"
proof -
  have c: "canonical_source_addresses (sg_source_addresses demo_policy) = Inr [''192.0.2.50/32'', ''2001:db8::1/128'']" by code_simp
  with source_addresses_exact [OF c] show ?thesis by simp
qed

theorem certificate_bounds_witness:
  "\<exists>resp cert. ss_sign demo_lib demo_service demo_now demo_draws demo_sign_request = Some (Inr (resp, cert)) \<and>
     1700000000 < uint (cf_valid_before cert) \<and> uint (cf_valid_before cert) \<le> 1700000030"
proof -
  obtain resp cert where s: "ss_sign demo_lib demo_service demo_now demo_draws demo_sign_request = Some (Inr (resp, cert))"
    using demo_signs by blast
  have u: "unix demo_now = 1700000000" "unix (sr_not_after demo_sign_request) = 1700000030" by code_simp+
  with certificate_bounds [OF demo_new s] s show ?thesis by auto
qed

theorem force_command_words_witness:
  "\<exists>resp cert. ss_sign demo_lib demo_service demo_now demo_draws demo_sign_request = Some (Inr (resp, cert)) \<and>
     split_on CHR '' '' (sn_force_command resp)
       = [''/usr/local/libexec/tethys-sentinel-exec'', ''--job'', ''job-00000001'', ''--binding'', replicate 64 (CHR ''a'')]"
proof -
  obtain resp cert where s: "ss_sign demo_lib demo_service demo_now demo_draws demo_sign_request = Some (Inr (resp, cert))"
    using demo_signs by blast
  have "normal_binding (sr_command_sha256 demo_sign_request) = replicate 64 (CHR ''a'')"
    "trim_space (sr_job_id demo_sign_request) = ''job-00000001''"
    "sv_wrapper_path demo_service = ''/usr/local/libexec/tethys-sentinel-exec''" by code_simp+
  with force_command_words [OF demo_new s] s show ?thesis by auto
qed

end
