(* ===== verification/Ssh_Target.thy ===== *)
theory Ssh_Target
  imports Ssh_Signer
begin

text \<open>
  The inventory of SSH targets (\<open>internal/sshtarget\<close>): the operator's file of targets, each with a literal address, a user and a
  pinned host key, validated and made canonical when it is loaded, and looked up by name.
\<close>

section \<open>Data\<close>

record target_spec =
  ts_name :: string
  ts_address :: string
  ts_user :: string
  ts_host_key :: string

type_synonym target_store = "(string \<times> target_spec) list"

section \<open>Validation\<close>

definition user_start :: "char \<Rightarrow> bool" where
  "user_start c \<longleftrightarrow> (let n = of_char c :: nat in (0x61 \<le> n \<and> n \<le> 0x7A) \<or> (0x41 \<le> n \<and> n \<le> 0x5A) \<or> c = CHR 0x5F)"

definition user_char :: "char \<Rightarrow> bool" where
  "user_char c \<longleftrightarrow> (let n = of_char c :: nat in
     (0x61 \<le> n \<and> n \<le> 0x7A) \<or> (0x41 \<le> n \<and> n \<le> 0x5A) \<or> (0x30 \<le> n \<and> n \<le> 0x39) \<or> c \<in> set ''._-'')"

definition safe_user :: "string \<Rightarrow> bool" where
  "safe_user value \<longleftrightarrow> \<not> (length value < 1 \<or> 64 < length value) \<and> user_start (hd value) \<and> list_all user_char (tl value)"

text \<open>\<open>net.ParseIP\<close>: an address without a zone; an IPv4-mapped address is its IPv4 address.\<close>

definition net_parse_ip :: "string \<Rightarrow> ip_addr option" where
  "net_parse_ip s =
     (case parse_addr s of
        None \<Rightarrow> None
      | Some a \<Rightarrow> if addr_zone a \<noteq> [] then None else Some (addr_unmap a))"

definition pinned_host_key :: "ssh_lib \<Rightarrow> string \<Rightarrow> err + string" where
  "pinned_host_key lib host_key =
     (case lib_parse_authorized_key lib (host_key @ [CHR 0x0A]) of
        None \<Rightarrow> Inl (Err_Msg ''SSH target host key'')
      | Some (key, options, rest) \<Rightarrow>
          if options \<noteq> [] \<or> trim_space rest \<noteq> [] then Inl (Err_Msg ''SSH target host key must be one bare public key'')
          else if pk_is_cert key then Inl (Err_Msg ''SSH target host key must be a raw pinned host key, not a certificate'')
          else Inr (trim_space (lib_marshal_authorized_key lib key)))"

definition validate_target :: "ssh_lib \<Rightarrow> target_spec \<Rightarrow> err + target_spec" where
  "validate_target lib raw =
     (let name = trim_space (ts_name raw); address = trim_space (ts_address raw); user = trim_space (ts_user raw);
          host_key = trim_space (ts_host_key raw) in
      if \<not> safe_id name then Inl (Err_Msg ''invalid SSH target name'')
      else if \<not> safe_user user then Inl (Err_Msg ''invalid SSH target user'')
      else case split_host_port address of
        None \<Rightarrow> Inl (Err_Msg ''SSH target address must be literal-ip:port'')
      | Some (host, port_text) \<Rightarrow>
          if trim_space host = [] then Inl (Err_Msg ''SSH target address must be literal-ip:port'')
          else (case net_parse_ip (trim_space host) of
            None \<Rightarrow> Inl (Err_Msg ''SSH target address must use a global-unicast literal IP'')
          | Some ip \<Rightarrow>
              if \<not> is_global_unicast ip then Inl (Err_Msg ''SSH target address must use a global-unicast literal IP'')
              else (case atoi port_text of
                None \<Rightarrow> Inl (Err_Msg ''SSH target has invalid port'')
              | Some port \<Rightarrow>
                  if port < 1 \<or> 65535 < port then Inl (Err_Msg ''SSH target has invalid port'')
                  else (case pinned_host_key lib host_key of
                    Inl e \<Rightarrow> Inl e
                  | Inr key \<Rightarrow>
                      Inr \<lparr>ts_name = name, ts_address = join_host_port (addr_string ip) (dec_int port), ts_user = user,
                        ts_host_key = key\<rparr>))))"

section \<open>The store\<close>

fun load_targets :: "ssh_lib \<Rightarrow> target_spec list \<Rightarrow> target_store \<Rightarrow> err + target_store" where
  "load_targets lib [] st = Inr st"
| "load_targets lib (raw # raws) st =
     (case validate_target lib raw of
        Inl e \<Rightarrow> Inl e
      | Inr spec \<Rightarrow>
          if map_of st (ts_name spec) \<noteq> None then Inl (Err_Msg ''duplicate SSH target'')
          else load_targets lib raws (AList.update (ts_name spec) spec st))"

definition new_static :: "ssh_lib \<Rightarrow> target_spec list \<Rightarrow> err + target_store" where
  "new_static lib specs =
     (case load_targets lib specs [] of
        Inl e \<Rightarrow> Inl e
      | Inr st \<Rightarrow> if st = [] then Inl (Err_Msg ''SSH target store requires at least one target'') else Inr st)"

text \<open>\<open>Open\<close>, with what the JSON decoder makes of the file's text as an argument.\<close>

definition open_targets :: "ssh_lib \<Rightarrow> (string \<Rightarrow> err + target_spec list) \<Rightarrow> string \<Rightarrow> host \<Rightarrow> err + target_store" where
  "open_targets lib decode path0 h =
     (let path = trim_space path0 in
      if path = [] then Inl (Err_Msg ''SSH target store path is empty'')
      else case h_stat h path of
        None \<Rightarrow> Inl Err_IO
      | Some info \<Rightarrow>
          if \<not> fi_regular info then Inl (Err_Msg ''SSH target store must be a regular file'')
          else if fi_perm info AND 0x12 \<noteq> 0 then Inl (Err_Msg ''SSH target store must not be group/other writable'')
          else case h_read h path of
            None \<Rightarrow> Inl Err_IO
          | Some data \<Rightarrow> (case decode data of Inl e \<Rightarrow> Inl e | Inr specs \<Rightarrow> new_static lib specs))"

definition resolve_target :: "target_store option \<Rightarrow> string \<Rightarrow> err + target_spec" where
  "resolve_target st name0 =
     (case st of
        None \<Rightarrow> Inl (Err_Msg ''SSH target resolver is not initialized'')
      | Some s \<Rightarrow>
          (case map_of s (trim_space name0) of
             None \<Rightarrow> Inl (Err_Msg ''SSH target is not configured'')
           | Some spec \<Rightarrow> Inr spec))"

definition list_targets :: "target_store option \<Rightarrow> target_spec list" where
  "list_targets st =
     (case st of None \<Rightarrow> [] | Some s \<Rightarrow> sort_by (\<lambda>a b. str_less (ts_name a) (ts_name b)) (map snd s))"

section \<open>Well-formed targets\<close>

definition target_ok :: "target_spec \<Rightarrow> bool" where
  "target_ok t \<longleftrightarrow> safe_id (ts_name t) \<and> safe_user (ts_user t) \<and>
     (\<exists>ip port. is_global_unicast ip \<and> addr_zone ip = [] \<and> 1 \<le> port \<and> port \<le> 65535 \<and>
        ts_address t = join_host_port (addr_string ip) (dec_int port))"

definition targets_ok :: "target_store \<Rightarrow> bool" where
  "targets_ok st \<longleftrightarrow> unique_keys st \<and> (\<forall>n t. map_of st n = Some t \<longrightarrow> ts_name t = n \<and> target_ok t)"

lemma zone_unmap: "addr_zone a = [] \<Longrightarrow> addr_zone (addr_unmap a) = []"
  by (cases a) auto

lemma net_parse_ip_zone: "net_parse_ip s = Some a \<Longrightarrow> addr_zone a = []"
  by (auto simp: net_parse_ip_def zone_unmap split: option.splits if_splits)

lemma validate_target_ok:
  assumes "validate_target lib raw = Inr t"
  shows "target_ok t"
proof -
  obtain host port_text ip port key where "safe_id (trim_space (ts_name raw))" "safe_user (trim_space (ts_user raw))"
    and p: "net_parse_ip (trim_space host) = Some ip" and g: "is_global_unicast ip" "1 \<le> port" "port \<le> 65535"
    and t: "t = \<lparr>ts_name = trim_space (ts_name raw), ts_address = join_host_port (addr_string ip) (dec_int port),
      ts_user = trim_space (ts_user raw), ts_host_key = key\<rparr>"
    using assms by (auto simp: validate_target_def Let_def not_less split: if_splits option.splits sum.splits)
  with net_parse_ip_zone [OF p] show ?thesis by (auto simp: target_ok_def)
qed

lemma load_targets_ok: "load_targets lib raws st = Inr st' \<Longrightarrow> targets_ok st \<Longrightarrow> targets_ok st'"
proof (induction raws arbitrary: st)
  case (Cons raw raws)
  then obtain t where v: "validate_target lib raw = Inr t" and l: "load_targets lib raws (AList.update (ts_name t) t st) = Inr st'"
    by (auto split: sum.splits if_splits)
  have "targets_ok (AList.update (ts_name t) t st)"
    using Cons.prems(2) validate_target_ok [OF v] by (auto simp: targets_ok_def)
  with Cons.IH [OF l] show ?case .
qed simp

lemma new_static_ok: "new_static lib specs = Inr st \<Longrightarrow> targets_ok st"
  by (auto simp: new_static_def targets_ok_def dest!: load_targets_ok split: sum.splits if_splits)

text \<open>
  C34. Every target that an opened inventory resolves is well-formed: it has the name that was asked for, a safe user, and a literal
  global-unicast address without a zone and a port between 1 and 65535, in canonical text; names are unique.
\<close>
theorem resolved_target_wellformed:
  assumes "new_static lib specs = Inr st" and "resolve_target (Some st) name = Inr t"
  shows "ts_name t = trim_space name \<and> target_ok t \<and> unique_keys st \<and> t \<in> set (list_targets (Some st))"
proof -
  have m: "map_of st (trim_space name) = Some t" using assms(2) by (auto simp: resolve_target_def split: option.splits)
  then have "t \<in> snd ` set st" by (force dest: map_of_SomeD)
  with m new_static_ok [OF assms(1)] show ?thesis by (auto simp: targets_ok_def list_targets_def)
qed

definition demo_specs :: "target_spec list" where
  "demo_specs = [\<lparr>ts_name = ''dns01 '', ts_address = ''192.0.2.53:+22'', ts_user = ''sentinel-ai'', ts_host_key = ''ssh-ed25519 AAAA''\<rparr>]"

definition demo_target :: target_spec where
  "demo_target = \<lparr>ts_name = ''dns01'', ts_address = ''192.0.2.53:22'', ts_user = ''sentinel-ai'', ts_host_key = ''ssh-ed25519 key''\<rparr>"

lemma demo_targets: "new_static demo_lib demo_specs = Inr [(''dns01'', demo_target)]"
  by code_simp

theorem resolved_target_wellformed_witness: "target_ok demo_target \<and> ts_name demo_target = trim_space '' dns01''"
proof -
  have "resolve_target (Some [(''dns01'', demo_target)]) '' dns01'' = Inr demo_target" by code_simp
  from resolved_target_wellformed [OF demo_targets this] show ?thesis by blast
qed

end
