(* ===== verification/Credential.thy ===== *)
theory Credential
  imports Control_Limits Ssh_Target
begin

text \<open>
  The credential API (\<open>internal/credentialapi\<close>), which gives a worker a certificate for the job it runs, and the signer's own API
  (\<open>internal/signerapi\<close>) in front of \<open>Ssh_Signer\<close>. The last section puts the chain together: what a process started on a target by a
  certificate is, from the job's authorization to its argv.
\<close>

section \<open>The signer's API\<close>

definition signer_api_new :: "signer_service option \<Rightarrow> string \<Rightarrow> err + signer_service \<times> string" where
  "signer_api_new signer token =
     (case signer of
        None \<Rightarrow> Inl (Err_Msg ''SSH signer service is required'')
      | Some s \<Rightarrow>
          if length token < 32 then Inl (Err_Msg ''signer API token must be at least 32 characters'') else Inr (s, sha256 token))"

text \<open>The request body is what the decoder makes of it; \<open>None\<close> is a signer that does not return.\<close>

definition signer_api_sign ::
    "ssh_lib \<Rightarrow> signer_service \<times> string \<Rightarrow> time \<Rightarrow> (nat \<Rightarrow> string option) \<Rightarrow> string \<Rightarrow> string + sign_request \<Rightarrow> sign_response reply option" where
  "signer_api_sign lib api now draws header body =
     (case bearer header of
        None \<Rightarrow> Some (Reply_Error 401 ''signer authentication required'')
      | Some token \<Rightarrow>
          if sha256 token \<noteq> snd api then Some (Reply_Error 401 ''signer authentication required'')
          else case body of
            Inl message \<Rightarrow> Some (Reply_Error 400 message)
          | Inr req \<Rightarrow>
              map_option (\<lambda>r. case r of Inl _ \<Rightarrow> Reply_Error 422 ''certificate request rejected'' | Inr (resp, _) \<Rightarrow> Reply 200 resp)
                (ss_sign lib (fst api) now draws req))"

section \<open>Issuing a certificate\<close>

record cert_request =
  cq_worker_id :: string
  cq_claim_token :: string
  cq_public_key :: string

record cert_response =
  cr_job :: job
  cr_certificate :: sign_response
  cr_target :: target_spec

definition reject_certificate ::
    "env \<Rightarrow> string \<Rightarrow> string \<Rightarrow> job \<Rightarrow> string \<Rightarrow> string \<Rightarrow> nat \<Rightarrow> string \<Rightarrow> control \<Rightarrow> control \<times> cert_response reply" where
  "reject_certificate env worker tok j kind reason status message c =
     (fst (co_append env 0 (job_event ''ssh.certificate_rejected'' worker ''deny'' reason j []) (co_reject env (j_id j) tok kind c)),
      Reply_Error status message)"

definition certificate_issued_event :: "string \<Rightarrow> job \<Rightarrow> sign_response \<Rightarrow> target_spec \<Rightarrow> audit_input" where
  "certificate_issued_event worker j cert target = job_event ''ssh.certificate_issued'' worker ''allow'' [] j
     [(''command_sha256'', j_command_sha256 j), (''serial'', dec_nat (unat (sn_serial cert))),
      (''ca_fingerprint'', sn_ca_fingerprint cert), (''certificate_fingerprint'', sn_certificate_fingerprint cert),
      (''public_key_fingerprint'', sn_public_key_fingerprint cert), (''valid_before'', rfc3339_nano (sn_valid_before cert)),
      (''ssh_address'', ts_address target), (''ssh_user'', ts_user target)]"

definition sign_request_of :: "job \<Rightarrow> string \<Rightarrow> sign_request" where
  "sign_request_of j public_key = \<lparr>sr_job_id = j_id j, sr_grant_id = j_grant_id j, sr_target = j_target j,
     sr_command_sha256 = j_command_sha256 j, sr_public_key = public_key, sr_not_after = j_expires_at j\<rparr>"

text \<open>After the claim has been validated: the checks of the job, the grant and the target, the signer, the audit log.\<close>

definition issue_for_job ::
    "env \<Rightarrow> (sign_request \<Rightarrow> err + sign_response) \<Rightarrow> target_store option \<Rightarrow> string \<Rightarrow> string \<Rightarrow> string \<Rightarrow> job \<Rightarrow> control
     \<Rightarrow> control \<times> cert_response reply" where
  "issue_for_job env signer targets worker tok public_key j c =
     (if \<not> verify_binding j then
        (co_reject env (j_id j) tok ''command_binding_invalid_before_ssh_certificate'' c,
         Reply_Error 409 ''SSH certificate issuance rejected'')
      else
      (let r = classify (j_argv j) in
       if r_decision r = Deny \<or> r_category r \<noteq> j_risk_category j \<or> r_scope_key r \<noteq> j_scope_key j then
         reject_certificate env worker tok j ''risk_policy_changed_before_ssh_certificate''
           ''current risk policy no longer matches the immutable execution job'' 409
           ''SSH certificate issuance rejected because execution policy changed'' c
       else
       (case cap_authenticate_id (auth_service (ct_auth c)) (j_grant_id j) (e_clock env 0) of
          Inl _ \<Rightarrow>
            reject_certificate env worker tok j ''grant_inactive_before_ssh_certificate''
              ''grant inactive before SSH certificate issuance'' 409 ''SSH certificate issuance rejected'' c
        | Inr g \<Rightarrow>
          if requires_shell r \<and> \<not> perm_shell (g_permissions g) then
            reject_certificate env worker tok j ''shell_permission_required_before_ssh_certificate''
              ''powerful execution class requires explicit shell capability'' 409
              ''SSH certificate issuance rejected because shell capability is not granted'' c
          else
          (case resolve_target targets (j_target j) of
             Inl _ \<Rightarrow>
               reject_certificate env worker tok j ''ssh_target_resolution_failed''
                 ''operator-owned SSH target resolution failed'' 503 ''SSH target is not configured for execution'' c
           | Inr target \<Rightarrow>
             if ts_name target \<noteq> j_target j then
               reject_certificate env worker tok j ''ssh_target_identity_mismatch''
                 ''resolved SSH target identity does not match job target'' 503 ''SSH target configuration is inconsistent'' c
             else
             (case signer (sign_request_of j public_key) of
                Inl _ \<Rightarrow>
                  reject_certificate env worker tok j ''ssh_signer_rejected_request''
                    ''SSH signer rejected certificate request'' 502 ''SSH certificate signer rejected request'' c
              | Inr cert \<Rightarrow>
                (case co_append env 0 (certificate_issued_event worker j cert target) c of
                   (c1, Inl _) \<Rightarrow>
                     (co_reject env (j_id j) tok ''audit_failure_after_ssh_certificate'' c1,
                      Reply_Error 500 ''SSH certificate withheld because audit append failed'')
                 | (c1, Inr _) \<Rightarrow> (c1, Reply 200 \<lparr>cr_job = j, cr_certificate = cert, cr_target = target\<rparr>)))))))"

definition issue_certificate ::
    "env \<Rightarrow> (sign_request \<Rightarrow> err + sign_response) \<Rightarrow> target_store option \<Rightarrow> string \<Rightarrow> string + cert_request \<Rightarrow> control
     \<Rightarrow> control \<times> cert_response reply" where
  "issue_certificate env signer targets i body c =
     (case body of
        Inl message \<Rightarrow> (c, Reply_Error 400 message)
      | Inr req \<Rightarrow>
        (let worker = trim_space (cq_worker_id req); tok = trim_space (cq_claim_token req); public_key = trim_space (cq_public_key req) in
         if worker = [] \<or> 128 < length worker \<or> tok = [] \<or> public_key = [] then
           (c, Reply_Error 400 ''worker_id, claim_token and public_key are required'')
         else if 16384 < length public_key then (c, Reply_Error 400 ''public_key is too large'')
         else
         (case ej_validate_running_claim i tok (e_clock env 2) (ct_jobs c) of
            Inl e \<Rightarrow>
              (if e = Err_JobExpired then co_reject env i tok ''job_expired_before_ssh_certificate'' c else c,
               Reply_Error 409 ''SSH certificate issuance rejected'')
          | Inr j \<Rightarrow> issue_for_job env signer targets worker tok public_key j c)))"

definition credential_api ::
    "string \<Rightarrow> string \<Rightarrow> env \<Rightarrow> (sign_request \<Rightarrow> err + sign_response) \<Rightarrow> target_store option \<Rightarrow> string \<Rightarrow> string + cert_request \<Rightarrow> control
     \<Rightarrow> control \<times> cert_response reply" where
  "credential_api worker_sha header env signer targets i body c =
     require_bearer_sha worker_sha ''worker authentication required'' header (issue_certificate env signer targets i body c) c"

section \<open>Runs with the credential API\<close>

lemma reject_certificate_acts: "co_act\<^sup>*\<^sup>* c (fst (reject_certificate env worker tok j kind reason status message c))"
  unfolding reject_certificate_def fst_conv by (rule rtranclp_trans [OF acts_reject acts_append])

lemma issue_for_job_acts: "co_act\<^sup>*\<^sup>* c (fst (issue_for_job env signer targets worker tok public_key j c))"
proof -
  have a: "co_act\<^sup>*\<^sup>* c (fst (case co_append env 0 inp c of
      (d, Inl e) \<Rightarrow> (co_reject env i tok k d, f d e) | (d, Inr y) \<Rightarrow> (d, g d y)))"
    for inp i tok k and f :: "control \<Rightarrow> err \<Rightarrow> cert_response reply" and g
  proof (rule acts_then)
    show "co_act\<^sup>*\<^sup>* c (fst (co_append env 0 inp c))" by (rule acts_append)
  qed (simp_all add: acts_reject)
  show ?thesis
    unfolding issue_for_job_def Let_def
    by (simp add: reject_certificate_acts acts_reject split: sum.split, intro allI impI) (rule a)
qed

lemma issue_certificate_acts: "co_act\<^sup>*\<^sup>* c (fst (issue_certificate env signer targets i body c))"
  unfolding issue_certificate_def Let_def by (simp add: issue_for_job_acts acts_reject split: sum.split)

inductive plane_step :: "control \<Rightarrow> control \<Rightarrow> bool" where
  control: "co_step c d \<Longrightarrow> plane_step c d"
| credential: "plane_step c (fst (credential_api worker_sha header env signer targets i body c))"

inductive_cases plane_stepE: "plane_step c d"

lemma plane_step_acts: "plane_step c d \<Longrightarrow> co_ok c \<Longrightarrow> co_act\<^sup>*\<^sup>* c d"
proof (elim plane_stepE)
  assume "co_step c d" and "co_ok c"
  then show ?thesis by (rule co_step_acts)
next
  fix worker_sha header env signer targets i body
  assume "d = fst (credential_api worker_sha header env signer targets i body c)"
  then show ?thesis
    by (simp add: credential_api_def require_bearer_sha_def issue_certificate_acts split: option.split)
qed

interpretation plane_run: stable_predicate plane_step co_ok
proof
  fix c d
  assume "plane_step c d" and "co_ok c"
  then show "co_ok d" using co_acts.steps_keep plane_step_acts by blast
qed

section \<open>What an issued certificate means\<close>

lemma snd_reject: "snd (reject_certificate env worker tok j kind reason status message c) = Reply_Error status message"
  by (simp add: reject_certificate_def)

lemma issue_for_job_success:
  assumes "issue_for_job env signer targets worker tok public_key j c = (d, Reply 200 resp)"
  obtains g ev where "verify_binding j" and "r_decision (classify (j_argv j)) \<noteq> Deny"
    and "r_category (classify (j_argv j)) = j_risk_category j" and "r_scope_key (classify (j_argv j)) = j_scope_key j"
    and "cap_authenticate_id (auth_service (ct_auth c)) (j_grant_id j) (e_clock env 0) = Inr g"
    and "requires_shell (classify (j_argv j)) \<longrightarrow> perm_shell (g_permissions g)"
    and "resolve_target targets (j_target j) = Inr (cr_target resp)" and "ts_name (cr_target resp) = j_target j"
    and "signer (sign_request_of j public_key) = Inr (cr_certificate resp)" and "cr_job resp = j"
    and "co_append env 0 (certificate_issued_event worker j (cr_certificate resp) (cr_target resp)) c = (d, Inr ev)"
proof -
  let ?r = "classify (j_argv j)"
  have e: "snd (issue_for_job env signer targets worker tok public_key j c) = Reply 200 resp" using assms by simp
  note u = issue_for_job_def Let_def
  have b: "verify_binding j" using e by (simp add: u split: if_splits)
  have r: "\<not> (r_decision ?r = Deny \<or> r_category ?r \<noteq> j_risk_category j \<or> r_scope_key ?r \<noteq> j_scope_key j)"
  proof
    assume "r_decision ?r = Deny \<or> r_category ?r \<noteq> j_risk_category j \<or> r_scope_key ?r \<noteq> j_scope_key j"
    with e b show False unfolding u by (simp only: if_True if_False not_True_eq_False snd_reject reply.distinct)
  qed
  obtain g where g: "cap_authenticate_id (auth_service (ct_auth c)) (j_grant_id j) (e_clock env 0) = Inr g"
    using e unfolding u by (cases "cap_authenticate_id (auth_service (ct_auth c)) (j_grant_id j) (e_clock env 0)")
      (simp_all only: b r simp_thms if_False not_True_eq_False sum.case snd_reject reply.distinct)
  note s1 = b r g simp_thms if_False not_True_eq_False sum.case snd_reject reply.distinct if_True
  have sh: "\<not> (requires_shell ?r \<and> \<not> perm_shell (g_permissions g))"
  proof
    assume "requires_shell ?r \<and> \<not> perm_shell (g_permissions g)"
    with e show False unfolding u by (simp only: s1)
  qed
  obtain t where t: "resolve_target targets (j_target j) = Inr t"
    using e unfolding u by (cases "resolve_target targets (j_target j)") (simp_all only: s1 sh)
  have tn: "ts_name t = j_target j"
  proof (rule ccontr)
    assume "ts_name t \<noteq> j_target j"
    with e show False unfolding u by (simp only: s1 sh t)
  qed
  obtain cert where s: "signer (sign_request_of j public_key) = Inr cert"
    using e unfolding u by (cases "signer (sign_request_of j public_key)") (simp_all only: s1 sh t tn)
  have "(case co_append env 0 (certificate_issued_event worker j cert t) c of
      (c1, Inl _) \<Rightarrow> (co_reject env (j_id j) tok ''audit_failure_after_ssh_certificate'' c1,
         Reply_Error 500 ''SSH certificate withheld because audit append failed'')
    | (c1, Inr _) \<Rightarrow> (c1, Reply 200 \<lparr>cr_job = j, cr_certificate = cert, cr_target = t\<rparr>)) = (d, Reply 200 resp)"
    using assms unfolding u by (simp only: s1 sh t tn s)
  then obtain ev where "co_append env 0 (certificate_issued_event worker j cert t) c = (d, Inr ev)"
    and "resp = \<lparr>cr_job = j, cr_certificate = cert, cr_target = t\<rparr>"
    by (auto split: prod.splits sum.splits)
  with that b r g sh t tn s show thesis by auto
qed

lemma issue_certificate_success:
  assumes "issue_certificate env signer targets i (Inr req) c = (d, Reply 200 resp)"
  shows "ej_validate_running_claim i (trim_space (cq_claim_token req)) (e_clock env 2) (ct_jobs c) = Inr (cr_job resp)"
    and "issue_for_job env signer targets (trim_space (cq_worker_id req)) (trim_space (cq_claim_token req))
      (trim_space (cq_public_key req)) (cr_job resp) c = (d, Reply 200 resp)"
proof -
  obtain j where j: "ej_validate_running_claim i (trim_space (cq_claim_token req)) (e_clock env 2) (ct_jobs c) = Inr j"
    and f: "issue_for_job env signer targets (trim_space (cq_worker_id req)) (trim_space (cq_claim_token req))
      (trim_space (cq_public_key req)) j c = (d, Reply 200 resp)"
    using assms by (auto simp: issue_certificate_def Let_def split: if_splits sum.splits)
  moreover have "cr_job resp = j" by (rule issue_for_job_success [OF f])
  ultimately show "ej_validate_running_claim i (trim_space (cq_claim_token req)) (e_clock env 2) (ct_jobs c) = Inr (cr_job resp)"
    "issue_for_job env signer targets (trim_space (cq_worker_id req)) (trim_space (cq_claim_token req))
      (trim_space (cq_public_key req)) (cr_job resp) c = (d, Reply 200 resp)" by simp_all
qed

text \<open>
  C4. A worker gets a certificate only for a job that runs under its claim and has not expired, whose command still has the digest and the risk
  class it was authorized with, whose grant is live and has the shell capability if the class needs it, and whose target is in the
  inventory; the signer was asked for exactly this job, its digest and its expiry, and the log holds the event. The jobs are unchanged.
\<close>
theorem certificate_needs_authority:
  assumes "au_wf (ct_auth c)" and "issue_certificate env signer targets i (Inr req) c = (d, Reply 200 resp)"
  shows "\<exists>r g ev. map_of (js_records (ct_jobs c)) i = Some r \<and> rec_job r = cr_job resp \<and> j_status (cr_job resp) = Running \<and>
    valid_claim_token r (trim_space (cq_claim_token req)) \<and> e_clock env 2 < j_expires_at (cr_job resp) \<and>
    verify_binding (cr_job resp) \<and> r_decision (classify (j_argv (cr_job resp))) \<noteq> Deny \<and>
    r_category (classify (j_argv (cr_job resp))) = j_risk_category (cr_job resp) \<and>
    r_scope_key (classify (j_argv (cr_job resp))) = j_scope_key (cr_job resp) \<and>
    gm_abs (au_store (ct_auth c)) (j_grant_id (cr_job resp)) = Some g \<and> grant_live (ct_auth c) g (e_clock env 0) \<and>
    (requires_shell (classify (j_argv (cr_job resp))) \<longrightarrow> perm_shell (g_permissions g)) \<and>
    resolve_target targets (j_target (cr_job resp)) = Inr (cr_target resp) \<and> ts_name (cr_target resp) = j_target (cr_job resp) \<and>
    signer (sign_request_of (cr_job resp) (trim_space (cq_public_key req))) = Inr (cr_certificate resp) \<and>
    ct_jobs d = ct_jobs c \<and> ev_kind ev = ''ssh.certificate_issued'' \<and> ev_grant_id ev = j_grant_id (cr_job resp) \<and>
    al_lines (ct_audit d) = add_line (whole_line ev) (al_lines (ct_audit c))"
proof -
  let ?j = "cr_job resp"
  note s = issue_certificate_success [OF assms(2)]
  obtain r where r: "map_of (js_records (ct_jobs c)) i = Some r" "rec_job r = ?j" "j_status ?j = Running"
    "valid_claim_token r (trim_space (cq_claim_token req))" "e_clock env 2 < j_expires_at ?j"
    using validate_running [OF s(1)] by blast
  obtain g ev where "cap_authenticate_id (auth_service (ct_auth c)) (j_grant_id ?j) (e_clock env 0) = Inr g"
    and a: "co_append env 0 (certificate_issued_event (trim_space (cq_worker_id req)) ?j (cr_certificate resp) (cr_target resp)) c = (d, Inr ev)"
    and f: "verify_binding ?j" "r_decision (classify (j_argv ?j)) \<noteq> Deny" "r_category (classify (j_argv ?j)) = j_risk_category ?j"
      "r_scope_key (classify (j_argv ?j)) = j_scope_key ?j" "requires_shell (classify (j_argv ?j)) \<longrightarrow> perm_shell (g_permissions g)"
      "resolve_target targets (j_target ?j) = Inr (cr_target resp)" "ts_name (cr_target resp) = j_target ?j"
      "signer (sign_request_of ?j (trim_space (cq_public_key req))) = Inr (cr_certificate resp)"
    by (rule issue_for_job_success [OF s(2)]) blast
  then have g: "gm_abs (au_store (ct_auth c)) (j_grant_id ?j) = Some g" "grant_live (ct_auth c) g (e_clock env 0)"
    by (simp_all add: cap_authenticate_id_iff [OF assms(1)])
  have ev: "ev_kind ev = ''ssh.certificate_issued''" "ev_grant_id ev = j_grant_id ?j"
    using build_event_input [OF append_success(2) [OF a]]
    by (simp_all add: resolve_operator_actor_def certificate_issued_event_def job_event_def no_input_def)
  from r f g ev append_success(3) [OF a] append_jobs(1) [OF a] show ?thesis by blast
qed

section \<open>From the authorization to the process\<close>

text \<open>The signer that the control plane calls answers with what the signing service returned at some moment.\<close>

definition signer_faithful :: "ssh_lib \<Rightarrow> signer_service \<Rightarrow> (sign_request \<Rightarrow> err + sign_response) \<Rightarrow> bool" where
  "signer_faithful lib s signer \<longleftrightarrow>
     (\<forall>q a. signer q = Inr a \<longrightarrow> (\<exists>now draws cert. ss_sign lib s now draws q = Some (Inr (a, cert))))"

lemma forced_arguments:
  assumes "ss_new ca policy = Inr s" and "ss_sign lib s now draws req = Some (Inr (resp, cert))"
  shows "split_on CHR '' '' (sn_force_command resp)
    = [sv_wrapper_path s, ''--job'', trim_space (sr_job_id req), ''--binding'', normal_binding (sr_command_sha256 req)]"
  using force_words [OF assms] by simp

text \<open>
  C3. From the operator's authority to the process: along every run of the control plane and its credential API, when a certificate is issued for a job
  and the wrapper that it forces starts a process on a host - for whatever command text the worker sends - then the job's command is not denied
  by the policy; if it needs an approval, the job's approval was given for its grant, target, category and scope; and the process is the
  job's argv on the job's target, or the command text exhibits a SHA-256 collision with the job's binding text.
\<close>
theorem certificate_runs_authorized_job:
  assumes "co_ok c0" and "plane_step\<^sup>*\<^sup>* c0 c" and "ss_new ca policy = Inr s" and "signer_faithful lib s signer"
    and "issue_certificate env signer targets i (Inr req) c = (d, Reply 200 resp)" and "job_utf8 (cr_job resp)"
    and "split_on CHR '' '' (sn_force_command (cr_certificate resp)) = [wrapper, ''--job'', job_arg, ''--binding'', binding_arg]"
    and "exec_main rest job_arg binding_arg original current run h = (h', Spawn p)"
  shows "r_decision (classify (j_argv (cr_job resp))) \<noteq> Deny \<and>
    (r_decision (classify (j_argv (cr_job resp))) = ApprovalRequired \<longrightarrow>
      (\<exists>a. ap_get (j_approval_id (cr_job resp)) (ct_approvals c) = Some a \<and> covers a (cr_job resp) \<and> (spent a \<or> standing a))) \<and>
    (load_target_id [] h = Inr (j_target (cr_job resp)) \<and> resolve_executable h (hd (j_argv (cr_job resp))) = Inr (pr_path p) \<and>
       pr_args p = tl (j_argv (cr_job resp)) \<or>
     (\<exists>e b. rc_decode original = Inr (e, b) \<and> sha256_collision (envelope_payload e) (job_payload (cr_job resp))))"
proof -
  let ?j = "cr_job resp"
  have ok: "co_ok c" by (rule plane_run.steps_keep [OF assms(2,1)])
  note s = issue_certificate_success [OF assms(5)]
  obtain r where r: "map_of (js_records (ct_jobs c)) i = Some r" "rec_job r = ?j" "j_status ?j = Running"
    using validate_running [OF s(1)] by blast
  then have "?j \<in> running_set (ct_jobs c)" using running_record(1) [OF ok r(1)] by (simp add: executable_def)
  then have w: "warranted (ct_approvals c) ?j" using ok by (simp add: co_ok_def)
  have b: "verify_binding ?j" and sg: "signer (sign_request_of ?j (trim_space (cq_public_key req))) = Inr (cr_certificate resp)"
    by (rule issue_for_job_success [OF s(2)], assumption)+
  then obtain now draws cert where "ss_sign lib s now draws (sign_request_of ?j (trim_space (cq_public_key req))) = Some (Inr (cr_certificate resp, cert))"
    using assms(4) unfolding signer_faithful_def by blast
  from forced_arguments [OF assms(3) this] assms(7)
  have args: "job_arg = trim_space (j_id ?j)" "binding_arg = normal_binding (j_command_sha256 ?j)" by (simp_all add: sign_request_of_def)
  have "j_command_sha256 ?j = binding_hash (j_grant_id ?j) (j_request_id ?j) (j_target ?j) (j_argv ?j)"
    using b by (simp add: verify_binding_def)
  then have "binding_arg = j_command_sha256 ?j" using args(2) by simp
  with assms(8) have x: "exec_main rest job_arg (j_command_sha256 ?j) original current run h = (h', Spawn p)" by simp
  from w have "r_decision (classify (j_argv ?j)) \<noteq> Deny"
    "r_decision (classify (j_argv ?j)) = ApprovalRequired \<longrightarrow>
      (\<exists>a. ap_get (j_approval_id ?j) (ct_approvals c) = Some a \<and> covers a ?j \<and> (spent a \<or> standing a))"
    by (auto simp: warranted_def risky_def)
  with spawn_bound [OF b assms(6) x] show ?thesis by blast
qed

section \<open>A concrete chain\<close>

definition chain_signer :: "sign_request \<Rightarrow> err + sign_response" where
  "chain_signer q = (case ss_sign demo_lib demo_service (- 5000000000) demo_draws q of Some (Inr (a, _)) \<Rightarrow> Inr a | _ \<Rightarrow> Inl Err_IO)"

definition chain_targets :: target_store where
  "chain_targets = [(''host'', demo_target\<lparr>ts_name := ''host''\<rparr>)]"

definition chain_request :: cert_request where
  "chain_request = \<lparr>cq_worker_id = ''w'', cq_claim_token = ''jcl_t'', cq_public_key = ''ssh-ed25519 AAAA''\<rparr>"

lemma chain_faithful: "signer_faithful demo_lib demo_service chain_signer"
proof -
  have "\<exists>cert. ss_sign demo_lib demo_service (- 5000000000) demo_draws q = Some (Inr (a, cert))" if "chain_signer q = Inr a" for q a
    using that by (auto simp: chain_signer_def split: option.splits sum.splits prod.splits)
  then show ?thesis unfolding signer_faithful_def by blast
qed

lemma chain_signs: "\<exists>a. chain_signer (sign_request_of (demo_job Running) ''ssh-ed25519 AAAA'') = Inr a"
proof -
  let ?q = "sign_request_of (demo_job Running) ''ssh-ed25519 AAAA''"
  have ids: "safe_id (trim_space ''0a'')" "safe_id (trim_space ''g'')" "safe_id (trim_space ''host'')" by code_simp+
  have w: "unix (- 5000000000) < unix (validity_end demo_service (- 5000000000) 100)" by code_simp
  have k: "parse_ephemeral_public_key demo_lib ''ssh-ed25519 AAAA'' = Inr demo_key_blob" by code_simp
  have h: "j_command_sha256 (demo_job Running) = binding_hash ''g'' ''request-1'' ''host'' [''uptime'']"
    by (simp add: demo_job_def new_job_def demo_input_def)
  have v: "validate_sha256 (normal_binding (j_command_sha256 (demo_job Running))) = None"
    unfolding h normal_binding_hash by (simp add: validate_sha256_def binding_hash_def)
  have "sign_checks demo_lib demo_service (- 5000000000) ?q = Inr demo_key_blob"
    using ids w k v by (simp add: sign_checks_def sign_request_of_def demo_job_facts)
  moreover have "lib_sign_cert demo_lib c = Some ''cert''" for c by (simp add: demo_lib_def)
  ultimately show ?thesis by (simp add: chain_signer_def ss_sign_def demo_serial sign_with_serial_def Let_def)
qed

lemma chain_certificate:
  "\<exists>d resp. issue_certificate demo_env chain_signer (Some chain_targets) ''0a'' (Inr chain_request) (live_control Running) = (d, Reply 200 resp)
     \<and> cr_job resp = demo_job Running"
proof -
  let ?c = "live_control Running" and ?j = "demo_job Running"
  have t: "trim_space ''w'' = ''w''" "trim_space ''jcl_t'' = ''jcl_t''" "trim_space ''ssh-ed25519 AAAA'' = ''ssh-ed25519 AAAA''"
    "trim_space ''host'' = ''host''" by code_simp+
  have v: "verify_record demo_key (demo_record Running) = None" "verify_binding ?j"
    using demo_record_ok [of Running] by (simp_all add: record_ok_def demo_record_def seal_def)
  have tok: "valid_claim_token (demo_record Running) ''jcl_t''" by (simp add: valid_claim_token_def demo_record_def)
  have j: "ej_validate_running_claim ''0a'' ''jcl_t'' 2 (ct_jobs ?c) = Inr ?j"
    using v tok by (simp add: ej_validate_running_claim_def live_control_def demo_job_facts)
  have g: "cap_authenticate_id (auth_service (ct_auth ?c)) (j_grant_id ?j) (e_clock demo_env 0) = Inr exec_grant"
    by (simp add: cap_authenticate_id_iff [OF live_control_wf(1)] live_grant demo_job_facts demo_env_def)
  have r: "classify (j_argv ?j) = allow_result ''uptime'' ''no elevated-risk rule matched''"
    unfolding demo_job_facts by (rule demo_classified)
  obtain cert where s: "chain_signer (sign_request_of ?j ''ssh-ed25519 AAAA'') = Inr cert" using chain_signs by blast
  let ?t = "demo_target\<lparr>ts_name := ''host''\<rparr>"
  obtain d ev where a: "co_append demo_env 0 (certificate_issued_event ''w'' ?j cert ?t) ?c = (d, Inr ev)"
    using demo_append [of "certificate_issued_event ''w'' ?j cert ?t" 0 ?c]
    by (auto simp: certificate_issued_event_def job_event_def no_input_def)
  have c: "j_risk_category ?j = ''DEFAULT''" "j_scope_key ?j = ''uptime''" by (simp_all add: demo_job_def new_job_def demo_input_def)
  have "resolve_target (Some chain_targets) (j_target ?j) = Inr ?t"
    by (simp add: resolve_target_def chain_targets_def demo_job_facts t)
  then have "issue_for_job demo_env chain_signer (Some chain_targets) ''w'' ''jcl_t'' ''ssh-ed25519 AAAA'' ?j ?c =
      (d, Reply 200 \<lparr>cr_job = ?j, cr_certificate = cert, cr_target = ?t\<rparr>)"
    using v g r s a c by (simp add: issue_for_job_def Let_def allow_result_def requires_shell_def requires_shell_category_def demo_job_facts)
  with j show ?thesis
    by (simp add: issue_certificate_def Let_def chain_request_def t demo_env_def)
qed

theorem certificate_needs_authority_witness:
  "\<exists>d resp g. issue_certificate demo_env chain_signer (Some chain_targets) ''0a'' (Inr chain_request) (live_control Running) = (d, Reply 200 resp) \<and>
     grant_live (ct_auth (live_control Running)) g 2 \<and> j_status (cr_job resp) = Running"
proof -
  obtain d resp where i: "issue_certificate demo_env chain_signer (Some chain_targets) ''0a'' (Inr chain_request) (live_control Running) = (d, Reply 200 resp)"
    using chain_certificate by blast
  have "e_clock demo_env 0 = 2" by (simp add: demo_env_def)
  with certificate_needs_authority [OF live_control_wf(1) i] i show ?thesis by metis
qed

definition chain_host :: host where
  "chain_host = wire_host\<lparr>h_read := (\<lambda>p. if p = target_id_path then Some ''host'' else None)\<rparr>"

definition chain_envelope :: envelope where
  "chain_envelope = \<lparr>en_job_id = ''0a'', en_grant_id = ''g'', en_request_id = ''request-1'', en_target = ''host'', en_argv = [''uptime'']\<rparr>"

lemma chain_encode: "\<exists>command. rc_encode (demo_job Running) = Inr command"
proof -
  have e: "job_envelope (demo_job Running) = chain_envelope"
    by (simp add: job_envelope_def chain_envelope_def demo_job_facts)
  have v: "validate_envelope chain_envelope = None" and t: "trim_space ''0a'' \<noteq> []" by code_simp+
  have "length (json_enc (envelope_json chain_envelope)) \<le> 200" by code_simp
  with length_b64url_encode [of "json_enc (envelope_json chain_envelope)"]
  have "\<not> max_encoded_command < length (exec_prefix @ b64url_encode (json_enc (envelope_json chain_envelope)))"
    by (simp add: max_encoded_command_def exec_prefix_def)
  moreover have "verify_binding (demo_job Running)"
    using demo_record_ok [of Running] by (simp add: record_ok_def demo_record_def seal_def)
  ultimately show ?thesis using v t unfolding rc_encode_def e by (simp add: demo_job_facts)
qed

lemma chain_host_facts:
  "load_target_id [] chain_host = Inr ''host''" "resolve_executable chain_host ''uptime'' = Inr ''/usr/bin/uptime''"
  "host_ready ''0a'' wire_run chain_host"
  by code_simp+

theorem certificate_runs_authorized_job_witness:
  "\<exists>d resp job_arg binding_arg original h' p.
     issue_certificate demo_env chain_signer (Some chain_targets) ''0a'' (Inr chain_request) (live_control Running) = (d, Reply 200 resp) \<and>
     split_on CHR '' '' (sn_force_command (cr_certificate resp)) = [sv_wrapper_path demo_service, ''--job'', job_arg, ''--binding'', binding_arg] \<and>
     exec_main [] job_arg binding_arg original None wire_run chain_host = (h', Spawn p) \<and>
     r_decision (classify (j_argv (cr_job resp))) \<noteq> Deny"
proof -
  let ?c = "live_control Running" and ?j = "demo_job Running"
  obtain d resp where i: "issue_certificate demo_env chain_signer (Some chain_targets) ''0a'' (Inr chain_request) ?c = (d, Reply 200 resp)"
    and j: "cr_job resp = ?j" using chain_certificate by blast
  have "chain_signer (sign_request_of (cr_job resp) (trim_space (cq_public_key chain_request))) = Inr (cr_certificate resp)"
    by (rule issue_for_job_success [OF issue_certificate_success(2) [OF i]])
  then obtain now draws cert where
    "ss_sign demo_lib demo_service now draws (sign_request_of ?j (trim_space (cq_public_key chain_request))) = Some (Inr (cr_certificate resp, cert))"
    using chain_faithful j unfolding signer_faithful_def by metis
  from forced_arguments [OF demo_new this]
  have f: "split_on CHR '' '' (sn_force_command (cr_certificate resp)) =
      [sv_wrapper_path demo_service, ''--job'', ''0a'', ''--binding'', j_command_sha256 ?j]"
    by (simp add: sign_request_of_def demo_job_facts trim_space_id id_char_def) (simp add: demo_job_def new_job_def)
  obtain command where e: "rc_encode ?j = Inr command" using chain_encode by blast
  have u: "job_utf8 ?j" "list_all valid_utf8 (j_argv ?j)"
    by (simp_all add: job_utf8_def demo_job_facts ascii_valid_utf8 ascii_def)
  have "\<exists>h'. exec_main [] (j_id ?j) (j_command_sha256 ?j) command None wire_run chain_host =
      (h', Spawn \<lparr>pr_path = ''/usr/bin/uptime'', pr_args = tl (j_argv ?j), pr_env = safe_environment None\<rparr>)"
    by (rule encoded_runs [OF e u(2)]) (simp_all add: demo_job_facts chain_host_facts)
  then obtain h' p where x: "exec_main [] ''0a'' (j_command_sha256 ?j) command None wire_run chain_host = (h', Spawn p)"
    by (auto simp: demo_job_facts)
  have "r_decision (classify (j_argv (cr_job resp))) \<noteq> Deny"
    using certificate_runs_authorized_job [OF live_control_ok rtranclp.rtrancl_refl demo_new chain_faithful i _ f x] u(1) j by simp
  with i f x show ?thesis by blast
qed

section \<open>What an allowed command executes\<close>

definition safe_dirs :: "string list" where
  "safe_dirs = [''/usr/local/sbin'', ''/usr/local/bin'', ''/usr/sbin'', ''/usr/bin'', ''/sbin'', ''/bin'']"

lemma safe_dirs_path: "split_on CHR '':'' safe_path = safe_dirs"
  by code_simp

lemma path_join_safe:
  assumes "d \<in> set safe_dirs" and "plain_name n"
  shows "path_join d n = d @ ''/'' @ n"
proof -
  have "d \<noteq> [] \<and> is_abs d \<and> foldl (clean_step True) [] (split_on CHR ''/'' d) \<noteq> [] \<and>
      ''/'' @ join_with ''/'' (foldl (clean_step True) [] (split_on CHR ''/'' d)) = d"
  proof -
    have "list_all (\<lambda>d. d \<noteq> [] \<and> is_abs d \<and> foldl (clean_step True) [] (split_on CHR ''/'' d) \<noteq> [] \<and>
      ''/'' @ join_with ''/'' (foldl (clean_step True) [] (split_on CHR ''/'' d)) = d) safe_dirs" by code_simp
    with assms(1) show ?thesis by (simp add: list_all_iff)
  qed
  with path_join_clean [OF assms(2)] show ?thesis by blast
qed

lemma path_dir_safe:
  assumes "d \<in> set safe_dirs" and "plain_name n"
  shows "path_dir (path_join d n) = d"
proof -
  have "list_all (\<lambda>d. path_clean (d @ ''/'') = d) safe_dirs" by code_simp
  then have c: "path_clean (d @ ''/'') = d" using assms(1) by (simp add: list_all_iff)
  have "dropWhile (\<lambda>c. c \<noteq> CHR ''/'') (rev n @ x) = dropWhile (\<lambda>c. c \<noteq> CHR ''/'') x" for x
    using assms(2) by (auto simp: plain_name_def dropWhile_append)
  with c show ?thesis by (simp add: path_join_safe [OF assms] path_dir_def)
qed

text \<open>
  A command that the policy allows without approval executes only a system binary: the executable that the wrapper resolves for it is an executable regular
  file in one of the six directories of the fixed path. (The exceptions: \<open>sysrc\<close>, whose rule does not look at the path; and the names \<open>.\<close>
  and \<open>..\<close>, which are no names of files.)
\<close>
theorem allowed_runs_system_binary:
  assumes "r_decision (classify argv) = Allow" and "resolve_executable h (hd argv) = Inr p"
    and "path_base (trim_space (hd argv)) \<noteq> ''sysrc''" and "trim_space (hd argv) \<notin> {''.'', ''..''}"
  shows "executable_file h p \<and> path_dir p \<in> set (split_on CHR '':'' safe_path)"
proof -
  obtain argv0 args where a: "argv = argv0 # args" using assms(1) by (cases argv) (auto simp: classify_def)
  let ?e = "trim_space argv0"
  have ne: "?e \<noteq> []" using assms(2) a by (auto simp: resolve_executable_def Let_def split: if_splits)
  have abs: "is_abs ?e \<longrightarrow> trusted_system_executable_path ?e"
  proof (rule classify_cases [OF a ne])
    assume "approval_for ?e argv (classify argv)"
    with assms(1) show ?thesis by (simp add: approval_for_def)
  qed (use assms(3) a in auto)
  show ?thesis
  proof (cases "CHR ''/'' \<in> set ?e")
    case True
    then have "is_abs ?e" "p = ?e" "executable_file h p"
      using assms(2) a by (auto simp: resolve_executable_def Let_def split: if_splits)
    with abs show ?thesis by (auto simp: trusted_system_executable_path_def safe_dirs_path safe_dirs_def)
  next
    case False
    then obtain d where d: "find (\<lambda>d. executable_file h (path_join d ?e)) safe_dirs = Some d" "p = path_join d ?e"
      using assms(2) a ne by (auto simp: resolve_executable_def Let_def safe_dirs_path split: if_splits option.splits)
    from d(1) obtain before after where "safe_dirs = before @ d # after" "executable_file h (path_join d ?e)" by (rule find_split)
    then have "d \<in> set safe_dirs" "executable_file h p" using d(2) by (metis in_set_conv_decomp, simp)
    moreover have "plain_name ?e" using False ne assms(4) a by (auto simp: plain_name_def)
    ultimately show ?thesis using path_dir_safe d(2) by (simp add: safe_dirs_path)
  qed
qed

theorem allowed_runs_system_binary_witness:
  "executable_file wire_host ''/usr/bin/uptime'' \<and> path_dir ''/usr/bin/uptime'' \<in> set (split_on CHR '':'' safe_path)"
proof -
  have "path_base (trim_space ''uptime'') \<noteq> ''sysrc''" "trim_space ''uptime'' \<notin> {''.'', ''..''}" by code_simp+
  with allowed_runs_system_binary [of "[''uptime'']" wire_host "''/usr/bin/uptime''"] demo_allowed wire_executable show ?thesis by simp
qed

end
