(* ===== verification/Ssh_Exec.thy ===== *)
theory Ssh_Exec
  imports Credential
begin

text \<open>
  The worker's SSH executor (\<open>internal/sshexec\<close>): the accounting of a command's output, the request that a job makes of the network and
  the report of what came back; and the binding of an issued certificate to the worker's ephemeral key (\<open>internal/workeridentity\<close>). What
  the network does with a request, and the SSH library, are arguments.
\<close>

section \<open>Output accounting\<close>

text \<open>The bytes fed to the hash stand for the hash's state; \<open>int64\<close> counters are integers, which no stream of bytes overflows.\<close>

record digest_writer =
  dw_hashed :: string
  dw_limit :: int
  dw_accounted :: int
  dw_total :: int
  dw_truncated :: bool
  dw_capture_limit :: int
  dw_capture :: string
  dw_capture_truncated :: bool

definition new_captured_digest_writer :: "int \<Rightarrow> int \<Rightarrow> digest_writer" where
  "new_captured_digest_writer limit capture_limit =
     \<lparr>dw_hashed = [], dw_limit = limit, dw_accounted = 0, dw_total = 0, dw_truncated = False,
      dw_capture_limit = capture_limit, dw_capture = [], dw_capture_truncated = False\<rparr>"

definition dw_account :: "string \<Rightarrow> digest_writer \<Rightarrow> digest_writer" where
  "dw_account p w =
     (let remaining = dw_limit w - dw_accounted w in
      if 0 < remaining then
        (let n = (if remaining < int (length p) then remaining else int (length p)) in
         w\<lparr>dw_hashed := dw_hashed w @ take (nat n) p, dw_accounted := dw_accounted w + n\<rparr>)
      else w)"

definition dw_keep :: "string \<Rightarrow> digest_writer \<Rightarrow> digest_writer" where
  "dw_keep p w =
     (if 0 < dw_capture_limit w then
        (let remaining = dw_capture_limit w - int (length (dw_capture w));
             w1 = (if 0 < remaining then
                     (let n = (if remaining < int (length p) then remaining else int (length p)) in
                      w\<lparr>dw_capture := dw_capture w @ take (nat n) p\<rparr>)
                   else w) in
         if dw_capture_limit w < dw_total w then w1\<lparr>dw_capture_truncated := True\<rparr> else w1)
      else w)"

text \<open>\<open>Write\<close>; the second component says that the overflow limiter is triggered.\<close>

definition dw_write :: "string \<Rightarrow> digest_writer \<Rightarrow> digest_writer \<times> bool" where
  "dw_write p w0 =
     (let w1 = dw_account p (w0\<lparr>dw_total := dw_total w0 + int (length p)\<rparr>);
          w2 = (if dw_limit w1 < dw_total w1 then w1\<lparr>dw_truncated := True\<rparr> else w1);
          w3 = dw_keep p w2 in
      (w3, dw_truncated w3))"

fun dw_writes :: "string list \<Rightarrow> digest_writer \<Rightarrow> digest_writer" where
  "dw_writes [] w = w"
| "dw_writes (p # ps) w = dw_writes ps (fst (dw_write p w))"

definition dw_snapshot :: "digest_writer \<Rightarrow> string \<times> int \<times> bool" where
  "dw_snapshot w = (sha256_hex (dw_hashed w), dw_total w, dw_truncated w)"

definition dw_capture_snapshot :: "digest_writer \<Rightarrow> string \<times> bool" where
  "dw_capture_snapshot w = (dw_capture w, dw_capture_truncated w \<or> dw_truncated w)"

text \<open>The reference: the same quantities read off the whole stream at once.\<close>

definition stream_writer :: "int \<Rightarrow> int \<Rightarrow> string \<Rightarrow> digest_writer" where
  "stream_writer limit capture_limit s =
     \<lparr>dw_hashed = take (nat limit) s, dw_limit = limit, dw_accounted = int (length (take (nat limit) s)), dw_total = int (length s),
      dw_truncated = (limit < int (length s)), dw_capture_limit = capture_limit,
      dw_capture = take (nat capture_limit) s, dw_capture_truncated = (0 < capture_limit \<and> capture_limit < int (length s))\<rparr>"

lemma take_app_room:
  fixes L :: int
  assumes "0 < L - int (length (take (nat L) s))"
  shows "take (nat L) (s @ p) =
      take (nat L) s @ take (nat (if L - int (length (take (nat L) s)) < int (length p) then L - int (length (take (nat L) s)) else int (length p))) p"
    and "int (length (take (nat L) (s @ p))) = int (length (take (nat L) s)) +
      (if L - int (length (take (nat L) s)) < int (length p) then L - int (length (take (nat L) s)) else int (length p))"
  using assms by (auto simp: min_def nat_diff_distrib' split: if_splits)

lemma take_app_full:
  fixes L :: int
  assumes "\<not> 0 < L - int (length (take (nat L) s))"
  shows "take (nat L) (s @ p) = take (nat L) s"
  using assms by (auto simp: min_def split: if_splits)

lemma account_step:
  "dw_account p ((stream_writer limit cl s)\<lparr>dw_total := n\<rparr>) =
     (stream_writer limit cl s)\<lparr>dw_total := n, dw_hashed := take (nat limit) (s @ p),
       dw_accounted := int (length (take (nat limit) (s @ p)))\<rparr>"
proof (cases "0 < limit - int (length (take (nat limit) s))")
  case True
  show ?thesis
    unfolding take_app_room (2) [OF True]
    unfolding take_app_room (1) [OF True] using True
    by (simp add: dw_account_def stream_writer_def Let_def del: length_take take_append)
next
  case False
  show ?thesis
    unfolding take_app_full [OF False] using False
    by (simp add: dw_account_def stream_writer_def Let_def del: length_take take_append)
qed

lemma keep_step:
  assumes "dw_capture_limit w = cl" "dw_capture w = take (nat cl) s" "dw_total w = int (length (s @ p))"
    "dw_capture_truncated w = (0 < cl \<and> cl < int (length s))"
  shows "dw_keep p w = w\<lparr>dw_capture := take (nat cl) (s @ p), dw_capture_truncated := (0 < cl \<and> cl < int (length (s @ p)))\<rparr>"
proof (cases "0 < cl - int (length (take (nat cl) s))")
  case True
  then have "0 < cl" by linarith
  show ?thesis
    unfolding dw_keep_def assms Let_def take_app_room (1) [OF True] using True \<open>0 < cl\<close> assms (4)
    by (simp only: if_True if_False simp_thms) (cases "cl < int (length (s @ p))"; simp)
next
  case False
  show ?thesis
    unfolding dw_keep_def assms Let_def take_app_full [OF False] using False assms
    by (cases w) (auto simp del: length_take take_append)
qed

lemma stream_writer_step:
  "fst (dw_write p (stream_writer limit cl s)) = stream_writer limit cl (s @ p)"
proof -
  have t: "dw_total (stream_writer limit cl s) + int (length p) = int (length (s @ p))"
    by (simp add: stream_writer_def)
  have k: "dw_keep p (w\<lparr>dw_truncated := b\<rparr>) =
      w\<lparr>dw_truncated := b, dw_capture := take (nat cl) (s @ p), dw_capture_truncated := (0 < cl \<and> cl < int (length (s @ p)))\<rparr>"
    if "w = (stream_writer limit cl s)\<lparr>dw_total := int (length (s @ p)), dw_hashed := h, dw_accounted := a\<rparr>" for w b h a
    using that by (subst keep_step [of _ cl s p]) (simp_all add: stream_writer_def)
  define w where "w = (stream_writer limit cl s)\<lparr>dw_total := int (length (s @ p)), dw_hashed := take (nat limit) (s @ p),
    dw_accounted := int (length (take (nat limit) (s @ p)))\<rparr>"
  have m: "(if dw_limit w < dw_total w then w\<lparr>dw_truncated := True\<rparr> else w) = w\<lparr>dw_truncated := limit < int (length (s @ p))\<rparr>"
    by (simp add: w_def stream_writer_def)
  have r: "w\<lparr>dw_truncated := limit < int (length (s @ p)), dw_capture := take (nat cl) (s @ p),
      dw_capture_truncated := (0 < cl \<and> cl < int (length (s @ p)))\<rparr> = stream_writer limit cl (s @ p)"
    unfolding w_def stream_writer_def by (simp only: digest_writer.update_convs)
  show ?thesis
    unfolding dw_write_def Let_def t account_step w_def [symmetric] m k [OF w_def] r by (rule fst_conv)
qed

lemma dw_writes_stream:
  "dw_writes ps (stream_writer limit cl s) = stream_writer limit cl (s @ concat ps)"
  by (induction ps arbitrary: s) (simp_all add: stream_writer_step)

section \<open>Reports\<close>

definition bool_text :: "bool \<Rightarrow> string" where
  "bool_text b = (if b then ''true'' else ''false'')"

definition stream_line :: "string \<Rightarrow> string \<times> int \<times> bool \<Rightarrow> string" where
  "stream_line name snap = (case snap of (h, n, trunc) \<Rightarrow>
     name @ '':'' @ h @ '':'' @ dec_int n @ '':'' @ bool_text trunc @ [CHR 0x0A])"

definition result_with_output :: "bool \<Rightarrow> int \<Rightarrow> string \<Rightarrow> digest_writer \<Rightarrow> digest_writer \<Rightarrow> job_result" where
  "result_with_output success code kind out errs =
     \<lparr>res_success = success, res_exit_code = code,
      res_output_sha256 = sha256_hex (stream_line ''stdout'' (dw_snapshot out) @ stream_line ''stderr'' (dw_snapshot errs)),
      res_error_kind = kind\<rparr>"

definition captured_output :: "digest_writer \<Rightarrow> digest_writer \<Rightarrow> exec_output" where
  "captured_output out errs =
     \<lparr>eo_stdout = fst (dw_capture_snapshot out), eo_stderr = fst (dw_capture_snapshot errs),
      eo_stdout_truncated = snd (dw_capture_snapshot out), eo_stderr_truncated = snd (dw_capture_snapshot errs)\<rparr>"

definition no_output :: exec_output where
  "no_output = \<lparr>eo_stdout = [], eo_stderr = [], eo_stdout_truncated = False, eo_stderr_truncated = False\<rparr>"

definition failure :: "string \<Rightarrow> job_result" where
  "failure kind = \<lparr>res_success = False, res_exit_code = -1, res_output_sha256 = [], res_error_kind = kind\<rparr>"

section \<open>The executor\<close>

record executor =
  ex_dial_timeout :: duration
  ex_output_limit :: int
  ex_capture_limit :: int

record credential =
  cd_signer :: "pub_key option"
  cd_certificate :: "certificate option"

record ssh_request =
  rq_address :: string
  rq_user :: string
  rq_signer :: "pub_key \<times> certificate"
  rq_host_key :: pub_key
  rq_host_key_algorithms :: "string list"
  rq_dial_timeout :: duration
  rq_command :: string

text \<open>How the network answers: the step that fails, or the writes to the two streams and what the \<open>select\<close> over the session saw first.\<close>

datatype run_end = Ctx_Canceled | Ctx_Deadline | Overflow_Closed | Run_Nil | Run_Exit int | Run_Error err

datatype ssh_answer =
    Dial_Error err | Deadline_Error err | Handshake_Error err | Exec_Deadline_Error err | Session_Error err
  | Session_Run "string list" "string list" run_end

definition parse_pinned_host_key :: "ssh_lib \<Rightarrow> string \<Rightarrow> err + pub_key" where
  "parse_pinned_host_key lib value =
     (case lib_parse_authorized_key lib (trim_space value @ [CHR 0x0A]) of
        None \<Rightarrow> Inl (Err_Msg ''parse pinned SSH host key'')
      | Some (key, options, rest) \<Rightarrow>
          if options \<noteq> [] \<or> trim_space rest \<noteq> [] then Inl (Err_Msg ''pinned SSH host key must be one bare public key'')
          else if pk_is_cert key then Inl (Err_Msg ''pinned SSH host key must not be a certificate'')
          else Inr key)"

definition host_key_algorithms_for_pinned_key :: "pub_key \<Rightarrow> string list" where
  "host_key_algorithms_for_pinned_key key =
     (if pk_type key = ''ssh-rsa'' then [''rsa-sha2-512'', ''rsa-sha2-256''] else [pk_type key])"

definition dial_timeout :: "executor \<Rightarrow> duration" where
  "dial_timeout e = (if ex_dial_timeout e \<le> 0 then 5 * go_second else ex_dial_timeout e)"

definition output_limit :: "executor \<Rightarrow> int" where
  "output_limit e = (if ex_output_limit e \<le> 0 then 4194304 else ex_output_limit e)"

definition capture_limit :: "executor \<Rightarrow> int" where
  "capture_limit e =
     (let limit = (if ex_capture_limit e \<le> 0 then int max_stream_bytes else ex_capture_limit e) in
      if int max_stream_bytes < limit then int max_stream_bytes else limit)"

text \<open>The checks of \<open>ExecuteCaptured\<close> before it dials: the error kind and the error, or what it asks of the network.\<close>

definition execution_request ::
    "ssh_lib \<Rightarrow> executor \<Rightarrow> job \<Rightarrow> credential \<Rightarrow> target_spec \<Rightarrow> string \<times> err + ssh_request" where
  "execution_request lib e j cred target =
     (if j_status j \<noteq> Running \<or> \<not> verify_binding j
      then Inl (''invalid_running_job'', Err_Msg ''SSH executor requires a valid running job'')
      else case (cd_signer cred, cd_certificate cred) of
        (Some signer, Some cert) \<Rightarrow>
          if ts_name target \<noteq> j_target j
          then Inl (''ssh_target_mismatch'', Err_Msg ''resolved SSH target does not match execution job'')
          else (case parse_pinned_host_key lib (ts_host_key target) of
            Inl err \<Rightarrow> Inl (''invalid_host_key_pin'', err)
          | Inr pinned \<Rightarrow>
              (case rc_encode j of
                 Inl err \<Rightarrow> Inl (''remote_command_encoding_failed'', err)
               | Inr command \<Rightarrow>
                   Inr \<lparr>rq_address = ts_address target, rq_user = ts_user target, rq_signer = (signer, cert), rq_host_key = pinned,
                     rq_host_key_algorithms = host_key_algorithms_for_pinned_key pinned, rq_dial_timeout = dial_timeout e,
                     rq_command = command\<rparr>))
      | _ \<Rightarrow> Inl (''invalid_ssh_credential'', Err_Msg ''SSH executor requires a bound certificate credential''))"

type_synonym exec_report = "job_result \<times> exec_output \<times> err option"

definition report :: "bool \<Rightarrow> int \<Rightarrow> string \<Rightarrow> err option \<Rightarrow> digest_writer \<Rightarrow> digest_writer \<Rightarrow> exec_report" where
  "report success code kind err out errs = (result_with_output success code kind out errs, captured_output out errs, err)"

definition overflow_error :: err where
  "overflow_error = Err_Msg ''SSH command output exceeded configured accounting limit''"

fun run_report :: "run_end \<Rightarrow> digest_writer \<Rightarrow> digest_writer \<Rightarrow> exec_report" where
  "run_report Ctx_Canceled out errs = report False (-1) ''ssh_execution_canceled'' (Some (Err_Msg ''context canceled'')) out errs"
| "run_report Ctx_Deadline out errs = report False (-1) ''ssh_execution_timeout'' (Some (Err_Msg ''context deadline exceeded'')) out errs"
| "run_report Overflow_Closed out errs = report False (-1) ''output_limit_exceeded'' (Some overflow_error) out errs"
| "run_report Run_Nil out errs =
     (if dw_truncated out \<or> dw_truncated errs then report False (-1) ''output_limit_exceeded'' (Some overflow_error) out errs
      else report True 0 [] None out errs)"
| "run_report (Run_Exit code) out errs =
     (if dw_truncated out \<or> dw_truncated errs then report False (-1) ''output_limit_exceeded'' (Some overflow_error) out errs
      else report False code ''remote_exit_nonzero'' (Some (Err_Msg ''remote command exited'')) out errs)"
| "run_report (Run_Error err) out errs =
     (if dw_truncated out \<or> dw_truncated errs then report False (-1) ''output_limit_exceeded'' (Some overflow_error) out errs
      else report False (-1) ''ssh_session_error'' (Some err) out errs)"

definition session_report :: "executor \<Rightarrow> ssh_answer \<Rightarrow> exec_report" where
  "session_report e answer =
     (let w = new_captured_digest_writer (output_limit e) (capture_limit e) in
      case answer of
        Dial_Error err \<Rightarrow> report False (-1) ''ssh_dial_failed'' (Some err) w w
      | Deadline_Error err \<Rightarrow> report False (-1) ''ssh_deadline_failed'' (Some err) w w
      | Handshake_Error err \<Rightarrow> report False (-1) ''ssh_handshake_failed'' (Some err) w w
      | Exec_Deadline_Error err \<Rightarrow> report False (-1) ''ssh_deadline_failed'' (Some err) w w
      | Session_Error err \<Rightarrow> report False (-1) ''ssh_session_open_failed'' (Some err) w w
      | Session_Run outs errs e \<Rightarrow> run_report e (dw_writes outs w) (dw_writes errs w))"

definition execute_captured ::
    "ssh_lib \<Rightarrow> executor \<Rightarrow> (ssh_request \<Rightarrow> ssh_answer) \<Rightarrow> job \<Rightarrow> credential \<Rightarrow> target_spec \<Rightarrow> exec_report" where
  "execute_captured lib e net j cred target =
     (case execution_request lib e j cred target of
        Inl (kind, err) \<Rightarrow> (failure kind, no_output, Some err)
      | Inr rq \<Rightarrow> session_report e (net rq))"

section \<open>The report is a function of the two streams\<close>

text \<open>The reference: what the report of a session says of the bytes of the two streams, whatever the writes they arrived in.\<close>

definition stream_digest :: "int \<Rightarrow> string \<Rightarrow> string \<Rightarrow> string" where
  "stream_digest limit name s =
     name @ '':'' @ sha256_hex (take (nat limit) s) @ '':'' @ dec_int (int (length s)) @ '':'' @ bool_text (limit < int (length s)) @ [CHR 0x0A]"

definition plain_report :: "executor \<Rightarrow> string \<Rightarrow> string \<Rightarrow> run_end \<Rightarrow> exec_report" where
  "plain_report e out errs ending =
     (let limit = output_limit e; cl = capture_limit e;
          over = (limit < int (length out) \<or> limit < int (length errs));
          digest = sha256_hex (stream_digest limit ''stdout'' out @ stream_digest limit ''stderr'' errs);
          output = \<lparr>eo_stdout = take (nat cl) out, eo_stderr = take (nat cl) errs,
            eo_stdout_truncated = (cl < int (length out) \<or> limit < int (length out)),
            eo_stderr_truncated = (cl < int (length errs) \<or> limit < int (length errs))\<rparr>;
          verdict = (\<lambda>success code kind err.
            (\<lparr>res_success = success, res_exit_code = code, res_output_sha256 = digest, res_error_kind = kind\<rparr>, output, err)) in
      case ending of
        Ctx_Canceled \<Rightarrow> verdict False (-1) ''ssh_execution_canceled'' (Some (Err_Msg ''context canceled''))
      | Ctx_Deadline \<Rightarrow> verdict False (-1) ''ssh_execution_timeout'' (Some (Err_Msg ''context deadline exceeded''))
      | Overflow_Closed \<Rightarrow> verdict False (-1) ''output_limit_exceeded'' (Some overflow_error)
      | returned \<Rightarrow>
          if over then verdict False (-1) ''output_limit_exceeded'' (Some overflow_error)
          else (case returned of
              Run_Nil \<Rightarrow> verdict True 0 [] None
            | Run_Exit code \<Rightarrow> verdict False code ''remote_exit_nonzero'' (Some (Err_Msg ''remote command exited''))
            | Run_Error err \<Rightarrow> verdict False (-1) ''ssh_session_error'' (Some err)))"

lemma output_limit_pos: "0 < output_limit e"
  by (simp add: output_limit_def)

lemma capture_limit_bounds: "0 < capture_limit e" "capture_limit e \<le> int max_stream_bytes"
  by (simp_all add: capture_limit_def Let_def max_stream_bytes_def)

lemma new_writer_stream: "0 \<le> limit \<Longrightarrow> new_captured_digest_writer limit cl = stream_writer limit cl []"
  by (simp add: new_captured_digest_writer_def stream_writer_def)

lemma written_stream:
  "dw_writes ps (new_captured_digest_writer (output_limit e) cl) = stream_writer (output_limit e) cl (concat ps)"
  using dw_writes_stream [of ps "output_limit e" cl "[]"] output_limit_pos [of e] by (simp add: new_writer_stream)

lemma report_stream:
  "report success code kind err (stream_writer (output_limit e) (capture_limit e) out) (stream_writer (output_limit e) (capture_limit e) errs) =
    (\<lparr>res_success = success, res_exit_code = code,
      res_output_sha256 = sha256_hex (stream_digest (output_limit e) ''stdout'' out @ stream_digest (output_limit e) ''stderr'' errs),
      res_error_kind = kind\<rparr>,
     \<lparr>eo_stdout = take (nat (capture_limit e)) out, eo_stderr = take (nat (capture_limit e)) errs,
      eo_stdout_truncated = (capture_limit e < int (length out) \<or> output_limit e < int (length out)),
      eo_stderr_truncated = (capture_limit e < int (length errs) \<or> output_limit e < int (length errs))\<rparr>, err)"
  using capture_limit_bounds (1) [of e]
  by (simp add: report_def result_with_output_def captured_output_def stream_line_def stream_digest_def dw_snapshot_def
      dw_capture_snapshot_def stream_writer_def)

lemma truncated_stream: "dw_truncated (stream_writer limit cl s) \<longleftrightarrow> limit < int (length s)"
  by (simp add: stream_writer_def)

lemma session_run_plain:
  "session_report e (Session_Run outs errs ending) = plain_report e (concat outs) (concat errs) ending"
  unfolding session_report_def Let_def ssh_answer.case written_stream
  by (cases ending) (simp_all add: plain_report_def Let_def report_stream truncated_stream)

text \<open>
  C28. The report of an SSH session is a function of the bytes of its two output streams: however they arrive in writes, the incremental
  accounting gives the result, the digest over both streams, the captured prefixes and the truncation flags of the reference definition.
\<close>
theorem session_report_plain:
  "session_report e (Session_Run outs errs ending) = plain_report e (concat outs) (concat errs) ending"
  by (rule session_run_plain)

lemma validate_stream_result: "length kind \<le> 128 \<Longrightarrow> validate_result (result_with_output b code kind out errs) = None"
  by (simp add: validate_result_def result_with_output_def)

lemma capture_length: "length (dw_capture (stream_writer limit (capture_limit e) s)) \<le> max_stream_bytes"
  using capture_limit_bounds [of e] by (simp add: stream_writer_def)

lemma report_valid:
  assumes "length kind \<le> 128"
  shows "validate_result (fst (report b code kind err (stream_writer l (capture_limit e) out) (stream_writer l (capture_limit e) errs))) = None"
    and "eo_validate (fst (snd (report b code kind err (stream_writer l (capture_limit e) out) (stream_writer l (capture_limit e) errs)))) = None"
  using assms capture_length [of l e out] capture_length [of l e errs]
  by (simp_all add: report_def validate_stream_result eo_validate_def captured_output_def dw_capture_snapshot_def)

lemma session_report_valid: "validate_result (fst (session_report e a)) = None" "eo_validate (fst (snd (session_report e a))) = None"
proof -
  have n: "new_captured_digest_writer (output_limit e) (capture_limit e) = stream_writer (output_limit e) (capture_limit e) []"
    using output_limit_pos [of e] by (simp add: new_writer_stream)
  have "validate_result (fst (session_report e a)) = None \<and> eo_validate (fst (snd (session_report e a))) = None"
  proof (cases a)
    case (Session_Run outs errs ending)
    then show ?thesis
      unfolding session_report_def Let_def Session_Run ssh_answer.case written_stream
      by (cases ending) (simp_all add: report_valid)
  qed (simp_all add: session_report_def Let_def n report_valid)
  then show "validate_result (fst (session_report e a)) = None" "eo_validate (fst (snd (session_report e a))) = None" by simp_all
qed

lemma execution_request_kind: "execution_request lib e j cred target = Inl (kind, err) \<Longrightarrow> length kind \<le> 128 \<and> kind \<noteq> []"
  by (auto simp: execution_request_def split: if_splits option.splits sum.splits)

text \<open>
  Whatever the network does, what the executor reports is acceptable to the control plane: the result passes its validation, with a
  digest of 64 hexadecimal digits or none, and the captured output is within 256 KiB per stream for every configuration of the limits.
\<close>
theorem executor_report_valid:
  "case execute_captured lib e net j cred target of (res, out, err) \<Rightarrow> validate_result res = None \<and> eo_validate out = None"
proof (cases "execution_request lib e j cred target")
  case (Inl a)
  obtain kind err where a: "a = (kind, err)" by force
  then have "length kind \<le> 128" using execution_request_kind Inl by blast
  with Inl a show ?thesis
    by (simp add: execute_captured_def failure_def no_output_def validate_result_def eo_validate_def)
next
  case (Inr rq)
  with session_report_valid [of e "net rq"] show ?thesis by (auto simp: execute_captured_def split: prod.split)
qed

lemma session_success:
  assumes "session_report e a = (res, out, err)" and "res_success res"
  obtains outs errs where "a = Session_Run outs errs Run_Nil" and "int (length (concat outs)) \<le> output_limit e"
    and "int (length (concat errs)) \<le> output_limit e" and "err = None" and "res_exit_code res = 0"
    and "res_output_sha256 res = sha256_hex (stream_digest (output_limit e) ''stdout'' (concat outs)
      @ stream_digest (output_limit e) ''stderr'' (concat errs))"
proof (cases a)
  case (Session_Run outs errs ending)
  then have p: "plain_report e (concat outs) (concat errs) ending = (res, out, err)"
    using assms(1) session_run_plain by simp
  with assms(2) have "ending = Run_Nil"
    by (cases ending) (auto simp: plain_report_def Let_def split: if_splits)
  with p assms(2) Session_Run that show thesis by (auto simp: plain_report_def Let_def split: if_splits)
qed (use assms in \<open>auto simp: session_report_def Let_def report_def result_with_output_def\<close>)

lemma execution_requestD:
  assumes "execution_request lib e j cred target = Inr rq"
  shows "j_status j = Running" "verify_binding j" "ts_name target = j_target j" "rc_encode j = Inr (rq_command rq)"
    and "rq_address rq = ts_address target" "rq_user rq = ts_user target"
    and "parse_pinned_host_key lib (ts_host_key target) = Inr (rq_host_key rq)"
    and "cd_signer cred = Some (fst (rq_signer rq))" "cd_certificate cred = Some (snd (rq_signer rq))"
  using assms by (auto simp: execution_request_def split: if_splits option.splits sum.splits)

text \<open>
  The executor reports success only for a running job with a valid binding that it sent, as its encoded command, to its own target - the
  target's address and user, under the pinned host key, with the bound certificate - in a session that ended normally with both streams
  within the limit; then the digest it reports is over the whole of both streams.
\<close>
theorem executor_success_sound:
  assumes "execute_captured lib e net j cred target = (res, out, err)" and "res_success res"
  shows "\<exists>rq outs errs. execution_request lib e j cred target = Inr rq \<and> net rq = Session_Run outs errs Run_Nil \<and>
    j_status j = Running \<and> verify_binding j \<and> ts_name target = j_target j \<and> rc_encode j = Inr (rq_command rq) \<and>
    rq_address rq = ts_address target \<and> rq_user rq = ts_user target \<and>
    parse_pinned_host_key lib (ts_host_key target) = Inr (rq_host_key rq) \<and> cd_certificate cred = Some (snd (rq_signer rq)) \<and>
    err = None \<and> res_exit_code res = 0 \<and>
    take (nat (output_limit e)) (concat outs) = concat outs \<and> take (nat (output_limit e)) (concat errs) = concat errs \<and>
    res_output_sha256 res = sha256_hex (stream_digest (output_limit e) ''stdout'' (concat outs)
      @ stream_digest (output_limit e) ''stderr'' (concat errs))"
proof (cases "execution_request lib e j cred target")
  case (Inl a)
  then show ?thesis using assms by (cases a) (auto simp: execute_captured_def failure_def)
next
  case (Inr rq)
  then have "session_report e (net rq) = (res, out, err)" using assms(1) by (simp add: execute_captured_def)
  then obtain outs errs where s: "net rq = Session_Run outs errs Run_Nil" "int (length (concat outs)) \<le> output_limit e"
      "int (length (concat errs)) \<le> output_limit e" "err = None" "res_exit_code res = 0"
    "res_output_sha256 res = sha256_hex (stream_digest (output_limit e) ''stdout'' (concat outs)
      @ stream_digest (output_limit e) ''stderr'' (concat errs))"
    using assms(2) by (rule session_success)
  then have "length (concat outs) \<le> nat (output_limit e)" "length (concat errs) \<le> nat (output_limit e)" by simp_all
  then have "take (nat (output_limit e)) (concat outs) = concat outs" "take (nat (output_limit e)) (concat errs) = concat errs"
    by (simp_all only: take_all)
  with Inr s execution_requestD [OF Inr] show ?thesis by blast
qed

section \<open>Binding a certificate to the ephemeral key\<close>

text \<open>What \<open>Bind\<close> calls of the SSH library: parsing a key that may be a certificate, fingerprints, and the signer of a certificate.\<close>

record client_lib =
  cl_parse_authorized_key :: "string \<Rightarrow> (certificate option \<times> string list \<times> string) option"
  cl_fingerprint_cert :: "certificate \<Rightarrow> string"
  cl_fingerprint_key :: "pub_key \<Rightarrow> string"
  cl_new_cert_signer :: "certificate \<Rightarrow> pub_key \<Rightarrow> bool"

definition cert_time_infinity :: "64 word" where "cert_time_infinity = - 1"

definition wi_bind :: "client_lib \<Rightarrow> pub_key option \<Rightarrow> job \<Rightarrow> sign_response \<Rightarrow> time \<Rightarrow> err + credential" where
  "wi_bind cl key j resp now =
     (case key of
        None \<Rightarrow> Inl (Err_Msg ''ephemeral identity is not initialized'')
      | Some pub \<Rightarrow>
        if j_status j \<noteq> Running \<or> \<not> verify_binding j then Inl (Err_Msg ''SSH credential requires a valid running job'')
        else case cl_parse_authorized_key cl (trim_space (sn_certificate resp) @ [CHR 0x0A]) of
          None \<Rightarrow> Inl (Err_Msg ''parse issued SSH certificate'')
        | Some (parsed, options, rest) \<Rightarrow>
          if options \<noteq> [] \<or> trim_space rest \<noteq> []
          then Inl (Err_Msg ''issued SSH certificate contains unexpected options or trailing data'')
          else (case parsed of
            None \<Rightarrow> Inl (Err_Msg ''issued SSH credential is not a user certificate'')
          | Some cert \<Rightarrow>
            if \<not> cf_user_cert cert then Inl (Err_Msg ''issued SSH credential is not a user certificate'')
            else if pk_blob (cf_key cert) \<noteq> pk_blob pub
            then Inl (Err_Msg ''issued SSH certificate does not match ephemeral private key'')
            else if cf_valid_before cert = cert_time_infinity \<or> word_of_int (unix (j_expires_at j)) < cf_valid_before cert
            then Inl (Err_Msg ''issued SSH certificate outlives execution job'')
            else if word_of_int (unix now) < cf_valid_after cert \<or> cf_valid_before cert \<le> word_of_int (unix now)
            then Inl (Err_Msg ''issued SSH certificate is not currently valid'')
            else if sn_certificate_fingerprint resp \<noteq> [] \<and> sn_certificate_fingerprint resp \<noteq> cl_fingerprint_cert cl cert
            then Inl (Err_Msg ''SSH certificate fingerprint metadata mismatch'')
            else if sn_public_key_fingerprint resp \<noteq> [] \<and> sn_public_key_fingerprint resp \<noteq> cl_fingerprint_key cl pub
            then Inl (Err_Msg ''SSH public key fingerprint metadata mismatch'')
            else if \<not> cl_new_cert_signer cl cert pub then Inl (Err_Msg ''bind SSH certificate to ephemeral key'')
            else Inr \<lparr>cd_signer = Some pub, cd_certificate = Some cert\<rparr>))"

lemma wi_bindD:
  assumes "wi_bind cl key j resp now = Inr cred"
  obtains pub cert where "key = Some pub" and "cred = \<lparr>cd_signer = Some pub, cd_certificate = Some cert\<rparr>"
    and "j_status j = Running" "verify_binding j" "cf_user_cert cert" "pk_blob (cf_key cert) = pk_blob pub"
    and "cf_valid_before cert \<noteq> cert_time_infinity" "cf_valid_before cert \<le> word_of_int (unix (j_expires_at j))"
    and "cf_valid_after cert \<le> word_of_int (unix now)" "word_of_int (unix now) < cf_valid_before cert"
proof -
  obtain pub where k: "key = Some pub" using assms by (cases key) (simp_all add: wi_bind_def)
  have s: "j_status j = Running" "verify_binding j" using assms by (auto simp: wi_bind_def k split: if_splits)
  obtain cert options rest where c: "cl_parse_authorized_key cl (trim_space (sn_certificate resp) @ [CHR 0x0A]) = Some (Some cert, options, rest)"
    using assms by (auto simp: wi_bind_def k s split: if_splits option.splits)
  from assms have "cf_user_cert cert \<and> pk_blob (cf_key cert) = pk_blob pub \<and> cf_valid_before cert \<noteq> cert_time_infinity \<and>
      \<not> word_of_int (unix (j_expires_at j)) < cf_valid_before cert \<and> \<not> word_of_int (unix now) < cf_valid_after cert \<and>
      \<not> cf_valid_before cert \<le> word_of_int (unix now) \<and> cred = \<lparr>cd_signer = Some pub, cd_certificate = Some cert\<rparr>"
    by (auto simp: wi_bind_def k s c simp del: not_less not_le split: if_splits)
  with that k s show thesis by (simp add: not_less not_le)
qed

text \<open>
  A credential that the worker binds is a user certificate for its own ephemeral key that is valid at the moment of binding and ends
  no later than the job it is for: the comparison of the certificate's unsigned seconds is the comparison of the instants.
\<close>
theorem bound_credential_window:
  assumes "wi_bind cl key j resp now = Inr cred"
    and "0 \<le> unix now" "unix now < 2 ^ 64" "0 \<le> unix (j_expires_at j)" "unix (j_expires_at j) < 2 ^ 64"
  shows "\<exists>pub cert. key = Some pub \<and> cred = \<lparr>cd_signer = Some pub, cd_certificate = Some cert\<rparr> \<and> cf_user_cert cert \<and>
    pk_blob (cf_key cert) = pk_blob pub \<and> uint (cf_valid_after cert) \<le> unix now \<and> unix now < uint (cf_valid_before cert) \<and>
    uint (cf_valid_before cert) \<le> unix (j_expires_at j) \<and> now < j_expires_at j"
proof -
  from assms(1) obtain pub cert where c: "key = Some pub" "cred = \<lparr>cd_signer = Some pub, cd_certificate = Some cert\<rparr>"
      "cf_user_cert cert" "pk_blob (cf_key cert) = pk_blob pub" and b: "cf_valid_before cert \<le> word_of_int (unix (j_expires_at j))"
      and a: "cf_valid_after cert \<le> word_of_int (unix now)" "word_of_int (unix now) < cf_valid_before cert"
    by (rule wi_bindD)
  have w: "uint (cf_valid_before cert) \<le> unix (j_expires_at j)" "uint (cf_valid_after cert) \<le> unix now" "unix now < uint (cf_valid_before cert)"
    using b a assms(2-5) by (simp_all add: word_le_def word_less_def uint_unix)
  then have "\<not> j_expires_at j \<le> now" using unix_mono [of "j_expires_at j" now] by auto
  with c w show ?thesis by auto
qed

text \<open>
  The library's round trip for one certificate: the text of the signed certificate parses back to it, the fingerprints of the two ends
  agree, and a signer exists for a certificate and its own key.
\<close>

definition client_reads :: "client_lib \<Rightarrow> ssh_lib \<Rightarrow> certificate \<Rightarrow> string \<Rightarrow> bool" where
  "client_reads cl lib cert text \<longleftrightarrow>
     cl_parse_authorized_key cl (trim_space text @ [CHR 0x0A]) = Some (Some cert, [], []) \<and>
     cl_fingerprint_cert cl cert = lib_fingerprint_cert lib text \<and> cl_fingerprint_key cl (cf_key cert) = lib_fingerprint_key lib (cf_key cert) \<and>
     cl_new_cert_signer cl cert (cf_key cert)"

text \<open>
  The worker accepts what the signer signs: a certificate issued for a running job and the worker's key, read back by the SSH library, is
  bound at every moment from its signing until its last second.
\<close>
theorem signed_certificate_binds:
  assumes "ss_new ca policy = Inr s" and "ss_sign lib s now draws (sign_request_of j pub) = Some (Inr (resp, cert))"
    and "parse_ephemeral_public_key lib pub = Inr key" and "lib_sign_cert lib cert = Some text" and "client_reads cl lib cert text"
    and "j_status j = Running" and "verify_binding j"
    and "15 \<le> unix now" and "unix now < 2 ^ 62" and "now \<le> t" and "unix t < unix (sn_valid_before resp)" and "unix (j_expires_at j) < 2 ^ 64"
  shows "wi_bind cl (Some key) j resp t = Inr \<lparr>cd_signer = Some key, cd_certificate = Some cert\<rparr>"
proof -
  obtain key' serial where c: "sign_checks lib s now (sign_request_of j pub) = Inr key'"
    and w: "sign_with_serial lib s now (sign_request_of j pub) key' serial = Inr (resp, cert)"
    by (rule ss_signD [OF assms(2)])
  have k: "key' = key" using sign_checksD(5) [OF c] assms(3) by (simp add: sign_request_of_def)
  have ck: "cf_key cert = key" "cf_user_cert cert" using sign_with_serialD(1) [OF w] k by (simp_all add: build_certificate_def)
  have r: "sn_certificate resp = trim_space text" "sn_certificate_fingerprint resp = lib_fingerprint_cert lib text"
    "sn_public_key_fingerprint resp = lib_fingerprint_key lib key"
    using w assms(4) k by (auto simp: sign_with_serial_def Let_def split: option.splits)
  note v = certificate_window [OF assms(1) c w assms(8,9)]
  have t: "unix now \<le> unix t" using assms(10) by (rule unix_mono)
  have u: "uint (word_of_int (unix t) :: 64 word) = unix t" "uint (word_of_int (unix (j_expires_at j)) :: 64 word) = unix (j_expires_at j)"
    using t v(1-3) assms(8,9,11,12) by (simp_all add: uint_unix sign_request_of_def)
  have b: "\<not> word_of_int (unix (j_expires_at j)) < cf_valid_before cert" "\<not> word_of_int (unix t) < cf_valid_after cert"
      "\<not> cf_valid_before cert \<le> word_of_int (unix t)"
    using v t assms(11) by (simp_all add: word_less_def word_le_def u sign_request_of_def)
  have "uint (- 1 :: 64 word) = 18446744073709551615" by (simp add: unsigned_minus_1_eq_mask mask_eq_exp_minus_1)
  then have "uint (cf_valid_before cert) \<noteq> uint (- 1 :: 64 word)" using v(2,6) assms(9) by simp
  then have i: "cf_valid_before cert \<noteq> cert_time_infinity" by (auto simp: cert_time_infinity_def)
  show ?thesis
    using assms(5-7) b i ck r by (simp add: wi_bind_def client_reads_def del: not_less not_le)
qed

section \<open>A concrete execution\<close>

definition timed_job :: job where
  "timed_job = wire_job\<lparr>j_expires_at := sr_not_after demo_sign_request\<rparr>"

definition demo_answer :: ssh_answer where
  "demo_answer = Session_Run [''up '', ''1 day''] [] Run_Nil"

definition demo_executor :: executor where
  "demo_executor = \<lparr>ex_dial_timeout = 0, ex_output_limit = 100, ex_capture_limit = 4\<rparr>"

lemma timed_bound: "verify_binding timed_job" "j_status timed_job = Running"
  using wire_bound by (simp_all add: timed_job_def verify_binding_def wire_job_def)

lemma timed_encode: "rc_encode timed_job = Inr wire_command"
proof -
  have "job_envelope timed_job = job_envelope wire_job" "j_id timed_job = j_id wire_job" by (simp_all add: timed_job_def job_envelope_def)
  then have "rc_encode timed_job = rc_encode wire_job" unfolding rc_encode_def by (simp only: timed_bound(1) wire_bound)
  with wire_encode show ?thesis by simp
qed

lemma timed_request:
  assumes "cd_signer cred = Some k" "cd_certificate cred = Some crt"
  shows "\<exists>rq. execution_request demo_lib demo_executor timed_job cred demo_target = Inr rq"
proof -
  have "parse_pinned_host_key demo_lib (ts_host_key demo_target) = Inr demo_key_blob" by code_simp
  moreover have "ts_name demo_target = j_target timed_job" by (simp add: demo_target_def timed_job_def wire_job_def)
  ultimately show ?thesis using assms by (simp add: execution_request_def timed_bound timed_encode)
qed

lemma demo_session_success: "res_success (fst (session_report demo_executor demo_answer))"
  unfolding demo_answer_def session_run_plain
  by (simp add: plain_report_def Let_def demo_executor_def output_limit_def)

definition plain_cert :: certificate where
  "plain_cert = build_certificate demo_service demo_key_blob 1 [] [] demo_now (sr_not_after demo_sign_request)"

definition plain_credential :: credential where
  "plain_credential = \<lparr>cd_signer = Some demo_key_blob, cd_certificate = Some plain_cert\<rparr>"

theorem executor_success_sound_witness:
  "\<exists>res out err. execute_captured demo_lib demo_executor (\<lambda>_. demo_answer) timed_job plain_credential demo_target = (res, out, err) \<and>
     res_success res \<and> err = None \<and> res_exit_code res = 0"
proof -
  obtain rq where rq: "execution_request demo_lib demo_executor timed_job plain_credential demo_target = Inr rq"
    using timed_request [of plain_credential] by (auto simp: plain_credential_def)
  obtain res out err where s: "session_report demo_executor demo_answer = (res, out, err)" by (cases "session_report demo_executor demo_answer") auto
  with rq have x: "execute_captured demo_lib demo_executor (\<lambda>_. demo_answer) timed_job plain_credential demo_target = (res, out, err)"
    by (simp add: execute_captured_def)
  have "res_success res" using demo_session_success s by simp
  with x executor_success_sound [OF x] show ?thesis by blast
qed

lemma timed_signs:
  "\<exists>resp cert. ss_sign demo_lib demo_service demo_now demo_draws (sign_request_of timed_job ''ssh-ed25519 AAAA'') = Some (Inr (resp, cert))"
proof -
  let ?q = "sign_request_of timed_job ''ssh-ed25519 AAAA''"
  have ids: "safe_id (trim_space ''job-00000001'')" "safe_id (trim_space ''grant-1'')" "safe_id (trim_space ''dns01'')" by code_simp+
  have w: "unix demo_now < unix (validity_end demo_service demo_now (sr_not_after demo_sign_request))"
    "demo_now < sr_not_after demo_sign_request" "sr_not_after demo_sign_request \<noteq> 0" by code_simp+
  have k: "parse_ephemeral_public_key demo_lib ''ssh-ed25519 AAAA'' = Inr demo_key_blob" by code_simp
  have "validate_sha256 (normal_binding (binding_hash g r t a)) = None" for g r t a
    unfolding normal_binding_hash by (simp add: validate_sha256_def binding_hash_def)
  with ids w k have "sign_checks demo_lib demo_service demo_now ?q = Inr demo_key_blob"
    by (simp add: sign_checks_def sign_request_of_def timed_job_def wire_job_def)
  moreover have "lib_sign_cert demo_lib c = Some ''cert''" for c by (simp add: demo_lib_def)
  ultimately show ?thesis by (simp add: ss_sign_def demo_serial sign_with_serial_def Let_def)
qed

definition demo_client :: "certificate \<Rightarrow> client_lib" where
  "demo_client cert = \<lparr>cl_parse_authorized_key = (\<lambda>_. Some (Some cert, [], [])), cl_fingerprint_cert = (\<lambda>_. ''SHA256:c''),
     cl_fingerprint_key = (\<lambda>_. ''SHA256:k''), cl_new_cert_signer = (\<lambda>_ _. True)\<rparr>"

lemma demo_unix: "unix demo_now = 1700000000" "unix (demo_now + 1000000000) = 1700000001" "unix (sr_not_after demo_sign_request) = 1700000030"
  by code_simp+

lemma timed_expiry: "unix (j_expires_at timed_job) = 1700000030"
  by (simp add: timed_job_def demo_unix)

lemma timed_window:
  assumes "ss_sign demo_lib demo_service demo_now demo_draws (sign_request_of timed_job ''ssh-ed25519 AAAA'') = Some (Inr (resp, cert))"
  shows "unix (demo_now + 1000000000) < unix (sn_valid_before resp)"
proof -
  obtain key serial where w: "sign_with_serial demo_lib demo_service demo_now (sign_request_of timed_job ''ssh-ed25519 AAAA'') key serial = Inr (resp, cert)"
    by (rule ss_signD [OF assms])
  have "unix (validity_end demo_service demo_now (sr_not_after demo_sign_request)) = 1700000020" by code_simp
  with sign_with_serialD(2) [OF w] demo_unix(2) show ?thesis by (simp add: sign_request_of_def timed_job_def)
qed

theorem signed_certificate_binds_witness:
  "\<exists>resp cert. ss_sign demo_lib demo_service demo_now demo_draws (sign_request_of timed_job ''ssh-ed25519 AAAA'') = Some (Inr (resp, cert)) \<and>
     wi_bind (demo_client cert) (Some demo_key_blob) timed_job resp (demo_now + 1000000000)
       = Inr \<lparr>cd_signer = Some demo_key_blob, cd_certificate = Some cert\<rparr>"
proof -
  obtain resp cert where s: "ss_sign demo_lib demo_service demo_now demo_draws (sign_request_of timed_job ''ssh-ed25519 AAAA'') = Some (Inr (resp, cert))"
    using timed_signs by blast
  have k: "parse_ephemeral_public_key demo_lib ''ssh-ed25519 AAAA'' = Inr demo_key_blob" by code_simp
  have l: "lib_sign_cert demo_lib cert = Some ''cert''" "client_reads (demo_client cert) demo_lib cert ''cert''"
    by (simp_all add: demo_lib_def demo_client_def client_reads_def)
  have n: "15 \<le> unix demo_now" "unix demo_now < 2 ^ 62" "demo_now \<le> demo_now + 1000000000" "unix (j_expires_at timed_job) < 2 ^ 64"
    by (simp_all add: demo_unix timed_expiry)
  have "wi_bind (demo_client cert) (Some demo_key_blob) timed_job resp (demo_now + 1000000000)
      = Inr \<lparr>cd_signer = Some demo_key_blob, cd_certificate = Some cert\<rparr>"
    by (rule signed_certificate_binds [OF demo_new s k l timed_bound(2,1) n(1,2,3) timed_window [OF s] n(4)])
  with s show ?thesis by blast
qed

definition plain_response :: sign_response where
  "plain_response = \<lparr>sn_certificate = [], sn_serial = 1, sn_key_id = [], sn_principal = [], sn_force_command = [], sn_source_addresses = [],
    sn_valid_after = 0, sn_valid_before = 0, sn_ca_fingerprint = [], sn_certificate_fingerprint = [], sn_public_key_fingerprint = []\<rparr>"

lemma plain_binds: "wi_bind (demo_client plain_cert) (Some demo_key_blob) timed_job plain_response demo_now = Inr plain_credential"
proof -
  have "cf_valid_before plain_cert = 1700000030" "cf_valid_after plain_cert = 1700000000" "cf_user_cert plain_cert" "cf_key plain_cert = demo_key_blob"
    by code_simp+
  moreover have "trim_space [] = []" by code_simp
  ultimately show ?thesis
    by (simp add: wi_bind_def timed_bound demo_client_def demo_unix timed_expiry cert_time_infinity_def plain_response_def plain_credential_def)
qed

theorem bound_credential_window_witness:
  "wi_bind (demo_client plain_cert) (Some demo_key_blob) timed_job plain_response demo_now = Inr plain_credential \<and>
   (\<exists>cert. cd_certificate plain_credential = Some cert \<and> uint (cf_valid_after cert) \<le> 1700000000 \<and> 1700000000 < uint (cf_valid_before cert))"
proof -
  have "0 \<le> unix demo_now" "unix demo_now < 2 ^ 64" "0 \<le> unix (j_expires_at timed_job)" "unix (j_expires_at timed_job) < 2 ^ 64"
    by (simp_all add: demo_unix timed_expiry)
  from bound_credential_window [OF plain_binds this] obtain cert where c: "plain_credential = \<lparr>cd_signer = Some demo_key_blob, cd_certificate = Some cert\<rparr>"
    "uint (cf_valid_after cert) \<le> 1700000000" "1700000000 < uint (cf_valid_before cert)"
    unfolding demo_unix by auto
  from c(1) have "cert = plain_cert" by (simp add: plain_credential_def)
  then have "cd_certificate plain_credential = Some cert" by (simp add: plain_credential_def)
  with c(2,3) plain_binds show ?thesis by blast
qed

end
