(* ===== verification/Worker.thy ===== *)
theory Worker
  imports Ssh_Exec
begin

text \<open>
  The worker (\<open>internal/worker\<close>). One iteration of the runner is a function
  on a world \<open>'s\<close> through a port, the interface \<open>Control\<close> with the executor; it returns the calls it made, whether there was work, and
  the error. \<open>Worker_Plane\<close> gives the port that is the modelled control plane.
\<close>

section \<open>The port\<close>

type_synonym claim = "job \<times> string"

record 's port =
  po_claim :: "string \<Rightarrow> 's \<Rightarrow> 's \<times> (err + claim)"
  po_start :: "string \<Rightarrow> claim \<Rightarrow> 's \<Rightarrow> 's \<times> (err + job)"
  po_issue :: "string \<Rightarrow> claim \<Rightarrow> string \<Rightarrow> 's \<Rightarrow> 's \<times> (err + sign_response \<times> target_spec)"
  po_check :: "string \<Rightarrow> claim \<Rightarrow> 's \<Rightarrow> 's \<times> err option"
  po_complete :: "string \<Rightarrow> claim \<Rightarrow> job_result \<Rightarrow> 's \<Rightarrow> 's \<times> err option"
  po_complete_output :: "(string \<Rightarrow> claim \<Rightarrow> job_result \<Rightarrow> exec_output \<Rightarrow> 's \<Rightarrow> 's \<times> err option) option"
  po_execute :: "bool \<Rightarrow> job \<Rightarrow> credential \<Rightarrow> target_spec \<Rightarrow> 's \<Rightarrow> 's \<times> exec_report"

text \<open>
  What the moment decides: the clock, the generated key and its text, how often the authority monitor's ticker fires while the command
  runs, and whether one more check is under way when the monitor is stopped.
\<close>

record moment =
  mo_now :: time
  mo_key :: "err + pub_key \<times> string"
  mo_ticks :: nat
  mo_late :: bool

datatype call =
    Call_Claim "err + claim"
  | Call_Start claim "err + job"
  | Call_Issue claim string "err + sign_response \<times> target_spec"
  | Call_Check claim "err option"
  | Call_Execute job credential target_spec exec_report
  | Call_Complete claim job_result "err option"
  | Call_Complete_Output claim job_result exec_output "err option"

type_synonym 's run = "'s \<times> call list \<times> bool \<times> err option"

section \<open>One iteration\<close>

definition same_immutable_job :: "job \<Rightarrow> job \<Rightarrow> bool" where
  "same_immutable_job claimed started \<longleftrightarrow>
     j_id claimed = j_id started \<and> j_request_id claimed = j_request_id started \<and> j_grant_id claimed = j_grant_id started \<and>
     j_agent claimed = j_agent started \<and> j_target claimed = j_target started \<and> j_command_sha256 claimed = j_command_sha256 started \<and>
     j_approval_id claimed = j_approval_id started \<and> j_risk_category claimed = j_risk_category started \<and>
     j_scope_key claimed = j_scope_key started \<and> j_expires_at claimed = j_expires_at started \<and> j_argv claimed = j_argv started"

definition complete_call :: "'s port \<Rightarrow> string \<Rightarrow> claim \<Rightarrow> job_result \<Rightarrow> err option \<Rightarrow> 's \<Rightarrow> 's run" where
  "complete_call p worker claim result cause s =
     (case po_complete p worker claim result s of
        (s1, r) \<Rightarrow> (s1, [Call_Complete claim result r], True, case r of Some e \<Rightarrow> Some e | None \<Rightarrow> cause))"

definition complete_local_failure :: "'s port \<Rightarrow> string \<Rightarrow> claim \<Rightarrow> string \<Rightarrow> err \<Rightarrow> 's \<Rightarrow> 's run" where
  "complete_local_failure p worker claim kind cause s = complete_call p worker claim (failure kind) (Some cause) s"

text \<open>The monitor: checks at each tick until one fails, which cancels the execution; the error of a check after the stop is dropped.\<close>

fun monitor :: "'s port \<Rightarrow> string \<Rightarrow> claim \<Rightarrow> nat \<Rightarrow> bool \<Rightarrow> 's \<Rightarrow> 's \<times> call list \<times> err option" where
  "monitor p worker claim 0 late s =
     (if late then (case po_check p worker claim s of (s1, r) \<Rightarrow> (s1, [Call_Check claim r], None)) else (s, [], None))"
| "monitor p worker claim (Suc n) late s =
     (case po_check p worker claim s of
        (s1, Some e) \<Rightarrow> (s1, [Call_Check claim (Some e)], Some e)
      | (s1, None) \<Rightarrow> (case monitor p worker claim n late s1 of (s2, cs, lost) \<Rightarrow> (s2, Call_Check claim None # cs, lost)))"

definition settle :: "err option \<Rightarrow> job_result \<Rightarrow> err option \<Rightarrow> job_result \<times> err option" where
  "settle authority_err result execute_err =
     (case authority_err of
        Some e \<Rightarrow>
          (result\<lparr>res_success := False, res_exit_code := (if res_exit_code result = 0 then -1 else res_exit_code result),
             res_error_kind := ''execution_authority_lost''\<rparr>, Some e)
      | None \<Rightarrow>
          (case execute_err of
             Some e \<Rightarrow>
               (result\<lparr>res_success := False,
                  res_error_kind := (if trim_space (res_error_kind result) = [] then ''executor_error'' else res_error_kind result)\<rparr>, Some e)
           | None \<Rightarrow> (result, None)))"

definition complete_execution_call :: "'s port \<Rightarrow> string \<Rightarrow> claim \<Rightarrow> job_result \<Rightarrow> exec_output \<Rightarrow> err option \<Rightarrow> 's \<Rightarrow> 's run" where
  "complete_execution_call p worker claim result output err s =
     (if \<not> eo_empty output then
        (case po_complete_output p of
           None \<Rightarrow> (s, [], True, Some (Err_Msg ''worker control does not support captured execution output''))
         | Some f \<Rightarrow>
             (case f worker claim result output s of
                (s1, r) \<Rightarrow> (s1, [Call_Complete_Output claim result output r], True, case r of Some e \<Rightarrow> Some e | None \<Rightarrow> err)))
      else complete_call p worker claim result err s)"

text \<open>The execution under the monitor; the executor's call is recorded when it returns.\<close>

definition execute_monitored ::
    "'s port \<Rightarrow> moment \<Rightarrow> string \<Rightarrow> claim \<Rightarrow> job \<Rightarrow> credential \<Rightarrow> target_spec \<Rightarrow> 's \<Rightarrow> 's run" where
  "execute_monitored p m worker claim started cred target s =
     (case monitor p worker claim (mo_ticks m) (mo_late m) s of
        (s1, checks, lost) \<Rightarrow>
          (case po_execute p (lost \<noteq> None) started cred target s1 of
             (s2, result, output, execute_err) \<Rightarrow>
               (case settle lost result execute_err of
                  (final, err) \<Rightarrow>
                    (case complete_execution_call p worker claim final output err s2 of
                       (s3, cs, did, e) \<Rightarrow>
                         (s3, checks @ Call_Execute started cred target (result, output, execute_err) # cs, did, e)))))"

definition after :: "call list \<Rightarrow> 's run \<Rightarrow> 's run" where
  "after cs r = (case r of (s, ds, did, e) \<Rightarrow> (s, cs @ ds, did, e))"

definition run_started :: "client_lib \<Rightarrow> 's port \<Rightarrow> moment \<Rightarrow> string \<Rightarrow> claim \<Rightarrow> job \<Rightarrow> 's \<Rightarrow> 's run" where
  "run_started cl p m worker claim started s =
     (if j_expires_at started - mo_now m \<le> 0
      then complete_call p worker claim (failure ''job_expired_before_execution'') None s
      else case mo_key m of
        Inl e \<Rightarrow> complete_local_failure p worker claim ''ephemeral_key_generation_failed'' e s
      | Inr (key, public) \<Rightarrow>
        (case po_issue p worker claim public s of
           (s1, Inl e) \<Rightarrow>
             after [Call_Issue claim public (Inl e)] (complete_local_failure p worker claim ''ssh_access_issuance_failed'' e s1)
         | (s1, Inr (certificate, target)) \<Rightarrow>
             after [Call_Issue claim public (Inr (certificate, target))]
               (case wi_bind cl (Some key) started certificate (mo_now m) of
                  Inl e \<Rightarrow> complete_local_failure p worker claim ''ssh_certificate_validation_failed'' e s1
                | Inr cred \<Rightarrow>
                  if ts_name target \<noteq> j_target started
                  then complete_local_failure p worker claim ''ssh_target_mismatch''
                    (Err_Msg ''resolved SSH target does not match running job'') s1
                  else
                  (case po_check p worker claim s1 of
                     (s2, Some e) \<Rightarrow>
                       after [Call_Check claim (Some e)] (complete_local_failure p worker claim ''execution_authority_denied'' e s2)
                   | (s2, None) \<Rightarrow>
                       after [Call_Check claim None] (execute_monitored p m worker claim started cred target s2)))))"

definition run_once :: "client_lib \<Rightarrow> 's port \<Rightarrow> moment \<Rightarrow> string \<Rightarrow> 's \<Rightarrow> 's run" where
  "run_once cl p m worker_id s =
     (let worker = trim_space worker_id in
      if worker = [] then (s, [], False, Some (Err_Msg ''worker id is required''))
      else case po_claim p worker s of
        (s1, Inl e) \<Rightarrow> (s1, [Call_Claim (Inl e)], False, Some e)
      | (s1, Inr claim) \<Rightarrow>
        after [Call_Claim (Inr claim)]
          (if j_status (fst claim) \<noteq> Claimed \<or> trim_space (snd claim) = []
           then (s1, [], False, Some (Err_Msg ''control plane returned an invalid claimed job''))
           else if \<not> verify_binding (fst claim)
           then (s1, [], False, Some (Err_Msg ''execution job command binding verification failed''))
           else case po_start p worker claim s1 of
             (s2, Inl e) \<Rightarrow> (s2, [Call_Start claim (Inl e)], True, Some e)
           | (s2, Inr started) \<Rightarrow>
             after [Call_Start claim (Inr started)]
               (if \<not> same_immutable_job (fst claim) started \<or> j_status started \<noteq> Running \<or> \<not> verify_binding started
                then (s2, [], True, Some (Err_Msg ''control plane returned an invalid started job''))
                else run_started cl p m worker claim started s2)))"

section \<open>The order of the calls\<close>

fun is_check :: "claim \<Rightarrow> call \<Rightarrow> bool" where
  "is_check c (Call_Check c' _) \<longleftrightarrow> c' = c"
| "is_check _ _ \<longleftrightarrow> False"

fun is_complete :: "claim \<Rightarrow> call \<Rightarrow> bool" where
  "is_complete c (Call_Complete c' _ _) \<longleftrightarrow> c' = c"
| "is_complete c (Call_Complete_Output c' _ _ _) \<longleftrightarrow> c' = c"
| "is_complete _ _ \<longleftrightarrow> False"

fun is_execute :: "call \<Rightarrow> bool" where
  "is_execute (Call_Execute _ _ _ _) \<longleftrightarrow> True"
| "is_execute _ \<longleftrightarrow> False"

lemma monitor_checks: "monitor p worker claim n late s = (s1, cs, lost) \<Longrightarrow> list_all (is_check claim) cs"
  by (induction n arbitrary: s s1 cs) (auto split: prod.splits option.splits if_splits)

lemma complete_call_calls:
  "complete_call p worker claim result cause s = (s1, cs, did, e) \<Longrightarrow> did \<and> (\<exists>r. cs = [Call_Complete claim result r])"
  by (auto simp: complete_call_def split: prod.splits)

lemma complete_execution_calls:
  "complete_execution_call p worker claim result output err s = (s1, cs, did, e) \<Longrightarrow>
     did \<and> (cs = [] \<and> po_complete_output p = None \<or> (\<exists>r. cs = [Call_Complete claim result r]) \<or> (\<exists>r. cs = [Call_Complete_Output claim result output r]))"
  by (auto simp: complete_execution_call_def dest: complete_call_calls split: prod.splits option.splits if_splits)

definition executes :: "call list \<Rightarrow> bool" where
  "executes tr \<longleftrightarrow> list_ex is_execute tr"

lemma executes_simps [simp]: "executes (c # cs) \<longleftrightarrow> is_execute c \<or> executes cs" "\<not> executes []" "executes (as @ bs) \<longleftrightarrow> executes as \<or> executes bs"
  by (simp_all add: executes_def)

lemma complete_call_quiet: "complete_call p worker claim result cause s = (s1, cs, did, e) \<Longrightarrow> \<not> executes cs"
  by (auto dest: complete_call_calls)

lemma after_eq: "after cs r = (s, tr, did, e) \<longleftrightarrow> (\<exists>ds. r = (s, ds, did, e) \<and> tr = cs @ ds)"
  by (cases r) (auto simp: after_def)

text \<open>An iteration that executes, step by step, with the states of the world each call was made in.\<close>

lemma run_started_executes:
  assumes "run_started cl p m worker claim started s = (s', tr, did, err)" and "executes tr"
  obtains key public s3 cert target cred s4 ds
  where "mo_now m < j_expires_at started" and "mo_key m = Inr (key, public)"
    and "po_issue p worker claim public s = (s3, Inr (cert, target))" and "wi_bind cl (Some key) started cert (mo_now m) = Inr cred"
    and "ts_name target = j_target started" and "po_check p worker claim s3 = (s4, None)"
    and "execute_monitored p m worker claim started cred target s4 = (s', ds, did, err)"
    and "tr = Call_Issue claim public (Inr (cert, target)) # Call_Check claim None # ds"
proof -
  note q = complete_call_quiet complete_local_failure_def after_eq
  have t: "mo_now m < j_expires_at started"
    using assms by (auto simp: run_started_def q split: if_splits dest: complete_call_quiet)
  obtain key public where k: "mo_key m = Inr (key, public)"
    using assms t by (cases "mo_key m") (auto simp: run_started_def q dest: complete_call_quiet)
  obtain s3 r where i: "po_issue p worker claim public s = (s3, r)" by force
  obtain cert target where r: "r = Inr (cert, target)"
    using assms t k i by (cases r) (auto simp: run_started_def q dest: complete_call_quiet)
  obtain ds0 where d: "(case wi_bind cl (Some key) started cert (mo_now m) of
          Inl e \<Rightarrow> complete_local_failure p worker claim ''ssh_certificate_validation_failed'' e s3
        | Inr cred \<Rightarrow>
          if ts_name target \<noteq> j_target started
          then complete_local_failure p worker claim ''ssh_target_mismatch'' (Err_Msg ''resolved SSH target does not match running job'') s3
          else (case po_check p worker claim s3 of
             (s2, Some e) \<Rightarrow> after [Call_Check claim (Some e)] (complete_local_failure p worker claim ''execution_authority_denied'' e s2)
           | (s2, None) \<Rightarrow> after [Call_Check claim None] (execute_monitored p m worker claim started cred target s2))) = (s', ds0, did, err)"
      and tr: "tr = Call_Issue claim public (Inr (cert, target)) # ds0" and x: "executes ds0"
    using assms t k i r by (auto simp: run_started_def after_eq)
  obtain cred where c: "wi_bind cl (Some key) started cert (mo_now m) = Inr cred"
    using d x by (cases "wi_bind cl (Some key) started cert (mo_now m)") (auto simp: q dest: complete_call_quiet)
  have n: "ts_name target = j_target started"
    using d x by (auto simp: c q split: if_splits dest: complete_call_quiet)
  obtain s4 z where h: "po_check p worker claim s3 = (s4, z)" by force
  have z: "z = None" using d x by (cases z) (auto simp: c n h q dest: complete_call_quiet)
  obtain ds where "execute_monitored p m worker claim started cred target s4 = (s', ds, did, err)" "ds0 = Call_Check claim None # ds"
    using d by (auto simp: c n h z after_eq)
  with that t k i r c n h z tr show thesis by blast
qed

fun begun :: "call \<Rightarrow> bool" where
  "begun (Call_Start _ (Inr _)) \<longleftrightarrow> True"
| "begun (Call_Execute _ _ _ _) \<longleftrightarrow> True"
| "begun _ \<longleftrightarrow> False"

lemma run_once_begun:
  assumes "run_once cl p m worker_id s = (s', tr, did, err)" and "list_ex begun tr"
  obtains s1 claim s2 started
  where "trim_space worker_id \<noteq> []" and "po_claim p (trim_space worker_id) s = (s1, Inr claim)"
    and "j_status (fst claim) = Claimed" "trim_space (snd claim) \<noteq> []" "verify_binding (fst claim)"
    and "po_start p (trim_space worker_id) claim s1 = (s2, Inr started)"
    and "\<exists>ds. (if \<not> same_immutable_job (fst claim) started \<or> j_status started \<noteq> Running \<or> \<not> verify_binding started
        then (s2, [], True, Some (Err_Msg ''control plane returned an invalid started job''))
        else run_started cl p m (trim_space worker_id) claim started s2) = (s', ds, did, err) \<and>
      tr = Call_Claim (Inr claim) # Call_Start claim (Inr started) # ds"
proof -
  let ?w = "trim_space worker_id"
  have w: "?w \<noteq> []" using assms by (auto simp: run_once_def Let_def)
  obtain s1 r where c: "po_claim p ?w s = (s1, r)" by force
  obtain claim where r: "r = Inr claim" using assms w c by (cases r) (auto simp: run_once_def Let_def)
  have v: "j_status (fst claim) = Claimed" "trim_space (snd claim) \<noteq> []" "verify_binding (fst claim)"
    using assms w c r by (auto simp: run_once_def Let_def after_eq split: if_splits)
  obtain s2 r2 where st: "po_start p ?w claim s1 = (s2, r2)" by force
  obtain started where r2: "r2 = Inr started"
    using assms w c r v st by (cases r2) (auto simp: run_once_def Let_def after_eq)
  show thesis
  proof (rule that [OF w c [unfolded r] v st [unfolded r2]])
    show "\<exists>ds. (if \<not> same_immutable_job (fst claim) started \<or> j_status started \<noteq> Running \<or> \<not> verify_binding started
          then (s2, [], True, Some (Err_Msg ''control plane returned an invalid started job''))
          else run_started cl p m ?w claim started s2) = (s', ds, did, err) \<and>
        tr = Call_Claim (Inr claim) # Call_Start claim (Inr started) # ds"
      using assms(1) w c r v st r2 by (simp add: run_once_def Let_def after_eq) (auto split: if_splits)
  qed
qed

lemma run_once_executes:
  assumes "run_once cl p m worker_id s = (s', tr, did, err)" and "executes tr"
  obtains s1 claim s2 started ds
  where "po_claim p (trim_space worker_id) s = (s1, Inr claim)" and "po_start p (trim_space worker_id) claim s1 = (s2, Inr started)"
    and "j_status (fst claim) = Claimed" "trim_space (snd claim) \<noteq> []" "verify_binding (fst claim)"
    and "same_immutable_job (fst claim) started" "j_status started = Running" "verify_binding started"
    and "run_started cl p m (trim_space worker_id) claim started s2 = (s', ds, did, err)" and "executes ds"
    and "tr = Call_Claim (Inr claim) # Call_Start claim (Inr started) # ds" and "trim_space worker_id \<noteq> []"
proof -
  have b: "list_ex begun tr"
    using assms(2) unfolding executes_def list_ex_iff by (metis begun.simps(2) is_execute.elims(2))
  obtain s1 claim s2 started ds where o: "trim_space worker_id \<noteq> []" "po_claim p (trim_space worker_id) s = (s1, Inr claim)"
      "j_status (fst claim) = Claimed" "trim_space (snd claim) \<noteq> []" "verify_binding (fst claim)"
      "po_start p (trim_space worker_id) claim s1 = (s2, Inr started)"
    and ds: "(if \<not> same_immutable_job (fst claim) started \<or> j_status started \<noteq> Running \<or> \<not> verify_binding started
        then (s2, [], True, Some (Err_Msg ''control plane returned an invalid started job''))
        else run_started cl p m (trim_space worker_id) claim started s2) = (s', ds, did, err)"
      "tr = Call_Claim (Inr claim) # Call_Start claim (Inr started) # ds"
    by (rule run_once_begun [OF assms(1) b]) blast
  have x: "executes ds" using assms(2) ds(2) by simp
  with ds(1) have k: "same_immutable_job (fst claim) started" "j_status started = Running" "verify_binding started"
    by (auto split: if_splits)
  with ds(1) have "run_started cl p m (trim_space worker_id) claim started s2 = (s', ds, did, err)" by simp
  with that o ds(2) x k show thesis by blast
qed

lemma execute_monitored_shape:
  assumes "execute_monitored p m worker claim started cred target s = (s', tr, did, err)"
  obtains s1 checks lost s2 result out xerr cs
  where "monitor p worker claim (mo_ticks m) (mo_late m) s = (s1, checks, lost)"
    and "po_execute p (lost \<noteq> None) started cred target s1 = (s2, result, out, xerr)"
    and "complete_execution_call p worker claim (fst (settle lost result xerr)) out (snd (settle lost result xerr)) s2 = (s', cs, did, err)"
    and "tr = checks @ Call_Execute started cred target (result, out, xerr) # cs"
  using assms that unfolding execute_monitored_def by (auto split: prod.splits)

lemma run_once_chain:
  assumes "run_once cl p m worker_id s = (s', tr, did, err)" and "Call_Execute j cred target rep \<in> set tr"
  obtains s1 claim s2 key public s3 cert s4 es checks cs
  where "po_claim p (trim_space worker_id) s = (s1, Inr claim)" and "po_start p (trim_space worker_id) claim s1 = (s2, Inr j)"
    and "po_issue p (trim_space worker_id) claim public s2 = (s3, Inr (cert, target))"
    and "po_check p (trim_space worker_id) claim s3 = (s4, None)"
    and "execute_monitored p m (trim_space worker_id) claim j cred target s4 = (s', es, did, err)"
    and "es = checks @ Call_Execute j cred target rep # cs"
    and "tr = [Call_Claim (Inr claim), Call_Start claim (Inr j), Call_Issue claim public (Inr (cert, target)), Call_Check claim None] @ es"
    and "list_all (is_check claim) checks" "list_all (is_complete claim) cs" "length cs \<le> 1"
    and "j_status (fst claim) = Claimed" "same_immutable_job (fst claim) j" "j_status j = Running" "verify_binding j"
    and "mo_now m < j_expires_at j" "mo_key m = Inr (key, public)" "wi_bind cl (Some key) j cert (mo_now m) = Inr cred"
    and "ts_name target = j_target j"
proof -
  have x: "executes tr" using assms(2) unfolding executes_def list_ex_iff by (metis is_execute.simps(1))
  from assms(1) x obtain s1 s2 claim started ds where c: "po_claim p (trim_space worker_id) s = (s1, Inr claim)"
      "po_start p (trim_space worker_id) claim s1 = (s2, Inr started)" "j_status (fst claim) = Claimed" "same_immutable_job (fst claim) started"
      "j_status started = Running" "verify_binding started"
    and rs: "run_started cl p m (trim_space worker_id) claim started s2 = (s', ds, did, err)" and xd: "executes ds"
    and tr: "tr = Call_Claim (Inr claim) # Call_Start claim (Inr started) # ds"
    by (rule run_once_executes)
  from rs xd obtain key public s3 cert tg cd s4 es where i: "mo_now m < j_expires_at started" "mo_key m = Inr (key, public)"
      "po_issue p (trim_space worker_id) claim public s2 = (s3, Inr (cert, tg))" "wi_bind cl (Some key) started cert (mo_now m) = Inr cd"
      "ts_name tg = j_target started" "po_check p (trim_space worker_id) claim s3 = (s4, None)"
    and e: "execute_monitored p m (trim_space worker_id) claim started cd tg s4 = (s', es, did, err)"
    and ds: "ds = Call_Issue claim public (Inr (cert, tg)) # Call_Check claim None # es"
    by (rule run_started_executes)
  from e obtain s5 checks lost s6 result out xerr cs where mo: "monitor p (trim_space worker_id) claim (mo_ticks m) (mo_late m) s4 = (s5, checks, lost)"
    and cc: "complete_execution_call p (trim_space worker_id) claim (fst (settle lost result xerr)) out (snd (settle lost result xerr)) s6 = (s', cs, did, err)"
    and es: "es = checks @ Call_Execute started cd tg (result, out, xerr) # cs"
    by (rule execute_monitored_shape)
  have ch: "list_all (is_check claim) checks" using monitor_checks [OF mo] .
  have cs: "list_all (is_complete claim) cs" "length cs \<le> 1" using complete_execution_calls [OF cc] by auto
  have "Call_Execute j cred target rep \<notin> set checks" "Call_Execute j cred target rep \<notin> set cs"
    using ch cs(1) by (auto simp: list_all_iff)
  with assms(2) have k: "started = j" "cd = cred" "tg = target" "(result, out, xerr) = rep" by (auto simp: tr ds es)
  show thesis
    by (rule that [OF c(1,2) [unfolded k] i(3) [unfolded k] i(6) e [unfolded k] es [unfolded k] _ ch cs c(3) c(4-6) [unfolded k]
        i(1) [unfolded k] i(2) i(4,5) [unfolded k]]) (simp add: tr ds k)
qed

text \<open>
  The worker executes in order: an iteration that reaches the executor has claimed a job, started it, obtained a certificate and a target
  for it and found its authority confirmed, in this order and before; the job it executes is the running job that was claimed, with a
  valid binding and not expired, under a certificate bound to its own key and on the job's target; after it comes at most one completion.
\<close>
theorem worker_executes_in_order:
  assumes "run_once cl p m worker_id s = (s', tr, did, err)" and "Call_Execute j cred target rep \<in> set tr"
  shows "\<exists>claim key public cert checks cs.
    tr = [Call_Claim (Inr claim), Call_Start claim (Inr j), Call_Issue claim public (Inr (cert, target)), Call_Check claim None]
      @ checks @ Call_Execute j cred target rep # cs \<and>
    list_all (is_check claim) checks \<and> list_all (is_complete claim) cs \<and> length cs \<le> 1 \<and>
    j_status (fst claim) = Claimed \<and> same_immutable_job (fst claim) j \<and> j_status j = Running \<and> verify_binding j \<and>
    mo_now m < j_expires_at j \<and> mo_key m = Inr (key, public) \<and> wi_bind cl (Some key) j cert (mo_now m) = Inr cred \<and>
    ts_name target = j_target j"
  by (rule run_once_chain [OF assms]) auto

section \<open>The report\<close>

fun is_completion :: "call \<Rightarrow> bool" where
  "is_completion (Call_Complete _ _ _) \<longleftrightarrow> True"
| "is_completion (Call_Complete_Output _ _ _ _) \<longleftrightarrow> True"
| "is_completion _ \<longleftrightarrow> False"

fun refused :: "call \<Rightarrow> bool" where
  "refused (Call_Check _ (Some _)) \<longleftrightarrow> True"
| "refused _ \<longleftrightarrow> False"

definition reports :: "claim \<Rightarrow> job_result \<Rightarrow> call \<Rightarrow> bool" where
  "reports claim result c \<longleftrightarrow> (\<exists>r. c = Call_Complete claim result r) \<or> (\<exists>out r. c = Call_Complete_Output claim result out r)"

text \<open>
  The calls end with one report of the claim; a report of success is the executor's own, and no authority check was refused, unless one
  was still under way when the command had ended.
\<close>

definition truthful :: "moment \<Rightarrow> claim \<Rightarrow> call list \<Rightarrow> bool" where
  "truthful m claim tr \<longleftrightarrow>
     (\<exists>cs c result. tr = cs @ [c] \<and> list_all (\<lambda>d. \<not> is_completion d) cs \<and> reports claim result c \<and>
        (res_success result \<longrightarrow> (\<exists>j cred target out. Call_Execute j cred target (result, out, None) \<in> set cs) \<and>
           (mo_late m \<or> \<not> list_ex refused cs)))"

definition unreported :: "'s port \<Rightarrow> call list \<Rightarrow> bool" where
  "unreported p tr \<longleftrightarrow> po_complete_output p = None \<and> list_all (\<lambda>d. \<not> is_completion d) tr"

definition settled :: "'s port \<Rightarrow> moment \<Rightarrow> claim \<Rightarrow> 's run \<Rightarrow> bool" where
  "settled p m claim r \<longleftrightarrow> (case r of (s, tr, did, e) \<Rightarrow> did \<and> (truthful m claim tr \<or> unreported p tr))"

lemma settled_failure: "\<not> res_success result \<Longrightarrow> settled p m claim (complete_call p worker claim result cause s)"
  by (cases "complete_call p worker claim result cause s")
    (auto simp: settled_def truthful_def reports_def dest!: complete_call_calls intro!: exI [of _ "[]"])

lemma settled_local_failure: "settled p m claim (complete_local_failure p worker claim kind cause s)"
  unfolding complete_local_failure_def by (rule settled_failure) (simp add: failure_def)

lemma truthful_after:
  assumes "\<not> is_completion c" "\<not> refused c" "truthful m claim tr"
  shows "truthful m claim (c # tr)"
proof -
  from assms(3) obtain cs d result where "tr = cs @ [d]" "list_all (\<lambda>d. \<not> is_completion d) cs" "reports claim result d"
    "res_success result \<longrightarrow> (\<exists>j cred target out. Call_Execute j cred target (result, out, None) \<in> set cs) \<and> (mo_late m \<or> \<not> list_ex refused cs)"
    unfolding truthful_def by blast
  with assms(1,2) show ?thesis
    unfolding truthful_def by (intro exI [of _ "c # cs"] exI [of _ d] exI [of _ result]) auto
qed

lemma settled_after: "\<not> is_completion c \<Longrightarrow> \<not> refused c \<Longrightarrow> settled p m claim r \<Longrightarrow> settled p m claim (after [c] r)"
  by (cases r) (auto simp: settled_def after_def unreported_def truthful_after)

lemma settled_refused:
  assumes "\<not> res_success result"
  shows "settled p m claim (after [c] (complete_call p worker claim result cause s)) \<or> is_completion c"
proof -
  obtain s1 cs did e where q: "complete_call p worker claim result cause s = (s1, cs, did, e)" by (metis prod_cases4)
  from complete_call_calls [OF q] obtain r where "did" "cs = [Call_Complete claim result r]" by blast
  then have "truthful m claim ([c] @ cs) \<or> is_completion c"
    unfolding truthful_def reports_def using assms by (auto intro!: exI [of _ "[c]"])
  with q \<open>did\<close> show ?thesis by (auto simp: settled_def after_def)
qed

lemma monitor_lost:
  assumes "monitor p worker claim n late s = (s1, cs, lost)"
  shows "lost = None \<Longrightarrow> late \<or> \<not> list_ex refused cs" and "list_all (\<lambda>d. \<not> is_completion d) cs"
  using assms by (induction n arbitrary: s s1 cs) (auto split: prod.splits option.splits if_splits)

lemma settle_success: "res_success (fst (settle lost result xerr)) \<Longrightarrow> lost = None \<and> xerr = None \<and> fst (settle lost result xerr) = result"
  by (auto simp: settle_def split: option.splits)

lemma settled_execution: "settled p m claim (execute_monitored p m worker claim started cred target s)"
proof -
  obtain s' tr did err where e: "execute_monitored p m worker claim started cred target s = (s', tr, did, err)" by (metis prod_cases4)
  from e obtain s1 checks lost s2 result out xerr cs where mo: "monitor p worker claim (mo_ticks m) (mo_late m) s = (s1, checks, lost)"
    and cc: "complete_execution_call p worker claim (fst (settle lost result xerr)) out (snd (settle lost result xerr)) s2 = (s', cs, did, err)"
    and tr: "tr = checks @ Call_Execute started cred target (result, out, xerr) # cs"
    by (rule execute_monitored_shape)
  let ?x = "Call_Execute started cred target (result, out, xerr)" and ?f = "fst (settle lost result xerr)"
  note ml = monitor_lost [OF mo]
  from complete_execution_calls [OF cc] consider (none) "cs = []" "po_complete_output p = None" | (one) c where "cs = [c]" "reports claim ?f c"
    by (auto simp: reports_def)
  then have "truthful m claim tr \<or> unreported p tr"
  proof cases
    case none
    then show ?thesis using ml(2) by (simp add: unreported_def tr)
  next
    case one
    have "(\<exists>j cred target out. Call_Execute j cred target (?f, out, None) \<in> set (checks @ [?x])) \<and> (mo_late m \<or> \<not> list_ex refused (checks @ [?x]))"
      if "res_success ?f"
    proof -
      have s: "lost = None" "xerr = None" "?f = result" using settle_success [OF that] by blast+
      then have "Call_Execute started cred target (?f, out, None) \<in> set (checks @ [?x])" by simp
      moreover have "mo_late m \<or> \<not> list_ex refused (checks @ [?x])" using ml(1) [OF s(1)] by simp
      ultimately show ?thesis by blast
    qed
    moreover have "tr = (checks @ [?x]) @ [c]" using one(1) tr by simp
    moreover have "list_all (\<lambda>d. \<not> is_completion d) (checks @ [?x])" using ml(2) by simp
    ultimately show ?thesis using one(2) unfolding truthful_def by blast
  qed
  moreover have "did" using complete_execution_calls [OF cc] by blast
  ultimately show ?thesis using e by (simp add: settled_def)
qed

lemma settled_started: "settled p m claim (run_started cl p m worker claim started s)"
proof -
  have r: "settled p m claim (after [Call_Check claim x] (complete_local_failure p worker claim kind cause s1))" for x kind cause s1
    using settled_refused [of "failure kind" p m claim "Call_Check claim x"] by (simp add: complete_local_failure_def failure_def)
  have f: "settled p m claim (complete_call p worker claim (failure ''job_expired_before_execution'') None s)"
    by (rule settled_failure) (simp add: failure_def)
  have a: "settled p m claim (after [Call_Issue claim public x] q)" "settled p m claim (after [Call_Check claim None] q)"
    if "settled p m claim q" for public x q
    using that by (simp_all add: settled_after)
  show ?thesis
    unfolding run_started_def
    by (auto simp: f r settled_local_failure settled_execution a split: sum.split prod.split option.split)
qed

text \<open>The one start of an iteration is the second call.\<close>

definition startless :: "'s run \<Rightarrow> bool" where
  "startless r \<longleftrightarrow> (\<forall>claim j. Call_Start claim j \<notin> set (fst (snd r)))"

lemma startless_complete: "startless (complete_call p worker claim result cause s)" "startless (complete_local_failure p worker claim kind c s)"
  by (auto simp: startless_def complete_call_def complete_local_failure_def split: prod.split)

lemma startless_execution: "startless (execute_monitored p m worker claim started cred target s)"
proof -
  obtain s' tr did err where e: "execute_monitored p m worker claim started cred target s = (s', tr, did, err)" by (metis prod_cases4)
  from e obtain s1 checks lost s2 result out xerr cs where mo: "monitor p worker claim (mo_ticks m) (mo_late m) s = (s1, checks, lost)"
    and cc: "complete_execution_call p worker claim (fst (settle lost result xerr)) out (snd (settle lost result xerr)) s2 = (s', cs, did, err)"
    and tr: "tr = checks @ Call_Execute started cred target (result, out, xerr) # cs"
    by (rule execute_monitored_shape)
  have "Call_Start c j \<notin> set checks" for c j using monitor_checks [OF mo] by (auto simp: list_all_iff)
  moreover have "Call_Start c j \<notin> set cs" for c j using complete_execution_calls [OF cc] by auto
  ultimately show ?thesis by (simp add: e startless_def tr)
qed

lemma startless_started: "startless (run_started cl p m worker claim started s)"
proof -
  have a: "startless (after [Call_Issue claim public x] q)" "startless (after [Call_Check claim y] q)" if "startless q" for public x y q
    using that by (cases q; simp add: startless_def after_def)+
  show ?thesis
    unfolding run_started_def
    by (auto simp: startless_complete startless_execution a split: sum.split prod.split option.split)
qed


section \<open>Runs through a port\<close>

text \<open>The interface the rest uses of a port: what it does to the part of the world an observer reads is a sequence of steps.\<close>

locale stepping_port =
  fixes view :: "'s \<Rightarrow> 'c" and step :: "'c \<Rightarrow> 'c \<Rightarrow> bool" and p :: "'s port"
  assumes claim_steps: "step\<^sup>*\<^sup>* (view s) (view (fst (po_claim p worker s)))"
    and start_steps: "step\<^sup>*\<^sup>* (view s) (view (fst (po_start p worker claim s)))"
    and issue_steps: "step\<^sup>*\<^sup>* (view s) (view (fst (po_issue p worker claim public s)))"
    and check_steps: "step\<^sup>*\<^sup>* (view s) (view (fst (po_check p worker claim s)))"
    and complete_steps: "step\<^sup>*\<^sup>* (view s) (view (fst (po_complete p worker claim result s)))"
    and output_steps: "po_complete_output p = Some f \<Longrightarrow> step\<^sup>*\<^sup>* (view s) (view (fst (f worker claim result out s)))"
    and execute_steps: "step\<^sup>*\<^sup>* (view s) (view (fst (po_execute p canceled j cred target s)))"
begin

lemma after_fst [simp]: "fst (after cs r) = fst r"
  by (cases r) (simp add: after_def)

lemma complete_call_steps: "step\<^sup>*\<^sup>* (view s) (view (fst (complete_call p worker claim result cause s)))"
  using complete_steps [of s worker claim result] by (auto simp: complete_call_def split: prod.split)

lemma monitor_steps: "monitor p worker claim n late s = (s1, cs, lost) \<Longrightarrow> step\<^sup>*\<^sup>* (view s) (view s1)"
proof (induction n arbitrary: s s1 cs)
  case 0
  then show ?case using check_steps [of s worker claim] by (auto split: if_splits prod.splits)
next
  case (Suc n)
  obtain s2 r where c: "po_check p worker claim s = (s2, r)" by force
  have "step\<^sup>*\<^sup>* (view s) (view s2)" using check_steps [of s worker claim] c by simp
  moreover have "step\<^sup>*\<^sup>* (view s2) (view s1)"
    using Suc.prems Suc.IH c by (cases r) (auto split: prod.splits)
  ultimately show ?case by simp
qed

lemma complete_execution_steps: "step\<^sup>*\<^sup>* (view s) (view (fst (complete_execution_call p worker claim result out err s)))"
  using output_steps [of _ s worker claim result out] complete_call_steps [of s worker claim result]
  by (fastforce simp: complete_execution_call_def split: option.split prod.split)

lemma execute_monitored_steps: "step\<^sup>*\<^sup>* (view s) (view (fst (execute_monitored p m worker claim started cred target s)))"
proof -
  obtain s' tr did err where e: "execute_monitored p m worker claim started cred target s = (s', tr, did, err)" by (metis prod_cases4)
  from e obtain s1 checks lost s2 result out xerr cs where mo: "monitor p worker claim (mo_ticks m) (mo_late m) s = (s1, checks, lost)"
    and x: "po_execute p (lost \<noteq> None) started cred target s1 = (s2, result, out, xerr)"
    and cc: "complete_execution_call p worker claim (fst (settle lost result xerr)) out (snd (settle lost result xerr)) s2 = (s', cs, did, err)"
    by (rule execute_monitored_shape)
  have "step\<^sup>*\<^sup>* (view s1) (view s2)" using execute_steps [of s1 "lost \<noteq> None" started cred target] x by simp
  moreover have "step\<^sup>*\<^sup>* (view s2) (view s')"
    using complete_execution_steps [of s2 worker claim "fst (settle lost result xerr)" out "snd (settle lost result xerr)"] cc by simp
  ultimately show ?thesis using monitor_steps [OF mo] e by simp
qed

lemma run_started_steps: "step\<^sup>*\<^sup>* (view s) (view (fst (run_started cl p m worker claim started s)))"
proof (cases "j_expires_at started - mo_now m \<le> 0 \<or> (\<exists>e. mo_key m = Inl e)")
  case True
  then show ?thesis by (auto simp: run_started_def complete_local_failure_def complete_call_steps split: sum.split)
next
  case False
  then obtain key public where k: "mo_key m = Inr (key, public)" by (cases "mo_key m") auto
  obtain s1 r where i: "po_issue p worker claim public s = (s1, r)" by force
  obtain s2 z where c: "po_check p worker claim s1 = (s2, z)" by force
  have i1: "step\<^sup>*\<^sup>* (view s) (view s1)" using issue_steps [of s worker claim public] i by simp
  have i2: "step\<^sup>*\<^sup>* (view s) (view s2)" using check_steps [of s1 worker claim] c i1 by simp
  have f: "step\<^sup>*\<^sup>* (view s) (view (fst (complete_local_failure p worker claim kind e s1)))"
      "step\<^sup>*\<^sup>* (view s) (view (fst (complete_local_failure p worker claim kind e s2)))" for kind e
    unfolding complete_local_failure_def by (rule rtranclp_trans [OF i1 complete_call_steps] rtranclp_trans [OF i2 complete_call_steps])+
  have x: "step\<^sup>*\<^sup>* (view s) (view (fst (execute_monitored p m worker claim started cred target s2)))" for cred target
    by (rule rtranclp_trans [OF i2 execute_monitored_steps])
  show ?thesis
    using False by (auto simp: run_started_def k i c f x split: sum.split option.split)
qed

lemma run_once_steps: "step\<^sup>*\<^sup>* (view s) (view (fst (run_once cl p m worker_id s)))"
proof -
  let ?w = "trim_space worker_id"
  obtain s1 r where c: "po_claim p ?w s = (s1, r)" by force
  have i1: "step\<^sup>*\<^sup>* (view s) (view s1)" using claim_steps [of s ?w] c by simp
  show ?thesis
  proof (cases r)
    case (Inr claim)
    obtain s2 z where st: "po_start p ?w claim s1 = (s2, z)" by force
    have i2: "step\<^sup>*\<^sup>* (view s) (view s2)" using start_steps [of s1 ?w claim] st i1 by simp
    have "step\<^sup>*\<^sup>* (view s) (view (fst (run_started cl p m ?w claim started s2)))" for started
      by (rule rtranclp_trans [OF i2 run_started_steps])
    then show ?thesis using i1 i2 by (auto simp: run_once_def Let_def c Inr st split: sum.split)
  qed (use i1 in \<open>auto simp: run_once_def Let_def c\<close>)
qed

end

section \<open>A concrete iteration\<close>

definition demo_claim :: claim where
  "demo_claim = (timed_job\<lparr>j_status := Claimed\<rparr>, ''jcl_t'')"

definition demo_result :: job_result where
  "demo_result = \<lparr>res_success = True, res_exit_code = 0, res_output_sha256 = [], res_error_kind = []\<rparr>"

definition demo_port :: "unit port" where
  "demo_port = \<lparr>po_claim = (\<lambda>_ s. (s, Inr demo_claim)), po_start = (\<lambda>_ _ s. (s, Inr timed_job)),
     po_issue = (\<lambda>_ _ _ s. (s, Inr (plain_response, demo_target))), po_check = (\<lambda>_ _ s. (s, None)),
     po_complete = (\<lambda>_ _ _ s. (s, None)), po_complete_output = None, po_execute = (\<lambda>_ _ _ _ s. (s, demo_result, no_output, None))\<rparr>"

definition demo_moment :: moment where
  "demo_moment = \<lparr>mo_now = demo_now, mo_key = Inr (demo_key_blob, ''ssh-ed25519 AAAA''), mo_ticks = 1, mo_late = False\<rparr>"

definition demo_trace :: "call list" where
  "demo_trace =
     [Call_Claim (Inr demo_claim), Call_Start demo_claim (Inr timed_job), Call_Issue demo_claim ''ssh-ed25519 AAAA'' (Inr (plain_response, demo_target)),
      Call_Check demo_claim None, Call_Check demo_claim None, Call_Execute timed_job plain_credential demo_target (demo_result, no_output, None),
      Call_Complete demo_claim demo_result None]"

lemma demo_iteration:
  "run_once (demo_client plain_cert) demo_port demo_moment ''w'' () = ((), demo_trace, True, None)"
proof -
  have t: "trim_space ''w'' = ''w''" "trim_space ''jcl_t'' = ''jcl_t''" by code_simp+
  have c: "fst demo_claim = timed_job\<lparr>j_status := Claimed\<rparr>" "snd demo_claim = ''jcl_t''" by (simp_all add: demo_claim_def)
  have b: "verify_binding (timed_job\<lparr>j_status := Claimed\<rparr>)" using timed_bound(1) by (simp add: verify_binding_def)
  have s: "same_immutable_job (timed_job\<lparr>j_status := Claimed\<rparr>) timed_job" by (simp add: same_immutable_job_def)
  have n: "\<not> j_expires_at timed_job \<le> demo_now"
  proof
    assume "j_expires_at timed_job \<le> demo_now"
    from unix_mono [OF this] show False by (simp add: demo_unix timed_expiry)
  qed
  have n': "ts_name demo_target = j_target timed_job" by (simp add: demo_target_def timed_job_def wire_job_def)
  show ?thesis
    unfolding run_once_def Let_def
    by (simp add: demo_port_def t c b s timed_bound after_def run_started_def n n' demo_moment_def demo_trace_def plain_binds execute_monitored_def settle_def
        complete_execution_call_def complete_call_def no_output_def eo_empty_def)
qed

theorem worker_executes_in_order_witness:
  "run_once (demo_client plain_cert) demo_port demo_moment ''w'' () = ((), demo_trace, True, None) \<and>
   (\<exists>claim public cert. take 4 demo_trace = [Call_Claim (Inr claim), Call_Start claim (Inr timed_job),
      Call_Issue claim public (Inr (cert, demo_target)), Call_Check claim None])"
proof -
  have "Call_Execute timed_job plain_credential demo_target (demo_result, no_output, None) \<in> set demo_trace"
    by (simp add: demo_trace_def)
  from worker_executes_in_order [OF demo_iteration this] obtain claim public cert rest where
    e: "demo_trace = [Call_Claim (Inr claim), Call_Start claim (Inr timed_job), Call_Issue claim public (Inr (cert, demo_target)), Call_Check claim None] @ rest"
    by blast
  have "take 4 demo_trace = [Call_Claim (Inr claim), Call_Start claim (Inr timed_job), Call_Issue claim public (Inr (cert, demo_target)), Call_Check claim None]"
    by (subst e) simp
  with demo_iteration show ?thesis by blast
qed


end
