(* ===== verification/Worker_Plane.thy ===== *)
theory Worker_Plane
  imports Worker
begin

text \<open>
  The worker against the control plane: its client (\<open>internal/workerclient\<close>), and the port that is the modelled control plane and credential
  API behind a network that may lose requests and replies, with the requests of other clients between any two calls. The theorem of this
  theory follows what a worker executes back to the operator's authority.
\<close>

section \<open>The client of the control plane\<close>

text \<open>
  The client (\<open>internal/workerclient\<close>) makes of each HTTP reply a result or an error; the text of a request and of a reply is JSON, which the
  two ends encode and decode.
\<close>

definition wc_rejected :: err where "wc_rejected = Err_Msg ''request rejected''"

definition wc_claim :: "(job \<times> string) reply \<Rightarrow> err + claim" where
  "wc_claim r = (case r of Reply n x \<Rightarrow> if n = 204 then Inl Err_NoJob else if n \<noteq> 200 then Inl wc_rejected else Inr x
     | Reply_Empty n \<Rightarrow> if n = 204 then Inl Err_NoJob else Inl wc_rejected
     | Reply_Error n _ \<Rightarrow> if n = 204 then Inl Err_NoJob else Inl wc_rejected)"

definition wc_body :: "'a reply \<Rightarrow> err + 'a" where
  "wc_body r = (case r of Reply n x \<Rightarrow> if n \<noteq> 200 then Inl wc_rejected else Inr x | _ \<Rightarrow> Inl wc_rejected)"

definition wc_access :: "claim \<Rightarrow> cert_response reply \<Rightarrow> err + sign_response \<times> target_spec" where
  "wc_access claim r =
     (case wc_body r of
        Inl e \<Rightarrow> Inl e
      | Inr out \<Rightarrow>
          if j_id (cr_job out) \<noteq> j_id (fst claim) \<or> ts_name (cr_target out) \<noteq> j_target (fst claim)
          then Inl (Err_Msg ''control plane returned SSH access for a different job or target'')
          else Inr (cr_certificate out, cr_target out))"

definition wc_authority :: "(nat \<times> string) + (string + time) \<Rightarrow> err option" where
  "wc_authority r =
     (case r of
        Inl (status, _) \<Rightarrow> Some wc_rejected
      | Inr (Inl reason0) \<Rightarrow>
          (let reason = trim_space reason0 in
           Some (Err_Msg (''execution authority denied: '' @ (if reason = [] then ''unspecified'' else reason))))
      | Inr (Inr until) \<Rightarrow> None)"

definition wc_complete :: "'a reply \<Rightarrow> err option" where
  "wc_complete r = (case wc_body r of Inl e \<Rightarrow> Some e | Inr _ \<Rightarrow> None)"

section \<open>The control plane as the worker's port\<close>

datatype net_fault = Net_Ok | Net_Request_Lost | Net_Reply_Lost

text \<open>A request of another client of the control plane. A submission draws identifiers that are not in use.\<close>

datatype request =
    Rq_Submit env "string + submit_request"
  | Rq_Claim env "string + string"
  | Rq_Start env string "string + string \<times> string"
  | Rq_Complete env string "string + string \<times> string \<times> job_result \<times> exec_output"
  | Rq_Issue_Grant env "string + issue_request"
  | Rq_Revoke env string
  | Rq_Decide env string "string + ap_decision"
  | Rq_Revoke_All env string time
  | Rq_Enable env string time
  | Rq_Certificate string string env "sign_request \<Rightarrow> err + sign_response" "target_store option" string "string + cert_request"

fun serve :: "request \<Rightarrow> control \<Rightarrow> control" where
  "serve (Rq_Submit env body) c = (if co_fresh_ids env c then fst (submit_command env body c) else c)"
| "serve (Rq_Claim env body) c = fst (guarded_claim env body c)"
| "serve (Rq_Start env i body) c = fst (start_execution env i body c)"
| "serve (Rq_Complete env i body) c = fst (complete_execution env i body c)"
| "serve (Rq_Issue_Grant env body) c = fst (issue_grant env body c)"
| "serve (Rq_Revoke env i) c = fst (revoke_grant env i c)"
| "serve (Rq_Decide env i d) c = fst (decide_approval env i d c)"
| "serve (Rq_Revoke_All env reason at) c = fst (co_revoke_all env reason at c)"
| "serve (Rq_Enable env reason at) c = fst (co_enable env reason at c)"
| "serve (Rq_Certificate sha header env signer targets i body) c = fst (credential_api sha header env signer targets i body c)"

text \<open>
  A world: the control plane, a counter of what has happened, and the SSH requests that reached the network. The plane gives each moment
  its clock and random bytes, what other clients do just before it, what the network does, the signer's and the targets' answers.
\<close>

record world =
  wd_control :: control
  wd_tick :: nat
  wd_sent :: "ssh_request list"

record plane =
  pl_worker_sha :: string
  pl_token :: string
  pl_env :: "nat \<Rightarrow> env"
  pl_others :: "nat \<Rightarrow> request list"
  pl_net :: "nat \<Rightarrow> net_fault"
  pl_signer :: "nat \<Rightarrow> sign_request \<Rightarrow> err + sign_response"
  pl_targets :: "target_store option"
  pl_lib :: ssh_lib
  pl_executor :: executor
  pl_answer :: "nat \<Rightarrow> bool \<Rightarrow> ssh_request \<Rightarrow> ssh_answer"

definition others :: "plane \<Rightarrow> nat \<Rightarrow> control \<Rightarrow> control" where
  "others P n c = fold serve (pl_others P n) c"

definition via_net ::
    "plane \<Rightarrow> (env \<Rightarrow> control \<Rightarrow> control \<times> 'r) \<Rightarrow> ('r \<Rightarrow> 'a) \<Rightarrow> 'a \<Rightarrow> world \<Rightarrow> world \<times> 'a" where
  "via_net P handler read lost w =
     (let n = wd_tick w; c = others P n (wd_control w); w1 = w\<lparr>wd_control := c, wd_tick := Suc n\<rparr> in
      case pl_net P n of
        Net_Request_Lost \<Rightarrow> (w1, lost)
      | Net_Reply_Lost \<Rightarrow> (w1\<lparr>wd_control := fst (handler (pl_env P n) c)\<rparr>, lost)
      | Net_Ok \<Rightarrow> (case handler (pl_env P n) c of (c1, r) \<Rightarrow> (w1\<lparr>wd_control := c1\<rparr>, read r)))"

definition authorized :: "plane \<Rightarrow> (env \<Rightarrow> control \<Rightarrow> control \<times> 'a reply) \<Rightarrow> env \<Rightarrow> control \<Rightarrow> control \<times> 'a reply" where
  "authorized P handler env c = require_bearer_sha (pl_worker_sha P) ''worker authentication required'' (''Bearer '' @ pl_token P) (handler env c) c"

text \<open>The authority check reads the control plane at four moments.\<close>

definition plane_check :: "plane \<Rightarrow> string \<Rightarrow> claim \<Rightarrow> world \<Rightarrow> world \<times> err option" where
  "plane_check P worker claim w =
     (let n = wd_tick w; c0 = others P n (wd_control w); c1 = others P (n + 1) c0; c2 = others P (n + 2) c1; c3 = others P (n + 3) c2;
          r = wc_authority (co_check_authority (pl_env P n) (j_id (fst claim)) worker (snd claim) c0 c1 c2 c3) in
      (w\<lparr>wd_control := c3, wd_tick := n + 4\<rparr>, if pl_net P n = Net_Ok then r else Some Err_IO))"

definition plane_execute :: "plane \<Rightarrow> bool \<Rightarrow> job \<Rightarrow> credential \<Rightarrow> target_spec \<Rightarrow> world \<Rightarrow> world \<times> exec_report" where
  "plane_execute P canceled j cred target w =
     (let n = wd_tick w in
      (w\<lparr>wd_tick := Suc n, wd_sent := wd_sent w @ (case execution_request (pl_lib P) (pl_executor P) j cred target of Inr rq \<Rightarrow> [rq] | Inl _ \<Rightarrow> [])\<rparr>,
       execute_captured (pl_lib P) (pl_executor P) (pl_answer P n canceled) j cred target))"

definition plane_port :: "plane \<Rightarrow> world port" where
  "plane_port P =
     \<lparr>po_claim = (\<lambda>worker. via_net P (authorized P (\<lambda>env. guarded_claim env (Inr worker))) wc_claim (Inl Err_IO)),
      po_start = (\<lambda>worker claim. via_net P (authorized P (\<lambda>env. start_execution env (j_id (fst claim)) (Inr (worker, snd claim)))) wc_body (Inl Err_IO)),
      po_issue = (\<lambda>worker claim public w. via_net P
        (\<lambda>env. credential_api (pl_worker_sha P) (''Bearer '' @ pl_token P) env (pl_signer P (wd_tick w)) (pl_targets P) (j_id (fst claim))
          (Inr \<lparr>cq_worker_id = worker, cq_claim_token = snd claim, cq_public_key = public\<rparr>)) (wc_access claim) (Inl Err_IO) w),
      po_check = plane_check P,
      po_complete = (\<lambda>worker claim result. via_net P
        (authorized P (\<lambda>env. complete_execution env (j_id (fst claim)) (Inr (worker, snd claim, result, no_output)))) wc_complete (Some Err_IO)),
      po_complete_output = Some (\<lambda>worker claim result out w.
        case eo_validate out of
          Some e \<Rightarrow> (w, Some e)
        | None \<Rightarrow> via_net P (authorized P (\<lambda>env. complete_execution env (j_id (fst claim)) (Inr (worker, snd claim, result, out)))) wc_complete (Some Err_IO) w),
      po_execute = plane_execute P\<rparr>"

section \<open>Runs of the worker are runs of the plane\<close>

lemma serve_step: "plane_step\<^sup>*\<^sup>* c (serve r c)"
proof (cases r)
  case (Rq_Certificate sha header env signer targets i body)
  then show ?thesis by (auto intro: plane_step.credential)
qed (auto intro!: r_into_rtranclp plane_step.control co_step.intros)

lemma others_steps: "plane_step\<^sup>*\<^sup>* c (others P n c)"
proof -
  have "plane_step\<^sup>*\<^sup>* c (fold serve rs c)" for rs
    by (induction rs arbitrary: c) (auto intro: rtranclp_trans [OF serve_step])
  then show ?thesis by (simp add: others_def)
qed

lemma via_net_steps:
  assumes "\<And>env c. plane_step\<^sup>*\<^sup>* c (fst (handler env c))"
  shows "plane_step\<^sup>*\<^sup>* (wd_control w) (wd_control (fst (via_net P handler read lost w)))"
proof -
  have "plane_step\<^sup>*\<^sup>* (wd_control w) (fst (handler env (others P n (wd_control w))))" for env n
    by (rule rtranclp_trans [OF others_steps assms])
  then show ?thesis
    using others_steps [of "wd_control w" P] by (simp add: via_net_def Let_def split: net_fault.split prod.split) (metis fst_conv)
qed

lemma authorized_steps:
  assumes "\<And>env c. plane_step c (fst (handler env c))"
  shows "plane_step\<^sup>*\<^sup>* c (fst (authorized P handler env c))"
  using assms [of c env] by (auto simp: authorized_def require_bearer_sha_def split: option.split)

lemma plane_check_steps: "plane_step\<^sup>*\<^sup>* (wd_control w) (wd_control (fst (plane_check P worker claim w)))"
  unfolding plane_check_def Let_def by simp (metis others_steps rtranclp_trans)

interpretation worker_plane: stepping_port wd_control plane_step "plane_port P" for P
proof
  fix w worker claim result out f and public :: string and canceled j cred target
  have h: "plane_step\<^sup>*\<^sup>* c (fst (authorized P (\<lambda>env. guarded_claim env (Inr worker)) env c))"
    "plane_step\<^sup>*\<^sup>* c (fst (authorized P (\<lambda>env. start_execution env i b) env c))"
    "plane_step\<^sup>*\<^sup>* c (fst (authorized P (\<lambda>env. complete_execution env i b') env c))" for env c i b b'
    by (rule authorized_steps, rule plane_step.control, rule co_step.intros)+
  show "plane_step\<^sup>*\<^sup>* (wd_control w) (wd_control (fst (po_claim (plane_port P) worker w)))"
    unfolding plane_port_def port.simps by (rule via_net_steps, rule h)
  show "plane_step\<^sup>*\<^sup>* (wd_control w) (wd_control (fst (po_start (plane_port P) worker claim w)))"
    unfolding plane_port_def port.simps by (rule via_net_steps, rule h)
  show "plane_step\<^sup>*\<^sup>* (wd_control w) (wd_control (fst (po_issue (plane_port P) worker claim public w)))"
    unfolding plane_port_def port.simps by (rule via_net_steps, rule r_into_rtranclp, rule plane_step.credential)
  show "plane_step\<^sup>*\<^sup>* (wd_control w) (wd_control (fst (po_check (plane_port P) worker claim w)))"
    unfolding plane_port_def port.simps by (rule plane_check_steps)
  show "plane_step\<^sup>*\<^sup>* (wd_control w) (wd_control (fst (po_complete (plane_port P) worker claim result w)))"
    unfolding plane_port_def port.simps by (rule via_net_steps, rule h)
  show "plane_step\<^sup>*\<^sup>* (wd_control w) (wd_control (fst (f worker claim result out w)))" if "po_complete_output (plane_port P) = Some f"
  proof -
    have f: "f = (\<lambda>worker claim result out w. case eo_validate out of Some e \<Rightarrow> (w, Some e)
        | None \<Rightarrow> via_net P (authorized P (\<lambda>env. complete_execution env (j_id (fst claim)) (Inr (worker, snd claim, result, out)))) wc_complete (Some Err_IO) w)"
      using that unfolding plane_port_def port.simps by simp
    show ?thesis
    proof (cases "eo_validate out")
      case None
      show ?thesis unfolding f None option.case by (rule via_net_steps, rule h)
    qed (simp add: f)
  qed
  show "plane_step\<^sup>*\<^sup>* (wd_control w) (wd_control (fst (po_execute (plane_port P) canceled j cred target w)))"
    by (simp add: plane_port_def plane_execute_def Let_def)
qed

section \<open>From the worker to the operator's authority\<close>

lemma co_act_jobs: "co_act c d \<Longrightarrow> js_step\<^sup>*\<^sup>* (ct_jobs c) (ct_jobs d)"
proof (induction rule: co_act.induct)
  case (launch c i r item env d now fault)
  have "ct_jobs d = ct_jobs c" using consume_once_facts(1) [OF launch(4)] .
  then show ?case using js_step.publish [of "ct_jobs c" i now fault] by auto
qed (auto dest: js_quiet_step)

lemma plane_steps_jobs:
  assumes "plane_step\<^sup>*\<^sup>* c d" and "co_ok c"
  shows "js_step\<^sup>*\<^sup>* (ct_jobs c) (ct_jobs d)"
  using assms(1)
proof (induction rule: rtranclp_induct)
  case (step d e)
  have "co_ok d" by (rule plane_run.steps_keep [OF step(1) assms(2)])
  then have "co_act\<^sup>*\<^sup>* d e" by (rule plane_step_acts [OF step(2)])
  then have "js_step\<^sup>*\<^sup>* (ct_jobs d) (ct_jobs e)"
    by (induction rule: rtranclp_induct) (auto dest: co_act_jobs)
  with step(3) show ?case by simp
qed simp

lemma authorized_reply:
  assumes "authorized P handler env c = (d, Reply 200 x)"
  shows "handler env c = (d, Reply 200 x)"
  using assms by (auto simp: authorized_def require_bearer_sha_def split: option.splits if_splits)

lemma via_net_ok:
  assumes "via_net P handler read lost w = (w', x)" and "x \<noteq> lost"
  obtains c r where "c = others P (wd_tick w) (wd_control w)" and "handler (pl_env P (wd_tick w)) c = (wd_control w', r)" and "x = read r"
  using assms by (auto simp: via_net_def Let_def split: net_fault.splits prod.splits)

lemma plane_start:
  assumes "po_start (plane_port P) worker claim w = (w', Inr j)" and "co_ok (wd_control w)"
  shows "\<exists>r. map_of (js_records (ct_jobs (wd_control w'))) (j_id (fst claim)) = Some r \<and> rec_job r = j"
proof -
  let ?h = "authorized P (\<lambda>env. start_execution env (j_id (fst claim)) (Inr (worker, snd claim)))"
  have "via_net P ?h wc_body (Inl Err_IO) w = (w', Inr j)" using assms(1) by (simp add: plane_port_def)
  then obtain c r where c: "c = others P (wd_tick w) (wd_control w)" and h: "?h (pl_env P (wd_tick w)) c = (wd_control w', r)"
    and "Inr j = wc_body r"
    by (rule via_net_ok) simp_all
  then have r: "r = Reply 200 j" by (auto simp: wc_body_def split: reply.splits if_splits)
  have s: "co_start (pl_env P (wd_tick w)) (j_id (fst claim)) (trim_space (snd claim)) (trim_space worker) c = (wd_control w', Inr j)"
    using authorized_reply [OF h [unfolded r]] by (auto simp: start_execution_def Let_def split: if_splits prod.splits sum.splits)
  have "co_ok c" unfolding c by (rule plane_run.steps_keep [OF others_steps assms(2)])
  then have "js_wf (ct_jobs c)" by (simp add: co_ok_def js_synced_def)
  from co_start_success [OF this s]
  obtain now fault where "ej_start (j_id (fst claim)) (trim_space (snd claim)) now fault (ct_jobs c) = (ct_jobs (wd_control w'), Inr j)" by blast
  then show ?thesis by (rule ej_start_success) auto
qed

lemma plane_issue:
  assumes "po_issue (plane_port P) worker claim public w = (w', Inr (cert, target))"
  shows "\<exists>resp. issue_certificate (pl_env P (wd_tick w)) (pl_signer P (wd_tick w)) (pl_targets P) (j_id (fst claim))
      (Inr \<lparr>cq_worker_id = worker, cq_claim_token = snd claim, cq_public_key = public\<rparr>) (others P (wd_tick w) (wd_control w))
      = (wd_control w', Reply 200 resp) \<and> cr_certificate resp = cert \<and> cr_target resp = target"
proof -
  let ?n = "wd_tick w" and ?b = "\<lparr>cq_worker_id = worker, cq_claim_token = snd claim, cq_public_key = public\<rparr>"
  let ?h = "\<lambda>env. credential_api (pl_worker_sha P) (''Bearer '' @ pl_token P) env (pl_signer P ?n) (pl_targets P) (j_id (fst claim)) (Inr ?b)"
  have "via_net P ?h (wc_access claim) (Inl Err_IO) w = (w', Inr (cert, target))" using assms by (simp add: plane_port_def)
  then obtain c r where c: "c = others P ?n (wd_control w)" and h: "?h (pl_env P ?n) c = (wd_control w', r)" and a: "Inr (cert, target) = wc_access claim r"
    by (rule via_net_ok) simp_all
  from a obtain resp where r: "r = Reply 200 resp" "cr_certificate resp = cert" "cr_target resp = target"
    by (cases r) (auto simp: wc_access_def wc_body_def split: if_splits)
  with h show ?thesis
    unfolding c by (auto simp: credential_api_def require_bearer_sha_def split: option.splits if_splits)
qed

lemma plane_authority:
  assumes "po_check (plane_port P) worker claim w = (w', None)"
  shows "\<exists>c0 c1 c2 until. plane_step\<^sup>*\<^sup>* (wd_control w) c0 \<and> plane_step\<^sup>*\<^sup>* c0 c1 \<and> plane_step\<^sup>*\<^sup>* c1 c2 \<and> plane_step\<^sup>*\<^sup>* c2 (wd_control w') \<and>
    co_check_authority (pl_env P (wd_tick w)) (j_id (fst claim)) worker (snd claim) c0 c1 c2 (wd_control w') = Inr (Inr until)"
proof -
  let ?n = "wd_tick w"
  let ?c0 = "others P ?n (wd_control w)"
  let ?c1 = "others P (?n + 1) ?c0"
  let ?c2 = "others P (?n + 2) ?c1"
  let ?c3 = "others P (?n + 3) ?c2"
  have "wc_authority (co_check_authority (pl_env P ?n) (j_id (fst claim)) worker (snd claim) ?c0 ?c1 ?c2 ?c3) = None"
    using assms unfolding plane_port_def port.simps plane_check_def Let_def by (simp split: if_splits)
  then obtain until where "co_check_authority (pl_env P ?n) (j_id (fst claim)) worker (snd claim) ?c0 ?c1 ?c2 ?c3 = Inr (Inr until)"
    by (auto simp: wc_authority_def Let_def split: sum.splits)
  moreover have "wd_control w' = ?c3"
    using assms unfolding plane_port_def port.simps plane_check_def Let_def by auto
  ultimately show ?thesis using others_steps by metis
qed

lemma run_once_world:
  assumes "run_once cl (plane_port P) m worker_id w = (w', tr, did, err)"
  shows "plane_step\<^sup>*\<^sup>* (wd_control w) (wd_control w')"
  using worker_plane.run_once_steps [where P = P and s = w and cl = cl and m = m and worker_id = worker_id] assms by simp


section \<open>A concrete run\<close>

definition run_token :: string where
  "run_token = claim_token (replicate 32 (CHR ''t''))"

definition claimed_record :: job_record where
  "claimed_record = claim_record demo_key 2 run_token (demo_record Pending)"

definition started_record :: job_record where
  "started_record = start_record demo_key 2 claimed_record"

definition one_job :: "job_record \<Rightarrow> job_store" where
  "one_job r = \<lparr>js_key = demo_key, js_records = [(''0a'', r)], js_disk = Some [r]\<rparr>"

definition quiet :: "job_record \<Rightarrow> control \<Rightarrow> bool" where
  "quiet r c \<longleftrightarrow> ct_jobs c = one_job r \<and> ct_auth c = ct_auth (live_control Pending)"

lemma run_records:
  "verify_record demo_key claimed_record = None" "verify_record demo_key started_record = None"
  "rec_job claimed_record = (demo_job Claimed)\<lparr>j_claimed_at := Some 2\<rparr>"
  "rec_job started_record = (demo_job Running)\<lparr>j_claimed_at := Some 2, j_started_at := Some 2\<rparr>"
  "valid_claim_token claimed_record run_token" "valid_claim_token started_record run_token"
  using demo_times
  by (simp_all add: claimed_record_def started_record_def claim_record_def start_record_def demo_record_def demo_job_def new_job_def
      demo_input_def job_marshals_def opt_time_marshals_def valid_claim_token_def)

lemma run_job_facts:
  "j_id (rec_job claimed_record) = ''0a''" "j_status (rec_job claimed_record) = Claimed" "j_grant_id (rec_job claimed_record) = ''g''"
  "j_expires_at (rec_job claimed_record) = 100" "j_target (rec_job claimed_record) = ''host''"
  "j_id (rec_job started_record) = ''0a''" "j_status (rec_job started_record) = Running" "j_grant_id (rec_job started_record) = ''g''"
  "j_expires_at (rec_job started_record) = 100" "j_argv (rec_job started_record) = [''uptime'']" "j_target (rec_job started_record) = ''host''"
  "j_risk_category (rec_job started_record) = ''DEFAULT''" "j_scope_key (rec_job started_record) = ''uptime''"
  by (simp_all add: run_records demo_job_facts) (simp_all add: demo_job_def new_job_def demo_input_def)

lemma run_bound: "verify_binding (rec_job claimed_record)" "verify_binding (rec_job started_record)"
  by (simp_all add: run_records verify_binding_def demo_job_def new_job_def demo_input_def)

lemma run_env: "e_clock demo_env n = 2" "e_fault demo_env n = None" "e_rnd_token demo_env = Some (replicate 32 (CHR ''t''))"
  by (simp_all add: demo_env_def)

lemma run_words: "trim_space ''w'' = ''w''" "trim_space run_token = run_token" "run_token \<noteq> []"
  "trim_space ''ssh-ed25519 AAAA'' = ''ssh-ed25519 AAAA''" "trim_space ''host'' = ''host''" "worker_ok ''w''" "bearer ''Bearer t'' = Some ''t''"
  by code_simp+

lemma run_ej_claim:
  "ej_claim (Some (replicate 32 (CHR ''t''))) 2 None (demo_jobs Pending) = (one_job claimed_record, Inr (rec_job claimed_record, run_token))"
proof -
  have v: "verify_record demo_key (demo_record Pending) = None" using demo_record_ok by (simp add: record_ok_def)
  have "js_disk (one_job claimed_record) = Some [claimed_record]" by (simp add: one_job_def)
  show ?thesis
    using v run_records(1)
    by (simp add: ej_claim_def claim_order_def sort_by_def demo_jobs_def demo_job_facts one_job_def ej_persist_def ej_file_def run_token_def [symmetric]
        claimed_record_def [symmetric])
qed

lemma run_grant:
  assumes "quiet r c"
  shows "cap_authenticate_id (auth_service (ct_auth c)) ''g'' 2 = Inr exec_grant" "\<not> em_disabled (em_snapshot (au_em (ct_auth c)))"
    "em_epoch (em_snapshot (au_em (ct_auth c))) = g_security_epoch exec_grant"
  using assms
  by (simp_all add: quiet_def cap_authenticate_id_iff [OF live_control_wf(1)] live_grant)
    (simp_all add: live_control_def em_snapshot_def em_zero_def exec_grant_def zero_grant_def)

lemma run_append:
  assumes "ai_kind inp \<noteq> []" and "quiet r c"
  shows "\<exists>d ev. co_append demo_env k inp c = (d, Inr ev) \<and> quiet r d"
proof -
  obtain d ev where a: "co_append demo_env k inp c = (d, Inr ev)" using demo_append [OF assms(1)] by blast
  with append_jobs [OF a] assms(2) show ?thesis by (auto simp: quiet_def)
qed

lemma run_claim: "\<exists>d. guarded_claim demo_env (Inr ''w'') (live_control Pending) = (d, Reply 200 (rec_job claimed_record, run_token)) \<and> quiet claimed_record d"
proof -
  let ?c = "live_control Pending"
  have q: "quiet claimed_record (?c\<lparr>ct_jobs := one_job claimed_record\<rparr>)" by (simp add: quiet_def)
  let ?e = "job_event ''execution.job_claimed'' ''w'' [] [] (rec_job claimed_record) [(''command_sha256'', j_command_sha256 (rec_job claimed_record))]"
  have "ai_kind ?e \<noteq> []" by (simp add: job_event_def)
  from run_append [OF this q, of 0] obtain d ev where a: "co_append demo_env 0 ?e (?c\<lparr>ct_jobs := one_job claimed_record\<rparr>) = (d, Inr ev)" "quiet claimed_record d" by blast
  have jobs: "ct_jobs ?c = demo_jobs Pending" by (simp add: live_control_def)
  have "co_claim demo_env ''w'' ?c = (d, Inr (rec_job claimed_record, run_token))"
    unfolding co_claim_def run_env jobs run_ej_claim prod.case sum.case a(1) by simp
  moreover have "\<not> em_disabled (em_snapshot (au_em (ct_auth ?c)))" using run_grant(2) [OF q] by simp
  ultimately show ?thesis using a(2) by (simp add: guarded_claim_def claim_execution_def Let_def run_words)
qed

lemma run_start:
  assumes "quiet claimed_record c"
  shows "\<exists>d. start_execution demo_env ''0a'' (Inr (''w'', run_token)) c = (d, Reply 200 (rec_job started_record)) \<and> quiet started_record d"
proof -
  have jobs: "ct_jobs c = one_job claimed_record" using assms by (simp add: quiet_def)
  have j: "ej_by_id ''0a'' (ct_jobs c) = Inr (Some (rec_job claimed_record))" using run_records(1) by (simp add: jobs ej_by_id_def one_job_def)
  have s: "ej_start ''0a'' run_token 2 None (one_job claimed_record) = (one_job started_record, Inr (rec_job started_record))"
    using run_records(1,2,5)
    by (simp add: ej_start_def one_job_def run_job_facts ej_put_def ej_persist_def ej_file_def sort_by_def started_record_def [symmetric])
  have q: "quiet started_record (c\<lparr>ct_jobs := one_job started_record\<rparr>)" using assms by (simp add: quiet_def)
  let ?e = "job_event ''execution.job_started'' ''w'' ''allow'' [] (rec_job started_record) [(''command_sha256'', j_command_sha256 (rec_job started_record))]"
  have "ai_kind ?e \<noteq> []" by (simp add: job_event_def)
  from run_append [OF this q, of 0] obtain d ev where a: "co_append demo_env 0 ?e (c\<lparr>ct_jobs := one_job started_record\<rparr>) = (d, Inr ev)" "quiet started_record d" by blast
  have g: "is_ok (cap_authenticate_id (auth_service (ct_auth c)) ''g'' 2)" using run_grant(1) [OF assms] by (simp add: is_ok_def)
  have "co_start demo_env ''0a'' run_token ''w'' c = (d, Inr (rec_job started_record))"
    using g unfolding co_start_def j [unfolded jobs] sum.case option.case run_env run_job_facts jobs s prod.case a(1) by simp
  then show ?thesis using a(2) by (simp add: start_execution_def Let_def run_words)
qed

definition run_target :: target_spec where
  "run_target = demo_target\<lparr>ts_name := ''host''\<rparr>"

definition run_cert_request :: cert_request where
  "run_cert_request = \<lparr>cq_worker_id = ''w'', cq_claim_token = run_token, cq_public_key = ''ssh-ed25519 AAAA''\<rparr>"

lemma run_validates:
  assumes "quiet started_record c"
  shows "ej_validate_running_claim ''0a'' run_token 2 (ct_jobs c) = Inr (rec_job started_record)"
  using assms run_records(2,6) by (simp add: quiet_def one_job_def ej_validate_running_claim_def run_job_facts)

lemma run_issue:
  assumes "quiet started_record c"
    and s: "chain_signer (sign_request_of (rec_job started_record) ''ssh-ed25519 AAAA'') = Inr cert"
  shows "\<exists>d. issue_certificate demo_env chain_signer (Some chain_targets) ''0a'' (Inr run_cert_request) c =
      (d, Reply 200 \<lparr>cr_job = rec_job started_record, cr_certificate = cert, cr_target = run_target\<rparr>) \<and> quiet started_record d"
proof -
  let ?j = "rec_job started_record"
  let ?e = "certificate_issued_event ''w'' ?j cert run_target"
  have "ai_kind ?e \<noteq> []" by (simp add: certificate_issued_event_def job_event_def)
  from run_append [OF this assms(1), of 0] obtain d ev where a: "co_append demo_env 0 ?e c = (d, Inr ev)" "quiet started_record d" by blast
  have r: "classify (j_argv ?j) = allow_result ''uptime'' ''no elevated-risk rule matched''" unfolding run_job_facts by (rule demo_classified)
  have "resolve_target (Some chain_targets) (j_target ?j) = Inr run_target"
    by (simp add: resolve_target_def chain_targets_def run_job_facts run_words run_target_def)
  then have "issue_for_job demo_env chain_signer (Some chain_targets) ''w'' run_token ''ssh-ed25519 AAAA'' ?j c =
      (d, Reply 200 \<lparr>cr_job = ?j, cr_certificate = cert, cr_target = run_target\<rparr>)"
    using run_bound(2) run_grant(1) [OF assms(1)] r s a(1)
    by (simp add: issue_for_job_def Let_def allow_result_def requires_shell_def requires_shell_category_def run_job_facts run_env run_target_def)
  with run_validates [OF assms(1)] a(2) show ?thesis
    by (simp add: issue_certificate_def Let_def run_cert_request_def run_words run_env)
qed

lemma run_check:
  assumes "quiet started_record c"
  shows "co_check_authority demo_env ''0a'' ''w'' run_token c c c c = Inr (Inr 100)"
  using run_validates [OF assms] run_grant [OF assms]
  by (simp add: co_check_authority_def run_env run_words run_job_facts Let_def exec_grant_def)

text \<open>The signer of the chain signs five seconds before Go's zero time; the worker binds four seconds later, on the same wrapped seconds.\<close>

lemma run_signs:
  "\<exists>resp cert. chain_signer (sign_request_of (rec_job started_record) ''ssh-ed25519 AAAA'') = Inr resp \<and>
     wi_bind (demo_client cert) (Some demo_key_blob) (rec_job started_record) resp (- 1000000000)
       = Inr \<lparr>cd_signer = Some demo_key_blob, cd_certificate = Some cert\<rparr>"
proof -
  let ?q = "sign_request_of (rec_job started_record) ''ssh-ed25519 AAAA''"
  have q: "?q = sign_request_of (demo_job Running) ''ssh-ed25519 AAAA''" by (simp add: sign_request_of_def run_records)
  obtain resp where c: "chain_signer ?q = Inr resp" using chain_signs q by auto
  then obtain cert where s: "ss_sign demo_lib demo_service (- 5000000000) demo_draws ?q = Some (Inr (resp, cert))"
    by (auto simp: chain_signer_def split: option.splits sum.splits prod.splits)
  obtain key serial where k: "sign_checks demo_lib demo_service (- 5000000000) ?q = Inr key"
    and w: "sign_with_serial demo_lib demo_service (- 5000000000) ?q key serial = Inr (resp, cert)"
    by (rule ss_signD [OF s])
  have "parse_ephemeral_public_key demo_lib ''ssh-ed25519 AAAA'' = Inr demo_key_blob" by code_simp
  then have key: "key = demo_key_blob" using sign_checksD(5) [OF k] by (simp add: sign_request_of_def)
  note d = sign_with_serialD [OF w]
  have "validity_end demo_service (- 5000000000) 100 = 100" "- 5000000000 - sv_backdate demo_service = - 7000000000" by code_simp+
  then have v: "sn_valid_before resp = 100" "sn_valid_after resp = - 7000000000"
    using d(2,3) by (simp_all add: sign_request_of_def run_job_facts)
  have b: "cf_valid_before cert = word_of_int (unix 100)" "cf_valid_after cert = word_of_int (unix (- 7000000000))" "cf_key cert = demo_key_blob" "cf_user_cert cert"
    unfolding d(1) by (simp_all add: build_certificate_def v key)
  have u: "(word_of_int (unix 100) :: 64 word) \<noteq> cert_time_infinity" "\<not> (word_of_int (unix (- 1000000000)) :: 64 word) < word_of_int (unix (- 7000000000))"
    "\<not> (word_of_int (unix 100) :: 64 word) \<le> word_of_int (unix (- 1000000000))" by code_simp+
  have f: "sn_certificate_fingerprint resp = ''SHA256:c''" "sn_public_key_fingerprint resp = ''SHA256:k''"
    using w by (auto simp: sign_with_serial_def Let_def demo_lib_def)
  have "wi_bind (demo_client cert) (Some demo_key_blob) (rec_job started_record) resp (- 1000000000)
       = Inr \<lparr>cd_signer = Some demo_key_blob, cd_certificate = Some cert\<rparr>"
    using u run_bound(2) by (simp add: wi_bind_def run_job_facts demo_client_def b f del: not_less not_le)
  with c show ?thesis by blast
qed

definition run_plane :: plane where
  "run_plane = \<lparr>pl_worker_sha = sha256 ''t'', pl_token = ''t'', pl_env = (\<lambda>_. demo_env), pl_others = (\<lambda>_. []), pl_net = (\<lambda>_. Net_Ok),
     pl_signer = (\<lambda>_. chain_signer), pl_targets = Some chain_targets, pl_lib = demo_lib, pl_executor = demo_executor,
     pl_answer = (\<lambda>_ _ _. demo_answer)\<rparr>"

definition run_world :: world where
  "run_world = \<lparr>wd_control = live_control Pending, wd_tick = 0, wd_sent = []\<rparr>"

definition run_moment :: moment where
  "run_moment = \<lparr>mo_now = - 1000000000, mo_key = Inr (demo_key_blob, ''ssh-ed25519 AAAA''), mo_ticks = 0, mo_late = False\<rparr>"

lemma run_via_net:
  "via_net run_plane h read lost w = (case h demo_env (wd_control w) of (c1, r) \<Rightarrow> (w\<lparr>wd_control := c1, wd_tick := Suc (wd_tick w)\<rparr>, read r))"
  by (simp add: via_net_def Let_def run_plane_def others_def split: prod.split)

lemma run_authorized: "authorized run_plane h env c = h env c"
  by (simp add: authorized_def require_bearer_sha_def run_plane_def run_words)

lemma run_executes:
  "\<exists>cl w' tr did err cred rep. run_once cl (plane_port run_plane) run_moment ''w'' run_world = (w', tr, did, err) \<and>
     Call_Execute (rec_job started_record) cred run_target rep \<in> set tr"
proof -
  let ?p = "plane_port run_plane" and ?j = "rec_job started_record"
  let ?claim = "(rec_job claimed_record, run_token)"
  obtain resp cert where s: "chain_signer (sign_request_of ?j ''ssh-ed25519 AAAA'') = Inr resp"
    and b: "wi_bind (demo_client cert) (Some demo_key_blob) ?j resp (- 1000000000) = Inr \<lparr>cd_signer = Some demo_key_blob, cd_certificate = Some cert\<rparr>"
    using run_signs by blast
  obtain c1 where c1: "guarded_claim demo_env (Inr ''w'') (live_control Pending) = (c1, Reply 200 ?claim)" "quiet claimed_record c1"
    using run_claim by blast
  obtain c2 where c2: "start_execution demo_env ''0a'' (Inr (''w'', run_token)) c1 = (c2, Reply 200 ?j)" "quiet started_record c2"
    using run_start [OF c1(2)] by blast
  obtain c3 where c3: "issue_certificate demo_env chain_signer (Some chain_targets) ''0a'' (Inr run_cert_request) c2 =
      (c3, Reply 200 \<lparr>cr_job = ?j, cr_certificate = resp, cr_target = run_target\<rparr>)" "quiet started_record c3"
    using run_issue [OF c2(2) s] by blast
  define w1 w2 w3 w4 where "w1 = run_world\<lparr>wd_control := c1, wd_tick := Suc 0\<rparr>" and "w2 = w1\<lparr>wd_control := c2, wd_tick := Suc (wd_tick w1)\<rparr>"
    and "w3 = w2\<lparr>wd_control := c3, wd_tick := Suc (wd_tick w2)\<rparr>" and "w4 = w3\<lparr>wd_tick := wd_tick w3 + 4\<rparr>"
  note ws = this
  have p1: "po_claim ?p ''w'' run_world = (w1, Inr ?claim)"
    by (simp add: plane_port_def run_via_net run_authorized run_world_def c1 wc_claim_def ws)
  have p2: "po_start ?p ''w'' ?claim w1 = (w2, Inr ?j)"
    by (simp add: plane_port_def run_via_net run_authorized c2 wc_body_def ws run_job_facts)
  have p3: "po_issue ?p ''w'' ?claim ''ssh-ed25519 AAAA'' w2 = (w3, Inr (resp, run_target))"
    using c3(1) by (simp add: plane_port_def run_via_net credential_api_def require_bearer_sha_def run_words run_cert_request_def wc_access_def wc_body_def
        ws run_job_facts run_target_def) (simp add: run_plane_def run_words run_job_facts)
  have p4: "po_check ?p ''w'' ?claim w3 = (w4, None)"
    using run_check [OF c3(2)]
    by (simp add: plane_port_def plane_check_def Let_def others_def run_plane_def wc_authority_def ws run_job_facts)
  have i: "same_immutable_job (rec_job claimed_record) ?j" by (simp add: same_immutable_job_def run_records demo_job_def new_job_def)
  obtain w' ds did err where x: "execute_monitored ?p run_moment ''w'' ?claim ?j \<lparr>cd_signer = Some demo_key_blob, cd_certificate = Some cert\<rparr> run_target w4 = (w', ds, did, err)"
    by (metis prod_cases4)
  then have e: "\<exists>rep. Call_Execute ?j \<lparr>cd_signer = Some demo_key_blob, cd_certificate = Some cert\<rparr> run_target rep \<in> set ds"
    by (rule execute_monitored_shape) auto
  have t: "ts_name run_target = j_target ?j" by (simp add: run_target_def run_job_facts)
  have "run_started (demo_client cert) ?p run_moment ''w'' ?claim ?j w2 =
      (w', Call_Issue ?claim ''ssh-ed25519 AAAA'' (Inr (resp, run_target)) # Call_Check ?claim None # ds, did, err)"
    by (simp add: run_started_def run_moment_def run_job_facts p3 b t p4 x [unfolded run_moment_def] after_def)
      (use t in \<open>simp add: run_job_facts\<close>)?
  then have "run_once (demo_client cert) ?p run_moment ''w'' run_world =
      (w', Call_Claim (Inr ?claim) # Call_Start ?claim (Inr ?j) # Call_Issue ?claim ''ssh-ed25519 AAAA'' (Inr (resp, run_target)) # Call_Check ?claim None # ds, did, err)"
    by (simp add: run_once_def Let_def run_words p1 run_job_facts run_bound p2 i after_def)
  with e show ?thesis by (metis list.set_intros(2))
qed


end
