(* ===== verification/Agent_Api.thy ===== *)
theory Agent_Api
  imports Execution_Job Execution_Output Domain Go_JSON
begin

text \<open>
  What the clients of the gateway exchange with it (\<open>internal/agentclient\<close>, \<open>internal/gatewayapi\<close>, \<open>internal/internalapi\<close>): the GitHub relay and the
  MCP adapter both speak this interface. The HTTP transport is the port of each client.
\<close>

datatype agent_error = AE_Http int string | AE_Other string

definition agent_error_text :: "agent_error \<Rightarrow> string" where
  "agent_error_text e =
     (case e of
        AE_Http status message \<Rightarrow> ''sentinel HTTP '' @ dec_int status @ (if trim_space message \<noteq> [] then '': '' @ message else [])
      | AE_Other message \<Rightarrow> message)"

text \<open>The requests to the gateway and its answers, with the fields that the clients read.\<close>

record bootstrap =
  bs_session_id :: string
  bs_purpose :: string
  bs_agent :: string
  bs_targets :: "string list"
  bs_permissions :: permissions
  bs_issued_at :: time
  bs_expires_at :: time

record command_request =
  cq_request_id :: string
  cq_target :: string
  cq_argv :: "string list"
  cq_agent_reason :: string
  cq_timeout_seconds :: int

record gateway_response =
  sb_accepted :: bool
  sb_decision :: string
  sb_approval_id :: string
  sb_job :: "string option"

record client_job =
  cj_id :: string
  cj_request_id :: string
  cj_target :: string
  cj_argv :: "string list"
  cj_status :: string
  cj_result :: "job_result option"
  cj_output :: "exec_output option"

end
