(* ===== verification/Notes.thy ===== *)
theory Notes
  imports Domain Audit_Log
begin

text \<open>
  The notes that agents leave for later sessions (\<open>internal/notes\<close>): a file of JSON lines, appended in place and read in full by every
  request. The data of \<open>domain.AgentNote\<close>, the operations \<open>Open\<close>, \<open>Append\<close> and \<open>List\<close>, a contract for a store of notes with what its
  clients may conclude, and what an interrupted write does to the file.
\<close>

section \<open>Data\<close>

definition trust0 :: string where "trust0 = ''TRUST_0''"
definition trust2 :: string where "trust2 = ''TRUST_2''"

record agent_note =
  nt_id :: string
  nt_timestamp :: time
  nt_grant_id :: string
  nt_agent :: string
  nt_target :: string
  nt_trust_level :: string
  nt_content :: string
  nt_sha256 :: string

definition note_json :: "agent_note \<Rightarrow> jval" where
  "note_json n = JObj
     ([(''id'', JStr (nt_id n)), (''timestamp'', jtime (nt_timestamp n)), (''grant_id'', JStr (nt_grant_id n)), (''agent'', JStr (nt_agent n))]
      @ omit_str ''target'' (nt_target n)
      @ [(''trust_level'', JStr (nt_trust_level n)), (''content'', JStr (nt_content n)), (''sha256'', JStr (nt_sha256 n))])"

definition note_text :: "agent_note \<Rightarrow> string" where
  "note_text n = json_enc (note_json n)"

text \<open>
  A line of the file: the note it decodes to, if any, its length and whether a newline ends it. A store is its file. A write that fails has left
  some bytes of the line: an object cut short never decodes, and what is written next continues the line.
\<close>

record note_line =
  nl_note :: "agent_note option"
  nl_length :: nat
  nl_newline :: bool

type_synonym note_file = "note_line list option"

definition note_lines :: "note_file \<Rightarrow> note_line list" where
  "note_lines f = (case f of None \<Rightarrow> [] | Some ls \<Rightarrow> ls)"

definition add_note_line :: "note_line \<Rightarrow> note_file \<Rightarrow> note_file" where
  "add_note_line x f =
     (let ls = note_lines f in
      if ls \<noteq> [] \<and> \<not> nl_newline (last ls)
      then Some (butlast ls @ [\<lparr>nl_note = None, nl_length = nl_length (last ls) + nl_length x, nl_newline = nl_newline x\<rparr>])
      else Some (ls @ [x]))"

definition whole_note :: "agent_note \<Rightarrow> note_line" where
  "whole_note n = \<lparr>nl_note = Some n, nl_length = length (note_text n), nl_newline = True\<rparr>"

definition torn_note :: "agent_note \<Rightarrow> nat \<Rightarrow> note_line" where
  "torn_note n k =
     (if length (note_text n) \<le> k then (whole_note n)\<lparr>nl_newline := False\<rparr> else \<lparr>nl_note = None, nl_length = k, nl_newline = False\<rparr>)"

section \<open>Operations\<close>

definition max_note_bytes :: nat where "max_note_bytes = 16384"
definition max_note_line :: nat where "max_note_line = 1048576"

definition note_target_allowed :: "string list \<Rightarrow> string \<Rightarrow> bool" where
  "note_target_allowed targets target = list_ex (\<lambda>allowed. allowed = target) targets"

definition note_random_id :: "string option \<Rightarrow> err + string" where
  "note_random_id rnd = (case rnd of None \<Rightarrow> Inl Err_Rand | Some b \<Rightarrow> Inr (hex_encode b))"

definition new_note :: "grant \<Rightarrow> string \<Rightarrow> string \<Rightarrow> string \<Rightarrow> time \<Rightarrow> agent_note" where
  "new_note g target content i now =
     \<lparr>nt_id = i, nt_timestamp = now, nt_grant_id = g_id g, nt_agent = g_agent g, nt_target = target, nt_trust_level = trust2,
      nt_content = content, nt_sha256 = sha256_hex content\<rparr>"

definition ns_append ::
    "grant \<Rightarrow> string \<Rightarrow> string \<Rightarrow> string option \<Rightarrow> time \<Rightarrow> audit_fault option \<Rightarrow> note_file \<Rightarrow> note_file \<times> (err + agent_note)" where
  "ns_append g target0 content0 rnd now fault f =
     (let target = trim_space target0; content = trim_space content0 in
      if target = [] \<or> \<not> note_target_allowed (g_targets g) target then (f, Inl (Err_Msg ''note target is outside capability scope''))
      else if content = [] \<or> max_note_bytes < length content then (f, Inl (Err_Msg ''note content must be between 1 and 16384 bytes''))
      else (case note_random_id rnd of
          Inl e \<Rightarrow> (f, Inl e)
        | Inr i \<Rightarrow>
            (let n = new_note g target content i now in
             if \<not> time_marshals now then (f, Inl Err_IO)
             else (case fault of
                 Some Fault_Before \<Rightarrow> (f, Inl Err_IO)
               | Some (Fault_Write k) \<Rightarrow> (if k = 0 then Some (note_lines f) else add_note_line (torn_note n k) f, Inl Err_IO)
               | Some Fault_Sync \<Rightarrow> (add_note_line (whole_note n) f, Inl Err_IO)
               | None \<Rightarrow> (add_note_line (whole_note n) f, Inr n)))))"

definition note_invalid :: "agent_note \<Rightarrow> err option" where
  "note_invalid n =
     (if nt_trust_level n \<noteq> trust2 \<or> nt_id n = [] \<or> nt_target n = [] then Some (Err_Msg ''invalid agent note record'')
      else if nt_sha256 n \<noteq> sha256_hex (nt_content n) then Some (Err_Msg ''agent note content hash mismatch'')
      else None)"

text \<open>The loop of \<open>readAllUnlocked\<close>. The scanner's buffer holds at most \<open>1<<20\<close> bytes, the newline included.\<close>

fun scan_notes :: "note_line list \<Rightarrow> err + agent_note list" where
  "scan_notes [] = Inr []"
| "scan_notes (l # ls) =
     (if max_note_line \<le> nl_length l then Inl Err_IO
      else (case nl_note l of
          None \<Rightarrow> Inl (Err_Msg ''decode agent note'')
        | Some n \<Rightarrow>
            (case note_invalid n of
               Some e \<Rightarrow> Inl e
             | None \<Rightarrow> (case scan_notes ls of Inl e \<Rightarrow> Inl e | Inr ns \<Rightarrow> Inr (n # ns)))))"

definition ns_read_all :: "note_file \<Rightarrow> err + agent_note list" where
  "ns_read_all f = (case f of None \<Rightarrow> Inr [] | Some ls \<Rightarrow> scan_notes ls)"

definition ns_open :: "string \<Rightarrow> note_file \<Rightarrow> err + note_file" where
  "ns_open path f =
     (if trim_space path = [] then Inl (Err_Msg ''notes path is empty'')
      else (case ns_read_all f of Inl e \<Rightarrow> Inl e | Inr ns \<Rightarrow> Inr f))"

text \<open>A loop that keeps what it wants until it has enough.\<close>

fun pick :: "('a \<Rightarrow> bool) \<Rightarrow> nat \<Rightarrow> 'a list \<Rightarrow> 'a list" where
  "pick P 0 xs = []"
| "pick P (Suc n) [] = []"
| "pick P (Suc n) (x # xs) = (if P x then x # pick P n xs else pick P (Suc n) xs)"

lemma pick_eq: "pick P n xs = take n (filter P xs)"
  by (induction P n xs rule: pick.induct) auto

definition list_limit :: "int \<Rightarrow> nat" where
  "list_limit limit = (if limit \<le> 0 \<or> 200 < limit then 50 else nat limit)"

definition ns_list :: "grant \<Rightarrow> int \<Rightarrow> note_file \<Rightarrow> err + agent_note list" where
  "ns_list g limit f =
     (case ns_read_all f of
        Inl e \<Rightarrow> Inl e
      | Inr all \<Rightarrow> Inr (pick (\<lambda>n. note_target_allowed (g_targets g) (nt_target n)) (list_limit limit) (rev all)))"

section \<open>The contract of a store of notes\<close>

text \<open>
  \<open>resourceapi.NoteStore\<close>: the notes that a store holds, oldest first, and what its two operations do to them. An accepted note is made from the
  grant and is in its scope; a list is the newest notes in the scope of the grant. What a request may append is bounded (\<open>fits\<close>).
\<close>

definition note_scope :: "grant \<Rightarrow> agent_note \<Rightarrow> bool" where
  "note_scope g n \<longleftrightarrow> nt_target n \<in> set (g_targets g)"

locale note_store =
  fixes holds :: "'s \<Rightarrow> agent_note list \<Rightarrow> bool"
    and fits :: "grant \<Rightarrow> 'e \<Rightarrow> bool"
    and add :: "grant \<Rightarrow> string \<Rightarrow> string \<Rightarrow> 'e \<Rightarrow> 's \<Rightarrow> 's \<times> (err + agent_note)"
    and newest :: "grant \<Rightarrow> int \<Rightarrow> 's \<Rightarrow> err + agent_note list"
  assumes add_holds: "holds s ns \<Longrightarrow> fits g e \<Longrightarrow> add g t c e s = (s', Inr n) \<Longrightarrow> holds s' (ns @ [n])"
    and add_note: "add g t c e s = (s', Inr n) \<Longrightarrow>
          note_scope g n \<and> nt_grant_id n = g_id g \<and> nt_agent n = g_agent g \<and> nt_content n = trim_space c \<and> nt_trust_level n = trust2"
    and newest_notes: "holds s ns \<Longrightarrow> newest g l s = Inr (take (list_limit l) (filter (note_scope g) (rev ns)))"
begin

lemma list_limit_pos: "0 < list_limit l" "list_limit l \<le> 200"
  by (auto simp: list_limit_def)

lemma added_first:
  assumes "holds s ns" and "fits g e" and "add g t c e s = (s', Inr n)" and "note_scope g' n"
  shows "\<exists>rest. newest g' l s' = Inr (n # rest)"
proof -
  have "newest g' l s' = Inr (take (list_limit l) (n # filter (note_scope g') (rev ns)))"
    using newest_notes [OF add_holds [OF assms(1,2,3)]] assms(4) by simp
  with list_limit_pos(1) [of l] show ?thesis by (cases "list_limit l") simp_all
qed

lemma others_hidden:
  assumes "holds s ns" and "fits g e" and "add g t c e s = (s', Inr n)" and "\<not> note_scope g' n"
  shows "newest g' l s' = newest g' l s"
  using newest_notes [OF add_holds [OF assms(1,2,3)]] newest_notes [OF assms(1)] assms(4) by simp

lemma newest_scope:
  assumes "holds s ns" and "newest g l s = Inr xs"
  shows "list_all (note_scope g) xs" and "length xs \<le> 200" and "set xs \<subseteq> set ns"
  using assms(2) list_limit_pos(2) [of l] unfolding newest_notes [OF assms(1)]
  by (auto simp: list_all_iff dest: in_set_takeD)

end

section \<open>The file meets the contract\<close>

definition note_line_ok :: "note_line \<Rightarrow> bool" where
  "note_line_ok l \<longleftrightarrow> nl_newline l \<and> nl_length l < max_note_line \<and> (\<exists>n. nl_note l = Some n \<and> note_invalid n = None)"

definition holds_notes :: "note_file \<Rightarrow> agent_note list \<Rightarrow> bool" where
  "holds_notes f ns \<longleftrightarrow> list_all note_line_ok (note_lines f) \<and> map nl_note (note_lines f) = map Some ns"

lemma scan_notes_ok: "list_all note_line_ok ls \<Longrightarrow> map nl_note ls = map Some ns \<Longrightarrow> scan_notes ls = Inr ns"
proof (induction ls arbitrary: ns)
  case (Cons l ls)
  then obtain n ms where ns: "ns = n # ms" "nl_note l = Some n" "map nl_note ls = map Some ms" by (cases ns) auto
  with Cons show ?case by (auto simp: note_line_ok_def)
qed simp

lemma holds_read: "holds_notes f ns \<Longrightarrow> ns_read_all f = Inr ns"
  using scan_notes_ok by (cases f) (auto simp: holds_notes_def ns_read_all_def note_lines_def)

lemma holds_add:
  assumes "holds_notes f ns" and "note_line_ok l" and "nl_note l = Some n"
  shows "holds_notes (add_note_line l f) (ns @ [n])"
proof -
  have "\<not> (note_lines f \<noteq> [] \<and> \<not> nl_newline (last (note_lines f)))"
    using assms(1) last_in_set [of "note_lines f"] by (fastforce simp: holds_notes_def list_all_iff note_line_ok_def)
  then show ?thesis using assms by (simp add: add_note_line_def Let_def holds_notes_def note_lines_def [of "Some _"])
qed

lemma note_allowed_iff: "note_target_allowed ts t \<longleftrightarrow> t \<in> set ts"
  by (auto simp: note_target_allowed_def list_ex_iff)

text \<open>How long the text of a note can be.\<close>

lemma length_dec_nat: "n < 10 ^ Suc k \<Longrightarrow> length (dec_nat n) \<le> Suc k"
proof (induction k arbitrary: n)
  case (Suc k)
  show ?case
  proof (cases "n < 10")
    case False
    have "n div 10 < 10 ^ Suc k" using Suc.prems by (simp add: less_mult_imp_div_less)
    with Suc.IH [of "n div 10"] False show ?thesis by (subst dec_nat.simps) simp
  qed (subst dec_nat.simps, simp)
qed (subst dec_nat.simps, simp)

lemma length_pad_left: "n < 10 ^ Suc k \<Longrightarrow> length (pad_left w n) \<le> max w (Suc k)"
  using length_dec_nat [of n k] by (auto simp: pad_left_def Let_def)

lemma month_day_bounds: "month_day ks m d = (m', d') \<Longrightarrow> m' \<le> m + length ks \<and> d' \<le> d"
  by (induction ks m d rule: month_day.induct) (auto split: if_splits)

lemma length_fraction: "ns < 10 ^ 9 \<Longrightarrow> length (fraction ns) \<le> 10"
proof -
  assume "ns < 10 ^ 9"
  then have "length (pad_left 9 ns) \<le> 9" using length_pad_left [of ns 8 9] by simp
  then have "length (dropWhile (\<lambda>c. c = CHR ''0'') (rev (pad_left 9 ns))) \<le> 9"
    using length_dropWhile_le [of "\<lambda>c. c = CHR ''0''" "rev (pad_left 9 ns)"] by simp
  then show ?thesis by (simp add: fraction_def)
qed

lemma civil_date_bounds:
  assumes "civil_date n = (y, m, d)"
  shows "m \<le> 13" and "d \<le> 1461"
proof -
  define n100 where "n100 = min 3 (n mod 146097 div 36524)"
  define r where "r = n mod 146097 - n100 * 36524"
  define q where "q = r mod 1461 - min 3 (r mod 1461 div 365) * 365"
  define leap where "leap = (min 3 (r mod 1461 div 365) = 3 \<and> (r div 1461 \<noteq> 24 \<or> n100 = 3))"
  obtain m' k where mk: "month_day (days_in_month leap) 1 (nat q) = (m', k)" by (cases "month_day (days_in_month leap) 1 (nat q)")
  have e: "m = m'" "d = k + 1"
    using assms mk unfolding civil_date_def Let_def q_def [symmetric] r_def [symmetric] n100_def [symmetric] leap_def [symmetric] by simp_all
  have "0 \<le> min 3 (r mod 1461 div 365)" by (simp add: pos_imp_zdiv_nonneg_iff)
  then have "q \<le> 1460" unfolding q_def using pos_mod_bound [of 1461 r] by linarith
  then have "nat q \<le> 1460" by simp
  with month_day_bounds [OF mk] show "m \<le> 13" "d \<le> 1461" unfolding e by (auto simp: days_in_month_def)
qed

lemma length_clock:
  assumes "r < (86400 :: nat)"
  shows "length (pad_left 2 (r div 3600)) \<le> 2" and "length (pad_left 2 (r mod 3600 div 60)) \<le> 2" and "length (pad_left 2 (r mod 60)) \<le> 2"
proof -
  have two: "length (pad_left 2 n) \<le> 2" if "n < 100" for n using length_pad_left [of n 1 2] that by simp
  show "length (pad_left 2 (r div 3600)) \<le> 2" by (rule two, rule less_mult_imp_div_less) (use assms in simp)
  show "length (pad_left 2 (r mod 3600 div 60)) \<le> 2"
    by (rule two, rule less_mult_imp_div_less, rule less_trans [OF mod_less_divisor [of 3600 r]]) simp_all
  show "length (pad_left 2 (r mod 60)) \<le> 2" by (rule two, rule less_trans [OF mod_less_divisor [of 60 r]]) simp_all
qed

lemma length_rfc3339: "time_marshals t \<Longrightarrow> length (rfc3339_nano t) \<le> 40"
proof -
  assume y: "time_marshals t"
  obtain y m d where c: "civil_date (t div 10 ^ 9 div 86400) = (y, m, d)" by (cases "civil_date (t div 10 ^ 9 div 86400)")
  let ?r = "nat (t div 10 ^ 9 mod 86400)"
  have "nat y < 10 ^ 4" using y c by (auto simp: time_marshals_def year_of_def)
  then have 1: "length (pad_left 4 (nat y)) \<le> 4" using length_pad_left [of "nat y" 3 4] by simp
  have 2: "length (pad_left 2 m) \<le> 2" "length (pad_left 2 d) \<le> 4"
    using civil_date_bounds [OF c] length_pad_left [of m 1 2] length_pad_left [of d 3 2] by simp_all
  have "t div 10 ^ 9 mod 86400 < 86400" by (rule pos_mod_bound) simp
  then have "?r < 86400" by linarith
  note 3 = length_clock [OF this]
  have "nat (t mod 10 ^ 9) < 10 ^ 9" by simp
  then have 4: "length (fraction (nat (t mod 10 ^ 9))) \<le> 10" by (rule length_fraction)
  have "length (a @ ''-'' @ b @ ''-'' @ d @ ''T'' @ h @ '':'' @ i @ '':'' @ s @ f @ ''Z'') \<le> 40"
    if "length a \<le> 4" "length b \<le> 2" "length d \<le> 4" "length h \<le> 2" "length i \<le> 2" "length s \<le> 2" "length f \<le> 10" for a b d h i s f :: string
    using that by simp
  from this [OF 1 2 3 4] show ?thesis unfolding rfc3339_nano_def Let_def c prod.case .
qed

lemma length_json_ascii: "length (json_ascii c) \<le> 6"
  by (simp add: json_ascii_def Let_def)

lemma length_json_body: "length (json_body s) \<le> 6 * length s"
proof (induction s rule: json_body.induct)
  case (2 c s)
  show ?case
  proof (cases "(of_char c :: nat) < 0x80")
    case True
    with 2(1) [OF True] length_json_ascii [of c] show ?thesis by (simp add: json_body.simps(2))
  next
    case False
    show ?thesis
    proof (cases "utf8_size (c # s)")
      case 0
      with 2(2) [OF False 0] False show ?thesis by (simp add: json_body.simps(2))
    next
      case (Suc n)
      have "n \<le> length s" using utf8_size_multi(2) [OF Suc False] .
      with 2(3) [OF False Suc] False Suc utf8_size_multi(1) [OF Suc False] show ?thesis by (auto simp: json_body.simps(2) diff_mult_distrib2)
    qed
  qed
qed simp

lemma length_json_string: "length (json_string s) \<le> 6 * length s + 2"
  using length_json_body [of s] by (simp add: json_string_def)

lemma length_join_with: "length (join_with d ps) \<le> sum_list (map (\<lambda>p. length p + length d) ps)"
  by (induction d ps rule: join_with.induct) auto

lemma length_json_obj: "length (json_enc (JObj fs)) \<le> 2 + sum_list (map (\<lambda>(k, v). 6 * length k + 4 + length (json_enc v)) fs)"
proof -
  have "length (join_with '','' (map (\<lambda>(k, v). json_string k @ '':'' @ v) (map (map_prod id json_enc) fs)))
      \<le> sum_list (map (\<lambda>(k, v). length (json_string k) + 2 + length (json_enc v)) fs)"
    using length_join_with [of "'',''" "map (\<lambda>(k, v). json_string k @ '':'' @ v) (map (map_prod id json_enc) fs)"]
    by (simp add: comp_def case_prod_unfold add_ac)
  moreover have "sum_list (map (\<lambda>(k, v). length (json_string k) + 2 + length (json_enc v)) fs)
      \<le> sum_list (map (\<lambda>(k, v). 6 * length k + 4 + length (json_enc v)) fs)"
    by (rule sum_list_mono) (use length_json_string in \<open>auto simp: add_ac\<close>)
  ultimately show ?thesis by simp
qed

text \<open>The names that a grant brings into its notes are short enough for a line, and an ID is drawn from 16 bytes.\<close>

definition short_grant :: "grant \<Rightarrow> bool" where
  "short_grant g \<longleftrightarrow> list_all (\<lambda>t. length (g_id g) + length (g_agent g) + length t \<le> 150000) (g_targets g)"

definition note_fits :: "grant \<Rightarrow> string option \<times> time \<times> audit_fault option \<Rightarrow> bool" where
  "note_fits g e \<longleftrightarrow> short_grant g \<and> (case fst e of None \<Rightarrow> True | Some b \<Rightarrow> length b = 16)"

lemma length_note_text:
  assumes "time_marshals now" and "length i = 32" and "length content \<le> max_note_bytes"
    and "length (g_id g) + length (g_agent g) + length target \<le> 150000"
  shows "length (note_text (new_note g target content i now)) < max_note_line"
proof -
  have s: "length (json_enc (JStr s)) \<le> 6 * length s + 2" for s using length_json_string [of s] by simp
  have w: "length (json_enc (jtime now)) \<le> 42" using length_rfc3339 [OF assms(1)] by (simp add: jtime_def)
  note f = length_json_obj [of "[(''id'', JStr i), (''timestamp'', jtime now), (''grant_id'', JStr (g_id g)), (''agent'', JStr (g_agent g))]
      @ omit_str ''target'' target @ [(''trust_level'', JStr trust2), (''content'', JStr content), (''sha256'', JStr (sha256_hex content))]"]
  have "length (note_text (new_note g target content i now)) \<le> 999336"
    using f s [of i] w s [of "g_id g"] s [of "g_agent g"] s [of target] s [of trust2] s [of content] s [of "sha256_hex content"] assms(2-4)
    unfolding note_text_def note_json_def new_note_def
    by (simp add: omit_str_def trust2_def max_note_bytes_def del: json_enc.simps split: if_splits)
  then show ?thesis by (simp add: max_note_line_def)
qed

lemma ns_append_ok:
  assumes "ns_append g t c rnd now fault f = (f', Inr n)"
  obtains b where "rnd = Some b" and "n = new_note g (trim_space t) (trim_space c) (hex_encode b) now" and "fault = None"
    and "f' = add_note_line (whole_note n) f" and "trim_space t \<noteq> []" and "trim_space t \<in> set (g_targets g)"
    and "length (trim_space c) \<le> max_note_bytes" and "time_marshals now"
  using assms
  by (auto simp: ns_append_def Let_def note_random_id_def note_allowed_iff split: if_splits option.splits audit_fault.splits)

lemma new_note_ok:
  assumes "t \<in> set (g_targets g)" and "t \<noteq> []" and "short_grant g" and "length b = 16" and "time_marshals now" and "length c \<le> max_note_bytes"
  shows "note_line_ok (whole_note (new_note g t c (hex_encode b) now))"
proof -
  have "length (note_text (new_note g t c (hex_encode b) now)) < max_note_line"
    using assms by (intro length_note_text) (auto simp: short_grant_def list_all_iff)
  then show ?thesis using assms(2,4) by (auto simp: note_line_ok_def whole_note_def note_invalid_def new_note_def)
qed

lemma note_scope_eq: "(\<lambda>n. note_target_allowed (g_targets g) (nt_target n)) = note_scope g"
  by (auto simp: note_scope_def note_allowed_iff)

interpretation notes_file: note_store holds_notes note_fits "\<lambda>g t c e. ns_append g t c (fst e) (fst (snd e)) (snd (snd e))" ns_list
proof (unfold_locales, goal_cases)
  case (1 f ns g e t c f' n)
  from 1(3) obtain b where b: "fst e = Some b" "n = new_note g (trim_space t) (trim_space c) (hex_encode b) (fst (snd e))"
    "f' = add_note_line (whole_note n) f" "trim_space t \<noteq> []" "trim_space t \<in> set (g_targets g)" "length (trim_space c) \<le> max_note_bytes"
    "time_marshals (fst (snd e))" by (rule ns_append_ok)
  then have "note_line_ok (whole_note n)" using 1(2) unfolding b(2) note_fits_def by (intro new_note_ok) auto
  with 1(1) show ?case unfolding b(3) by (rule holds_add) (simp add: whole_note_def)
next
  case (2 g t c e f f' n)
  then obtain b where "n = new_note g (trim_space t) (trim_space c) (hex_encode b) (fst (snd e))" "trim_space t \<in> set (g_targets g)"
    by (rule ns_append_ok) blast
  then show ?case by (simp add: new_note_def note_scope_def)
next
  case (3 f ns g l)
  then show ?case by (simp add: ns_list_def holds_read pick_eq note_scope_eq)
qed

section \<open>The file as a list of notes\<close>

lemma ns_append_refused:
  assumes "ns_append g t c rnd now fault f = (f', Inl e)" and "\<forall>k. fault \<noteq> Some (Fault_Write k)"
  shows "f' = f \<or> fault = Some Fault_Sync \<and> (\<exists>n. ns_append g t c rnd now None f = (f', Inr n))"
  using assms by (auto simp: ns_append_def Let_def split: if_splits option.splits audit_fault.splits sum.splits)

lemma holds_open: "holds_notes f ns \<Longrightarrow> trim_space path \<noteq> [] \<Longrightarrow> ns_open path f = Inr f"
  by (simp add: ns_open_def holds_read)

text \<open>
  The notes file is a list of notes. An accepted append adds one note at the end, made from the grant, for a target in its scope, with
  the trimmed content, and the file still opens at the next start; a refused one changes nothing, except that a failing \<open>Sync\<close> leaves the note in place. In every
  case any grant then reads the newest notes whose target is in its own scope, newest first, at most 200.
\<close>

theorem notes_refine_list:
  assumes "holds_notes f ns" and "note_fits g (rnd, now, fault)" and "\<forall>k. fault \<noteq> Some (Fault_Write k)"
    and "ns_append g t c rnd now fault f = (f', r)" and "trim_space path \<noteq> []"
  shows "\<exists>ns'. holds_notes f' ns' \<and> ns_open path f' = Inr f'
    \<and> (case r of
         Inr n \<Rightarrow> ns' = ns @ [n] \<and> nt_target n \<in> set (g_targets g) \<and> nt_grant_id n = g_id g \<and> nt_content n = trim_space c
       | Inl e \<Rightarrow> ns' = ns \<or> fault = Some Fault_Sync \<and> (\<exists>n. ns' = ns @ [n] \<and> nt_target n \<in> set (g_targets g)))
    \<and> (\<forall>g' l. ns_list g' l f' = Inr (take (list_limit l) (filter (\<lambda>n. nt_target n \<in> set (g_targets g')) (rev ns'))) \<and> list_limit l \<le> 200)"
proof -
  have served: ?thesis if "holds_notes f' ns'" and "case r of
         Inr n \<Rightarrow> ns' = ns @ [n] \<and> nt_target n \<in> set (g_targets g) \<and> nt_grant_id n = g_id g \<and> nt_content n = trim_space c
       | Inl e \<Rightarrow> ns' = ns \<or> fault = Some Fault_Sync \<and> (\<exists>n. ns' = ns @ [n] \<and> nt_target n \<in> set (g_targets g))" for ns'
    using that holds_open [OF that(1) assms(5)] notes_file.newest_notes [OF that(1), unfolded note_scope_def [abs_def]] notes_file.list_limit_pos(2)
    by blast
  have fits: "note_fits g (rnd, now, None)" using assms(2) by (simp add: note_fits_def)
  have added: "holds_notes f' (ns @ [n])" "nt_target n \<in> set (g_targets g)" if "ns_append g t c rnd now None f = (f', Inr n)" for n
    using notes_file.add_holds [OF assms(1) fits, of t c f' n] notes_file.add_note [of g t c "(rnd, now, None)" f f' n] that
    by (simp_all add: note_scope_def)
  show ?thesis
  proof (cases r)
    case (Inr n)
    then have "ns_append g t c rnd now fault f = (f', Inr n)" using assms(4) by simp
    then have "fault = None" by (rule ns_append_ok)
    with Inr assms(4) have a: "ns_append g t c rnd now None f = (f', Inr n)" by simp
    have "nt_grant_id n = g_id g \<and> nt_content n = trim_space c"
      using notes_file.add_note [of g t c "(rnd, now, None)" f f' n] a by simp
    with served [OF added(1) [OF a]] added(2) [OF a] Inr show ?thesis by simp
  next
    case (Inl e)
    from ns_append_refused [OF assms(4) [unfolded Inl] assms(3)] show ?thesis
    proof (elim disjE conjE exE)
      assume "f' = f" with served [of ns] assms(1) Inl show ?thesis by simp
    next
      fix n assume "fault = Some Fault_Sync" and a: "ns_append g t c rnd now None f = (f', Inr n)"
      with served [OF added(1) [OF a]] added(2) [OF a] Inl show ?thesis by simp
    qed
  qed
qed

definition note_grant :: grant where
  "note_grant = zero_grant\<lparr>g_id := ''g1'', g_agent := ''agent-a'', g_targets := [''dns01'']\<rparr>"

definition demo_note :: agent_note where
  "demo_note = new_note note_grant ''dns01'' ''ok'' (hex_encode ''0123456789abcdef'') 7"

lemma note_trims: "trim_space ''dns01'' = ''dns01''" "trim_space ''ok'' = ''ok''" "trim_space ''n'' = ''n''"
  by code_simp+

lemma demo_note_added:
  "ns_append note_grant ''dns01'' ''ok'' (Some ''0123456789abcdef'') 7 None None = (Some [whole_note demo_note], Inr demo_note)"
proof -
  have "time_marshals 7" by code_simp
  then show ?thesis
    by (simp add: ns_append_def note_trims note_target_allowed_def note_random_id_def Let_def demo_note_def note_grant_def max_note_bytes_def
        add_note_line_def note_lines_def del: hex_encode.simps)
qed

lemma demo_note_fits: "note_fits note_grant (Some ''0123456789abcdef'', 7, x)" "holds_notes None []"
  by (simp_all add: note_fits_def short_grant_def note_grant_def holds_notes_def note_lines_def)

theorem notes_refine_list_witness:
  "holds_notes (Some [whole_note demo_note]) [demo_note] \<and> ns_list note_grant 10 (Some [whole_note demo_note]) = Inr [demo_note]"
proof -
  have p: "trim_space ''n'' \<noteq> []" by (simp add: note_trims)
  from notes_refine_list [OF demo_note_fits(2) demo_note_fits(1) _ demo_note_added p]
  have "holds_notes (Some [whole_note demo_note]) [demo_note]"
    "ns_list note_grant 10 (Some [whole_note demo_note]) = Inr (take (list_limit 10) (filter (\<lambda>n. nt_target n \<in> set (g_targets note_grant)) [demo_note]))"
    by auto
  then show ?thesis by (simp add: list_limit_def demo_note_def new_note_def note_grant_def)
qed

section \<open>An interrupted write\<close>

inductive ns_step :: "note_file \<Rightarrow> note_file \<Rightarrow> bool" where
  append: "ns_append g t c rnd now fault f = (f', r) \<Longrightarrow> ns_step f f'"

definition ns_broken :: "note_file \<Rightarrow> bool" where
  "ns_broken f \<longleftrightarrow> (\<exists>l \<in> set (note_lines f). nl_note l = None)"

lemma lines_add:
  "note_lines (add_note_line l f) =
     (if note_lines f \<noteq> [] \<and> \<not> nl_newline (last (note_lines f))
      then butlast (note_lines f) @ [\<lparr>nl_note = None, nl_length = nl_length (last (note_lines f)) + nl_length l, nl_newline = nl_newline l\<rparr>]
      else note_lines f @ [l])"
  by (simp add: add_note_line_def Let_def note_lines_def [of "Some _"])

lemma broken_new: "nl_note l = None \<Longrightarrow> ns_broken (add_note_line l f)"
  unfolding ns_broken_def lines_add by auto

lemma broken_add: "ns_broken f \<Longrightarrow> ns_broken (add_note_line l f)"
  unfolding ns_broken_def lines_add by auto

lemma broken_touch: "ns_broken (Some (note_lines f)) = ns_broken f"
  by (simp add: ns_broken_def note_lines_def)

interpretation ns_damage: stable_predicate ns_step ns_broken
proof
  fix f f' assume "ns_step f f'" and b: "ns_broken f"
  then show "ns_broken f'"
  proof cases
    case (append g t c rnd now fault r)
    then have "f' = f \<or> f' = Some (note_lines f) \<or> (\<exists>l. f' = add_note_line l f)"
      by (auto simp: ns_append_def Let_def split: if_splits option.splits audit_fault.splits sum.splits)
    with b show ?thesis by (elim disjE exE) (simp_all add: broken_add broken_touch)
  qed
qed

lemma scan_broken: "l \<in> set ls \<Longrightarrow> nl_note l = None \<Longrightarrow> \<not> is_ok (scan_notes ls)"
  by (induction ls) (auto simp: is_ok_def split: option.splits sum.splits)

lemma broken_read: "ns_broken f \<Longrightarrow> \<not> is_ok (ns_read_all f)"
  using scan_broken by (auto simp: ns_broken_def ns_read_all_def note_lines_def split: option.splits)

lemma torn_append:
  assumes "ns_append g t c rnd now None f = (f0, Inr n)" and "0 < k"
  shows "ns_append g t c rnd now (Some (Fault_Write k)) f = (add_note_line (torn_note n k) f, Inl Err_IO)"
  using assms by (auto simp: ns_append_def Let_def split: if_splits option.splits sum.splits)

text \<open>
  An interrupted write of one note closes the whole store: when the write of a note fails after some but not all bytes of its text, the request
  is refused, and from then on every list by every grant and every start of the store fails, whatever is appended later. Nothing
  repairs the line that was cut short.
\<close>

theorem torn_note_blocks_store:
  assumes "ns_append g t c rnd now None f = (f0, Inr n)" and "0 < k" and "k < length (note_text n)"
    and "ns_append g t c rnd now (Some (Fault_Write k)) f = (f1, r)" and "ns_step\<^sup>*\<^sup>* f1 f2"
  shows "\<not> is_ok r \<and> \<not> is_ok (ns_list g' l f2) \<and> \<not> is_ok (ns_open path f2)"
proof -
  have f1: "f1 = add_note_line (torn_note n k) f" and r: "r = Inl Err_IO" using torn_append [OF assms(1,2)] assms(4) by simp_all
  have "nl_note (torn_note n k) = None" using assms(3) by (simp add: torn_note_def)
  then have "ns_broken f1" unfolding f1 by (rule broken_new)
  then have "\<not> is_ok (ns_read_all f2)" using ns_damage.steps_keep [OF assms(5)] broken_read by blast
  then show ?thesis using r by (auto simp: ns_list_def ns_open_def is_ok_def split: sum.splits)
qed

theorem torn_note_blocks_store_witness:
  "\<exists>f1 f2 n2. ns_append note_grant ''dns01'' ''ok'' (Some ''0123456789abcdef'') 7 (Some (Fault_Write 3)) None = (f1, Inl Err_IO)
     \<and> ns_append note_grant ''dns01'' ''ok'' (Some ''0123456789abcdef'') 7 None f1 = (f2, Inr n2) \<and> \<not> is_ok (ns_list note_grant 10 f2)"
proof -
  let ?f1 = "add_note_line (torn_note demo_note 3) None"
  have "nt_id demo_note = hex_encode ''0123456789abcdef''" by (simp only: demo_note_def new_note_def agent_note.simps)
  then have "length (json_string (nt_id demo_note)) = 34" by (simp add: json_string_hex del: hex_encode.simps)
  moreover have "length (json_enc (JStr (nt_id demo_note))) \<le> length (json_enc (note_json demo_note))"
    unfolding note_json_def by (rule json_obj_member [of "''id''"]) simp
  ultimately have len: "3 < length (note_text demo_note)" by (simp add: note_text_def del: hex_encode.simps)
  have torn: "ns_append note_grant ''dns01'' ''ok'' (Some ''0123456789abcdef'') 7 (Some (Fault_Write 3)) None = (?f1, Inl Err_IO)"
    by (rule torn_append [OF demo_note_added]) simp
  obtain f2 where next_note: "ns_append note_grant ''dns01'' ''ok'' (Some ''0123456789abcdef'') 7 None ?f1 = (f2, Inr demo_note)"
    using demo_note_added by (auto simp: ns_append_def Let_def split: if_splits option.splits sum.splits)
  have "ns_step\<^sup>*\<^sup>* ?f1 f2" using ns_step.append [OF next_note] by blast
  from torn_note_blocks_store [OF demo_note_added _ len torn this] have "\<not> is_ok (ns_list note_grant 10 f2)" by simp
  with torn next_note show ?thesis by blast
qed

end
