(* ===== verification/Resources.thy ===== *)
theory Resources
  imports Gateway Notes Context_Store
begin

text \<open>
  What an agent may read and leave beside its commands (\<open>internal/resourceapi\<close> in the control process, \<open>internal/gatewayresources\<close> in
  the gateway): the authoritative context, the history of the audit log, and the notes. The properties say which part of each a grant sees.
\<close>

section \<open>The control process\<close>

record resources =
  rs_control :: control
  rs_notes :: note_file
  rs_context :: "string option"   \<comment> \<open>the text of the context file, \<open>None\<close> when it cannot be read\<close>

record history_response =
  hy_trust_level :: string
  hy_authoritative :: bool
  hy_events :: "audit_event list"

record notes_response =
  nr_trust_level :: string
  nr_authoritative :: bool
  nr_notes :: "agent_note list"

text \<open>\<open>targetAllowed\<close> of this package refuses the empty target, which events without a target have.\<close>

definition resource_target_allowed :: "string list \<Rightarrow> string \<Rightarrow> bool" where
  "resource_target_allowed targets target = (if target = [] then False else list_ex (\<lambda>allowed. allowed = target) targets)"

definition context_bundle_request :: "context_decoder \<Rightarrow> env \<Rightarrow> string + string \<Rightarrow> resources \<Rightarrow> context_bundle reply" where
  "context_bundle_request decode env body s =
     (case body of
        Inl e \<Rightarrow> Reply_Error 400 (trim_space e)
      | Inr hash \<Rightarrow>
          (case grant_from_hash (e_clock env 0) hash (rs_control s) of
             Inl e \<Rightarrow> Reply_Error 401 ''invalid capability''
           | Inr g \<Rightarrow>
               (case cs_bundle decode (rs_context s) g of
                  Inl e \<Rightarrow> Reply_Error 500 ''authoritative context unavailable''
                | Inr b \<Rightarrow> Reply 200 b)))"

text \<open>\<open>ReadVerifiedContext\<close> looks at the request's context before it reads the file.\<close>

definition read_verified_context :: "bool \<Rightarrow> int \<Rightarrow> audit_log \<Rightarrow> err + audit_event list" where
  "read_verified_context canceled limit l = (if canceled then Inl Err_IO else al_read_verified limit l)"

definition history_keep :: "grant \<Rightarrow> audit_event \<Rightarrow> bool" where
  "history_keep g e =
     (if \<not> resource_target_allowed (g_targets g) (ev_target e) then False
      else if ev_grant_id e = g_id g then hist_current_session (g_history g)
      else if \<not> hist_previous (g_history g) then False
      else \<not> (\<not> hist_other_agents (g_history g) \<and> ev_actor e \<noteq> g_agent g))"

definition history :: "bool \<Rightarrow> env \<Rightarrow> string + (string \<times> int) \<Rightarrow> resources \<Rightarrow> history_response reply" where
  "history canceled env body s =
     (case body of
        Inl e \<Rightarrow> Reply_Error 400 (trim_space e)
      | Inr (hash, limit) \<Rightarrow>
          (case grant_from_hash (e_clock env 0) hash (rs_control s) of
             Inl e \<Rightarrow> Reply_Error 401 ''invalid capability''
           | Inr g \<Rightarrow>
               if \<not> perm_history_read (g_permissions g) then Reply_Error 403 ''history_read permission is not granted''
               else (case read_verified_context canceled 5000 (ct_audit (rs_control s)) of
                   Inl e \<Rightarrow> Reply_Error 500 ''verified history unavailable''
                 | Inr events \<Rightarrow>
                     Reply 200 \<lparr>hy_trust_level = trust2, hy_authoritative = False, hy_events = pick (history_keep g) (list_limit limit) events\<rparr>)))"

definition list_notes :: "env \<Rightarrow> string + (string \<times> int) \<Rightarrow> resources \<Rightarrow> notes_response reply" where
  "list_notes env body s =
     (case body of
        Inl e \<Rightarrow> Reply_Error 400 (trim_space e)
      | Inr (hash, limit) \<Rightarrow>
          (case grant_from_hash (e_clock env 0) hash (rs_control s) of
             Inl e \<Rightarrow> Reply_Error 401 ''invalid capability''
           | Inr g \<Rightarrow>
               if \<not> perm_notes_read (g_permissions g) then Reply_Error 403 ''notes_read permission is not granted''
               else (case ns_list g limit (rs_notes s) of
                   Inl e \<Rightarrow> Reply_Error 500 ''notes unavailable''
                 | Inr items \<Rightarrow> Reply 200 \<lparr>nr_trust_level = trust2, nr_authoritative = False, nr_notes = items\<rparr>)))"

definition note_created_event :: "grant \<Rightarrow> agent_note \<Rightarrow> audit_input" where
  "note_created_event g n =
     no_input\<lparr>ai_kind := ''note.created'', ai_actor := g_agent g, ai_grant_id := g_id g, ai_target := nt_target n,
       ai_metadata := [(''sha256'', nt_sha256 n), (''trust_level'', nt_trust_level n)]\<rparr>"

definition write_note :: "audit_fault option \<Rightarrow> env \<Rightarrow> string + (string \<times> string \<times> string) \<Rightarrow> resources \<Rightarrow> resources \<times> agent_note reply" where
  "write_note fault env body s =
     (case body of
        Inl e \<Rightarrow> (s, Reply_Error 400 (trim_space e))
      | Inr (hash, target, content) \<Rightarrow>
          (case grant_from_hash (e_clock env 0) hash (rs_control s) of
             Inl e \<Rightarrow> (s, Reply_Error 401 ''invalid capability'')
           | Inr g \<Rightarrow>
               if \<not> perm_notes_write (g_permissions g) then (s, Reply_Error 403 ''notes_write permission is not granted'')
               else (case ns_append g target content (e_rnd_id env) (e_clock env 1) fault (rs_notes s) of
                   (f, Inl e) \<Rightarrow> (s\<lparr>rs_notes := f\<rparr>, Reply_Error 400 (trim_space (e_err_text env e)))
                 | (f, Inr n) \<Rightarrow>
                     (case co_append env 0 (note_created_event g n) (rs_control s) of
                        (c, Inl e) \<Rightarrow> (s\<lparr>rs_notes := f, rs_control := c\<rparr>, Reply_Error 500 ''note persisted but audit append failed'')
                      | (c, Inr ev) \<Rightarrow> (s\<lparr>rs_notes := f, rs_control := c\<rparr>, Reply 200 n)))))"

section \<open>The gateway\<close>

record 'w resource_port =
  kp_context :: "string \<Rightarrow> 'w \<Rightarrow> 'w \<times> (err + context_bundle)"
  kp_history :: "string \<Rightarrow> int \<Rightarrow> 'w \<Rightarrow> 'w \<times> (err + history_response)"
  kp_list_notes :: "string \<Rightarrow> int \<Rightarrow> 'w \<Rightarrow> 'w \<times> (err + notes_response)"
  kp_write_note :: "string \<Rightarrow> string \<Rightarrow> string \<Rightarrow> 'w \<Rightarrow> 'w \<times> (err + agent_note)"

definition capability_hash :: "string \<Rightarrow> string option" where
  "capability_hash header =
     (if \<not> has_prefix header ''Bearer '' then None
      else let token = trim_space (trim_prefix header ''Bearer '') in
        if validate_format token \<noteq> None then None else Some (token_hash token))"

definition query_limit :: "string \<Rightarrow> int" where
  "query_limit limit = (case atoi limit of None \<Rightarrow> 50 | Some value \<Rightarrow> if value \<le> 0 \<or> 200 < value then 50 else value)"

definition gr_context :: "'w resource_port \<Rightarrow> string \<Rightarrow> 'w \<Rightarrow> 'w \<times> context_bundle reply" where
  "gr_context p header w =
     (case capability_hash header of
        None \<Rightarrow> (w, Reply_Error 401 ''valid capability required'')
      | Some hash \<Rightarrow>
          (case kp_context p hash w of
             (w1, Inl e) \<Rightarrow> (w1, Reply_Error 403 ''context request rejected by control plane'')
           | (w1, Inr b) \<Rightarrow> (w1, Reply 200 b)))"

definition gr_history :: "'w resource_port \<Rightarrow> string \<Rightarrow> string \<Rightarrow> 'w \<Rightarrow> 'w \<times> history_response reply" where
  "gr_history p header limit w =
     (case capability_hash header of
        None \<Rightarrow> (w, Reply_Error 401 ''valid capability required'')
      | Some hash \<Rightarrow>
          (case kp_history p hash (query_limit limit) w of
             (w1, Inl e) \<Rightarrow> (w1, Reply_Error 403 ''history request rejected by control plane'')
           | (w1, Inr r) \<Rightarrow> (w1, Reply 200 r)))"

definition gr_list_notes :: "'w resource_port \<Rightarrow> string \<Rightarrow> string \<Rightarrow> 'w \<Rightarrow> 'w \<times> notes_response reply" where
  "gr_list_notes p header limit w =
     (case capability_hash header of
        None \<Rightarrow> (w, Reply_Error 401 ''valid capability required'')
      | Some hash \<Rightarrow>
          (case kp_list_notes p hash (query_limit limit) w of
             (w1, Inl e) \<Rightarrow> (w1, Reply_Error 403 ''notes request rejected by control plane'')
           | (w1, Inr r) \<Rightarrow> (w1, Reply 200 r)))"

definition gr_write_note :: "'w resource_port \<Rightarrow> string \<Rightarrow> string + (string \<times> string) \<Rightarrow> 'w \<Rightarrow> 'w \<times> agent_note reply" where
  "gr_write_note p header body w =
     (case capability_hash header of
        None \<Rightarrow> (w, Reply_Error 401 ''valid capability required'')
      | Some hash \<Rightarrow>
          (case body of
             Inl e \<Rightarrow> (w, Reply_Error 400 e)
           | Inr (target, content) \<Rightarrow>
               (case kp_write_note p hash (trim_space target) content w of
                  (w1, Inl e) \<Rightarrow> (w1, Reply_Error 403 ''note write rejected by control plane'')
                | (w1, Inr n) \<Rightarrow> (w1, Reply 200 n))))"

text \<open>The control process behind the gateway: the client of the control plane on the replies of the handlers, over a network that may lose either way.\<close>

definition over_net :: "net_fault \<Rightarrow> ('s \<Rightarrow> 's \<times> 'a reply) \<Rightarrow> 's \<Rightarrow> 's \<times> (err + 'a)" where
  "over_net net handler s =
     (case net of
        Net_Request_Lost \<Rightarrow> (s, Inl Err_IO)
      | Net_Reply_Lost \<Rightarrow> (fst (handler s), Inl Err_IO)
      | Net_Ok \<Rightarrow> (case handler s of (s1, r) \<Rightarrow> (s1, cc_read r)))"

definition resource_plane :: "context_decoder \<Rightarrow> env \<Rightarrow> audit_fault option \<Rightarrow> bool \<Rightarrow> net_fault \<Rightarrow> resources resource_port" where
  "resource_plane decode env fault canceled net =
     \<lparr>kp_context = (\<lambda>hash. over_net net (\<lambda>s. (s, context_bundle_request decode env (Inr (hex_encode hash)) s))),
      kp_history = (\<lambda>hash limit. over_net net (\<lambda>s. (s, history canceled env (Inr (hex_encode hash, limit)) s))),
      kp_list_notes = (\<lambda>hash limit. over_net net (\<lambda>s. (s, list_notes env (Inr (hex_encode hash, limit)) s))),
      kp_write_note = (\<lambda>hash target content. over_net net (write_note fault env (Inr (hex_encode hash, target, content))))\<rparr>"

section \<open>History\<close>

text \<open>The events that a grant may see: for a target in its scope, of its own session, of earlier sessions of its agent, or of others, as its scope says.\<close>

definition history_visible :: "grant \<Rightarrow> audit_event \<Rightarrow> bool" where
  "history_visible g e \<longleftrightarrow> ev_target e \<noteq> [] \<and> ev_target e \<in> set (g_targets g)
     \<and> (if ev_grant_id e = g_id g then hist_current_session (g_history g)
        else hist_previous (g_history g) \<and> (hist_other_agents (g_history g) \<or> ev_actor e = g_agent g))"

lemma history_keep_eq: "history_keep g = history_visible g"
  by (rule ext) (auto simp: history_keep_def history_visible_def resource_target_allowed_def list_ex_iff)

definition log_events :: "audit_log \<Rightarrow> audit_event list" where
  "log_events l = (case al_lines l of None \<Rightarrow> [] | Some lns \<Rightarrow> map (the \<circ> ln_event) lns)"

lemma read_verified_wf: "al_wf l \<Longrightarrow> al_read_verified 5000 l = Inr (take 5000 (rev (log_events l)))"
  by (auto simp: al_wf_def al_read_verified_def log_events_def split: option.splits)

lemma query_limit_range: "1 \<le> query_limit t" "query_limit t \<le> 200"
  by (auto simp: query_limit_def split: option.splits)

lemma list_limit_query: "list_limit (query_limit t) = nat (query_limit t)"
  using query_limit_range [of t] by (simp add: list_limit_def)

text \<open>
  C21. An agent reads exactly the history of its grant. On a log that verifies, the gateway answers a history request with the newest events, newest first, at
  most the limit and never more than 200, among the newest 5000 of the log that the scope of the grant covers: the target is one of its targets, and the
  event belongs to its own session, to its agent's earlier sessions or to other agents only where the grant says so. It does so only for a token of the right
  format, a live grant with the history permission, and a request that reached the control process; every other request is refused, and none changes anything.
\<close>

theorem history_exact:
  assumes "al_wf (ct_audit (rs_control s))"
  shows "gr_history (resource_plane decode env fault canceled net) header limit s =
    (s, case capability_hash header of
          None \<Rightarrow> Reply_Error 401 ''valid capability required''
        | Some h \<Rightarrow>
            (case grant_from_hash (e_clock env 0) (hex_encode h) (rs_control s) of
               Inr g \<Rightarrow>
                 if net = Net_Ok \<and> \<not> canceled \<and> perm_history_read (g_permissions g)
                 then Reply 200 \<lparr>hy_trust_level = trust2, hy_authoritative = False,
                   hy_events = take (nat (query_limit limit)) (filter (history_visible g) (take 5000 (rev (log_events (ct_audit (rs_control s))))))\<rparr>
                 else Reply_Error 403 ''history request rejected by control plane''
             | Inl e \<Rightarrow> Reply_Error 403 ''history request rejected by control plane''))
    \<and> query_limit limit \<le> 200"
proof -
  note read = read_verified_wf [OF assms]
  show ?thesis
    by (simp add: gr_history_def resource_plane_def over_net_def history_def read_verified_context_def read cc_read_def
        pick_eq history_keep_eq list_limit_query query_limit_range split: option.split net_fault.split sum.split)
qed

section \<open>Context\<close>

lemma context_handler:
  assumes "capability_hash header = Some h" and "grant_from_hash (e_clock env 0) (hex_encode h) (rs_control s) = Inr g"
  shows "gr_context (resource_plane decode env fault canceled Net_Ok) header s =
    (s, case cs_bundle decode (rs_context s) g of
       Inl e \<Rightarrow> Reply_Error 403 ''context request rejected by control plane'' | Inr b \<Rightarrow> Reply 200 b)"
  using assms by (simp add: gr_context_def resource_plane_def over_net_def context_bundle_request_def cc_read_def split: sum.split)

text \<open>
  C22. A grant learns of the context file only what its targets cover. Take two context files that have the same policy and instructions, the same
  hosts among the targets of the grant but for their addresses, and the same runbooks that are general or name one of these targets, but for
  the targets they name: the agent is answered with the same documents, whatever the files say of other hosts, addresses and runbooks, and in
  whatever order the hosts come. Every document is marked as authoritative and read-only, with the digest of its content. (The
  version in the answer is the digest of the whole file.)
\<close>

theorem context_discloses_scope:
  assumes "capability_hash header = Some h"
    and "grant_from_hash (e_clock env1 0) (hex_encode h) (rs_control s1) = Inr g" and "grant_from_hash (e_clock env2 0) (hex_encode h) (rs_control s2) = Inr g"
    and "cs_load decode (rs_context s1) = Inr (c1, v1)" and "cs_load decode (rs_context s2) = Inr (c2, v2)"
    and "cx_policy c1 = cx_policy c2" and "cx_instructions c1 = cx_instructions c2"
    and "visible_hosts g c1 = visible_hosts g c2" and "visible_runbooks g c1 = visible_runbooks g c2"
    and "gr_context (resource_plane decode env1 fault canceled Net_Ok) header s1 = (s1', r1)"
    and "gr_context (resource_plane decode env2 fault canceled Net_Ok) header s2 = (s2', r2)"
  shows "map_reply cb_documents r1 = map_reply cb_documents r2 \<and> s1' = s1
    \<and> (\<forall>n b. r1 = Reply n b \<longrightarrow> cb_version b = v1 \<and> cb_trust_level b = trust0 \<and> list_all authoritative (cb_documents b))"
proof -
  note docs = bundle_scope [OF assms(4-9)]
  have r1: "r1 = (case cs_bundle decode (rs_context s1) g of Inl e \<Rightarrow> Reply_Error 403 ''context request rejected by control plane'' | Inr b \<Rightarrow> Reply 200 b)" "s1' = s1"
    using assms(10) [unfolded context_handler [OF assms(1,2)]] by blast+
  have r2: "r2 = (case cs_bundle decode (rs_context s2) g of Inl e \<Rightarrow> Reply_Error 403 ''context request rejected by control plane'' | Inr b \<Rightarrow> Reply 200 b)"
    using assms(11) [unfolded context_handler [OF assms(1,3)]] by blast
  have "map_reply cb_documents r1 = map_reply cb_documents r2"
    using docs unfolding r1 r2 by (cases "cs_bundle decode (rs_context s1) g"; cases "cs_bundle decode (rs_context s2) g") simp_all
  moreover have "cb_version b = v1 \<and> cb_trust_level b = trust0 \<and> list_all authoritative (cb_documents b)" if "r1 = Reply n b" for n b
  proof -
    have b: "cs_bundle decode (rs_context s1) g = Inr b" using that unfolding r1 by (auto split: sum.splits)
    have "cb_version b = v1" using b by (auto simp: cs_bundle_def assms(4) Let_def split: sum.splits)
    with bundle_authoritative [OF b] show ?thesis by simp
  qed
  ultimately show ?thesis using r1(2) by blast
qed

section \<open>Notes\<close>


section \<open>A session that reads and writes\<close>

definition reader_grant :: grant where
  "reader_grant = token_grant\<lparr>g_permissions := no_permissions\<lparr>perm_history_read := True, perm_notes_read := True, perm_notes_write := True\<rparr>,
     g_history := no_history\<lparr>hist_current_session := True\<rparr>\<rparr>"

definition reader_control :: "audit_log \<Rightarrow> control" where
  "reader_control l = (live_control Pending)\<lparr>ct_auth :=
     \<lparr>au_store = \<lparr>gs_by_hash = [(token_hash demo_token, reader_grant)], gs_by_id = [(''g'', token_hash demo_token)], gs_disk = None\<rparr>,
      au_em = \<lparr>em_mem = em_zero, em_disk = None\<rparr>\<rparr>, ct_audit := l\<rparr>"

definition reader :: "audit_log \<Rightarrow> string \<Rightarrow> resources" where
  "reader l file = \<lparr>rs_control = reader_control l, rs_notes = None, rs_context = Some file\<rparr>"

lemma reader_wf: "au_wf (ct_auth (reader_control l))"
proof -
  have "length (token_hash demo_token) = 32" by (simp add: token_hash_def)
  then show ?thesis
    by (auto simp: au_wf_def gm_wf_def gm_abs_def reader_control_def reader_grant_def token_grant_def exec_grant_def zero_grant_def em_zero_def
        unique_keys_def split: if_splits)
qed

lemma reader_authenticates: "grant_from_hash 2 (hex_encode (token_hash demo_token)) (reader_control l) = Inr reader_grant"
proof -
  have "cap_authenticate_hash (auth_service (ct_auth (reader_control l))) (token_hash demo_token) 2 = Inr reader_grant"
    unfolding cap_authenticate_hash_iff [OF reader_wf]
    by (simp add: gm_abs_def reader_control_def reader_grant_def token_grant_def grant_live_def exec_grant_def zero_grant_def em_zero_def)
  then show ?thesis by (simp add: grant_from_hash_def token_hash_def)
qed

lemma reader_only: "grant_from_hash now h (reader_control l) = Inr g \<Longrightarrow> g = reader_grant"
proof -
  assume "grant_from_hash now h (reader_control l) = Inr g"
  then obtain raw where "cap_authenticate_hash (auth_service (ct_auth (reader_control l))) raw now = Inr g"
    by (auto simp: grant_from_hash_def split: option.splits if_splits)
  then have "gm_abs (au_store (ct_auth (reader_control l))) (g_id g) = Some g" unfolding cap_authenticate_hash_iff [OF reader_wf] by blast
  then show ?thesis by (simp add: gm_abs_def reader_control_def split: if_splits)
qed

lemma reader_header: "capability_hash (''Bearer '' @ demo_token) = Some (token_hash demo_token)"
  using demo_token_facts by (simp add: capability_hash_def bearer_def Let_def split: if_splits)

definition reader_input :: audit_input where
  "reader_input = no_input\<lparr>ai_kind := ''command.submitted'', ai_actor := ''agent'', ai_grant_id := ''g'', ai_target := ''host''\<rparr>"

text \<open>A log with one event of the session.\<close>

lemma reader_log:
  obtains l ev where "al_wf l" and "log_events l = [ev]" and "history_visible reader_grant ev" and "ev_target ev = ''host''"
proof -
  define ev0 where "ev0 = event_of 1 [] 7 (hex_encode ''i'') reader_input"
  define ev where "ev = ev0\<lparr>ev_hash := sha256_hex (event_text (ev0\<lparr>ev_hash := []\<rparr>))\<rparr>"
  define l where "l = \<lparr>al_sequence = 1, al_last_hash = ev_hash ev, al_lines = Some [whole_line ev]\<rparr>"
  have "ev_timestamp ev0 = 7" "ev_sequence ev0 = 1" by (simp_all add: ev0_def event_of_def)
  then have a: "al_append None reader_input (Some ''i'') 7 None demo_log = (l, Inr ev)"
    using demo_audit_time
    by (simp add: al_append_def build_event_def al_random_id_def event_hash_def resolve_operator_actor_def reader_input_def no_input_def Let_def
        demo_log_def add_line_def l_def ev_def ev0_def)
  have f: "ev_target ev = ''host''" "ev_grant_id ev = ''g''"
    by (simp_all add: ev_def ev0_def event_of_def reader_input_def no_input_def)
  have j: "length (json_enc (JStr s)) \<le> 6 * length s + 2" for s using length_json_string [of s] by simp
  have w: "length (json_enc (jtime 7)) \<le> 42" using length_rfc3339 [OF demo_audit_time] by (simp add: jtime_def)
  have n: "length (json_enc (JInt 1)) \<le> 20" by (simp add: dec_int_def dec_nat.simps)
  have e: "event_json ev = JObj [(''sequence'', JInt 1), (''id'', JStr (hex_encode ''i'')), (''timestamp'', jtime 7), (''kind'', JStr ''command.submitted''),
      (''actor'', JStr ''agent''), (''grant_id'', JStr ''g''), (''target'', JStr ''host''), (''prev_hash'', JStr []), (''hash'', JStr (ev_hash ev))]"
    by (simp add: event_json_def ev_def ev0_def event_of_def reader_input_def no_input_def omit_str_def del: hex_encode.simps)
  have h: "length (ev_hash ev) = 64" by (simp add: ev_def)
  have "length (event_text ev) < max_token"
    using length_json_obj [of "[(''sequence'', JInt 1), (''id'', JStr (hex_encode ''i'')), (''timestamp'', jtime 7), (''kind'', JStr ''command.submitted''),
      (''actor'', JStr ''agent''), (''grant_id'', JStr ''g''), (''target'', JStr ''host''), (''prev_hash'', JStr []), (''hash'', JStr (ev_hash ev))]"]
      n w j [of "hex_encode ''i''"] j [of "''command.submitted''"] j [of "''agent''"] j [of "''g''"] j [of "''host''"] j [of "[]"] j [of "ev_hash ev"] h
    unfolding event_text_def e max_token_def by (simp del: json_enc.simps hex_encode.simps)
  then have "al_wf l" using al_append_scan [OF demo_log_wf a] by simp
  moreover have "log_events l = [ev]" by (simp add: log_events_def l_def whole_line_def)
  moreover have "history_visible reader_grant ev"
    using f by (simp add: history_visible_def reader_grant_def token_grant_def exec_grant_def)
  ultimately show thesis using f(1) that by blast
qed

theorem history_exact_witness:
  "\<exists>l ev. gr_history (resource_plane (\<lambda>_. Inl Err_IO) demo_env None False Net_Ok) (''Bearer '' @ demo_token) ''10'' (reader l [])
     = (reader l [], Reply 200 \<lparr>hy_trust_level = trust2, hy_authoritative = False, hy_events = [ev]\<rparr>) \<and> ev_target ev = ''host''"
proof -
  obtain l ev where l: "al_wf l" "log_events l = [ev]" "history_visible reader_grant ev" "ev_target ev = ''host''" by (rule reader_log)
  have s: "rs_control (reader l []) = reader_control l" "ct_audit (reader_control l) = l" by (simp_all add: reader_def reader_control_def)
  have q: "query_limit ''10'' = 10" by code_simp
  have g: "grant_from_hash (e_clock demo_env 0) (hex_encode (token_hash demo_token)) (reader_control l) = Inr reader_grant"
    using reader_authenticates by (simp add: demo_env_def)
  have p: "perm_history_read (g_permissions reader_grant)" by (simp add: reader_grant_def)
  have "al_wf (ct_audit (rs_control (reader l [])))" using l(1) s by simp
  from history_exact [OF this, of "\<lambda>_. Inl Err_IO" demo_env None False Net_Ok "''Bearer '' @ demo_token" "''10''"]
  have "gr_history (resource_plane (\<lambda>_. Inl Err_IO) demo_env None False Net_Ok) (''Bearer '' @ demo_token) ''10'' (reader l [])
     = (reader l [], Reply 200 \<lparr>hy_trust_level = trust2, hy_authoritative = False, hy_events = [ev]\<rparr>)"
    unfolding s reader_header option.case g sum.case q l(2) using p l(3) by simp
  with l(4) show ?thesis by blast
qed

text \<open>Two files with the same policy: one names an address and another host.\<close>

definition host_entry :: "string \<Rightarrow> string list \<Rightarrow> context_host" where
  "host_entry name addresses =
     \<lparr>ch_name = name, ch_role = ''dns'', ch_os = [], ch_services = [], ch_addresses = addresses, ch_notes = []\<rparr>"

definition demo_decoder :: context_decoder where
  "demo_decoder text0 = Inr \<lparr>cx_policy = ''p'', cx_instructions = ''i'',
     cx_hosts = (if text0 = ''a'' then [host_entry ''db'' [''10.0.0.1''], host_entry ''host'' [''10.0.0.2'']] else [host_entry ''host'' []]), cx_runbooks = []\<rparr>"

theorem context_discloses_scope_witness:
  "\<exists>s1' s2' b1 b2. gr_context (resource_plane demo_decoder demo_env None False Net_Ok) (''Bearer '' @ demo_token) (reader demo_log ''a'') = (s1', Reply 200 b1)
     \<and> gr_context (resource_plane demo_decoder demo_env None False Net_Ok) (''Bearer '' @ demo_token) (reader demo_log ''b'') = (s2', Reply 200 b2)
     \<and> cb_documents b1 = cb_documents b2"
proof -
  have t: "trim_space ''p'' \<noteq> []" "trim_space ''i'' \<noteq> []" "trim_space ''db'' \<noteq> []" "trim_space ''host'' \<noteq> []" by code_simp+
  have c: "rs_control (reader demo_log x) = reader_control demo_log" "rs_context (reader demo_log x) = Some x" for x by (simp_all add: reader_def)
  have g: "grant_from_hash (e_clock demo_env 0) (hex_encode (token_hash demo_token)) (rs_control (reader demo_log x)) = Inr reader_grant" for x
    using reader_authenticates by (simp add: demo_env_def c)
  have a: "cs_load demo_decoder (rs_context (reader demo_log ''a'')) = Inr (projr (demo_decoder ''a''), sha256_hex ''a'')"
    "cs_load demo_decoder (rs_context (reader demo_log ''b'')) = Inr (projr (demo_decoder ''b''), sha256_hex ''b'')"
    unfolding c using t by (simp_all add: cs_load_def demo_decoder_def host_entry_def)
  have v: "visible_hosts reader_grant (projr (demo_decoder ''a'')) = visible_hosts reader_grant (projr (demo_decoder ''b''))"
    unfolding scoped_hosts_set [symmetric]
    by (simp add: demo_decoder_def host_entry_def agent_host_def reader_grant_def token_grant_def exec_grant_def)
  have r: "visible_runbooks reader_grant (projr (demo_decoder x)) = []" "cx_policy (projr (demo_decoder x)) = ''p''" "cx_instructions (projr (demo_decoder x)) = ''i''" for x
    by (simp_all add: visible_runbooks_def demo_decoder_def)
  have "\<exists>b. cs_bundle demo_decoder (rs_context (reader demo_log ''a'')) reader_grant = Inr b"
    "\<exists>b. cs_bundle demo_decoder (rs_context (reader demo_log ''b'')) reader_grant = Inr b"
    using a r by (auto simp: cs_bundle_def Let_def runbook_docs_eq)
  then obtain b1 b2 where b: "cs_bundle demo_decoder (rs_context (reader demo_log ''a'')) reader_grant = Inr b1"
    "cs_bundle demo_decoder (rs_context (reader demo_log ''b'')) reader_grant = Inr b2" by (elim exE) (rule that)
  have h: "gr_context (resource_plane demo_decoder demo_env None False Net_Ok) (''Bearer '' @ demo_token) (reader demo_log ''a'') = (reader demo_log ''a'', Reply 200 b1)"
    "gr_context (resource_plane demo_decoder demo_env None False Net_Ok) (''Bearer '' @ demo_token) (reader demo_log ''b'') = (reader demo_log ''b'', Reply 200 b2)"
    by (simp_all only: context_handler [OF reader_header g] b sum.case)
  have "map_reply cb_documents (Reply 200 b1) = map_reply cb_documents (Reply 200 b2)"
    using context_discloses_scope [OF reader_header g g a _ _ v _ h] r by simp
  with h show ?thesis by auto
qed


end
