(* ===== verification/Relay_Protocol.thy ===== *)
theory Relay_Protocol
  imports Remote_Command Go_Netip
begin

text \<open>
  The protocol of the GitHub relay (\<open>internal/githubrelay/protocol.go\<close>): requests and responses as comments of an issue, each a marker and a
  JSON object with a message authentication code over a canonical JSON text of its other fields, under the secret of the session.
\<close>

section \<open>Data\<close>

record relay_request =
  rr_version :: int
  rr_session_id :: string
  rr_sequence :: "64 word"
  rr_request_id :: string
  rr_target :: string
  rr_argv :: "string list option"
  rr_agent_reason :: string
  rr_timeout_seconds :: int
  rr_mac :: string

record relay_response =
  rs_version :: int
  rs_session_id :: string
  rs_sequence :: "64 word"
  rs_request_id :: string
  rs_status :: string
  rs_decision :: string
  rs_approval_id :: string
  rs_job_id :: string
  rs_job_status :: string
  rs_success :: "bool option"
  rs_exit_code :: "int option"
  rs_error_kind :: string
  rs_output_sha256 :: string
  rs_stdout_b64 :: string
  rs_stderr_b64 :: string
  rs_stdout_truncated :: bool
  rs_stderr_truncated :: bool
  rs_error :: string
  rs_mac :: string

record relay_auth =
  ra_version :: int
  ra_session_id :: string
  ra_repository_id :: int
  ra_issue_number :: int
  ra_actor_id :: int
  ra_target :: string
  ra_expires_at :: string
  ra_max_commands :: int
  ra_exact_argv :: "string list option"
  ra_publish_output :: bool
  ra_output_limit :: int
  ra_mac :: string

definition protocol_version :: int where "protocol_version = 1"
definition request_marker :: string where "request_marker = ''TETHYS_SENTINEL_RELAY_REQUEST_V1'' @ [CHR 0x0A]"
definition response_marker :: string where "response_marker = ''TETHYS_SENTINEL_RELAY_RESPONSE_V1'' @ [CHR 0x0A]"
definition auth_marker :: string where "auth_marker = ''TETHYS_SENTINEL_RELAY_AUTHORIZED_V1'' @ [CHR 0x0A]"
definition relay_secret_prefix :: string where "relay_secret_prefix = ''tsr_''"
definition mac_prefix :: string where "mac_prefix = ''h1_''"
definition max_comment_bytes :: int where "max_comment_bytes = 49152"

definition err_not_relay_request :: err where "err_not_relay_request = Err_Msg ''not a Tethys Sentinel relay request''"
definition err_invalid_mac :: err where "err_invalid_mac = Err_Msg ''invalid relay request MAC''"
definition err_secret :: err where "err_secret = Err_Msg ''invalid relay session secret''"

section \<open>Canonical texts\<close>

text \<open>
  The encoder writes a map with its keys in order. The optional fields of a response are pointers, \<open>null\<close> when absent, and a slice
  that was never made is \<open>null\<close> too, where an empty one is \<open>[]\<close>.
\<close>

definition jnull :: jval where "jnull = JRaw ''null''"

definition jslice :: "string list option \<Rightarrow> jval" where
  "jslice ss = (case ss of None \<Rightarrow> jnull | Some xs \<Rightarrow> JArr (map JStr xs))"

definition slice_elems :: "string list option \<Rightarrow> string list" where
  "slice_elems ss = (case ss of None \<Rightarrow> [] | Some xs \<Rightarrow> xs)"

definition jword :: "64 word \<Rightarrow> jval" where "jword w = JInt (uint w)"

definition canonical_request :: "relay_request \<Rightarrow> string" where
  "canonical_request r = json_raw (JObj
     [(''agent_reason'', JStr (rr_agent_reason r)), (''argv'', jslice (rr_argv r)), (''request_id'', JStr (rr_request_id r)),
      (''sequence'', jword (rr_sequence r)), (''session_id'', JStr (rr_session_id r)), (''target'', JStr (rr_target r)),
      (''timeout_seconds'', JInt (rr_timeout_seconds r)), (''version'', JInt (rr_version r))])"

definition canonical_response :: "relay_response \<Rightarrow> string" where
  "canonical_response r = json_raw (JObj
     [(''approval_id'', JStr (rs_approval_id r)), (''decision'', JStr (rs_decision r)), (''error'', JStr (rs_error r)),
      (''error_kind'', JStr (rs_error_kind r)), (''exit_code'', case rs_exit_code r of None \<Rightarrow> jnull | Some n \<Rightarrow> JInt n),
      (''job_id'', JStr (rs_job_id r)), (''job_status'', JStr (rs_job_status r)), (''output_sha256'', JStr (rs_output_sha256 r)),
      (''request_id'', JStr (rs_request_id r)), (''sequence'', jword (rs_sequence r)), (''session_id'', JStr (rs_session_id r)),
      (''status'', JStr (rs_status r)), (''stderr_b64'', JStr (rs_stderr_b64 r)), (''stderr_truncated'', JBool (rs_stderr_truncated r)),
      (''stdout_b64'', JStr (rs_stdout_b64 r)), (''stdout_truncated'', JBool (rs_stdout_truncated r)),
      (''success'', case rs_success r of None \<Rightarrow> jnull | Some b \<Rightarrow> JBool b), (''version'', JInt (rs_version r))])"

definition canonical_authorization :: "relay_auth \<Rightarrow> string" where
  "canonical_authorization a = json_raw (JObj
     [(''actor_id'', JInt (ra_actor_id a)), (''exact_argv'', jslice (ra_exact_argv a)), (''expires_at'', JStr (ra_expires_at a)),
      (''issue_number'', JInt (ra_issue_number a)), (''max_commands'', JInt (ra_max_commands a)),
      (''output_limit_bytes'', JInt (ra_output_limit a)), (''publish_output'', JBool (ra_publish_output a)),
      (''repository_id'', JInt (ra_repository_id a)), (''session_id'', JStr (ra_session_id a)), (''target'', JStr (ra_target a)),
      (''version'', JInt (ra_version a))])"

section \<open>Authentication codes\<close>

definition new_session_secret :: "string option \<Rightarrow> err + string" where
  "new_session_secret rnd = (case rnd of None \<Rightarrow> Inl Err_Rand | Some buf \<Rightarrow> Inr (relay_secret_prefix @ b64url_encode buf))"

definition decode_session_secret :: "string \<Rightarrow> err + string" where
  "decode_session_secret secret0 =
     (let secret = trim_space secret0 in
      if \<not> has_prefix secret relay_secret_prefix then Inl err_secret
      else case b64url_decode (trim_prefix secret relay_secret_prefix) of
        None \<Rightarrow> Inl err_secret
      | Some raw \<Rightarrow> if length raw \<noteq> 32 then Inl err_secret else Inr raw)"

definition validate_session_secret :: "string \<Rightarrow> err option" where
  "validate_session_secret secret = (case decode_session_secret secret of Inl e \<Rightarrow> Some e | Inr _ \<Rightarrow> None)"

definition compute_mac :: "string \<Rightarrow> string \<Rightarrow> err + string" where
  "compute_mac secret payload =
     (case decode_session_secret secret of
        Inl e \<Rightarrow> Inl e
      | Inr key \<Rightarrow> Inr (mac_prefix @ b64url_encode (hmac_sha256 key payload)))"

definition request_mac :: "string \<Rightarrow> relay_request \<Rightarrow> err + string" where
  "request_mac secret req = compute_mac secret (canonical_request req)"

definition verify_mac :: "string \<Rightarrow> err + string \<Rightarrow> err option" where
  "verify_mac mac expected =
     (let got = trim_space mac in
      if got = [] then Some err_invalid_mac
      else case expected of Inl e \<Rightarrow> Some e | Inr want \<Rightarrow> if got \<noteq> want then Some err_invalid_mac else None)"

definition verify_request_mac :: "string \<Rightarrow> relay_request \<Rightarrow> err option" where
  "verify_request_mac secret req = verify_mac (rr_mac req) (request_mac secret req)"

definition response_mac :: "string \<Rightarrow> relay_response \<Rightarrow> err + string" where
  "response_mac secret r = compute_mac secret (canonical_response r)"

definition verify_response_mac :: "string \<Rightarrow> relay_response \<Rightarrow> err option" where
  "verify_response_mac secret r = verify_mac (rs_mac r) (response_mac secret r)"

definition authorization_mac :: "string \<Rightarrow> relay_auth \<Rightarrow> err + string" where
  "authorization_mac secret a = compute_mac secret (canonical_authorization a)"

section \<open>Comments\<close>

definition omit_int :: "string \<Rightarrow> int \<Rightarrow> (string \<times> jval) list" where
  "omit_int k i = (if i = 0 then [] else [(k, JInt i)])"

definition omit_true :: "string \<Rightarrow> bool \<Rightarrow> (string \<times> jval) list" where
  "omit_true k b = (if b then [(k, JBool True)] else [])"

definition request_json :: "relay_request \<Rightarrow> jval" where
  "request_json r = JObj
     ([(''version'', JInt (rr_version r)), (''session_id'', JStr (rr_session_id r)), (''sequence'', jword (rr_sequence r)),
       (''request_id'', JStr (rr_request_id r)), (''target'', JStr (rr_target r)), (''argv'', jslice (rr_argv r))]
      @ omit_str ''agent_reason'' (rr_agent_reason r) @ omit_int ''timeout_seconds'' (rr_timeout_seconds r)
      @ [(''mac'', JStr (rr_mac r))])"

definition response_json :: "relay_response \<Rightarrow> jval" where
  "response_json r = JObj
     ([(''version'', JInt (rs_version r)), (''session_id'', JStr (rs_session_id r)), (''sequence'', jword (rs_sequence r)),
       (''request_id'', JStr (rs_request_id r)), (''status'', JStr (rs_status r))]
      @ omit_str ''decision'' (rs_decision r) @ omit_str ''approval_id'' (rs_approval_id r) @ omit_str ''job_id'' (rs_job_id r)
      @ omit_str ''job_status'' (rs_job_status r)
      @ (case rs_success r of None \<Rightarrow> [] | Some b \<Rightarrow> [(''success'', JBool b)])
      @ (case rs_exit_code r of None \<Rightarrow> [] | Some n \<Rightarrow> [(''exit_code'', JInt n)])
      @ omit_str ''error_kind'' (rs_error_kind r) @ omit_str ''output_sha256'' (rs_output_sha256 r)
      @ omit_str ''stdout_b64'' (rs_stdout_b64 r) @ omit_str ''stderr_b64'' (rs_stderr_b64 r)
      @ omit_true ''stdout_truncated'' (rs_stdout_truncated r) @ omit_true ''stderr_truncated'' (rs_stderr_truncated r)
      @ omit_str ''error'' (rs_error r) @ [(''mac'', JStr (rs_mac r))])"

definition auth_json :: "relay_auth \<Rightarrow> jval" where
  "auth_json a = JObj
     ([(''version'', JInt (ra_version a)), (''session_id'', JStr (ra_session_id a)), (''repository_id'', JInt (ra_repository_id a)),
       (''issue_number'', JInt (ra_issue_number a)), (''actor_id'', JInt (ra_actor_id a)), (''target'', JStr (ra_target a)),
       (''expires_at'', JStr (ra_expires_at a)), (''max_commands'', JInt (ra_max_commands a))]
      @ (if slice_elems (ra_exact_argv a) = [] then [] else [(''exact_argv'', jslice (ra_exact_argv a))])
      @ [(''publish_output'', JBool (ra_publish_output a))] @ omit_int ''output_limit_bytes'' (ra_output_limit a)
      @ [(''mac'', JStr (ra_mac a))])"

definition build_comment :: "string \<Rightarrow> jval \<Rightarrow> string \<Rightarrow> err + string" where
  "build_comment marker v message =
     (let data = json_raw v in
      if max_comment_bytes < int (length marker + length data) then Inl (Err_Msg message) else Inr (marker @ data))"

definition build_request_comment :: "string \<Rightarrow> relay_request \<Rightarrow> err + string" where
  "build_request_comment secret req0 =
     (let req = req0\<lparr>rr_version := protocol_version, rr_mac := []\<rparr> in
      case request_mac secret req of
        Inl e \<Rightarrow> Inl e
      | Inr mac \<Rightarrow> build_comment request_marker (request_json (req\<lparr>rr_mac := mac\<rparr>)) ''relay request comment exceeds transport limit'')"

definition build_response_comment :: "string \<Rightarrow> relay_response \<Rightarrow> err + string" where
  "build_response_comment secret r0 =
     (let r = r0\<lparr>rs_version := protocol_version, rs_mac := []\<rparr> in
      case response_mac secret r of
        Inl e \<Rightarrow> Inl e
      | Inr mac \<Rightarrow> build_comment response_marker (response_json (r\<lparr>rs_mac := mac\<rparr>)) ''relay response comment exceeds transport limit'')"

definition build_authorization_comment :: "string \<Rightarrow> relay_auth \<Rightarrow> err + string" where
  "build_authorization_comment secret a0 =
     (let a = a0\<lparr>ra_version := protocol_version, ra_mac := []\<rparr> in
      case authorization_mac secret a of
        Inl e \<Rightarrow> Inl e
      | Inr mac \<Rightarrow> build_comment auth_marker (auth_json (a\<lparr>ra_mac := mac\<rparr>)) ''relay authorization comment exceeds transport limit'')"

definition body_sha256 :: "string \<Rightarrow> string" where
  "body_sha256 body = sha256_hex body"

section \<open>Parsing a request\<close>

text \<open>Assignment of a number to an integer: only an integer literal within the range of the type.\<close>

definition int_literal :: "string \<Rightarrow> int option" where
  "int_literal t =
     (let neg = t \<noteq> [] \<and> hd t = CHR ''-''; ds = (if neg then tl t else t) in
      if ds = [] \<or> \<not> list_all digit ds then None else Some (if neg then - dec_value ds else dec_value ds))"

definition assign_int64 :: "json \<Rightarrow> int \<Rightarrow> int option" where
  "assign_int64 v old =
     (case v of
        Null \<Rightarrow> Some old
      | Num t \<Rightarrow> (case int_literal t of None \<Rightarrow> None | Some i \<Rightarrow> if i < - (2 ^ 63) \<or> 2 ^ 63 \<le> i then None else Some i)
      | _ \<Rightarrow> None)"

definition assign_uint64 :: "json \<Rightarrow> 64 word \<Rightarrow> 64 word option" where
  "assign_uint64 v old =
     (case v of
        Null \<Rightarrow> Some old
      | Num t \<Rightarrow> if t = [] \<or> \<not> list_all digit t \<or> 2 ^ 64 \<le> dec_value t then None else Some (word_of_int (dec_value t))
      | _ \<Rightarrow> None)"

text \<open>
  A struct is decoded key by key: the member with that name, under case folding, takes the value; an unknown key is refused.
\<close>

type_synonym 's member = "string \<times> (json \<Rightarrow> 's \<Rightarrow> 's option)"

definition assign_member :: "'s member list \<Rightarrow> string \<times> json \<Rightarrow> 's \<Rightarrow> 's option" where
  "assign_member ms kv s =
     (case map_of (map (map_prod fold_key id) ms) (fold_key (fst kv)) of None \<Rightarrow> None | Some f \<Rightarrow> f (snd kv) s)"

fun assign_members :: "'s member list \<Rightarrow> (string \<times> json) list \<Rightarrow> 's \<Rightarrow> 's option" where
  "assign_members ms [] s = Some s"
| "assign_members ms (kv # kvs) s = (case assign_member ms kv s of None \<Rightarrow> None | Some s' \<Rightarrow> assign_members ms kvs s')"

definition decode_struct :: "'s member list \<Rightarrow> 's \<Rightarrow> json \<Rightarrow> 's option" where
  "decode_struct ms s v = (case v of Null \<Rightarrow> Some s | Obj kvs \<Rightarrow> assign_members ms kvs s | _ \<Rightarrow> None)"

text \<open>A request under construction, with the memory of its \<open>argv\<close>.\<close>

type_synonym request_state = "relay_request \<times> string list"

definition assign_argv :: "json \<Rightarrow> request_state \<Rightarrow> request_state option" where
  "assign_argv v st =
     (if v = Null then Some ((fst st)\<lparr>rr_argv := None\<rparr>, [])
      else map_option (\<lambda>(m, n). ((fst st)\<lparr>rr_argv := Some (take n m)\<rparr>, m)) (assign_slice v (snd st)))"

definition request_members :: "request_state member list" where
  "request_members =
     [(''version'', \<lambda>v (r, m). map_option (\<lambda>i. (r\<lparr>rr_version := i\<rparr>, m)) (assign_int64 v (rr_version r))),
      (''session_id'', \<lambda>v (r, m). map_option (\<lambda>s. (r\<lparr>rr_session_id := s\<rparr>, m)) (assign_string v (rr_session_id r))),
      (''sequence'', \<lambda>v (r, m). map_option (\<lambda>w. (r\<lparr>rr_sequence := w\<rparr>, m)) (assign_uint64 v (rr_sequence r))),
      (''request_id'', \<lambda>v (r, m). map_option (\<lambda>s. (r\<lparr>rr_request_id := s\<rparr>, m)) (assign_string v (rr_request_id r))),
      (''target'', \<lambda>v (r, m). map_option (\<lambda>s. (r\<lparr>rr_target := s\<rparr>, m)) (assign_string v (rr_target r))),
      (''argv'', assign_argv),
      (''agent_reason'', \<lambda>v (r, m). map_option (\<lambda>s. (r\<lparr>rr_agent_reason := s\<rparr>, m)) (assign_string v (rr_agent_reason r))),
      (''timeout_seconds'', \<lambda>v (r, m). map_option (\<lambda>i. (r\<lparr>rr_timeout_seconds := i\<rparr>, m)) (assign_int64 v (rr_timeout_seconds r))),
      (''mac'', \<lambda>v (r, m). map_option (\<lambda>s. (r\<lparr>rr_mac := s\<rparr>, m)) (assign_string v (rr_mac r)))]"

definition empty_request :: relay_request where
  "empty_request = \<lparr>rr_version = 0, rr_session_id = [], rr_sequence = 0, rr_request_id = [], rr_target = [], rr_argv = None,
     rr_agent_reason = [], rr_timeout_seconds = 0, rr_mac = []\<rparr>"

definition decode_request :: "json \<Rightarrow> relay_request option" where
  "decode_request v = map_option fst (decode_struct request_members (empty_request, []) v)"

definition parse_request_comment :: "string \<Rightarrow> err + relay_request" where
  "parse_request_comment body0 =
     (if max_comment_bytes < int (length body0) then Inl (Err_Msg ''relay request comment exceeds transport limit'')
      else
        (let body = trim_space body0 in
         if \<not> has_prefix body (trim_space request_marker) then Inl err_not_relay_request
         else
           (case Option.bind (json_document (trim_space (trim_prefix body (trim_space request_marker)))) decode_request of
              None \<Rightarrow> Inl (Err_Msg ''decode relay request'')
            | Some r \<Rightarrow> Inr r)))"

section \<open>Parsing a response\<close>

definition assign_bool :: "json \<Rightarrow> bool \<Rightarrow> bool option" where
  "assign_bool v old = (case v of Bool b \<Rightarrow> Some b | Null \<Rightarrow> Some old | _ \<Rightarrow> None)"

text \<open>A pointer: \<open>null\<close> clears it, and a value is decoded into what it points to.\<close>

definition assign_pointer :: "(json \<Rightarrow> 'a \<Rightarrow> 'a option) \<Rightarrow> 'a \<Rightarrow> json \<Rightarrow> 'a option \<Rightarrow> 'a option option" where
  "assign_pointer assign zero v old =
     (if v = Null then Some None else map_option Some (assign v (case old of None \<Rightarrow> zero | Some x \<Rightarrow> x)))"

definition response_members :: "relay_response member list" where
  "response_members =
     [(''version'', \<lambda>v r. map_option (\<lambda>i. r\<lparr>rs_version := i\<rparr>) (assign_int64 v (rs_version r))),
      (''session_id'', \<lambda>v r. map_option (\<lambda>s. r\<lparr>rs_session_id := s\<rparr>) (assign_string v (rs_session_id r))),
      (''sequence'', \<lambda>v r. map_option (\<lambda>w. r\<lparr>rs_sequence := w\<rparr>) (assign_uint64 v (rs_sequence r))),
      (''request_id'', \<lambda>v r. map_option (\<lambda>s. r\<lparr>rs_request_id := s\<rparr>) (assign_string v (rs_request_id r))),
      (''status'', \<lambda>v r. map_option (\<lambda>s. r\<lparr>rs_status := s\<rparr>) (assign_string v (rs_status r))),
      (''decision'', \<lambda>v r. map_option (\<lambda>s. r\<lparr>rs_decision := s\<rparr>) (assign_string v (rs_decision r))),
      (''approval_id'', \<lambda>v r. map_option (\<lambda>s. r\<lparr>rs_approval_id := s\<rparr>) (assign_string v (rs_approval_id r))),
      (''job_id'', \<lambda>v r. map_option (\<lambda>s. r\<lparr>rs_job_id := s\<rparr>) (assign_string v (rs_job_id r))),
      (''job_status'', \<lambda>v r. map_option (\<lambda>s. r\<lparr>rs_job_status := s\<rparr>) (assign_string v (rs_job_status r))),
      (''success'', \<lambda>v r. map_option (\<lambda>x. r\<lparr>rs_success := x\<rparr>) (assign_pointer assign_bool False v (rs_success r))),
      (''exit_code'', \<lambda>v r. map_option (\<lambda>x. r\<lparr>rs_exit_code := x\<rparr>) (assign_pointer assign_int64 0 v (rs_exit_code r))),
      (''error_kind'', \<lambda>v r. map_option (\<lambda>s. r\<lparr>rs_error_kind := s\<rparr>) (assign_string v (rs_error_kind r))),
      (''output_sha256'', \<lambda>v r. map_option (\<lambda>s. r\<lparr>rs_output_sha256 := s\<rparr>) (assign_string v (rs_output_sha256 r))),
      (''stdout_b64'', \<lambda>v r. map_option (\<lambda>s. r\<lparr>rs_stdout_b64 := s\<rparr>) (assign_string v (rs_stdout_b64 r))),
      (''stderr_b64'', \<lambda>v r. map_option (\<lambda>s. r\<lparr>rs_stderr_b64 := s\<rparr>) (assign_string v (rs_stderr_b64 r))),
      (''stdout_truncated'', \<lambda>v r. map_option (\<lambda>b. r\<lparr>rs_stdout_truncated := b\<rparr>) (assign_bool v (rs_stdout_truncated r))),
      (''stderr_truncated'', \<lambda>v r. map_option (\<lambda>b. r\<lparr>rs_stderr_truncated := b\<rparr>) (assign_bool v (rs_stderr_truncated r))),
      (''error'', \<lambda>v r. map_option (\<lambda>s. r\<lparr>rs_error := s\<rparr>) (assign_string v (rs_error r))),
      (''mac'', \<lambda>v r. map_option (\<lambda>s. r\<lparr>rs_mac := s\<rparr>) (assign_string v (rs_mac r)))]"

definition empty_response :: relay_response where
  "empty_response = \<lparr>rs_version = 0, rs_session_id = [], rs_sequence = 0, rs_request_id = [], rs_status = [], rs_decision = [],
     rs_approval_id = [], rs_job_id = [], rs_job_status = [], rs_success = None, rs_exit_code = None, rs_error_kind = [],
     rs_output_sha256 = [], rs_stdout_b64 = [], rs_stderr_b64 = [], rs_stdout_truncated = False, rs_stderr_truncated = False,
     rs_error = [], rs_mac = []\<rparr>"

definition parse_response_comment :: "string \<Rightarrow> err + relay_response" where
  "parse_response_comment body0 =
     (if max_comment_bytes < int (length body0) then Inl (Err_Msg ''relay response comment exceeds transport limit'')
      else
        (let body = trim_space body0 in
         if \<not> has_prefix body (trim_space response_marker) then Inl (Err_Msg ''not a Tethys Sentinel relay response'')
         else
           (case Option.bind (json_document (trim_space (trim_prefix body (trim_space response_marker))))
              (decode_struct response_members empty_response) of
              None \<Rightarrow> Inl (Err_Msg ''decode relay response'')
            | Some r \<Rightarrow> Inr r)))"

section \<open>What is decoded\<close>

lemma dec_value_append: "dec_value (s @ [c]) = 10 * dec_value s + (of_char c - 0x30)"
  by (simp add: dec_value_def)

lemma dec_value_dec_nat: "dec_value (dec_nat n) = int n"
proof (induction n rule: dec_nat.induct)
  case (1 n)
  have c: "(of_char (char_of (0x30 + k)) :: int) = 0x30 + int k" if "k < 10" for k :: nat
  proof -
    have "(of_char (char_of (0x30 + k) :: char) :: int) = int (of_char (char_of (0x30 + k) :: char))" by (simp only: of_nat_of_char)
    also have "(of_char (char_of (0x30 + k) :: char) :: nat) = 0x30 + k" using that by (simp add: of_char_of)
    finally show ?thesis by simp
  qed
  show ?case
  proof (cases "n < 10")
    case True
    then show ?thesis using c [OF True] by (simp add: dec_nat.simps [of n] dec_value_def)
  next
    case False
    have "10 * int (n div 10) + int (n mod 10) = int n" by presburger
    with 1 [OF False] c [of "n mod 10"] False show ?thesis
      unfolding dec_nat.simps [of n] by (simp only: if_False dec_value_append)
  qed
qed

lemma int_literal_dec [simp]: "int_literal (dec_int i) = Some i"
proof -
  have "hd (dec_nat n) \<noteq> CHR ''-''" for n using dec_nat_hd [of n] by (auto simp: digit_def)
  then show ?thesis
    by (simp add: int_literal_def dec_int_def dec_nat_digits dec_value_dec_nat Let_def)
qed

lemma dec_int_inj [simp]: "dec_int i = dec_int j \<longleftrightarrow> i = j"
  by (metis int_literal_dec option.inject)

lemma assign_int64_dec: "- (2 ^ 63) \<le> i \<Longrightarrow> i < 2 ^ 63 \<Longrightarrow> assign_int64 (Num (dec_int i)) old = Some i"
  by (simp add: assign_int64_def)

lemma assign_uint64_dec: "assign_uint64 (Num (dec_int (uint w))) old = Some w"
proof -
  have "uint w < 2 ^ 64" using uint_lt2p [of w] by simp
  then show ?thesis
    by (simp add: assign_uint64_def dec_int_def dec_nat_digits dec_value_dec_nat)
qed

text \<open>What every member of a struct keeps holds of what is decoded.\<close>

lemma assign_members_keep:
  assumes "\<And>n f v s s'. (n, f) \<in> set ms \<Longrightarrow> json_utf8 v \<Longrightarrow> P s \<Longrightarrow> f v s = Some s' \<Longrightarrow> P s'"
  shows "assign_members ms kvs s = Some s' \<Longrightarrow> \<forall>kv \<in> set kvs. json_utf8 (snd kv) \<Longrightarrow> P s \<Longrightarrow> P s'"
proof (induction kvs arbitrary: s)
  case (Cons kv kvs)
  then obtain t f where t: "assign_members ms kvs t = Some s'" and f: "f (snd kv) s = Some t"
    and m: "map_of (map (map_prod fold_key id) ms) (fold_key (fst kv)) = Some f"
    by (auto simp: assign_member_def split: option.splits)
  from map_of_SomeD [OF m] obtain n where "(n, f) \<in> set ms" by auto
  from assms [OF this _ Cons.prems(3) f] Cons.prems(2) have "P t" by simp
  with Cons.IH [OF t] Cons.prems(2) show ?case by simp
qed simp

lemma decode_struct_keep:
  assumes "decode_struct ms s v = Some s'" and "json_utf8 v" and "P s"
    and "\<And>n f v s s'. (n, f) \<in> set ms \<Longrightarrow> json_utf8 v \<Longrightarrow> P s \<Longrightarrow> f v s = Some s' \<Longrightarrow> P s'"
  shows "P s'"
proof (cases v)
  case (Obj kvs)
  with assms(1,2) have "assign_members ms kvs s = Some s'" "\<forall>kv \<in> set kvs. json_utf8 (snd kv)"
    by (simp_all add: decode_struct_def list_all_iff)
  from assign_members_keep [where P = P, OF assms(4) this assms(3)] show ?thesis .
qed (use assms(1,3) in \<open>simp_all add: decode_struct_def\<close>)

section \<open>Parsed requests are UTF-8\<close>

definition request_utf8 :: "relay_request \<Rightarrow> bool" where
  "request_utf8 r \<longleftrightarrow> valid_utf8 (rr_session_id r) \<and> valid_utf8 (rr_request_id r) \<and> valid_utf8 (rr_target r)
     \<and> list_all valid_utf8 (slice_elems (rr_argv r)) \<and> valid_utf8 (rr_agent_reason r)"

definition state_valid :: "request_state \<Rightarrow> bool" where
  "state_valid st \<longleftrightarrow> request_utf8 (fst st) \<and> list_all valid_utf8 (snd st)"

lemma assign_string_utf8: "assign_string v old = Some s \<Longrightarrow> json_utf8 v \<Longrightarrow> valid_utf8 old \<Longrightarrow> valid_utf8 s"
  by (auto simp: assign_string_def split: json.splits)

lemma assign_slice_utf8:
  "assign_slice v mem = Some (m, n) \<Longrightarrow> json_utf8 v \<Longrightarrow> list_all valid_utf8 mem \<Longrightarrow> list_all valid_utf8 m"
  by (auto simp: assign_slice_def list_all_iff dest: assign_elems_utf8 [unfolded list_all_iff] split: json.splits if_splits)

lemma assign_argv_utf8:
  assumes "assign_argv v st = Some st'" and "json_utf8 v" and "state_valid st"
  shows "state_valid st'"
proof (cases "v = Null")
  case True
  with assms show ?thesis by (auto simp: assign_argv_def state_valid_def request_utf8_def slice_elems_def)
next
  case False
  with assms(1) obtain m n where m: "assign_slice v (snd st) = Some (m, n)" and st': "st' = ((fst st)\<lparr>rr_argv := Some (take n m)\<rparr>, m)"
    by (auto simp: assign_argv_def)
  from assign_slice_utf8 [OF m assms(2)] assms(3) have u: "list_all valid_utf8 m" by (simp add: state_valid_def)
  then have "list_all valid_utf8 (take n m)" by (auto simp: list_all_iff dest: in_set_takeD)
  with u assms(3) show ?thesis by (simp add: st' state_valid_def request_utf8_def slice_elems_def)
qed

lemma request_members_utf8:
  assumes "(n, f) \<in> set request_members" and "json_utf8 v" and "state_valid st" and "f v st = Some st'"
  shows "state_valid st'"
proof -
  obtain r m where st: "st = (r, m)" by (cases st)
  have k: "\<And>i. state_valid (r\<lparr>rr_version := i\<rparr>, m)" "\<And>w. state_valid (r\<lparr>rr_sequence := w\<rparr>, m)"
    "\<And>i. state_valid (r\<lparr>rr_timeout_seconds := i\<rparr>, m)" "\<And>s. state_valid (r\<lparr>rr_mac := s\<rparr>, m)"
    "\<And>s. valid_utf8 s \<Longrightarrow> state_valid (r\<lparr>rr_session_id := s\<rparr>, m)" "\<And>s. valid_utf8 s \<Longrightarrow> state_valid (r\<lparr>rr_request_id := s\<rparr>, m)"
    "\<And>s. valid_utf8 s \<Longrightarrow> state_valid (r\<lparr>rr_target := s\<rparr>, m)" "\<And>s. valid_utf8 s \<Longrightarrow> state_valid (r\<lparr>rr_agent_reason := s\<rparr>, m)"
    using assms(3) by (simp_all add: st state_valid_def request_utf8_def)
  have o: "valid_utf8 (rr_session_id r)" "valid_utf8 (rr_request_id r)" "valid_utf8 (rr_target r)" "valid_utf8 (rr_agent_reason r)"
    using assms(3) by (simp_all add: st state_valid_def request_utf8_def)
  show ?thesis
    using assms(1,4) unfolding request_members_def st
    by (auto intro: k o assign_string_utf8 [OF _ assms(2)] assign_argv_utf8 [OF _ assms(2) assms(3) [unfolded st]])
qed

lemma parse_request_utf8:
  assumes "parse_request_comment body = Inr r"
  shows "request_utf8 r"
proof -
  from assms obtain v m where v: "json_utf8 v" and d: "decode_struct request_members (empty_request, []) v = Some (r, m)"
    by (auto simp: parse_request_comment_def decode_request_def Let_def bind_eq_Some_conv dest!: json_document_utf8 split: if_splits option.splits)
  have "state_valid (empty_request, [])"
    by (simp add: state_valid_def request_utf8_def empty_request_def slice_elems_def)
  from decode_struct_keep [where P = state_valid, OF d v this request_members_utf8] show ?thesis
    by (simp add: state_valid_def)
qed

section \<open>A code binds one request\<close>

definition same_relay_request :: "relay_request \<Rightarrow> relay_request \<Rightarrow> bool" where
  "same_relay_request r r' \<longleftrightarrow> r\<lparr>rr_mac := []\<rparr> = r'\<lparr>rr_mac := []\<rparr>"

lemma jplain_jslice [simp]: "jplain (jslice ss)"
  by (simp add: jslice_def jnull_def list_all_iff split: option.splits)

lemma jast_jslice_inj:
  assumes "jast (jslice a) = jast (jslice b)" and "list_all valid_utf8 (slice_elems a)" and "list_all valid_utf8 (slice_elems b)"
  shows "a = b"
proof -
  have m: "map (jast \<circ> JStr) xs = map Str xs" if "list_all valid_utf8 xs" for xs
    using that by (auto simp: list_all_iff utf8_clean_valid)
  show ?thesis
    using assms by (auto simp: jslice_def jnull_def slice_elems_def m inj_map_eq_map inj_def split: option.splits)
qed

lemma canonical_request_inj:
  assumes "canonical_request r = canonical_request r'" and "request_utf8 r" and "request_utf8 r'"
  shows "same_relay_request r r'"
proof -
  have d: "json_document (canonical_request q) =
      Some (Obj [(utf8_clean ''agent_reason'', Str (rr_agent_reason q)), (utf8_clean ''argv'', jast (jslice (rr_argv q))),
        (utf8_clean ''request_id'', Str (rr_request_id q)), (utf8_clean ''sequence'', Num (dec_int (uint (rr_sequence q)))),
        (utf8_clean ''session_id'', Str (rr_session_id q)), (utf8_clean ''target'', Str (rr_target q)),
        (utf8_clean ''timeout_seconds'', Num (dec_int (rr_timeout_seconds q))), (utf8_clean ''version'', Num (dec_int (rr_version q)))])"
    if "request_utf8 q" for q
    using that unfolding canonical_request_def
    by (subst json_document_raw) (simp_all add: jword_def request_utf8_def utf8_clean_valid)
  from d [OF assms(2)] d [OF assms(3)] assms(1)
  have e: "rr_agent_reason r = rr_agent_reason r'" "jast (jslice (rr_argv r)) = jast (jslice (rr_argv r'))"
    "rr_request_id r = rr_request_id r'" "uint (rr_sequence r) = uint (rr_sequence r')" "rr_session_id r = rr_session_id r'"
    "rr_target r = rr_target r'" "rr_timeout_seconds r = rr_timeout_seconds r'" "rr_version r = rr_version r'"
    by simp_all
  from jast_jslice_inj [OF e(2)] assms(2,3) have "rr_argv r = rr_argv r'" by (simp add: request_utf8_def)
  with e show ?thesis unfolding same_relay_request_def by (intro relay_request.equality) (simp_all add: word_uint_eq_iff)
qed

lemma compute_mac_eq:
  "compute_mac secret p = Inr c \<longleftrightarrow> (\<exists>key. decode_session_secret secret = Inr key \<and> c = mac_prefix @ b64url_encode (hmac_sha256 key p))"
  by (auto simp: compute_mac_def split: sum.splits)

lemma b64url_encode_inj [simp]: "b64url_encode s = b64url_encode t \<longleftrightarrow> s = t"
  by (metis b64url_roundtrip option.inject)

lemma verify_request_macD:
  assumes "verify_request_mac secret r = None"
  shows "request_mac secret r = Inr (trim_space (rr_mac r))"
  using assms by (auto simp: verify_request_mac_def verify_mac_def Let_def split: if_splits sum.splits)

text \<open>
  C19. A code of the relay binds one request (\<open>ParseRequestComment\<close>, \<open>VerifyRequestMAC\<close>): when two comments parse to requests that
  carry the same code and both verify under the secret of a session, the requests agree in the version, the session, the sequence
  number, the request id, the target, every argument of the command, the reason and the timeout, or the two canonical texts are a
  collision of HMAC-SHA256 under that secret. The canonical text is injective on what the parser can return; in particular it
  keeps an absent \<open>argv\<close> apart from an empty one.
\<close>

theorem request_code_binds:
  assumes "parse_request_comment b = Inr r" and "parse_request_comment b' = Inr r'"
    and "verify_request_mac secret r = None" and "verify_request_mac secret r' = None"
    and "trim_space (rr_mac r) = trim_space (rr_mac r')"
  shows "same_relay_request r r' \<or> (\<exists>key. decode_session_secret secret = Inr key \<and> canonical_request r \<noteq> canonical_request r'
           \<and> hmac_sha256 key (canonical_request r) = hmac_sha256 key (canonical_request r'))"
proof (cases "canonical_request r = canonical_request r'")
  case True
  with canonical_request_inj parse_request_utf8 assms(1,2) show ?thesis by blast
next
  case False
  from verify_request_macD [OF assms(3)] verify_request_macD [OF assms(4)] assms(5) obtain key
    where "decode_session_secret secret = Inr key"
      and "mac_prefix @ b64url_encode (hmac_sha256 key (canonical_request r)) = mac_prefix @ b64url_encode (hmac_sha256 key (canonical_request r'))"
    by (auto simp: request_mac_def compute_mac_eq)
  with False show ?thesis by auto
qed

section \<open>Round trip of a request\<close>

lemma fold_key_request:
  "fold_key ''version'' = ''VERSION''" "fold_key ''session_id'' = ''SESSION_ID''" "fold_key ''sequence'' = ''SEQUENCE''"
  "fold_key ''agent_reason'' = ''AGENT_REASON''" "fold_key ''timeout_seconds'' = ''TIMEOUT_SECONDS''" "fold_key ''mac'' = ''MAC''"
  by code_simp+

lemma utf8_clean_request:
  "utf8_clean ''version'' = ''version''" "utf8_clean ''session_id'' = ''session_id''" "utf8_clean ''sequence'' = ''sequence''"
  "utf8_clean ''agent_reason'' = ''agent_reason''" "utf8_clean ''timeout_seconds'' = ''timeout_seconds''" "utf8_clean ''mac'' = ''mac''"
  by (rule utf8_clean_valid, rule ascii_valid_utf8, simp add: ascii_def)+

lemma assign_argv_jslice:
  assumes "list_all valid_utf8 (slice_elems ss)"
  shows "\<exists>m. assign_argv (jast (jslice ss)) (r, []) = Some (r\<lparr>rr_argv := ss\<rparr>, m)"
proof (cases ss)
  case (Some xs)
  have "jast (jslice ss) = Arr (map Str xs)" using assms Some by (auto simp: jslice_def list_all_iff utf8_clean_valid slice_elems_def)
  then show ?thesis by (simp add: Some assign_argv_def assign_slice_def assign_elems_strings)
qed (simp add: jslice_def jnull_def assign_argv_def)

definition wire_range :: "int \<Rightarrow> bool" where
  "wire_range i \<longleftrightarrow> - (2 ^ 63) \<le> i \<and> i < 2 ^ 63"

lemma request_member_steps:
  "wire_range i \<Longrightarrow> assign_member request_members (''version'', Num (dec_int i)) (r, m) = Some (r\<lparr>rr_version := i\<rparr>, m)"
  "wire_range i \<Longrightarrow> assign_member request_members (''timeout_seconds'', Num (dec_int i)) (r, m) = Some (r\<lparr>rr_timeout_seconds := i\<rparr>, m)"
  "assign_member request_members (''sequence'', Num (dec_int (uint w))) (r, m) = Some (r\<lparr>rr_sequence := w\<rparr>, m)"
  "assign_member request_members (''session_id'', Str s) (r, m) = Some (r\<lparr>rr_session_id := s\<rparr>, m)"
  "assign_member request_members (''request_id'', Str s) (r, m) = Some (r\<lparr>rr_request_id := s\<rparr>, m)"
  "assign_member request_members (''target'', Str s) (r, m) = Some (r\<lparr>rr_target := s\<rparr>, m)"
  "assign_member request_members (''agent_reason'', Str s) (r, m) = Some (r\<lparr>rr_agent_reason := s\<rparr>, m)"
  "assign_member request_members (''mac'', Str s) (r, m) = Some (r\<lparr>rr_mac := s\<rparr>, m)"
  "assign_member request_members (''argv'', v) (r, m) = assign_argv v (r, m)"
  unfolding wire_range_def by (simp_all add: assign_member_def request_members_def fold_key_request fold_key_names assign_int64_dec assign_uint64_dec assign_string_def)

lemma assign_members_append:
  "assign_members ms (xs @ ys) s = (case assign_members ms xs s of None \<Rightarrow> None | Some s' \<Rightarrow> assign_members ms ys s')"
  by (induction xs arbitrary: s) (simp_all split: option.splits)

lemma jfield_pair: "jfield (k, v) = (utf8_clean k, jast v)"
  by (simp add: jfield_def)

lemma decode_request_json:
  assumes "request_utf8 r" and "valid_utf8 (rr_mac r)" and "wire_range (rr_version r)" and "wire_range (rr_timeout_seconds r)"
  shows "decode_request (jast (request_json r)) = Some r"
proof -
  let ?s = "\<lambda>r'. r'\<lparr>rr_version := rr_version r, rr_session_id := rr_session_id r, rr_sequence := rr_sequence r,
    rr_request_id := rr_request_id r, rr_target := rr_target r\<rparr>"
  obtain m where m: "assign_argv (jast (jslice (rr_argv r))) (?s empty_request, []) = Some ((?s empty_request)\<lparr>rr_argv := rr_argv r\<rparr>, m)"
    using assign_argv_jslice [of "rr_argv r"] assms(1) by (auto simp: request_utf8_def)
  let ?a = "(?s empty_request)\<lparr>rr_argv := rr_argv r\<rparr>"
  have u: "valid_utf8 (rr_session_id r)" "valid_utf8 (rr_request_id r)" "valid_utf8 (rr_target r)" "valid_utf8 (rr_agent_reason r)"
    using assms(1) by (simp_all add: request_utf8_def)
  note steps = request_member_steps utf8_clean_valid u assms(2-4) jfield_pair utf8_clean_request utf8_clean_names
  have reason: "assign_members request_members (map jfield (omit_str ''agent_reason'' (rr_agent_reason r))) (?a, m)
      = Some (?a\<lparr>rr_agent_reason := rr_agent_reason r\<rparr>, m)"
    by (cases "rr_agent_reason r = []") (simp_all add: omit_str_def steps empty_request_def)
  have timeout: "assign_members request_members (map jfield (omit_int ''timeout_seconds'' (rr_timeout_seconds r))) (?a\<lparr>rr_agent_reason := x\<rparr>, m)
      = Some (?a\<lparr>rr_agent_reason := x, rr_timeout_seconds := rr_timeout_seconds r\<rparr>, m)" for x
    by (cases "rr_timeout_seconds r = 0") (simp_all add: omit_int_def steps empty_request_def)
  have mac: "r = ?a\<lparr>rr_agent_reason := rr_agent_reason r, rr_timeout_seconds := rr_timeout_seconds r, rr_mac := rr_mac r\<rparr>"
    by simp
  have "decode_struct request_members (empty_request, []) (jast (request_json r))
      = Some (?a\<lparr>rr_agent_reason := rr_agent_reason r, rr_timeout_seconds := rr_timeout_seconds r, rr_mac := rr_mac r\<rparr>, m)"
    unfolding decode_struct_def request_json_def jast_obj json.case map_append assign_members_append
    by (simp only: list.map option.case assign_members.simps steps jword_def m reason timeout fst_conv snd_conv jast.simps)
  with mac show ?thesis unfolding decode_request_def by simp
qed

lemma request_json_plain: "jplain (request_json r)"
  by (simp add: request_json_def jword_def omit_str_def omit_int_def)

lemma trim_space_newline:
  assumes "s \<noteq> []" and "solid (hd s)" and "solid (last s)"
  shows "trim_space (CHR 0x0A # s) = s"
proof -
  have "trim_space (CHR 0x0A # s) = trim_space s"
    unfolding trim_space_def trim_left_def by (subst strip_front.simps) (simp add: ws_runes_def)
  with trim_space_solid [OF assms] show ?thesis by simp
qed

lemma b64_char_solid: "v < 64 \<Longrightarrow> solid (b64_char v)"
  by (auto simp: b64_char_def solid_def of_char_of)

lemma b64url_encode_solid: "list_all solid (b64url_encode s)"
  using b64_sextets_bound b64_char_solid by (auto simp: b64url_encode_def list_all_iff)

lemma request_mac_solid:
  assumes "request_mac secret r = Inr c"
  shows "list_all solid c" and "c \<noteq> []"
  using assms b64url_encode_solid by (auto simp: request_mac_def compute_mac_eq mac_prefix_def solid_def)

lemma solid_utf8: "list_all solid s \<Longrightarrow> valid_utf8 s"
  by (rule ascii_valid_utf8) (auto simp: ascii_def list_all_iff solid_def)

lemma json_raw_obj: "json_raw (JObj fs) = CHR ''{'' # join_with '','' (map (json_field json_string_raw) fs) @ ''}''"
  unfolding json_raw_def json_with_obj by simp

lemma parse_marked:
  assumes "int (length request_marker + length d) \<le> max_comment_bytes" and "d \<noteq> []" "solid (hd d)" "solid (last d)"
  shows "parse_request_comment (request_marker @ d) =
    (case Option.bind (json_document d) decode_request of None \<Rightarrow> Inl (Err_Msg ''decode relay request'') | Some r \<Rightarrow> Inr r)"
proof -
  let ?m = "''TETHYS_SENTINEL_RELAY_REQUEST_V1''"
  have m: "request_marker @ d = ?m @ CHR 0x0A # d" by (simp add: request_marker_def)
  have t: "trim_space request_marker = ?m" by code_simp
  have "trim_space (?m @ CHR 0x0A # d) = ?m @ CHR 0x0A # d"
    by (rule trim_space_solid) (use assms(2,4) in \<open>simp_all add: solid_def\<close>)
  moreover have "trim_prefix (?m @ CHR 0x0A # d) ?m = CHR 0x0A # d" "has_prefix (?m @ CHR 0x0A # d) ?m"
    by (rule trim_prefix_append has_prefix_append)+
  moreover have "\<not> max_comment_bytes < int (length (?m @ CHR 0x0A # d))" using assms(1) unfolding m [symmetric] by simp
  ultimately show ?thesis
    unfolding m parse_request_comment_def t Let_def by (simp only: if_False not_True_eq_False trim_space_newline [OF assms(2-4)])
qed

lemma built_request_parses:
  assumes "build_request_comment secret req = Inr body" and "request_utf8 req" and "wire_range (rr_timeout_seconds req)"
  obtains mac where "request_mac secret (req\<lparr>rr_version := protocol_version, rr_mac := []\<rparr>) = Inr mac"
    and "parse_request_comment body = Inr (req\<lparr>rr_version := protocol_version, rr_mac := mac\<rparr>)"
proof -
  let ?q = "req\<lparr>rr_version := protocol_version, rr_mac := []\<rparr>"
  from assms(1) obtain mac where mac: "request_mac secret ?q = Inr mac"
    and b: "build_comment request_marker (request_json (?q\<lparr>rr_mac := mac\<rparr>)) ''relay request comment exceeds transport limit'' = Inr body"
    by (auto simp: build_request_comment_def Let_def split: sum.splits)
  let ?r = "?q\<lparr>rr_mac := mac\<rparr>"
  let ?d = "json_raw (request_json ?r)"
  from b have l: "int (length request_marker + length ?d) \<le> max_comment_bytes" and body: "body = request_marker @ ?d"
    by (auto simp: build_comment_def Let_def split: if_splits)
  have d: "?d \<noteq> []" "solid (hd ?d)" "solid (last ?d)" unfolding request_json_def json_raw_obj by (simp_all add: solid_def)
  have "decode_request (jast (request_json ?r)) = Some ?r"
    by (rule decode_request_json)
      (use assms(2,3) request_mac_solid [OF mac] in \<open>simp_all add: request_utf8_def wire_range_def protocol_version_def solid_utf8\<close>)
  then have "parse_request_comment body = Inr ?r"
    unfolding body parse_marked [OF l d] json_document_raw [OF request_json_plain] by simp
  with mac that show ?thesis by simp
qed

text \<open>
  C20. Round trip of a relay request (\<open>BuildRequestComment\<close>, \<open>ParseRequestComment\<close>, \<open>VerifyRequestMAC\<close>): the comment that is built
  for a request whose texts are UTF-8 parses to the same request, with the version of the protocol, and the code in it verifies
  under the secret it was built with.
\<close>

theorem request_comment_roundtrip:
  assumes "build_request_comment secret req = Inr body" and "request_utf8 req" and "wire_range (rr_timeout_seconds req)"
  shows "\<exists>r. parse_request_comment body = Inr r \<and> same_relay_request r (req\<lparr>rr_version := protocol_version\<rparr>) \<and> verify_request_mac secret r = None"
proof -
  let ?q = "req\<lparr>rr_version := protocol_version, rr_mac := []\<rparr>"
  obtain mac where mac: "request_mac secret ?q = Inr mac"
    and p: "parse_request_comment body = Inr (req\<lparr>rr_version := protocol_version, rr_mac := mac\<rparr>)"
    using built_request_parses [OF assms] .
  have "request_mac secret (req\<lparr>rr_version := protocol_version, rr_mac := mac\<rparr>) = Inr mac"
    using mac by (simp add: request_mac_def canonical_request_def)
  with request_mac_solid [OF mac] have "verify_request_mac secret (req\<lparr>rr_version := protocol_version, rr_mac := mac\<rparr>) = None"
    by (simp add: verify_request_mac_def verify_mac_def trim_space_list_all_solid)
  with p show ?thesis by (auto simp: same_relay_request_def)
qed

section \<open>A request on the wire\<close>

definition sample_secret :: string where
  "sample_secret = relay_secret_prefix @ b64url_encode (replicate 32 (CHR ''k''))"

definition sample_request :: relay_request where
  "sample_request = \<lparr>rr_version = 1, rr_session_id = ''sgr_AAAABBBBCCCCDDDD'', rr_sequence = 1, rr_request_id = ''request-0001'',
     rr_target = ''web-1'', rr_argv = Some [''uptime''], rr_agent_reason = ''check'', rr_timeout_seconds = 30, rr_mac = []\<rparr>"

definition sample_code :: string where
  "sample_code = mac_prefix @ b64url_encode (hmac_sha256 (replicate 32 (CHR ''k'')) (canonical_request sample_request))"

definition sample_comment :: string where
  "sample_comment = request_marker @ json_raw (request_json (sample_request\<lparr>rr_mac := sample_code\<rparr>))"

lemma sample_key: "decode_session_secret sample_secret = Inr (replicate 32 (CHR ''k''))"
proof -
  have "trim_space sample_secret = sample_secret"
    by (rule trim_space_list_all_solid) (simp add: sample_secret_def relay_secret_prefix_def b64url_encode_solid solid_def)
  then show ?thesis by (simp add: decode_session_secret_def sample_secret_def)
qed

lemma sample_mac: "request_mac sample_secret sample_request = Inr sample_code"
  by (simp add: request_mac_def compute_mac_def sample_key sample_code_def)

lemma length_json_string_raw: "list_all solid s \<Longrightarrow> length (json_string_raw s) \<le> 2 * length s + 2"
proof -
  have "list_all solid s \<Longrightarrow> length (json_body_raw s) \<le> 2 * length s"
  proof (induction s)
    case (Cons c s)
    then have "length (json_ascii_raw c) \<le> 2"
      by (auto simp: json_ascii_raw_def json_ascii_def solid_def Let_def)
    with Cons show ?case by (simp add: json_body_raw.simps(2) solid_def)
  qed simp
  then show "list_all solid s \<Longrightarrow> ?thesis" by (simp add: json_string_raw_def)
qed

lemma length_join_last: "xs \<noteq> [] \<Longrightarrow> length (join_with '','' (xs @ [x])) = length (join_with '','' xs) + 1 + length x"
proof (induction xs)
  case (Cons y ys)
  then show ?case by (cases ys) simp_all
qed simp

lemma sample_length: "int (length request_marker + length (json_raw (request_json (sample_request\<lparr>rr_mac := sample_code\<rparr>)))) \<le> max_comment_bytes"
proof -
  let ?xs = "[(''version'', JInt 1), (''session_id'', JStr ''sgr_AAAABBBBCCCCDDDD''), (''sequence'', jword 1),
    (''request_id'', JStr ''request-0001''), (''target'', JStr ''web-1''), (''argv'', jslice (Some [''uptime''])),
    (''agent_reason'', JStr ''check''), (''timeout_seconds'', JInt 30)]"
  have j: "request_json (sample_request\<lparr>rr_mac := sample_code\<rparr>) = JObj (?xs @ [(''mac'', JStr sample_code)])"
    by (simp add: request_json_def sample_request_def omit_str_def omit_int_def)
  have c: "length (join_with '','' (map (json_field json_string_raw) ?xs)) \<le> 500" by code_simp
  have "list_all solid sample_code" by (rule request_mac_solid [OF sample_mac])
  moreover have "length sample_code \<le> 70"
    using length_b64url_encode [of "hmac_sha256 (replicate 32 (CHR ''k'')) (canonical_request sample_request)"]
    unfolding sample_code_def by (simp add: mac_prefix_def)
  ultimately have "length (json_string_raw sample_code) \<le> 142" using length_json_string_raw [of sample_code] by linarith
  moreover have "length (json_string_raw ''mac'') = 5" by code_simp
  ultimately have m: "length (json_field json_string_raw (''mac'', JStr sample_code)) \<le> 148" by (simp add: json_field_def)
  have "length (join_with '','' (map (json_field json_string_raw) (?xs @ [(''mac'', JStr sample_code)]))) \<le> 649"
    using c m length_join_last [of "map (json_field json_string_raw) ?xs" "json_field json_string_raw (''mac'', JStr sample_code)"]
    by (simp only: map_append list.map) simp
  then show ?thesis
    unfolding j json_raw_obj by (simp add: request_marker_def max_comment_bytes_def)
qed

lemma sample_built: "build_request_comment sample_secret sample_request = Inr sample_comment"
proof -
  have "sample_request\<lparr>rr_version := protocol_version, rr_mac := []\<rparr> = sample_request"
    by (simp add: sample_request_def protocol_version_def)
  with sample_mac sample_length show ?thesis
    by (simp add: build_request_comment_def build_comment_def Let_def sample_comment_def)
qed

lemma sample_utf8: "request_utf8 sample_request"
  by (simp add: request_utf8_def sample_request_def slice_elems_def ascii_valid_utf8 ascii_def)

lemma sample_range: "wire_range (rr_timeout_seconds sample_request)"
  by (simp add: wire_range_def sample_request_def)

theorem request_comment_roundtrip_witness:
  "build_request_comment sample_secret sample_request = Inr sample_comment \<and> request_utf8 sample_request \<and> wire_range (rr_timeout_seconds sample_request)
   \<and> (\<exists>r. parse_request_comment sample_comment = Inr r \<and> same_relay_request r (sample_request\<lparr>rr_version := protocol_version\<rparr>)
        \<and> verify_request_mac sample_secret r = None)"
  using request_comment_roundtrip [OF sample_built sample_utf8 sample_range] sample_built sample_utf8 sample_range by (intro conjI)

lemma sample_parsed: "parse_request_comment sample_comment = Inr (sample_request\<lparr>rr_mac := sample_code\<rparr>)"
proof -
  have "sample_request\<lparr>rr_version := protocol_version, rr_mac := x\<rparr> = sample_request\<lparr>rr_mac := x\<rparr>" for x
    by (simp add: sample_request_def protocol_version_def)
  moreover have "sample_request\<lparr>rr_mac := []\<rparr> = sample_request" by (simp add: sample_request_def)
  ultimately show ?thesis
    using built_request_parses [OF sample_built sample_utf8 sample_range] sample_mac by (metis sum.inject(2))
qed

lemma sample_verified: "verify_request_mac sample_secret (sample_request\<lparr>rr_mac := sample_code\<rparr>) = None"
proof -
  have "request_mac sample_secret (sample_request\<lparr>rr_mac := sample_code\<rparr>) = Inr sample_code"
    using sample_mac by (simp add: request_mac_def canonical_request_def)
  with request_mac_solid [OF sample_mac] show ?thesis by (simp add: verify_request_mac_def verify_mac_def trim_space_list_all_solid)
qed

theorem request_code_binds_witness:
  "parse_request_comment sample_comment = Inr (sample_request\<lparr>rr_mac := sample_code\<rparr>)
   \<and> verify_request_mac sample_secret (sample_request\<lparr>rr_mac := sample_code\<rparr>) = None
   \<and> same_relay_request (sample_request\<lparr>rr_mac := sample_code\<rparr>) (sample_request\<lparr>rr_mac := sample_code\<rparr>)"
  using request_code_binds [OF sample_parsed sample_parsed sample_verified sample_verified refl] sample_parsed sample_verified by blast

end
