(* ===== verification/Relay_Session.thy ===== *)
theory Relay_Session
  imports Relay_Protocol
begin

text \<open>
  The sessions of the GitHub relay and their files (\<open>internal/githubrelay/session.go\<close>, \<open>store.go\<close>): what an operator authorized, how
  much of it is used, and the one request that is under way.
\<close>

section \<open>Sessions\<close>

record inflight =
  in_comment_id :: int
  in_body_hash :: string
  in_request :: relay_request
  in_job_id :: string

record session =
  se_version :: int
  se_id :: string
  se_secret :: string
  se_capability :: string
  se_grant_id :: string
  se_repository :: string
  se_repository_id :: int
  se_issue_number :: int
  se_issue_id :: int
  se_actor_id :: int
  se_relay_actor_id :: int
  se_relay_actor_login :: string
  se_target :: string
  se_created_at :: time
  se_expires_at :: time
  se_max_commands :: int
  se_commands_complete :: int
  se_next_sequence :: "64 word"
  se_exact_argv :: "string list option"
  se_publish_output :: bool
  se_output_limit :: int
  se_seen :: "(string \<times> string) list"
  se_failed_auth :: int
  se_etag :: string
  se_inflight :: "inflight option"
  se_closed :: bool
  se_close_reason :: string

definition max_relay_commands :: int where "max_relay_commands = 32"
definition maximum_output_limit :: int where "maximum_output_limit = 16384"
definition maximum_reason_size :: nat where "maximum_reason_size = 2048"
definition maximum_argv_bytes :: int where "maximum_argv_bytes = 24576"
definition maximum_failed_auth :: int where "maximum_failed_auth = 3"

text \<open>\<open>sessionIDPattern\<close>: the prefix and 16 to 64 characters of the base64url alphabet.\<close>

definition session_id_char :: "char \<Rightarrow> bool" where
  "session_id_char c \<longleftrightarrow> b64_value c \<noteq> None"

definition session_id_ok :: "string \<Rightarrow> bool" where
  "session_id_ok s \<longleftrightarrow> has_prefix s ''sgr_'' \<and>
     (let rest = trim_prefix s ''sgr_'' in 16 \<le> length rest \<and> length rest \<le> 64 \<and> list_all session_id_char rest)"

definition new_session_id :: "string option \<Rightarrow> err + string" where
  "new_session_id rnd = (case rnd of None \<Rightarrow> Inl Err_Rand | Some raw \<Rightarrow> Inr (''sgr_'' @ b64url_encode raw))"

definition se_normalize :: "session \<Rightarrow> session" where
  "se_normalize s =
     (let s1 = (if se_version s = 0 then s\<lparr>se_version := protocol_version\<rparr> else s) in
      if se_next_sequence s1 = 0 then s1\<lparr>se_next_sequence := 1\<rparr> else s1)"

fun argv_scan :: "bool \<Rightarrow> string list \<Rightarrow> int \<Rightarrow> err option" where
  "argv_scan first [] n =
     (if maximum_argv_bytes < n then Some (Err_Msg ''argv exceeds relay transport limit'') else None)"
| "argv_scan first (arg # args) n =
     (if first \<and> trim_space arg = [] then Some (Err_Msg ''argv[0] must not be empty'')
      else if 8192 < int (length arg) then Some (Err_Msg ''argv element exceeds relay transport limit'')
      else argv_scan False args (n + int (length arg)))"

definition validate_argv :: "string list \<Rightarrow> err option" where
  "validate_argv argv =
     (if argv = [] \<or> 128 < length argv then Some (Err_Msg ''argv must contain 1..128 elements'') else argv_scan True argv 0)"

definition se_validate :: "time \<Rightarrow> session \<Rightarrow> err option" where
  "se_validate now s =
     (if se_version s \<noteq> protocol_version then Some (Err_Msg (''unsupported relay session version '' @ dec_int (se_version s)))
      else if \<not> session_id_ok (se_id s) then Some (Err_Msg ''invalid relay session id'')
      else case validate_session_secret (se_secret s) of Some e \<Rightarrow> Some e
      | None \<Rightarrow>
        if trim_space (se_capability s) = [] \<or> trim_space (se_grant_id s) = []
          then Some (Err_Msg ''relay session is missing Sentinel authority binding'')
        else if trim_space (se_repository s) = [] \<or> se_repository_id s \<le> 0 \<or> se_issue_number s \<le> 0 \<or> se_issue_id s \<le> 0 \<or> se_actor_id s \<le> 0
          then Some (Err_Msg ''relay session is missing GitHub transport binding'')
        else if trim_space (se_target s) = [] then Some (Err_Msg ''relay session target is required'')
        else if se_created_at s = 0 \<or> se_expires_at s = 0 \<or> \<not> se_created_at s < se_expires_at s
          then Some (Err_Msg ''relay session has invalid lifetime'')
        else if now \<noteq> 0 \<and> \<not> now < se_expires_at s \<and> \<not> se_closed s then Some (Err_Msg ''relay session has expired'')
        else if se_max_commands s < 1 \<or> max_relay_commands < se_max_commands s then Some (Err_Msg ''max_commands must be 1..32'')
        else if se_commands_complete s < 0 \<or> se_max_commands s < se_commands_complete s
          then Some (Err_Msg ''relay session command counter is invalid'')
        else if se_next_sequence s = 0 then Some (Err_Msg ''relay session next_sequence is invalid'')
        else if se_output_limit s < 0 \<or> maximum_output_limit < se_output_limit s then Some (Err_Msg ''output_limit_bytes must be 0..16384'')
        else if se_publish_output s \<and> se_output_limit s = 0 then Some (Err_Msg ''publish_output requires a positive output limit'')
        else if slice_elems (se_exact_argv s) \<noteq> []
          then map_option (\<lambda>e. Err_Msg (''exact argv: '' @ (case e of Err_Msg t \<Rightarrow> t | _ \<Rightarrow> []))) (validate_argv (slice_elems (se_exact_argv s)))
        else None)"

definition se_active :: "time \<Rightarrow> session \<Rightarrow> bool" where
  "se_active now s \<longleftrightarrow> \<not> se_closed s \<and> now < se_expires_at s \<and> se_commands_complete s < se_max_commands s"

definition se_close :: "string \<Rightarrow> session \<Rightarrow> session" where
  "se_close reason s = s\<lparr>se_closed := True, se_close_reason := trim_space reason\<rparr>"

definition validate_relay_request :: "session \<Rightarrow> relay_request \<Rightarrow> time \<Rightarrow> err option" where
  "validate_relay_request s req now =
     (if \<not> se_active now s then Some (Err_Msg ''relay session is not active'')
      else if rr_version req \<noteq> protocol_version then Some (Err_Msg ''unsupported relay request version'')
      else if rr_session_id req \<noteq> se_id s then Some (Err_Msg ''request is bound to a different relay session'')
      else case verify_request_mac (se_secret s) req of Some e \<Rightarrow> Some e
      | None \<Rightarrow>
        if rr_sequence req \<noteq> se_next_sequence s then Some (Err_Msg (''expected sequence '' @ dec_int (uint (se_next_sequence s))))
        else if length (trim_space (rr_request_id req)) < 8 \<or> 128 < length (rr_request_id req)
          then Some (Err_Msg ''request_id must be 8..128 characters'')
        else if rr_target req \<noteq> se_target s then Some (Err_Msg ''request target is outside relay session scope'')
        else if rr_timeout_seconds req < 0 \<or> 900 < rr_timeout_seconds req then Some (Err_Msg ''timeout_seconds must be 0..900'')
        else if maximum_reason_size < length (rr_agent_reason req) then Some (Err_Msg ''agent_reason exceeds relay transport limit'')
        else case validate_argv (slice_elems (rr_argv req)) of Some e \<Rightarrow> Some e
        | None \<Rightarrow>
          if slice_elems (se_exact_argv s) \<noteq> [] \<and> slice_elems (rr_argv req) \<noteq> slice_elems (se_exact_argv s)
          then Some (Err_Msg ''argv is outside exact relay session scope'')
          else None)"

section \<open>The store\<close>

text \<open>
  One file per session, by its ID; a file holds the session that was encoded into it. Saving goes through a temporary file that is
  renamed over the old one, so a failing step leaves the old content.
\<close>

type_synonym session_files = "(string \<times> session) list"

definition session_path :: "string \<Rightarrow> err + string" where
  "session_path i = (if session_id_ok (trim_space i) then Inr (''session-'' @ i @ ''.json'') else Inl (Err_Msg ''invalid relay session id''))"

definition relay_fs_sequence :: "fs_step list" where
  "relay_fs_sequence = [Encode_json, Create_temp, Chmod_temp, Write_temp, Sync_temp, Close_temp, Rename_temp]"

definition st_save :: "fs_fault \<Rightarrow> session \<Rightarrow> session_files \<Rightarrow> session_files \<times> err option" where
  "st_save fault s0 files =
     (let s = se_normalize s0 in
      case se_validate 0 s of
        Some e \<Rightarrow> (files, Some e)
      | None \<Rightarrow>
        (case session_path (se_id s) of
           Inl e \<Rightarrow> (files, Some e)
         | Inr path \<Rightarrow> run_fs relay_fs_sequence fault files (AList.update path s files)))"

text \<open>What \<open>OpenStore\<close> finds at its path, and what \<open>loadSessionFile\<close> finds.\<close>

datatype state_dir = Sd_Mkdir_Error | Sd_Stat_Error | Sd_Not_Directory | Sd_Group_Access | Sd_Private

definition st_open :: "string \<Rightarrow> state_dir \<Rightarrow> err option" where
  "st_open dir0 found =
     (if trim_space dir0 = [] then Some (Err_Msg ''relay state directory is required'')
      else (case found of
          Sd_Mkdir_Error \<Rightarrow> Some (Err_Msg ''create relay state directory'')
        | Sd_Stat_Error \<Rightarrow> Some Err_IO
        | Sd_Not_Directory \<Rightarrow> Some (Err_Msg ''relay state path must be a non-symlink directory'')
        | Sd_Group_Access \<Rightarrow> Some (Err_Msg ''relay state directory must not be group/other accessible'')
        | Sd_Private \<Rightarrow> None))"

datatype session_file = Sf_Stat_Error | Sf_Irregular | Sf_Group_Access | Sf_Read_Error | Sf_Undecodable err | Sf_Session session

definition load_session_file :: "session_file \<Rightarrow> err + session" where
  "load_session_file f =
     (case f of
        Sf_Stat_Error \<Rightarrow> Inl Err_IO
      | Sf_Irregular \<Rightarrow> Inl (Err_Msg ''relay session file must be a regular non-symlink file'')
      | Sf_Group_Access \<Rightarrow> Inl (Err_Msg ''relay session file must not be group/other accessible'')
      | Sf_Read_Error \<Rightarrow> Inl Err_IO
      | Sf_Undecodable e \<Rightarrow> Inl e
      | Sf_Session s0 \<Rightarrow> (let s = se_normalize s0 in case se_validate 0 s of Some e \<Rightarrow> Inl e | None \<Rightarrow> Inr s))"

definition st_load :: "string \<Rightarrow> (string \<Rightarrow> session_file) \<Rightarrow> err + session" where
  "st_load i dir = (case session_path i of Inl e \<Rightarrow> Inl e | Inr path \<Rightarrow> load_session_file (dir path))"

definition session_name :: "string \<Rightarrow> bool" where
  "session_name n \<longleftrightarrow> has_prefix n ''session-'' \<and> suffix ''.json'' n"

fun load_paths :: "string list \<Rightarrow> (string \<Rightarrow> session_file) \<Rightarrow> err + session list" where
  "load_paths [] dir = Inr []"
| "load_paths (path # paths) dir =
     (case load_session_file (dir path) of
        Inl e \<Rightarrow> Inl e
      | Inr s \<Rightarrow> (case load_paths paths dir of Inl e \<Rightarrow> Inl e | Inr ss \<Rightarrow> Inr (s # ss)))"

text \<open>The entries of the directory with whether each is a directory; \<open>None\<close> when it cannot be read.\<close>

definition st_load_all :: "(string \<times> bool) list option \<Rightarrow> (string \<Rightarrow> session_file) \<Rightarrow> err + session list" where
  "st_load_all entries dir =
     (case entries of
        None \<Rightarrow> Inl Err_IO
      | Some es \<Rightarrow> load_paths (sort_by str_less (map fst (filter (\<lambda>(n, is_dir). \<not> is_dir \<and> session_name n) es))) dir)"

text \<open>The directory that holds the files and nothing else.\<close>

definition dir_of :: "session_files \<Rightarrow> string \<Rightarrow> session_file" where
  "dir_of files path = (case map_of files path of None \<Rightarrow> Sf_Stat_Error | Some s \<Rightarrow> Sf_Session s)"

definition entries_of :: "session_files \<Rightarrow> (string \<times> bool) list option" where
  "entries_of files = Some (map (\<lambda>(n, s). (n, False)) files)"

section \<open>What the checks guarantee\<close>

definition session_ok :: "session \<Rightarrow> bool" where
  "session_ok s \<longleftrightarrow> se_validate 0 s = None"

lemma validate_relay_requestD:
  assumes "validate_relay_request s req now = None"
  shows "se_active now s" "rr_version req = protocol_version" "rr_session_id req = se_id s" "verify_request_mac (se_secret s) req = None"
    "rr_sequence req = se_next_sequence s" "rr_target req = se_target s" "0 \<le> rr_timeout_seconds req" "rr_timeout_seconds req \<le> 900"
    "validate_argv (slice_elems (rr_argv req)) = None"
    "slice_elems (se_exact_argv s) = [] \<or> slice_elems (rr_argv req) = slice_elems (se_exact_argv s)"
  using assms unfolding validate_relay_request_def by (auto split: if_splits option.splits)

lemma session_okD:
  assumes "session_ok s"
  shows "se_version s = protocol_version" "session_id_ok (se_id s)" "1 \<le> se_max_commands s" "se_max_commands s \<le> 32"
    "0 \<le> se_commands_complete s" "se_commands_complete s \<le> se_max_commands s" "se_next_sequence s \<noteq> 0" "se_expires_at s \<noteq> 0"
    "se_created_at s < se_expires_at s" "0 \<le> se_output_limit s" "se_output_limit s \<le> 16384" "validate_session_secret (se_secret s) = None"
  using assms unfolding session_ok_def se_validate_def max_relay_commands_def maximum_output_limit_def
  by (auto split: if_splits option.splits)

lemma se_normalize_id [simp]:
  "se_version s = protocol_version \<Longrightarrow> se_next_sequence s \<noteq> 0 \<Longrightarrow> se_normalize s = s"
  by (simp add: se_normalize_def protocol_version_def)

lemma normalize_ok [simp]: "session_ok s \<Longrightarrow> se_normalize s = s"
  using session_okD by simp

lemma session_id_ok_trim: "session_id_ok s \<Longrightarrow> trim_space s = s"
proof -
  assume s: "session_id_ok s"
  have c: "solid c" if "session_id_char c" for c
    using that by (auto simp: session_id_char_def b64_value_def solid_def Let_def split: if_splits)
  from s obtain r where "s = ''sgr_'' @ r" "list_all session_id_char r"
    by (auto simp: session_id_ok_def has_prefix_def prefix_def trim_prefix_def)
  then have "list_all solid s" using c by (auto simp: list_all_iff solid_def)
  then show ?thesis by (rule trim_space_list_all_solid)
qed

lemma st_save_ok:
  assumes "session_ok (se_normalize s)"
  shows "st_save fault s files =
    (if fault = None \<or> fault = Some Mkdir_all then (AList.update (''session-'' @ se_id s @ ''.json'') (se_normalize s) files, None)
     else (files, Some Err_IO))"
proof -
  have i: "se_id (se_normalize s) = se_id s" by (simp add: se_normalize_def Let_def)
  have p: "session_path (se_id s) = Inr (''session-'' @ se_id s @ ''.json'')"
    using session_okD(2) [OF assms] by (simp add: i session_path_def session_id_ok_trim)
  show ?thesis
    using assms unfolding st_save_def Let_def session_ok_def i p
    by (cases fault; cases "the fault") (simp_all add: i p relay_fs_sequence_def)
qed

end
