(* ===== verification/Relay_Runner.thy ===== *)
theory Relay_Runner
  imports Relay_Session Agent_Api
begin

text \<open>
  The runner of the GitHub relay (\<open>internal/githubrelay/runner.go\<close>): it polls the issue of each session, takes the next
  authenticated request, submits it to the Sentinel gateway under the session's capability, waits for the end and answers with a
  comment. GitHub, the gateway, the clock and the file system are a port on a world \<open>'w\<close>; the calls that matter are recorded.
  Errors that are only logged are kept without the values formatted into them, and of joined errors the first.
\<close>

section \<open>The outside\<close>

record gh_user =
  gu_id :: int
  gu_login :: string
  gu_type :: string

record gh_comment =
  gc_id :: int
  gc_body :: string
  gc_user :: gh_user
  gc_created_at :: time
  gc_updated_at :: time

record gh_repository =
  gr_id :: int
  gr_full_name :: string
  gr_private :: bool
  gr_archived :: bool

record gh_issue =
  gi_id :: int
  gi_number :: int
  gi_state :: string
  gi_title :: string
  gi_user :: gh_user
  gi_pull_request :: bool

datatype gh_error = GE_Http int string time | GE_Other string

definition gh_error_text :: "gh_error \<Rightarrow> string" where
  "gh_error_text e =
     (case e of
        GE_Http status message retry \<Rightarrow> ''GitHub HTTP '' @ dec_int status @ (if message \<noteq> [] then '': '' @ message else [])
      | GE_Other message \<Rightarrow> message)"

text \<open>The calls of the runner; the capability of the session is the first argument of those that go to the gateway.\<close>

record 'w relay_port =
  rp_now :: "'w \<Rightarrow> 'w \<times> time"
  rp_fault :: "'w \<Rightarrow> 'w \<times> fs_fault"
  rp_canceled :: "'w \<Rightarrow> 'w \<times> err option"
  rp_sleep :: "time \<Rightarrow> 'w \<Rightarrow> 'w \<times> err option"
  rp_comments :: "string \<Rightarrow> int \<Rightarrow> string \<Rightarrow> 'w \<Rightarrow> 'w \<times> (gh_error + gh_comment list \<times> string \<times> bool)"
  rp_repository :: "string \<Rightarrow> 'w \<Rightarrow> 'w \<times> (gh_error + gh_repository)"
  rp_issue :: "string \<Rightarrow> int \<Rightarrow> 'w \<Rightarrow> 'w \<times> (gh_error + gh_issue)"
  rp_create :: "string \<Rightarrow> int \<Rightarrow> string \<Rightarrow> 'w \<Rightarrow> 'w \<times> (gh_error + gh_comment)"
  rp_agent :: "string \<Rightarrow> 'w \<Rightarrow> 'w \<times> err option"
  rp_bootstrap :: "string \<Rightarrow> 'w \<Rightarrow> 'w \<times> (agent_error + bootstrap)"
  rp_submit :: "string \<Rightarrow> command_request \<Rightarrow> 'w \<Rightarrow> 'w \<times> (agent_error + gateway_response)"
  rp_job :: "string \<Rightarrow> string \<Rightarrow> 'w \<Rightarrow> 'w \<times> (agent_error + client_job)"
  rp_request :: "string \<Rightarrow> string \<Rightarrow> 'w \<Rightarrow> 'w \<times> (agent_error + client_job)"

text \<open>What is recorded: a save, an answer that was sent, and a submission with the last reading of the clock before it.\<close>

datatype relay_event =
    Ev_Save session "err option"
  | Ev_Post session relay_response
  | Ev_Submit time session command_request

record 'w relay =
  rl_files :: session_files
  rl_backoff :: time
  rl_trace :: "relay_event list"
  rl_world :: 'w

text \<open>The intervals of the configuration; zero selects the default of the code.\<close>

record relay_config =
  rc_approval_poll :: time
  rc_job_poll :: time

definition approval_poll :: "relay_config \<Rightarrow> time" where
  "approval_poll c = (if 0 < rc_approval_poll c then rc_approval_poll c else 2000000000)"

definition job_poll :: "relay_config \<Rightarrow> time" where
  "job_poll c = (if 0 < rc_job_poll c then rc_job_poll c else 1000000000)"

definition ask :: "('w \<Rightarrow> 'w \<times> 'a) \<Rightarrow> 'w relay \<Rightarrow> 'w relay \<times> 'a" where
  "ask f st = (case f (rl_world st) of (w, x) \<Rightarrow> (st\<lparr>rl_world := w\<rparr>, x))"

definition note_event :: "relay_event \<Rightarrow> 'w relay \<Rightarrow> 'w relay" where
  "note_event e st = st\<lparr>rl_trace := rl_trace st @ [e]\<rparr>"

definition save :: "'w relay_port \<Rightarrow> session \<Rightarrow> 'w relay \<Rightarrow> 'w relay \<times> err option" where
  "save p s st =
     (case ask (rp_fault p) st of
        (st1, fault) \<Rightarrow> (case st_save fault s (rl_files st1) of (files, e) \<Rightarrow> (note_event (Ev_Save s e) (st1\<lparr>rl_files := files\<rparr>), e)))"

type_synonym 'w outcome = "'w relay \<times> session \<times> err option"

section \<open>Answers\<close>

definition is_agent_http_status :: "agent_error \<Rightarrow> int \<Rightarrow> bool" where
  "is_agent_http_status e status = (case e of AE_Http code message \<Rightarrow> code = status | AE_Other message \<Rightarrow> False)"

definition github_retry_delay :: "gh_error \<Rightarrow> time" where
  "github_retry_delay e =
     (case e of
        GE_Http status message retry \<Rightarrow>
          if 0 < retry then retry else if status = 403 \<or> status = 429 then 60000000000 else 0
      | GE_Other message \<Rightarrow> 0)"

definition terminal_job :: "string \<Rightarrow> bool" where
  "terminal_job status \<longleftrightarrow> status = ''succeeded'' \<or> status = ''failed'' \<or> status = ''canceled'' \<or> status = ''expired''"

text \<open>\<open>session.Close(reason)\<close>, the save and the error with the reason.\<close>

definition close_save :: "'w relay_port \<Rightarrow> string \<Rightarrow> session \<Rightarrow> 'w relay \<Rightarrow> 'w outcome" where
  "close_save p reason s st = (case save p (se_close reason s) st of (st1, e) \<Rightarrow> (st1, se_close reason s, Some (Err_Msg reason)))"

definition post_response :: "'w relay_port \<Rightarrow> session \<Rightarrow> relay_response \<Rightarrow> 'w relay \<Rightarrow> 'w outcome" where
  "post_response p s response st =
     (case build_response_comment (se_secret s) response of
        Inl e \<Rightarrow> (st, s, Some e)
      | Inr body \<Rightarrow>
        (case ask (rp_create p (se_repository s) (se_issue_number s) body) (note_event (Ev_Post s response) st) of
           (st1, Inl e) \<Rightarrow> (st1, s, Some (Err_Msg (gh_error_text e)))
         | (st1, Inr posted) \<Rightarrow>
             if 0 < se_relay_actor_id s \<and> (gu_id (gc_user posted) \<noteq> se_relay_actor_id s \<or> gu_type (gc_user posted) \<noteq> ''Bot'')
             then close_save p ''GitHub response attribution no longer matches the authorized relay App'' s st1
             else (st1, s, None)))"

definition advance :: "session \<Rightarrow> session" where
  "advance s = s\<lparr>se_commands_complete := se_commands_complete s + 1, se_next_sequence := se_next_sequence s + 1, se_inflight := None\<rparr>"

definition finish_with_response :: "'w relay_port \<Rightarrow> session \<Rightarrow> relay_response \<Rightarrow> bool \<Rightarrow> 'w relay \<Rightarrow> 'w outcome" where
  "finish_with_response p s response close_session st =
     (case post_response p s response st of
        (st1, s1, Some e) \<Rightarrow> (st1, s1, Some e)
      | (st1, s1, None) \<Rightarrow>
        (let s2 = advance s1;
             s3 = (if close_session then se_close (rs_error response) s2
                   else if se_max_commands s2 \<le> se_commands_complete s2 then se_close ''relay session command limit reached'' s2
                   else s2) in
         case save p s3 st1 of (st2, e) \<Rightarrow> (st2, s3, e)))"

definition answer_to :: "session \<Rightarrow> relay_request \<Rightarrow> string \<Rightarrow> relay_response" where
  "answer_to s req status = empty_response\<lparr>rs_session_id := se_id s, rs_sequence := rr_sequence req, rs_request_id := rr_request_id req, rs_status := status\<rparr>"

text \<open>Standard base64, with padding.\<close>

definition b64std_char :: "nat \<Rightarrow> char" where
  "b64std_char v = (if v = 62 then CHR ''+'' else if v = 63 then CHR ''/'' else b64_char v)"

definition b64std_encode :: "string \<Rightarrow> string" where
  "b64std_encode s = (let vs = b64_sextets s in map b64std_char vs @ replicate ((4 - length vs mod 4) mod 4) (CHR ''=''))"

definition publish_stream :: "int \<Rightarrow> string \<Rightarrow> bool \<Rightarrow> string \<times> bool" where
  "publish_stream limit stream truncated =
     (let cut = limit < int (length stream); s = (if cut then take (nat limit) stream else stream) in
      (if s \<noteq> [] then b64std_encode s else [], cut \<or> truncated))"

definition response_from_job :: "session \<Rightarrow> relay_request \<Rightarrow> client_job \<Rightarrow> relay_response" where
  "response_from_job s req job =
     (let r0 = (answer_to s req ''completed'')\<lparr>rs_job_id := cj_id job, rs_job_status := cj_status job\<rparr>;
          r1 = (case cj_result job of
                  None \<Rightarrow> r0
                | Some res \<Rightarrow> r0\<lparr>rs_success := Some (res_success res), rs_exit_code := Some (res_exit_code res),
                    rs_error_kind := res_error_kind res, rs_output_sha256 := res_output_sha256 res\<rparr>) in
      if se_publish_output s then
        (case cj_output job of
           None \<Rightarrow> r1
         | Some out \<Rightarrow>
             (let (o1, ot) = publish_stream (se_output_limit s) (eo_stdout out) (eo_stdout_truncated out);
                  (e1, et) = publish_stream (se_output_limit s) (eo_stderr out) (eo_stderr_truncated out) in
              r1\<lparr>rs_stdout_b64 := o1, rs_stdout_truncated := ot, rs_stderr_b64 := e1, rs_stderr_truncated := et\<rparr>))
      else r1)"

section \<open>One request\<close>

text \<open>The two loops wait for the outside and may never return; then their value is \<open>None\<close>.\<close>

partial_function (option) finish_job ::
    "relay_config \<Rightarrow> 'w relay_port \<Rightarrow> session \<Rightarrow> relay_request \<Rightarrow> client_job \<Rightarrow> 'w relay \<Rightarrow> 'w outcome option" where
  "finish_job c p s req job st =
     (if terminal_job (cj_status job) then Some (finish_with_response p s (response_from_job s req job) False st)
      else
        (case ask (rp_now p) st of
           (st1, now) \<Rightarrow>
             if \<not> now < se_expires_at s then
               Some (finish_with_response p s
                 ((answer_to s req ''expired'')\<lparr>rs_job_id := cj_id job, rs_job_status := cj_status job,
                    rs_error := ''relay session expired while job was still running''\<rparr>) True st1)
             else
               (case ask (rp_sleep p (job_poll c)) st1 of
                  (st2, Some e) \<Rightarrow> Some (st2, s, Some e)
                | (st2, None) \<Rightarrow>
                    (case ask (rp_job p (se_capability s) (cj_id job)) st2 of
                       (st3, Inl e) \<Rightarrow> Some (st3, s, Some (Err_Msg (agent_error_text e)))
                     | (st3, Inr job') \<Rightarrow> finish_job c p s req job' st3))))"

definition command_of :: "relay_request \<Rightarrow> command_request" where
  "command_of req = \<lparr>cq_request_id = rr_request_id req, cq_target = rr_target req, cq_argv = slice_elems (rr_argv req),
     cq_agent_reason = rr_agent_reason req, cq_timeout_seconds = rr_timeout_seconds req\<rparr>"

definition set_job :: "string \<Rightarrow> session \<Rightarrow> session" where
  "set_job i s = s\<lparr>se_inflight := map_option (\<lambda>fl. fl\<lparr>in_job_id := i\<rparr>) (se_inflight s)\<rparr>"

text \<open>The branch of the \<open>accepted\<close> decision.\<close>

definition follow_job :: "relay_config \<Rightarrow> 'w relay_port \<Rightarrow> session \<Rightarrow> relay_request \<Rightarrow> string \<Rightarrow> 'w relay \<Rightarrow> 'w outcome option" where
  "follow_job c p s req job_id st =
     (case save p (set_job job_id s) st of
        (st1, Some e) \<Rightarrow> Some (st1, set_job job_id s, Some e)
      | (st1, None) \<Rightarrow>
        (case ask (rp_job p (se_capability s) job_id) st1 of
           (st2, Inl e) \<Rightarrow> Some (st2, set_job job_id s, Some (Err_Msg (agent_error_text e)))
         | (st2, Inr job) \<Rightarrow> finish_job c p (set_job job_id s) req job st2))"

partial_function (option) submit_loop ::
    "relay_config \<Rightarrow> 'w relay_port \<Rightarrow> session \<Rightarrow> relay_request \<Rightarrow> 'w relay \<Rightarrow> 'w outcome option" where
  "submit_loop c p s req st =
     (case ask (rp_now p) st of
        (st1, now) \<Rightarrow>
          if \<not> now < se_expires_at s then
            Some (finish_with_response p s
              ((answer_to s req ''expired'')\<lparr>rs_error := ''relay session expired while waiting for Sentinel''\<rparr>) True st1)
          else
            (case ask (rp_submit p (se_capability s) (command_of req)) (note_event (Ev_Submit now s (command_of req)) st1) of
               (st2, Inl e) \<Rightarrow>
                 Some (if is_agent_http_status e 401 then
                         (case close_save p ''underlying Sentinel capability was revoked or expired'' s st2 of
                            (st3, s3, x) \<Rightarrow> (st3, s3, Some (Err_Msg (agent_error_text e))))
                       else if is_agent_http_status e 403 then
                         finish_with_response p s ((answer_to s req ''sentinel_denied'')\<lparr>rs_error := agent_error_text e\<rparr>) False st2
                       else (st2, s, Some (Err_Msg (agent_error_text e))))
             | (st2, Inr r) \<Rightarrow>
                 if sb_decision r = ''accepted'' then
                   (case sb_job r of
                      None \<Rightarrow> Some (st2, s, Some (Err_Msg ''Sentinel accepted relay request without a job receipt''))
                    | Some job_id \<Rightarrow> follow_job c p s req job_id st2)
                 else if sb_decision r = ''approval_required'' then
                   (case ask (rp_sleep p (approval_poll c)) st2 of
                      (st3, Some e) \<Rightarrow> Some (st3, s, Some e)
                    | (st3, None) \<Rightarrow> submit_loop c p s req st3)
                 else if sb_decision r = ''deny'' then
                   Some (finish_with_response p s
                     ((answer_to s req ''sentinel_denied'')\<lparr>rs_decision := sb_decision r, rs_approval_id := sb_approval_id r\<rparr>) False st2)
                 else Some (st2, s, Some (Err_Msg ''unexpected Sentinel decision''))))"

definition recover_request :: "'w relay_port \<Rightarrow> session \<Rightarrow> relay_request \<Rightarrow> 'w relay \<Rightarrow> 'w relay \<times> (err + client_job option)" where
  "recover_request p s req st =
     (case ask (rp_request p (se_capability s) (rr_request_id req)) st of
        (st1, Inl e) \<Rightarrow> (st1, if is_agent_http_status e 404 then Inr None else Inl (Err_Msg (agent_error_text e)))
      | (st1, Inr job) \<Rightarrow>
          (st1, if cj_request_id job \<noteq> rr_request_id req \<or> cj_target job \<noteq> rr_target req \<or> cj_argv job \<noteq> slice_elems (rr_argv req)
                then Inl (Err_Msg ''Sentinel request recovery returned a different immutable binding'')
                else Inr (Some job)))"

definition resume_authorized ::
    "relay_config \<Rightarrow> 'w relay_port \<Rightarrow> session \<Rightarrow> inflight \<Rightarrow> 'w relay \<Rightarrow> 'w outcome option" where
  "resume_authorized c p s fl st =
     (case recover_request p s (in_request fl) st of
        (st1, Inl e) \<Rightarrow> Some (st1, s, Some e)
      | (st1, Inr (Some job)) \<Rightarrow>
          if in_job_id fl = [] then
            (case save p (set_job (cj_id job) s) st1 of
               (st2, Some e) \<Rightarrow> Some (st2, set_job (cj_id job) s, Some e)
             | (st2, None) \<Rightarrow> finish_job c p (set_job (cj_id job) s) (in_request fl) job st2)
          else finish_job c p s (in_request fl) job st1
      | (st1, Inr None) \<Rightarrow> submit_loop c p s (in_request fl) st1)"

definition resume_inflight :: "relay_config \<Rightarrow> 'w relay_port \<Rightarrow> session \<Rightarrow> 'w relay \<Rightarrow> 'w outcome option" where
  "resume_inflight c p s st =
     (case se_inflight s of
        None \<Rightarrow> Some (st, s, None)
      | Some fl \<Rightarrow>
        (case ask (rp_agent p (se_capability s)) st of
           (st1, Some e) \<Rightarrow> Some (st1, s, Some e)
         | (st1, None) \<Rightarrow>
           (case ask (rp_bootstrap p (se_capability s)) st1 of
              (st2, Inl e) \<Rightarrow>
                Some (if is_agent_http_status e 401 then
                        (case close_save p ''underlying Sentinel capability is no longer valid'' s st2 of
                           (st3, s3, x) \<Rightarrow> (st3, s3, Some (Err_Msg (agent_error_text e))))
                      else (st2, s, Some (Err_Msg (agent_error_text e))))
            | (st2, Inr b) \<Rightarrow>
                if bs_session_id b \<noteq> se_grant_id s \<or> \<not> perm_exec (bs_permissions b) \<or> se_target s \<notin> set (bs_targets b) then
                  Some (close_save p ''underlying Sentinel grant no longer matches relay session'' s st2)
                else
                  (case ask (rp_now p) st2 of
                     (st3, now) \<Rightarrow>
                       if \<not> now < bs_expires_at b \<or> bs_expires_at b < se_expires_at s then
                         Some (close_save p ''underlying Sentinel grant expired or narrowed below relay lifetime'' s st3)
                       else resume_authorized c p s fl st3))))"

section \<open>One session\<close>

definition verify_transport_binding :: "'w relay_port \<Rightarrow> session \<Rightarrow> 'w relay \<Rightarrow> 'w outcome" where
  "verify_transport_binding p s st =
     (case ask (rp_repository p (se_repository s)) st of
        (st1, Inl e) \<Rightarrow> (st1, s, Some (Err_Msg (''revalidate relay repository: '' @ gh_error_text e)))
      | (st1, Inr repo) \<Rightarrow>
          if gr_id repo \<noteq> se_repository_id s \<or> \<not> gr_private repo \<or> gr_archived repo then
            close_save p ''GitHub repository binding changed or is no longer eligible'' s st1
          else
            (case ask (rp_issue p (se_repository s) (se_issue_number s)) st1 of
               (st2, Inl e) \<Rightarrow> (st2, s, Some (Err_Msg (''revalidate relay issue: '' @ gh_error_text e)))
             | (st2, Inr issue) \<Rightarrow>
                 if gi_id issue \<noteq> se_issue_id s \<or> gi_number issue \<noteq> se_issue_number s \<or> gi_state issue \<noteq> ''open'' \<or> gi_pull_request issue then
                   close_save p ''GitHub issue binding changed, closed, or is no longer an issue'' s st2
                 else (st2, s, None)))"

definition str_contains :: "string \<Rightarrow> string \<Rightarrow> bool" where
  "str_contains s t \<longleftrightarrow> list_ex (prefix t) (suffixes s)"

definition mark_seen :: "gh_comment \<Rightarrow> session \<Rightarrow> session" where
  "mark_seen cm s = s\<lparr>se_seen := AList.update (dec_int (gc_id cm)) (body_sha256 (gc_body cm)) (se_seen s)\<rparr>"

definition fail_auth :: "session \<Rightarrow> session" where
  "fail_auth s = s\<lparr>se_failed_auth := se_failed_auth s + 1\<rparr>"

text \<open>The branches of the loop: a comment that does not parse, one that is refused, and one that is taken.\<close>

definition malformed_comment :: "'w relay_port \<Rightarrow> gh_comment \<Rightarrow> session \<Rightarrow> 'w relay \<Rightarrow> 'w outcome" where
  "malformed_comment p cm s st =
     (let s1 = fail_auth (mark_seen cm s);
          s2 = (if maximum_failed_auth \<le> se_failed_auth s1 then se_close ''too many malformed relay requests'' s1 else s1) in
      case save p s2 st of (st1, x) \<Rightarrow> (st1, s2, Some (Err_Msg ''malformed relay request comment'')))"

definition refuse_comment :: "'w relay_port \<Rightarrow> gh_comment \<Rightarrow> session \<Rightarrow> relay_request \<Rightarrow> err \<Rightarrow> 'w relay \<Rightarrow> 'w outcome" where
  "refuse_comment p cm s req e st =
     (let s1 = mark_seen cm s; s2 = (if e = err_invalid_mac then fail_auth s1 else s1);
          text = (case e of Err_Msg t \<Rightarrow> t | _ \<Rightarrow> []) in
      case post_response p s2 ((answer_to s2 req ''relay_denied'')\<lparr>rs_error := text\<rparr>) st of
        (st1, s3, Some x) \<Rightarrow> (st1, s3, Some e)
      | (st1, s3, None) \<Rightarrow>
          (let s4 = (if maximum_failed_auth \<le> se_failed_auth s3 then se_close ''too many relay authentication failures'' s3 else s3) in
           case save p s4 st1 of (st2, x) \<Rightarrow> (st2, s4, x)))"

definition begin_inflight :: "gh_comment \<Rightarrow> relay_request \<Rightarrow> session \<Rightarrow> session" where
  "begin_inflight cm req s =
     (mark_seen cm s)\<lparr>se_inflight := Some \<lparr>in_comment_id = gc_id cm, in_body_hash = body_sha256 (gc_body cm), in_request = req, in_job_id = []\<rparr>\<rparr>"

definition take_comment ::
    "relay_config \<Rightarrow> 'w relay_port \<Rightarrow> gh_comment \<Rightarrow> session \<Rightarrow> relay_request \<Rightarrow> 'w relay \<Rightarrow> 'w outcome option" where
  "take_comment c p cm s req st =
     (case verify_transport_binding p s st of
        (st1, s1, Some e) \<Rightarrow> Some (st1, s1, Some e)
      | (st1, s1, None) \<Rightarrow>
        (let s2 = begin_inflight cm req s1 in
         case save p s2 st1 of
           (st2, Some e) \<Rightarrow> Some (st2, s2, Some e)
         | (st2, None) \<Rightarrow> resume_inflight c p s2 st2))"

text \<open>What one comment does: the loop goes on, or the function returns.\<close>

datatype 'w turn = Go_On "'w relay" session | Return "'w outcome"

definition comment_turn ::
    "relay_config \<Rightarrow> 'w relay_port \<Rightarrow> time \<Rightarrow> gh_comment \<Rightarrow> session \<Rightarrow> 'w relay \<Rightarrow> 'w turn option" where
  "comment_turn c p now cm s st0 =
     (case ask (rp_canceled p) st0 of
        (st, Some e) \<Rightarrow> Some (Return (st, s, Some e))
      | (st, None) \<Rightarrow>
        if str_contains (gc_body cm) (se_secret s)
        then Some (Return (close_save p ''relay session secret was exposed in the GitHub issue'' s st))
        else
          (case map_of (se_seen s) (dec_int (gc_id cm)) of
             Some old \<Rightarrow>
               Some (if old \<noteq> body_sha256 (gc_body cm)
                     then Return (close_save p ''previously observed request comment was edited'' s st) else Go_On st s)
           | None \<Rightarrow>
               if gu_id (gc_user cm) \<noteq> se_actor_id s then Some (Go_On st s)
               else if \<not> has_prefix (trim_space (gc_body cm)) (trim_space request_marker) then Some (Go_On st s)
               else if gc_created_at cm \<noteq> gc_updated_at cm
                 then Some (Return (close_save p ''relay request comment was edited before processing'' s st))
               else
                 (case parse_request_comment (gc_body cm) of
                    Inl e \<Rightarrow> Some (Return (malformed_comment p cm s st))
                  | Inr req \<Rightarrow>
                      if rr_session_id req \<noteq> se_id s then Some (Go_On st (mark_seen cm s))
                      else
                        (case validate_relay_request s req now of
                           Some e \<Rightarrow> Some (Return (refuse_comment p cm s req e st))
                         | None \<Rightarrow>
                           (case take_comment c p cm s req st of
                              None \<Rightarrow> None
                            | Some (st1, s1, e) \<Rightarrow>
                                Some (if e \<noteq> None \<or> se_closed s1 then Return (st1, s1, e) else Go_On st1 s1))))))"

fun comment_loop ::
    "relay_config \<Rightarrow> 'w relay_port \<Rightarrow> time \<Rightarrow> gh_comment list \<Rightarrow> session \<Rightarrow> 'w relay \<Rightarrow> 'w turn option" where
  "comment_loop c p now [] s st = Some (Go_On st s)"
| "comment_loop c p now (cm # cms) s st =
     (case comment_turn c p now cm s st of
        None \<Rightarrow> None
      | Some (Return r) \<Rightarrow> Some (Return r)
      | Some (Go_On st1 s1) \<Rightarrow> comment_loop c p now cms s1 st1)"

definition poll_comments :: "relay_config \<Rightarrow> 'w relay_port \<Rightarrow> time \<Rightarrow> session \<Rightarrow> 'w relay \<Rightarrow> 'w outcome option" where
  "poll_comments c p now s st =
     (case ask (rp_comments p (se_repository s) (se_issue_number s) (se_etag s)) st of
        (st1, Inl e) \<Rightarrow>
          Some (if 0 < github_retry_delay e
                then (case ask (rp_now p) st1 of
                        (st2, t) \<Rightarrow> (st2\<lparr>rl_backoff := t + github_retry_delay e\<rparr>, s, Some (Err_Msg (gh_error_text e))))
                else (st1, s, Some (Err_Msg (gh_error_text e))))
      | (st1, Inr (comments, etag, not_modified)) \<Rightarrow>
          if not_modified then Some (st1, s, None)
          else
            (case comment_loop c p now comments s st1 of
               None \<Rightarrow> None
             | Some (Return r) \<Rightarrow> Some r
             | Some (Go_On st2 s2) \<Rightarrow>
                 Some (if etag \<noteq> [] \<and> etag \<noteq> se_etag s2
                       then (case save p (s2\<lparr>se_etag := etag\<rparr>) st2 of (st3, e) \<Rightarrow> (st3, s2\<lparr>se_etag := etag\<rparr>, e))
                       else (st2, s2, None))))"

definition process_session :: "relay_config \<Rightarrow> 'w relay_port \<Rightarrow> session \<Rightarrow> 'w relay \<Rightarrow> 'w outcome option" where
  "process_session c p s st0 =
     (case ask (rp_now p) st0 of
        (st, now) \<Rightarrow>
          if se_closed s then Some (st, s, None)
          else if \<not> now < se_expires_at s then
            (let s1 = se_close ''relay session expired'' s in case save p s1 st of (st1, e) \<Rightarrow> Some (st1, s1, e))
          else if se_max_commands s \<le> se_commands_complete s then
            (let s1 = se_close ''relay session command limit reached'' s in case save p s1 st of (st1, e) \<Rightarrow> Some (st1, s1, e))
          else if se_inflight s \<noteq> None then resume_inflight c p s st
          else poll_comments c p now s st)"

section \<open>One poll of every session\<close>

fun process_all :: "relay_config \<Rightarrow> 'w relay_port \<Rightarrow> session list \<Rightarrow> 'w relay \<Rightarrow> ('w relay \<times> err list) option" where
  "process_all c p [] st = Some (st, [])"
| "process_all c p (s # ss) st =
     (case process_session c p s st of
        None \<Rightarrow> None
      | Some (st1, s1, e) \<Rightarrow>
        (case process_all c p ss st1 of
           None \<Rightarrow> None
         | Some (st2, es) \<Rightarrow> Some (st2, (case e of None \<Rightarrow> es | Some x \<Rightarrow> x # es))))"

definition relay_run_once :: "relay_config \<Rightarrow> 'w relay_port \<Rightarrow> 'w relay \<Rightarrow> ('w relay \<times> err list) option" where
  "relay_run_once c p st0 =
     (case (if rl_backoff st0 \<noteq> 0 then map_prod id Some (ask (rp_now p) st0) else (st0, None)) of
        (st, now) \<Rightarrow>
          if (case now of None \<Rightarrow> False | Some t \<Rightarrow> t < rl_backoff st) then Some (st, [])
          else
            (case st_load_all (entries_of (rl_files st)) (dir_of (rl_files st)) of
               Inl e \<Rightarrow> Some (st, [e])
             | Inr sessions \<Rightarrow> process_all c p sessions st))"

end
