(* ===== verification/Relay_Safety.thy ===== *)
theory Relay_Safety
  imports Relay_Runner
begin

text \<open>
  What the relay guarantees whatever GitHub, the gateway, the clock and the file system do: an abstract machine on the session files,
  the refinement of a poll to it, and the bounds on what a session can submit, over polls and crashes.
\<close>

section \<open>The specification\<close>

definition session_file_of :: "string \<Rightarrow> string" where
  "session_file_of i = ''session-'' @ i @ ''.json''"

text \<open>The part of a session that matters for what may be submitted: everything but the bookkeeping and the closing.\<close>

definition core :: "session \<Rightarrow> session" where
  "core s = s\<lparr>se_seen := [], se_failed_auth := 0, se_etag := [], se_closed := False, se_close_reason := []\<rparr>"

definition request_in_scope :: "session \<Rightarrow> relay_request \<Rightarrow> bool" where
  "request_in_scope s req \<longleftrightarrow> rr_version req = protocol_version \<and> rr_session_id req = se_id s \<and> verify_request_mac (se_secret s) req = None \<and>
     rr_target req = se_target s \<and> 0 \<le> rr_timeout_seconds req \<and> rr_timeout_seconds req \<le> 900 \<and> validate_argv (slice_elems (rr_argv req)) = None \<and>
     (slice_elems (se_exact_argv s) = [] \<or> slice_elems (rr_argv req) = slice_elems (se_exact_argv s))"

text \<open>
  A file may be replaced while its session is open: by the same session with other bookkeeping, by one whose request got its job,
  by one that begins a request within its scope at the next sequence number and within its budget, and by one that has finished
  its request and counts it.
\<close>

definition begins :: "session \<Rightarrow> session \<Rightarrow> bool" where
  "begins old s \<longleftrightarrow> se_inflight old = None \<and> se_commands_complete old < se_max_commands old \<and>
     (case se_inflight s of
        None \<Rightarrow> False
      | Some fl \<Rightarrow> core s = core (old\<lparr>se_inflight := Some fl\<rparr>) \<and> request_in_scope old (in_request fl) \<and> rr_sequence (in_request fl) = se_next_sequence old)"

definition finishes :: "session \<Rightarrow> session \<Rightarrow> bool" where
  "finishes old s \<longleftrightarrow> se_inflight old \<noteq> None \<and> core s = core (advance old)"

definition gets_job :: "session \<Rightarrow> session \<Rightarrow> bool" where
  "gets_job old s \<longleftrightarrow> (case se_inflight s of None \<Rightarrow> False | Some fl \<Rightarrow> core s = core (set_job (in_job_id fl) old))"

definition spec_save :: "session \<Rightarrow> session \<Rightarrow> bool" where
  "spec_save old s \<longleftrightarrow> \<not> se_closed old \<and> (core s = core old \<or> gets_job old s \<or> begins old s \<or> finishes old s)"

text \<open>A command may be submitted before the expiry of an open session whose file holds it as the request under way.\<close>

definition spec_submit :: "session \<Rightarrow> time \<Rightarrow> command_request \<Rightarrow> bool" where
  "spec_submit stored t cmd \<longleftrightarrow> \<not> se_closed stored \<and> t < se_expires_at stored \<and>
     (case se_inflight stored of None \<Rightarrow> False | Some fl \<Rightarrow> cmd = command_of (in_request fl))"

fun spec_event :: "session_files \<Rightarrow> relay_event \<Rightarrow> bool" where
  "spec_event files (Ev_Save s None) =
     (session_ok s \<and> (case map_of files (session_file_of (se_id s)) of None \<Rightarrow> False | Some old \<Rightarrow> spec_save old s))"
| "spec_event files (Ev_Save s (Some e)) = True"
| "spec_event files (Ev_Post s r) = (rs_session_id r = se_id s)"
| "spec_event files (Ev_Submit t s cmd) =
     (case map_of files (session_file_of (se_id s)) of None \<Rightarrow> False | Some stored \<Rightarrow> core stored = core s \<and> spec_submit stored t cmd)"

primrec event_session :: "relay_event \<Rightarrow> string" where
  "event_session (Ev_Save s e) = se_id s"
| "event_session (Ev_Post s r) = se_id s"
| "event_session (Ev_Submit t s cmd) = se_id s"

fun after_event :: "relay_event \<Rightarrow> session_files \<Rightarrow> session_files" where
  "after_event (Ev_Save s None) files = AList.update (session_file_of (se_id s)) s files"
| "after_event _ files = files"

fun spec_run :: "session_files \<Rightarrow> relay_event list \<Rightarrow> session_files \<Rightarrow> bool" where
  "spec_run files [] files' = (files' = files)"
| "spec_run files (e # tr) files' = (spec_event files e \<and> spec_run (after_event e files) tr files')"

lemma spec_run_append: "spec_run a (tr @ tr') c \<longleftrightarrow> (\<exists>b. spec_run a tr b \<and> spec_run b tr' c)"
  by (induction tr arbitrary: a) auto

section \<open>The invariant of the files\<close>

definition inflight_ok :: "session \<Rightarrow> bool" where
  "inflight_ok s \<longleftrightarrow> (case se_inflight s of None \<Rightarrow> True
     | Some fl \<Rightarrow> request_in_scope s (in_request fl) \<and> rr_sequence (in_request fl) = se_next_sequence s \<and> se_commands_complete s < se_max_commands s)"

definition session_inv :: "session \<Rightarrow> bool" where
  "session_inv s \<longleftrightarrow> session_ok s \<and> inflight_ok s \<and> uint (se_next_sequence s) = se_commands_complete s + 1"

definition files_inv :: "session_files \<Rightarrow> bool" where
  "files_inv files \<longleftrightarrow> distinct (map fst files) \<and> (\<forall>path s. map_of files path = Some s \<longrightarrow> path = session_file_of (se_id s) \<and> session_inv s)"

lemma core_fields:
  assumes "core a = core b"
  shows "se_version a = se_version b" "se_id a = se_id b" "se_secret a = se_secret b" "se_capability a = se_capability b"
    "se_grant_id a = se_grant_id b" "se_target a = se_target b" "se_expires_at a = se_expires_at b" "se_max_commands a = se_max_commands b"
    "se_commands_complete a = se_commands_complete b" "se_next_sequence a = se_next_sequence b" "se_exact_argv a = se_exact_argv b"
    "se_inflight a = se_inflight b"
  using assms by (cases a; cases b; simp add: core_def)+

lemma core_commute:
  "core (set_job j s) = set_job j (core s)" "core (advance s) = advance (core s)"
  "core (s\<lparr>se_inflight := x\<rparr>) = (core s)\<lparr>se_inflight := x\<rparr>"
  by (simp_all add: core_def set_job_def advance_def)

lemma core_bookkeeping [simp]:
  "core (se_close r s) = core s" "core (mark_seen cm s) = core s" "core (fail_auth s) = core s" "core (s\<lparr>se_etag := t\<rparr>) = core s"
  "core (core s) = core s"
  by (simp_all add: core_def se_close_def mark_seen_def fail_auth_def)

lemma request_in_scope_core: "core a = core b \<Longrightarrow> request_in_scope a = request_in_scope b"
  using core_fields [of a b] by (simp add: request_in_scope_def fun_eq_iff)

lemma inflight_ok_core: "core a = core b \<Longrightarrow> inflight_ok a = inflight_ok b"
  using core_fields [of a b] request_in_scope_core [of a b] by (simp add: inflight_ok_def split: option.split)

lemma session_inv_save:
  assumes "spec_save old s" and "session_inv old" and "session_ok s"
  shows "session_inv s"
proof -
  have n: "uint (se_next_sequence old) = se_commands_complete old + 1" and i: "inflight_ok old"
    and b: "0 \<le> se_commands_complete old" "se_commands_complete old \<le> 32"
    using assms(2) session_okD [of old] by (auto simp: session_inv_def)
  from assms(1) consider "core s = core old" | "gets_job old s" | "begins old s" | "finishes old s" by (auto simp: spec_save_def)
  then have "inflight_ok s \<and> uint (se_next_sequence s) = se_commands_complete s + 1"
  proof cases
    case 1
    with n i core_fields [OF 1] inflight_ok_core [OF 1] show ?thesis by simp
  next
    case 2
    then obtain j where c: "core s = core (set_job j old)" by (auto simp: gets_job_def split: option.splits)
    have "inflight_ok (set_job j old)"
      using i by (auto simp: inflight_ok_def set_job_def request_in_scope_def split: option.splits)
    with n core_fields [OF c] inflight_ok_core [OF c] show ?thesis by (simp add: set_job_def)
  next
    case 3
    then obtain fl where c: "core s = core (old\<lparr>se_inflight := Some fl\<rparr>)" and r: "request_in_scope old (in_request fl)"
      "rr_sequence (in_request fl) = se_next_sequence old" "se_commands_complete old < se_max_commands old"
      by (auto simp: begins_def split: option.splits)
    have "inflight_ok (old\<lparr>se_inflight := Some fl\<rparr>)" using r by (simp add: inflight_ok_def request_in_scope_def)
    with n core_fields [OF c] inflight_ok_core [OF c] show ?thesis by simp
  next
    case 4
    then have c: "core s = core (advance old)" by (simp add: finishes_def)
    have "uint (se_next_sequence old + 1) = uint (se_next_sequence old) + 1"
      using n b by (simp add: uint_plus_if')
    with n core_fields [OF c] inflight_ok_core [OF c] show ?thesis by (simp add: advance_def inflight_ok_def)
  qed
  with assms(3) show ?thesis by (simp add: session_inv_def)
qed

lemma spec_event_inv:
  assumes "spec_event files e" and "files_inv files"
  shows "files_inv (after_event e files)"
proof (cases "\<exists>s. e = Ev_Save s None")
  case True
  then obtain s where e: "e = Ev_Save s None" by blast
  with assms(1) obtain old where "session_ok s" "map_of files (session_file_of (se_id s)) = Some old" "spec_save old s"
    by (auto split: option.splits)
  with session_inv_save assms(2) have "session_inv s" by (auto simp: files_inv_def)
  with assms(2) show ?thesis by (simp add: e files_inv_def update_conv' distinct_update)
next
  case False
  have "after_event e files = files"
  proof (cases e)
    case (Ev_Save s x)
    with False show ?thesis by (cases x) auto
  qed simp_all
  with assms(2) show ?thesis by simp
qed

lemma spec_run_inv: "spec_run files tr files' \<Longrightarrow> files_inv files \<Longrightarrow> files_inv files'"
  by (induction tr arbitrary: files) (auto dest: spec_event_inv)

section \<open>The operations follow the specification\<close>

text \<open>
  Between two states the relay made a run of the specification. A session in memory is \<^emph>\<open>linked\<close> when its file is open and agrees
  with it but for the bookkeeping.
\<close>

definition ran_to :: "string \<Rightarrow> 'w relay \<Rightarrow> 'w relay \<Rightarrow> bool" where
  "ran_to i st st' \<longleftrightarrow> (\<exists>tr. rl_trace st' = rl_trace st @ tr \<and> (\<forall>e \<in> set tr. event_session e = i) \<and> spec_run (rl_files st) tr (rl_files st'))"

definition linked :: "string \<Rightarrow> 'w relay \<Rightarrow> session \<Rightarrow> bool" where
  "linked i st s \<longleftrightarrow> se_id s = i \<and> files_inv (rl_files st) \<and>
     (\<exists>old. map_of (rl_files st) (session_file_of i) = Some old \<and> \<not> se_closed old \<and> core old = core s)"

definition goes_on :: "string \<Rightarrow> 'w outcome \<Rightarrow> bool" where
  "goes_on i r \<longleftrightarrow> (case r of (st, s, e) \<Rightarrow> e = None \<and> \<not> se_closed s \<longrightarrow> linked i st s \<and> se_inflight s = None)"

definition fine :: "string \<Rightarrow> 'w relay \<Rightarrow> 'w outcome \<Rightarrow> bool" where
  "fine i st r \<longleftrightarrow> ran_to i st (fst r) \<and> goes_on i r"

lemma ran_refl [simp]: "ran_to i st st"
  by (auto simp: ran_to_def intro: exI [of _ "[]"])

lemma ran_trans [trans]: "ran_to i a b \<Longrightarrow> ran_to i b c \<Longrightarrow> ran_to i a c"
  unfolding ran_to_def using spec_run_append by fastforce

lemma ran_inv: "ran_to i st st' \<Longrightarrow> files_inv (rl_files st) \<Longrightarrow> files_inv (rl_files st')"
  using spec_run_inv by (auto simp: ran_to_def)

lemma ask_same: "ask f st = (st', x) \<Longrightarrow> rl_files st' = rl_files st \<and> rl_trace st' = rl_trace st"
  by (auto simp: ask_def split: prod.splits)

lemma ask_ran: "ask f st = (st', x) \<Longrightarrow> ran_to i st st'"
  using ask_same [of f st st' x] by (auto simp: ran_to_def intro: exI [of _ "[]"])

lemma ask_linked: "ask f st = (st', x) \<Longrightarrow> linked i st s \<Longrightarrow> linked i st' s"
  using ask_same [of f st st' x] by (simp add: linked_def)

lemma fine_trans: "ran_to i a b \<Longrightarrow> fine i b r \<Longrightarrow> fine i a r"
  using ran_trans by (auto simp: fine_def)

lemma fine_error: "ran_to i a b \<Longrightarrow> fine i a (b, s, Some e)"
  by (simp add: fine_def goes_on_def)

lemma linked_core: "linked i st s \<Longrightarrow> core s = core s' \<Longrightarrow> linked i st s'"
  using core_fields(2) [of s s'] by (simp add: linked_def)

lemma linked_inv:
  assumes "linked i st s"
  obtains old where "map_of (rl_files st) (session_file_of (se_id s)) = Some old" "\<not> se_closed old" "core old = core s" "session_inv old"
  using assms by (auto simp: linked_def files_inv_def)

lemma spec_save_normal:
  assumes "spec_save old s" and "session_inv old"
  shows "se_normalize s = s"
proof -
  have o: "se_version old = protocol_version" "se_next_sequence old \<noteq> 0" "uint (se_next_sequence old) = se_commands_complete old + 1"
    "0 \<le> se_commands_complete old" "se_commands_complete old \<le> 32"
    using assms(2) session_okD [of old] by (auto simp: session_inv_def)
  have n: "se_next_sequence old + 1 \<noteq> 0"
  proof
    assume "se_next_sequence old + 1 = 0"
    then have "uint (se_next_sequence old + 1) = 0" by simp
    with o(3-5) show False by (simp add: uint_plus_if')
  qed
  from assms(1) obtain x where x: "core s = core x" "se_version x = se_version old"
      "se_next_sequence x = se_next_sequence old \<or> se_next_sequence x = se_next_sequence old + 1"
    unfolding spec_save_def gets_job_def begins_def finishes_def set_job_def advance_def by (fastforce split: option.splits)
  with o n core_fields(1,10) [OF x(1)] show ?thesis by auto
qed

lemma st_save_result:
  assumes "se_normalize s = s" and "st_save fault s files = (files', e)"
  shows "e = None \<and> session_ok s \<and> files' = AList.update (session_file_of (se_id s)) s files \<or> e \<noteq> None \<and> files' = files"
proof (cases "session_ok s")
  case True
  with assms st_save_ok [of s fault files] show ?thesis by (auto simp: session_file_of_def split: if_splits)
next
  case False
  then obtain x where "se_validate 0 s = Some x" by (auto simp: session_ok_def)
  with assms show ?thesis by (auto simp: st_save_def)
qed

lemma save_follows:
  assumes "linked i st m" and "\<And>old. core old = core m \<Longrightarrow> \<not> se_closed old \<Longrightarrow> session_inv old \<Longrightarrow> spec_save old s"
    and "se_id s = se_id m" and "save p s st = (st', e)"
  shows "ran_to i st st'" and "e = None \<Longrightarrow> \<not> se_closed s \<Longrightarrow> linked i st' s"
proof -
  obtain old where old: "map_of (rl_files st) (session_file_of (se_id s)) = Some old" "\<not> se_closed old" "core old = core m" "session_inv old"
    using linked_inv [OF assms(1)] assms(3) by metis
  have sp: "spec_save old s" using assms(2) old(2-4) by blast
  obtain st1 fault files where f: "ask (rp_fault p) st = (st1, fault)" "st_save fault s (rl_files st1) = (files, e)"
    and st': "st' = note_event (Ev_Save s e) (st1\<lparr>rl_files := files\<rparr>)"
    using assms(4) by (auto simp: save_def split: prod.splits)
  note a = ask_same [OF f(1)]
  have tr: "rl_trace st' = rl_trace st @ [Ev_Save s e]" "rl_files st' = files" using a by (simp_all add: st' note_event_def)
  have c: "e = None \<and> session_ok s \<and> files = AList.update (session_file_of (se_id s)) s (rl_files st) \<or> e \<noteq> None \<and> files = rl_files st"
    using st_save_result [OF spec_save_normal [OF sp old(4)] f(2)] a by simp
  have run: "spec_run (rl_files st) [Ev_Save s e] files"
    using c old(1) sp by (cases e) auto
  have i: "se_id s = i" using assms(1,3) by (simp add: linked_def)
  with run tr show r: "ran_to i st st'" by (auto simp: ran_to_def)
  show "linked i st' s" if "e = None" "\<not> se_closed s"
  proof -
    have "files_inv (rl_files st')" using ran_inv [OF r] assms(1) by (simp add: linked_def)
    moreover have "map_of (rl_files st') (session_file_of (se_id s)) = Some s" using c that(1) by (simp add: tr update_conv')
    ultimately show ?thesis using that(2) i by (simp add: linked_def)
  qed
qed

lemma save_same:
  assumes "linked i st s" and "core s' = core s" and "save p s' st = (st', e)"
  shows "ran_to i st st'" and "e = None \<Longrightarrow> \<not> se_closed s' \<Longrightarrow> linked i st' s'"
  using save_follows [OF assms(1) _ core_fields(2) [OF assms(2)] assms(3)] assms(2) by (simp_all add: spec_save_def)

lemma save_closes: "linked i st s \<Longrightarrow> save p (se_close r s) st = (st', e) \<Longrightarrow> fine i st (st', se_close r s, x)"
  using save_same(1) [OF _ core_bookkeeping(1), of i st s p r st' e] by (simp add: fine_def goes_on_def) (simp add: se_close_def)

lemma close_save_fine: "linked i st s \<Longrightarrow> fine i st (close_save p r s st)"
  using save_closes by (auto simp: close_save_def split: prod.splits)

lemma post_response_ran:
  assumes "linked i st s" and "rs_session_id r = se_id s" and "post_response p s r st = (st', s', e)"
  shows "ran_to i st st' \<and> (e = None \<longrightarrow> s' = s \<and> linked i st' s)"
proof (cases "build_response_comment (se_secret s) r")
  case (Inl x)
  with assms(1,3) show ?thesis by (auto simp: post_response_def)
next
  case (Inr body)
  let ?n = "note_event (Ev_Post s r) st"
  have n: "ran_to i st ?n" "linked i ?n s"
    using assms(1,2) by (auto simp: ran_to_def note_event_def linked_def intro!: exI [of _ "[Ev_Post s r]"])
  obtain st1 x where a: "ask (rp_create p (se_repository s) (se_issue_number s) body) ?n = (st1, x)"
    by (cases "ask (rp_create p (se_repository s) (se_issue_number s) body) ?n")
  have l: "linked i st1 s" and r: "ran_to i st st1" using ask_linked [OF a n(2)] ask_ran [OF a] n(1) ran_trans by blast+
  show ?thesis
  proof (cases x)
    case (Inl y)
    with assms(3) r show ?thesis unfolding post_response_def \<open>build_response_comment _ _ = Inr body\<close> sum.case a prod.case by auto
  next
    case (Inr posted)
    let ?m = "''GitHub response attribution no longer matches the authorized relay App''"
    let ?bad = "0 < se_relay_actor_id s \<and> (gu_id (gc_user posted) \<noteq> se_relay_actor_id s \<or> gu_type (gc_user posted) \<noteq> ''Bot'')"
    have d: "(st', s', e) = (if ?bad then close_save p ?m s st1 else (st1, s, None))"
      using assms(3) unfolding post_response_def \<open>build_response_comment _ _ = Inr body\<close> sum.case a prod.case Inr by (rule sym)
    show ?thesis
    proof (cases ?bad)
      case True
      have c: "close_save p ?m s st1 = (st', s', e)" using d unfolding if_P [OF True] by (rule sym)
      then have "e \<noteq> None" unfolding close_save_def by (auto split: prod.splits)
      moreover have "ran_to i st st'" using fine_trans [OF r close_save_fine [OF l, of p ?m]] by (simp add: c fine_def)
      ultimately show ?thesis by blast
    next
      case False
      have "st' = st1" "s' = s" "e = None" using d unfolding if_not_P [OF False] by simp_all
      with l r show ?thesis by simp
    qed
  qed
qed

lemma finishes_core:
  assumes "core old = core s" and "se_inflight s \<noteq> None" and "core s' = core (advance s)"
  shows "finishes old s'"
  using assms core_fields(12) [OF assms(1)] by (simp add: finishes_def core_commute)

lemma finish_with_response_fine:
  assumes "linked i st s" and "se_inflight s \<noteq> None" and "rs_session_id r = se_id s"
  shows "fine i st (finish_with_response p s r cl st)"
proof -
  obtain st1 s1 e where p: "post_response p s r st = (st1, s1, e)" by (cases "post_response p s r st")
  note f = post_response_ran [OF assms(1,3) p]
  show ?thesis
  proof (cases e)
    case None
    with f have s1: "s1 = s" "linked i st1 s" "ran_to i st st1" by simp_all
    define s3 where "s3 = (if cl then se_close (rs_error r) (advance s)
      else if se_max_commands (advance s) \<le> se_commands_complete (advance s) then se_close ''relay session command limit reached'' (advance s) else advance s)"
    obtain st2 x where sv: "save p s3 st1 = (st2, x)" by (cases "save p s3 st1")
    have r: "finish_with_response p s r cl st = (st2, s3, x)"
      unfolding finish_with_response_def p None prod.case option.case s1(1) Let_def s3_def [symmetric] sv by simp
    have c: "core s3 = core (advance s)" by (simp add: s3_def)
    have i: "se_id s3 = se_id s" using core_fields(2) [OF c] by (simp add: advance_def)
    have sp: "spec_save old s3" if "core old = core s" "\<not> se_closed old" for old
      using that finishes_core [OF that(1) assms(2) c] by (simp add: spec_save_def)
    have "ran_to i st1 st2" "x = None \<Longrightarrow> \<not> se_closed s3 \<Longrightarrow> linked i st2 s3"
      using save_follows [OF s1(2) sp i sv] by blast+
    moreover have "se_inflight s3 = None" using core_fields(12) [OF c] by (simp add: advance_def)
    ultimately show ?thesis using s1(3) unfolding r fine_def goes_on_def by (auto intro: ran_trans)
  next
    case (Some y)
    with f show ?thesis unfolding finish_with_response_def p by (simp add: fine_error)
  qed
qed

lemma answer_session [simp]: "rs_session_id (answer_to s req status) = se_id s"
  by (simp add: answer_to_def)

lemma response_session [simp]: "rs_session_id (response_from_job s req job) = se_id s"
  by (auto simp: response_from_job_def Let_def split: option.splits prod.splits)

lemma finish_job_fine:
  assumes "finish_job c p s req job st = Some r"
  shows "linked i st s \<longrightarrow> se_inflight s \<noteq> None \<longrightarrow> fine i st r"
proof (rule finish_job.raw_induct [where P = "\<lambda>c p s req job st r. linked i st s \<longrightarrow> se_inflight s \<noteq> None \<longrightarrow> fine i st r", OF _ assms],
    intro impI, goal_cases)
  case step: (1 finish_job c p s req job st r)
  note IH = step(1) and body = step(2) and l = step(3) and fl = step(4)
  show ?case
  proof (cases "terminal_job (cj_status job)")
    case True
    with body finish_with_response_fine [OF l fl] show ?thesis by auto
  next
    case False
    obtain st1 now where n: "ask (rp_now p) st = (st1, now)" by (cases "ask (rp_now p) st")
    note l1 = ask_linked [OF n l] and r1 = ask_ran [OF n]
    show ?thesis
    proof (cases "now < se_expires_at s")
      case False
      with body \<open>\<not> terminal_job _\<close> n have "r = finish_with_response p s ((answer_to s req ''expired'')\<lparr>rs_job_id := cj_id job,
          rs_job_status := cj_status job, rs_error := ''relay session expired while job was still running''\<rparr>) True st1" by simp
      then show ?thesis using fine_trans [OF r1] finish_with_response_fine [OF l1 fl] by simp
    next
      case True
      obtain st2 e where sl: "ask (rp_sleep p (job_poll c)) st1 = (st2, e)" by (cases "ask (rp_sleep p (job_poll c)) st1")
      note l2 = ask_linked [OF sl l1] and r2 = ran_trans [OF r1 ask_ran [OF sl]]
      show ?thesis
      proof (cases e)
        case None
        obtain st3 x where j: "ask (rp_job p (se_capability s) (cj_id job)) st2 = (st3, x)" by (cases "ask (rp_job p (se_capability s) (cj_id job)) st2")
        note l3 = ask_linked [OF j l2] and r3 = ran_trans [OF r2 ask_ran [OF j]]
        show ?thesis
        proof (cases x)
          case (Inl y)
          with body False n True sl None j show ?thesis using r3 by (auto intro: fine_error)
        next
          case (Inr job')
          with body False n True sl None j have "finish_job c p s req job' st3 = Some r" by simp
          from fine_trans [OF r3 IH [OF this, rule_format, OF l3 fl]] show ?thesis .
        qed
      next
        case (Some y)
        with body False n True sl show ?thesis using r2 by (auto intro: fine_error)
      qed
    qed
  qed
qed

lemma save_job:
  assumes "linked i st s" and "se_inflight s \<noteq> None" and "\<not> se_closed s" and "save p (set_job j s) st = (st', e)"
  shows "ran_to i st st'" and "e = None \<Longrightarrow> linked i st' (set_job j s)"
proof -
  have sp: "spec_save old (set_job j s)" if "core old = core s" "\<not> se_closed old" for old
  proof -
    obtain fl where "se_inflight (set_job j s) = Some fl" "in_job_id fl = j" using assms(2) by (auto simp: set_job_def)
    moreover have "core (set_job j s) = core (set_job j old)" using that(1) by (simp add: core_commute)
    ultimately have "gets_job old (set_job j s)" by (simp add: gets_job_def)
    with that(2) show ?thesis by (simp add: spec_save_def)
  qed
  have "se_id (set_job j s) = se_id s" "\<not> se_closed (set_job j s)" using assms(3) by (simp_all add: set_job_def)
  with save_follows [OF assms(1) sp _ assms(4)] show "ran_to i st st'" "e = None \<Longrightarrow> linked i st' (set_job j s)" by blast+
qed

lemma set_job_inflight [simp]: "se_inflight (set_job j s) = None \<longleftrightarrow> se_inflight s = None" "se_closed (set_job j s) = se_closed s"
  by (simp_all add: set_job_def)

lemma follow_job_fine:
  assumes "follow_job c p s req j st = Some r" and "linked i st s" and "se_inflight s \<noteq> None" and "\<not> se_closed s"
  shows "fine i st r"
proof -
  obtain st1 e where sv: "save p (set_job j s) st = (st1, e)" by (cases "save p (set_job j s) st")
  note r1 = save_job(1) [OF assms(2-4) sv] and l1 = save_job(2) [OF assms(2-4) sv]
  show ?thesis
  proof (cases e)
    case None
    obtain st2 x where a: "ask (rp_job p (se_capability s) j) st1 = (st2, x)" by (cases "ask (rp_job p (se_capability s) j) st1")
    note r2 = ran_trans [OF r1 ask_ran [OF a]] and l2 = ask_linked [OF a l1 [OF None]]
    show ?thesis
    proof (cases x)
      case (Inl y)
      with assms(1) sv None a r2 show ?thesis by (auto simp: follow_job_def intro: fine_error)
    next
      case (Inr job)
      with assms(1) sv None a have "finish_job c p (set_job j s) req job st2 = Some r" by (simp add: follow_job_def)
      from finish_job_fine [OF this] l2 assms(3) show ?thesis using fine_trans [OF r2] by simp
    qed
  next
    case (Some y)
    with assms(1) sv r1 show ?thesis by (auto simp: follow_job_def intro: fine_error)
  qed
qed

lemma submit_event:
  assumes "linked i st s" and "se_inflight s = Some fl" and "now < se_expires_at s"
  shows "ran_to i st (note_event (Ev_Submit now s (command_of (in_request fl))) st)"
    and "linked i (note_event (Ev_Submit now s (command_of (in_request fl))) st) s"
proof -
  let ?e = "Ev_Submit now s (command_of (in_request fl))"
  obtain old where old: "map_of (rl_files st) (session_file_of (se_id s)) = Some old" "\<not> se_closed old" "core old = core s"
    using linked_inv [OF assms(1)] by metis
  have "spec_event (rl_files st) ?e"
    using old core_fields(7,12) [OF old(3)] assms(2,3) by (simp add: spec_submit_def)
  moreover have "se_id s = i" using assms(1) by (simp add: linked_def)
  ultimately show "ran_to i st (note_event ?e st)" by (auto simp: ran_to_def note_event_def intro!: exI [of _ "[?e]"])
  show "linked i (note_event ?e st) s" using assms(1) by (simp add: linked_def note_event_def)
qed

lemma closing_fine:
  assumes "linked i st s" and "close_save p m s st = (st', s', x)"
  shows "fine i st (st', s', Some y)"
  using close_save_fine [OF assms(1), of p m] fine_error unfolding assms(2) by (auto simp: fine_def goes_on_def)

lemma submit_loop_fine:
  assumes "submit_loop c p s req st = Some r"
  shows "linked i st s \<longrightarrow> \<not> se_closed s \<longrightarrow> (\<forall>fl. se_inflight s = Some fl \<longrightarrow> in_request fl = req \<longrightarrow> fine i st r)"
proof (rule submit_loop.raw_induct [where P = "\<lambda>c p s req st r. linked i st s \<longrightarrow> \<not> se_closed s \<longrightarrow>
      (\<forall>fl. se_inflight s = Some fl \<longrightarrow> in_request fl = req \<longrightarrow> fine i st r)", OF _ assms], intro impI allI, goal_cases)
  case step: (1 submit_loop c p s req st r fl)
  note IH = step(1) and body = step(2) and l = step(3) and op = step(4) and fl = step(5) and req = step(6)
  from fl have nn: "se_inflight s \<noteq> None" by simp
  obtain st1 now where n: "ask (rp_now p) st = (st1, now)" by (cases "ask (rp_now p) st")
  note l1 = ask_linked [OF n l] and r1 = ask_ran [OF n]
  show ?case
  proof (cases "now < se_expires_at s")
    case False
    with body n have "r = finish_with_response p s ((answer_to s req ''expired'')\<lparr>rs_error := ''relay session expired while waiting for Sentinel''\<rparr>) True st1"
      by simp
    then show ?thesis using fine_trans [OF r1] finish_with_response_fine [OF l1 nn] by simp
  next
    case True
    let ?n = "note_event (Ev_Submit now s (command_of req)) st1"
    obtain st2 x where a: "ask (rp_submit p (se_capability s) (command_of req)) ?n = (st2, x)"
      by (cases "ask (rp_submit p (se_capability s) (command_of req)) ?n")
    note sb = submit_event [OF l1 fl True, unfolded req]
    note l2 = ask_linked [OF a sb(2)] and r2 = ran_trans [OF ran_trans [OF r1 sb(1)] ask_ran [OF a]]
    note finish = fine_trans [OF r2 finish_with_response_fine [OF l2 nn]]
    note body' = body [unfolded n prod.case if_not_P [OF not_not [THEN iffD2, OF True]] a]
    show ?thesis
    proof (cases x)
      case (Inl e)
      obtain st3 s3 y where c: "close_save p ''underlying Sentinel capability was revoked or expired'' s st2 = (st3, s3, y)"
        by (cases "close_save p ''underlying Sentinel capability was revoked or expired'' s st2")
      show ?thesis
        using body' fine_trans [OF r2 closing_fine [OF l2 c]] finish fine_error [OF r2]
        unfolding Inl sum.case c prod.case by (auto split: if_splits)
    next
      case (Inr b)
      obtain st3 e where sl: "ask (rp_sleep p (approval_poll c)) st2 = (st3, e)" by (cases "ask (rp_sleep p (approval_poll c)) st2")
      note l3 = ask_linked [OF sl l2] and r3 = ran_trans [OF r2 ask_ran [OF sl]]
      have again: "fine i st r" if "submit_loop c p s req st3 = Some r"
        using fine_trans [OF r3 IH [OF that, rule_format, OF l3 op fl req]] .
      have follow: "fine i st r" if "follow_job c p s req j st2 = Some r" for j
        using fine_trans [OF r2 follow_job_fine [OF that l2 nn op]] .
      show ?thesis
        using body' again follow finish fine_error [OF r2] fine_error [OF r3]
        unfolding Inr sum.case sl prod.case by (auto split: if_splits option.splits)
    qed
  qed
qed

lemma recover_request_ran: "recover_request p s req st = (st', x) \<Longrightarrow> ran_to i st st' \<and> (linked i st s' \<longrightarrow> linked i st' s')"
  using ask_ran ask_linked by (fastforce simp: recover_request_def split: prod.splits sum.splits if_splits)

lemma resume_authorized_fine:
  assumes "resume_authorized c p s fl st = Some r" and "linked i st s" and "\<not> se_closed s" and "se_inflight s = Some fl"
  shows "fine i st r"
proof -
  have nn: "se_inflight s \<noteq> None" using assms(4) by simp
  obtain st1 x where a: "recover_request p s (in_request fl) st = (st1, x)" by (cases "recover_request p s (in_request fl) st")
  from recover_request_ran [OF a, of i s] assms(2) have l1: "linked i st1 s" and r1: "ran_to i st st1" by blast+
  consider e where "x = Inl e" | "x = Inr None" | job where "x = Inr (Some job)" by (cases x; cases "projr x") auto
  then show ?thesis
  proof cases
    case (1 e)
    with assms(1) a r1 show ?thesis by (auto simp: resume_authorized_def intro: fine_error)
  next
    case 2
    with assms(1) a have "submit_loop c p s (in_request fl) st1 = Some r" by (simp add: resume_authorized_def)
    from fine_trans [OF r1 submit_loop_fine [OF this, rule_format, OF l1 assms(3,4) refl]] show ?thesis .
  next
    case (3 job)
    show ?thesis
    proof (cases "in_job_id fl = []")
      case True
      obtain st2 e where sv: "save p (set_job (cj_id job) s) st1 = (st2, e)" by (cases "save p (set_job (cj_id job) s) st1")
      note r2 = ran_trans [OF r1 save_job(1) [OF l1 nn assms(3) sv]] and l2 = save_job(2) [OF l1 nn assms(3) sv]
      show ?thesis
      proof (cases e)
        case None
        with assms(1) a 3 True sv have "finish_job c p (set_job (cj_id job) s) (in_request fl) job st2 = Some r"
          by (simp add: resume_authorized_def)
        from finish_job_fine [OF this] l2 [OF None] nn show ?thesis using fine_trans [OF r2] by simp
      next
        case (Some y)
        with assms(1) a 3 True sv r2 show ?thesis by (auto simp: resume_authorized_def intro: fine_error)
      qed
    next
      case False
      with assms(1) a 3 have "finish_job c p s (in_request fl) job st1 = Some r" by (simp add: resume_authorized_def)
      from finish_job_fine [OF this] l1 nn show ?thesis using fine_trans [OF r1] by simp
    qed
  qed
qed

lemma resume_inflight_fine:
  assumes "resume_inflight c p s st = Some r" and "linked i st s" and "\<not> se_closed s"
  shows "fine i st r"
proof (cases "se_inflight s")
  case None
  with assms show ?thesis by (auto simp: resume_inflight_def fine_def goes_on_def)
next
  case (Some fl)
  obtain st1 e where a1: "ask (rp_agent p (se_capability s)) st = (st1, e)" by (cases "ask (rp_agent p (se_capability s)) st")
  note l1 = ask_linked [OF a1 assms(2)] and r1 = ask_ran [OF a1]
  obtain st2 x where a2: "ask (rp_bootstrap p (se_capability s)) st1 = (st2, x)" by (cases "ask (rp_bootstrap p (se_capability s)) st1")
  note l2 = ask_linked [OF a2 l1] and r2 = ran_trans [OF r1 ask_ran [OF a2]]
  obtain st3 now where a3: "ask (rp_now p) st2 = (st3, now)" by (cases "ask (rp_now p) st2")
  note l3 = ask_linked [OF a3 l2] and r3 = ran_trans [OF r2 ask_ran [OF a3]]
  note body = assms(1) [unfolded resume_inflight_def Some option.case a1 prod.case]
  obtain st4 s4 y where c: "close_save p ''underlying Sentinel capability is no longer valid'' s st2 = (st4, s4, y)"
    by (cases "close_save p ''underlying Sentinel capability is no longer valid'' s st2")
  have go: "fine i st r" if "resume_authorized c p s fl st3 = Some r"
    using fine_trans [OF r3 resume_authorized_fine [OF that l3 assms(3) Some]] .
  show ?thesis
  proof (cases e)
    case None
    note body' = body [unfolded None option.case a2 prod.case]
    show ?thesis
    proof (cases x)
      case (Inl z)
      show ?thesis
        using body' fine_trans [OF r2 closing_fine [OF l2 c]] fine_error [OF r2] unfolding Inl sum.case c prod.case by (auto split: if_splits)
    next
      case (Inr b)
      show ?thesis
        using body' go fine_trans [OF r2 close_save_fine [OF l2]] fine_trans [OF r3 close_save_fine [OF l3]]
        unfolding Inr sum.case a3 prod.case by (auto split: if_splits)
    qed
  next
    case (Some z)
    show ?thesis using body fine_error [OF r1] unfolding Some by auto
  qed
qed

lemma verify_transport_binding_ran:
  assumes "linked i st s" and "verify_transport_binding p s st = (st', s', e)"
  shows "ran_to i st st' \<and> (e = None \<longrightarrow> s' = s \<and> linked i st' s)"
proof -
  obtain st1 x where a1: "ask (rp_repository p (se_repository s)) st = (st1, x)" by (cases "ask (rp_repository p (se_repository s)) st")
  note l1 = ask_linked [OF a1 assms(1)] and r1 = ask_ran [OF a1]
  obtain st2 y where a2: "ask (rp_issue p (se_repository s) (se_issue_number s)) st1 = (st2, y)"
    by (cases "ask (rp_issue p (se_repository s) (se_issue_number s)) st1")
  note l2 = ask_linked [OF a2 l1] and r2 = ran_trans [OF r1 ask_ran [OF a2]]
  have c: "ran_to i st st' \<and> e \<noteq> None" if "close_save p m s st0 = (st', s', e)" "linked i st0 s" "ran_to i st st0" for m st0
    using fine_trans [OF that(3) close_save_fine [OF that(2), of p m]] that(1) by (auto simp: fine_def close_save_def split: prod.splits)
  show ?thesis
    using assms(2) c [OF _ l1 r1] c [OF _ l2 r2] l2 r1 r2 unfolding verify_transport_binding_def a1 prod.case a2
    by (cases x; cases y) (simp_all split: if_splits, blast+)
qed

lemma begin_spec:
  assumes "core old = core s" and "\<not> se_closed old" and "se_inflight s = None" and "validate_relay_request s req now = None"
  shows "spec_save old (begin_inflight cm req s)"
proof -
  define fl where "fl = \<lparr>in_comment_id = gc_id cm, in_body_hash = body_sha256 (gc_body cm), in_request = req, in_job_id = []\<rparr>"
  note v = validate_relay_requestD [OF assms(4)]
  have "request_in_scope s req" using v by (simp add: request_in_scope_def)
  with request_in_scope_core [OF assms(1)] have sc: "request_in_scope old req" by simp
  have "core (begin_inflight cm req s) = core (s\<lparr>se_inflight := Some fl\<rparr>)"
    by (simp add: begin_inflight_def fl_def core_def mark_seen_def)
  then have "core (begin_inflight cm req s) = core (old\<lparr>se_inflight := Some fl\<rparr>)" using assms(1) by (simp add: core_commute)
  moreover have "se_inflight (begin_inflight cm req s) = Some fl" by (simp add: begin_inflight_def fl_def)
  ultimately have "begins old (begin_inflight cm req s)"
    using sc v(1,5) assms(3) core_fields(8-10,12) [OF assms(1)] by (simp add: begins_def fl_def se_active_def)
  with assms(2) show ?thesis by (simp add: spec_save_def)
qed

lemma take_comment_fine:
  assumes "take_comment c p cm s req st = Some r" and "linked i st s" and "\<not> se_closed s" and "se_inflight s = None"
    and "validate_relay_request s req now = None"
  shows "fine i st r"
proof -
  obtain st1 s1 e where v: "verify_transport_binding p s st = (st1, s1, e)" by (cases "verify_transport_binding p s st")
  note f = verify_transport_binding_ran [OF assms(2) v]
  show ?thesis
  proof (cases e)
    case None
    with f have s1: "s1 = s" "linked i st1 s" "ran_to i st st1" by simp_all
    let ?s = "begin_inflight cm req s"
    obtain st2 x where sv: "save p ?s st1 = (st2, x)" by (cases "save p ?s st1")
    have i: "se_id ?s = se_id s" "\<not> se_closed ?s" using assms(3) by (simp_all add: begin_inflight_def mark_seen_def)
    have sp: "spec_save old ?s" if "core old = core s" "\<not> se_closed old" for old using begin_spec [OF that assms(4,5)] .
    note r2 = ran_trans [OF s1(3) save_follows(1) [OF s1(2) sp i(1) sv]] and l2 = save_follows(2) [OF s1(2) sp i(1) sv _ i(2)]
    note body = assms(1) [unfolded take_comment_def v prod.case None option.case s1(1) Let_def sv]
    show ?thesis
    proof (cases x)
      case None
      with body have "resume_inflight c p ?s st2 = Some r" by simp
      from fine_trans [OF r2 resume_inflight_fine [OF this l2 i(2)]] None show ?thesis by simp
    next
      case (Some y)
      with body fine_error [OF r2] show ?thesis by auto
    qed
  next
    case (Some y)
    with assms(1) v f show ?thesis by (auto simp: take_comment_def intro: fine_error)
  qed
qed

definition turn_fine :: "string \<Rightarrow> 'w relay \<Rightarrow> 'w turn \<Rightarrow> bool" where
  "turn_fine i st t \<longleftrightarrow>
     (case t of
        Go_On st' s \<Rightarrow> ran_to i st st' \<and> linked i st' s \<and> \<not> se_closed s \<and> se_inflight s = None
      | Return r \<Rightarrow> ran_to i st (fst r))"

lemma malformed_comment_ran:
  assumes "linked i st s"
  shows "ran_to i st (fst (malformed_comment p cm s st))"
proof -
  define s2 where "s2 = (if maximum_failed_auth \<le> se_failed_auth (fail_auth (mark_seen cm s))
    then se_close ''too many malformed relay requests'' (fail_auth (mark_seen cm s)) else fail_auth (mark_seen cm s))"
  obtain st1 x where sv: "save p s2 st = (st1, x)" by (cases "save p s2 st")
  have "core s2 = core s" by (simp add: s2_def)
  from save_same(1) [OF assms this sv] show ?thesis
    unfolding malformed_comment_def Let_def s2_def [symmetric] sv by simp
qed

lemma refuse_comment_ran:
  assumes "linked i st s"
  shows "ran_to i st (fst (refuse_comment p cm s req e st))"
proof -
  define s2 where "s2 = (if e = err_invalid_mac then fail_auth (mark_seen cm s) else mark_seen cm s)"
  define r where "r = (answer_to s2 req ''relay_denied'')\<lparr>rs_error := (case e of Err_Msg t \<Rightarrow> t | _ \<Rightarrow> [])\<rparr>"
  have c: "core s2 = core s" by (simp add: s2_def)
  have l2: "linked i st s2" using linked_core [OF assms c [symmetric]] .
  have rs: "rs_session_id r = se_id s2" by (simp add: r_def)
  obtain st1 s3 x where po: "post_response p s2 r st = (st1, s3, x)" by (cases "post_response p s2 r st")
  note f = post_response_ran [OF l2 rs po]
  note body = refuse_comment_def [of p cm s req e st, unfolded Let_def, folded s2_def, folded r_def, unfolded po prod.case]
  show ?thesis
  proof (cases x)
    case None
    with f have s3: "s3 = s2" "linked i st1 s2" "ran_to i st st1" by simp_all
    define s4 where "s4 = (if maximum_failed_auth \<le> se_failed_auth s2 then se_close ''too many relay authentication failures'' s2 else s2)"
    obtain st2 y where sv: "save p s4 st1 = (st2, y)" by (cases "save p s4 st1")
    have "core s4 = core s2" by (simp add: s4_def)
    from ran_trans [OF s3(3) save_same(1) [OF s3(2) this sv]] show ?thesis
      unfolding body None option.case s3(1) s4_def [symmetric] sv by simp
  next
    case (Some y)
    with f show ?thesis unfolding body by simp
  qed
qed

lemma comment_turn_fine:
  assumes "comment_turn c p now cm s st = Some t" and "linked i st s" and "\<not> se_closed s" and "se_inflight s = None"
  shows "turn_fine i st t"
proof -
  obtain st1 e where a: "ask (rp_canceled p) st = (st1, e)" by (cases "ask (rp_canceled p) st")
  note l1 = ask_linked [OF a assms(2)] and r1 = ask_ran [OF a, of i]
  have go: "turn_fine i st (Go_On st1 s)" using l1 r1 assms(3,4) by (simp add: turn_fine_def)
  have seen: "turn_fine i st (Go_On st1 (mark_seen cm s))"
    using linked_core [OF l1, of "mark_seen cm s"] r1 assms(3,4) by (simp add: turn_fine_def) (simp add: mark_seen_def)
  have close: "turn_fine i st (Return (close_save p m s st1))" for m
    using fine_trans [OF r1 close_save_fine [OF l1, of p m]] by (simp add: turn_fine_def fine_def)
  have mal: "turn_fine i st (Return (malformed_comment p cm s st1))"
    using ran_trans [OF r1 malformed_comment_ran [OF l1]] by (simp add: turn_fine_def)
  have ref: "turn_fine i st (Return (refuse_comment p cm s req x st1))" for req x
    using ran_trans [OF r1 refuse_comment_ran [OF l1]] by (simp add: turn_fine_def)
  have tk: "turn_fine i st (if x \<noteq> None \<or> se_closed s1 then Return (st2, s1, x) else Go_On st2 s1)"
    if "take_comment c p cm s req st1 = Some (st2, s1, x)" "validate_relay_request s req now = None" for req st2 s1 x
    using fine_trans [OF r1 take_comment_fine [OF that(1) l1 assms(3,4) that(2)]] by (auto simp: fine_def goes_on_def turn_fine_def)
  show ?thesis
  proof (cases e)
    case (Some x)
    with assms(1) a r1 show ?thesis by (auto simp: comment_turn_def turn_fine_def)
  next
    case None
    note body = assms(1) [unfolded comment_turn_def a prod.case None option.case]
    show ?thesis
    proof (cases "map_of (se_seen s) (dec_int (gc_id cm))")
      case (Some old)
      show ?thesis using body go close unfolding Some by (auto split: if_splits)
    next
      case None
      show ?thesis
      proof (cases "parse_request_comment (gc_body cm)")
        case (Inl x)
        show ?thesis using body go close mal unfolding None option.case Inl sum.case by (auto split: if_splits)
      next
        case (Inr req)
        have inner: "turn_fine i st t" if "(case validate_relay_request s req now of
            Some e \<Rightarrow> Some (Return (refuse_comment p cm s req e st1))
          | None \<Rightarrow> (case take_comment c p cm s req st1 of None \<Rightarrow> None
             | Some (st1, s1, e) \<Rightarrow> Some (if e \<noteq> None \<or> se_closed s1 then Return (st1, s1, e) else Go_On st1 s1))) = Some t"
          using that ref tk by (cases "validate_relay_request s req now"; cases "take_comment c p cm s req st1") auto
        show ?thesis using body go close seen inner unfolding None option.case Inr sum.case by (simp split: if_splits) blast+
      qed
    qed
  qed
qed

lemma comment_loop_fine:
  "comment_loop c p now cms s st = Some t \<Longrightarrow> linked i st s \<Longrightarrow> \<not> se_closed s \<Longrightarrow> se_inflight s = None \<Longrightarrow> turn_fine i st t"
proof (induction cms arbitrary: s st)
  case (Cons cm cms)
  then obtain u where u: "comment_turn c p now cm s st = Some u" by (auto split: option.splits)
  note f = comment_turn_fine [OF u Cons.prems(2-4)]
  show ?case
  proof (cases u)
    case (Go_On st1 s1)
    with f have g: "ran_to i st st1" "linked i st1 s1" "\<not> se_closed s1" "se_inflight s1 = None" by (simp_all add: turn_fine_def)
    have "comment_loop c p now cms s1 st1 = Some t" using Cons.prems(1) by (simp add: u Go_On)
    from Cons.IH [OF this g(2-4)] show ?thesis using g(1) by (auto simp: turn_fine_def intro: ran_trans split: turn.splits)
  next
    case (Return r)
    with Cons.prems(1) u f show ?thesis by simp
  qed
qed (auto simp: turn_fine_def)

lemma ran_backoff: "ran_to i st (st'\<lparr>rl_backoff := b\<rparr>) = ran_to i st st'"
  by (simp add: ran_to_def)

lemma poll_comments_ran:
  assumes "poll_comments c p now s st = Some (st', s', e)" and "linked i st s" and "\<not> se_closed s" and "se_inflight s = None"
  shows "ran_to i st st'"
proof -
  obtain st1 x where a: "ask (rp_comments p (se_repository s) (se_issue_number s) (se_etag s)) st = (st1, x)"
    by (cases "ask (rp_comments p (se_repository s) (se_issue_number s) (se_etag s)) st")
  note l1 = ask_linked [OF a assms(2)] and r1 = ask_ran [OF a, of i]
  note body = assms(1) [unfolded poll_comments_def a prod.case]
  show ?thesis
  proof (cases x)
    case (Inl y)
    obtain st2 t where n: "ask (rp_now p) st1 = (st2, t)" by (cases "ask (rp_now p) st1")
    show ?thesis using body r1 ran_trans [OF r1 ask_ran [OF n]] unfolding Inl sum.case n prod.case by (auto simp: ran_backoff split: if_splits)
  next
    case (Inr y)
    obtain cms etag nm where y: "y = (cms, etag, nm)" by (cases y)
    show ?thesis
    proof (cases nm)
      case True
      with body r1 show ?thesis by (simp add: Inr y)
    next
      case False
      then obtain t where t: "comment_loop c p now cms s st1 = Some t" using body by (auto simp: Inr y split: option.splits)
      note f = comment_loop_fine [OF t l1 assms(3,4)]
      show ?thesis
      proof (cases t)
        case (Go_On st2 s2)
        with f have g: "ran_to i st1 st2" "linked i st2 s2" by (simp_all add: turn_fine_def)
        obtain st3 z where sv: "save p (s2\<lparr>se_etag := etag\<rparr>) st2 = (st3, z)" by (cases "save p (s2\<lparr>se_etag := etag\<rparr>) st2")
        have "ran_to i st2 st3" using save_same(1) [OF g(2) core_bookkeeping(4) sv] .
        with body r1 g(1) False t show ?thesis by (auto simp: Inr y Go_On sv intro: ran_trans split: if_splits)
      next
        case (Return r)
        with f body r1 False t show ?thesis by (auto simp: Inr y turn_fine_def intro: ran_trans)
      qed
    qed
  qed
qed

lemma process_session_ran:
  assumes "process_session c p s st = Some (st', s', e)" and "se_closed s \<or> linked i st s"
  shows "ran_to i st st'"
proof -
  obtain st1 now where a: "ask (rp_now p) st = (st1, now)" by (cases "ask (rp_now p) st")
  note r1 = ask_ran [OF a, of i] and body = assms(1) [unfolded process_session_def a prod.case]
  show ?thesis
  proof (cases "se_closed s")
    case True
    with body r1 show ?thesis by simp
  next
    case False
    with assms(2) have l1: "linked i st1 s" using ask_linked [OF a] by blast
    have cl: "ran_to i st st2" if "save p (se_close m s) st1 = (st2, x)" for m st2 x
      using ran_trans [OF r1 save_same(1) [OF l1 core_bookkeeping(1) that]] .
    have rs: "ran_to i st st'" if "resume_inflight c p s st1 = Some (st', s', e)"
      using fine_trans [OF r1 resume_inflight_fine [OF that l1 False]] by (simp add: fine_def)
    have pc: "ran_to i st st'" if "poll_comments c p now s st1 = Some (st', s', e)" "se_inflight s = None"
      using ran_trans [OF r1 poll_comments_ran [OF that(1) l1 False that(2)]] .
    show ?thesis
      using body cl rs pc False by (cases "se_inflight s") (auto simp: Let_def split: if_splits prod.splits)
  qed
qed

section \<open>A poll refines the specification\<close>

definition ran_spec :: "'w relay \<Rightarrow> 'w relay \<Rightarrow> bool" where
  "ran_spec st st' \<longleftrightarrow> (\<exists>tr. rl_trace st' = rl_trace st @ tr \<and> spec_run (rl_files st) tr (rl_files st'))"

lemma session_file_of_inj [simp]: "session_file_of i = session_file_of j \<longleftrightarrow> i = j"
  by (simp add: session_file_of_def)

lemma spec_run_frame:
  "spec_run files tr files' \<Longrightarrow> \<forall>e \<in> set tr. event_session e \<noteq> j
   \<Longrightarrow> map_of files' (session_file_of j) = map_of files (session_file_of j)"
proof (induction tr arbitrary: files)
  case (Cons e tr)
  have "map_of (after_event e files) (session_file_of j) = map_of files (session_file_of j)"
    using Cons.prems(2) by (cases "(e, files)" rule: after_event.cases) (auto simp: update_conv')
  moreover have "map_of files' (session_file_of j) = map_of (after_event e files) (session_file_of j)"
    using Cons.IH [of "after_event e files"] Cons.prems by simp
  ultimately show ?case by simp
qed simp

lemma ran_to_others:
  assumes "ran_to i st st'" and "j \<noteq> i" and "linked j st s"
  shows "linked j st' s"
proof -
  from assms(1) obtain tr where tr: "\<forall>e \<in> set tr. event_session e = i" "spec_run (rl_files st) tr (rl_files st')" by (auto simp: ran_to_def)
  with spec_run_frame [OF tr(2), of j] assms(2) have "map_of (rl_files st') (session_file_of j) = map_of (rl_files st) (session_file_of j)" by auto
  with assms(3) ran_inv [OF assms(1)] show ?thesis by (auto simp: linked_def)
qed

lemma ran_spec_trans: "ran_to i a b \<Longrightarrow> ran_spec b c \<Longrightarrow> ran_spec a c"
  unfolding ran_to_def ran_spec_def using spec_run_append by fastforce

lemma process_all_ran:
  "process_all c p ss st = Some (st', es) \<Longrightarrow> \<forall>s \<in> set ss. se_closed s \<or> linked (se_id s) st s \<Longrightarrow> distinct (map se_id ss) \<Longrightarrow> ran_spec st st'"
proof (induction ss arbitrary: st es)
  case Nil
  then show ?case by (auto simp: ran_spec_def intro: exI [of _ "[]"])
next
  case (Cons s ss)
  then obtain st1 s1 e es' where a: "process_session c p s st = Some (st1, s1, e)" "process_all c p ss st1 = Some (st', es')"
    by (auto split: option.splits prod.splits)
  have r: "ran_to (se_id s) st st1" using process_session_ran [OF a(1), of "se_id s"] Cons.prems(2) by simp
  have "se_closed u \<or> linked (se_id u) st1 u" if "u \<in> set ss" for u
  proof -
    have "se_id u \<noteq> se_id s" using Cons.prems(3) imageI [OF that, of se_id] by auto
    with ran_to_others [OF r this, of u] Cons.prems(2) that show ?thesis by auto
  qed
  with Cons.IH [OF a(2)] Cons.prems(3) ran_spec_trans [OF r] show ?case by simp
qed

lemma load_paths_stored:
  "load_paths paths (dir_of files) = Inr ss \<Longrightarrow> files_inv files
   \<Longrightarrow> map (session_file_of \<circ> se_id) ss = paths \<and> (\<forall>s \<in> set ss. map_of files (session_file_of (se_id s)) = Some s)"
proof (induction paths arbitrary: ss)
  case (Cons path paths)
  then obtain s us where l: "load_session_file (dir_of files path) = Inr s" "load_paths paths (dir_of files) = Inr us" "ss = s # us"
    by (auto split: sum.splits)
  from l(1) obtain s0 where s0: "map_of files path = Some s0" "s = se_normalize s0"
    by (auto simp: load_session_file_def dir_of_def Let_def split: session_file.splits option.splits)
  with Cons.prems(2) have "path = session_file_of (se_id s0)" "session_ok s0" by (auto simp: files_inv_def session_inv_def)
  with s0 Cons.IH [OF l(2) Cons.prems(2)] l(3) show ?case by simp
qed simp

lemma sessions_loaded:
  assumes "st_load_all (entries_of files) (dir_of files) = Inr ss" and "files_inv files"
  shows "distinct (map se_id ss)" and "\<forall>s \<in> set ss. map_of files (session_file_of (se_id s)) = Some s"
proof -
  define names where "names = map fst (filter (\<lambda>(n, is_dir). \<not> is_dir \<and> session_name n) (map (\<lambda>(n, s). (n, False)) files))"
  have l: "load_paths (sort_by str_less names) (dir_of files) = Inr ss" using assms(1) by (simp add: st_load_all_def entries_of_def names_def)
  have "names = filter session_name (map fst files)" unfolding names_def by (induction files) auto
  then have "distinct (sort_by str_less names)" using assms(2) by (simp add: files_inv_def mset_eq_imp_distinct_iff [OF mset_sort_by])
  with load_paths_stored [OF l assms(2)] have "distinct (map session_file_of (map se_id ss))" by simp
  then show "distinct (map se_id ss)" unfolding distinct_map [of session_file_of] by blast
  show "\<forall>s \<in> set ss. map_of files (session_file_of (se_id s)) = Some s" using load_paths_stored [OF l assms(2)] by blast
qed

lemma poll_spec:
  assumes "files_inv (rl_files st)" and "relay_run_once c p st = Some (st', es)"
  shows "\<exists>tr. rl_trace st' = rl_trace st @ tr \<and> spec_run (rl_files st) tr (rl_files st')"
proof -
  have refl: "ran_spec st st1" if "rl_files st1 = rl_files st" "rl_trace st1 = rl_trace st" for st1
    using that by (auto simp: ran_spec_def intro: exI [of _ "[]"])
  obtain st1 now where n: "(if rl_backoff st \<noteq> 0 then map_prod id Some (ask (rp_now p) st) else (st, None)) = (st1, now)"
    by (cases "if rl_backoff st \<noteq> 0 then map_prod id Some (ask (rp_now p) st) else (st, None)")
  have s1: "rl_files st1 = rl_files st" "rl_trace st1 = rl_trace st"
  proof -
    obtain u t where u: "ask (rp_now p) st = (u, t)" by (cases "ask (rp_now p) st")
    note same = ask_same [OF u]
    show "rl_files st1 = rl_files st" "rl_trace st1 = rl_trace st" using n same unfolding u by (simp_all split: if_splits)
  qed
  note body = assms(2) [unfolded relay_run_once_def n prod.case]
  have "ran_spec st st'"
  proof (cases "(case now of None \<Rightarrow> False | Some t \<Rightarrow> t < rl_backoff st1)")
    case True
    with body refl [OF s1] show ?thesis by simp
  next
    case False
    show ?thesis
    proof (cases "st_load_all (entries_of (rl_files st1)) (dir_of (rl_files st1))")
      case (Inl e)
      with body False refl [OF s1] show ?thesis by simp
    next
      case (Inr ss)
      have i: "files_inv (rl_files st1)" using assms(1) s1(1) by simp
      note ld = sessions_loaded [OF Inr i]
      have "\<forall>s \<in> set ss. se_closed s \<or> linked (se_id s) st1 s" using ld(2) i by (auto simp: linked_def)
      moreover have "process_all c p ss st1 = Some (st', es)" using body False Inr by simp
      ultimately have "ran_spec st1 st'" using process_all_ran ld(1) by blast
      then show ?thesis using s1 by (simp add: ran_spec_def)
    qed
  qed
  then show ?thesis by (simp add: ran_spec_def)
qed

end
