(* ===== verification/Relay_Budget.thy ===== *)
theory Relay_Budget
  imports Relay_Safety
begin

text \<open>
  The relay over time: polls, restarts and crashes between any two of its steps, with what a session can submit at most in all of it, and the return
  of every poll once the clock passes the expiry.
\<close>

section \<open>A poll\<close>

text \<open>
  C11. A poll of the relay refines the specification of its session files (\<open>RunOnce\<close>): for every port, that is whatever GitHub, the
  gateway, the clock and the file system answer, the saves, answers and submissions it makes are, in their order, a run of the
  abstract machine from the files before to the files after. In that machine a command is submitted only before the expiry of
  a session whose file, open and already written, holds it as the request under way; a request comes under way only with a valid code, for the
  session's target and scope, at the next sequence number and within the budget; and a closed session's file is never written.
\<close>

theorem relay_poll_refines:
  assumes "files_inv (rl_files st)" and "relay_run_once c p st = Some (st', es)"
  shows "\<exists>tr. rl_trace st' = rl_trace st @ tr \<and> spec_run (rl_files st) tr (rl_files st')"
  using poll_spec [OF assms] .

section \<open>Runs\<close>

definition replay :: "relay_event list \<Rightarrow> session_files \<Rightarrow> session_files" where
  "replay tr files = fold after_event tr files"

text \<open>
  A poll under any port; a change of anything outside, or a restart, which forgets the backoff; a crash in the middle of a poll, that leaves what was saved until then.
\<close>

inductive relay_reach :: "'w relay \<Rightarrow> 'w relay \<Rightarrow> bool" for st0 :: "'w relay" where
  start: "relay_reach st0 st0"
| poll: "relay_reach st0 st \<Longrightarrow> relay_run_once c p st = Some (st', es) \<Longrightarrow> relay_reach st0 st'"
| outside: "relay_reach st0 st \<Longrightarrow> relay_reach st0 (st\<lparr>rl_world := w, rl_backoff := b\<rparr>)"
| crash: "relay_reach st0 st \<Longrightarrow> relay_run_once c p st = Some (st', es) \<Longrightarrow> rl_trace st' = rl_trace st @ done @ lost
    \<Longrightarrow> relay_reach st0 (st\<lparr>rl_files := replay done (rl_files st), rl_trace := rl_trace st @ done, rl_world := w, rl_backoff := b\<rparr>)"

text \<open>Sessions as they are authorized: nothing used, nothing under way, and an empty record of events.\<close>

definition fresh_relay :: "'w relay \<Rightarrow> bool" where
  "fresh_relay st \<longleftrightarrow> files_inv (rl_files st) \<and> rl_trace st = [] \<and> (\<forall>path s. map_of (rl_files st) path = Some s \<longrightarrow> se_inflight s = None)"

lemma spec_run_replay: "spec_run files tr files' \<Longrightarrow> files' = replay tr files"
  by (induction tr arbitrary: files) (auto simp: replay_def)

lemma relay_reach_spec:
  assumes "relay_reach st0 st" and "fresh_relay st0"
  shows "spec_run (rl_files st0) (rl_trace st) (rl_files st) \<and> files_inv (rl_files st)"
  using assms(1)
proof induction
  case start
  then show ?case using assms(2) by (simp add: fresh_relay_def)
next
  case (poll st c p st' es)
  obtain tr where tr: "rl_trace st' = rl_trace st @ tr" "spec_run (rl_files st) tr (rl_files st')"
    using poll_spec [OF _ poll(2)] poll(3) by blast
  with poll(3) spec_run_append spec_run_inv [OF tr(2)] show ?case by fastforce
next
  case (outside st w b)
  then show ?case by simp
next
  case (crash st c p st' es "done" lost w b)
  obtain tr where tr: "rl_trace st' = rl_trace st @ tr" "spec_run (rl_files st) tr (rl_files st')"
    using poll_spec [OF _ crash(2)] crash(4) by blast
  with crash(3) have "tr = done @ lost" by simp
  with tr(2) obtain b where b: "spec_run (rl_files st) done b" by (auto simp: spec_run_append)
  with spec_run_replay [OF b] have "spec_run (rl_files st) done (replay done (rl_files st))" by simp
  with crash(4) spec_run_append spec_run_inv [OF this] show ?case by fastforce
qed

section \<open>What never changes, and what is spent\<close>

text \<open>The terms a session was authorized under.\<close>

definition terms_of :: "session \<Rightarrow> session" where
  "terms_of s = (core s)\<lparr>se_commands_complete := 0, se_next_sequence := 0, se_inflight := None\<rparr>"

lemma terms_core: "core a = core b \<Longrightarrow> terms_of a = terms_of b"
  by (simp add: terms_of_def)

lemma terms_steps [simp]:
  "terms_of (set_job j s) = terms_of s" "terms_of (advance s) = terms_of s" "terms_of (s\<lparr>se_inflight := x\<rparr>) = terms_of s"
  by (simp_all add: terms_of_def core_def set_job_def advance_def)

lemma terms_fields:
  assumes "terms_of a = terms_of b"
  shows "se_id a = se_id b" "se_secret a = se_secret b" "se_capability a = se_capability b" "se_target a = se_target b"
    "se_expires_at a = se_expires_at b" "se_max_commands a = se_max_commands b" "se_exact_argv a = se_exact_argv b"
  using assms by (cases a; cases b; simp add: terms_of_def core_def)+

lemma spec_save_terms: "spec_save old s \<Longrightarrow> terms_of s = terms_of old"
proof -
  assume "spec_save old s"
  then obtain x where "core s = core x" "terms_of x = terms_of old"
    unfolding spec_save_def gets_job_def begins_def finishes_def using terms_steps by (auto split: option.splits)
  with terms_core [of s x] show ?thesis by simp
qed

text \<open>
  The ledger of a session: a command for each sequence number. Every submission is one of the commands at a number that is spent, where the number of
  the request under way counts as spent.
\<close>

definition spent_commands :: "session \<Rightarrow> int" where
  "spent_commands s = se_commands_complete s + (if se_inflight s = None then 0 else 1)"

definition ledger :: "(int \<Rightarrow> command_request) \<Rightarrow> session \<Rightarrow> relay_event list \<Rightarrow> bool" where
  "ledger f s tr \<longleftrightarrow>
     (\<forall>t u cmd. Ev_Submit t u cmd \<in> set tr \<and> se_id u = se_id s \<longrightarrow> (\<exists>k. 1 \<le> k \<and> k \<le> spent_commands s \<and> cmd = f k)) \<and>
     (\<forall>fl. se_inflight s = Some fl \<longrightarrow> f (se_commands_complete s + 1) = command_of (in_request fl))"

definition in_ledger :: "session \<Rightarrow> session_files \<Rightarrow> relay_event list \<Rightarrow> bool" where
  "in_ledger s0 files tr \<longleftrightarrow>
     (\<exists>s f. map_of files (session_file_of (se_id s0)) = Some s \<and> terms_of s = terms_of s0 \<and> ledger f s tr)"

lemma ledger_save:
  assumes "ledger f old tr" and "spec_save old s" and "se_id s = se_id old"
  shows "\<exists>g. ledger g s (tr @ [Ev_Save s e])"
proof -
  from assms(2) consider "core s = core old" | "gets_job old s" | "begins old s" | "finishes old s" by (auto simp: spec_save_def)
  then show ?thesis
  proof cases
    case 1
    with assms(1,3) core_fields [OF 1] have "ledger f s (tr @ [Ev_Save s e])" by (simp add: ledger_def spent_commands_def)
    then show ?thesis by blast
  next
    case 2
    then obtain j where c: "core s = core (set_job j old)" by (auto simp: gets_job_def split: option.splits)
    with assms(1,3) core_fields [OF c] have "ledger f s (tr @ [Ev_Save s e])"
      by (auto simp: ledger_def spent_commands_def) (auto simp: set_job_def)
    then show ?thesis by blast
  next
    case 3
    then obtain fl where c: "core s = core (old\<lparr>se_inflight := Some fl\<rparr>)" and n: "se_inflight old = None"
      by (auto simp: begins_def split: option.splits)
    define g where "g = f(se_commands_complete old + 1 := command_of (in_request fl))"
    have "ledger g s (tr @ [Ev_Save s e])"
      unfolding ledger_def
    proof (intro conjI allI impI)
      fix t u cmd assume "Ev_Submit t u cmd \<in> set (tr @ [Ev_Save s e]) \<and> se_id u = se_id s"
      with assms(1,3) n obtain k where "1 \<le> k" "k \<le> se_commands_complete old" "cmd = f k"
        by (simp add: ledger_def spent_commands_def) blast
      then show "\<exists>k. 1 \<le> k \<and> k \<le> spent_commands s \<and> cmd = g k"
        using core_fields [OF c] by (intro exI [of _ k]) (auto simp: g_def spent_commands_def)
    next
      fix fl' assume "se_inflight s = Some fl'"
      with core_fields [OF c] show "g (se_commands_complete s + 1) = command_of (in_request fl')" by (simp add: g_def)
    qed
    then show ?thesis by blast
  next
    case 4
    then have c: "core s = core (advance old)" and n: "se_inflight old \<noteq> None" by (auto simp: finishes_def)
    with assms(1,3) core_fields [OF c] have "ledger f s (tr @ [Ev_Save s e])" by (simp add: ledger_def spent_commands_def advance_def)
    then show ?thesis by blast
  qed
qed

lemma ledger_more: "ledger f s tr \<Longrightarrow> (\<And>t u cmd. e = Ev_Submit t u cmd \<Longrightarrow> se_id u \<noteq> se_id s) \<Longrightarrow> ledger f s (tr @ [e])"
  by (auto simp: ledger_def)

lemma in_ledger_event:
  assumes "in_ledger s0 files tr" and "spec_event files e" and "files_inv files"
  shows "in_ledger s0 (after_event e files) (tr @ [e])"
proof -
  obtain s f where s: "map_of files (session_file_of (se_id s0)) = Some s" "terms_of s = terms_of s0" "ledger f s tr"
    using assms(1) by (auto simp: in_ledger_def)
  note i = terms_fields(1) [OF s(2)]
  have same: "in_ledger s0 (after_event e files) (tr @ [e])"
    if "map_of (after_event e files) (session_file_of (se_id s0)) = Some s" "ledger f s (tr @ [e])"
    using that s(2) by (auto simp: in_ledger_def)
  show ?thesis
  proof (cases e)
    case (Ev_Save u x)
    show ?thesis
    proof (cases "x = None \<and> se_id u = se_id s0")
      case True
      then have x: "x = None" and u: "se_id u = se_id s0" by auto
      have sp: "spec_save s u" using assms(2) s(1) by (simp add: Ev_Save x u)
      obtain g where "ledger g u (tr @ [e])" using ledger_save [OF s(3) sp] u i by (auto simp: Ev_Save)
      moreover have "map_of (after_event e files) (session_file_of (se_id s0)) = Some u" by (simp add: Ev_Save x u update_conv')
      ultimately show ?thesis using spec_save_terms [OF sp] s(2) by (auto simp: in_ledger_def)
    next
      case False
      then have "map_of (after_event e files) (session_file_of (se_id s0)) = Some s"
        using s(1) by (cases x) (auto simp: Ev_Save update_conv')
      then show ?thesis by (rule same) (rule ledger_more [OF s(3)], simp add: Ev_Save)
    qed
  next
    case (Ev_Post u r)
    have "ledger f s (tr @ [e])" by (rule ledger_more [OF s(3)]) (simp add: Ev_Post)
    with s(1) show ?thesis by (intro same) (simp_all add: Ev_Post)
  next
    case (Ev_Submit t u cmd)
    show ?thesis
    proof (cases "se_id u = se_id s0")
      case True
      then obtain fl where fl: "se_inflight s = Some fl" "cmd = command_of (in_request fl)"
        using assms(2) s(1) by (auto simp: Ev_Submit spec_submit_def split: option.splits)
      have "session_inv s" using assms(3) s(1) by (auto simp: files_inv_def)
      then have "0 \<le> se_commands_complete s" using session_okD(5) by (auto simp: session_inv_def)
      then have new: "\<exists>k. 1 \<le> k \<and> k \<le> spent_commands s \<and> cmd = f k"
        using s(3) fl by (intro exI [of _ "se_commands_complete s + 1"]) (simp add: ledger_def spent_commands_def)
      have "ledger f s (tr @ [e])"
        unfolding ledger_def
      proof (intro conjI allI impI)
        fix t' u' cmd' assume "Ev_Submit t' u' cmd' \<in> set (tr @ [e]) \<and> se_id u' = se_id s"
        with s(3) new show "\<exists>k. 1 \<le> k \<and> k \<le> spent_commands s \<and> cmd' = f k" by (auto simp: ledger_def Ev_Submit)
      qed (use s(3) in \<open>simp add: ledger_def\<close>)
      with s(1) show ?thesis by (intro same) (simp_all add: Ev_Submit)
    next
      case False
      have "ledger f s (tr @ [e])" by (rule ledger_more [OF s(3)]) (use False i in \<open>simp add: Ev_Submit\<close>)
      with s(1) show ?thesis by (intro same) (simp_all add: Ev_Submit)
    qed
  qed
qed

lemma in_ledger_run:
  "spec_run files tr files' \<Longrightarrow> files_inv files \<Longrightarrow> in_ledger s0 files pre \<Longrightarrow> in_ledger s0 files' (pre @ tr)"
proof (induction tr arbitrary: files pre)
  case (Cons e tr)
  from Cons.IH [of "after_event e files" "pre @ [e]"] Cons.prems in_ledger_event [of s0 files pre e] spec_event_inv [of files e]
  show ?case by simp
qed simp

lemma files_inv_id:
  assumes "files_inv files" and "map_of files (session_file_of i) = Some s"
  shows "se_id s = i" and "session_inv s"
  using assms unfolding files_inv_def by (metis session_file_of_inj)+

lemma reach_in_ledger:
  assumes "relay_reach st0 st" and "fresh_relay st0" and "map_of (rl_files st0) (session_file_of i) = Some s0"
  shows "in_ledger s0 (rl_files st) (rl_trace st)" and "files_inv (rl_files st)"
proof -
  have inv: "files_inv (rl_files st0)" and n: "se_inflight s0 = None" using assms(2,3) by (auto simp: fresh_relay_def)
  note i = files_inv_id(1) [OF inv assms(3)]
  have "in_ledger s0 (rl_files st0) []" unfolding in_ledger_def
    using assms(3) n i by (intro exI [of _ s0] exI) (simp add: ledger_def)
  with in_ledger_run [of "rl_files st0" "rl_trace st" "rl_files st" s0 "[]"] relay_reach_spec [OF assms(1,2)] inv
  show "in_ledger s0 (rl_files st) (rl_trace st)" "files_inv (rl_files st)" by simp_all
qed

lemma spec_run_terms:
  "spec_run files tr files' \<Longrightarrow> map_of files' (session_file_of i) = Some s \<Longrightarrow> \<exists>s0. map_of files (session_file_of i) = Some s0 \<and> terms_of s = terms_of s0"
proof (induction tr arbitrary: files)
  case (Cons e tr)
  then obtain s1 where s1: "map_of (after_event e files) (session_file_of i) = Some s1" "terms_of s = terms_of s1" by auto
  show ?case
  proof (cases "\<exists>u. e = Ev_Save u None \<and> se_id u = i")
    case True
    then obtain u where u: "e = Ev_Save u None" "se_id u = i" by blast
    with Cons.prems(1) obtain old where "map_of files (session_file_of i) = Some old" "spec_save old u" by (auto split: option.splits)
    with s1 u spec_save_terms [of old u] show ?thesis by (auto simp: update_conv')
  next
    case False
    then have "map_of (after_event e files) (session_file_of i) = map_of files (session_file_of i)"
      by (cases "(e, files)" rule: after_event.cases) (auto simp: update_conv')
    with s1 show ?thesis by auto
  qed
qed auto

section \<open>The budget\<close>

definition submitted_commands :: "string \<Rightarrow> relay_event list \<Rightarrow> command_request set" where
  "submitted_commands i tr = (\<Union>e \<in> set tr. case e of Ev_Submit t s cmd \<Rightarrow> if se_id s = i then {cmd} else {} | _ \<Rightarrow> {})"


text \<open>
  C9. Nothing is submitted outside an authorization (\<open>ValidateRequest\<close>, \<open>resumeInflight\<close>): over the same runs, every submission of a
  command belongs to a session that was authorized at the start; it carries that session's capability and is made at a reading of the clock before
  its expiry; the command is that of a request whose code verifies under that session's secret, that names that session and its
  target, with a timeout of at most 900 seconds, and with exactly the authorized arguments when the session fixes them.
\<close>

theorem relay_submits_authorized:
  assumes "fresh_relay st0" and "relay_reach st0 st" and "Ev_Submit t s cmd \<in> set (rl_trace st)"
  shows "\<exists>s0 req. map_of (rl_files st0) (session_file_of (se_id s)) = Some s0 \<and> se_capability s = se_capability s0 \<and> t < se_expires_at s0 \<and>
           cmd = command_of req \<and> request_in_scope s0 req"
proof -
  obtain pre post where tr: "rl_trace st = pre @ Ev_Submit t s cmd # post" using split_list [OF assms(3)] by blast
  have run: "spec_run (rl_files st0) (rl_trace st) (rl_files st)" and inv: "files_inv (rl_files st0)"
    using relay_reach_spec [OF assms(2,1)] assms(1) by (simp_all add: fresh_relay_def)
  then obtain files where f: "spec_run (rl_files st0) pre files" "spec_event files (Ev_Submit t s cmd)" by (auto simp: tr spec_run_append)
  then obtain u where u: "map_of files (session_file_of (se_id s)) = Some u" "core u = core s" "spec_submit u t cmd"
    by (auto split: option.splits)
  note uinv = files_inv_id [OF spec_run_inv [OF f(1) inv] u(1)]
  from u(3) obtain fl where fl: "se_inflight u = Some fl" "cmd = command_of (in_request fl)" "t < se_expires_at u"
    by (auto simp: spec_submit_def split: option.splits)
  have sc: "request_in_scope u (in_request fl)" using uinv(2) fl(1) by (simp add: session_inv_def inflight_ok_def)
  obtain s0 where s0: "map_of (rl_files st0) (session_file_of (se_id s)) = Some s0" "terms_of u = terms_of s0"
    using spec_run_terms [OF f(1) u(1)] by blast
  note tf = terms_fields [OF s0(2)]
  have "request_in_scope s0 (in_request fl)" using sc tf by (simp add: request_in_scope_def)
  with s0(1) tf fl(2,3) core_fields(4) [OF u(2)] show ?thesis by auto
qed

section \<open>A poll returns\<close>

definition returns :: "'a option \<Rightarrow> bool" where
  "returns r \<longleftrightarrow> (case r of None \<Rightarrow> False | Some _ \<Rightarrow> True)"

lemma returns_simps [simp]: "returns (Some x)" "\<not> returns None"
  by (simp_all add: returns_def)

lemma returnsE: "returns r \<Longrightarrow> (\<And>x. r = Some x \<Longrightarrow> P) \<Longrightarrow> P"
  by (cases r) simp_all

text \<open>
  What the two waiting loops rely on: the clock reads the time, does not run backwards over a call of the gateway, and has advanced by the interval
  after a sleep.
\<close>

locale ticking_port =
  fixes p :: "'w relay_port" and clock :: "'w \<Rightarrow> time"
  assumes now_reads: "rp_now p w = (w', t) \<Longrightarrow> t = clock w' \<and> clock w \<le> clock w'"
    and submit_time: "rp_submit p cap cmd w = (w', x) \<Longrightarrow> clock w \<le> clock w'"
    and job_time: "rp_job p cap i w = (w', y) \<Longrightarrow> clock w \<le> clock w'"
    and sleep_time: "rp_sleep p d w = (w', e) \<Longrightarrow> clock w + d \<le> clock w' \<or> e \<noteq> None"
begin

lemma ask_now: "ask (rp_now p) st = (st', t) \<Longrightarrow> t = clock (rl_world st') \<and> clock (rl_world st) \<le> clock (rl_world st')"
  using now_reads [of "rl_world st"] by (auto simp: ask_def split: prod.splits)

lemma ask_submit: "ask (rp_submit p cap cmd) st = (st', x) \<Longrightarrow> clock (rl_world st) \<le> clock (rl_world st')"
  using submit_time [of cap cmd "rl_world st"] by (auto simp: ask_def split: prod.splits)

lemma ask_job: "ask (rp_job p cap i) st = (st', y) \<Longrightarrow> clock (rl_world st) \<le> clock (rl_world st')"
  using job_time [of cap i "rl_world st"] by (auto simp: ask_def split: prod.splits)

lemma ask_sleep: "ask (rp_sleep p d) st = (st', None) \<Longrightarrow> clock (rl_world st) + d \<le> clock (rl_world st')"
  using sleep_time [of d "rl_world st"] by (fastforce simp: ask_def split: prod.splits)

lemma finish_job_returns: "returns (finish_job c p s req job st)"
proof (induction "nat (se_expires_at s - clock (rl_world st))" arbitrary: st job rule: less_induct)
  case less
  obtain st1 now where n: "ask (rp_now p) st = (st1, now)" by (cases "ask (rp_now p) st")
  obtain st2 e where sl: "ask (rp_sleep p (job_poll c)) st1 = (st2, e)" by (cases "ask (rp_sleep p (job_poll c)) st1")
  obtain st3 x where j: "ask (rp_job p (se_capability s) (cj_id job)) st2 = (st3, x)" by (cases "ask (rp_job p (se_capability s) (cj_id job)) st2")
  have "returns (finish_job c p s req job' st3)" if "now < se_expires_at s" "e = None" for job'
  proof (rule less)
    have "0 < job_poll c" by (simp add: job_poll_def)
    with ask_now [OF n] ask_sleep [of "job_poll c" st1 st2] ask_job [OF j] sl that
    show "nat (se_expires_at s - clock (rl_world st3)) < nat (se_expires_at s - clock (rl_world st))" by simp
  qed
  then show ?case
    by (subst finish_job.simps) (auto simp: n sl j split: option.splits sum.splits)
qed

lemma follow_job_returns: "returns (follow_job c p s req j st)"
  using finish_job_returns by (auto simp: follow_job_def split: prod.splits option.splits sum.splits)

lemma submit_loop_returns: "returns (submit_loop c p s req st)"
proof (induction "nat (se_expires_at s - clock (rl_world st))" arbitrary: st rule: less_induct)
  case less
  obtain st1 now where n: "ask (rp_now p) st = (st1, now)" by (cases "ask (rp_now p) st")
  let ?n = "note_event (Ev_Submit now s (command_of req)) st1"
  obtain st2 x where a: "ask (rp_submit p (se_capability s) (command_of req)) ?n = (st2, x)"
    by (cases "ask (rp_submit p (se_capability s) (command_of req)) ?n")
  obtain st3 e where sl: "ask (rp_sleep p (approval_poll c)) st2 = (st3, e)" by (cases "ask (rp_sleep p (approval_poll c)) st2")
  have "returns (submit_loop c p s req st3)" if "now < se_expires_at s" "e = None"
  proof (rule less)
    have "0 < approval_poll c" by (simp add: approval_poll_def)
    moreover have "rl_world ?n = rl_world st1" by (simp add: note_event_def)
    ultimately show "nat (se_expires_at s - clock (rl_world st3)) < nat (se_expires_at s - clock (rl_world st))"
      using ask_now [OF n] ask_sleep [of "approval_poll c" st2 st3] ask_submit [OF a] sl that by simp
  qed
  then show ?case
    using follow_job_returns by (subst submit_loop.simps) (auto simp: n a sl split: option.splits sum.splits)
qed

lemma resume_inflight_returns: "returns (resume_inflight c p s st)"
proof -
  have "returns (resume_authorized c p s fl st)" for fl st
    using finish_job_returns submit_loop_returns
    by (auto simp: resume_authorized_def split: prod.splits option.splits sum.splits)
  then show ?thesis by (auto simp: resume_inflight_def split: prod.splits option.splits sum.splits)
qed

lemma take_comment_returns: "returns (take_comment c p cm s req st)"
  using resume_inflight_returns by (auto simp: take_comment_def Let_def split: prod.splits option.splits)

lemma comment_turn_returns: "returns (comment_turn c p now cm s st)"
proof -
  obtain st1 e where a: "ask (rp_canceled p) st = (st1, e)" by (cases "ask (rp_canceled p) st")
  have "returns (case take_comment c p cm s req st1 of None \<Rightarrow> None | Some (st1, s1, e) \<Rightarrow>
      Some (if e \<noteq> None \<or> se_closed s1 then Return (st1, s1, e) else Go_On st1 s1))" for req
    using take_comment_returns [of c cm s req st1] by (auto elim!: returnsE)
  then show ?thesis unfolding comment_turn_def a by (simp split: option.split sum.split)
qed

lemma comment_loop_returns: "returns (comment_loop c p now cms s st)"
proof (induction cms arbitrary: s st)
  case (Cons cm cms)
  obtain t where "comment_turn c p now cm s st = Some t" using comment_turn_returns by (rule returnsE)
  with Cons show ?case by (cases t) simp_all
qed simp

lemma process_session_returns: "returns (process_session c p s st)"
proof -
  have "returns (poll_comments c p now s st)" for now st
  proof -
    obtain st1 x where a: "ask (rp_comments p (se_repository s) (se_issue_number s) (se_etag s)) st = (st1, x)"
      by (cases "ask (rp_comments p (se_repository s) (se_issue_number s) (se_etag s)) st")
    show ?thesis
    proof (cases x)
      case (Inr y)
      obtain t where "comment_loop c p now (fst y) s st1 = Some t" using comment_loop_returns by (rule returnsE)
      with Inr a show ?thesis unfolding poll_comments_def by (cases t) (auto split: prod.splits)
    qed (use a in \<open>simp add: poll_comments_def\<close>)
  qed
  then show ?thesis using resume_inflight_returns by (auto simp: process_session_def Let_def split: prod.splits)
qed

lemma run_once_returns: "returns (relay_run_once c p st)"
proof -
  have "returns (process_all c p ss st)" for ss st
  proof (induction ss arbitrary: st)
    case (Cons s ss)
    obtain st1 s1 e where "process_session c p s st = Some (st1, s1, e)" using process_session_returns [of c s st] by (auto elim!: returnsE)
    with Cons [of st1] show ?case by (auto elim!: returnsE)
  qed simp
  then show ?thesis by (auto simp: relay_run_once_def split: prod.splits option.splits sum.splits)
qed

end

section \<open>A port on the time\<close>

text \<open>The port of an outside whose answers are functions of the time: the world is the clock, and only a sleep moves it.\<close>

record outside_answers =
  an_fault :: "time \<Rightarrow> fs_fault"
  an_canceled :: "time \<Rightarrow> err option"
  an_comments :: "string \<Rightarrow> int \<Rightarrow> string \<Rightarrow> time \<Rightarrow> gh_error + gh_comment list \<times> string \<times> bool"
  an_repository :: "string \<Rightarrow> time \<Rightarrow> gh_error + gh_repository"
  an_issue :: "string \<Rightarrow> int \<Rightarrow> time \<Rightarrow> gh_error + gh_issue"
  an_create :: "string \<Rightarrow> int \<Rightarrow> string \<Rightarrow> time \<Rightarrow> gh_error + gh_comment"
  an_agent :: "string \<Rightarrow> time \<Rightarrow> err option"
  an_bootstrap :: "string \<Rightarrow> time \<Rightarrow> agent_error + bootstrap"
  an_submit :: "string \<Rightarrow> command_request \<Rightarrow> time \<Rightarrow> agent_error + gateway_response"
  an_job :: "string \<Rightarrow> string \<Rightarrow> time \<Rightarrow> agent_error + client_job"
  an_request :: "string \<Rightarrow> string \<Rightarrow> time \<Rightarrow> agent_error + client_job"

definition timed_port :: "outside_answers \<Rightarrow> time relay_port" where
  "timed_port a = \<lparr>rp_now = (\<lambda>t. (t, t)), rp_fault = (\<lambda>t. (t, an_fault a t)), rp_canceled = (\<lambda>t. (t, an_canceled a t)),
     rp_sleep = (\<lambda>d t. (t + d, an_canceled a t)), rp_comments = (\<lambda>repo n etag t. (t, an_comments a repo n etag t)),
     rp_repository = (\<lambda>repo t. (t, an_repository a repo t)), rp_issue = (\<lambda>repo n t. (t, an_issue a repo n t)),
     rp_create = (\<lambda>repo n body t. (t, an_create a repo n body t)), rp_agent = (\<lambda>cap t. (t, an_agent a cap t)),
     rp_bootstrap = (\<lambda>cap t. (t, an_bootstrap a cap t)), rp_submit = (\<lambda>cap cmd t. (t, an_submit a cap cmd t)),
     rp_job = (\<lambda>cap i t. (t, an_job a cap i t)), rp_request = (\<lambda>cap i t. (t, an_request a cap i t))\<rparr>"

interpretation timed: ticking_port "timed_port a" "\<lambda>t. t" for a
  by unfold_locales (simp_all add: timed_port_def)


section \<open>A run with a submission\<close>

text \<open>
  A session whose stored secret has a tab before it, which the check of the secret ignores; its issue has the sample request, and the gateway is out of order.
\<close>

definition sample_session :: session where
  "sample_session = \<lparr>se_version = 1, se_id = ''sgr_AAAABBBBCCCCDDDD'', se_secret = CHR 0x09 # sample_secret, se_capability = ''cap'',
     se_grant_id = ''grant-1'', se_repository = ''o/r'', se_repository_id = 11, se_issue_number = 3, se_issue_id = 13, se_actor_id = 7,
     se_relay_actor_id = 0, se_relay_actor_login = [], se_target = ''web-1'', se_created_at = 1, se_expires_at = 1000, se_max_commands = 2,
     se_commands_complete = 0, se_next_sequence = 1, se_exact_argv = None, se_publish_output = False, se_output_limit = 0, se_seen = [],
     se_failed_auth = 0, se_etag = [], se_inflight = None, se_closed = False, se_close_reason = []\<rparr>"

definition sample_mail :: gh_comment where
  "sample_mail = \<lparr>gc_id = 1, gc_body = sample_comment, gc_user = \<lparr>gu_id = 7, gu_login = [], gu_type = []\<rparr>, gc_created_at = 2, gc_updated_at = 2\<rparr>"

definition sample_answers :: outside_answers where
  "sample_answers = \<lparr>an_fault = (\<lambda>_. None), an_canceled = (\<lambda>_. None), an_comments = (\<lambda>_ _ _ _. Inr ([sample_mail], [], False)),
     an_repository = (\<lambda>_ _. Inr \<lparr>gr_id = 11, gr_full_name = ''o/r'', gr_private = True, gr_archived = False\<rparr>),
     an_issue = (\<lambda>_ _ _. Inr \<lparr>gi_id = 13, gi_number = 3, gi_state = ''open'', gi_title = [], gi_user = gc_user sample_mail, gi_pull_request = False\<rparr>),
     an_create = (\<lambda>_ _ _ _. Inr sample_mail), an_agent = (\<lambda>_ _. None),
     an_bootstrap = (\<lambda>_ _. Inr \<lparr>bs_session_id = ''grant-1'', bs_purpose = [], bs_agent = [], bs_targets = [''web-1''],
        bs_permissions = no_permissions\<lparr>perm_exec := True\<rparr>, bs_issued_at = 1, bs_expires_at = 1000\<rparr>),
     an_submit = (\<lambda>_ _ _. Inl (AE_Http 500 [])), an_job = (\<lambda>_ _ _. Inl (AE_Http 500 [])), an_request = (\<lambda>_ _ _. Inl (AE_Http 404 []))\<rparr>"

definition sample_relay :: "time relay" where
  "sample_relay = \<lparr>rl_files = [(session_file_of (se_id sample_session), sample_session)], rl_backoff = 0, rl_trace = [], rl_world = 5\<rparr>"

definition sample_config :: relay_config where
  "sample_config = \<lparr>rc_approval_poll = 0, rc_job_poll = 0\<rparr>"

abbreviation (input) sample_port :: "time relay_port" where
  "sample_port \<equiv> timed_port sample_answers"

lemma trim_space_tab:
  assumes "s \<noteq> []" and "solid (hd s)" and "solid (last s)"
  shows "trim_space (CHR 0x09 # s) = s"
proof -
  have "trim_space (CHR 0x09 # s) = trim_space s"
    unfolding trim_space_def trim_left_def by (subst strip_front.simps) (simp add: ws_runes_def)
  with trim_space_solid [OF assms] show ?thesis by simp
qed

lemma sample_secret_solid: "list_all solid sample_secret" "sample_secret \<noteq> []"
  by (simp_all add: sample_secret_def relay_secret_prefix_def b64url_encode_solid solid_def)

lemma sample_tab_key: "decode_session_secret (CHR 0x09 # sample_secret) = decode_session_secret sample_secret"
proof -
  have h: "solid (hd sample_secret)" "solid (last sample_secret)" using sample_secret_solid by (auto simp: list_all_iff)
  show ?thesis unfolding decode_session_secret_def trim_space_tab [OF sample_secret_solid(2) h] trim_space_list_all_solid [OF sample_secret_solid(1)] ..
qed

lemma sample_session_ok: "session_ok sample_session"
proof -
  have "validate_session_secret (CHR 0x09 # sample_secret) = None" by (simp add: validate_session_secret_def sample_tab_key sample_key)
  moreover have "session_id_ok ''sgr_AAAABBBBCCCCDDDD''" "trim_space ''cap'' \<noteq> []" "trim_space ''grant-1'' \<noteq> []" "trim_space ''o/r'' \<noteq> []" "trim_space ''web-1'' \<noteq> []"
    by code_simp+
  ultimately show ?thesis
    by (simp add: session_ok_def se_validate_def sample_session_def protocol_version_def max_relay_commands_def maximum_output_limit_def slice_elems_def)
qed

lemma sample_fresh: "fresh_relay sample_relay"
  using sample_session_ok
  by (simp add: fresh_relay_def sample_relay_def files_inv_def session_inv_def inflight_ok_def) (simp add: sample_session_def)

lemma sample_no_tab: "CHR 0x09 \<notin> set sample_comment"
proof -
  let ?xs = "[(''version'', JInt 1), (''session_id'', JStr ''sgr_AAAABBBBCCCCDDDD''), (''sequence'', jword 1),
    (''request_id'', JStr ''request-0001''), (''target'', JStr ''web-1''), (''argv'', jslice (Some [''uptime''])),
    (''agent_reason'', JStr ''check''), (''timeout_seconds'', JInt 30)]"
  have j: "request_json (sample_request\<lparr>rr_mac := sample_code\<rparr>) = JObj (?xs @ [(''mac'', JStr sample_code)])"
    by (simp add: request_json_def sample_request_def omit_str_def omit_int_def)
  have c: "CHR 0x09 \<notin> set (join_with '','' (map (json_field json_string_raw) ?xs))" by code_simp
  have "CHR 0x09 \<notin> set (json_body_raw s)" if "list_all solid s" for s
    using that
  proof (induction s)
    case (Cons a s)
    then have "CHR 0x09 \<notin> set (json_ascii_raw a)" by (auto simp: json_ascii_raw_def json_ascii_def solid_def Let_def)
    with Cons show ?case by (simp add: json_body_raw.simps(2) solid_def)
  qed simp
  with request_mac_solid(1) [OF sample_mac] have "CHR 0x09 \<notin> set (json_string_raw sample_code)" by (simp add: json_string_raw_def)
  moreover have "CHR 0x09 \<notin> set (json_string_raw ''mac'')" by code_simp
  ultimately have m: "CHR 0x09 \<notin> set (json_field json_string_raw (''mac'', JStr sample_code))" by (simp add: json_field_def)
  have jl: "set (join_with '','' (ys @ [y])) \<subseteq> set (join_with '','' ys) \<union> {CHR '',''} \<union> set y" for ys y
  proof (induction ys)
    case (Cons z zs)
    then show ?case by (cases zs) auto
  qed auto
  have "CHR 0x09 \<notin> set (join_with '','' (map (json_field json_string_raw) (?xs @ [(''mac'', JStr sample_code)])))"
    using c m jl [of "map (json_field json_string_raw) ?xs" "json_field json_string_raw (''mac'', JStr sample_code)"]
    unfolding map_append list.map(2) [of _ _ "[]"] list.map(1) by auto
  moreover have "CHR 0x09 \<notin> set request_marker" by (simp add: request_marker_def)
  ultimately show ?thesis unfolding sample_comment_def j json_raw_obj by auto
qed

lemma str_contains_hd: "t \<noteq> [] \<Longrightarrow> hd t \<notin> set s \<Longrightarrow> \<not> str_contains s t"
  by (cases t) (auto simp: str_contains_def list_ex_iff prefix_def suffix_def)

abbreviation (input) sample_taken :: session where
  "sample_taken \<equiv> begin_inflight sample_mail (sample_request\<lparr>rr_mac := sample_code\<rparr>) sample_session"

lemma sample_valid: "validate_relay_request sample_session (sample_request\<lparr>rr_mac := sample_code\<rparr>) 5 = None"
proof -
  have "verify_request_mac (CHR 0x09 # sample_secret) (sample_request\<lparr>rr_mac := sample_code\<rparr>) = None"
    using sample_verified by (simp add: verify_request_mac_def request_mac_def compute_mac_def sample_tab_key)
  moreover have "length (trim_space ''request-0001'') = 12" "validate_argv [''uptime''] = None" by code_simp+
  ultimately show ?thesis
    by (simp add: validate_relay_request_def se_active_def sample_session_def sample_request_def protocol_version_def
        maximum_reason_size_def slice_elems_def)
qed

lemma sample_marked: "has_prefix (trim_space sample_comment) (trim_space request_marker)"
proof (rule ccontr)
  assume n: "\<not> has_prefix (trim_space sample_comment) (trim_space request_marker)"
  have "\<exists>e. parse_request_comment sample_comment = Inl e"
    unfolding parse_request_comment_def Let_def if_P [OF n] by (cases "max_comment_bytes < int (length sample_comment)") simp_all
  with sample_parsed show False by simp
qed

lemma sample_taken_ok: "session_ok sample_taken"
proof -
  have "se_validate 0 (s\<lparr>se_seen := x, se_inflight := y\<rparr>) = se_validate 0 s" for s x y
    unfolding se_validate_def by (cases s) (simp only: session.select_convs session.update_convs)
  then show ?thesis using sample_session_ok by (simp only: session_ok_def begin_inflight_def mark_seen_def)
qed

lemma sample_loads: "st_load_all (entries_of (rl_files sample_relay)) (dir_of (rl_files sample_relay)) = Inr [sample_session]"
proof -
  have "session_name (session_file_of (se_id sample_session))" by code_simp
  then show ?thesis
    using sample_session_ok unfolding session_ok_def
    by (simp add: st_load_all_def entries_of_def sample_relay_def sort_by_def dir_of_def load_session_file_def sample_session_ok)
qed

lemma sample_turn:
  "comment_turn sample_config sample_port 5 sample_mail sample_session sample_relay =
     Some (Return (sample_relay\<lparr>rl_files := [(session_file_of (se_id sample_session), sample_taken)],
         rl_trace := [Ev_Save sample_taken None, Ev_Submit 5 sample_taken (command_of (sample_request\<lparr>rr_mac := sample_code\<rparr>))]\<rparr>,
       sample_taken, Some (Err_Msg (agent_error_text (AE_Http 500 [])))))"
proof -
  let ?req = "sample_request\<lparr>rr_mac := sample_code\<rparr>"
  define st1 where "st1 = sample_relay\<lparr>rl_files := [(session_file_of (se_id sample_session), sample_taken)], rl_trace := [Ev_Save sample_taken None]\<rparr>"
  have id: "se_id sample_taken = se_id sample_session" by (simp add: begin_inflight_def mark_seen_def)
  have sv: "save sample_port sample_taken sample_relay = (st1, None)"
    using st_save_ok [of sample_taken None "rl_files sample_relay"] sample_taken_ok
    by (simp add: save_def ask_def timed_port_def sample_answers_def st1_def note_event_def id session_file_of_def sample_relay_def)
  have tb: "verify_transport_binding sample_port sample_session sample_relay = (sample_relay, sample_session, None)"
    by (simp add: verify_transport_binding_def ask_def timed_port_def sample_answers_def sample_session_def sample_relay_def)
  have sb: "submit_loop sample_config sample_port sample_taken ?req st1 =
      Some (note_event (Ev_Submit 5 sample_taken (command_of ?req)) st1, sample_taken, Some (Err_Msg (agent_error_text (AE_Http 500 []))))"
    by (subst submit_loop.simps)
      (simp add: ask_def timed_port_def sample_answers_def note_event_def st1_def sample_relay_def begin_inflight_def mark_seen_def
        sample_session_def is_agent_http_status_def)
  have ra: "resume_authorized sample_config sample_port sample_taken
      \<lparr>in_comment_id = gc_id sample_mail, in_body_hash = body_sha256 (gc_body sample_mail), in_request = ?req, in_job_id = []\<rparr> st1 =
      submit_loop sample_config sample_port sample_taken ?req st1"
    by (simp add: resume_authorized_def recover_request_def ask_def timed_port_def sample_answers_def st1_def is_agent_http_status_def)
  have fl: "se_inflight sample_taken = Some \<lparr>in_comment_id = gc_id sample_mail, in_body_hash = body_sha256 (gc_body sample_mail), in_request = ?req, in_job_id = []\<rparr>"
    by (simp add: begin_inflight_def)
  have tk: "se_grant_id sample_taken = ''grant-1''" "se_target sample_taken = ''web-1''" "se_expires_at sample_taken = 1000"
    by (simp_all add: begin_inflight_def mark_seen_def sample_session_def)
  have ri: "resume_inflight sample_config sample_port sample_taken st1 = submit_loop sample_config sample_port sample_taken ?req st1"
    unfolding resume_inflight_def fl option.case ra [symmetric]
    by (simp add: ask_def timed_port_def sample_answers_def st1_def sample_relay_def tk)
  have tc: "take_comment sample_config sample_port sample_mail sample_session ?req sample_relay =
      Some (note_event (Ev_Submit 5 sample_taken (command_of ?req)) st1, sample_taken, Some (Err_Msg (agent_error_text (AE_Http 500 []))))"
    unfolding take_comment_def tb prod.case option.case Let_def sv ri sb ..
  have a: "ask (rp_canceled sample_port) sample_relay = (sample_relay, None)"
    by (simp add: ask_def timed_port_def sample_answers_def)
  have k: "\<not> str_contains sample_comment (se_secret sample_session)"
    by (rule str_contains_hd) (use sample_no_tab in \<open>simp_all add: sample_session_def\<close>)
  have m: "gc_body sample_mail = sample_comment" "gu_id (gc_user sample_mail) = se_actor_id sample_session"
    "gc_created_at sample_mail = gc_updated_at sample_mail" "map_of (se_seen sample_session) (dec_int (gc_id sample_mail)) = None"
    "rr_session_id ?req = se_id sample_session"
    by (simp_all add: sample_mail_def sample_session_def sample_request_def)
  have "note_event (Ev_Submit 5 sample_taken (command_of ?req)) st1 =
      sample_relay\<lparr>rl_files := [(session_file_of (se_id sample_session), sample_taken)],
         rl_trace := [Ev_Save sample_taken None, Ev_Submit 5 sample_taken (command_of ?req)]\<rparr>"
    by (simp add: note_event_def st1_def)
  then show ?thesis
    unfolding comment_turn_def a prod.case option.case m(1,4) if_not_P [OF k] sample_parsed sum.case
    by (simp add: m sample_marked sample_valid tc)
qed

definition sample_after :: "time relay" where
  "sample_after = sample_relay\<lparr>rl_files := [(session_file_of (se_id sample_session), sample_taken)],
     rl_trace := [Ev_Save sample_taken None, Ev_Submit 5 sample_taken (command_of (sample_request\<lparr>rr_mac := sample_code\<rparr>))]\<rparr>"

lemma sample_poll: "relay_run_once sample_config sample_port sample_relay = Some (sample_after, [Err_Msg (agent_error_text (AE_Http 500 []))])"
proof -
  have c: "ask (rp_comments sample_port (se_repository sample_session) (se_issue_number sample_session) (se_etag sample_session)) sample_relay
      = (sample_relay, Inr ([sample_mail], [], False))"
    by (simp add: ask_def timed_port_def sample_answers_def)
  have n: "ask (rp_now sample_port) sample_relay = (sample_relay, 5)" by (simp add: ask_def timed_port_def sample_relay_def)
  have pc: "poll_comments sample_config sample_port 5 sample_session sample_relay =
      Some (sample_after, sample_taken, Some (Err_Msg (agent_error_text (AE_Http 500 []))))"
    unfolding poll_comments_def c prod.case sum.case comment_loop.simps sample_turn option.case turn.case sample_after_def by simp
  have ps: "process_session sample_config sample_port sample_session sample_relay = poll_comments sample_config sample_port 5 sample_session sample_relay"
    unfolding process_session_def n prod.case by (simp add: sample_session_def)
  show ?thesis unfolding relay_run_once_def
    by (simp add: sample_loads ps pc) (simp add: sample_relay_def)
qed

lemma sample_reach: "relay_reach sample_relay sample_after"
  by (rule relay_reach.poll [OF relay_reach.start sample_poll])

lemma sample_stored: "map_of (rl_files sample_relay) (session_file_of (se_id sample_session)) = Some sample_session"
  by (simp add: sample_relay_def)

theorem relay_poll_refines_witness:
  "files_inv (rl_files sample_relay) \<and> relay_run_once sample_config sample_port sample_relay = Some (sample_after, [Err_Msg (agent_error_text (AE_Http 500 []))])
   \<and> (\<exists>tr. rl_trace sample_after = rl_trace sample_relay @ tr \<and> spec_run (rl_files sample_relay) tr (rl_files sample_after))"
  using relay_poll_refines [OF _ sample_poll] sample_poll sample_fresh unfolding fresh_relay_def by blast


theorem relay_submits_authorized_witness:
  "Ev_Submit 5 sample_taken (command_of (sample_request\<lparr>rr_mac := sample_code\<rparr>)) \<in> set (rl_trace sample_after)
   \<and> (\<exists>s0 req. map_of (rl_files sample_relay) (session_file_of (se_id sample_taken)) = Some s0 \<and> se_capability sample_taken = se_capability s0
        \<and> 5 < se_expires_at s0 \<and> command_of (sample_request\<lparr>rr_mac := sample_code\<rparr>) = command_of req \<and> request_in_scope s0 req)"
proof -
  have e: "Ev_Submit 5 sample_taken (command_of (sample_request\<lparr>rr_mac := sample_code\<rparr>)) \<in> set (rl_trace sample_after)"
    by (simp add: sample_after_def)
  from relay_submits_authorized [OF sample_fresh sample_reach e] e show ?thesis by blast
qed


end
