(* ===== verification/Mcp_Journal.thy ===== *)
theory Mcp_Journal
  imports Go_Strings Transition_System
begin

text \<open>
  The operation journal of the MCP adapter (\<open>internal/mcpadapter/journal.go\<close>): every operation, with the request identifiers of its steps, is
  written to a file before anything is submitted, and is never changed. As for the other stores, the file holds the value that its JSON text
  stands for. \<open>cloneOperation\<close> is the identity on values.
\<close>

section \<open>Data\<close>

record op_step =
  sp_request_id :: string
  sp_argv :: "string list"
  sp_timeout_seconds :: int

datatype op_kind = Op_Exec | Op_Batch | Op_Code | Op_Kind string  \<comment> \<open>the last: any other text\<close>

record operation =
  op_id :: string
  op_session_id :: string
  op_kind :: op_kind
  op_target :: string
  op_parallel :: bool
  op_steps :: "op_step list"
  op_created_at :: time

record journal =
  jo_operations :: "(string \<times> operation) list"
  jo_disk :: "operation list option"

text \<open>What \<open>OpenFileJournal\<close> finds at its path.\<close>

datatype journal_file =
    Jf_Missing | Jf_Stat_Error | Jf_Irregular | Jf_Group_Access | Jf_Read_Error | Jf_Empty | Jf_Undecodable
  | Jf_Content int "operation list"

datatype journal_error = Je_Operation_Not_Found | Je_Session_Mismatch

section \<open>Operations\<close>

fun validate_steps :: "op_step list \<Rightarrow> err option" where
  "validate_steps [] = None"
| "validate_steps (s # ss) =
     (if trim_space (sp_request_id s) = [] \<or> 128 < length (sp_request_id s) then Some (Err_Msg ''step has invalid request id'')
      else if sp_argv s = [] \<or> trim_space (hd (sp_argv s)) = [] then Some (Err_Msg ''step has invalid argv'')
      else if sp_timeout_seconds s < 0 \<or> 900 < sp_timeout_seconds s then Some (Err_Msg ''step timeout must be 0..900 seconds'')
      else validate_steps ss)"

definition validate_operation :: "operation \<Rightarrow> err option" where
  "validate_operation op =
     (if trim_space (op_id op) = [] \<or> \<not> has_prefix (op_id op) ''op-'' \<or> 128 < length (op_id op)
      then Some (Err_Msg ''valid operation id is required'')
      else if trim_space (op_session_id op) = [] \<or> 128 < length (op_session_id op)
      then Some (Err_Msg ''valid capability session id is required'')
      else if trim_space (op_target op) = [] \<or> 256 < length (op_target op) then Some (Err_Msg ''valid target is required'')
      else if op_kind op \<noteq> Op_Exec \<and> op_kind op \<noteq> Op_Batch \<and> op_kind op \<noteq> Op_Code then Some (Err_Msg ''unsupported operation kind'')
      else if op_steps op = [] then Some (Err_Msg ''operation must contain at least one step'')
      else if op_kind op \<noteq> Op_Batch \<and> length (op_steps op) \<noteq> 1
      then Some (Err_Msg ''non-batch operation must contain exactly one step'')
      else (case validate_steps (op_steps op) of
          Some e \<Rightarrow> Some e
        | None \<Rightarrow> if op_created_at op = 0 then Some (Err_Msg ''operation creation time is required'') else None))"

fun jo_load :: "operation list \<Rightarrow> (string \<times> operation) list \<Rightarrow> err + (string \<times> operation) list" where
  "jo_load [] ops = Inr ops"
| "jo_load (op # rest) ops =
     (case validate_operation op of
        Some e \<Rightarrow> Inl e
      | None \<Rightarrow>
          if map_of ops (op_id op) \<noteq> None then Inl (Err_Msg ''duplicate MCP operation id'')
          else jo_load rest (AList.update (op_id op) op ops))"

definition jo_open :: "string \<Rightarrow> journal_file \<Rightarrow> err + journal" where
  "jo_open path file =
     (if trim_space path = [] then Inl (Err_Msg ''MCP journal path is required'')
      else (case file of
          Jf_Missing \<Rightarrow> Inr \<lparr>jo_operations = [], jo_disk = None\<rparr>
        | Jf_Stat_Error \<Rightarrow> Inl Err_IO
        | Jf_Irregular \<Rightarrow> Inl (Err_Msg ''MCP journal must be a regular non-symlink file'')
        | Jf_Group_Access \<Rightarrow> Inl (Err_Msg ''MCP journal must not be group/other accessible'')
        | Jf_Read_Error \<Rightarrow> Inl Err_IO
        | Jf_Empty \<Rightarrow> Inl (Err_Msg ''MCP journal is empty'')
        | Jf_Undecodable \<Rightarrow> Inl Err_IO
        | Jf_Content version ops \<Rightarrow>
            if version \<noteq> 1 then Inl (Err_Msg ''unsupported MCP journal version'')
            else (case jo_load ops [] of Inl e \<Rightarrow> Inl e | Inr m \<Rightarrow> Inr \<lparr>jo_operations = m, jo_disk = Some ops\<rparr>)))"

definition jo_persist :: "fs_fault \<Rightarrow> journal \<Rightarrow> journal \<times> err option" where
  "jo_persist fault j =
     (case atomic_replace fault (jo_disk j) (Some (map snd (sort_by (\<lambda>a b. str_less (fst a) (fst b)) (jo_operations j)))) of
        (d, e) \<Rightarrow> (j\<lparr>jo_disk := d\<rparr>, e))"

definition jo_create :: "operation \<Rightarrow> fs_fault \<Rightarrow> journal \<Rightarrow> journal \<times> err option" where
  "jo_create op fault j =
     (case validate_operation op of
        Some e \<Rightarrow> (j, Some e)
      | None \<Rightarrow>
          if map_of (jo_operations j) (op_id op) \<noteq> None then (j, Some (Err_Msg ''MCP operation already exists''))
          else (case jo_persist fault (j\<lparr>jo_operations := AList.update (op_id op) op (jo_operations j)\<rparr>) of
              (j1, Some e) \<Rightarrow> (j1\<lparr>jo_operations := AList.delete (op_id op) (jo_operations j1)\<rparr>, Some e)
            | (j1, None) \<Rightarrow> (j1, None)))"

definition jo_get :: "string \<Rightarrow> string \<Rightarrow> journal \<Rightarrow> journal_error + operation" where
  "jo_get i0 session_id0 j =
     (case map_of (jo_operations j) (trim_space i0) of
        None \<Rightarrow> Inl Je_Operation_Not_Found
      | Some op \<Rightarrow> if op_session_id op \<noteq> trim_space session_id0 then Inl Je_Session_Mismatch else Inr op)"

text \<open>A new process opens the file that the last one left.\<close>

definition jo_file :: "journal \<Rightarrow> journal_file" where
  "jo_file j = (case jo_disk j of None \<Rightarrow> Jf_Missing | Some ops \<Rightarrow> Jf_Content 1 ops)"

section \<open>The interface\<close>

text \<open>
  The contract of the Go interface \<open>Journal\<close>, which the service is written against: what was created is found under its identifier and its
  session, and nothing that is found ever changes or disappears.
\<close>

locale operation_journal =
  fixes create :: "operation \<Rightarrow> fs_fault \<Rightarrow> 'j \<Rightarrow> 'j \<times> err option"
    and get :: "string \<Rightarrow> string \<Rightarrow> 'j \<Rightarrow> journal_error + operation"
    and ok :: "'j \<Rightarrow> bool"
  assumes create_ok: "ok j \<Longrightarrow> ok (fst (create op fault j))"
    and created: "ok j \<Longrightarrow> create op fault j = (j', None) \<Longrightarrow> trim_space (op_id op) = op_id op
      \<Longrightarrow> trim_space (op_session_id op) = op_session_id op \<Longrightarrow> get (op_id op) (op_session_id op) j' = Inr op"
    and kept: "ok j \<Longrightarrow> get i n j = Inr op \<Longrightarrow> get i n (fst (create op' fault j)) = Inr op"
    and got_valid: "ok j \<Longrightarrow> get i n j = Inr op \<Longrightarrow> op_session_id op = trim_space n \<and> validate_operation op = None"
begin

definition creates :: "(operation \<times> fs_fault) list \<Rightarrow> 'j \<Rightarrow> 'j" where
  "creates = fold (\<lambda>(op, fault) j. fst (create op fault j))"

lemma creates_keep: "ok j \<Longrightarrow> get i n j = Inr op \<Longrightarrow> ok (creates xs j) \<and> get i n (creates xs j) = Inr op"
  by (induction xs arbitrary: j) (auto simp: creates_def create_ok kept split: prod.splits)

end

section \<open>The file journal implements it\<close>

abbreviation valid_op :: "operation \<Rightarrow> bool" where "valid_op op \<equiv> validate_operation op = None"

definition jo_ok :: "journal \<Rightarrow> bool" where
  "jo_ok j \<longleftrightarrow> unique_keys (jo_operations j) \<and> (\<forall>kv \<in> set (jo_operations j). op_id (snd kv) = fst kv \<and> valid_op (snd kv))
     \<and> (case jo_disk j of None \<Rightarrow> jo_operations j = [] | Some ops \<Rightarrow> mset ops = mset (map snd (jo_operations j)))"

lemma jo_okD:
  "jo_ok j \<Longrightarrow> unique_keys (jo_operations j)"
  "jo_ok j \<Longrightarrow> map_of (jo_operations j) k = Some op \<Longrightarrow> op_id op = k \<and> valid_op op"
  by (auto simp: jo_ok_def dest!: map_of_SomeD)

lemma jo_load_eq:
  "jo_load ops acc = Inr m \<longleftrightarrow>
     list_all valid_op ops \<and> distinct (map op_id ops) \<and> (\<forall>op \<in> set ops. map_of acc (op_id op) = None)
     \<and> m = acc @ map (\<lambda>op. (op_id op, op)) ops"
proof (induction ops arbitrary: acc)
  case (Cons op ops)
  show ?case
  proof (cases "valid_op op \<and> map_of acc (op_id op) = None")
    case True
    then show ?thesis by (auto simp: Cons update_absent map_add_def rev_image_eqI split: option.splits)
  next
    case False
    then show ?thesis by (auto split: option.splits)
  qed
qed auto

lemma jo_open_ok: "jo_open path file = Inr j \<Longrightarrow> jo_ok j"
  by (auto simp: jo_open_def jo_ok_def jo_load_eq unique_keys_def comp_def list_all_iff
      split: if_splits journal_file.splits sum.splits)

lemma jo_create_eq:
  "jo_create op fault j =
     (case validate_operation op of
        Some e \<Rightarrow> (j, Some e)
      | None \<Rightarrow>
          if map_of (jo_operations j) (op_id op) \<noteq> None then (j, Some (Err_Msg ''MCP operation already exists''))
          else (case fault of
              Some _ \<Rightarrow> (j, Some Err_IO)
            | None \<Rightarrow>
                (let ops = jo_operations j @ [(op_id op, op)] in
                 (\<lparr>jo_operations = ops, jo_disk = Some (map snd (sort_by (\<lambda>a b. str_less (fst a) (fst b)) ops))\<rparr>, None))))"
proof (cases "map_of (jo_operations j) (op_id op)")
  case None
  note [simp] = delete_update_absent [OF None]
  have "j\<lparr>jo_operations := AList.update (op_id op) op (jo_operations j)\<rparr> = \<lparr>jo_operations = jo_operations j @ [(op_id op, op)], jo_disk = jo_disk j\<rparr>"
    by (simp add: update_absent [OF None])
  then show ?thesis
    using None by (auto simp: jo_create_def jo_persist_def Let_def update_absent [symmetric] split: option.splits)
qed (auto simp: jo_create_def split: option.splits)

lemma jo_create_cases:
  obtains (failed) e where "jo_create op fault j = (j, Some e)"
    | (made) j' where "jo_create op fault j = (j', None)" and "valid_op op" and "map_of (jo_operations j) (op_id op) = None"
        and "jo_operations j' = jo_operations j @ [(op_id op, op)]"
        and "jo_disk j' = Some (map snd (sort_by (\<lambda>a b. str_less (fst a) (fst b)) (jo_operations j')))"
proof (cases "valid_op op \<and> map_of (jo_operations j) (op_id op) = None \<and> fault = None")
  case True
  let ?ops = "jo_operations j @ [(op_id op, op)]"
  show ?thesis
    by (rule made [of "\<lparr>jo_operations = ?ops, jo_disk = Some (map snd (sort_by (\<lambda>a b. str_less (fst a) (fst b)) ?ops))\<rparr>"])
      (use True in \<open>simp_all add: jo_create_eq Let_def\<close>)
next
  case False
  then have "\<exists>e. jo_create op fault j = (j, Some e)" by (auto simp: jo_create_eq split: option.split)
  then show ?thesis using failed by blast
qed

lemma jo_create_ok: "jo_ok j \<Longrightarrow> jo_ok (fst (jo_create op fault j))"
proof (cases op fault j rule: jo_create_cases)
  case (made j')
  assume "jo_ok j"
  moreover have "mset (map snd (sort_by (\<lambda>a b. str_less (fst a) (fst b)) (jo_operations j'))) = mset (map snd (jo_operations j'))" by simp
  ultimately show ?thesis using made by (auto simp: jo_ok_def unique_keys_def map_of_eq_None_iff)
qed auto

lemma jo_create_extends: "map_of (jo_operations j) \<subseteq>\<^sub>m map_of (jo_operations (fst (jo_create op fault j)))"
  by (cases op fault j rule: jo_create_cases) (auto simp: map_le_def map_add_Some_iff map_add_def split: option.splits)

lemma jo_get_iff: "jo_get i n j = Inr op \<longleftrightarrow> map_of (jo_operations j) (trim_space i) = Some op \<and> op_session_id op = trim_space n"
  by (auto simp: jo_get_def split: option.splits)

interpretation file_journal: operation_journal jo_create jo_get jo_ok
proof
  fix j j' :: journal and op op' fault i n
  show "jo_ok j \<Longrightarrow> jo_ok (fst (jo_create op fault j))" by (rule jo_create_ok)
  show "jo_get (op_id op) (op_session_id op) j' = Inr op"
    if "jo_create op fault j = (j', None)" "trim_space (op_id op) = op_id op" "trim_space (op_session_id op) = op_session_id op"
    using that by (cases op fault j rule: jo_create_cases) (auto simp: jo_get_iff map_add_def)
  show "jo_get i n (fst (jo_create op' fault j)) = Inr op" if "jo_get i n j = Inr op"
    using that jo_create_extends [of j op' fault] by (auto simp: jo_get_iff map_le_def dom_def)
  show "op_session_id op = trim_space n \<and> valid_op op" if "jo_ok j" "jo_get i n j = Inr op"
    using that jo_okD(2) by (auto simp: jo_get_iff)
qed

section \<open>Restarts\<close>

lemma jo_reopen:
  assumes "jo_ok j" and "trim_space path \<noteq> []"
  obtains j' where "jo_open path (jo_file j) = Inr j'" and "map_of (jo_operations j') = map_of (jo_operations j)" and "jo_ok j'"
    and "jo_disk j' = jo_disk j"
proof (cases "jo_disk j")
  case None
  then have "jo_open path (jo_file j) = Inr \<lparr>jo_operations = [], jo_disk = None\<rparr>" and "jo_operations j = []"
    using assms by (simp_all add: jo_open_def jo_file_def jo_ok_def)
  then show ?thesis using that jo_open_ok None by fastforce
next
  case (Some ops)
  let ?m = "map (\<lambda>op. (op_id op, op)) ops"
  from assms(1) Some have ms: "mset ops = mset (map snd (jo_operations j))" by (simp add: jo_ok_def)
  have mem: "mset ?m = mset (jo_operations j)"
  proof -
    have "mset ?m = image_mset (\<lambda>op. (op_id op, op)) (mset (map snd (jo_operations j)))" by (simp add: ms)
    also have "\<dots> = mset (map (\<lambda>kv. (op_id (snd kv), snd kv)) (jo_operations j))" by (simp add: image_mset.compositionality comp_def)
    also have "map (\<lambda>kv. (op_id (snd kv), snd kv)) (jo_operations j) = jo_operations j"
      using assms(1) by (intro map_idI) (auto simp: jo_ok_def)
    finally show ?thesis .
  qed
  have uk: "unique_keys ?m" and mo: "map_of (jo_operations j) = map_of ?m"
    using map_of_perm [OF jo_okD(1) [OF assms(1)] mem [symmetric]] by simp_all
  have "set ops = snd ` set (jo_operations j)" using ms by (metis list.set_map set_mset_mset)
  then have "list_all valid_op ops" using assms(1) by (auto simp: list_all_iff jo_ok_def)
  moreover have "distinct (map op_id ops)" using uk by (simp add: unique_keys_def comp_def)
  ultimately have "jo_load ops [] = Inr ?m" by (simp add: jo_load_eq)
  then have "jo_open path (jo_file j) = Inr \<lparr>jo_operations = ?m, jo_disk = Some ops\<rparr>"
    using assms(2) Some by (simp add: jo_open_def jo_file_def)
  then show ?thesis using that jo_open_ok mo Some by fastforce
qed

inductive jo_step :: "journal \<Rightarrow> journal \<Rightarrow> bool" where
  Jo_Create: "jo_step j (fst (jo_create op fault j))"
| Jo_Restart: "jo_open path (jo_file j) = Inr j' \<Longrightarrow> jo_step j j'"

definition jo_grown :: "journal \<Rightarrow> journal \<Rightarrow> bool" where
  "jo_grown j k \<longleftrightarrow> map_of (jo_operations j) \<subseteq>\<^sub>m map_of (jo_operations k)"

interpretation jo_run: monotone_under jo_step jo_ok jo_grown
proof
  fix j k l
  show "jo_ok k" if "jo_step j k" "jo_ok j" using that by cases (auto intro: jo_create_ok jo_open_ok)
  show "jo_grown j j" by (simp add: jo_grown_def)
  show "jo_grown j l" if "jo_grown j k" "jo_grown k l" using that by (auto simp: jo_grown_def intro: map_le_trans)
  show "jo_grown j k" if "jo_ok j" "jo_step j k"
    using that(2)
  proof cases
    case (Jo_Restart path)
    then have "trim_space path \<noteq> []" by (auto simp: jo_open_def split: if_splits)
    with jo_reopen [OF that(1)] Jo_Restart show ?thesis by (metis Inr_inject jo_grown_def map_le_refl)
  qed (auto simp: jo_grown_def jo_create_extends)
qed

text \<open>
  C17. The journal of the MCP adapter is a write-ahead log: once \<open>Create\<close> has returned without an error, whatever is created later, whichever writes
  fail and however often the process restarts, the operation is found unchanged under its identifier and its session, and no
  other session finds it; and the file can always be opened again, with the same answer.
\<close>

theorem journal_durable:
  assumes "jo_open path0 file = Inr j" and "jo_step\<^sup>*\<^sup>* j k" and "jo_create op fault k = (l, None)" and "jo_step\<^sup>*\<^sup>* l m"
    and "trim_space (op_id op) = op_id op" and "trim_space (op_session_id op) = op_session_id op" and "trim_space path \<noteq> []"
  shows "jo_get (op_id op) (op_session_id op) m = Inr op
    \<and> (trim_space other \<noteq> op_session_id op \<longrightarrow> jo_get (op_id op) other m = Inl Je_Session_Mismatch)
    \<and> (\<exists>n. jo_open path (jo_file m) = Inr n \<and> jo_get (op_id op) (op_session_id op) n = Inr op)"
proof -
  have "jo_ok k" using jo_run.inv.steps_keep [OF assms(2) jo_open_ok [OF assms(1)]] .
  then have l: "jo_ok l" and got: "jo_get (op_id op) (op_session_id op) l = Inr op"
    using file_journal.create_ok [of k op fault] file_journal.created [OF _ assms(3,5,6)] by (simp_all add: assms(3))
  have "jo_grown l m" using jo_run.steps_rel [OF assms(4) l] .
  with got have m: "map_of (jo_operations m) (op_id op) = Some op" by (auto simp: jo_get_iff jo_grown_def map_le_def dom_def assms(5))
  have "jo_ok m" using jo_run.inv.steps_keep [OF assms(4) l] .
  then obtain n where "jo_open path (jo_file m) = Inr n" "map_of (jo_operations n) = map_of (jo_operations m)"
    using jo_reopen assms(7) by metis
  with m show ?thesis by (auto simp: jo_get_iff jo_get_def assms(5,6))
qed

definition sample_op :: operation where
  "sample_op = \<lparr>op_id = ''op-1'', op_session_id = ''g1'', op_kind = Op_Exec, op_target = ''web'', op_parallel = False,
     op_steps = [\<lparr>sp_request_id = ''req-1'', sp_argv = [''uptime''], sp_timeout_seconds = 30\<rparr>], op_created_at = 7\<rparr>"

theorem journal_durable_witness:
  "\<exists>l m. jo_create sample_op None \<lparr>jo_operations = [], jo_disk = None\<rparr> = (l, None)
     \<and> jo_create (sample_op\<lparr>op_id := ''op-2''\<rparr>) (Some Write_temp) l = (m, Some Err_IO)
     \<and> jo_get ''op-1'' ''g1'' m = Inr sample_op \<and> jo_get ''op-1'' ''g2'' m = Inl Je_Session_Mismatch"
proof -
  let ?e = "\<lparr>jo_operations = [], jo_disk = None\<rparr>"
  let ?l = "\<lparr>jo_operations = [(''op-1'', sample_op)], jo_disk = Some [sample_op]\<rparr>"
  have o: "jo_open ''j'' Jf_Missing = Inr ?e" by code_simp
  have c: "jo_create sample_op None ?e = (?l, None)" by code_simp
  have d: "jo_create (sample_op\<lparr>op_id := ''op-2''\<rparr>) (Some Write_temp) ?l = (?l, Some Err_IO)" by code_simp
  have "jo_step ?l ?l" using Jo_Create [of ?l "sample_op\<lparr>op_id := ''op-2''\<rparr>" "Some Write_temp"] by (simp only: d fst_conv)
  then have s: "jo_step\<^sup>*\<^sup>* ?l ?l" by blast
  have i: "op_id sample_op = ''op-1''" "op_session_id sample_op = ''g1''" by (simp_all add: sample_op_def)
  have tr: "trim_space ''op-1'' = ''op-1''" "trim_space ''g1'' = ''g1''" "trim_space ''g2'' = ''g2''" "trim_space ''j'' \<noteq> []"
    by code_simp+
  show ?thesis
    using journal_durable [OF o rtranclp.rtrancl_refl c s, unfolded i, OF tr(1,2,4), of "''g2''"] c d tr(3) by auto
qed

end
