(* ===== verification/Mcp_Output.thy ===== *)
theory Mcp_Output
  imports Go_JSON_Decode
begin

text \<open>
  What the MCP adapter shows of captured output (\<open>internal/mcpadapter/output.go\<close>): a text without control characters, within a budget, cut
  between runes, with a flag for anything that is left out.
\<close>

section \<open>Safe text\<close>

text \<open>The value of the rune that a valid encoding holds.\<close>

fun rune_value :: "string \<Rightarrow> nat" where
  "rune_value [a] = of_char a"
| "rune_value [a, b] = (of_char a - 0xC0) * 64 + (of_char b - 0x80)"
| "rune_value [a, b, c] = (of_char a - 0xE0) * 4096 + (of_char b - 0x80) * 64 + (of_char c - 0x80)"
| "rune_value [a, b, c, d] = (of_char a - 0xF0) * 262144 + (of_char b - 0x80) * 4096 + (of_char c - 0x80) * 64 + (of_char d - 0x80)"
| "rune_value _ = 0xFFFD"

definition is_control :: "nat \<Rightarrow> bool" where
  "is_control r \<longleftrightarrow> r < 0x20 \<or> (0x7F \<le> r \<and> r < 0xA0)"

text \<open>The category \<open>Cf\<close> of Unicode 15.\<close>

definition format_ranges :: "(nat \<times> nat) list" where
  "format_ranges =
     [(0xAD, 0xAD), (0x600, 0x605), (0x61C, 0x61C), (0x6DD, 0x6DD), (0x70F, 0x70F), (0x890, 0x891), (0x8E2, 0x8E2), (0x180E, 0x180E),
      (0x200B, 0x200F), (0x202A, 0x202E), (0x2060, 0x2064), (0x2066, 0x206F), (0xFEFF, 0xFEFF), (0xFFF9, 0xFFFB), (0x110BD, 0x110BD),
      (0x110CD, 0x110CD), (0x13430, 0x1343F), (0x1BCA0, 0x1BCA3), (0x1D173, 0x1D17A), (0xE0001, 0xE0001), (0xE0020, 0xE007F)]"

definition is_format :: "nat \<Rightarrow> bool" where
  "is_format r \<longleftrightarrow> list_ex (\<lambda>(a, b). a \<le> r \<and> r \<le> b) format_ranges"

text \<open>\<open>%0wx\<close>: the digits of a number below \<open>16 ^ w\<close>.\<close>

fun hex_digits :: "nat \<Rightarrow> nat \<Rightarrow> string" where
  "hex_digits 0 r = []"
| "hex_digits (Suc w) r = hex_digits w (r div 16) @ [hex_digit (r mod 16)]"

definition escape_rune :: "nat \<Rightarrow> string" where
  "escape_rune r =
     (if r \<le> 0xFF then CHR 0x5C # CHR ''x'' # hex_digits 2 r
      else if r \<le> 0xFFFF then CHR 0x5C # CHR ''u'' # hex_digits 4 r
      else CHR 0x5C # CHR ''U'' # hex_digits 8 r)"

function safe_text :: "string \<Rightarrow> string" where
  "safe_text [] = []"
| "safe_text (c # s) =
     (case utf8_size (c # s) of
        0 \<Rightarrow> (CHR 0x5C # CHR ''x'' # hex_digits 2 (of_char c)) @ safe_text s
      | Suc n \<Rightarrow>
          (let u = c # take n s; r = rune_value u in
           (if r = 0x0A \<or> r = 0x09 then u
            else if is_control r \<or> is_format r then escape_rune r
            else u) @ safe_text (drop n s)))"
  by pat_completeness auto
termination by (relation "measure length") auto

declare safe_text.simps(2) [simp del]

section \<open>Cutting\<close>

definition rune_start :: "char \<Rightarrow> bool" where
  "rune_start c \<longleftrightarrow> \<not> (0x80 \<le> (of_char c :: nat) \<and> (of_char c :: nat) < 0xC0)"

text \<open>The two loops that move a cut to a rune boundary.\<close>

fun back_to_start :: "string \<Rightarrow> nat \<Rightarrow> nat \<Rightarrow> nat" where
  "back_to_start text stop 0 = 0"
| "back_to_start text stop (Suc e) =
     (if stop < Suc e \<and> Suc e < length text \<and> \<not> rune_start (text ! Suc e) then back_to_start text stop e else Suc e)"

function forward_to_start :: "string \<Rightarrow> nat \<Rightarrow> nat \<Rightarrow> nat" where
  "forward_to_start text stop i = (if i < stop \<and> \<not> rune_start (text ! i) then forward_to_start text stop (Suc i) else i)"
  by pat_completeness auto
termination by (relation "measure (\<lambda>(text, stop, i). stop - i)") auto

declare forward_to_start.simps [simp del]

definition prefix_bytes :: "string \<Rightarrow> int \<Rightarrow> string" where
  "prefix_bytes text max_bytes =
     (if max_bytes \<le> 0 then []
      else if int (length text) \<le> max_bytes then text
      else take (back_to_start text 0 (nat max_bytes)) text)"

definition suffix_bytes :: "string \<Rightarrow> int \<Rightarrow> string" where
  "suffix_bytes text max_bytes =
     (if max_bytes \<le> 0 then []
      else if int (length text) \<le> max_bytes then text
      else drop (forward_to_start text (length text) (length text - nat max_bytes)) text)"

definition omitted_marker :: string where
  "omitted_marker = [CHR 0x0A] @ ''... output omitted ...'' @ [CHR 0x0A]"

definition head_tail :: "string \<Rightarrow> int \<Rightarrow> string \<times> bool" where
  "head_tail text max_bytes =
     (if max_bytes \<le> 0 then ([], text \<noteq> [])
      else if int (length text) \<le> max_bytes then (text, False)
      else if max_bytes \<le> int (length omitted_marker) then (prefix_bytes text max_bytes, True)
      else
        (let remaining = max_bytes - int (length omitted_marker); head_budget = remaining div 2; tail_budget = remaining - head_budget in
         (prefix_bytes text head_budget @ omitted_marker @ suffix_bytes text tail_budget, True)))"

fun str_index :: "string \<Rightarrow> string \<Rightarrow> nat option" where
  "str_index [] query = (if query = [] then Some 0 else None)"
| "str_index (c # s) query = (if prefix query (c # s) then Some 0 else map_option Suc (str_index s query))"

definition byte_start :: "string \<Rightarrow> nat \<Rightarrow> int \<Rightarrow> nat" where
  "byte_start text center budget =
     (if budget \<le> 0 \<or> center = 0 then center
      else forward_to_start text center (center - nat budget))"

definition byte_end :: "string \<Rightarrow> nat \<Rightarrow> int \<Rightarrow> nat" where
  "byte_end text center budget =
     (if budget \<le> 0 \<or> length text \<le> center then center
      else back_to_start text center (min (center + nat budget) (length text)))"

definition marker_prefix :: string where "marker_prefix = ''... earlier output omitted ...'' @ [CHR 0x0A]"
definition marker_suffix :: string where "marker_suffix = [CHR 0x0A] @ ''... later output omitted ...''"

definition query_excerpt :: "string \<Rightarrow> string \<Rightarrow> int \<Rightarrow> string \<times> bool" where
  "query_excerpt text query max_bytes =
     (if max_bytes \<le> 0 then ([], text \<noteq> [])
      else if int (length text) \<le> max_bytes then (text, False)
      else (case str_index text query of
          None \<Rightarrow> head_tail text max_bytes
        | Some idx \<Rightarrow>
            (let marker_bytes = int (length marker_prefix) + int (length marker_suffix) in
             if max_bytes \<le> marker_bytes then (prefix_bytes (drop idx text) max_bytes, True)
             else
               (let budget = max_bytes - marker_bytes; before_budget = budget div 2; after_budget = budget - before_budget;
                    start = byte_start text idx before_budget; finish = byte_end text (idx + length query) after_budget;
                    result = (if 0 < start then marker_prefix else []) @ take (finish - start) (drop start text)
                      @ (if finish < length text then marker_suffix else []) in
                (if max_bytes < int (length result) then prefix_bytes result max_bytes else result, 0 < start \<or> finish < length text)))))"

section \<open>Rendering\<close>

record rendered_streams =
  rd_stdout :: string
  rd_stderr :: string
  rd_stdout_truncated :: bool
  rd_stderr_truncated :: bool

definition exec_preview_bytes :: int where "exec_preview_bytes = 8192"
definition batch_preview_bytes :: int where "batch_preview_bytes = 2048"
definition output_read_bytes :: int where "output_read_bytes = 12288"

definition bounded_safe_text :: "string \<Rightarrow> int \<Rightarrow> string \<times> bool" where
  "bounded_safe_text data max_bytes = head_tail (safe_text data) max_bytes"

definition render_preview :: "string \<Rightarrow> string \<Rightarrow> bool \<Rightarrow> bool \<Rightarrow> int \<Rightarrow> rendered_streams" where
  "render_preview stdout stderr stdout_cut stderr_cut per_stream =
     (let (o1, ot) = bounded_safe_text stdout per_stream; (e1, et) = bounded_safe_text stderr per_stream in
      \<lparr>rd_stdout = o1, rd_stderr = e1, rd_stdout_truncated = stdout_cut \<or> ot, rd_stderr_truncated = stderr_cut \<or> et\<rparr>)"

definition split_budget :: "string \<Rightarrow> string \<Rightarrow> int \<Rightarrow> int \<times> int" where
  "split_budget stdout stderr budget =
     (if stdout = [] \<and> stderr = [] then (0, 0)
      else if stderr = [] then (budget, 0)
      else if stdout = [] then (0, budget)
      else (budget div 2, budget - budget div 2))"

definition render_output :: "string \<Rightarrow> string \<Rightarrow> bool \<Rightarrow> bool \<Rightarrow> string \<Rightarrow> rendered_streams" where
  "render_output stdout stderr stdout_cut stderr_cut query0 =
     (let stdout_text = safe_text stdout; stderr_text = safe_text stderr; query = trim_space query0;
          (ob, eb) = split_budget stdout_text stderr_text output_read_bytes;
          (o1, ot) = (if query \<noteq> [] then query_excerpt stdout_text query ob else head_tail stdout_text ob);
          (e1, et) = (if query \<noteq> [] then query_excerpt stderr_text query eb else head_tail stderr_text eb) in
      \<lparr>rd_stdout = o1, rd_stderr = e1, rd_stdout_truncated = stdout_cut \<or> ot, rd_stderr_truncated = stderr_cut \<or> et\<rparr>)"

section \<open>Nothing but visible characters\<close>

definition visible :: "char \<Rightarrow> bool" where
  "visible c \<longleftrightarrow> c = CHR 0x0A \<or> c = CHR 0x09 \<or> (0x20 \<le> (of_char c :: nat) \<and> (of_char c :: nat) \<noteq> 0x7F)"

lemma hex_digits_visible: "list_all visible (hex_digits w r)"
proof -
  have "visible c" if "id_char c" for c using that by (auto simp: visible_def id_char_def Let_def)
  then show ?thesis by (induction w arbitrary: r) simp_all
qed

lemma backslash_visible [simp]: "visible (CHR 0x5C)" "visible (CHR ''x'')" "visible (CHR ''u'')" "visible (CHR ''U'')"
  by (simp_all add: visible_def)

lemma escape_rune_visible: "list_all visible (escape_rune r)"
  using hex_digits_visible by (simp add: escape_rune_def del: hex_digits.simps)

lemma of_char_blank: "(of_char c :: nat) = 10 \<Longrightarrow> c = CHR 0x0A" "(of_char c :: nat) = 9 \<Longrightarrow> c = CHR 0x09"
proof -
  have "(10 :: nat) = of_char (CHR 0x0A)" "(9 :: nat) = of_char (CHR 0x09)" by simp_all
  then show "(of_char c :: nat) = 10 \<Longrightarrow> c = CHR 0x0A" "(of_char c :: nat) = 9 \<Longrightarrow> c = CHR 0x09" by (metis of_char_eq_iff)+
qed

lemma safe_text_visible: "list_all visible (safe_text s)"
proof (induction s rule: safe_text.induct)
  case (2 c s)
  show ?case
  proof (cases "utf8_size (c # s)")
    case 0
    with 2(1) hex_digits_visible show ?thesis by (simp add: safe_text.simps(2) del: hex_digits.simps)
  next
    case (Suc n)
    let ?u = "c # take n s"
    note IH = 2(2) [OF Suc]
    have u: "list_all visible ?u" if "\<not> is_control (rune_value ?u) \<or> rune_value ?u = 0x0A \<or> rune_value ?u = 0x09"
    proof (cases "(of_char c :: nat) < 0x80")
      case True
      then have "n = 0" using Suc by (simp add: utf8_size_ascii)
      with that True show ?thesis by (auto simp: visible_def is_control_def dest: of_char_blank)
    next
      case False
      then show ?thesis using utf8_size_multi(3) [OF Suc] by (auto simp: list_all_iff visible_def)
    qed
    show ?thesis using IH u escape_rune_visible by (auto simp: safe_text.simps(2) Suc Let_def)
  qed
qed simp

lemma list_all_take_drop: "list_all P s \<Longrightarrow> list_all P (take n s) \<and> list_all P (drop n s)"
  by (auto simp: list_all_iff dest: in_set_takeD in_set_dropD)

lemma prefix_bytes_visible: "list_all visible s \<Longrightarrow> list_all visible (prefix_bytes s m)"
  using list_all_take_drop by (auto simp: prefix_bytes_def)

lemma head_tail_visible: "list_all visible s \<Longrightarrow> list_all visible (fst (head_tail s m))"
  using list_all_take_drop
  by (auto simp: head_tail_def Let_def suffix_bytes_def omitted_marker_def prefix_bytes_visible) (simp_all add: visible_def)

lemma query_excerpt_visible:
  assumes "list_all visible s"
  shows "list_all visible (fst (query_excerpt s q m))"
proof -
  have mk: "list_all visible marker_prefix" "list_all visible marker_suffix"
    by (simp_all add: marker_prefix_def marker_suffix_def visible_def)
  have td: "list_all visible (take i (drop j s))" "list_all visible (drop j s)" for i j using list_all_take_drop assms by blast+
  define body where "body i j k = (if 0 < i then marker_prefix else []) @ take (j - i) (drop i s) @ (if j < k then marker_suffix else [])" for i j k :: nat
  have "list_all visible (body i j k)" for i j k using mk td by (simp add: body_def)
  with assms head_tail_visible [OF assms] td show ?thesis
    unfolding query_excerpt_def Let_def body_def [symmetric] by (auto intro!: prefix_bytes_visible split: option.split)
qed

section \<open>Within the budget\<close>

lemma back_to_start_le: "back_to_start text stop e \<le> e"
  by (induction e) (auto intro: le_SucI)

lemma forward_to_start_ge: "i \<le> forward_to_start s stop i"
proof (induction s stop i rule: forward_to_start.induct)
  case (1 s stop i)
  then show ?case by (subst forward_to_start.simps) (auto intro: Suc_leD)
qed

lemma length_prefix_bytes: "int (length (prefix_bytes s m)) \<le> max 0 m"
  using back_to_start_le [of s 0 "nat m"] by (auto simp: prefix_bytes_def)

lemma length_suffix_bytes: "int (length (suffix_bytes s m)) \<le> max 0 m"
  using forward_to_start_ge [of "length s - nat m" s "length s"] by (auto simp: suffix_bytes_def)

lemma length_head_tail: "int (length (fst (head_tail s m))) \<le> max 0 m"
proof (cases "m \<le> 0 \<or> int (length s) \<le> m \<or> m \<le> int (length omitted_marker)")
  case True
  then show ?thesis using length_prefix_bytes [of s m] by (auto simp: head_tail_def)
next
  case False
  define r where "r = m - int (length omitted_marker)"
  have "0 < r" using False by (simp add: r_def)
  then have "0 \<le> r div 2" "0 \<le> r - r div 2" by auto
  moreover have "fst (head_tail s m) = prefix_bytes s (r div 2) @ omitted_marker @ suffix_bytes s (r - r div 2)"
    using False by (simp add: head_tail_def Let_def r_def)
  ultimately show ?thesis
    using length_prefix_bytes [of s "r div 2"] length_suffix_bytes [of s "r - r div 2"] by (simp add: r_def)
qed

lemma length_query_excerpt: "int (length (fst (query_excerpt s q m))) \<le> max 0 m"
proof -
  define body where "body i j = (if 0 < i then marker_prefix else []) @ take (j - i) (drop i s) @ (if j < length s then marker_suffix else [])" for i j :: nat
  have b: "int (length (if m < int (length (body i j)) then prefix_bytes (body i j) m else body i j)) \<le> max 0 m" for i j
    using length_prefix_bytes [of "body i j" m] by simp
  show ?thesis
    unfolding query_excerpt_def Let_def body_def [symmetric]
    using length_head_tail [of s m] length_prefix_bytes [of _ m] b by (auto split: option.split)
qed

section \<open>Nothing is left out in silence\<close>

lemma head_tail_complete: "head_tail s m = (t, False) \<Longrightarrow> t = s"
  by (auto simp: head_tail_def Let_def split: if_splits)

lemma str_index_le: "str_index s q = Some i \<Longrightarrow> i + length q \<le> length s"
proof (induction s arbitrary: i)
  case (Cons c s)
  then show ?case using prefix_length_le by (fastforce split: if_splits)
qed (auto split: if_splits)

lemma byte_start_zero: "byte_start s i b = 0 \<Longrightarrow> int i \<le> max 0 b"
  using forward_to_start_ge [of "i - nat b" s i] by (auto simp: byte_start_def split: if_splits)

lemma byte_end_all: "byte_end s j b = length s \<Longrightarrow> int (length s) \<le> int j + max 0 b"
  using back_to_start_le [of s j "min (j + nat b) (length s)"] by (auto simp: byte_end_def split: if_splits)

lemma byte_end_le: "j \<le> length s \<Longrightarrow> byte_end s j b \<le> length s"
  using back_to_start_le [of s j "min (j + nat b) (length s)"] by (auto simp: byte_end_def)

lemma query_excerpt_complete:
  assumes "query_excerpt s q m = (t, False)" and "length q \<le> 60"
  shows "t = s"
proof (cases "m \<le> 0 \<or> int (length s) \<le> m \<or> str_index s q = None")
  case True
  then show ?thesis using assms head_tail_complete [of s m t] by (auto simp: query_excerpt_def split: if_splits)
next
  case False
  then obtain i where i: "str_index s q = Some i" by auto
  have mk: "int (length marker_prefix) + int (length marker_suffix) = 60" by (simp add: marker_prefix_def marker_suffix_def)
  define b where "b = (m - 60) div 2"
  define a where "a = m - 60 - b"
  have m: "\<not> m \<le> 60" and st: "byte_start s i b = 0" and fin: "\<not> byte_end s (i + length q) a < length s"
    using assms(1) False unfolding query_excerpt_def i option.case Let_def mk b_def [symmetric] a_def [symmetric] by (auto split: if_splits)
  have "0 \<le> b" "0 \<le> a" using m by (auto simp: b_def a_def)
  moreover have "byte_end s (i + length q) a = length s" using fin byte_end_le [OF str_index_le [OF i], of a] by simp
  ultimately have "int (length s) \<le> m" using byte_start_zero [OF st] byte_end_all [of s "i + length q" a] assms(2) by (simp add: a_def)
  with False show ?thesis by simp
qed

text \<open>What an agent may rely on when it reads a rendered stream.\<close>

definition stream_ok :: "string \<Rightarrow> bool \<Rightarrow> string \<Rightarrow> bool \<Rightarrow> bool" where
  "stream_ok data lost shown flag \<longleftrightarrow> list_all visible shown \<and> (flag \<or> shown = safe_text data \<and> \<not> lost)"

text \<open>
  C18. What the MCP adapter shows of the output of a job (\<open>renderPreview\<close>, \<open>renderOutput\<close>): each stream of a preview is within its budget and the
  two streams of a read are together within 12 KiB; neither contains an ASCII control character but newline and tab, whatever bytes
  the remote command wrote; and a stream that is not flagged as truncated is the whole captured stream, which the executor did not truncate
  either, with only the escapes of \<open>safeText\<close>. For a read that holds when its query has at most 60 bytes.
\<close>

theorem rendering_bounded_and_complete:
  assumes "0 \<le> per_stream" and "length (trim_space query) \<le> 60"
    and "p = render_preview stdout stderr oc ec per_stream" and "r = render_output stdout stderr oc ec query"
  shows "int (length (rd_stdout p)) \<le> per_stream \<and> int (length (rd_stderr p)) \<le> per_stream
    \<and> int (length (rd_stdout r)) + int (length (rd_stderr r)) \<le> 12288
    \<and> stream_ok stdout oc (rd_stdout p) (rd_stdout_truncated p) \<and> stream_ok stderr ec (rd_stderr p) (rd_stderr_truncated p)
    \<and> stream_ok stdout oc (rd_stdout r) (rd_stdout_truncated r) \<and> stream_ok stderr ec (rd_stderr r) (rd_stderr_truncated r)"
proof -
  let ?so = "safe_text stdout" and ?se = "safe_text stderr" and ?q = "trim_space query"
  have ht: "stream_ok d c (fst (head_tail (safe_text d) n)) (c \<or> snd (head_tail (safe_text d) n))" for d c n
    using head_tail_visible [OF safe_text_visible, of d n] head_tail_complete [of "safe_text d" n]
    by (cases "head_tail (safe_text d) n") (auto simp: stream_ok_def)
  have qe: "stream_ok d c (fst (query_excerpt (safe_text d) ?q n)) (c \<or> snd (query_excerpt (safe_text d) ?q n))" for d c n
    using query_excerpt_visible [OF safe_text_visible, of d ?q n] query_excerpt_complete [of "safe_text d" ?q n] assms(2)
    by (cases "query_excerpt (safe_text d) ?q n") (auto simp: stream_ok_def)
  obtain ob eb where b: "split_budget ?so ?se output_read_bytes = (ob, eb)" by (cases "split_budget ?so ?se output_read_bytes")
  then have bb: "0 \<le> ob" "0 \<le> eb" "ob + eb \<le> 12288" by (auto simp: split_budget_def output_read_bytes_def split: if_splits)
  define f where "f s n = (if ?q \<noteq> [] then query_excerpt s ?q n else head_tail s n)" for s n
  have fo: "stream_ok d c (fst (f (safe_text d) n)) (c \<or> snd (f (safe_text d) n))" for d c n using ht qe by (simp add: f_def)
  have fl: "int (length (fst (f s n))) \<le> max 0 n" for s n using length_head_tail length_query_excerpt by (simp add: f_def)
  have p: "rd_stdout p = fst (head_tail ?so per_stream)" "rd_stdout_truncated p = (oc \<or> snd (head_tail ?so per_stream))"
    "rd_stderr p = fst (head_tail ?se per_stream)" "rd_stderr_truncated p = (ec \<or> snd (head_tail ?se per_stream))"
    by (simp_all add: assms(3) render_preview_def bounded_safe_text_def case_prod_unfold Let_def)
  have r: "rd_stdout r = fst (f ?so ob)" "rd_stdout_truncated r = (oc \<or> snd (f ?so ob))"
    "rd_stderr r = fst (f ?se eb)" "rd_stderr_truncated r = (ec \<or> snd (f ?se eb))"
    unfolding assms(4) render_output_def Let_def b f_def [symmetric] by (simp_all add: case_prod_unfold)
  have "int (length (rd_stdout r)) + int (length (rd_stderr r)) \<le> 12288"
    using fl [of ?so ob] fl [of ?se eb] bb by (simp add: r)
  moreover have "int (length (rd_stdout p)) \<le> per_stream" "int (length (rd_stderr p)) \<le> per_stream"
    using length_head_tail [of ?so per_stream] length_head_tail [of ?se per_stream] assms(1) by (simp_all add: p)
  ultimately show ?thesis unfolding p r using ht fo by blast
qed

lemma hex_digits_2: "hex_digits 2 r = [hex_digit (r div 16 mod 16), hex_digit (r mod 16)]"
  by (simp add: numeral_2_eq_2)

lemma no_query: "length (trim_space []) \<le> 60"
  by simp

theorem rendering_bounded_and_complete_witness:
  "rd_stdout (render_preview [CHR 0x1B, CHR ''k''] [] False False 8192) = CHR 0x5C # ''x1bk''
   \<and> stream_ok [CHR 0x1B, CHR ''k''] False (rd_stdout (render_preview [CHR 0x1B, CHR ''k''] [] False False 8192)) False
   \<and> int (length (rd_stdout (render_output [CHR 0x1B, CHR ''k''] [] False False [])))
     + int (length (rd_stderr (render_output [CHR 0x1B, CHR ''k''] [] False False []))) \<le> 12288"
proof -
  let ?p = "render_preview [CHR 0x1B, CHR ''k''] [] False False 8192"
  have "(0 :: int) \<le> 8192" by simp
  note t = rendering_bounded_and_complete [OF this no_query refl refl, of "[CHR 0x1B, CHR ''k'']" "[]" False False]
  have "hex_digit 1 = CHR ''1''" "hex_digit 11 = CHR ''b''" by code_simp+
  then have "safe_text [CHR 0x1B, CHR ''k''] = CHR 0x5C # ''x1bk''"
    by (simp add: safe_text.simps(2) utf8_size_ascii is_control_def is_format_def format_ranges_def escape_rune_def hex_digits_2)
  then have e: "rd_stdout ?p = CHR 0x5C # ''x1bk''" "rd_stdout_truncated ?p = False"
    by (simp_all add: render_preview_def bounded_safe_text_def head_tail_def Let_def)
  with t have "stream_ok [CHR 0x1B, CHR ''k''] False (rd_stdout ?p) False" by simp
  with t e(1) show ?thesis by (intro conjI) (assumption | simp)+
qed

section \<open>A cut that is not flagged\<close>

text \<open>
  With a longer query the two conditions of the flag can both be false while the excerpt is cut to the budget: the match reaches so far that
  the text fits between the markers' budgets, and is still longer than the limit.
\<close>

lemma back_to_start_fix: "rune_start (s ! e) \<or> length s \<le> e \<Longrightarrow> back_to_start s stop e = e"
  by (cases e) auto

theorem long_query_cuts_silently:
  assumes "s = replicate 6200 (CHR ''q'') @ replicate 6100 (CHR ''a'')" and "q = replicate 6200 (CHR ''q'')"
  shows "query_excerpt s q output_read_bytes = (take 12288 s, False)"
proof -
  have len: "length s = 12300" by (simp add: assms)
  have "prefix q s" by (simp add: assms)
  moreover have "s \<noteq> []" using len by auto
  ultimately have i: "str_index s q = Some 0" by (cases s) auto
  have mk: "int (length marker_prefix) + int (length marker_suffix) = 60" by (simp add: marker_prefix_def marker_suffix_def)
  have lq: "0 + length q = 6200" by (simp add: assms(2))
  have fin: "byte_end s 6200 6114 = 12300" by (simp add: byte_end_def len back_to_start_fix)
  have st: "byte_start s 0 6114 = 0" by (simp add: byte_start_def)
  have "s ! 12288 = CHR ''a''" by (simp add: assms(1) nth_append)
  then have "back_to_start s 0 12288 = 12288" by (intro back_to_start_fix) (simp add: rune_start_def)
  then have "prefix_bytes s 12288 = take 12288 s" by (simp add: prefix_bytes_def len)
  then show ?thesis
    unfolding query_excerpt_def i option.case Let_def mk lq output_read_bytes_def by (simp add: st fin len)
qed

end
