(* ===== verification/Mcp_Service.thy ===== *)
theory Mcp_Service
  imports Risk Capability Agent_Api Mcp_Journal Mcp_Output
begin

text \<open>
  The tools of the MCP adapter (\<open>internal/mcpadapter/service.go\<close>, \<open>cmd/sentinel-mcp/main.go\<close>): an agent runs a command, a batch of commands or Python
  code, comes back to an operation, or reads its output. Every call loads the capability and asks the gateway for its session first. The gateway, the
  clock, the random bytes, the file system and the context of the call are a port on a world \<open>'w\<close>; what the gateway was asked and
  answered is recorded. Error texts are kept without the values formatted into them.
\<close>

section \<open>Data\<close>

record exec_input =
  xi_target :: string
  xi_argv :: "string list"
  xi_timeout_seconds :: int

record batch_command =
  bc_argv :: "string list"
  bc_timeout_seconds :: int

record exec_batch_input =
  bi_target :: string
  bi_commands :: "batch_command list"
  bi_parallel :: bool

record code_input =
  ki_target :: string
  ki_source :: string
  ki_timeout_seconds :: int

record output_input =
  oi_id :: string
  oi_step :: "int option"
  oi_query :: string

record step_result =
  tr_step :: nat
  tr_status :: string
  tr_job_id :: string
  tr_exit_code :: "int option"
  tr_stdout :: string
  tr_stderr :: string
  tr_stdout_truncated :: bool
  tr_stderr_truncated :: bool

record operation_result =
  oz_id :: string
  oz_status :: string
  oz_job_id :: string
  oz_exit_code :: "int option"
  oz_stdout :: string
  oz_stderr :: string
  oz_stdout_truncated :: bool
  oz_stderr_truncated :: bool
  oz_steps :: "step_result list"

text \<open>A service is made for each call, with the capability of that moment.\<close>

record mcp_service =
  ms_capability :: string
  ms_session_id :: string
  ms_allow_code :: bool

text \<open>What \<open>loadCapability\<close> finds at the path of the capability file.\<close>

datatype cap_file = Cf_Not_Exist | Cf_Stat_Error | Cf_Irregular | Cf_Group_Access | Cf_Read_Error | Cf_Data string

datatype cap_error = Ce_Not_Exist | Ce_Missing | Ce_Other string

record 'w mcp_port =
  ag_cap_file :: "'w \<Rightarrow> 'w \<times> cap_file"
  ag_cap_env :: "'w \<Rightarrow> 'w \<times> string"
  ag_client :: "string \<Rightarrow> 'w \<Rightarrow> 'w \<times> err option"
  ag_bootstrap :: "string \<Rightarrow> 'w \<Rightarrow> 'w \<times> (agent_error + bootstrap)"
  ag_submit :: "string \<Rightarrow> command_request \<Rightarrow> 'w \<Rightarrow> 'w \<times> (agent_error + gateway_response)"
  ag_job :: "string \<Rightarrow> string \<Rightarrow> 'w \<Rightarrow> 'w \<times> (agent_error + client_job)"
  ag_request :: "string \<Rightarrow> string \<Rightarrow> 'w \<Rightarrow> 'w \<times> (agent_error + client_job)"
  ag_wait :: "'w \<Rightarrow> 'w \<times> err option"
  ag_random :: "nat \<Rightarrow> 'w \<Rightarrow> 'w \<times> string option"
  ag_now :: "'w \<Rightarrow> 'w \<times> time"
  ag_fault :: "'w \<Rightarrow> 'w \<times> fs_fault"

text \<open>What is recorded: a submission with the service, the file of the journal at that moment and the answer; and the answer about a job.\<close>

datatype mcp_event =
    Mc_Submit mcp_service "operation list option" command_request "agent_error + gateway_response"
  | Mc_Job string "agent_error + client_job"

record 'w mcp =
  mc_journal :: journal
  mc_trace :: "mcp_event list"
  mc_world :: 'w

definition mc_ask :: "('w \<Rightarrow> 'w \<times> 'a) \<Rightarrow> 'w mcp \<Rightarrow> 'w mcp \<times> 'a" where
  "mc_ask f st = (case f (mc_world st) of (w, x) \<Rightarrow> (st\<lparr>mc_world := w\<rparr>, x))"

definition mc_note :: "mcp_event \<Rightarrow> 'w mcp \<Rightarrow> 'w mcp" where
  "mc_note e st = st\<lparr>mc_trace := mc_trace st @ [e]\<rparr>"

section \<open>Checks\<close>

definition validate_timeout :: "int \<Rightarrow> err option" where
  "validate_timeout timeout =
     (if timeout < 0 \<or> 900 < timeout then Some (Err_Msg ''INVALID_ARGUMENT: timeout_seconds must be 0..900.'') else None)"

definition validate_structured_step :: "string list \<Rightarrow> int \<Rightarrow> err + op_step" where
  "validate_structured_step argv timeout =
     (case validate_timeout timeout of
        Some e \<Rightarrow> Inl e
      | None \<Rightarrow>
          if argv = [] \<or> trim_space (hd argv) = [] then Inl (Err_Msg ''INVALID_ARGUMENT: argv must contain a command.'')
          else if 256 < length argv then Inl (Err_Msg ''INVALID_ARGUMENT: argv may contain at most 256 entries.'')
          else if r_decision (classify argv) = Deny
          then Inl (Err_Msg ''COMMAND_DENIED: Sentinel policy denies this command class; do not retry it unchanged.'')
          else if requires_shell (classify argv)
          then Inl (Err_Msg ''STRUCTURED_EXEC_REJECTED: This command requires arbitrary-code authority; use sentinel_code only when necessary.'')
          else Inr \<lparr>sp_request_id = [], sp_argv = argv, sp_timeout_seconds = timeout\<rparr>)"

definition code_carrier_ok :: "string list \<Rightarrow> bool" where
  "code_carrier_ok argv \<longleftrightarrow> \<not> (r_decision (classify argv) = Deny \<or> \<not> requires_shell (classify argv))"

fun validate_structured :: "op_step list \<Rightarrow> err option" where
  "validate_structured [] = None"
| "validate_structured (s # ss) =
     (case validate_structured_step (sp_argv s) (sp_timeout_seconds s) of Inl e \<Rightarrow> Some e | Inr _ \<Rightarrow> validate_structured ss)"

definition validate_stored_operation :: "mcp_service \<Rightarrow> operation \<Rightarrow> err option" where
  "validate_stored_operation svc op =
     (case op_kind op of
        Op_Exec \<Rightarrow> validate_structured (op_steps op)
      | Op_Batch \<Rightarrow> validate_structured (op_steps op)
      | Op_Code \<Rightarrow>
          if \<not> ms_allow_code svc \<or> length (op_steps op) \<noteq> 1 then Some (Err_Msg ''code operation is not allowed'')
          else (let step = op_steps op ! 0; argv = sp_argv step in
            case validate_timeout (sp_timeout_seconds step) of
              Some e \<Rightarrow> Some e
            | None \<Rightarrow>
                if length argv \<noteq> 3 \<or> argv ! 0 \<noteq> ''python3'' \<or> argv ! 1 \<noteq> ''-c'' \<or> trim_space (argv ! 2) = []
                then Some (Err_Msg ''invalid code carrier'')
                else if \<not> code_carrier_ok argv then Some (Err_Msg ''code carrier is not classified as arbitrary code'')
                else None)
      | Op_Kind other \<Rightarrow> Some (Err_Msg ''unsupported operation kind''))"

definition output_step_index :: "operation \<Rightarrow> int option \<Rightarrow> err + nat" where
  "output_step_index op requested =
     (if op_kind op \<noteq> Op_Batch then
        (case requested of
           Some r \<Rightarrow> if r \<noteq> 0 then Inl (Err_Msg ''INVALID_ARGUMENT: step is only meaningful for a batch operation.'') else Inr 0
         | None \<Rightarrow> Inr 0)
      else if length (op_steps op) = 1 \<and> requested = None then Inr 0
      else (case requested of
          None \<Rightarrow> Inl (Err_Msg ''INVALID_ARGUMENT: step is required for a batch operation with multiple commands.'')
        | Some r \<Rightarrow>
            if r < 0 \<or> int (length (op_steps op)) \<le> r then Inl (Err_Msg ''INVALID_ARGUMENT: step is outside the batch range.'')
            else Inr (nat r)))"

definition operation_lookup_error :: "journal_error \<Rightarrow> err" where
  "operation_lookup_error e =
     (case e of
        Je_Operation_Not_Found \<Rightarrow>
          Err_Msg ''OPERATION_NOT_FOUND: This operation id is unknown; start a new operation instead of inventing or retrying ids.''
      | Je_Session_Mismatch \<Rightarrow>
          Err_Msg ''OPERATION_SESSION_MISMATCH: This operation belongs to an older capability session; it cannot be resumed or repaired by retrying.'')"

section \<open>Results\<close>

definition terminal_status :: "string \<Rightarrow> bool" where
  "terminal_status status \<longleftrightarrow> status \<in> set [''succeeded'', ''failed'', ''canceled'', ''expired'']"

definition model_status :: "string \<Rightarrow> string" where
  "model_status status =
     (if status = ''succeeded'' then ''succeeded''
      else if status = ''failed'' then ''failed''
      else if status = ''canceled'' then ''cancelled''
      else if status = ''expired'' then ''expired''
      else ''running'')"

definition plain_step :: "nat \<Rightarrow> string \<Rightarrow> step_result" where
  "plain_step i status = \<lparr>tr_step = i, tr_status = status, tr_job_id = [], tr_exit_code = None, tr_stdout = [], tr_stderr = [],
     tr_stdout_truncated = False, tr_stderr_truncated = False\<rparr>"

definition result_from_job :: "nat \<Rightarrow> client_job \<Rightarrow> int \<Rightarrow> bool \<Rightarrow> string \<Rightarrow> step_result" where
  "result_from_job i job preview_bytes deep query =
     (let r0 = (plain_step i (model_status (cj_status job)))\<lparr>tr_job_id := cj_id job\<rparr>;
          r1 = (case cj_result job of None \<Rightarrow> r0 | Some res \<Rightarrow> r0\<lparr>tr_exit_code := Some (res_exit_code res)\<rparr>) in
      case cj_output job of
        None \<Rightarrow> r1
      | Some out \<Rightarrow>
          (let rendered =
             (if deep then render_output (eo_stdout out) (eo_stderr out) (eo_stdout_truncated out) (eo_stderr_truncated out) query
              else render_preview (eo_stdout out) (eo_stderr out) (eo_stdout_truncated out) (eo_stderr_truncated out) preview_bytes) in
           r1\<lparr>tr_stdout := rd_stdout rendered, tr_stderr := rd_stderr rendered,
              tr_stdout_truncated := rd_stdout_truncated rendered, tr_stderr_truncated := rd_stderr_truncated rendered\<rparr>))"

fun aggregate_loop :: "step_result list \<Rightarrow> bool \<Rightarrow> string" where
  "aggregate_loop [] all_succeeded = (if all_succeeded then ''succeeded'' else ''running'')"
| "aggregate_loop (s # ss) all_succeeded =
     (if tr_status s = ''denied'' then ''denied''
      else if tr_status s = ''failed'' then ''failed''
      else if tr_status s = ''expired'' then ''expired''
      else if tr_status s = ''cancelled'' then ''cancelled''
      else if tr_status s = ''awaiting_approval'' then ''awaiting_approval''
      else aggregate_loop ss (all_succeeded \<and> tr_status s = ''succeeded''))"

definition aggregate_status :: "step_result list \<Rightarrow> string" where
  "aggregate_status steps = (if steps = [] then ''failed'' else aggregate_loop steps True)"

definition single_result :: "operation \<Rightarrow> step_result \<Rightarrow> operation_result" where
  "single_result op s = \<lparr>oz_id = op_id op, oz_status = tr_status s, oz_job_id = tr_job_id s, oz_exit_code = tr_exit_code s,
     oz_stdout = tr_stdout s, oz_stderr = tr_stderr s, oz_stdout_truncated = tr_stdout_truncated s,
     oz_stderr_truncated = tr_stderr_truncated s, oz_steps = []\<rparr>"

definition batch_result :: "operation \<Rightarrow> step_result list \<Rightarrow> operation_result" where
  "batch_result op steps = \<lparr>oz_id = op_id op, oz_status = aggregate_status steps, oz_job_id = [], oz_exit_code = None,
     oz_stdout = [], oz_stderr = [], oz_stdout_truncated = False, oz_stderr_truncated = False, oz_steps = steps\<rparr>"

section \<open>Creating an operation\<close>

definition new_request_id :: "'w mcp_port \<Rightarrow> 'w mcp \<Rightarrow> 'w mcp \<times> (err + string)" where
  "new_request_id p st =
     (case mc_ask (ag_random p 12) st of (st1, None) \<Rightarrow> (st1, Inl Err_Rand) | (st1, Some b) \<Rightarrow> (st1, Inr (''req-'' @ hex_encode b)))"

definition new_operation_id :: "'w mcp_port \<Rightarrow> 'w mcp \<Rightarrow> 'w mcp \<times> (err + string)" where
  "new_operation_id p st =
     (case mc_ask (ag_random p 16) st of (st1, None) \<Rightarrow> (st1, Inl Err_Rand) | (st1, Some b) \<Rightarrow> (st1, Inr (''op-'' @ hex_encode b)))"

fun fill_request_ids :: "'w mcp_port \<Rightarrow> op_step list \<Rightarrow> 'w mcp \<Rightarrow> 'w mcp \<times> (err + op_step list)" where
  "fill_request_ids p [] st = (st, Inr [])"
| "fill_request_ids p (s # ss) st =
     (case (if sp_request_id s \<noteq> [] then (st, Inr (sp_request_id s)) else new_request_id p st) of
        (st1, Inl e) \<Rightarrow> (st1, Inl e)
      | (st1, Inr i) \<Rightarrow>
          (case fill_request_ids p ss st1 of
             (st2, Inl e) \<Rightarrow> (st2, Inl e)
           | (st2, Inr rest) \<Rightarrow> (st2, Inr (s\<lparr>sp_request_id := i\<rparr> # rest))))"

text \<open>The durable write comes before any submission.\<close>

definition store_operation :: "'w mcp_port \<Rightarrow> operation \<Rightarrow> 'w mcp \<Rightarrow> 'w mcp \<times> (err + operation)" where
  "store_operation p op st =
     (case mc_ask (ag_fault p) st of
        (st1, fault) \<Rightarrow>
          (case jo_create op fault (mc_journal st1) of
             (j, Some e) \<Rightarrow> (st1\<lparr>mc_journal := j\<rparr>, Inl e)
           | (j, None) \<Rightarrow> (st1\<lparr>mc_journal := j\<rparr>, Inr op)))"

definition create_operation ::
    "'w mcp_port \<Rightarrow> mcp_service \<Rightarrow> op_kind \<Rightarrow> string \<Rightarrow> bool \<Rightarrow> op_step list \<Rightarrow> 'w mcp \<Rightarrow> 'w mcp \<times> (err + operation)" where
  "create_operation p svc kind target0 par steps st =
     (let target = trim_space target0 in
      if target = [] then (st, Inl (Err_Msg ''INVALID_ARGUMENT: target is required.''))
      else (case fill_request_ids p steps st of
          (st1, Inl e) \<Rightarrow> (st1, Inl e)
        | (st1, Inr filled) \<Rightarrow>
            (case new_operation_id p st1 of
               (st2, Inl e) \<Rightarrow> (st2, Inl e)
             | (st2, Inr i) \<Rightarrow>
                 (case mc_ask (ag_now p) st2 of
                    (st3, now) \<Rightarrow>
                      store_operation p
                        \<lparr>op_id = i, op_session_id = ms_session_id svc, op_kind = kind, op_target = target, op_parallel = par,
                         op_steps = filled, op_created_at = now\<rparr> st3))))"

section \<open>One step\<close>

definition step_command :: "operation \<Rightarrow> nat \<Rightarrow> command_request" where
  "step_command op i =
     (let step = op_steps op ! i in
      \<lparr>cq_request_id = sp_request_id step, cq_target = op_target op, cq_argv = sp_argv step, cq_agent_reason = [],
       cq_timeout_seconds = sp_timeout_seconds step\<rparr>)"

text \<open>
  \<open>runStep\<close> with \<open>waitForJob\<close>, cut at its calls to the outside, so that the goroutines of a parallel batch can be interleaved there: the submission, the
  question about the job, the wait for the timer or the end of the context, and the return.
\<close>

datatype turn = T_Submit | T_Poll string | T_Sleep string | T_Return "err + step_result"

definition after_submit :: "nat \<Rightarrow> agent_error + gateway_response \<Rightarrow> turn" where
  "after_submit i answer =
     (case answer of
        Inl e \<Rightarrow> T_Return (Inl (Err_Msg ''Sentinel backend request failed''))
      | Inr r \<Rightarrow>
          if sb_decision r = ''approval_required'' then T_Return (Inr (plain_step i ''awaiting_approval''))
          else if sb_decision r = ''deny'' then T_Return (Inr (plain_step i ''denied''))
          else if sb_decision r = ''accepted'' then
            (case sb_job r of
               None \<Rightarrow> T_Return (Inl (Err_Msg ''Sentinel accepted the request without an execution job''))
             | Some job_id \<Rightarrow>
                 if trim_space job_id = [] then T_Return (Inl (Err_Msg ''Sentinel accepted the request without an execution job''))
                 else T_Poll job_id)
          else T_Return (Inl (Err_Msg ''Sentinel returned an unsupported submission decision'')))"

definition after_poll :: "nat \<Rightarrow> int \<Rightarrow> string \<Rightarrow> agent_error + client_job \<Rightarrow> turn" where
  "after_poll i preview_bytes job_id answer =
     (case answer of
        Inl e \<Rightarrow> T_Return (Inl (Err_Msg ''Sentinel backend request failed''))
      | Inr job \<Rightarrow>
          if terminal_status (cj_status job) then T_Return (Inr (result_from_job i job preview_bytes False []))
          else T_Sleep job_id)"

definition step_turn :: "'w mcp_port \<Rightarrow> mcp_service \<Rightarrow> operation \<Rightarrow> nat \<Rightarrow> int \<Rightarrow> turn \<Rightarrow> 'w mcp \<Rightarrow> 'w mcp \<times> turn" where
  "step_turn p svc op i preview_bytes t st =
     (case t of
        T_Submit \<Rightarrow>
          (case mc_ask (ag_submit p (ms_capability svc) (step_command op i)) st of
             (st1, answer) \<Rightarrow>
               (mc_note (Mc_Submit svc (jo_disk (mc_journal st)) (step_command op i) answer) st1, after_submit i answer))
      | T_Poll job_id \<Rightarrow>
          (case mc_ask (ag_job p (ms_capability svc) job_id) st of
             (st1, answer) \<Rightarrow> (mc_note (Mc_Job job_id answer) st1, after_poll i preview_bytes job_id answer))
      | T_Sleep job_id \<Rightarrow>
          (case mc_ask (ag_wait p) st of
             (st1, None) \<Rightarrow> (st1, T_Poll job_id)
           | (st1, Some e) \<Rightarrow> (st1, T_Return (Inl e)))
      | T_Return r \<Rightarrow> (st, T_Return r))"

text \<open>A step by itself; a job that never ends keeps it waiting, and then the value is \<open>None\<close>.\<close>

partial_function (option) run_turns ::
    "'w mcp_port \<Rightarrow> mcp_service \<Rightarrow> operation \<Rightarrow> nat \<Rightarrow> int \<Rightarrow> turn \<Rightarrow> 'w mcp \<Rightarrow> ('w mcp \<times> (err + step_result)) option" where
  "run_turns p svc op i preview_bytes t st =
     (case t of
        T_Return r \<Rightarrow> Some (st, r)
      | _ \<Rightarrow> (case step_turn p svc op i preview_bytes t st of (st1, t1) \<Rightarrow> run_turns p svc op i preview_bytes t1 st1))"

definition run_step :: "'w mcp_port \<Rightarrow> mcp_service \<Rightarrow> operation \<Rightarrow> nat \<Rightarrow> int \<Rightarrow> 'w mcp \<Rightarrow> ('w mcp \<times> (err + step_result)) option" where
  "run_step p svc op i preview_bytes st = run_turns p svc op i preview_bytes T_Submit st"

section \<open>An operation\<close>

fun run_sequential ::
    "'w mcp_port \<Rightarrow> mcp_service \<Rightarrow> operation \<Rightarrow> nat list \<Rightarrow> 'w mcp \<Rightarrow> ('w mcp \<times> (err + step_result list)) option" where
  "run_sequential p svc op [] st = Some (st, Inr [])"
| "run_sequential p svc op (i # is) st =
     (case run_step p svc op i batch_preview_bytes st of
        None \<Rightarrow> None
      | Some (st1, Inl e) \<Rightarrow> Some (st1, Inl e)
      | Some (st1, Inr r) \<Rightarrow>
          (case run_sequential p svc op is st1 of
             None \<Rightarrow> None
           | Some (st2, Inl e) \<Rightarrow> Some (st2, Inl e)
           | Some (st2, Inr rs) \<Rightarrow> Some (st2, Inr (r # rs))))"

text \<open>
  The goroutines of a parallel batch, each with the channel send after its last call; a schedule says which one moves next. The batch returns once
  every result has been sent (\<open>wg.Wait\<close>), with the results read in the order of the channel.
\<close>

datatype goroutine = Go_Running turn | Go_Sent

type_synonym 'w batch_state = "'w mcp \<times> goroutine list \<times> (nat \<times> (err + step_result)) list"

definition go_step :: "'w mcp_port \<Rightarrow> mcp_service \<Rightarrow> operation \<Rightarrow> nat \<Rightarrow> 'w batch_state \<Rightarrow> 'w batch_state" where
  "go_step p svc op i b =
     (case b of (st, gs, chan) \<Rightarrow>
        if i < length gs then
          (case gs ! i of
             Go_Sent \<Rightarrow> (st, gs, chan)
           | Go_Running (T_Return r) \<Rightarrow> (st, gs[i := Go_Sent], chan @ [(i, r)])
           | Go_Running t \<Rightarrow>
               (case step_turn p svc op i batch_preview_bytes t st of (st1, t1) \<Rightarrow> (st1, gs[i := Go_Running t1], chan)))
        else (st, gs, chan))"

fun collect_results :: "(nat \<times> (err + step_result)) list \<Rightarrow> step_result list \<Rightarrow> err + step_result list" where
  "collect_results [] steps = Inr steps"
| "collect_results ((i, Inl e) # rs) steps = Inl e"
| "collect_results ((i, Inr s) # rs) steps = collect_results rs (steps[i := s])"

definition start_batch :: "operation \<Rightarrow> 'w mcp \<Rightarrow> 'w batch_state" where
  "start_batch op st = (st, replicate (length (op_steps op)) (Go_Running T_Submit), [])"

definition run_parallel ::
    "'w mcp_port \<Rightarrow> mcp_service \<Rightarrow> operation \<Rightarrow> nat list \<Rightarrow> 'w mcp \<Rightarrow> ('w mcp \<times> (err + step_result list)) option" where
  "run_parallel p svc op schedule st =
     (case fold (go_step p svc op) schedule (start_batch op st) of
        (st1, gs, chan) \<Rightarrow>
          if list_all (\<lambda>g. g = Go_Sent) gs
          then Some (st1, collect_results chan (replicate (length (op_steps op)) (plain_step 0 [])))
          else None)"

definition run_operation ::
    "'w mcp_port \<Rightarrow> mcp_service \<Rightarrow> nat list \<Rightarrow> operation \<Rightarrow> 'w mcp \<Rightarrow> ('w mcp \<times> (err + operation_result)) option" where
  "run_operation p svc schedule op st =
     (if op_kind op \<noteq> Op_Batch then
        map_option (apsnd (map_sum id (single_result op))) (run_step p svc op 0 exec_preview_bytes st)
      else
        map_option (apsnd (map_sum id (batch_result op)))
          (if \<not> op_parallel op then run_sequential p svc op [0..<length (op_steps op)] st
           else run_parallel p svc op schedule st))"

section \<open>The tools\<close>

definition prepare_exec :: "'w mcp_port \<Rightarrow> mcp_service \<Rightarrow> exec_input \<Rightarrow> 'w mcp \<Rightarrow> 'w mcp \<times> (err + operation)" where
  "prepare_exec p svc inp st =
     (case validate_structured_step (xi_argv inp) (xi_timeout_seconds inp) of
        Inl e \<Rightarrow> (st, Inl e)
      | Inr step \<Rightarrow> create_operation p svc Op_Exec (xi_target inp) False [step] st)"

fun batch_steps :: "batch_command list \<Rightarrow> err + op_step list" where
  "batch_steps [] = Inr []"
| "batch_steps (c # cs) =
     (case validate_structured_step (bc_argv c) (bc_timeout_seconds c) of
        Inl e \<Rightarrow> Inl e
      | Inr s \<Rightarrow> (case batch_steps cs of Inl e \<Rightarrow> Inl e | Inr ss \<Rightarrow> Inr (s # ss)))"

definition prepare_batch :: "'w mcp_port \<Rightarrow> mcp_service \<Rightarrow> exec_batch_input \<Rightarrow> 'w mcp \<Rightarrow> 'w mcp \<times> (err + operation)" where
  "prepare_batch p svc inp st =
     (if trim_space (bi_target inp) = [] then (st, Inl (Err_Msg ''INVALID_ARGUMENT: target is required.''))
      else if bi_commands inp = [] then (st, Inl (Err_Msg ''INVALID_ARGUMENT: commands must contain at least one command.''))
      else if 32 < length (bi_commands inp) then (st, Inl (Err_Msg ''INVALID_ARGUMENT: commands may contain at most 32 commands.''))
      else (case batch_steps (bi_commands inp) of
          Inl e \<Rightarrow> (st, Inl e)
        | Inr steps \<Rightarrow> create_operation p svc Op_Batch (trim_space (bi_target inp)) (bi_parallel inp) steps st))"

definition prepare_code :: "'w mcp_port \<Rightarrow> mcp_service \<Rightarrow> code_input \<Rightarrow> 'w mcp \<Rightarrow> 'w mcp \<times> (err + operation)" where
  "prepare_code p svc inp st =
     (if \<not> ms_allow_code svc
      then (st, Inl (Err_Msg ''SHELL_AUTHORITY_REQUIRED: This capability blocks arbitrary code; use sentinel_exec or ask the operator for shell authority.''))
      else (case validate_timeout (ki_timeout_seconds inp) of
          Some e \<Rightarrow> (st, Inl e)
        | None \<Rightarrow>
            if trim_space (ki_source inp) = [] then (st, Inl (Err_Msg ''INVALID_ARGUMENT: source is required.''))
            else if \<not> code_carrier_ok [''python3'', ''-c'', ki_source inp]
            then (st, Inl (Err_Msg ''Sentinel classifier does not recognize code execution as arbitrary code''))
            else (case new_request_id p st of
                (st1, Inl e) \<Rightarrow> (st1, Inl e)
              | (st1, Inr i) \<Rightarrow>
                  create_operation p svc Op_Code (ki_target inp) False
                    [\<lparr>sp_request_id = i, sp_argv = [''python3'', ''-c'', ki_source inp], sp_timeout_seconds = ki_timeout_seconds inp\<rparr>] st1)))"

text \<open>The stored operation that \<open>Check\<close> and \<open>Output\<close> start from.\<close>

definition stored_operation :: "mcp_service \<Rightarrow> string \<Rightarrow> 'w mcp \<Rightarrow> err + operation" where
  "stored_operation svc i st =
     (case jo_get (trim_space i) (ms_session_id svc) (mc_journal st) of
        Inl e \<Rightarrow> Inl (operation_lookup_error e)
      | Inr op \<Rightarrow>
          if validate_stored_operation svc op \<noteq> None
          then Inl (Err_Msg ''OPERATION_INVALID: Stored operation validation failed; report it to the operator.'')
          else Inr op)"

definition svc_output :: "'w mcp_port \<Rightarrow> mcp_service \<Rightarrow> output_input \<Rightarrow> 'w mcp \<Rightarrow> 'w mcp \<times> (err + operation_result)" where
  "svc_output p svc inp st =
     (case stored_operation svc (oi_id inp) st of
        Inl e \<Rightarrow> (st, Inl e)
      | Inr op \<Rightarrow>
          (case output_step_index op (oi_step inp) of
             Inl e \<Rightarrow> (st, Inl e)
           | Inr i \<Rightarrow>
               (case mc_ask (ag_request p (ms_capability svc) (sp_request_id (op_steps op ! i))) st of
                  (st1, Inl e) \<Rightarrow>
                    (st1, Inl (Err_Msg ''OUTPUT_NOT_READY: Output is not available yet; inspect the operation with sentinel_check first.''))
                | (st1, Inr job) \<Rightarrow> (st1, Inr (single_result op (result_from_job i job output_read_bytes True (oi_query inp)))))))"

datatype tool = Tool_Exec exec_input | Tool_Batch exec_batch_input | Tool_Code code_input | Tool_Check string | Tool_Output output_input

text \<open>What each tool does before the operation runs; \<open>Output\<close> does not run it.\<close>

definition prepare :: "'w mcp_port \<Rightarrow> mcp_service \<Rightarrow> tool \<Rightarrow> 'w mcp \<Rightarrow> 'w mcp \<times> (err + operation)" where
  "prepare p svc t st =
     (case t of
        Tool_Exec inp \<Rightarrow> prepare_exec p svc inp st
      | Tool_Batch inp \<Rightarrow> prepare_batch p svc inp st
      | Tool_Code inp \<Rightarrow> prepare_code p svc inp st
      | Tool_Check i \<Rightarrow> (st, stored_operation svc i st)
      | Tool_Output inp \<Rightarrow> (st, stored_operation svc (oi_id inp) st))"

section \<open>The process\<close>

text \<open>The path of the capability file is the first argument; without one the environment is read.\<close>

definition load_capability :: "string \<Rightarrow> 'w mcp_port \<Rightarrow> 'w mcp \<Rightarrow> 'w mcp \<times> (cap_error + string)" where
  "load_capability path p st =
     (if trim_space path \<noteq> [] then
        (case mc_ask (ag_cap_file p) st of
           (st1, file) \<Rightarrow>
             (st1,
              case file of
                Cf_Not_Exist \<Rightarrow> Inl Ce_Not_Exist
              | Cf_Stat_Error \<Rightarrow> Inl (Ce_Other ''inspect capability file'')
              | Cf_Irregular \<Rightarrow> Inl (Ce_Other ''capability file must be a regular non-symlink file'')
              | Cf_Group_Access \<Rightarrow> Inl (Ce_Other ''capability file must not be group/other accessible'')
              | Cf_Read_Error \<Rightarrow> Inl (Ce_Other ''read capability file'')
              | Cf_Data bytes \<Rightarrow>
                  if validate_format (trim_space bytes) \<noteq> None then Inl (Ce_Other ''capability file does not contain a valid Sentinel capability'')
                  else Inr (trim_space bytes)))
      else
        (case mc_ask (ag_cap_env p) st of
           (st1, value) \<Rightarrow>
             (st1,
              if trim_space value = [] then Inl Ce_Missing
              else if validate_format (trim_space value) \<noteq> None then Inl (Ce_Other ''SENTINEL_CAP does not contain a valid Sentinel capability'')
              else Inr (trim_space value))))"

definition capability_load_error :: "cap_error \<Rightarrow> err" where
  "capability_load_error e =
     (if e = Ce_Not_Exist \<or> e = Ce_Missing
      then Err_Msg ''CAPABILITY_MISSING: No capability is installed; ask the operator to install one instead of retrying.''
      else Err_Msg ''CAPABILITY_INVALID: Installed capability is invalid or unreadable; ask the operator to replace it instead of retrying.'')"

definition capability_bootstrap_error :: "agent_error \<Rightarrow> err" where
  "capability_bootstrap_error e =
     (case e of
        AE_Http status message \<Rightarrow>
          if status = 401 \<or> status = 403
          then Err_Msg ''CAPABILITY_INVALID: Capability expired, was revoked, or was rejected; ask the operator to install a new one instead of retrying.''
          else Err_Msg ''SENTINEL_UNAVAILABLE: Sentinel could not validate the capability; report the service or connection problem instead of retrying.''
      | AE_Other message \<Rightarrow>
          Err_Msg ''SENTINEL_UNAVAILABLE: Sentinel could not validate the capability; report the service or connection problem instead of retrying.'')"

definition new_service :: "string \<Rightarrow> string \<Rightarrow> bool \<Rightarrow> err + mcp_service" where
  "new_service token session_id allow_code =
     (if trim_space session_id = [] then Inl (Err_Msg ''Sentinel capability session id is required'')
      else Inr \<lparr>ms_capability = token, ms_session_id = trim_space session_id, ms_allow_code = allow_code\<rparr>)"

definition provide_service :: "string \<Rightarrow> 'w mcp_port \<Rightarrow> 'w mcp \<Rightarrow> 'w mcp \<times> (err + mcp_service)" where
  "provide_service path p st =
     (case load_capability path p st of
        (st1, Inl e) \<Rightarrow> (st1, Inl (capability_load_error e))
      | (st1, Inr token) \<Rightarrow>
          (case mc_ask (ag_client p token) st1 of
             (st2, Some e) \<Rightarrow> (st2, Inl (Err_Msg ''MCP_CONFIG_ERROR: Sentinel MCP configuration is invalid; report it to the operator.''))
           | (st2, None) \<Rightarrow>
               (case mc_ask (ag_bootstrap p token) st2 of
                  (st3, Inl e) \<Rightarrow> (st3, Inl (capability_bootstrap_error e))
                | (st3, Inr b) \<Rightarrow>
                    (st3,
                     if \<not> perm_exec (bs_permissions b)
                     then Inl (Err_Msg ''EXEC_AUTHORITY_REQUIRED: This capability blocks command execution; ask the operator for exec authority.'')
                     else new_service token (bs_session_id b) (perm_shell (bs_permissions b))))))"

text \<open>One call of a tool, as \<open>registerTools\<close> composes it.\<close>

definition tool_call ::
    "string \<Rightarrow> 'w mcp_port \<Rightarrow> nat list \<Rightarrow> tool \<Rightarrow> 'w mcp \<Rightarrow> ('w mcp \<times> (err + operation_result)) option" where
  "tool_call path p schedule t st =
     (case provide_service path p st of
        (st1, Inl e) \<Rightarrow> Some (st1, Inl e)
      | (st1, Inr svc) \<Rightarrow>
          (case t of
             Tool_Output inp \<Rightarrow> Some (svc_output p svc inp st1)
           | _ \<Rightarrow>
               (case prepare p svc t st1 of
                  (st2, Inl e) \<Rightarrow> Some (st2, Inl e)
                | (st2, Inr op) \<Rightarrow> run_operation p svc schedule op st2)))"

end
