(* ===== verification/Mcp_Safety.thy ===== *)
theory Mcp_Safety
  imports Mcp_Service
begin

text \<open>
  What the MCP adapter submits. The tools run concurrently in one process, each call has goroutines of its own, and the process may stop at any moment:
  the system below interleaves them at every call to the outside.
\<close>

section \<open>Frame\<close>

definition mc_same :: "'w mcp \<Rightarrow> 'w mcp \<Rightarrow> bool" where
  "mc_same st st1 \<longleftrightarrow> mc_journal st1 = mc_journal st \<and> mc_trace st1 = mc_trace st"

lemma mc_same_world: "mc_same st st1 \<longleftrightarrow> st1 = st\<lparr>mc_world := mc_world st1\<rparr>"
  by (cases st, cases st1) (auto simp: mc_same_def)

lemma mc_same_refl [simp]: "mc_same st st"
  by (simp add: mc_same_def)

lemma mc_same_trans: "mc_same st st1 \<Longrightarrow> mc_same st1 st2 \<Longrightarrow> mc_same st st2"
  by (simp add: mc_same_def)

lemma mc_ask_same: "mc_ask f st = (st1, x) \<Longrightarrow> mc_same st st1"
  by (auto simp: mc_ask_def mc_same_def split: prod.splits)

lemma new_id_same:
  "new_request_id p st = (st1, r) \<Longrightarrow> mc_same st st1"
  "new_operation_id p st = (st1, r) \<Longrightarrow> mc_same st st1"
  by (auto simp: new_request_id_def new_operation_id_def dest: mc_ask_same split: prod.splits option.splits)

lemma load_capability_same: "load_capability path p st = (st1, r) \<Longrightarrow> mc_same st st1"
  by (auto simp: load_capability_def dest: mc_ask_same split: prod.splits if_splits)

lemma provide_service_same:
  assumes "provide_service path p st = (st1, r)"
  shows "mc_same st st1"
proof -
  obtain s1 r1 where 1: "load_capability path p st = (s1, r1)" by (cases "load_capability path p st")
  note m1 = load_capability_same [OF 1]
  show ?thesis
  proof (cases r1)
    case (Inl e)
    then show ?thesis using assms 1 m1 by (simp add: provide_service_def)
  next
    case (Inr token)
    obtain s2 r2 where 2: "mc_ask (ag_client p token) s1 = (s2, r2)" by (cases "mc_ask (ag_client p token) s1")
    obtain s3 r3 where 3: "mc_ask (ag_bootstrap p token) s2 = (s3, r3)" by (cases "mc_ask (ag_bootstrap p token) s2")
    have "st1 = s2 \<or> st1 = s3"
      using assms unfolding provide_service_def 1 Inr prod.case sum.case 2 by (cases r2; cases r3) (simp_all add: 3)
    then show ?thesis using m1 mc_ask_same [OF 2] mc_ask_same [OF 3] mc_same_trans by blast
  qed
qed

lemma provide_service_session:
  "provide_service path p st = (st1, Inr svc) \<Longrightarrow> trim_space (ms_session_id svc) = ms_session_id svc \<and> ms_session_id svc \<noteq> []"
  by (auto simp: provide_service_def new_service_def split: prod.splits sum.splits option.splits if_splits)

section \<open>Policy\<close>

definition structured_step :: "op_step \<Rightarrow> bool" where
  "structured_step s \<longleftrightarrow> 0 \<le> sp_timeout_seconds s \<and> sp_timeout_seconds s \<le> 900 \<and> sp_argv s \<noteq> [] \<and> trim_space (hd (sp_argv s)) \<noteq> []
     \<and> length (sp_argv s) \<le> 256 \<and> r_decision (classify (sp_argv s)) \<noteq> Deny \<and> \<not> requires_shell (classify (sp_argv s))"

definition code_step :: "op_step \<Rightarrow> bool" where
  "code_step s \<longleftrightarrow> 0 \<le> sp_timeout_seconds s \<and> sp_timeout_seconds s \<le> 900
     \<and> (\<exists>source. sp_argv s = [''python3'', ''-c'', source] \<and> trim_space source \<noteq> []) \<and> r_decision (classify (sp_argv s)) \<noteq> Deny
     \<and> requires_shell (classify (sp_argv s))"

definition permitted :: "bool \<Rightarrow> operation \<Rightarrow> bool" where
  "permitted allow_code op \<longleftrightarrow>
     (op_kind op = Op_Exec \<or> op_kind op = Op_Batch) \<and> (\<forall>s \<in> set (op_steps op). structured_step s)
     \<or> op_kind op = Op_Code \<and> allow_code \<and> (\<exists>s. op_steps op = [s] \<and> code_step s)"

lemma validate_structured_step_iff:
  "validate_structured_step argv timeout = Inr s \<longleftrightarrow>
     s = \<lparr>sp_request_id = [], sp_argv = argv, sp_timeout_seconds = timeout\<rparr> \<and> structured_step s"
  by (auto simp: validate_structured_step_def validate_timeout_def structured_step_def not_less)

lemma structured_step_id [simp]: "structured_step (s\<lparr>sp_request_id := i\<rparr>) = structured_step s"
  by (simp add: structured_step_def)

lemma validate_structured_iff: "validate_structured ss = None \<longleftrightarrow> (\<forall>s \<in> set ss. structured_step s)"
proof (induction ss)
  case (Cons s ss)
  have "structured_step \<lparr>sp_request_id = [], sp_argv = sp_argv s, sp_timeout_seconds = sp_timeout_seconds s\<rparr> = structured_step s"
    by (simp add: structured_step_def)
  then have "validate_structured_step (sp_argv s) (sp_timeout_seconds s)
      = Inr \<lparr>sp_request_id = [], sp_argv = sp_argv s, sp_timeout_seconds = sp_timeout_seconds s\<rparr> \<longleftrightarrow> structured_step s"
    by (simp add: validate_structured_step_iff)
  moreover have "validate_structured_step (sp_argv s) (sp_timeout_seconds s) = Inr x
      \<Longrightarrow> x = \<lparr>sp_request_id = [], sp_argv = sp_argv s, sp_timeout_seconds = sp_timeout_seconds s\<rparr>" for x
    by (simp add: validate_structured_step_iff)
  ultimately show ?case using Cons by (auto split: sum.split)
qed simp

lemma three_elems: "length xs = 3 \<and> xs ! 0 = a \<and> xs ! 1 = b \<and> P (xs ! 2) \<longleftrightarrow> (\<exists>c. xs = [a, b, c] \<and> P c)"
  by (auto simp: numeral_3_eq_3 length_Suc_conv nth_Cons split: nat.splits)

lemma code_step_iff:
  "code_step s \<longleftrightarrow> validate_timeout (sp_timeout_seconds s) = None
     \<and> \<not> (length (sp_argv s) \<noteq> 3 \<or> sp_argv s ! 0 \<noteq> ''python3'' \<or> sp_argv s ! 1 \<noteq> ''-c'' \<or> trim_space (sp_argv s ! 2) = [])
     \<and> code_carrier_ok (sp_argv s)"
  using three_elems [of "sp_argv s" "''python3''" "''-c''" "\<lambda>c. trim_space c \<noteq> []"]
  unfolding code_step_def validate_timeout_def code_carrier_ok_def by (auto simp: not_less)

lemma validate_stored_operation_iff: "validate_stored_operation svc op = None \<longleftrightarrow> permitted (ms_allow_code svc) op"
proof (cases "op_kind op")
  case Op_Code
  show ?thesis
  proof (cases "ms_allow_code svc \<and> length (op_steps op) = 1")
    case True
    then obtain s where "op_steps op = [s]" by (auto simp: length_Suc_conv)
    then show ?thesis
      using True Op_Code by (simp add: validate_stored_operation_def permitted_def Let_def code_step_iff split: option.split)
  next
    case False
    then show ?thesis using Op_Code by (auto simp: validate_stored_operation_def permitted_def)
  qed
qed (simp_all add: validate_stored_operation_def permitted_def validate_structured_iff)

section \<open>Prepared operations\<close>

definition filled_step :: "op_step \<Rightarrow> op_step \<Rightarrow> bool" where
  "filled_step s t \<longleftrightarrow> sp_argv t = sp_argv s \<and> sp_timeout_seconds t = sp_timeout_seconds s \<and> (sp_request_id s \<noteq> [] \<longrightarrow> t = s)"

lemma fill_request_ids_outcome:
  "fill_request_ids p ss st = (st1, r) \<Longrightarrow> mc_same st st1 \<and> (\<forall>filled. r = Inr filled \<longrightarrow> list_all2 filled_step ss filled)"
proof (induction ss arbitrary: st st1 r)
  case (Cons s ss)
  define q where "q = (if sp_request_id s \<noteq> [] then (st, Inr (sp_request_id s)) else new_request_id p st)"
  obtain s1 r1 where 1: "q = (s1, r1)" by (cases q)
  have m1: "mc_same st s1" using 1 new_id_same(1) [of p st] by (auto simp: q_def split: if_splits)
  obtain s2 r2 where 2: "fill_request_ids p ss s1 = (s2, r2)" by (cases "fill_request_ids p ss s1")
  note IH = Cons.IH [OF 2]
  show ?case
  proof (cases r1)
    case (Inl e)
    then show ?thesis using Cons.prems 1 m1 by (auto simp: q_def [symmetric])
  next
    case (Inr i)
    have "sp_request_id s \<noteq> [] \<longrightarrow> i = sp_request_id s" using 1 Inr by (auto simp: q_def)
    then have fs: "filled_step s (s\<lparr>sp_request_id := i\<rparr>)" by (simp add: filled_step_def)
    have "st1 = s2" "r = (case r2 of Inl e \<Rightarrow> Inl e | Inr rest \<Rightarrow> Inr (s\<lparr>sp_request_id := i\<rparr> # rest))"
      using Cons.prems 1 Inr 2 by (auto simp: q_def [symmetric] split: sum.splits)
    with fs IH mc_same_trans [OF m1] show ?thesis by (auto split: sum.splits)
  qed
qed simp

lemma filled_step_structured: "filled_step s t \<Longrightarrow> structured_step t = structured_step s"
  unfolding filled_step_def structured_step_def by (elim conjE) (simp only:)

lemma fill_keeps_structured:
  assumes "list_all2 filled_step ss filled" and "\<forall>s \<in> set ss. structured_step s"
  shows "\<forall>t \<in> set filled. structured_step t"
proof
  fix t assume "t \<in> set filled"
  then obtain i where "i < length filled" "t = filled ! i" by (auto simp: in_set_conv_nth)
  then have "filled_step (ss ! i) t" "ss ! i \<in> set ss" using assms(1) by (auto simp: list_all2_conv_all_nth)
  then show "structured_step t" using assms(2) filled_step_structured by blast
qed

lemma store_operation_outcome:
  assumes "store_operation p op st = (st1, r)"
  shows "mc_trace st1 = mc_trace st"
    and "r = Inl e \<Longrightarrow> mc_same st st1"
    and "r = Inr op' \<Longrightarrow> op' = op \<and> (\<exists>fault. jo_create op fault (mc_journal st) = (mc_journal st1, None))"
proof -
  obtain s1 fault where a: "mc_ask (ag_fault p) st = (s1, fault)" by (cases "mc_ask (ag_fault p) st")
  note m = mc_ask_same [OF a]
  obtain j x where c: "jo_create op fault (mc_journal s1) = (j, x)" by (cases "jo_create op fault (mc_journal s1)")
  have st1: "st1 = s1\<lparr>mc_journal := j\<rparr>" and r: "r = (case x of Some e \<Rightarrow> Inl e | None \<Rightarrow> Inr op)"
    using assms by (auto simp: store_operation_def a c split: option.splits)
  have j: "x = Some e' \<Longrightarrow> j = mc_journal s1" for e'
    using c by (cases op fault "mc_journal s1" rule: jo_create_cases) auto
  show "mc_trace st1 = mc_trace st" using m st1 by (simp add: mc_same_def)
  show "mc_same st st1" if "r = Inl e" using that m j by (auto simp: st1 r mc_same_def split: option.splits)
  show "op' = op \<and> (\<exists>fault. jo_create op fault (mc_journal st) = (mc_journal st1, None))" if "r = Inr op'"
    using that m c by (auto simp: st1 r mc_same_def split: option.splits)
qed

lemma create_operation_cases:
  assumes "create_operation p svc kind target par steps st = (st1, r)"
  obtains (early) e where "r = Inl e" and "mc_same st st1"
    | (stored) filled b now s3 where "list_all2 filled_step steps filled" and "mc_same st s3"
        and "store_operation p \<lparr>op_id = ''op-'' @ hex_encode b, op_session_id = ms_session_id svc, op_kind = kind,
           op_target = trim_space target, op_parallel = par, op_steps = filled, op_created_at = now\<rparr> s3 = (st1, r)"
proof (cases "trim_space target = []")
  case True
  then show ?thesis using assms early by (auto simp: create_operation_def)
next
  case target: False
  obtain s1 r1 where 1: "fill_request_ids p steps st = (s1, r1)" by (cases "fill_request_ids p steps st")
  obtain s2 r2 where 2: "new_operation_id p s1 = (s2, r2)" by (cases "new_operation_id p s1")
  obtain s3 now where 3: "mc_ask (ag_now p) s2 = (s3, now)" by (cases "mc_ask (ag_now p) s2")
  note m1 = fill_request_ids_outcome [OF 1, THEN conjunct1] and m2 = mc_same_trans [OF m1 new_id_same(2) [OF 2]]
    and defs = create_operation_def Let_def 1 prod.case sum.case
  show ?thesis
  proof (cases r1)
    case (Inl e)
    then show ?thesis using assms target m1 early by (auto simp: defs)
  next
    case r1: (Inr filled)
    show ?thesis
    proof (cases r2)
      case (Inl e)
      then show ?thesis using assms target r1 m2 early by (auto simp: defs 2)
    next
      case (Inr i)
      obtain b where i: "i = ''op-'' @ hex_encode b" using 2 Inr by (auto simp: new_operation_id_def split: prod.splits option.splits)
      show ?thesis
        using stored [of filled s3 b now] assms target r1 Inr i fill_request_ids_outcome [OF 1] mc_same_trans [OF m2 mc_ask_same [OF 3]]
        by (simp add: defs 2 3)
    qed
  qed
qed

text \<open>What a preparation may do to the state: one creation in the journal.\<close>

definition journaled :: "'w mcp \<Rightarrow> 'w mcp \<Rightarrow> bool" where
  "journaled st st1 \<longleftrightarrow> mc_trace st1 = mc_trace st \<and> jo_step\<^sup>*\<^sup>* (mc_journal st) (mc_journal st1)"

lemma mc_same_journaled: "mc_same st st1 \<Longrightarrow> journaled st st1"
  by (simp add: mc_same_def journaled_def)

lemma same_then_journaled: "mc_same st st1 \<Longrightarrow> journaled st1 st2 \<Longrightarrow> journaled st st2"
  by (simp add: mc_same_def journaled_def)

lemma create_operation_outcome:
  assumes "create_operation p svc kind target par steps st = (st1, r)"
  shows "journaled st st1"
    and "r = Inr op \<Longrightarrow> (\<exists>fault. jo_create op fault (mc_journal st) = (mc_journal st1, None)) \<and> op_session_id op = ms_session_id svc
      \<and> op_kind op = kind \<and> list_all2 filled_step steps (op_steps op) \<and> (\<exists>b. op_id op = ''op-'' @ hex_encode b)"
proof -
  from assms show "journaled st st1"
  proof (cases rule: create_operation_cases)
    case (stored filled b now s3)
    show ?thesis
    proof (cases r)
      case (Inl e)
      with store_operation_outcome(2) [OF stored(3)] stored(2) show ?thesis using mc_same_trans mc_same_journaled by blast
    next
      case (Inr op)
      with store_operation_outcome(3) [OF stored(3)] obtain fault where "jo_create op fault (mc_journal s3) = (mc_journal st1, None)" by blast
      then have "jo_step (mc_journal s3) (mc_journal st1)" using Jo_Create by (metis fst_conv)
      then show ?thesis using stored(2) store_operation_outcome(1) [OF stored(3)] by (auto simp: journaled_def mc_same_def)
    qed
  qed (rule mc_same_journaled)
  assume "r = Inr op"
  with assms show "(\<exists>fault. jo_create op fault (mc_journal st) = (mc_journal st1, None)) \<and> op_session_id op = ms_session_id svc
      \<and> op_kind op = kind \<and> list_all2 filled_step steps (op_steps op) \<and> (\<exists>b. op_id op = ''op-'' @ hex_encode b)"
  proof (cases rule: create_operation_cases)
    case (stored filled b now s3)
    with store_operation_outcome(3) [OF stored(3) \<open>r = Inr op\<close>] show ?thesis by (auto simp: mc_same_def)
  qed simp
qed

text \<open>An operation that a service may run: it is in the journal, of this session, and permitted.\<close>

definition op_live :: "mcp_service \<Rightarrow> operation \<Rightarrow> journal \<Rightarrow> bool" where
  "op_live svc op j \<longleftrightarrow> jo_get (op_id op) (ms_session_id svc) j = Inr op \<and> trim_space (op_id op) = op_id op
     \<and> trim_space (ms_session_id svc) = ms_session_id svc \<and> permitted (ms_allow_code svc) op"

lemma op_id_trim: "trim_space (''op-'' @ hex_encode b) = ''op-'' @ hex_encode b"
proof -
  have "list_all id_char (''op-'' @ hex_encode b)" using hex_encode_id_chars [of b] by (simp add: id_char_def)
  then show ?thesis by (rule trim_space_id)
qed

lemma created_live:
  assumes "create_operation p svc kind target par steps st = (st1, Inr op)" and "jo_ok (mc_journal st)"
    and "trim_space (ms_session_id svc) = ms_session_id svc"
    and "\<And>filled. list_all2 filled_step steps filled \<Longrightarrow> permitted (ms_allow_code svc) (op\<lparr>op_kind := kind, op_steps := filled\<rparr>)"
  shows "op_live svc op (mc_journal st1)"
proof -
  note out = create_operation_outcome(2) [OF assms(1) refl]
  then have id: "trim_space (op_id op) = op_id op" and ses: "op_session_id op = ms_session_id svc" using op_id_trim by auto
  from out obtain fault where c: "jo_create op fault (mc_journal st) = (mc_journal st1, None)" by blast
  have "op\<lparr>op_kind := kind, op_steps := op_steps op\<rparr> = op" using out by (cases op) auto
  then have "permitted (ms_allow_code svc) op" using assms(4) out by metis
  then show ?thesis using file_journal.created [OF assms(2) c id] assms(3) id ses by (simp add: op_live_def)
qed

text \<open>The contract of the preparations.\<close>

definition prepared :: "mcp_service \<Rightarrow> 'w mcp \<Rightarrow> 'w mcp \<Rightarrow> err + operation \<Rightarrow> bool" where
  "prepared svc st st1 r \<longleftrightarrow> journaled st st1 \<and>
     (\<forall>op. r = Inr op \<longrightarrow> jo_ok (mc_journal st) \<longrightarrow> trim_space (ms_session_id svc) = ms_session_id svc \<longrightarrow> op_live svc op (mc_journal st1))"

lemma prepared_refused: "mc_same st st1 \<Longrightarrow> prepared svc st st1 (Inl e)"
  by (simp add: prepared_def mc_same_journaled)

lemma prepared_created:
  assumes "create_operation p svc kind target par steps st = (st1, r)"
    and "\<And>op filled. list_all2 filled_step steps filled \<Longrightarrow> permitted (ms_allow_code svc) (op\<lparr>op_kind := kind, op_steps := filled\<rparr>)"
  shows "prepared svc st st1 r"
  unfolding prepared_def using created_live assms create_operation_outcome(1) [OF assms(1)] by blast

lemma prepared_structured:
  assumes "create_operation p svc kind target par steps st = (st1, r)" and "kind = Op_Exec \<or> kind = Op_Batch"
    and "\<forall>s \<in> set steps. structured_step s"
  shows "prepared svc st st1 r"
proof (rule prepared_created [OF assms(1)])
  show "permitted (ms_allow_code svc) (op\<lparr>op_kind := kind, op_steps := filled\<rparr>)" if "list_all2 filled_step steps filled" for op filled
    using fill_keeps_structured [OF that assms(3)] assms(2) by (auto simp: permitted_def)
qed

lemma prepare_exec_prepared:
  assumes "prepare_exec p svc inp st = (st1, r)"
  shows "prepared svc st st1 r"
proof (cases "validate_structured_step (xi_argv inp) (xi_timeout_seconds inp)")
  case (Inl e)
  then show ?thesis using assms by (auto simp: prepare_exec_def intro: prepared_refused)
next
  case (Inr step)
  then have "structured_step step" using validate_structured_step_iff by blast
  moreover have "create_operation p svc Op_Exec (xi_target inp) False [step] st = (st1, r)" using assms Inr by (simp add: prepare_exec_def)
  ultimately show ?thesis using prepared_structured by fastforce
qed

lemma batch_steps_structured: "batch_steps cs = Inr ss \<Longrightarrow> (\<forall>s \<in> set ss. structured_step s) \<and> length ss = length cs"
proof (induction cs arbitrary: ss)
  case (Cons c cs)
  then obtain s ss' where s: "validate_structured_step (bc_argv c) (bc_timeout_seconds c) = Inr s" and ss': "batch_steps cs = Inr ss'" "ss = s # ss'"
    by (auto split: sum.splits)
  have "structured_step s" using s validate_structured_step_iff by blast
  with Cons.IH [OF ss'(1)] ss'(2) show ?case by simp
qed simp

lemma prepare_batch_prepared:
  assumes "prepare_batch p svc inp st = (st1, r)"
  shows "prepared svc st st1 r"
proof (cases "trim_space (bi_target inp) = [] \<or> bi_commands inp = [] \<or> 32 < length (bi_commands inp) \<or> (\<exists>e. batch_steps (bi_commands inp) = Inl e)")
  case True
  then show ?thesis using assms prepared_refused [OF mc_same_refl] by (auto simp: prepare_batch_def split: if_splits)
next
  case False
  then obtain ss where ss: "batch_steps (bi_commands inp) = Inr ss" by (cases "batch_steps (bi_commands inp)") auto
  then have "create_operation p svc Op_Batch (trim_space (bi_target inp)) (bi_parallel inp) ss st = (st1, r)"
    using assms False by (simp add: prepare_batch_def)
  then show ?thesis using prepared_structured batch_steps_structured [OF ss] by blast
qed

lemma prepared_after: "mc_same st st1 \<Longrightarrow> prepared svc st1 st2 r \<Longrightarrow> prepared svc st st2 r"
  unfolding prepared_def using same_then_journaled by (auto simp: mc_same_def journaled_def)

lemma prepare_code_prepared:
  assumes "prepare_code p svc inp st = (st1, r)"
  shows "prepared svc st st1 r"
proof (cases "\<not> ms_allow_code svc \<or> validate_timeout (ki_timeout_seconds inp) \<noteq> None \<or> trim_space (ki_source inp) = []
    \<or> \<not> code_carrier_ok [''python3'', ''-c'', ki_source inp]")
  case True
  then show ?thesis using assms by (auto simp: prepare_code_def intro: prepared_refused split: if_splits option.splits)
next
  case False
  obtain s1 r1 where 1: "new_request_id p st = (s1, r1)" by (cases "new_request_id p st")
  note m = new_id_same(1) [OF 1]
  let ?argv = "[''python3'', ''-c'', ki_source inp]"
  show ?thesis
  proof (cases r1)
    case (Inl e)
    then show ?thesis using assms False 1 m by (auto simp: prepare_code_def intro: prepared_refused)
  next
    case (Inr i)
    let ?step = "\<lparr>sp_request_id = i, sp_argv = ?argv, sp_timeout_seconds = ki_timeout_seconds inp\<rparr>"
    have i: "i \<noteq> []" using 1 Inr by (auto simp: new_request_id_def split: prod.splits option.splits)
    have "code_step ?step" using False by (simp add: code_step_iff)
    then have "permitted (ms_allow_code svc) (op\<lparr>op_kind := Op_Code, op_steps := filled\<rparr>)" if "list_all2 filled_step [?step] filled" for op filled
      using that i False by (auto simp: permitted_def filled_step_def list_all2_Cons1)
    moreover have "create_operation p svc Op_Code (ki_target inp) False [?step] s1 = (st1, r)"
      using assms False 1 Inr by (simp add: prepare_code_def)
    ultimately show ?thesis using prepared_created prepared_after [OF m] by blast
  qed
qed

lemma stored_operation_prepared: "prepared svc st st (stored_operation svc i st)"
  unfolding prepared_def
proof (intro conjI allI impI)
  fix op
  assume r: "stored_operation svc i st = Inr op" and ok: "jo_ok (mc_journal st)" and tr: "trim_space (ms_session_id svc) = ms_session_id svc"
  have g: "jo_get (trim_space i) (ms_session_id svc) (mc_journal st) = Inr op" and v: "validate_stored_operation svc op = None"
    using r by (auto simp: stored_operation_def split: sum.splits if_splits)
  have "op_id op = trim_space i" using g jo_okD(2) [OF ok] by (auto simp: jo_get_iff)
  with g v tr show "op_live svc op (mc_journal st)" by (simp add: op_live_def jo_get_iff validate_stored_operation_iff)
qed (simp add: mc_same_journaled)

lemma prepare_prepared: "prepare p svc t st = (st1, r) \<Longrightarrow> prepared svc st st1 r"
  by (cases t)
    (auto simp: prepare_def intro: prepare_exec_prepared prepare_batch_prepared prepare_code_prepared stored_operation_prepared)

section \<open>Concurrent calls\<close>

text \<open>
  The system: the calls under way, and the goroutines of their steps. A step of a call may be started at any time after the preparation - that
  covers the sequential and the parallel batch. A restart ends every call and opens the journal again.
\<close>

type_synonym thread = "mcp_service \<times> operation \<times> nat \<times> int \<times> turn"

record 'w mcp_system =
  sy_state :: "'w mcp"
  sy_calls :: "(mcp_service \<times> operation) list"
  sy_threads :: "thread list"

inductive mcp_step :: "string \<Rightarrow> 'w mcp_port \<Rightarrow> 'w mcp_system \<Rightarrow> 'w mcp_system \<Rightarrow> bool" for path p where
  Sy_Prepare: "provide_service path p (sy_state s) = (st1, Inr svc) \<Longrightarrow> prepare p svc t st1 = (st2, r)
    \<Longrightarrow> mcp_step path p s (s\<lparr>sy_state := st2, sy_calls := (case r of Inl e \<Rightarrow> sy_calls s | Inr op \<Rightarrow> sy_calls s @ [(svc, op)])\<rparr>)"
| Sy_Start: "(svc, op) \<in> set (sy_calls s) \<Longrightarrow> i < length (op_steps op)
    \<Longrightarrow> mcp_step path p s (s\<lparr>sy_threads := sy_threads s @ [(svc, op, i, preview_bytes, T_Submit)]\<rparr>)"
| Sy_Turn: "k < length (sy_threads s) \<Longrightarrow> sy_threads s ! k = (svc, op, i, preview_bytes, t)
    \<Longrightarrow> step_turn p svc op i preview_bytes t (sy_state s) = (st1, t1)
    \<Longrightarrow> mcp_step path p s (s\<lparr>sy_state := st1, sy_threads := (sy_threads s)[k := (svc, op, i, preview_bytes, t1)]\<rparr>)"
| Sy_World: "mcp_step path p s (s\<lparr>sy_state := (sy_state s)\<lparr>mc_world := w\<rparr>\<rparr>)"
| Sy_Restart: "jo_open jpath (jo_file (mc_journal (sy_state s))) = Inr j
    \<Longrightarrow> mcp_step path p s \<lparr>sy_state = (sy_state s)\<lparr>mc_journal := j\<rparr>, sy_calls = [], sy_threads = []\<rparr>"

text \<open>What holds of a recorded submission, with the journal as it is now.\<close>

definition submission_ok :: "journal \<Rightarrow> mcp_event \<Rightarrow> bool" where
  "submission_ok j e \<longleftrightarrow>
     (case e of
        Mc_Submit svc disk command answer \<Rightarrow>
          (\<exists>op ops i. disk = Some ops \<and> op \<in> set ops \<and> i < length (op_steps op) \<and> command = step_command op i
             \<and> permitted (ms_allow_code svc) op \<and> jo_get (op_id op) (ms_session_id svc) j = Inr op)
      | Mc_Job job_id answer \<Rightarrow> True)"

definition sy_ok :: "'w mcp_system \<Rightarrow> bool" where
  "sy_ok s \<longleftrightarrow> jo_ok (mc_journal (sy_state s)) \<and> (\<forall>e \<in> set (mc_trace (sy_state s)). submission_ok (mc_journal (sy_state s)) e)
     \<and> (\<forall>(svc, op) \<in> set (sy_calls s). op_live svc op (mc_journal (sy_state s)))
     \<and> (\<forall>(svc, op, i, pv, t) \<in> set (sy_threads s). op_live svc op (mc_journal (sy_state s)) \<and> i < length (op_steps op))"

lemma op_live_disk:
  assumes "jo_ok j" and "op_live svc op j"
  shows "\<exists>ops. jo_disk j = Some ops \<and> op \<in> set ops"
proof -
  have "(op_id op, op) \<in> set (jo_operations j)" using assms(2) by (auto simp: op_live_def jo_get_iff dest: map_of_SomeD)
  then have m: "op \<in> snd ` set (jo_operations j)" by force
  then obtain ops where d: "jo_disk j = Some ops" "mset ops = mset (map snd (jo_operations j))"
    using assms(1) by (auto simp: jo_ok_def split: option.splits)
  then have "set ops = snd ` set (jo_operations j)" by (metis list.set_map set_mset_mset)
  with m d show ?thesis by blast
qed

lemma jo_get_grown: "jo_grown j k \<Longrightarrow> jo_get i n j = Inr op \<Longrightarrow> jo_get i n k = Inr op"
  by (auto simp: jo_get_iff jo_grown_def map_le_def dom_def)

lemma submission_ok_grown: "jo_grown j k \<Longrightarrow> submission_ok j e \<Longrightarrow> submission_ok k e"
  unfolding submission_ok_def by (auto split: mcp_event.splits intro: jo_get_grown)

lemma op_live_grown: "jo_grown j k \<Longrightarrow> op_live svc op j \<Longrightarrow> op_live svc op k"
  unfolding op_live_def by (blast intro: jo_get_grown)

lemma step_turn_frame:
  assumes "step_turn p svc op i pv t st = (st1, t1)"
  shows "mc_journal st1 = mc_journal st \<and> (mc_trace st1 = mc_trace st
    \<or> (\<exists>job_id answer. t = T_Poll job_id \<and> mc_trace st1 = mc_trace st @ [Mc_Job job_id answer] \<and> t1 = after_poll i pv job_id answer)
    \<or> (\<exists>answer. t = T_Submit \<and> mc_trace st1 = mc_trace st @ [Mc_Submit svc (jo_disk (mc_journal st)) (step_command op i) answer]
        \<and> t1 = after_submit i answer))"
proof (cases t)
  case (T_Sleep job_id)
  then show ?thesis using assms mc_ask_same [of "ag_wait p" st] by (auto simp: step_turn_def mc_same_def split: prod.splits option.splits)
next
  case (T_Poll job_id)
  then show ?thesis using assms mc_ask_same [of "ag_job p (ms_capability svc) job_id" st]
    by (auto simp: step_turn_def mc_same_def mc_note_def split: prod.splits)
next
  case T_Submit
  then show ?thesis using assms mc_ask_same [of "ag_submit p (ms_capability svc) (step_command op i)" st]
    by (auto simp: step_turn_def mc_same_def mc_note_def split: prod.splits)
qed (use assms in \<open>simp add: step_turn_def\<close>)

lemma sy_ok_journal:
  assumes "sy_ok s" and "jo_grown (mc_journal (sy_state s)) (mc_journal st1)" and "jo_ok (mc_journal st1)"
    and "mc_trace st1 = mc_trace (sy_state s)"
  shows "sy_ok (s\<lparr>sy_state := st1\<rparr>)"
  using assms submission_ok_grown [OF assms(2)] op_live_grown [OF assms(2)] unfolding sy_ok_def by fastforce

lemma jo_steps_grown:
  assumes "jo_step\<^sup>*\<^sup>* j k" and "jo_ok j"
  shows "jo_grown j k" and "jo_ok k"
  using jo_run.steps_rel [OF assms] jo_run.inv.steps_keep [OF assms] by simp_all

lemma sy_turn_ok:
  assumes "sy_ok s" and "k < length (sy_threads s)" and "sy_threads s ! k = (svc, op, i, pv, t)"
    and "step_turn p svc op i pv t (sy_state s) = (st1, t1)"
  shows "sy_ok (s\<lparr>sy_state := st1, sy_threads := (sy_threads s)[k := (svc, op, i, pv, t1)]\<rparr>)"
proof -
  let ?st = "sy_state s"
  have th: "(svc, op, i, pv, t) \<in> set (sy_threads s)" using assms(2,3) by (metis nth_mem)
  then have live: "op_live svc op (mc_journal ?st)" and i: "i < length (op_steps op)" using assms(1) by (auto simp: sy_ok_def)
  have ok: "jo_ok (mc_journal ?st)" using assms(1) by (simp add: sy_ok_def)
  obtain ops where d: "jo_disk (mc_journal ?st) = Some ops" "op \<in> set ops" using op_live_disk [OF ok live] by blast
  have new: "submission_ok (mc_journal ?st) (Mc_Submit svc (jo_disk (mc_journal ?st)) (step_command op i) answer)" for answer
    using d i live by (auto simp: submission_ok_def op_live_def)
  have job: "submission_ok (mc_journal ?st) (Mc_Job job_id answer)" for job_id answer by (simp add: submission_ok_def)
  have "mc_journal st1 = mc_journal ?st" "\<forall>e \<in> set (mc_trace st1). submission_ok (mc_journal ?st) e"
    using step_turn_frame [OF assms(4)] new job assms(1) by (auto simp: sy_ok_def)
  moreover have "x \<in> set (sy_threads s) \<or> x = (svc, op, i, pv, t1)" if "x \<in> set ((sy_threads s)[k := (svc, op, i, pv, t1)])" for x
    using that set_update_subset_insert by fastforce
  ultimately show ?thesis using assms(1) live i unfolding sy_ok_def by fastforce
qed

lemma mcp_step_ok:
  assumes "mcp_step path p s s'" and "sy_ok s"
  shows "sy_ok s'"
  using assms(1)
proof cases
  case (Sy_Prepare st1 svc t st2 r)
  have ok: "jo_ok (mc_journal (sy_state s))" using assms(2) by (simp add: sy_ok_def)
  note m = provide_service_same [OF Sy_Prepare(2)] and pr = prepare_prepared [OF Sy_Prepare(3)]
  have js: "jo_step\<^sup>*\<^sup>* (mc_journal (sy_state s)) (mc_journal st2)" and tr: "mc_trace st2 = mc_trace (sy_state s)"
    using pr m by (auto simp: prepared_def journaled_def mc_same_def)
  have base: "sy_ok (s\<lparr>sy_state := st2\<rparr>)" using sy_ok_journal [OF assms(2) jo_steps_grown [OF js ok] tr] .
  have "op_live svc op (mc_journal st2)" if "r = Inr op" for op
    using pr that ok m provide_service_session [OF Sy_Prepare(2)] by (simp add: prepared_def mc_same_def)
  with base show ?thesis unfolding Sy_Prepare(1) by (cases r) (auto simp: sy_ok_def)
next
  case (Sy_Start svc op i pv)
  then show ?thesis using assms(2) by (fastforce simp: sy_ok_def)
next
  case (Sy_Turn k svc op i pv t st1 t1)
  then show ?thesis using sy_turn_ok [OF assms(2)] by blast
next
  case (Sy_World w)
  then show ?thesis using assms(2) by (simp add: sy_ok_def)
next
  case (Sy_Restart jpath j)
  have ok: "jo_ok (mc_journal (sy_state s))" using assms(2) by (simp add: sy_ok_def)
  have "jo_step (mc_journal (sy_state s)) j" using Sy_Restart(2) by (rule Jo_Restart)
  then have "jo_grown (mc_journal (sy_state s)) j" "jo_ok j" using jo_steps_grown ok by blast+
  then show ?thesis using assms(2) submission_ok_grown by (auto simp: Sy_Restart(1) sy_ok_def)
qed

interpretation adapter: stable_predicate "mcp_step path p" sy_ok for path and p :: "'w mcp_port"
  by unfold_locales (rule mcp_step_ok)

end
