(* ===== verification/Mcp_Runs.thy ===== *)
theory Mcp_Runs
  imports Mcp_Safety
begin

text \<open>
  What a tool of the MCP adapter does when it runs an operation: it is a run of the concurrent system, every step is submitted once, and the
  result says what the gateway answered.
\<close>

section \<open>A call is a run of the system\<close>

definition sy_reaches :: "string \<Rightarrow> 'w mcp_port \<Rightarrow> 'w mcp_system \<Rightarrow> 'w mcp \<Rightarrow> bool" where
  "sy_reaches path p s st \<longleftrightarrow> (\<exists>ths. (mcp_step path p)\<^sup>*\<^sup>* s (s\<lparr>sy_state := st, sy_threads := ths\<rparr>))"

lemma sy_reaches_trans:
  assumes "sy_reaches path p s st1" and "\<And>ths. sy_reaches path p (s\<lparr>sy_state := st1, sy_threads := ths\<rparr>) st2"
  shows "sy_reaches path p s st2"
  using assms by (fastforce simp: sy_reaches_def intro: rtranclp_trans)

lemma sy_reaches_refl: "sy_reaches path p s (sy_state s)"
  unfolding sy_reaches_def by (rule exI [of _ "sy_threads s"]) simp

lemma sy_reaches_world: "mc_same (sy_state s) st1 \<Longrightarrow> sy_reaches path p s st1"
proof -
  assume "mc_same (sy_state s) st1"
  then have "(sy_state s)\<lparr>mc_world := mc_world st1\<rparr> = st1" using mc_same_world by metis
  then have "mcp_step path p s (s\<lparr>sy_state := st1, sy_threads := sy_threads s\<rparr>)" using Sy_World [of path p s "mc_world st1"] by simp
  then show ?thesis unfolding sy_reaches_def by (intro exI [of _ "sy_threads s"] r_into_rtranclp)
qed

lemma run_turns_reach:
  assumes "run_turns p svc op i pv t st = Some (st', r)"
  shows "sy_state s = st \<longrightarrow> k < length (sy_threads s) \<longrightarrow> sy_threads s ! k = (svc, op, i, pv, t) \<longrightarrow> sy_reaches path p s st'"
proof (rule run_turns.raw_induct [where P = "\<lambda>p svc op i pv t st x. \<forall>s k. sy_state s = st \<longrightarrow> k < length (sy_threads s)
      \<longrightarrow> sy_threads s ! k = (svc, op, i, pv, t) \<longrightarrow> sy_reaches path p s (fst x)", OF _ assms, THEN spec, THEN spec, unfolded fst_conv],
    intro allI impI, goal_cases)
  case step: (1 rec p svc op i pv t st x s k)
  show ?case
  proof (cases "\<exists>r. t = T_Return r")
    case True
    then have "fst x = st" using step(2) by auto
    then show ?thesis using step(3) sy_reaches_refl by metis
  next
    case False
    obtain st1 t1 where 1: "step_turn p svc op i pv t st = (st1, t1)" by (cases "step_turn p svc op i pv t st")
    have x: "rec p svc op i pv t1 st1 = Some x" using step(2) False 1 by (auto split: turn.splits)
    let ?s1 = "s\<lparr>sy_state := st1, sy_threads := (sy_threads s)[k := (svc, op, i, pv, t1)]\<rparr>"
    have m: "mcp_step path p s ?s1" using Sy_Turn [OF step(4,5), of p st1 t1 path] 1 step(3) by simp
    have "sy_reaches path p ?s1 (fst x)" using step(1) [OF x] step(4) by simp
    then show ?thesis using m by (auto simp: sy_reaches_def intro: converse_rtranclp_into_rtranclp)
  qed
qed

lemma run_step_reach:
  assumes "run_step p svc op i pv st = Some (st', r)" and "(svc, op) \<in> set (sy_calls s)" and "i < length (op_steps op)" and "sy_state s = st"
  shows "sy_reaches path p s st'"
proof -
  let ?s = "s\<lparr>sy_threads := sy_threads s @ [(svc, op, i, pv, T_Submit)]\<rparr>"
  have m: "mcp_step path p s ?s" using Sy_Start [OF assms(2,3)] .
  have "sy_reaches path p ?s st'"
    using run_turns_reach [OF assms(1) [unfolded run_step_def], of ?s "length (sy_threads s)"] assms(4) by simp
  then show ?thesis using m by (auto simp: sy_reaches_def intro: converse_rtranclp_into_rtranclp)
qed

lemma run_sequential_reach:
  "run_sequential p svc op is st = Some (st', r) \<Longrightarrow> (svc, op) \<in> set (sy_calls s) \<Longrightarrow> \<forall>i \<in> set is. i < length (op_steps op)
    \<Longrightarrow> sy_state s = st \<Longrightarrow> sy_reaches path p s st'"
proof (induction "is" arbitrary: s st r)
  case Nil
  then show ?case using sy_reaches_refl by (auto simp del: id_apply)
next
  case (Cons i "is")
  obtain st1 r1 where 1: "run_step p svc op i batch_preview_bytes st = Some (st1, r1)"
    using Cons.prems(1) by (cases "run_step p svc op i batch_preview_bytes st") auto
  have s1: "sy_reaches path p s st1" using run_step_reach [OF 1 Cons.prems(2)] Cons.prems(3,4) by simp
  show ?case
  proof (cases r1)
    case (Inl e)
    then show ?thesis using Cons.prems(1) 1 s1 by simp
  next
    case (Inr x)
    then obtain r2 where 2: "run_sequential p svc op is st1 = Some (st', r2)"
      using Cons.prems(1) 1 by (auto split: option.splits sum.splits)
    have "sy_reaches path p (s\<lparr>sy_state := st1, sy_threads := ths\<rparr>) st'" for ths using Cons.IH [OF 2] Cons.prems(2,3) by simp
    then show ?thesis using sy_reaches_trans [OF s1] by blast
  qed
qed

definition tracks :: "mcp_service \<Rightarrow> operation \<Rightarrow> nat \<Rightarrow> goroutine list \<Rightarrow> thread list \<Rightarrow> bool" where
  "tracks svc op b gs ths \<longleftrightarrow> length ths = b + length gs \<and>
     (\<forall>i t. i < length gs \<longrightarrow> gs ! i = Go_Running t \<longrightarrow> ths ! (b + i) = (svc, op, i, batch_preview_bytes, t))"

lemma tracks_update: "tracks svc op b gs ths \<Longrightarrow> i < length gs
    \<Longrightarrow> tracks svc op b (gs[i := Go_Running t]) (ths[b + i := (svc, op, i, batch_preview_bytes, t)])"
  by (auto simp: tracks_def nth_list_update)

lemma tracks_sent: "tracks svc op b gs ths \<Longrightarrow> tracks svc op b (gs[i := Go_Sent]) ths"
  unfolding tracks_def by (metis goroutine.distinct(1) length_list_update nth_list_update_eq nth_list_update_neq)

lemma go_step_cases:
  obtains (idle) "go_step p svc op i (st, gs, chan) = (st, gs, chan)" and "\<not> (i < length gs \<and> (\<exists>t. gs ! i = Go_Running t))"
    | (send) r where "i < length gs" and "gs ! i = Go_Running (T_Return r)" and "go_step p svc op i (st, gs, chan) = (st, gs[i := Go_Sent], chan @ [(i, r)])"
    | (move) t st1 t1 where "i < length gs" and "gs ! i = Go_Running t" and "\<nexists>r. t = T_Return r"
        and "step_turn p svc op i batch_preview_bytes t st = (st1, t1)" and "go_step p svc op i (st, gs, chan) = (st1, gs[i := Go_Running t1], chan)"
proof (cases "i < length gs")
  case True
  show ?thesis
  proof (cases "gs ! i")
    case (Go_Running t)
    obtain st1 t1 where 1: "step_turn p svc op i batch_preview_bytes t st = (st1, t1)" by (cases "step_turn p svc op i batch_preview_bytes t st")
    show ?thesis
    proof (cases "\<exists>r. t = T_Return r")
      case True
      then show ?thesis using send \<open>i < length gs\<close> Go_Running by (auto simp: go_step_def)
    next
      case False
      then have "go_step p svc op i (st, gs, chan) = (st1, gs[i := Go_Running t1], chan)"
        using \<open>i < length gs\<close> Go_Running 1 by (auto simp: go_step_def split: turn.split)
      then show ?thesis using move [OF True Go_Running False 1] by blast
    qed
  qed (use True idle in \<open>simp add: go_step_def\<close>)
qed (use idle in \<open>simp add: go_step_def\<close>)

lemma go_steps_reach:
  "fold (go_step p svc op) schedule (st, gs, chan) = (st', gs', chan') \<Longrightarrow> sy_state s = st \<Longrightarrow> tracks svc op b gs (sy_threads s)
    \<Longrightarrow> sy_reaches path p s st'"
proof (induction schedule arbitrary: s st gs chan)
  case Nil
  then show ?case using sy_reaches_refl by auto
next
  case (Cons i schedule)
  show ?case
  proof (cases rule: go_step_cases [of p svc op i st gs chan])
    case idle
    then show ?thesis using Cons by simp
  next
    case (send r)
    then show ?thesis using Cons.IH [of st "gs[i := Go_Sent]" "chan @ [(i, r)]"] Cons.prems tracks_sent by simp
  next
    case (move t st1 t1)
    let ?s = "s\<lparr>sy_state := st1, sy_threads := (sy_threads s)[b + i := (svc, op, i, batch_preview_bytes, t1)]\<rparr>"
    have th: "b + i < length (sy_threads s)" "sy_threads s ! (b + i) = (svc, op, i, batch_preview_bytes, t)"
      using Cons.prems(3) move(1,2) by (auto simp: tracks_def)
    have m: "mcp_step path p s ?s" using Sy_Turn [OF th, of p st1 t1 path] move(4) Cons.prems(2) by simp
    have "sy_reaches path p ?s st'"
      using Cons.IH [of st1 "gs[i := Go_Running t1]" chan ?s] Cons.prems move tracks_update by simp
    then show ?thesis using m by (auto simp: sy_reaches_def intro: converse_rtranclp_into_rtranclp)
  qed
qed

lemma start_threads:
  assumes "(svc, op) \<in> set (sy_calls s)" and "n \<le> length (op_steps op)"
  shows "(mcp_step path p)\<^sup>*\<^sup>* s (s\<lparr>sy_threads := sy_threads s @ map (\<lambda>i. (svc, op, i, pv, T_Submit)) [0..<n]\<rparr>)"
  using assms(2)
proof (induction n)
  case (Suc n)
  let ?s = "s\<lparr>sy_threads := sy_threads s @ map (\<lambda>i. (svc, op, i, pv, T_Submit)) [0..<n]\<rparr>"
  have "mcp_step path p ?s (?s\<lparr>sy_threads := sy_threads ?s @ [(svc, op, n, pv, T_Submit)]\<rparr>)"
    using assms(1) Suc.prems by (intro Sy_Start) simp_all
  with Suc show ?case by (simp add: rtranclp.rtrancl_into_rtrancl)
qed simp

lemma run_parallel_reach:
  assumes "run_parallel p svc op schedule st = Some (st', r)" and "(svc, op) \<in> set (sy_calls s)" and "sy_state s = st"
  shows "sy_reaches path p s st'"
proof -
  let ?n = "length (op_steps op)" and ?gs = "replicate (length (op_steps op)) (Go_Running T_Submit)"
  let ?s = "s\<lparr>sy_threads := sy_threads s @ map (\<lambda>i. (svc, op, i, batch_preview_bytes, T_Submit)) [0..<?n]\<rparr>"
  obtain gs chan where f: "fold (go_step p svc op) schedule (st, ?gs, []) = (st', gs, chan)"
    using assms(1) by (auto simp: run_parallel_def start_batch_def split: prod.splits if_splits)
  have "tracks svc op (length (sy_threads s)) ?gs (sy_threads ?s)" by (simp add: tracks_def nth_append)
  then have "sy_reaches path p ?s st'" using go_steps_reach [OF f, of ?s] assms(3) by simp
  then show ?thesis
    using start_threads [OF assms(2) order_refl, of path p batch_preview_bytes] by (auto simp: sy_reaches_def intro: rtranclp_trans)
qed

lemma valid_op_steps: "valid_op op \<Longrightarrow> op_steps op \<noteq> [] \<and> (op_kind op \<noteq> Op_Batch \<longrightarrow> length (op_steps op) = 1)"
  by (auto simp: validate_operation_def split: if_splits)

lemma run_operation_reach:
  assumes "run_operation p svc schedule op st = Some (st', r)" and "(svc, op) \<in> set (sy_calls s)" and "sy_state s = st" and "valid_op op"
  shows "sy_reaches path p s st'"
proof (cases "op_kind op = Op_Batch")
  case True
  then show ?thesis
    using assms run_sequential_reach [of p svc op "[0..<length (op_steps op)]" st st' _ s path] run_parallel_reach [of p svc op schedule st st' _ s path]
    by (auto simp: run_operation_def split: if_splits)
next
  case False
  then obtain x where "run_step p svc op 0 exec_preview_bytes st = Some (st', x)" using assms(1) by (auto simp: run_operation_def)
  then show ?thesis using run_step_reach assms(2,3) valid_op_steps [OF assms(4)] by blast
qed

lemma tool_call_reaches:
  assumes "tool_call path p schedule t st = Some (st', r)" and "jo_ok (mc_journal st)"
  shows "\<exists>calls ths. (mcp_step path p)\<^sup>*\<^sup>* \<lparr>sy_state = st, sy_calls = [], sy_threads = []\<rparr> \<lparr>sy_state = st', sy_calls = calls, sy_threads = ths\<rparr>"
proof -
  let ?s = "\<lparr>sy_state = st, sy_calls = [], sy_threads = []\<rparr> :: 'a mcp_system"
  obtain st1 r1 where 1: "provide_service path p st = (st1, r1)" by (cases "provide_service path p st")
  note m1 = provide_service_same [OF 1]
  have quiet: ?thesis if "mc_same st st'" using sy_reaches_world [of ?s st' path p] that by (auto simp: sy_reaches_def)
  show ?thesis
  proof (cases r1)
    case (Inl e)
    then show ?thesis using quiet assms(1) 1 m1 by (simp add: tool_call_def)
  next
    case (Inr svc)
    obtain st2 r2 where 2: "prepare p svc t st1 = (st2, r2)" by (cases "prepare p svc t st1")
    show ?thesis
    proof (cases "\<exists>inp. t = Tool_Output inp")
      case True
      then obtain inp where out: "svc_output p svc inp st1 = (st', r)" using assms(1) 1 Inr by (auto simp: tool_call_def)
      have "mc_same st1 st'"
        using out mc_ask_same by (fastforce simp: svc_output_def split: sum.splits prod.splits)
      then show ?thesis using quiet mc_same_trans [OF m1] by blast
    next
      case False
      let ?calls = "case r2 of Inl e \<Rightarrow> [] | Inr op \<Rightarrow> [(svc, op)]"
      have m: "mcp_step path p ?s \<lparr>sy_state = st2, sy_calls = ?calls, sy_threads = []\<rparr>"
        using Sy_Prepare [of path p ?s st1 svc t st2 r2] 1 Inr 2 by (cases r2) simp_all
      have "sy_reaches path p \<lparr>sy_state = st2, sy_calls = ?calls, sy_threads = []\<rparr> st'"
      proof (cases r2)
        case (Inl e)
        then have "st' = st2" using assms(1) 1 Inr 2 False by (auto simp: tool_call_def split: tool.splits)
        then show ?thesis using sy_reaches_refl [of path p "\<lparr>sy_state = st2, sy_calls = ?calls, sy_threads = []\<rparr>"] by simp
      next
        case op: (Inr op)
        have run: "run_operation p svc schedule op st2 = Some (st', r)" using assms(1) 1 Inr 2 op False by (auto simp: tool_call_def split: tool.splits)
        have ok1: "jo_ok (mc_journal st1)" using assms(2) m1 by (simp add: mc_same_def)
        note pr = prepare_prepared [OF 2, unfolded prepared_def]
        have ok2: "jo_ok (mc_journal st2)" using pr jo_steps_grown(2) ok1 by (auto simp: journaled_def)
        have "op_live svc op (mc_journal st2)" using pr op ok1 provide_service_session [of path p st st1 svc] 1 Inr by simp
        then have "valid_op op" using file_journal.got_valid [OF ok2] by (auto simp: op_live_def)
        then show ?thesis using run_operation_reach [OF run] op by simp
      qed
      then show ?thesis using m by (auto simp: sy_reaches_def intro: converse_rtranclp_into_rtranclp)
    qed
  qed
qed

text \<open>
  C15. The tools refine the concurrent system: a call of any tool that returns - whichever tool, input, schedule of its goroutines, answers and failures -
  takes the adapter from the state before to the state after through steps of that system, so that everything shown of the system's runs holds
  of what the tools do.
\<close>

theorem tool_call_refines:
  assumes "tool_call path p schedule t st = Some (st', r)" and "jo_ok (mc_journal st)"
  shows "\<exists>calls ths. (mcp_step path p)\<^sup>*\<^sup>* \<lparr>sy_state = st, sy_calls = [], sy_threads = []\<rparr> \<lparr>sy_state = st', sy_calls = calls, sy_threads = ths\<rparr>"
  using tool_call_reaches [OF assms] .

text \<open>
  C13. Whatever the MCP adapter submits to the gateway - in any interleaving of calls and of the goroutines of parallel batches, with any answers,
  failures, rotations of the capability and restarts - is a step of an operation that was on disk, in the journal, at the moment of the submission; that
  belongs to the session of the capability it is submitted with; that the journal still returns unchanged, so that a later check submits
  the same request identifier and command again; and that the policy permits: a command that the classifier neither denies nor holds to
  need shell authority, with a timeout of at most 900 seconds, or, only if the capability has shell authority, Python code.
\<close>

theorem mcp_submits_journaled:
  assumes "jo_open jpath file = Inr j"
    and "(mcp_step path p)\<^sup>*\<^sup>* \<lparr>sy_state = \<lparr>mc_journal = j, mc_trace = [], mc_world = w\<rparr>, sy_calls = [], sy_threads = []\<rparr> s"
    and "Mc_Submit svc disk command answer \<in> set (mc_trace (sy_state s))"
  shows "\<exists>op ops i. disk = Some ops \<and> op \<in> set ops \<and> i < length (op_steps op) \<and> command = step_command op i
    \<and> jo_get (op_id op) (ms_session_id svc) (mc_journal (sy_state s)) = Inr op
    \<and> (structured_step (op_steps op ! i) \<or> op_kind op = Op_Code \<and> ms_allow_code svc \<and> code_step (op_steps op ! i))"
proof -
  have "sy_ok \<lparr>sy_state = \<lparr>mc_journal = j, mc_trace = [], mc_world = w\<rparr>, sy_calls = [], sy_threads = []\<rparr>"
    using jo_open_ok [OF assms(1)] by (simp add: sy_ok_def)
  then have "sy_ok s" using adapter.steps_keep [OF assms(2)] by blast
  then have "submission_ok (mc_journal (sy_state s)) (Mc_Submit svc disk command answer)" using assms(3) by (simp add: sy_ok_def)
  then obtain op ops i where o: "disk = Some ops" "op \<in> set ops" "i < length (op_steps op)" "command = step_command op i"
      "jo_get (op_id op) (ms_session_id svc) (mc_journal (sy_state s)) = Inr op" and pm: "permitted (ms_allow_code svc) op"
    by (auto simp: submission_ok_def)
  have "structured_step (op_steps op ! i) \<or> op_kind op = Op_Code \<and> ms_allow_code svc \<and> code_step (op_steps op ! i)"
    using pm o(3) by (auto simp: permitted_def)
  with o show ?thesis by blast
qed

section \<open>What is submitted, and what is reported\<close>

fun submits :: "mcp_event list \<Rightarrow> command_request list" where
  "submits [] = []"
| "submits (Mc_Submit svc disk command answer # es) = command # submits es"
| "submits (Mc_Job job_id answer # es) = submits es"

lemma submits_append [simp]: "submits (es @ fs) = submits es @ submits fs"
  by (induction es rule: submits.induct) simp_all

text \<open>A result of a step is what the gateway answered to the submission of that step, or about the job that it named there.\<close>

definition submitted_with :: "mcp_event list \<Rightarrow> mcp_service \<Rightarrow> operation \<Rightarrow> nat \<Rightarrow> gateway_response \<Rightarrow> bool" where
  "submitted_with es svc op i answer \<longleftrightarrow> (\<exists>disk. Mc_Submit svc disk (step_command op i) (Inr answer) \<in> set es)"

definition explains :: "mcp_event list \<Rightarrow> int \<Rightarrow> nat \<Rightarrow> gateway_response \<Rightarrow> step_result \<Rightarrow> bool" where
  "explains es pv i answer r \<longleftrightarrow>
     sb_decision answer = ''approval_required'' \<and> r = plain_step i ''awaiting_approval''
     \<or> sb_decision answer = ''deny'' \<and> r = plain_step i ''denied''
     \<or> sb_decision answer = ''accepted'' \<and> (\<exists>job_id job. sb_job answer = Some job_id \<and> Mc_Job job_id (Inr job) \<in> set es
         \<and> terminal_status (cj_status job) \<and> r = result_from_job i job pv False [])"

definition justified :: "mcp_event list \<Rightarrow> mcp_service \<Rightarrow> operation \<Rightarrow> int \<Rightarrow> nat \<Rightarrow> step_result \<Rightarrow> bool" where
  "justified es svc op pv i r \<longleftrightarrow> (\<exists>answer. submitted_with es svc op i answer \<and> explains es pv i answer r)"

definition turn_ok :: "mcp_event list \<Rightarrow> mcp_service \<Rightarrow> operation \<Rightarrow> int \<Rightarrow> nat \<Rightarrow> turn \<Rightarrow> bool" where
  "turn_ok es svc op pv i t \<longleftrightarrow>
     (case t of
        T_Submit \<Rightarrow> True
      | T_Poll job_id \<Rightarrow> (\<exists>answer. submitted_with es svc op i answer \<and> sb_decision answer = ''accepted'' \<and> sb_job answer = Some job_id)
      | T_Sleep job_id \<Rightarrow> (\<exists>answer. submitted_with es svc op i answer \<and> sb_decision answer = ''accepted'' \<and> sb_job answer = Some job_id)
      | T_Return (Inl e) \<Rightarrow> True
      | T_Return (Inr r) \<Rightarrow> justified es svc op pv i r)"

lemma submitted_with_mono: "submitted_with es svc op i a \<Longrightarrow> set es \<subseteq> set fs \<Longrightarrow> submitted_with fs svc op i a"
  by (auto simp: submitted_with_def)

lemma explains_mono: "explains es pv i answer r \<Longrightarrow> set es \<subseteq> set fs \<Longrightarrow> explains fs pv i answer r"
  unfolding explains_def by blast

lemma justified_mono: "justified es svc op pv i r \<Longrightarrow> set es \<subseteq> set fs \<Longrightarrow> justified fs svc op pv i r"
  unfolding justified_def using submitted_with_mono explains_mono by blast

lemma turn_ok_mono:
  assumes "turn_ok es svc op pv i t" and "set es \<subseteq> set fs"
  shows "turn_ok fs svc op pv i t"
proof (cases t)
  case (T_Return r)
  then show ?thesis using assms justified_mono by (cases r) (auto simp: turn_ok_def)
next
  case (T_Poll job_id)
  then show ?thesis using assms submitted_with_mono by (simp add: turn_ok_def) blast
next
  case (T_Sleep job_id)
  then show ?thesis using assms submitted_with_mono by (simp add: turn_ok_def) blast
qed (simp add: turn_ok_def)

lemma after_submit_ok:
  assumes "\<And>a. answer = Inr a \<Longrightarrow> submitted_with es svc op i a"
  shows "turn_ok es svc op pv i (after_submit i answer)"
proof (cases answer)
  case (Inr a)
  have s: "submitted_with es svc op i a" using assms Inr by blast
  have "justified es svc op pv i r" if "explains es pv i a r" for r using that s by (auto simp: justified_def)
  then show ?thesis using s by (auto simp: turn_ok_def after_submit_def Inr explains_def split: option.splits)
qed (simp add: turn_ok_def after_submit_def)

lemma after_poll_ok:
  assumes "turn_ok es svc op pv i (T_Poll job_id)"
  shows "turn_ok (es @ [Mc_Job job_id answer]) svc op pv i (after_poll i pv job_id answer)"
proof -
  obtain a where a: "submitted_with (es @ [Mc_Job job_id answer]) svc op i a" "sb_decision a = ''accepted''" "sb_job a = Some job_id"
    using assms submitted_with_mono [of es svc op i _ "es @ [Mc_Job job_id answer]"] by (auto simp: turn_ok_def)
  have "justified (es @ [Mc_Job job_id (Inr job)]) svc op pv i (result_from_job i job pv False [])"
    if "answer = Inr job" "terminal_status (cj_status job)" for job
    unfolding justified_def explains_def using a that by (intro exI [of _ a]) auto
  then show ?thesis using a by (cases answer) (auto simp: turn_ok_def after_poll_def)
qed

lemma step_turn_events:
  assumes "step_turn p svc op i pv t st = (st1, t1)"
  obtains es where "mc_trace st1 = mc_trace st @ es" and "mc_journal st1 = mc_journal st"
    and "submits es = (if t = T_Submit then [step_command op i] else [])" and "t1 \<noteq> T_Submit"
    and "\<And>old. turn_ok old svc op pv i t \<Longrightarrow> turn_ok (old @ es) svc op pv i t1"
proof (cases t)
  case T_Submit
  then obtain answer where 1: "mc_trace st1 = mc_trace st @ [Mc_Submit svc (jo_disk (mc_journal st)) (step_command op i) answer]"
      "t1 = after_submit i answer" "mc_journal st1 = mc_journal st"
    using assms mc_ask_same [of "ag_submit p (ms_capability svc) (step_command op i)" st]
    by (auto simp: step_turn_def mc_same_def mc_note_def split: prod.splits)
  have "t1 \<noteq> T_Submit" using 1(2) by (auto simp: after_submit_def split: sum.splits option.splits)
  moreover have "turn_ok (old @ [Mc_Submit svc (jo_disk (mc_journal st)) (step_command op i) answer]) svc op pv i t1" for old
    unfolding 1(2) by (rule after_submit_ok) (auto simp: submitted_with_def)
  ultimately show ?thesis using that [of "[Mc_Submit svc (jo_disk (mc_journal st)) (step_command op i) answer]"] 1 T_Submit by simp
next
  case (T_Poll job_id)
  then obtain answer where 1: "mc_trace st1 = mc_trace st @ [Mc_Job job_id answer]" "t1 = after_poll i pv job_id answer" "mc_journal st1 = mc_journal st"
    using assms mc_ask_same [of "ag_job p (ms_capability svc) job_id" st] by (auto simp: step_turn_def mc_same_def mc_note_def split: prod.splits)
  have "t1 \<noteq> T_Submit" using 1(2) by (auto simp: after_poll_def split: sum.splits)
  then show ?thesis using that [of "[Mc_Job job_id answer]"] 1 T_Poll after_poll_ok by simp
next
  case (T_Sleep job_id)
  then have m: "mc_same st st1" and t1: "t1 = T_Poll job_id \<or> (\<exists>e. t1 = T_Return (Inl e))"
    using assms mc_ask_same [of "ag_wait p" st] by (auto simp: step_turn_def split: prod.splits option.splits)
  have "turn_ok old svc op pv i t \<Longrightarrow> turn_ok (old @ []) svc op pv i t1" for old using t1 T_Sleep by (auto simp: turn_ok_def)
  then show ?thesis using that [of "[]"] m t1 T_Sleep by (auto simp: mc_same_def)
next
  case (T_Return r)
  then show ?thesis using that [of "[]"] assms by (auto simp: step_turn_def)
qed

lemma run_turns_events:
  assumes "run_turns p svc op i pv t st = Some (st', r)" and "turn_ok old svc op pv i t"
  obtains es where "mc_trace st' = mc_trace st @ es" and "mc_journal st' = mc_journal st"
    and "submits es = (if t = T_Submit then [step_command op i] else [])" and "turn_ok (old @ es) svc op pv i (T_Return r)"
proof -
  define Q where "Q = (\<lambda>(p :: 'a mcp_port) svc op i pv t (st :: 'a mcp) (x :: 'a mcp \<times> (err + step_result)). \<forall>old. turn_ok old svc op pv i t \<longrightarrow> (\<exists>es. mc_trace (fst x) = mc_trace st @ es
      \<and> mc_journal (fst x) = mc_journal st \<and> submits es = (if t = T_Submit then [step_command op i] else [])
      \<and> turn_ok (old @ es) svc op pv i (T_Return (snd x))))"
  have "Q p svc op i pv t st (st', r)"
  proof (rule run_turns.raw_induct [where P = Q, OF _ assms(1)], goal_cases)
    case step: (1 rec p svc op i pv t st x)
    show ?case
    proof (cases "\<exists>r. t = T_Return r")
      case True
      then show ?thesis using step(2) by (auto simp: Q_def)
    next
      case False
      obtain st1 t1 where 1: "step_turn p svc op i pv t st = (st1, t1)" by (cases "step_turn p svc op i pv t st")
      have "rec p svc op i pv t1 st1 = Some x" using step(2) False 1 by (auto split: turn.splits)
      then have IH: "Q p svc op i pv t1 st1 x" by (rule step(1))
      from 1 obtain es where es: "mc_trace st1 = mc_trace st @ es" "mc_journal st1 = mc_journal st"
          "submits es = (if t = T_Submit then [step_command op i] else [])" "t1 \<noteq> T_Submit"
          "\<And>old. turn_ok old svc op pv i t \<Longrightarrow> turn_ok (old @ es) svc op pv i t1"
        by (rule step_turn_events) blast
      show ?thesis
        unfolding Q_def
      proof (intro allI impI)
        fix old assume "turn_ok old svc op pv i t"
        then obtain fs where "mc_trace (fst x) = mc_trace st1 @ fs" "mc_journal (fst x) = mc_journal st1" "submits fs = []"
            "turn_ok ((old @ es) @ fs) svc op pv i (T_Return (snd x))"
          using IH es(4,5) by (fastforce simp: Q_def)
        with es show "\<exists>es. mc_trace (fst x) = mc_trace st @ es \<and> mc_journal (fst x) = mc_journal st
            \<and> submits es = (if t = T_Submit then [step_command op i] else []) \<and> turn_ok (old @ es) svc op pv i (T_Return (snd x))"
          by (intro exI [of _ "es @ fs"]) simp
      qed
    qed
  qed
  then show ?thesis using that assms(2) by (auto simp: Q_def)
qed

lemma run_step_events:
  assumes "run_step p svc op i pv st = Some (st', r)"
  obtains es where "mc_trace st' = mc_trace st @ es" and "mc_journal st' = mc_journal st" and "submits es = [step_command op i]"
    and "\<And>x. r = Inr x \<Longrightarrow> justified es svc op pv i x"
proof -
  have "turn_ok [] svc op pv i T_Submit" by (simp add: turn_ok_def)
  from run_turns_events [OF assms [unfolded run_step_def] this] obtain es where "mc_trace st' = mc_trace st @ es"
      "mc_journal st' = mc_journal st" "submits es = [step_command op i]" "turn_ok es svc op pv i (T_Return r)" by auto
  then show ?thesis using that [of es] by (cases r) (simp_all add: turn_ok_def)
qed

section \<open>Batches\<close>

lemma run_sequential_events:
  "run_sequential p svc op is st = Some (st', r) \<Longrightarrow> \<exists>es. mc_trace st' = mc_trace st @ es \<and> mc_journal st' = mc_journal st
     \<and> prefix (submits es) (map (step_command op) is)
     \<and> (\<forall>rs. r = Inr rs \<longrightarrow> submits es = map (step_command op) is \<and> list_all2 (justified es svc op batch_preview_bytes) is rs)"
proof (induction "is" arbitrary: st r)
  case (Cons i "is")
  obtain st1 r1 where 1: "run_step p svc op i batch_preview_bytes st = Some (st1, r1)"
    using Cons.prems by (cases "run_step p svc op i batch_preview_bytes st") auto
  from 1 obtain es where es: "mc_trace st1 = mc_trace st @ es" "mc_journal st1 = mc_journal st" "submits es = [step_command op i]"
      "\<And>x. r1 = Inr x \<Longrightarrow> justified es svc op batch_preview_bytes i x"
    by (rule run_step_events) blast
  show ?case
  proof (cases r1)
    case (Inl e)
    then show ?thesis using Cons.prems 1 es by auto
  next
    case (Inr x)
    then obtain r2 where 2: "run_sequential p svc op is st1 = Some (st', r2)" and r: "r = map_sum id (\<lambda>rs. x # rs) r2"
      using Cons.prems 1 by (auto split: option.splits sum.splits)
    from Cons.IH [OF 2] obtain fs where fs: "mc_trace st' = mc_trace st1 @ fs" "mc_journal st' = mc_journal st1"
        "prefix (submits fs) (map (step_command op) is)"
        "\<And>rs. r2 = Inr rs \<Longrightarrow> submits fs = map (step_command op) is \<and> list_all2 (justified fs svc op batch_preview_bytes) is rs"
      by blast
    have j: "list_all2 (justified (es @ fs) svc op batch_preview_bytes) (i # is) (x # rs)" if "r2 = Inr rs" for rs
      using fs(4) [OF that] es(4) [OF Inr] justified_mono by (fastforce elim: list_all2_mono)
    show ?thesis using es fs j by (intro exI [of _ "es @ fs"]) (cases r2; auto simp: r)
  qed
qed auto

definition batch_ok :: "mcp_service \<Rightarrow> operation \<Rightarrow> 'w mcp \<Rightarrow> 'w batch_state \<Rightarrow> mcp_event list \<Rightarrow> bool" where
  "batch_ok svc op st0 b es \<longleftrightarrow> (case b of (st, gs, chan) \<Rightarrow>
     mc_trace st = mc_trace st0 @ es \<and> mc_journal st = mc_journal st0 \<and> length gs = length (op_steps op)
     \<and> (\<forall>i t. i < length gs \<longrightarrow> gs ! i = Go_Running t \<longrightarrow> turn_ok es svc op batch_preview_bytes i t)
     \<and> distinct (map fst chan) \<and> fst ` set chan = {i. i < length gs \<and> gs ! i = Go_Sent}
     \<and> (\<forall>i r. (i, Inr r) \<in> set chan \<longrightarrow> justified es svc op batch_preview_bytes i r)
     \<and> mset (submits es) = image_mset (step_command op) (mset_set {i. i < length gs \<and> gs ! i \<noteq> Go_Running T_Submit}))"

lemma batch_ok_send:
  assumes "batch_ok svc op st0 (st, gs, chan) es" and "i < length gs" and "gs ! i = Go_Running (T_Return r)"
  shows "batch_ok svc op st0 (st, gs[i := Go_Sent], chan @ [(i, r)]) es"
proof -
  have "turn_ok es svc op batch_preview_bytes i (T_Return r)" using assms by (simp add: batch_ok_def)
  then have "r = Inr x \<Longrightarrow> justified es svc op batch_preview_bytes i x" for x by (simp add: turn_ok_def)
  moreover have "{k. k < length gs \<and> gs[i := Go_Sent] ! k \<noteq> Go_Running T_Submit} = {k. k < length gs \<and> gs ! k \<noteq> Go_Running T_Submit}"
    using assms(2,3) by (auto simp: nth_list_update)
  moreover have "{k. k < length gs \<and> gs[i := Go_Sent] ! k = Go_Sent} = insert i {k. k < length gs \<and> gs ! k = Go_Sent}"
    using assms(2) by (auto simp: nth_list_update)
  moreover have "i \<notin> {k. k < length gs \<and> gs ! k = Go_Sent}" using assms(3) by simp
  moreover have "gs ! k = Go_Running t" if "gs[i := Go_Sent] ! k = Go_Running t" for k t
    using that assms(2) by (cases "k = i") simp_all
  ultimately show ?thesis using assms(1) by (auto simp: batch_ok_def)
qed

lemma batch_ok_move:
  assumes "batch_ok svc op st0 (st, gs, chan) es" and i: "i < length gs" and g: "gs ! i = Go_Running t"
    and "step_turn p svc op i batch_preview_bytes t st = (st1, t1)"
  shows "\<exists>fs. batch_ok svc op st0 (st1, gs[i := Go_Running t1], chan) (es @ fs)"
proof -
  let ?gs = "gs[i := Go_Running t1]"
  from assms(4) obtain fs where fs: "mc_trace st1 = mc_trace st @ fs" "mc_journal st1 = mc_journal st"
      "submits fs = (if t = T_Submit then [step_command op i] else [])" "t1 \<noteq> T_Submit"
      "\<And>old. turn_ok old svc op batch_preview_bytes i t \<Longrightarrow> turn_ok (old @ fs) svc op batch_preview_bytes i t1"
    by (rule step_turn_events) blast
  have sent: "{k. k < length gs \<and> ?gs ! k = Go_Sent} = {k. k < length gs \<and> gs ! k = Go_Sent}" using i g by (auto simp: nth_list_update)
  define S where "S gs = {k. k < length gs \<and> gs ! k \<noteq> Go_Running T_Submit}" for gs
  have S: "S ?gs = insert i (S gs)" and fin: "finite (S gs)" using i fs(4) by (auto simp: nth_list_update S_def)
  have ms0: "mset (submits es) = image_mset (step_command op) (mset_set (S gs))" using assms(1) by (simp add: batch_ok_def S_def)
  have ms: "mset (submits (es @ fs)) = image_mset (step_command op) (mset_set (S ?gs))"
  proof (cases "t = T_Submit")
    case True
    then have "i \<notin> S gs" using g by (simp add: S_def)
    then show ?thesis using True fs(3) fin by (simp add: S ms0)
  next
    case False
    then have "insert i (S gs) = S gs" using i g by (auto simp: S_def)
    then show ?thesis using False fs(3) by (simp add: S ms0)
  qed
  have mono: "turn_ok es svc op batch_preview_bytes k t' \<Longrightarrow> turn_ok (es @ fs) svc op batch_preview_bytes k t'"
    "justified es svc op batch_preview_bytes k r \<Longrightarrow> justified (es @ fs) svc op batch_preview_bytes k r" for k t' r
    using turn_ok_mono [of es] justified_mono [of es] by (simp_all add: subset_eq)
  have "turn_ok (es @ fs) svc op batch_preview_bytes i t1" using assms(1) i g fs(5) by (simp add: batch_ok_def)
  then have tk: "turn_ok (es @ fs) svc op batch_preview_bytes k t'" if "k < length gs" "?gs ! k = Go_Running t'" for k t'
    using that assms(1) mono(1) i by (cases "k = i") (auto simp: batch_ok_def)
  show ?thesis
    using assms(1) fs(1,2) tk mono(2) sent ms unfolding batch_ok_def S_def prod.case by (intro exI [of _ fs]) simp
qed

lemma go_steps_ok:
  "batch_ok svc op st0 b es \<Longrightarrow> \<exists>fs. batch_ok svc op st0 (fold (go_step p svc op) schedule b) (es @ fs)"
proof (induction schedule arbitrary: b es)
  case Nil
  then show ?case by (intro exI [of _ "[]"]) simp
next
  case (Cons i schedule)
  obtain st gs chan where b: "b = (st, gs, chan)" by (cases b)
  have "\<exists>fs. batch_ok svc op st0 (go_step p svc op i (st, gs, chan)) (es @ fs)"
  proof (cases rule: go_step_cases [of p svc op i st gs chan])
    case idle
    then show ?thesis using Cons.prems b by (intro exI [of _ "[]"]) simp
  next
    case (send r)
    then show ?thesis using batch_ok_send Cons.prems b by (intro exI [of _ "[]"]) simp
  next
    case (move t st1 t1)
    then show ?thesis using batch_ok_move Cons.prems b by fastforce
  qed
  then obtain fs where "batch_ok svc op st0 (go_step p svc op i (st, gs, chan)) (es @ fs)" by blast
  from Cons.IH [OF this] show ?case by (auto simp: b)
qed

lemma collect_results_eq:
  "collect_results chan steps = Inr rs \<Longrightarrow> distinct (map fst chan) \<Longrightarrow> length rs = length steps
     \<and> (\<forall>i r. (i, r) \<in> set chan \<longrightarrow> i < length steps \<longrightarrow> r = Inr (rs ! i)) \<and> (\<forall>i. i \<notin> fst ` set chan \<longrightarrow> rs ! i = steps ! i)"
proof (induction chan steps rule: collect_results.induct)
  case (3 i s chan steps)
  then have "length rs = length steps" "\<forall>k r. (k, r) \<in> set chan \<longrightarrow> k < length steps \<longrightarrow> r = Inr (rs ! k)"
      "\<forall>k. k \<notin> fst ` set chan \<longrightarrow> rs ! k = steps[i := s] ! k" "i \<notin> fst ` set chan" by auto
  then show ?case by auto
qed auto

lemma run_parallel_events:
  assumes "run_parallel p svc op schedule st = Some (st', r)"
  obtains es where "mc_trace st' = mc_trace st @ es" and "mc_journal st' = mc_journal st"
    and "mset (submits es) = mset (map (step_command op) [0..<length (op_steps op)])"
    and "\<And>rs. r = Inr rs \<Longrightarrow> list_all2 (justified es svc op batch_preview_bytes) [0..<length (op_steps op)] rs"
proof -
  let ?n = "length (op_steps op)"
  obtain gs chan where f: "fold (go_step p svc op) schedule (start_batch op st) = (st', gs, chan)" and all: "\<forall>g \<in> set gs. g = Go_Sent"
    and r: "r = collect_results chan (replicate ?n (plain_step 0 []))"
    using assms by (auto simp: run_parallel_def list_all_iff split: prod.splits if_splits)
  have none: "{i. i < ?n \<and> replicate ?n (Go_Running T_Submit) ! i \<noteq> Go_Running T_Submit} = {}" by auto
  have "batch_ok svc op st (start_batch op st) []"
    unfolding batch_ok_def start_batch_def prod.case length_replicate none by (simp add: turn_ok_def)
  from go_steps_ok [OF this, of p schedule] f obtain es where ok: "batch_ok svc op st (st', gs, chan) es" by auto
  have n: "length gs = ?n" using ok by (simp add: batch_ok_def)
  have g: "gs ! i = Go_Sent" if "i < ?n" for i using all that n nth_mem by metis
  then have S: "{i. i < length gs \<and> gs ! i \<noteq> Go_Running T_Submit} = {0..<?n}" "{i. i < length gs \<and> gs ! i = Go_Sent} = {0..<?n}"
    by (auto simp: n)
  have ms: "mset (submits es) = mset (map (step_command op) [0..<?n])" using ok S(1) by (simp add: batch_ok_def)
  have "list_all2 (justified es svc op batch_preview_bytes) [0..<?n] rs" if "r = Inr rs" for rs
  proof -
    have d: "distinct (map fst chan)" and fc: "fst ` set chan = {0..<?n}" using ok S(2) by (simp_all add: batch_ok_def)
    note c = collect_results_eq [OF that [unfolded r] d]
    have "justified es svc op batch_preview_bytes i (rs ! i)" if "i < ?n" for i
    proof -
      have "i \<in> fst ` set chan" using fc that by simp
      then obtain x where x: "(i, x) \<in> set chan" by force
      then have "x = Inr (rs ! i)" using c that by simp
      with x ok show ?thesis by (simp add: batch_ok_def)
    qed
    then show ?thesis using c by (simp add: list_all2_conv_all_nth)
  qed
  with ms ok show ?thesis using that [of es] by (simp add: batch_ok_def)
qed

text \<open>The status of a batch: the first step that is not successful decides, unless it is still running.\<close>

lemma aggregate_loop_eq:
  "aggregate_loop ss acc = ''succeeded'' \<longleftrightarrow> acc \<and> (\<forall>s \<in> set ss. tr_status s = ''succeeded'')"
  by (induction ss arbitrary: acc) auto

lemma aggregate_status_succeeded: "aggregate_status ss = ''succeeded'' \<longleftrightarrow> ss \<noteq> [] \<and> (\<forall>s \<in> set ss. tr_status s = ''succeeded'')"
  by (auto simp: aggregate_status_def aggregate_loop_eq)

definition reports :: "operation \<Rightarrow> step_result list \<Rightarrow> operation_result \<Rightarrow> bool" where
  "reports op rs res \<longleftrightarrow>
     (if op_kind op = Op_Batch
      then oz_id res = op_id op \<and> oz_steps res = rs
        \<and> (oz_status res = ''succeeded'' \<longleftrightarrow> (\<forall>r \<in> set rs. tr_status r = ''succeeded''))
      else res = single_result op (rs ! 0))"

abbreviation preview_of :: "operation \<Rightarrow> int" where
  "preview_of op \<equiv> (if op_kind op = Op_Batch then batch_preview_bytes else exec_preview_bytes)"


section \<open>Every call returns\<close>

text \<open>
  A call waits for its jobs as long as its context lives. The contract of the context: a wait that was not interrupted leaves less of it, and the other
  calls do not extend it.
\<close>

locale finite_context =
  fixes port :: "'w mcp_port" and remaining :: "'w \<Rightarrow> nat"
  assumes submit_keeps: "remaining (fst (ag_submit port token command w)) \<le> remaining w"
    and job_keeps: "remaining (fst (ag_job port token job_id w)) \<le> remaining w"
    and wait_uses: "ag_wait port w = (w', None) \<Longrightarrow> remaining w' < remaining w"
begin

definition effort :: "turn \<Rightarrow> 'w mcp \<Rightarrow> nat" where
  "effort t st =
     (let later = 2 * remaining (mc_world st) in case t of T_Submit \<Rightarrow> later + 3 | T_Poll j \<Rightarrow> later + 2 | T_Sleep j \<Rightarrow> later + 1 | T_Return r \<Rightarrow> 0)"

lemma step_turn_effort:
  assumes "step_turn port svc op i pv t st = (st1, t1)" and "\<nexists>r. t = T_Return r"
  shows "effort t1 st1 < effort t st"
proof (cases t)
  case T_Submit
  obtain w answer where w: "ag_submit port (ms_capability svc) (step_command op i) (mc_world st) = (w, answer)"
    by (cases "ag_submit port (ms_capability svc) (step_command op i) (mc_world st)")
  have "t1 = after_submit i answer" "mc_world st1 = w" using assms(1) T_Submit w by (auto simp: step_turn_def mc_ask_def mc_note_def)
  moreover have "(\<exists>j. after_submit i answer = T_Poll j) \<or> (\<exists>r. after_submit i answer = T_Return r)"
    by (auto simp: after_submit_def split: sum.splits option.splits)
  moreover have "remaining w \<le> remaining (mc_world st)" using submit_keeps w by (metis fst_conv)
  ultimately show ?thesis using T_Submit by (auto simp: effort_def Let_def)
next
  case (T_Poll job_id)
  obtain w answer where w: "ag_job port (ms_capability svc) job_id (mc_world st) = (w, answer)"
    by (cases "ag_job port (ms_capability svc) job_id (mc_world st)")
  have "t1 = after_poll i pv job_id answer" "mc_world st1 = w" using assms(1) T_Poll w by (auto simp: step_turn_def mc_ask_def mc_note_def)
  moreover have "after_poll i pv job_id answer = T_Sleep job_id \<or> (\<exists>r. after_poll i pv job_id answer = T_Return r)"
    by (auto simp: after_poll_def split: sum.splits)
  moreover have "remaining w \<le> remaining (mc_world st)" using job_keeps w by (metis fst_conv)
  ultimately show ?thesis using T_Poll by (auto simp: effort_def Let_def)
next
  case (T_Sleep job_id)
  obtain w x where w: "ag_wait port (mc_world st) = (w, x)" by (cases "ag_wait port (mc_world st)")
  show ?thesis
  proof (cases x)
    case None
    then have "t1 = T_Poll job_id" "mc_world st1 = w" using assms(1) T_Sleep w by (auto simp: step_turn_def mc_ask_def)
    then show ?thesis using wait_uses [of "mc_world st" w] w None T_Sleep by (simp add: effort_def Let_def)
  next
    case (Some e)
    then show ?thesis using assms(1) T_Sleep w by (auto simp: step_turn_def mc_ask_def effort_def Let_def)
  qed
qed (use assms(2) in blast)

lemma run_turns_return: "\<exists>st' r. run_turns port svc op i pv t st = Some (st', r)"
proof (induction "effort t st" arbitrary: t st rule: less_induct)
  case less
  show ?case
  proof (cases "\<exists>r. t = T_Return r")
    case True
    then show ?thesis by (auto simp: run_turns.simps)
  next
    case False
    obtain st1 t1 where 1: "step_turn port svc op i pv t st = (st1, t1)" by (cases "step_turn port svc op i pv t st")
    have "run_turns port svc op i pv t st = run_turns port svc op i pv t1 st1"
      using False 1 by (subst run_turns.simps) (auto split: turn.splits)
    then show ?thesis using less [OF step_turn_effort [OF 1 False]] by simp
  qed
qed

lemma run_sequential_return: "\<exists>x. run_sequential port svc op is st = Some x"
proof (induction "is" arbitrary: st)
  case (Cons i "is")
  obtain st1 r1 where 1: "run_step port svc op i batch_preview_bytes st = Some (st1, r1)" using run_turns_return unfolding run_step_def by blast
  then show ?case using Cons [of st1] by (cases r1) (auto split: sum.splits)
qed simp

text \<open>A goroutine that is scheduled often enough sends its result.\<close>

lemma goroutine_sends:
  assumes "i < length gs"
  shows "\<exists>k st' chan'. fold (go_step port svc op) (replicate k i) (st, gs, chan) = (st', gs[i := Go_Sent], chan')"
proof (cases "gs ! i")
  case Go_Sent
  then have "gs[i := Go_Sent] = gs" using list_update_id by metis
  then show ?thesis by (intro exI [of _ 0]) simp
next
  case (Go_Running t)
  with assms show ?thesis
  proof (induction "effort t st" arbitrary: t st gs rule: less_induct)
    case less
    show ?case
    proof (cases rule: go_step_cases [of port svc op i st gs chan])
      case idle
      then show ?thesis using less.prems by blast
    next
      case (send r)
      then show ?thesis by (intro exI [of _ 1]) simp
    next
      case (move t' st1 t1)
      then have t': "t' = t" using less.prems by simp
      have g: "i < length (gs[i := Go_Running t1])" "gs[i := Go_Running t1] ! i = Go_Running t1" using less.prems by simp_all
      obtain k st' chan' where "fold (go_step port svc op) (replicate k i) (st1, gs[i := Go_Running t1], chan) = (st', gs[i := Go_Running t1, i := Go_Sent], chan')"
        using less.hyps [OF step_turn_effort [OF move(4,3), unfolded t'] g] by blast
      then show ?thesis using move(5) by (intro exI [of _ "Suc k"]) simp
    qed
  qed
qed

lemma batch_sends:
  "\<forall>i \<in> set is. i < length gs \<Longrightarrow> \<exists>ext st' gs' chan'. fold (go_step port svc op) ext (st, gs, chan) = (st', gs', chan') \<and> length gs' = length gs
     \<and> (\<forall>i. i \<in> set is \<or> i < length gs \<and> gs ! i = Go_Sent \<longrightarrow> gs' ! i = Go_Sent)"
proof (induction "is" arbitrary: st gs chan)
  case Nil
  then show ?case by (intro exI [of _ "[]"]) simp
next
  case (Cons i "is")
  then obtain k st1 chan1 where 1: "fold (go_step port svc op) (replicate k i) (st, gs, chan) = (st1, gs[i := Go_Sent], chan1)"
    using goroutine_sends by (metis list.set_intros(1))
  obtain ext st' gs' chan' where "fold (go_step port svc op) ext (st1, gs[i := Go_Sent], chan1) = (st', gs', chan')" "length gs' = length gs"
      "\<forall>j. j \<in> set is \<or> j < length gs \<and> gs[i := Go_Sent] ! j = Go_Sent \<longrightarrow> gs' ! j = Go_Sent"
    using Cons.IH [of "gs[i := Go_Sent]" st1 chan1] Cons.prems by auto
  moreover have "gs[i := Go_Sent] ! j = Go_Sent" if "j = i \<or> j < length gs \<and> gs ! j = Go_Sent" for j
    using that Cons.prems by (auto simp: nth_list_update)
  ultimately show ?case using 1 Cons.prems by (intro exI [of _ "replicate k i @ ext"]) auto
qed

lemma run_parallel_return: "\<exists>ext x. run_parallel port svc op (schedule @ ext) st = Some x"
proof -
  let ?n = "length (op_steps op)"
  obtain st1 gs chan where 1: "fold (go_step port svc op) schedule (start_batch op st) = (st1, gs, chan)"
    by (cases "fold (go_step port svc op) schedule (start_batch op st)")
  obtain ext st' gs' chan' where 2: "fold (go_step port svc op) ext (st1, gs, chan) = (st', gs', chan')" "length gs' = length gs"
      "\<forall>i. i \<in> set [0..<length gs] \<or> i < length gs \<and> gs ! i = Go_Sent \<longrightarrow> gs' ! i = Go_Sent"
    using batch_sends [of "[0..<length gs]" gs svc op st1 chan] by auto
  then have "\<forall>g \<in> set gs'. g = Go_Sent" by (auto simp: in_set_conv_nth)
  then have "run_parallel port svc op (schedule @ ext) st = Some (st', collect_results chan' (replicate ?n (plain_step 0 [])))"
    using 1 2(1) by (simp add: run_parallel_def list_all_iff)
  then show ?thesis by blast
qed

lemma run_operation_return: "\<exists>ext x. run_operation port svc (schedule @ ext) op st = Some x"
proof (cases "op_kind op = Op_Batch \<and> op_parallel op")
  case True
  obtain ext x where "run_parallel port svc op (schedule @ ext) st = Some x" using run_parallel_return by blast
  then show ?thesis using True by (intro exI [of _ ext]) (simp add: run_operation_def)
next
  case False
  obtain x where "run_step port svc op 0 exec_preview_bytes st = Some x" using run_turns_return unfolding run_step_def by blast
  moreover obtain y where "run_sequential port svc op [0..<length (op_steps op)] st = Some y" using run_sequential_return by blast
  ultimately show ?thesis using False by (auto simp: run_operation_def)
qed

lemma tool_call_return: "\<exists>ext x. tool_call path port (schedule @ ext) t st = Some x"
proof -
  obtain st1 r1 where 1: "provide_service path port st = (st1, r1)" by (cases "provide_service path port st")
  show ?thesis
  proof (cases r1)
    case (Inr svc)
    obtain st2 r2 where 2: "prepare port svc t st1 = (st2, r2)" by (cases "prepare port svc t st1")
    show ?thesis
    proof (cases r2)
      case (Inl e)
      then show ?thesis using 1 2 Inr by (auto simp: tool_call_def split: tool.splits)
    next
      case op: (Inr op)
      obtain ext x where "run_operation port svc (schedule @ ext) op st2 = Some x" using run_operation_return by blast
      then show ?thesis using 1 2 Inr op by (intro exI [of _ ext]) (auto simp: tool_call_def split: tool.splits)
    qed
  qed (use 1 in \<open>simp add: tool_call_def\<close>)
qed

end

text \<open>
  C16. No tool of the MCP adapter hangs: when the context of the call is finite - it allows only so many waits, and neither a submission nor a question about a
  job extends it - every call of every tool returns, whatever the gateway answers; a parallel batch, after any beginning of its schedule,
  once the goroutines that are left have been scheduled.
\<close>

theorem tool_call_returns:
  assumes "\<And>token command w. remaining (fst (ag_submit p token command w)) \<le> remaining w"
    and "\<And>token job_id w. remaining (fst (ag_job p token job_id w)) \<le> remaining w"
    and "\<And>w w'. ag_wait p w = (w', None) \<Longrightarrow> (remaining w' :: nat) < remaining w"
  shows "\<exists>ext st' r. tool_call path p (schedule @ ext) t st = Some (st', r)"
  using finite_context.tool_call_return [OF finite_context.intro, OF assms, of path schedule t st] by auto

section \<open>An adapter with a deadline\<close>

text \<open>The context that a deadline ends: the port with a count of the waits that are left.\<close>

definition with_deadline :: "'w mcp_port \<Rightarrow> ('w \<times> nat) mcp_port" where
  "with_deadline p = (let lift = (\<lambda>f (w, n). case f w of (w', x) \<Rightarrow> ((w', n), x)) in
     \<lparr>ag_cap_file = lift (ag_cap_file p), ag_cap_env = (\<lambda>(w, n). case ag_cap_env p w of (w', x) \<Rightarrow> ((w', n), x)),
      ag_client = (\<lambda>a (w, n). case ag_client p a w of (w', x) \<Rightarrow> ((w', n), x)),
      ag_bootstrap = (\<lambda>a (w, n). case ag_bootstrap p a w of (w', x) \<Rightarrow> ((w', n), x)),
      ag_submit = (\<lambda>a c (w, n). case ag_submit p a c w of (w', x) \<Rightarrow> ((w', n), x)),
      ag_job = (\<lambda>a j (w, n). case ag_job p a j w of (w', x) \<Rightarrow> ((w', n), x)),
      ag_request = (\<lambda>a i (w, n). case ag_request p a i w of (w', x) \<Rightarrow> ((w', n), x)),
      ag_wait = (\<lambda>(w, n). if n = 0 then ((w, 0), Some (Err_Msg ''context deadline exceeded'')) else case ag_wait p w of (w', x) \<Rightarrow> ((w', n - 1), x)),
      ag_random = (\<lambda>k (w, n). case ag_random p k w of (w', x) \<Rightarrow> ((w', n), x)),
      ag_now = (\<lambda>(w, n). case ag_now p w of (w', x) \<Rightarrow> ((w', n), x)),
      ag_fault = (\<lambda>(w, n). case ag_fault p w of (w', x) \<Rightarrow> ((w', n), x))\<rparr>)"

lemma deadline_calls:
  "snd (fst (ag_submit (with_deadline p) token command w)) = snd w"
  "snd (fst (ag_job (with_deadline p) token job_id w)) = snd w"
  "ag_wait (with_deadline p) w = (w', None) \<Longrightarrow> snd w' < snd w"
  by (auto simp: with_deadline_def Let_def split: prod.splits if_splits)

interpretation deadline: finite_context "with_deadline p" snd for p :: "'w mcp_port"
  by unfold_locales (simp_all add: deadline_calls)

definition sample_token :: string where
  "sample_token = token_prefix @ b64url_encode (replicate 32 (CHR ''k''))"

definition sample_permissions :: permissions where
  "sample_permissions = \<lparr>perm_exec = True, perm_shell = False, perm_upload = False, perm_download = False, perm_history_read = False,
     perm_notes_read = False, perm_notes_write = False\<rparr>"

text \<open>A gateway that accepts every command; its job is still running when it is asked for the first time.\<close>

definition sample_port :: "nat mcp_port" where
  "sample_port =
     \<lparr>ag_cap_file = (\<lambda>w. (w, Cf_Data sample_token)), ag_cap_env = (\<lambda>w. (w, [])), ag_client = (\<lambda>a w. (w, None)),
      ag_bootstrap = (\<lambda>a w. (w, Inr \<lparr>bs_session_id = ''g1'', bs_purpose = [], bs_agent = [], bs_targets = [''web''],
        bs_permissions = sample_permissions, bs_issued_at = 1, bs_expires_at = 9\<rparr>)),
      ag_submit = (\<lambda>a c w. (w, Inr \<lparr>sb_accepted = True, sb_decision = ''accepted'', sb_approval_id = [], sb_job = Some ''j1''\<rparr>)),
      ag_job = (\<lambda>a j w. (w + 1, Inr \<lparr>cj_id = ''j1'', cj_request_id = [], cj_target = ''web'', cj_argv = [''/usr/bin/uptime''],
        cj_status = (if w = 0 then ''running'' else ''succeeded''), cj_result = None, cj_output = None\<rparr>)),
      ag_request = (\<lambda>a i w. (w, Inl (AE_Http 404 []))), ag_wait = (\<lambda>w. (w, None)),
      ag_random = (\<lambda>k w. (w, Some (replicate k (CHR ''r'')))), ag_now = (\<lambda>w. (w, 7)), ag_fault = (\<lambda>w. (w, None))\<rparr>"

definition sample_input :: exec_input where
  "sample_input = \<lparr>xi_target = ''web'', xi_argv = [''/usr/bin/uptime''], xi_timeout_seconds = 30\<rparr>"

definition sample_start :: "(nat \<times> nat) mcp" where
  "sample_start = \<lparr>mc_journal = \<lparr>jo_operations = [], jo_disk = None\<rparr>, mc_trace = [], mc_world = (0, 5)\<rparr>"

lemma sample_start_ok: "jo_open ''j'' Jf_Missing = Inr (mc_journal sample_start)" "jo_ok (mc_journal sample_start)"
proof -
  show "jo_open ''j'' Jf_Missing = Inr (mc_journal sample_start)" by code_simp
  then show "jo_ok (mc_journal sample_start)" by (rule jo_open_ok)
qed

abbreviation sample_adapter :: "(nat \<times> nat) mcp_port" where "sample_adapter \<equiv> with_deadline sample_port"

definition sample_service :: mcp_service where
  "sample_service = \<lparr>ms_capability = sample_token, ms_session_id = ''g1'', ms_allow_code = False\<rparr>"

definition sample_operation :: operation where
  "sample_operation = \<lparr>op_id = ''op-72727272727272727272727272727272'', op_session_id = ''g1'', op_kind = Op_Exec, op_target = ''web'',
     op_parallel = False, op_steps = [\<lparr>sp_request_id = ''req-727272727272727272727272'', sp_argv = [''/usr/bin/uptime''],
       sp_timeout_seconds = 30\<rparr>], op_created_at = 7\<rparr>"

lemma sample_provides: "provide_service ''cap'' sample_adapter sample_start = (sample_start, Inr sample_service)"
proof -
  have e: "validate_format sample_token = None" "trim_space sample_token = sample_token" "trim_space ''cap'' \<noteq> []" "trim_space ''g1'' = ''g1''"
    by code_simp+
  show ?thesis
    by (simp add: provide_service_def load_capability_def with_deadline_def sample_port_def sample_start_def mc_ask_def Let_def e new_service_def
        sample_permissions_def sample_service_def)
qed

lemma sample_step_valid:
  "validate_structured_step [''/usr/bin/uptime''] 30 = Inr \<lparr>sp_request_id = [], sp_argv = [''/usr/bin/uptime''], sp_timeout_seconds = 30\<rparr>"
proof -
  have e: "trim_space ''/usr/bin/uptime'' = ''/usr/bin/uptime''" "path_base ''/usr/bin/uptime'' = ''uptime''"
      "is_abs ''/usr/bin/uptime''" "trusted_system_executable_path ''/usr/bin/uptime''"
      "\<not> is_privilege_launcher ''uptime''" "\<not> is_arbitrary_code_carrier ''uptime''" "\<not> is_remote_exec_tool ''uptime''"
    by code_simp+
  have c: "classify [''/usr/bin/uptime''] = allow_result ''uptime'' ''no elevated-risk rule matched''"
    by (simp add: classify_def classify_rest_def e Let_def classifier_defs)
  show ?thesis
    by (simp add: validate_structured_step_def validate_timeout_def e(1) c allow_result_def requires_shell_def requires_shell_category_def)
qed

definition sample_stored :: "(nat \<times> nat) mcp" where
  "sample_stored = sample_start\<lparr>mc_journal := \<lparr>jo_operations = [(op_id sample_operation, sample_operation)], jo_disk = Some [sample_operation]\<rparr>\<rparr>"

lemma sample_creates: "jo_create sample_operation None (mc_journal sample_start) = (mc_journal sample_stored, None)"
  by code_simp

lemma sample_prepares: "prepare sample_adapter sample_service (Tool_Exec sample_input) sample_start = (sample_stored, Inr sample_operation)"
proof -
  have e: "trim_space ''web'' = ''web''" "''req-'' @ hex_encode (replicate 12 (CHR ''r'')) = ''req-727272727272727272727272''"
      "''op-'' @ hex_encode (replicate 16 (CHR ''r'')) = ''op-72727272727272727272727272727272''"
    by code_simp+
  have a: "mc_ask (ag_random sample_adapter k) sample_start = (sample_start, Some (replicate k (CHR ''r'')))"
      "mc_ask (ag_now sample_adapter) sample_start = (sample_start, 7)" "mc_ask (ag_fault sample_adapter) sample_start = (sample_start, None)" for k
    by (simp_all add: mc_ask_def with_deadline_def sample_port_def sample_start_def)
  have r: "new_request_id sample_adapter sample_start = (sample_start, Inr ''req-727272727272727272727272'')"
      "new_operation_id sample_adapter sample_start = (sample_start, Inr ''op-72727272727272727272727272727272'')"
    unfolding new_request_id_def new_operation_id_def a prod.case option.case e by simp_all
  have f: "fill_request_ids sample_adapter [\<lparr>sp_request_id = [], sp_argv = [''/usr/bin/uptime''], sp_timeout_seconds = 30\<rparr>] sample_start
      = (sample_start, Inr (op_steps sample_operation))"
    by (simp add: r sample_operation_def)
  have o: "\<lparr>op_id = ''op-72727272727272727272727272727272'', op_session_id = ms_session_id sample_service, op_kind = Op_Exec, op_target = ''web'',
      op_parallel = False, op_steps = op_steps sample_operation, op_created_at = 7\<rparr> = sample_operation"
    by (simp add: sample_operation_def sample_service_def)
  have s: "store_operation sample_adapter sample_operation sample_start = (sample_stored, Inr sample_operation)"
    by (simp add: store_operation_def a sample_creates) (simp add: sample_stored_def)
  show ?thesis
    by (simp add: prepare_def prepare_exec_def sample_input_def sample_step_valid create_operation_def e(1) Let_def f r(2) a(2) o s
        del: fill_request_ids.simps)
qed

lemma sample_runs:
  "\<exists>st'. run_operation sample_adapter sample_service [] sample_operation sample_stored
       = Some (st', Inr (single_result sample_operation ((plain_step 0 ''succeeded'')\<lparr>tr_job_id := ''j1''\<rparr>)))
     \<and> Mc_Submit sample_service (Some [sample_operation]) (step_command sample_operation 0)
         (Inr \<lparr>sb_accepted = True, sb_decision = ''accepted'', sb_approval_id = [], sb_job = Some ''j1''\<rparr>) \<in> set (mc_trace st')"
proof -
  have j: "trim_space ''j1'' \<noteq> []" by code_simp
  have k: "op_kind sample_operation \<noteq> Op_Batch" by (simp add: sample_operation_def)
  note step = step_turn_def mc_ask_def mc_note_def with_deadline_def sample_port_def sample_stored_def sample_start_def Let_def
    after_submit_def after_poll_def j terminal_status_def result_from_job_def model_status_def
  show ?thesis
    by (simp add: run_operation_def k run_step_def run_turns.simps [of _ _ _ _ _ T_Submit] run_turns.simps [of _ _ _ _ _ "T_Poll _"]
        run_turns.simps [of _ _ _ _ _ "T_Sleep _"] run_turns.simps [of _ _ _ _ _ "T_Return _"] step)
qed

lemma sample_call:
  "\<exists>st'. tool_call ''cap'' sample_adapter [] (Tool_Exec sample_input) sample_start
       = Some (st', Inr (single_result sample_operation ((plain_step 0 ''succeeded'')\<lparr>tr_job_id := ''j1''\<rparr>)))
     \<and> Mc_Submit sample_service (Some [sample_operation]) (step_command sample_operation 0)
         (Inr \<lparr>sb_accepted = True, sb_decision = ''accepted'', sb_approval_id = [], sb_job = Some ''j1''\<rparr>) \<in> set (mc_trace st')"
  using sample_runs by (simp add: tool_call_def sample_provides sample_prepares)

theorem tool_call_refines_witness:
  "\<exists>st' r calls ths. tool_call ''cap'' sample_adapter [] (Tool_Exec sample_input) sample_start = Some (st', Inr r)
     \<and> (mcp_step ''cap'' sample_adapter)\<^sup>*\<^sup>* \<lparr>sy_state = sample_start, sy_calls = [], sy_threads = []\<rparr>
         \<lparr>sy_state = st', sy_calls = calls, sy_threads = ths\<rparr>"
proof -
  obtain st' r where c: "tool_call ''cap'' sample_adapter [] (Tool_Exec sample_input) sample_start = Some (st', Inr r)" using sample_call by blast
  from tool_call_refines [OF c sample_start_ok(2)] c show ?thesis by blast
qed

theorem mcp_submits_journaled_witness:
  "\<exists>s op ops. (mcp_step ''cap'' sample_adapter)\<^sup>*\<^sup>* \<lparr>sy_state = sample_start, sy_calls = [], sy_threads = []\<rparr> s
     \<and> op \<in> set ops \<and> step_command sample_operation 0 = step_command op 0
     \<and> jo_get (op_id op) ''g1'' (mc_journal (sy_state s)) = Inr op"
proof -
  obtain st' r where c: "tool_call ''cap'' sample_adapter [] (Tool_Exec sample_input) sample_start = Some (st', r)"
    and m: "Mc_Submit sample_service (Some [sample_operation]) (step_command sample_operation 0)
         (Inr \<lparr>sb_accepted = True, sb_decision = ''accepted'', sb_approval_id = [], sb_job = Some ''j1''\<rparr>) \<in> set (mc_trace st')"
    using sample_call by blast
  from tool_call_reaches [OF c sample_start_ok(2)] obtain calls ths where
    run: "(mcp_step ''cap'' sample_adapter)\<^sup>*\<^sup>* \<lparr>sy_state = sample_start, sy_calls = [], sy_threads = []\<rparr>
      \<lparr>sy_state = st', sy_calls = calls, sy_threads = ths\<rparr>" by blast
  have s: "sample_start = \<lparr>mc_journal = mc_journal sample_start, mc_trace = [], mc_world = (0, 5)\<rparr>" by (simp add: sample_start_def)
  have "(mcp_step ''cap'' sample_adapter)\<^sup>*\<^sup>*
      \<lparr>sy_state = \<lparr>mc_journal = mc_journal sample_start, mc_trace = [], mc_world = (0, 5)\<rparr>, sy_calls = [], sy_threads = []\<rparr>
      \<lparr>sy_state = st', sy_calls = calls, sy_threads = ths\<rparr>"
    using run by (simp only: s [symmetric])
  from mcp_submits_journaled [OF sample_start_ok(1) this, of sample_service "Some [sample_operation]"] m
  obtain op i where op: "op \<in> set [sample_operation]" "i < length (op_steps op)" "step_command sample_operation 0 = step_command op i"
      "jo_get (op_id op) (ms_session_id sample_service) (mc_journal st') = Inr op"
    by fastforce
  then have "i = 0" by (simp add: sample_operation_def)
  with op run show ?thesis by (intro exI [of _ "\<lparr>sy_state = st', sy_calls = calls, sy_threads = ths\<rparr>"] exI [of _ op] exI [of _ "[sample_operation]"])
      (simp add: sample_service_def)
qed


theorem tool_call_returns_witness:
  "\<exists>ext st' r. tool_call ''cap'' sample_adapter ([] @ ext) (Tool_Exec sample_input) sample_start = Some (st', r)"
proof -
  have "ag_wait sample_adapter w = (w', None) \<Longrightarrow> snd w' < snd w" for w w' by (rule deadline_calls(3))
  moreover have "snd (fst (ag_submit sample_adapter a c w)) \<le> snd w" "snd (fst (ag_job sample_adapter a j w)) \<le> snd w" for a c j w
    by (simp_all add: deadline_calls)
  ultimately show ?thesis using tool_call_returns [where p = sample_adapter and remaining = snd] by blast
qed

end
