(* ===== verification/Mcp_Claim.thy ===== *)
theory Mcp_Claim
  imports Control_Commands Remote_Wrapper
begin

text \<open>
  Claim codes (\<open>internal/mcpclaim\<close>): the short-lived codes with which an MCP adapter obtains its capability. The validation of a claim's
  parameters, the form of a code, and the reading of a code that a person typed. The life of a claim is in the database.
\<close>

section \<open>Parameters of a claim\<close>

record claim_input =
  ci_agent :: string
  ci_purpose :: string
  ci_targets :: "string list"
  ci_permissions :: permissions
  ci_history :: history_scope
  ci_grant_ttl_seconds :: "64 word"
  ci_claim_ttl_seconds :: "64 word"

definition ttl_second :: "64 word" where "ttl_second = 1000000000"
definition min_claim_ttl :: "64 word" where "min_claim_ttl = 30 * ttl_second"
definition max_claim_ttl :: "64 word" where "max_claim_ttl = 300 * ttl_second"
definition min_claimed_grant_ttl :: "64 word" where "min_claimed_grant_ttl = 30 * ttl_second"
definition max_claimed_grant_ttl :: "64 word" where "max_claimed_grant_ttl = 28800 * ttl_second"

fun unique_loop :: "string list \<Rightarrow> string list \<Rightarrow> string list" where
  "unique_loop seen [] = []"
| "unique_loop seen (item # items) =
     (let target = trim_space item in
      if target = [] \<or> target \<in> set seen then unique_loop seen items else target # unique_loop (target # seen) items)"

definition unique_targets :: "string list \<Rightarrow> string list" where
  "unique_targets raw = unique_loop [] raw"

definition validate_issue_input :: "claim_input \<Rightarrow> err + claim_input" where
  "validate_issue_input input0 =
     (let input = input0\<lparr>ci_agent := trim_space (ci_agent input0), ci_purpose := trim_space (ci_purpose input0)\<rparr> in
      if ci_agent input = [] \<or> 128 < length (ci_agent input) then Inl (Err_Msg ''agent must be 1..128 characters'')
      else if ci_purpose input = [] \<or> 2048 < length (ci_purpose input) then Inl (Err_Msg ''purpose must be 1..2048 characters'')
      else (let input1 = input\<lparr>ci_targets := unique_targets (ci_targets input)\<rparr>;
          claim_ttl = ci_claim_ttl_seconds input * ttl_second; grant_ttl = ci_grant_ttl_seconds input * ttl_second in
        if ci_targets input1 = [] then Inl (Err_Msg ''at least one target is required'')
        else if list_ex (\<lambda>t. 128 < length t) (ci_targets input1) then Inl (Err_Msg ''target must be 1..128 characters'')
        else if sint claim_ttl < sint min_claim_ttl \<or> sint max_claim_ttl < sint claim_ttl
        then Inl (Err_Msg ''claim_ttl_seconds must be between 30 and 300'')
        else if sint grant_ttl < sint min_claimed_grant_ttl \<or> sint max_claimed_grant_ttl < sint grant_ttl
        then Inl (Err_Msg ''grant_ttl_seconds must be between 30 and 28800'')
        else if \<not> perm_exec (ci_permissions input1) then Inl (Err_Msg ''MCP claim must grant exec permission'')
        else Inr input1))"

lemma unique_loop_set: "set (unique_loop seen raw) = {t \<in> trim_space ` set raw. t \<noteq> []} - set seen"
  by (induction seen raw rule: unique_loop.induct) (auto simp: Let_def)

lemma unique_loop_distinct: "distinct (unique_loop seen raw)"
  by (induction seen raw rule: unique_loop.induct) (auto simp: Let_def unique_loop_set)

section \<open>Base 32\<close>

text \<open>Digits of a number in a base, the most significant first.\<close>

primrec be_digits :: "nat \<Rightarrow> nat \<Rightarrow> nat \<Rightarrow> nat list" where
  "be_digits b 0 n = []"
| "be_digits b (Suc k) n = be_digits b k (n div b) @ [n mod b]"

definition be_value :: "nat \<Rightarrow> nat list \<Rightarrow> nat" where
  "be_value b ds = foldl (\<lambda>n d. b * n + d) 0 ds"

lemma length_be_digits [simp]: "length (be_digits b k n) = k"
  by (induction k arbitrary: n) simp_all

lemma be_digits_less: "0 < b \<Longrightarrow> d \<in> set (be_digits b k n) \<Longrightarrow> d < b"
  by (induction k arbitrary: n) auto

lemma be_value_snoc [simp]: "be_value b (ds @ [d]) = b * be_value b ds + d" "be_value b [] = 0"
  by (simp_all add: be_value_def)

lemma be_value_digits: "be_value b (be_digits b k n) = n mod b ^ k"
proof (induction k arbitrary: n)
  case (Suc k)
  show ?case by (simp add: Suc mod_mult2_eq)
qed simp

lemma be_digits_value: "list_all (\<lambda>d. d < b) ds \<Longrightarrow> be_digits b (length ds) (be_value b ds) = ds"
proof (induction ds rule: rev_induct)
  case (snoc d ds)
  then have "d < b" "be_digits b (length ds) (be_value b ds) = ds" by simp_all
  then show ?case by simp
qed simp

lemma be_value_less: "list_all (\<lambda>d. d < b) ds \<Longrightarrow> be_value b ds < b ^ length ds"
proof (induction ds rule: rev_induct)
  case (snoc d ds)
  then have "d < b" "be_value b ds < b ^ length ds" by simp_all
  then have "b * be_value b ds + d < b * Suc (be_value b ds)" "b * Suc (be_value b ds) \<le> b * b ^ length ds"
    by (simp, intro mult_le_mono2) simp
  then have "b * be_value b ds + d < b * b ^ length ds" by (rule less_le_trans)
  then show ?case by simp
qed simp

text \<open>\<open>A\<close> to \<open>Z\<close> and \<open>2\<close> to \<open>7\<close>.\<close>

definition b32_char :: "nat \<Rightarrow> char" where
  "b32_char v = char_of (if v < 26 then 0x41 + v else 0x32 + (v - 26))"

definition b32_value :: "char \<Rightarrow> nat option" where
  "b32_value c = (let n = of_char c :: nat in
     if 0x41 \<le> n \<and> n \<le> 0x5A then Some (n - 0x41) else if 0x32 \<le> n \<and> n \<le> 0x37 then Some (n - 0x32 + 26) else None)"

text \<open>Five bytes are eight characters. Codes have 20 bytes, so that no group is incomplete.\<close>

definition b32_group :: "string \<Rightarrow> string" where
  "b32_group bs = map b32_char (be_digits 32 8 (be_value 256 (map of_char bs)))"

function b32_encode :: "string \<Rightarrow> string" where
  "b32_encode s = (if s = [] then [] else b32_group (take 5 s) @ b32_encode (drop 5 s))"
  by pat_completeness auto
termination by (relation "measure length") auto

declare b32_encode.simps [simp del]

definition b32_ungroup :: "nat list \<Rightarrow> string" where
  "b32_ungroup vs = map char_of (be_digits 256 5 (be_value 32 vs))"

function b32_bytes :: "nat list \<Rightarrow> string" where
  "b32_bytes vs = (if vs = [] then [] else b32_ungroup (take 8 vs) @ b32_bytes (drop 8 vs))"
  by pat_completeness auto
termination by (relation "measure length") auto

declare b32_bytes.simps [simp del]

text \<open>
  The decoder drops line ends. A text that is then not a whole number of groups decodes to fewer bytes or not at all; the caller, who has 32 characters
  and wants 20 bytes, refuses either.
\<close>

definition b32_decode :: "string \<Rightarrow> string option" where
  "b32_decode s0 =
     (let s = filter (\<lambda>c. c \<noteq> CHR 0x0A \<and> c \<noteq> CHR 0x0D) s0 in
      if length s mod 8 \<noteq> 0 \<or> list_ex (\<lambda>c. b32_value c = None) s then None else Some (b32_bytes (map (the \<circ> b32_value) s)))"

section \<open>Codes\<close>

definition code_prefix :: string where "code_prefix = ''MCP1-''"

fun groups4 :: "string \<Rightarrow> string list" where
  "groups4 (a # b # c # d # s) = [a, b, c, d] # groups4 s"
| "groups4 [] = []"
| "groups4 s = [s]"

definition claim_code :: "string \<Rightarrow> string" where
  "claim_code code_bytes = code_prefix @ join_with ''-'' (groups4 (b32_encode code_bytes))"

text \<open>\<open>Generate\<close>: what the two reads of random bytes gave.\<close>

definition generate :: "string option \<Rightarrow> string option \<Rightarrow> err + string \<times> string \<times> string" where
  "generate id_bytes code_bytes =
     (case id_bytes of
        None \<Rightarrow> Inl Err_Rand
      | Some i \<Rightarrow>
          (case code_bytes of
             None \<Rightarrow> Inl Err_Rand
           | Some b \<Rightarrow> (let code = claim_code b in Inr (''mcpclaim-'' @ hex_encode i, code, sha256 code))))"

text \<open>
  \<open>strings.ToUpper\<close>: the two runes outside ASCII that become ASCII letters, and the ASCII letters. What it makes of other runes outside ASCII is outside
  ASCII too, and no code has them.
\<close>

fun code_upper :: "string \<Rightarrow> string" where
  "code_upper [] = []"
| "code_upper (c # s) =
     (if c = CHR 0xC5 \<and> s \<noteq> [] \<and> hd s = CHR 0xBF then CHR ''S'' # code_upper (tl s)
      else if c = CHR 0xC4 \<and> s \<noteq> [] \<and> hd s = CHR 0xB1 then CHR ''I'' # code_upper (tl s)
      else (if 0x61 \<le> (of_char c :: nat) \<and> (of_char c :: nat) \<le> 0x7A then char_of (of_char c - (0x20 :: nat)) else c) # code_upper s)"

definition normalize_code :: "string \<Rightarrow> err + string" where
  "normalize_code raw =
     (let code = code_upper (trim_space raw); invalid = Inl (Err_Msg ''invalid MCP claim code'') in
      if \<not> has_prefix code code_prefix then invalid
      else (let parts = split_on CHR ''-'' (trim_prefix code code_prefix); compact = concat parts in
        if length parts \<noteq> 8 then invalid
        else if length compact \<noteq> 32 then invalid
        else (case b32_decode compact of
            None \<Rightarrow> invalid
          | Some decoded \<Rightarrow>
              if length decoded \<noteq> 20 then invalid
              else if list_ex (\<lambda>p. length p \<noteq> 4) parts then invalid
              else Inr (code_prefix @ join_with ''-'' parts))))"

definition hash_code :: "string \<Rightarrow> err + string" where
  "hash_code raw = (case normalize_code raw of Inl e \<Rightarrow> Inl e | Inr code \<Rightarrow> Inr (sha256 code))"

text \<open>The gateway's handler; the redemption itself is a call to the control plane.\<close>

definition redeem_mcp_claim :: "(string \<Rightarrow> 'w \<Rightarrow> 'w \<times> (err + 'r)) \<Rightarrow> string + string \<Rightarrow> 'w \<Rightarrow> 'w \<times> 'r reply" where
  "redeem_mcp_claim redeem body w =
     (case body of
        Inl e \<Rightarrow> (w, Reply_Error 400 ''valid MCP claim required'')
      | Inr claim_text \<Rightarrow>
          (case hash_code claim_text of
             Inl e \<Rightarrow> (w, Reply_Error 401 ''valid unused MCP claim required'')
           | Inr hash \<Rightarrow>
               (case redeem hash w of
                  (w1, Inl e) \<Rightarrow> (w1, Reply_Error 401 ''valid unused MCP claim required'')
                | (w1, Inr result) \<Rightarrow> (w1, Reply 200 result))))"

section \<open>Reading a code gives the code that was made\<close>

lemma b32_value_char: "v < 32 \<Longrightarrow> b32_value (b32_char v) = Some v"
  by (auto simp: b32_value_def b32_char_def Let_def)

lemma b32_value_Some: "b32_value c = Some v \<Longrightarrow> v < 32 \<and> b32_char v = c"
proof -
  assume "b32_value c = Some v"
  then show ?thesis by (auto simp: b32_value_def b32_char_def Let_def split: if_splits)
qed

lemma b32_char_plain: "v < 32 \<Longrightarrow> b32_char v \<noteq> CHR ''-'' \<and> b32_char v \<noteq> CHR 0x0A \<and> b32_char v \<noteq> CHR 0x0D"
  using b32_value_char [of v] by (auto simp: b32_value_def)

lemma length_b32_group [simp]: "length (b32_group bs) = 8" "length (b32_ungroup vs) = 5"
  by (simp_all add: b32_group_def b32_ungroup_def)

lemma b32_group_values: "list_all (\<lambda>c. \<exists>v < 32. c = b32_char v) (b32_group bs)"
  using be_digits_less [of 32] by (auto simp: b32_group_def list_all_iff)

lemma b32_ungroup_group: "length bs = 5 \<Longrightarrow> b32_ungroup (map (the \<circ> b32_value) (b32_group bs)) = bs"
proof -
  assume l: "length bs = 5"
  let ?ds = "map of_char bs :: nat list"
  have ds: "list_all (\<lambda>d. d < 256) ?ds" by (simp add: list_all_iff)
  then have "be_value 256 ?ds < 256 ^ 5" using be_value_less l by fastforce
  then have v: "be_value 32 (be_digits 32 8 (be_value 256 ?ds)) = be_value 256 ?ds" by (simp add: be_value_digits)
  have "map (the \<circ> b32_value) (b32_group bs) = be_digits 32 8 (be_value 256 ?ds)"
    using b32_value_char be_digits_less [of 32] by (auto simp: b32_group_def intro!: map_idI)
  then have "b32_ungroup (map (the \<circ> b32_value) (b32_group bs)) = map char_of (be_digits 256 5 (be_value 256 ?ds))"
    by (simp add: b32_ungroup_def v)
  also have "\<dots> = map char_of ?ds" using be_digits_value [OF ds] l by simp
  finally show ?thesis by (simp add: comp_def)
qed

lemma b32_group_ungroup: "length vs = 8 \<Longrightarrow> list_all (\<lambda>v. v < 32) vs \<Longrightarrow> b32_group (b32_ungroup vs) = map b32_char vs"
proof -
  assume l: "length vs = 8" and vs: "list_all (\<lambda>v. v < 32) vs"
  let ?ds = "be_digits 256 5 (be_value 32 vs)"
  have "be_value 32 vs < 32 ^ 8" using be_value_less [OF vs] l by simp
  then have v: "be_value 256 ?ds = be_value 32 vs" by (simp add: be_value_digits)
  have "map of_char (map char_of ?ds :: string) = ?ds"
    using be_digits_less [of 256] by (auto simp: comp_def intro!: map_idI)
  then have "b32_group (b32_ungroup vs) = map b32_char (be_digits 32 8 (be_value 32 vs))"
    by (simp add: b32_group_def b32_ungroup_def v)
  with be_digits_value [OF vs] l show ?thesis by simp
qed

lemma b32_append:
  "length a = 8 \<Longrightarrow> b32_bytes (a @ r) = b32_ungroup a @ b32_bytes r"
  "length s = 5 \<Longrightarrow> b32_encode (s @ u) = b32_group s @ b32_encode u"
  by (subst b32_bytes.simps, fastforce) (subst b32_encode.simps, fastforce)

lemma b32_bytes_encode: "length s = 5 * n \<Longrightarrow> length (b32_encode s) = 8 * n \<and> list_all (\<lambda>c. \<exists>v < 32. c = b32_char v) (b32_encode s)
    \<and> b32_bytes (map (the \<circ> b32_value) (b32_encode s)) = s"
proof (induction n arbitrary: s)
  case 0
  then show ?case by (simp add: b32_encode.simps b32_bytes.simps)
next
  case (Suc n)
  then have ne: "s \<noteq> []" and l: "length (take 5 s) = 5" "length (drop 5 s) = 5 * n" by auto
  have e: "b32_encode s = b32_group (take 5 s) @ b32_encode (drop 5 s)" using ne by (subst b32_encode.simps) simp
  have "b32_bytes (map (the \<circ> b32_value) (b32_encode s)) = take 5 s @ drop 5 s"
    unfolding e map_append using Suc.IH [OF l(2)] b32_ungroup_group [OF l(1)] by (subst b32_append) (simp_all only: length_map length_b32_group)
  then show ?case using Suc.IH [OF l(2)] b32_group_values [of "take 5 s"] unfolding e by (simp add: comp_def)
qed

lemma b32_encode_bytes: "length vs = 8 * n \<Longrightarrow> list_all (\<lambda>v. v < 32) vs \<Longrightarrow>
    length (b32_bytes vs) = 5 * n \<and> b32_encode (b32_bytes vs) = map b32_char vs"
proof (induction n arbitrary: vs)
  case 0
  then show ?case by (simp add: b32_encode.simps b32_bytes.simps)
next
  case (Suc n)
  then have ne: "vs \<noteq> []" and l: "length (take 8 vs) = 8" "length (drop 8 vs) = 8 * n" by auto
  have a: "list_all (\<lambda>v. v < 32) (take 8 vs)" "list_all (\<lambda>v. v < 32) (drop 8 vs)"
    using Suc.prems(2) by (auto simp: list_all_iff dest: in_set_takeD in_set_dropD)
  have e: "b32_bytes vs = b32_ungroup (take 8 vs) @ b32_bytes (drop 8 vs)" using ne by (subst b32_bytes.simps) simp
  have "b32_encode (b32_bytes vs) = map b32_char (take 8 vs) @ map b32_char (drop 8 vs)"
    unfolding e using Suc.IH [OF l(2) a(2)] b32_group_ungroup [OF l(1) a(1)] by (subst b32_append) (simp_all only: length_b32_group)
  then show ?case using Suc.IH [OF l(2) a(2)] unfolding e by (simp add: map_append [symmetric] del: map_append)
qed

lemma split_not_Nil [simp]: "split_on d s \<noteq> []"
  by (induction s) (auto split: list.split)

lemma join_split: "join_with [d] (split_on d s) = s"
proof (induction s)
  case (Cons c s)
  obtain p ps where p: "split_on d s = p # ps" by (cases "split_on d s") auto
  with Cons show ?case by (cases ps) auto
qed simp

lemma groups4_parts: "list_all (\<lambda>p. length p = 4) ps \<Longrightarrow> groups4 (concat ps) = ps"
proof (induction ps)
  case (Cons p ps)
  then obtain a b c d where "p = [a, b, c, d]" by (auto simp: length_Suc_conv numeral_eq_Suc)
  with Cons show ?case by simp
qed simp

lemma concat_groups4: "concat (groups4 s) = s"
  by (induction s rule: groups4.induct) simp_all

lemma length_groups4: "length s = 4 * n \<Longrightarrow> length (groups4 s) = n \<and> list_all (\<lambda>p. length p = 4) (groups4 s)"
proof (induction n arbitrary: s)
  case (Suc n)
  then obtain a b c d r where "s = a # b # c # d # r" "length r = 4 * n"
    by (cases s; cases "tl s"; cases "tl (tl s)"; cases "tl (tl (tl s))") auto
  with Suc.IH show ?case by simp
qed simp

lemma claim_text:
  assumes "length b = 20"
  shows "length (groups4 (b32_encode b)) = 8" and "list_all (\<lambda>p. length p = 4) (groups4 (b32_encode b))"
    and "\<forall>p \<in> set (groups4 (b32_encode b)). CHR ''-'' \<notin> set p" and "length (b32_encode b) = 32" and "b32_decode (b32_encode b) = Some b"
proof -
  have e: "length (b32_encode b) = 32" "list_all (\<lambda>c. \<exists>v < 32. c = b32_char v) (b32_encode b)"
    "b32_bytes (map (the \<circ> b32_value) (b32_encode b)) = b" using b32_bytes_encode [of b 4] assms by simp_all
  then show "length (b32_encode b) = 32" "length (groups4 (b32_encode b)) = 8" "list_all (\<lambda>p. length p = 4) (groups4 (b32_encode b))"
    using length_groups4 [of "b32_encode b" 8] by simp_all
  have plain: "c \<noteq> CHR ''-'' \<and> c \<noteq> CHR 0x0A \<and> c \<noteq> CHR 0x0D \<and> b32_value c \<noteq> None" if "c \<in> set (b32_encode b)" for c
    using e(2) that b32_char_plain b32_value_char by (fastforce simp: list_all_iff)
  have "set p \<subseteq> set (b32_encode b)" if "p \<in> set (groups4 (b32_encode b))" for p
    using that concat_groups4 [of "b32_encode b"] by (metis UN_upper set_concat)
  then show "\<forall>p \<in> set (groups4 (b32_encode b)). CHR ''-'' \<notin> set p" using plain by blast
  have "filter (\<lambda>c. c \<noteq> CHR 0x0A \<and> c \<noteq> CHR 0x0D) (b32_encode b) = b32_encode b" using plain by (simp add: filter_id_conv)
  moreover have "\<not> list_ex (\<lambda>c. b32_value c = None) (b32_encode b)" using plain by (simp add: list_ex_iff)
  ultimately show "b32_decode (b32_encode b) = Some b" using e(1,3) by (simp add: b32_decode_def Let_def)
qed

lemma b32_decode_exact:
  assumes "length s = 32" and "b32_decode s = Some d" and "length d = 20"
  shows "b32_encode d = s"
proof -
  let ?s = "filter (\<lambda>c. c \<noteq> CHR 0x0A \<and> c \<noteq> CHR 0x0D) s" let ?vs = "map (the \<circ> b32_value) ?s"
  have m: "length ?s mod 8 = 0" and v: "\<forall>c \<in> set ?s. b32_value c \<noteq> None" and d: "d = b32_bytes ?vs"
    using assms(2) by (auto simp: b32_decode_def Let_def list_ex_iff split: if_splits)
  then obtain n where n: "length ?s = 8 * n" by (auto simp: mod_eq_0_iff_dvd)
  have lt: "list_all (\<lambda>v. v < 32) ?vs" and ch: "map b32_char ?vs = ?s"
    using v b32_value_Some by (fastforce simp: list_all_iff, fastforce intro!: map_idI)
  have "length d = 5 * n \<and> b32_encode d = ?s" using b32_encode_bytes [of ?vs n] n lt ch unfolding d by simp
  with assms(3) n have "length ?s = 32" "b32_encode d = ?s" by simp_all
  moreover have "?s = s" using \<open>length ?s = 32\<close> assms(1) by (metis filter_id_conv length_filter_less nat_neq_iff)
  ultimately show ?thesis by simp
qed

text \<open>
  C26. Reading a code is exact: what a person typed is accepted if and only if, without spaces around it and in capitals, it is the code that \<open>Generate\<close> makes of some 20 random
  bytes, and then it is read as this very code. So a generated code is accepted in any capitalization, its digest is the one that was stored with the claim, and no
  two texts that are read as different codes stand for the same bytes.
\<close>

theorem claim_code_exact:
  "normalize_code raw = Inr code \<longleftrightarrow> (\<exists>b. length b = 20 \<and> code_upper (trim_space raw) = claim_code b \<and> code = claim_code b)"
proof
  assume n: "normalize_code raw = Inr code"
  let ?u = "code_upper (trim_space raw)"
  define parts where "parts = split_on CHR ''-'' (trim_prefix ?u code_prefix)"
  from n obtain d where p: "has_prefix ?u code_prefix" "length (concat parts) = 32" "b32_decode (concat parts) = Some d" "length d = 20"
    "list_all (\<lambda>p. length p = 4) parts" "code = code_prefix @ join_with ''-'' parts"
    unfolding normalize_code_def Let_def parts_def [symmetric] by (auto simp: list_ex_iff list_all_iff split: if_splits option.splits)
  have "groups4 (b32_encode d) = parts" using b32_decode_exact [OF p(2-4)] groups4_parts [OF p(5)] by simp
  then have c: "claim_code d = code" by (simp add: claim_code_def p(6))
  have "?u = code_prefix @ trim_prefix ?u code_prefix" using p(1) by (auto simp: trim_prefix_def has_prefix_def elim!: prefixE)
  then have "?u = code" unfolding p(6) parts_def join_split .
  with c p(4) show "\<exists>b. length b = 20 \<and> ?u = claim_code b \<and> code = claim_code b" by blast
next
  assume "\<exists>b. length b = 20 \<and> code_upper (trim_space raw) = claim_code b \<and> code = claim_code b"
  then obtain b where b: "length b = 20" "code_upper (trim_space raw) = claim_code b" "code = claim_code b" by blast
  note t = claim_text [OF b(1)]
  have s: "split_on CHR ''-'' (join_with ''-'' (groups4 (b32_encode b))) = groups4 (b32_encode b)"
    using t(1,3) by (intro split_on_join) auto
  show "normalize_code raw = Inr code"
    unfolding normalize_code_def b(2,3) claim_code_def Let_def trim_prefix_append has_prefix_append s concat_groups4
    using t b(1) by (auto simp: list_ex_iff list_all_iff)
qed

lemma validated_claim:
  assumes "validate_issue_input i = Inr j"
  shows "distinct (ci_targets j)" and "set (ci_targets j) = {t \<in> trim_space ` set (ci_targets i). t \<noteq> []}" and "ci_targets j \<noteq> []"
    and "perm_exec (ci_permissions j)" and "sint (ci_claim_ttl_seconds j * ttl_second) \<in> {sint min_claim_ttl .. sint max_claim_ttl}"
  using assms by (auto simp: validate_issue_input_def Let_def unique_targets_def unique_loop_distinct unique_loop_set split: if_splits)

text \<open>The lifetimes are compared after they were multiplied: a number of seconds that is far out of range may pass.\<close>

lemma claim_ttl_wraps:
  "validate_issue_input \<lparr>ci_agent = ''a'', ci_purpose = ''p'', ci_targets = [''t''], ci_permissions = no_permissions\<lparr>perm_exec := True\<rparr>,
     ci_history = no_history, ci_grant_ttl_seconds = 60, ci_claim_ttl_seconds = 18446744104\<rparr> \<noteq> Inl e"
proof -
  have "trim_space ''a'' = ''a''" "trim_space ''p'' = ''p''" "trim_space ''t'' = ''t''" by code_simp+
  then show ?thesis
    by (simp add: validate_issue_input_def Let_def unique_targets_def ttl_second_def min_claim_ttl_def max_claim_ttl_def min_claimed_grant_ttl_def max_claimed_grant_ttl_def)
qed

end
