(* ===== verification/Egress_Policy.thy ===== *)
theory Egress_Policy
  imports Ssh_Target Context_Store
begin

text \<open>
  The egress policy of the worker host (\<open>internal/egresspolicy\<close>, \<open>cmd/sentinel-egress-policy\<close>): which destinations the firewall of the
  host lets the worker reach, computed from the address of the control plane, the inventory of targets and the time sources, and rendered as a
  firewall file of the hypervisor. What \<open>url.Parse\<close> makes of the address of the control plane is an argument.
\<close>

section \<open>Data\<close>

record destination =
  de_ip :: string
  de_port :: "16 word"
  de_names :: "string list"

record policy_file =
  ep_version :: string
  ep_control :: destination
  ep_targets :: "destination list"
  ep_ntp :: "destination list"

definition egress_version :: string where "egress_version = ''sentinel-egress-v2''"

text \<open>The parts of a URL that are read; \<open>pu_user\<close> tells whether there is user information.\<close>

record parsed_url =
  pu_scheme :: string
  pu_host :: string
  pu_hostname :: string
  pu_port :: string
  pu_user :: bool
  pu_raw_query :: string
  pu_fragment :: string
  pu_path :: string

section \<open>Parsing\<close>

definition concrete_ip :: "ip_addr \<Rightarrow> bool" where
  "concrete_ip ip = is_global_unicast ip"

definition parse_concrete_ip :: "string \<Rightarrow> ip_addr option" where
  "parse_concrete_ip raw =
     (case parse_addr (trim_space raw) of
        None \<Rightarrow> None
      | Some a \<Rightarrow> (let ip = addr_unmap a in if \<not> concrete_ip ip then None else Some ip))"

definition label_char :: "char \<Rightarrow> bool" where
  "label_char c \<longleftrightarrow> (let n = of_char c :: nat in
     (0x61 \<le> n \<and> n \<le> 0x7A) \<or> (0x41 \<le> n \<and> n \<le> 0x5A) \<or> (0x30 \<le> n \<and> n \<le> 0x39) \<or> c \<in> set ''._:-'')"

definition safe_label :: "string \<Rightarrow> bool" where
  "safe_label value \<longleftrightarrow> \<not> (length value < 1 \<or> 128 < length value) \<and> list_all label_char value"

definition parse_literal_endpoint :: "string \<Rightarrow> err + ip_addr \<times> 16 word" where
  "parse_literal_endpoint raw =
     (case split_host_port (trim_space raw) of
        None \<Rightarrow> Inl (Err_Msg ''endpoint must be literal-ip:port'')
      | Some (host, port_text) \<Rightarrow>
          (case parse_concrete_ip host of
             None \<Rightarrow> Inl (Err_Msg ''endpoint must use a global-unicast literal IP'')
           | Some ip \<Rightarrow>
               (case atoi port_text of
                  None \<Rightarrow> Inl (Err_Msg ''endpoint has invalid port'')
                | Some port \<Rightarrow>
                    if port < 1 \<or> 65535 < port then Inl (Err_Msg ''endpoint has invalid port'') else Inr (ip, word_of_int port))))"

definition parse_literal_destination :: "destination \<Rightarrow> err + ip_addr \<times> 16 word" where
  "parse_literal_destination d =
     (case parse_concrete_ip (de_ip d) of
        None \<Rightarrow> Inl (Err_Msg ''destination IP must be global-unicast and literal'')
      | Some ip \<Rightarrow>
          if de_port d = 0 then Inl (Err_Msg ''destination port must be non-zero'')
          else if \<not> list_all safe_label (de_names d) then Inl (Err_Msg ''invalid destination label'')
          else Inr (ip, de_port d))"

definition parse_control :: "parsed_url option \<Rightarrow> err + destination" where
  "parse_control url =
     (case url of
        None \<Rightarrow> Inl (Err_Msg ''control URL must be a valid HTTPS URL with a host'')
      | Some u \<Rightarrow>
          if pu_host u = [] then Inl (Err_Msg ''control URL must be a valid HTTPS URL with a host'')
          else if pu_scheme u \<noteq> ''https'' then Inl (Err_Msg ''external worker egress policy requires an HTTPS control URL'')
          else if pu_user u \<or> pu_raw_query u \<noteq> [] \<or> pu_fragment u \<noteq> [] \<or> (pu_path u \<noteq> [] \<and> pu_path u \<noteq> ''/'')
          then Inl (Err_Msg ''control URL must contain only scheme, literal host and optional port'')
          else (case parse_concrete_ip (pu_hostname u) of
              None \<Rightarrow> Inl (Err_Msg ''control URL host must be a global-unicast literal IP; use TLS server_name separately'')
            | Some ip \<Rightarrow>
                if pu_port u \<noteq> [] then
                  (case atoi (pu_port u) of
                     None \<Rightarrow> Inl (Err_Msg ''control URL has invalid port'')
                   | Some value \<Rightarrow>
                       if value < 1 \<or> 65535 < value then Inl (Err_Msg ''control URL has invalid port'')
                       else Inr \<lparr>de_ip = addr_string ip, de_port = word_of_int value, de_names = []\<rparr>)
                else Inr \<lparr>de_ip = addr_string ip, de_port = 443, de_names = []\<rparr>))"

fun ntp_loop :: "string list \<Rightarrow> string list \<Rightarrow> err + destination list" where
  "ntp_loop seen [] = Inr []"
| "ntp_loop seen (raw # raws) =
     (case parse_concrete_ip raw of
        None \<Rightarrow> Inl (Err_Msg ''invalid NTP source: must be a global-unicast literal IP'')
      | Some ip \<Rightarrow>
          (let key = addr_string ip in
           if key \<in> set seen then ntp_loop seen raws
           else (case ntp_loop (key # seen) raws of
               Inl e \<Rightarrow> Inl e
             | Inr ds \<Rightarrow> Inr (\<lparr>de_ip = key, de_port = 123, de_names = []\<rparr> # ds))))"

definition parse_ntp_sources :: "string list \<Rightarrow> err + destination list" where
  "parse_ntp_sources values =
     (if values = [] then Inl (Err_Msg ''egress policy requires at least one trusted NTP source'')
      else (case ntp_loop [] values of
          Inl e \<Rightarrow> Inl e
        | Inr ds \<Rightarrow> Inr (sort_by (\<lambda>a b. str_less (de_ip a) (de_ip b)) ds)))"

section \<open>The policy\<close>

text \<open>The endpoints of the targets, by their text, each with its names; a name is kept once.\<close>

record endpoint =
  eg_ip :: ip_addr
  eg_port :: "16 word"
  eg_names :: "string list"

definition endpoint_key :: "ip_addr \<Rightarrow> 16 word \<Rightarrow> string" where
  "endpoint_key ip port = join_host_port (addr_string ip) (dec_int (uint port))"

fun collect_endpoints :: "target_spec list \<Rightarrow> (string \<times> endpoint) list \<Rightarrow> err + (string \<times> endpoint) list" where
  "collect_endpoints [] m = Inr m"
| "collect_endpoints (t # ts) m =
     (let name = trim_space (ts_name t) in
      if \<not> safe_label name then Inl (Err_Msg ''invalid SSH target name'')
      else (case parse_literal_endpoint (ts_address t) of
          Inl e \<Rightarrow> Inl e
        | Inr (ip, port) \<Rightarrow>
            (let key = endpoint_key ip port;
                 agg = (case map_of m key of None \<Rightarrow> \<lparr>eg_ip = ip, eg_port = port, eg_names = []\<rparr> | Some a \<Rightarrow> a) in
             collect_endpoints ts (AList.update key (agg\<lparr>eg_names := List.insert name (eg_names agg)\<rparr>) m))))"

definition endpoint_destination :: "endpoint \<Rightarrow> destination" where
  "endpoint_destination a = \<lparr>de_ip = addr_string (eg_ip a), de_port = eg_port a, de_names = sort_by str_less (eg_names a)\<rparr>"

definition destination_less :: "destination \<Rightarrow> destination \<Rightarrow> bool" where
  "destination_less a b =
     (if de_ip a \<noteq> de_ip b then str_less (de_ip a) (de_ip b)
      else if de_port a \<noteq> de_port b then de_port a < de_port b
      else str_less (join_with [CHR 0x00] (de_names a)) (join_with [CHR 0x00] (de_names b)))"

definition egress_build :: "parsed_url option \<Rightarrow> target_spec list \<Rightarrow> string list \<Rightarrow> err + policy_file" where
  "egress_build url targets ntp_sources =
     (case parse_control url of
        Inl e \<Rightarrow> Inl e
      | Inr control \<Rightarrow>
          if targets = [] then Inl (Err_Msg ''egress policy requires at least one SSH target'')
          else (case parse_ntp_sources ntp_sources of
              Inl e \<Rightarrow> Inl e
            | Inr ntp \<Rightarrow>
                (case collect_endpoints targets [] of
                   Inl e \<Rightarrow> Inl e
                 | Inr m \<Rightarrow>
                     Inr \<lparr>ep_version = egress_version, ep_control = control,
                       ep_targets = sort_by destination_less (map (endpoint_destination \<circ> snd) m), ep_ntp = ntp\<rparr>)))"

definition destination_json :: "destination \<Rightarrow> jval" where
  "destination_json d = JObj
     ([(''ip'', JStr (de_ip d)), (''port'', JInt (uint (de_port d)))]
      @ (if de_names d = [] then [] else [(''names'', JArr (map JStr (de_names d)))]))"

definition policy_json :: "policy_file \<Rightarrow> jval" where
  "policy_json p = JObj
     [(''version'', JStr (ep_version p)), (''control'', destination_json (ep_control p)),
      (''targets'', JArr (map destination_json (ep_targets p))), (''ntp'', JArr (map destination_json (ep_ntp p)))]"

definition policy_sha256 :: "policy_file \<Rightarrow> string" where
  "policy_sha256 p = sha256_hex (json_enc (policy_json p))"

definition policy_text :: "policy_file \<Rightarrow> string" where
  "policy_text p = marshal_indent (policy_json p)"

section \<open>Rendering\<close>

definition nl :: string where "nl = [CHR 0x0A]"

definition pve_rule :: "destination \<Rightarrow> string \<Rightarrow> string \<Rightarrow> string" where
  "pve_rule d protocol label =
     ''OUT ACCEPT -dest '' @ de_ip d @ '' -p '' @ protocol @ '' -dport '' @ dec_int (uint (de_port d)) @ '' -log nolog # '' @ label"

definition pve_header :: "string \<Rightarrow> string list" where
  "pve_header hash =
     [''# Generated by Tethys Sentinel. Apply on the Proxmox host, never from sentinel-worker.'', ''# policy_sha256: '' @ hash, [],
      ''[OPTIONS]'', [], ''enable: 1'', ''policy_in: ACCEPT'', ''policy_out: DROP'', [], ''[RULES]'', []]"

definition pve_rules :: "policy_file \<Rightarrow> string list" where
  "pve_rules p =
     pve_rule (ep_control p) ''tcp'' ''sentinel-control''
       # map (\<lambda>d. pve_rule d ''tcp'' (''ssh:'' @ join_with '','' (de_names d))) (ep_targets p)
       @ map (\<lambda>d. pve_rule d ''udp'' ''sentinel-ntp'') (ep_ntp p)"

fun check_ntp :: "destination list \<Rightarrow> err option" where
  "check_ntp [] = None"
| "check_ntp (d # ds) =
     (case parse_literal_destination d of
        Inl e \<Rightarrow> Some (Err_Msg ''invalid NTP destination'')
      | Inr (ip, port) \<Rightarrow>
          if port \<noteq> 123 then Some (Err_Msg ''NTP destination port must be 123'')
          else if de_names d \<noteq> [] then Some (Err_Msg ''NTP destination must not contain labels'')
          else check_ntp ds)"

text \<open>The builder receives every line with its newline.\<close>

definition render_pve :: "policy_file \<Rightarrow> err + string" where
  "render_pve p =
     (if ep_version p \<noteq> egress_version then Inl (Err_Msg ''unsupported egress policy version'')
      else if \<not> is_ok (parse_literal_destination (ep_control p)) then Inl (Err_Msg ''invalid control destination'')
      else if \<not> list_all (is_ok \<circ> parse_literal_destination) (ep_targets p) then Inl (Err_Msg ''invalid target destination'')
      else if ep_ntp p = [] then Inl (Err_Msg ''egress policy requires at least one NTP destination'')
      else (case check_ntp (ep_ntp p) of
          Some e \<Rightarrow> Inl e
        | None \<Rightarrow> Inr (concat (map (\<lambda>l. l @ nl) (pve_header (policy_sha256 p) @ pve_rules p)))))"

section \<open>Activation\<close>

text \<open>\<open>bufio.Scanner\<close> on a text: the lines without their ends, up to a line that the buffer of 64 KiB cannot hold; whether there is such a line.\<close>

definition drop_cr :: "string \<Rightarrow> string" where
  "drop_cr l = (if l \<noteq> [] \<and> last l = CHR 0x0D then butlast l else l)"

definition scan_lines :: "string \<Rightarrow> string list \<times> bool" where
  "scan_lines s =
     (let ls = split_on CHR 0x0A s; ls1 = (if last ls = [] then butlast ls else ls); short = (\<lambda>l. length l < 65536) in
      (map drop_cr (takeWhile short ls1), \<not> list_all short ls1))"

definition str_cut :: "char \<Rightarrow> string \<Rightarrow> (string \<times> string) option" where
  "str_cut c s = (if c \<in> set s then Some (takeWhile (\<lambda>d. d \<noteq> c) s, tl (dropWhile (\<lambda>d. d \<noteq> c) s)) else None)"

definition comment_line :: "string \<Rightarrow> bool" where
  "comment_line l \<longleftrightarrow> l = [] \<or> has_prefix l ''#''"

fun option_loop :: "string \<Rightarrow> bool \<Rightarrow> string list \<Rightarrow> bool" where
  "option_loop opt in_options [] = False"
| "option_loop opt in_options (raw # raws) =
     (let line = trim_space raw in
      if comment_line line then option_loop opt in_options raws
      else if has_prefix line ''['' \<and> last line = CHR '']'' then option_loop opt (fold_key line = fold_key ''[OPTIONS]'') raws
      else if \<not> in_options then option_loop opt in_options raws
      else (case str_cut CHR '':'' line of
          None \<Rightarrow> option_loop opt in_options raws
        | Some (key, value) \<Rightarrow>
            if trim_space key \<noteq> opt then option_loop opt in_options raws else trim_space value = ''1''))"

definition pve_option_enabled :: "string \<Rightarrow> string \<Rightarrow> bool" where
  "pve_option_enabled data opt = option_loop opt False (fst (scan_lines data))"

definition safe_net_name :: "string \<Rightarrow> bool" where
  "safe_net_name value \<longleftrightarrow> \<not> (length value < 4 \<or> \<not> has_prefix value ''net'') \<and> list_all digit (drop 3 value)"

fun interface_loop :: "string \<Rightarrow> string list \<Rightarrow> err option option" where
  "interface_loop pre [] = None"
| "interface_loop pre (raw # raws) =
     (let line = trim_space raw in
      if comment_line line \<or> \<not> has_prefix line pre then interface_loop pre raws
      else if list_ex (\<lambda>f. trim_space f = ''firewall=1'') (split_on CHR '','' (trim_space (trim_prefix line pre))) then Some None
      else Some (Some (Err_Msg ''Proxmox VM interface does not have firewall=1'')))"

definition verify_pve_activation :: "string \<Rightarrow> string \<Rightarrow> string \<Rightarrow> err option" where
  "verify_pve_activation cluster_firewall vm_config net_name0 =
     (let net_name = trim_space net_name0 in
      if \<not> safe_net_name net_name then Some (Err_Msg ''PVE network interface must be net followed by digits, for example net0'')
      else if \<not> pve_option_enabled cluster_firewall ''enable''
      then Some (Err_Msg ''Proxmox Datacenter firewall is not enabled in cluster firewall options'')
      else (case interface_loop (net_name @ '':'') (fst (scan_lines vm_config)) of
          Some r \<Rightarrow> r
        | None \<Rightarrow> if snd (scan_lines vm_config) then Some (Err_Msg ''read Proxmox VM config'') else Some (Err_Msg ''Proxmox VM interface was not found'')))"

section \<open>The command\<close>

text \<open>The values of the flags; an empty text is a flag that was not given.\<close>

record egress_args =
  ea_targets :: string
  ea_control :: string
  ea_ntp :: "string list"
  ea_format :: string
  ea_check :: string
  ea_cluster_fw :: string
  ea_vm_config :: string
  ea_net :: string

definition string_list_set :: "string list \<Rightarrow> err + string list" where
  "string_list_set values =
     (if list_ex (\<lambda>v. trim_space v = []) values then Inl (Err_Msg ''value must not be empty'') else Inr (map trim_space values))"

definition some_but_not_all :: "string list \<Rightarrow> bool" where
  "some_but_not_all values \<longleftrightarrow> (let present = length (filter (\<lambda>v. v \<noteq> []) values) in present \<noteq> 0 \<and> present \<noteq> length values)"

definition ascii_lower :: "string \<Rightarrow> string" where
  "ascii_lower s = map (\<lambda>c. if 0x41 \<le> (of_char c :: nat) \<and> (of_char c :: nat) \<le> 0x5A then char_of (of_char c + (0x20 :: nat)) else c) s"

definition render_format :: "string \<Rightarrow> policy_file \<Rightarrow> err + string" where
  "render_format format p =
     (if ascii_lower (trim_space format) = ''pve'' then render_pve p
      else if ascii_lower (trim_space format) = ''json'' then Inr (policy_text p @ nl)
      else Inl (Err_Msg ''-format must be pve or json''))"

definition check_drift :: "host \<Rightarrow> string \<Rightarrow> string \<Rightarrow> err option" where
  "check_drift h path rendered =
     (if path = [] then None
      else (case h_read h path of
          None \<Rightarrow> Some Err_IO
        | Some current \<Rightarrow> if current \<noteq> rendered then Some (Err_Msg ''egress policy drift detected'') else None))"

definition check_activation :: "host \<Rightarrow> string \<Rightarrow> string \<Rightarrow> string \<Rightarrow> err option" where
  "check_activation h cluster vm net =
     (if cluster = [] then None
      else (case h_read h cluster of
          None \<Rightarrow> Some Err_IO
        | Some fw \<Rightarrow> (case h_read h vm of None \<Rightarrow> Some Err_IO | Some config \<Rightarrow> verify_pve_activation fw config net)))"

text \<open>What is written to the standard output, \<open>None\<close> in a check.\<close>

definition egress_run :: "ssh_lib \<Rightarrow> (string \<Rightarrow> err + target_spec list) \<Rightarrow> (string \<Rightarrow> parsed_url option) \<Rightarrow> host \<Rightarrow> egress_args \<Rightarrow> err + string option" where
  "egress_run lib decode url_parse h a =
     (case string_list_set (ea_ntp a) of
        Inl e \<Rightarrow> Inl e
      | Inr ntp \<Rightarrow>
          (let act = [trim_space (ea_cluster_fw a), trim_space (ea_vm_config a), trim_space (ea_net a)] in
           if trim_space (ea_targets a) = [] \<or> trim_space (ea_control a) = [] then Inl (Err_Msg ''-targets and -control are required'')
           else if ntp = [] then Inl (Err_Msg ''at least one -ntp trusted literal IP is required'')
           else if some_but_not_all act then Inl (Err_Msg ''-pve-cluster-fw, -pve-vm-config and -pve-net must be supplied together'')
           else (case open_targets lib decode (ea_targets a) h of
               Inl e \<Rightarrow> Inl e
             | Inr store \<Rightarrow>
                 (case egress_build (url_parse (trim_space (ea_control a))) (list_targets (Some store)) ntp of
                    Inl e \<Rightarrow> Inl e
                  | Inr p \<Rightarrow>
                      (case render_format (ea_format a) p of
                         Inl e \<Rightarrow> Inl e
                       | Inr rendered \<Rightarrow>
                           (case check_drift h (trim_space (ea_check a)) rendered of
                              Some e \<Rightarrow> Inl e
                            | None \<Rightarrow>
                                (case check_activation h (trim_space (ea_cluster_fw a)) (trim_space (ea_vm_config a)) (trim_space (ea_net a)) of
                                   Some e \<Rightarrow> Inl e
                                 | None \<Rightarrow> Inr (if trim_space (ea_check a) \<noteq> [] then None else Some rendered))))))))"

section \<open>The policy opens the endpoints of the inventory, and nothing else\<close>

definition destination_key :: "destination \<Rightarrow> string" where
  "destination_key d = join_host_port (de_ip d) (dec_int (uint (de_port d)))"

definition keyed :: "(string \<times> endpoint) list \<Rightarrow> bool" where
  "keyed m \<longleftrightarrow> unique_keys m \<and> (\<forall>k a. map_of m k = Some a \<longrightarrow> k = endpoint_key (eg_ip a) (eg_port a) \<and> eg_names a \<noteq> [])"

definition named :: "(string \<times> endpoint) list \<Rightarrow> (string \<times> string) set" where
  "named m = {(k, n). \<exists>a. map_of m k = Some a \<and> n \<in> set (eg_names a)}"

definition target_entries :: "target_spec list \<Rightarrow> (string \<times> string) set" where
  "target_entries ts = {(endpoint_key ip port, trim_space (ts_name t)) | t ip port. t \<in> set ts \<and> parse_literal_endpoint (ts_address t) = Inr (ip, port)}"

lemma target_entries_Cons:
  "parse_literal_endpoint (ts_address t) = Inr (ip, port) \<Longrightarrow>
   target_entries (t # ts) = insert (endpoint_key ip port, trim_space (ts_name t)) (target_entries ts)"
  by (auto simp: target_entries_def)

lemma collect_endpoints_exact:
  assumes "collect_endpoints ts m = Inr m'" and "keyed m"
  shows "keyed m' \<and> named m' = named m \<union> target_entries ts \<and> (\<forall>t \<in> set ts. is_ok (parse_literal_endpoint (ts_address t)) \<and> safe_label (trim_space (ts_name t)))"
  using assms
proof (induction ts arbitrary: m)
  case Nil
  then show ?case by (simp add: target_entries_def)
next
  case (Cons t ts)
  from Cons.prems(1) obtain ip port where l: "safe_label (trim_space (ts_name t))" and e: "parse_literal_endpoint (ts_address t) = Inr (ip, port)"
    by (auto simp: Let_def split: if_splits sum.splits)
  define key where "key = endpoint_key ip port"
  define agg where "agg = (case map_of m key of None \<Rightarrow> \<lparr>eg_ip = ip, eg_port = port, eg_names = []\<rparr> | Some a \<Rightarrow> a)"
  define m1 where "m1 = AList.update key (agg\<lparr>eg_names := List.insert (trim_space (ts_name t)) (eg_names agg)\<rparr>) m"
  have c: "collect_endpoints ts m1 = Inr m'"
    using Cons.prems(1) l e by (simp add: Let_def m1_def agg_def key_def)
  have look: "map_of m1 k = (if k = key then Some (agg\<lparr>eg_names := List.insert (trim_space (ts_name t)) (eg_names agg)\<rparr>) else map_of m k)" for k
    by (simp add: m1_def update_conv')
  have agg: "key = endpoint_key (eg_ip agg) (eg_port agg)"
    using Cons.prems(2) by (auto simp: agg_def keyed_def key_def split: option.split)
  have "unique_keys m1" using Cons.prems(2) by (simp add: keyed_def m1_def unique_keys_update)
  then have "keyed m1"
    using Cons.prems(2) agg unfolding keyed_def look by (auto simp: insert_Nil List.insert_def)
  moreover have "named m1 = insert (key, trim_space (ts_name t)) (named m)"
    unfolding named_def look by (auto simp: agg_def split: option.splits if_splits)
  ultimately show ?case
    using Cons.IH [OF c] l e target_entries_Cons [OF e] by (auto simp: key_def)
qed

lemma ntp_loop_exact:
  "ntp_loop seen raws = Inr ds \<Longrightarrow>
     de_ip ` set ds = {addr_string ip | raw ip. raw \<in> set raws \<and> parse_concrete_ip raw = Some ip} - set seen
     \<and> (\<forall>d \<in> set ds. de_port d = 123 \<and> de_names d = []) \<and> (\<forall>raw \<in> set raws. parse_concrete_ip raw \<noteq> None)"
proof (induction seen raws arbitrary: ds rule: ntp_loop.induct)
  case (2 seen raw raws)
  then obtain ip where ip: "parse_concrete_ip raw = Some ip" by (auto split: option.splits)
  have s: "{addr_string i | r i. r \<in> set (raw # raws) \<and> parse_concrete_ip r = Some i}
      = insert (addr_string ip) {addr_string i | r i. r \<in> set raws \<and> parse_concrete_ip r = Some i}"
    using ip by auto
  show ?case
  proof (cases "addr_string ip \<in> set seen")
    case True
    with 2 ip show ?thesis unfolding s by (simp add: Let_def)
  next
    case False
    with 2(3) ip obtain es where es: "ntp_loop (addr_string ip # seen) raws = Inr es" "ds = \<lparr>de_ip = addr_string ip, de_port = 123, de_names = []\<rparr> # es"
      by (auto simp: Let_def split: sum.splits)
    from 2(2) [OF ip refl False es(1)] es(2) ip False show ?thesis unfolding s by auto
  qed
qed simp

lemma egress_build_ok:
  assumes "egress_build url targets ntps = Inr p"
  obtains m ntp where "parse_control url = Inr (ep_control p)" and "collect_endpoints targets [] = Inr m" and "ntp_loop [] ntps = Inr ntp"
    and "set (ep_ntp p) = set ntp" and "ep_targets p = sort_by destination_less (map (endpoint_destination \<circ> snd) m)" and "ep_version p = egress_version"
  using assms by (auto simp: egress_build_def parse_ntp_sources_def split: sum.splits if_splits)

lemma destination_key_endpoint: "destination_key (endpoint_destination a) = endpoint_key (eg_ip a) (eg_port a)"
  by (simp add: destination_key_def endpoint_destination_def endpoint_key_def)

lemma keyed_keys: "keyed m \<Longrightarrow> map destination_key (map (endpoint_destination \<circ> snd) m) = map fst m"
  by (auto simp: keyed_def unique_keys_def destination_key_endpoint)

lemma keyed_named:
  assumes "keyed m"
  shows "{(destination_key d, n) | d n. d \<in> (endpoint_destination \<circ> snd) ` set m \<and> n \<in> set (de_names d)} = named m" (is "?L = _")
proof -
  have look: "(k, a) \<in> set m \<longleftrightarrow> map_of m k = Some a" for k a using assms by (simp add: keyed_def unique_keys_def)
  have key: "destination_key (endpoint_destination a) = k" if "map_of m k = Some a" for k a
    using assms that by (simp add: keyed_def destination_key_endpoint)
  have names: "set (de_names (endpoint_destination a)) = set (eg_names a)" for a by (simp add: endpoint_destination_def)
  show ?thesis
  proof (rule set_eqI, rule iffI)
    fix x assume "x \<in> ?L"
    then obtain k a n where "(k, a) \<in> set m" "n \<in> set (eg_names a)" "x = (destination_key (endpoint_destination a), n)" using names by auto
    then show "x \<in> named m" using look key by (auto simp: named_def)
  next
    fix x assume "x \<in> named m"
    then obtain k n a where x: "x = (k, n)" "map_of m k = Some a" "n \<in> set (eg_names a)" by (auto simp: named_def)
    then have "endpoint_destination a \<in> (endpoint_destination \<circ> snd) ` set m" using look [of k a] by force
    with x key [OF x(2)] names show "x \<in> ?L" by blast
  qed
qed

text \<open>
  C24. The egress policy opens exactly what the inventory lists. In a policy that was built, every target has a valid name and a literal, global-unicast endpoint; the
  endpoints of the policy are distinct, each is that of a target and each target's is there, under the names of just the targets that have it; the time sources are
  those that were given, at port 123; and the control plane is reached at a global-unicast literal address.
\<close>

theorem egress_policy_exact:
  assumes "egress_build url targets ntps = Inr p"
  shows "{(destination_key d, n) | d n. d \<in> set (ep_targets p) \<and> n \<in> set (de_names d)}
      = {(endpoint_key ip port, trim_space (ts_name t)) | t ip port. t \<in> set targets \<and> parse_literal_endpoint (ts_address t) = Inr (ip, port)}
    \<and> distinct (map destination_key (ep_targets p)) \<and> (\<forall>d \<in> set (ep_targets p). de_names d \<noteq> [])
    \<and> (\<forall>t \<in> set targets. is_ok (parse_literal_endpoint (ts_address t)) \<and> safe_label (trim_space (ts_name t)))
    \<and> de_ip ` set (ep_ntp p) = {addr_string ip | raw ip. raw \<in> set ntps \<and> parse_concrete_ip raw = Some ip}
    \<and> (\<forall>d \<in> set (ep_ntp p). de_port d = 123) \<and> parse_control url = Inr (ep_control p)"
proof -
  obtain m ntp where c: "parse_control url = Inr (ep_control p)" and m: "collect_endpoints targets [] = Inr m" and n: "ntp_loop [] ntps = Inr ntp"
    and np: "set (ep_ntp p) = set ntp" and tp: "ep_targets p = sort_by destination_less (map (endpoint_destination \<circ> snd) m)"
    using assms by (rule egress_build_ok)
  have "keyed []" by (simp add: keyed_def)
  note k = collect_endpoints_exact [OF m this]
  have named: "named m = target_entries targets" using k by (simp add: named_def)
  have "mset (map destination_key (ep_targets p)) = mset (map destination_key (map (endpoint_destination \<circ> snd) m))"
    unfolding tp by (metis mset_map mset_sort_by)
  then have "distinct (map destination_key (ep_targets p)) = distinct (map destination_key (map (endpoint_destination \<circ> snd) m))"
    by (rule mset_eq_imp_distinct_iff)
  moreover have km: "keyed m" using k by blast
  moreover from km have "distinct (map fst m)" by (simp add: keyed_def unique_keys_def)
  ultimately have d: "distinct (map destination_key (ep_targets p))" by (simp only: keyed_keys)
  have "de_names x \<noteq> []" if "x \<in> set (ep_targets p)" for x
    using that k by (auto simp: tp endpoint_destination_def keyed_def unique_keys_def)
  then show ?thesis
    using keyed_named [of m] k named ntp_loop_exact [OF n] np c d by (simp add: tp target_entries_def)
qed

section \<open>The file has one rule for each destination\<close>

lemma hex_digit_plain: "n < 16 \<Longrightarrow> hex_digit n \<noteq> CHR 0x0A"
  by (auto simp: hex_digit_def dest: arg_cong [of _ _ "of_char :: char \<Rightarrow> nat"])

lemma hex_text_plain: "CHR 0x0A \<notin> set (hex_text n)"
proof (induction n rule: hex_text.induct)
  case (1 n)
  have "nat (n mod 16) < 16" "n < 16 \<Longrightarrow> nat n < 16" by linarith+
  with 1 hex_digit_plain [of "nat n"] hex_digit_plain [of "nat (n mod 16)"] show ?case
    by (subst hex_text.simps) auto
qed

lemma dec_nat_plain: "CHR 0x0A \<notin> set (dec_nat n)"
  using dec_nat_digits(1) [of n] by (auto simp: list_all_iff digit_def)

lemma dec_int_plain: "CHR 0x0A \<notin> set (dec_int i)"
  using dec_nat_plain by (simp add: dec_int_def)

lemma join_plain: "CHR 0x0A \<notin> set d \<Longrightarrow> \<forall>p \<in> set ps. CHR 0x0A \<notin> set p \<Longrightarrow> CHR 0x0A \<notin> set (join_with d ps)"
  using set_join [of d ps] by blast

lemma addr_string_plain: "addr_zone a = [] \<Longrightarrow> CHR 0x0A \<notin> set (addr_string a)"
proof (cases a)
  case (V4 os)
  have "CHR 0x0A \<notin> set (join_with ''.'' (map dec_int os))" using dec_int_plain by (intro join_plain) auto
  with V4 show ?thesis by simp
next
  case (V6 gs zone)
  moreover assume "addr_zone a = []"
  moreover have "CHR 0x0A \<notin> set (join_with '':'' (map hex_text hs))" for hs using hex_text_plain by (intro join_plain) auto
  ultimately show ?thesis by (auto split: option.split)
qed

lemma parse_zone: "parse_addr s = Some a \<Longrightarrow> CHR ''%'' \<notin> set s \<Longrightarrow> addr_zone a = []"
  by (auto simp: parse_addr_def parse_ipv6_def Let_def split: option.splits if_splits)

lemma set_trim_space: "set (trim_space s) \<subseteq> set s"
  using set_mono_prefix [OF trim_right_prefix [of "trim_left s"]] set_mono_suffix [OF strip_front_suffix [of ws_runes s]]
  by (auto simp: trim_space_def trim_left_def)

lemma concrete_plain: "parse_concrete_ip raw = Some ip \<Longrightarrow> CHR ''%'' \<notin> set raw \<Longrightarrow> CHR 0x0A \<notin> set (addr_string ip)"
proof -
  assume "parse_concrete_ip raw = Some ip" and z: "CHR ''%'' \<notin> set raw"
  then obtain a where a: "parse_addr (trim_space raw) = Some a" "ip = addr_unmap a"
    by (auto simp: parse_concrete_ip_def Let_def split: option.splits if_splits)
  then have "addr_zone a = []" using parse_zone z set_trim_space by blast
  then have "addr_zone ip = []" unfolding a(2) by (cases a) auto
  then show ?thesis by (rule addr_string_plain)
qed

lemma split_host_subset: "split_host_port hp = Some (host, port) \<Longrightarrow> set host \<subseteq> set hp"
  by (auto simp: split_host_port_def Let_def before_last_def split: if_splits dest: set_takeWhileD in_set_takeD intro: list.set_sel(2))

lemma endpoint_plain:
  assumes "parse_literal_endpoint raw = Inr (ip, port)" and "CHR ''%'' \<notin> set raw"
  shows "CHR 0x0A \<notin> set (endpoint_key ip port)"
proof -
  obtain host port_text where h: "split_host_port (trim_space raw) = Some (host, port_text)" "parse_concrete_ip host = Some ip"
    using assms(1) by (auto simp: parse_literal_endpoint_def split: option.splits if_splits)
  then have "CHR ''%'' \<notin> set host" using split_host_subset set_trim_space assms(2) by blast
  with concrete_plain [OF h(2)] dec_int_plain show ?thesis by (simp add: endpoint_key_def join_host_port_def)
qed

lemma safe_label_plain: "safe_label s \<Longrightarrow> CHR 0x0A \<notin> set s"
  by (auto simp: safe_label_def list_all_iff label_char_def Let_def)

lemma set_destination_key: "set (de_ip d) \<subseteq> set (destination_key d)"
  by (auto simp: destination_key_def join_host_port_def)

lemma control_plain:
  assumes "parse_control (Some u) = Inr d" and "CHR ''%'' \<notin> set (pu_hostname u)"
  shows "CHR 0x0A \<notin> set (de_ip d)"
proof -
  obtain ip where "parse_concrete_ip (pu_hostname u) = Some ip" "de_ip d = addr_string ip"
    using assms(1) by (auto simp: parse_control_def split: if_splits option.splits)
  with concrete_plain assms(2) show ?thesis by simp
qed

lemma split_on_append: "split_on d (x @ d # y) = split_on d x @ split_on d y"
proof (induction x)
  case (Cons c x)
  have "split_on d x \<noteq> []" by (induction x) (auto split: list.splits)
  with Cons show ?case by (cases "split_on d x") auto
qed simp

lemma split_lines: "\<forall>l \<in> set ls. CHR 0x0A \<notin> set l \<Longrightarrow> split_on CHR 0x0A (concat (map (\<lambda>l. l @ nl) ls)) = ls @ [[]]"
  by (induction ls) (simp_all add: nl_def split_on_first)

lemma rule_plain:
  assumes "CHR 0x0A \<notin> set (de_ip d)" and "CHR 0x0A \<notin> set proto" and "CHR 0x0A \<notin> set label"
  shows "CHR 0x0A \<notin> set (pve_rule d proto label)"
  using assms dec_int_plain by (simp add: pve_rule_def)

lemma header_plain: "l \<in> set (pve_header (policy_sha256 p)) \<Longrightarrow> CHR 0x0A \<notin> set l"
proof -
  have "CHR 0x0A \<notin> set (sha256_hex x)" for x
  proof
    assume "CHR 0x0A \<in> set (sha256_hex x)"
    then have "id_char (CHR 0x0A)" using hex_encode_id_chars [of "sha256 x"] by (auto simp: sha256_hex_def list_all_iff)
    then show False by (simp add: id_char_def)
  qed
  then show "l \<in> set (pve_header (policy_sha256 p)) \<Longrightarrow> CHR 0x0A \<notin> set l" by (auto simp: pve_header_def policy_sha256_def)
qed

lemma render_pve_ok:
  "render_pve p = Inr out \<Longrightarrow> out = concat (map (\<lambda>l. l @ nl) (pve_header (policy_sha256 p) @ pve_rules p))"
  by (auto simp: render_pve_def split: if_splits option.splits)


section \<open>Examples, and an address with a zone\<close>

definition demo_url :: parsed_url where
  "demo_url = \<lparr>pu_scheme = ''https'', pu_host = ''192.0.2.10:9091'', pu_hostname = ''192.0.2.10'', pu_port = ''9091'', pu_user = False, pu_raw_query = [],
     pu_fragment = [], pu_path = []\<rparr>"

definition egress_target :: "string \<Rightarrow> string \<Rightarrow> target_spec" where
  "egress_target name address = \<lparr>ts_name = name, ts_address = address, ts_user = ''u'', ts_host_key = []\<rparr>"

definition egress_demo :: "string \<Rightarrow> policy_file" where
  "egress_demo ip = \<lparr>ep_version = egress_version, ep_control = \<lparr>de_ip = ''192.0.2.10'', de_port = 9091, de_names = []\<rparr>,
     ep_targets = [\<lparr>de_ip = ''192.0.2.53'', de_port = 22, de_names = [''target-a'', ''target-a-alt'']\<rparr>],
     ep_ntp = [\<lparr>de_ip = ip, de_port = 123, de_names = []\<rparr>]\<rparr>"

definition egress_targets :: "target_spec list" where
  "egress_targets = [egress_target ''target-a'' ''192.0.2.53:22'', egress_target ''target-a-alt'' ''192.0.2.53:22'']"

lemma demo_built: "egress_build (Some demo_url) egress_targets [''192.0.2.1''] = Inr (egress_demo ''192.0.2.1'')"
  by code_simp

lemma demo_checked: "is_ok (parse_literal_destination (ep_control (egress_demo ip)))" "list_all (is_ok \<circ> parse_literal_destination) (ep_targets (egress_demo ip))"
  by (simp_all add: egress_demo_def) code_simp+

lemma demo_rendered:
  assumes "is_ok (parse_literal_destination \<lparr>de_ip = ip, de_port = 123, de_names = []\<rparr>)"
  shows "render_pve (egress_demo ip) = Inr (concat (map (\<lambda>l. l @ nl) (pve_header (policy_sha256 (egress_demo ip)) @ pve_rules (egress_demo ip))))"
proof -
  obtain a where "parse_literal_destination \<lparr>de_ip = ip, de_port = 123, de_names = []\<rparr> = Inr (a, 123)"
    using assms by (auto simp: parse_literal_destination_def is_ok_def split: sum.splits option.splits if_splits)
  then have "check_ntp (ep_ntp (egress_demo ip)) = None" by (simp add: egress_demo_def)
  then show ?thesis using demo_checked [of ip] by (simp add: render_pve_def) (simp add: egress_demo_def)
qed

theorem egress_policy_exact_witness:
  "(''192.0.2.53:22'', ''target-a-alt'') \<in> {(destination_key d, n) | d n. d \<in> set (ep_targets (egress_demo ''192.0.2.1'')) \<and> n \<in> set (de_names d)}
    \<and> parse_control (Some demo_url) = Inr (ep_control (egress_demo ''192.0.2.1''))"
proof -
  note e = egress_policy_exact [OF demo_built]
  have k: "destination_key (hd (ep_targets (egress_demo ''192.0.2.1''))) = ''192.0.2.53:22''" by code_simp
  have "(''192.0.2.53:22'', ''target-a-alt'') \<in> {(destination_key d, n) | d n. d \<in> set (ep_targets (egress_demo ''192.0.2.1'')) \<and> n \<in> set (de_names d)}"
    using k by (force simp: egress_demo_def)
  with e show ?thesis by blast
qed


text \<open>
  An IPv6 address may have a zone of any text, and the program writes it into the file: a time source whose zone has a line end is accepted, passes the checks of the
  rendering, and puts a rule into the file that lets everything out.
\<close>

definition zoned_source :: string where
  "zoned_source = ''2001:db8::1%x'' @ nl @ ''OUT ACCEPT #''"

lemma zone_injects_rule:
  "\<exists>out. egress_build (Some demo_url) egress_targets [zoned_source] = Inr (egress_demo zoned_source) \<and> render_pve (egress_demo zoned_source) = Inr out
     \<and> ''OUT ACCEPT # -p udp -dport 123 -log nolog # sentinel-ntp'' \<in> set (split_on CHR 0x0A out)"
proof -
  have b: "egress_build (Some demo_url) egress_targets [zoned_source] = Inr (egress_demo zoned_source)" by code_simp
  have "is_ok (parse_literal_destination \<lparr>de_ip = zoned_source, de_port = 123, de_names = []\<rparr>)" by code_simp
  note r = demo_rendered [OF this]
  let ?l = "''OUT ACCEPT # -p udp -dport 123 -log nolog # sentinel-ntp''" let ?k = "''OUT ACCEPT -dest 2001:db8::1%x''"
  have rule: "pve_rule \<lparr>de_ip = zoned_source, de_port = 123, de_names = []\<rparr> ''udp'' ''sentinel-ntp'' = ?k @ nl @ ?l" by code_simp
  have "concat (map (\<lambda>l. l @ nl) (pve_header h @ pve_rules (egress_demo zoned_source))) =
      concat (map (\<lambda>l. l @ nl) (pve_header h @ butlast (pve_rules (egress_demo zoned_source)))) @ ?k @ CHR 0x0A # ?l @ nl" for h
    using rule by (simp add: pve_rules_def egress_demo_def nl_def)
  then have out: "split_on CHR 0x0A (concat (map (\<lambda>l. l @ nl) (pve_header h @ pve_rules (egress_demo zoned_source)))) =
      split_on CHR 0x0A (concat (map (\<lambda>l. l @ nl) (pve_header h @ butlast (pve_rules (egress_demo zoned_source)))) @ ?k) @ split_on CHR 0x0A (?l @ nl)" for h
    by (metis append_assoc split_on_append)
  have "?l \<in> set (split_on CHR 0x0A (?l @ nl))" by (simp add: nl_def)
  then have "?l \<in> set (split_on CHR 0x0A (concat (map (\<lambda>l. l @ nl) (pve_header (policy_sha256 (egress_demo zoned_source)) @ pve_rules (egress_demo zoned_source)))))"
    unfolding out by (simp only: set_append UnI2)
  with b r show ?thesis by (intro exI conjI)
qed

end
